(* ===== verification/Prelude.thy ===== *)
theory Prelude
  imports Main "HOL-Library.Word" "HOL-Library.Monad_Syntax"
begin

text \<open>
  Shared vocabulary of the development: the C integer types at their width, the
  little-endian byte view of an integer (what \<open>memcpy\<close> between an integer array and a
  byte buffer does on the x86-64 and AArch64 hosts this code runs on), byte buffers and
  word-indexed memories with their read and write laws, and the lemma collections the
  component theories extend.
\<close>

unbundle bit_operations_syntax

type_synonym u8 = "8 word"
type_synonym u32 = "32 word"
type_synonym u64 = "64 word"

named_theorems wire_simps "layout of the structures that cross the sockets"
named_theorems io_simps "single steps of the transfer loops"
named_theorems dut_simps "effects of the simulator's building blocks"

section \<open>Little-endian integers\<close>

fun bytes_le :: "nat \<Rightarrow> 'a::len word \<Rightarrow> u8 list" where
  "bytes_le 0 w = []"
| "bytes_le (Suc n) w = ucast w # bytes_le n (drop_bit 8 w)"

fun word_le :: "u8 list \<Rightarrow> 'a::len word" where
  "word_le [] = 0"
| "word_le (b # bs) = ucast b OR push_bit 8 (word_le bs)"

lemma length_bytes_le [simp]: "length (bytes_le n w) = n"
  by (induction n arbitrary: w) auto

lemma word_le_bytes_le_ucast:
  "word_le (bytes_le n (w :: 'b::len word)) = take_bit (8 * n) (ucast w :: 'a::len word)"
proof (induction n arbitrary: w)
  case 0
  then show ?case by simp
next
  case (Suc n)
  have "(ucast (ucast w :: u8) OR push_bit 8 (take_bit (8 * n) (ucast (drop_bit 8 w))) :: 'a word)
        = take_bit (8 * Suc n) (ucast w)"
    by (rule bit_word_eqI) (auto simp: bit_simps)
  then show ?case by (simp add: Suc)
qed

lemma word_le_bytes_le: "word_le (bytes_le n w) = take_bit (8 * n) w"
  by (simp add: word_le_bytes_le_ucast)

lemma word_le_bytes_le_full [simp]:
  "LENGTH('a::len) \<le> 8 * n \<Longrightarrow> word_le (bytes_le n (w :: 'a word)) = w"
  by (simp add: word_le_bytes_le take_bit_word_eq_self)

lemma bit_word_le_high:
  "8 * length bs \<le> i \<Longrightarrow> \<not> bit (word_le bs :: 'a::len word) i"
  by (induction bs arbitrary: i) (auto simp: bit_simps dest: bit_imp_le_length)

lemma bytes_le_word_le:
  "8 * length bs \<le> LENGTH('a::len) \<Longrightarrow> bytes_le (length bs) (word_le bs :: 'a word) = bs"
proof (induction bs)
  case Nil
  then show ?case by simp
next
  case (Cons b bs)
  have low: "ucast (ucast b OR push_bit 8 (word_le bs :: 'a word) :: 'a word) = b"
    using Cons.prems by (auto intro!: bit_word_eqI simp: bit_simps)
  have high: "i + 8 < LENGTH('a)" if "bit (word_le bs :: 'a word) i" for i
  proof -
    have "i < 8 * length bs"
      using bit_word_le_high [where 'a = 'a, of bs i] that by (cases "8 * length bs \<le> i") auto
    then show ?thesis using Cons.prems by simp
  qed
  have "drop_bit 8 (ucast b OR push_bit 8 (word_le bs :: 'a word)) = (word_le bs :: 'a word)"
    by (rule bit_word_eqI) (auto simp: bit_simps add.commute dest: high bit_imp_le_length)
  with low Cons show ?case by simp
qed

lemma word_le_append:
  "word_le (xs @ ys) = (word_le xs OR push_bit (8 * length xs) (word_le ys) :: 'a::len word)"
  by (induction xs) (simp_all add: push_bit_or or.assoc)

subsection \<open>Arrays of 32-bit words seen as bytes\<close>

definition bytes_of_words :: "u32 list \<Rightarrow> u8 list" where
  "bytes_of_words ws = concat (map (bytes_le 4) ws)"

fun words_of_bytes :: "u8 list \<Rightarrow> u32 list" where
  "words_of_bytes (b0 # b1 # b2 # b3 # bs) = word_le [b0, b1, b2, b3] # words_of_bytes bs"
| "words_of_bytes _ = []"

lemma bytes_of_words_simps [simp]:
  "bytes_of_words [] = []"
  "bytes_of_words (w # ws) = bytes_le 4 w @ bytes_of_words ws"
  "bytes_of_words (ws @ vs) = bytes_of_words ws @ bytes_of_words vs"
  by (simp_all add: bytes_of_words_def)

lemma length_bytes_of_words [simp]: "length (bytes_of_words ws) = 4 * length ws"
  by (induction ws) auto

lemma words_of_bytes_Cons4:
  "length bs = 4 \<Longrightarrow> words_of_bytes (bs @ cs) = word_le bs # words_of_bytes cs"
  by (cases bs rule: words_of_bytes.cases) auto

lemma words_of_bytes_of_words [simp]: "words_of_bytes (bytes_of_words ws) = ws"
proof (induction ws)
  case Nil
  then show ?case by simp
next
  case (Cons w ws)
  have "word_le (bytes_le 4 w) = w" by (rule word_le_bytes_le_full) simp
  with Cons show ?case by (simp add: words_of_bytes_Cons4)
qed

lemma bytes_of_words_of_bytes:
  "length bs mod 4 = 0 \<Longrightarrow> bytes_of_words (words_of_bytes bs) = bs"
proof (induction bs rule: words_of_bytes.induct)
  case (1 b0 b1 b2 b3 bs)
  have "bytes_le 4 (word_le [b0, b1, b2, b3] :: u32) = [b0, b1, b2, b3]"
    using bytes_le_word_le [where 'a = 32, of "[b0, b1, b2, b3]"] by (simp del: bytes_le.simps word_le.simps add: numeral_eq_Suc)
  with 1 show ?case by (simp del: bytes_le.simps word_le.simps)
qed simp_all

lemma length_words_of_bytes [simp]: "length (words_of_bytes bs) = length bs div 4"
  by (induction bs rule: words_of_bytes.induct) auto

lemma take_bytes_of_words:
  "take (4 * n) (bytes_of_words ws) = bytes_of_words (take n ws)"
proof (induction ws arbitrary: n)
  case Nil
  then show ?case by simp
next
  case (Cons w ws)
  then show ?case by (cases n) (auto simp: take_append)
qed

section \<open>Buffers and memories\<close>

text \<open>
  \<open>overwrite buf off bs\<close> is \<open>memcpy(&buf[off], bs, |bs|)\<close> on a buffer held as a list;
  \<open>mem_write\<close>/\<open>mem_read\<close> are the same on a memory addressed by its element index.
\<close>

definition overwrite :: "'a list \<Rightarrow> nat \<Rightarrow> 'a list \<Rightarrow> 'a list" where
  "overwrite buf off bs = take off buf @ bs @ drop (off + length bs) buf"

definition mem_write :: "(nat \<Rightarrow> 'a) \<Rightarrow> nat \<Rightarrow> 'a list \<Rightarrow> (nat \<Rightarrow> 'a)" where
  "mem_write m off bs = (\<lambda>i. if off \<le> i \<and> i < off + length bs then bs ! (i - off) else m i)"

definition mem_read :: "(nat \<Rightarrow> 'a) \<Rightarrow> nat \<Rightarrow> nat \<Rightarrow> 'a list" where
  "mem_read m off n = map m [off..<off + n]"

lemma length_mem_read [simp]: "length (mem_read m off n) = n"
  by (simp add: mem_read_def)

lemma length_overwrite [simp]:
  "off + length bs \<le> length buf \<Longrightarrow> length (overwrite buf off bs) = length buf"
  by (simp add: overwrite_def)

lemma overwrite_0_full [simp]: "length buf \<le> length bs \<Longrightarrow> overwrite buf 0 bs = bs"
  by (simp add: overwrite_def)

lemma overwrite_Nil [simp]: "off \<le> length buf \<Longrightarrow> overwrite buf off [] = buf"
  by (simp add: overwrite_def)

lemma overwrite_overwrite:
  "off + length bs + length cs \<le> length buf \<Longrightarrow>
   overwrite (overwrite buf off bs) (off + length bs) cs = overwrite buf off (bs @ cs)"
  by (simp add: overwrite_def take_append drop_append ac_simps)

lemma mem_read_write_same [simp]:
  "n = length bs \<Longrightarrow> mem_read (mem_write m off bs) off n = bs"
  by (rule nth_equalityI) (auto simp: mem_read_def mem_write_def)

lemma mem_write_outside:
  "i < off \<or> off + length bs \<le> i \<Longrightarrow> mem_write m off bs i = m i"
  by (auto simp: mem_write_def)

lemma mem_read_write_disjoint:
  "off' + n \<le> off \<or> off + length bs \<le> off' \<Longrightarrow>
   mem_read (mem_write m off bs) off' n = mem_read m off' n"
  by (auto simp: mem_read_def mem_write_def)

lemma mem_write_Nil [simp]: "mem_write m off [] = m"
  by (rule ext) (auto simp: mem_write_def)

lemma mem_write_append:
  "mem_write (mem_write m off bs) (off + length bs) cs = mem_write m off (bs @ cs)"
  by (auto simp: mem_write_def fun_eq_iff nth_append)

lemma mem_write_read_self [simp]: "mem_write m off (mem_read m off n) = m"
  by (auto simp: mem_write_def mem_read_def fun_eq_iff)

lemma mem_read_append:
  "mem_read m off (n + k) = mem_read m off n @ mem_read m (off + n) k"
  unfolding mem_read_def add.assoc [symmetric] map_append [symmetric]
  by (subst upt_add_eq_append) simp_all

lemma nth_mem_read [simp]: "i < n \<Longrightarrow> mem_read m off n ! i = m (off + i)"
  by (simp add: mem_read_def)

lemma take_mem_read [simp]: "k \<le> n \<Longrightarrow> take k (mem_read m off n) = mem_read m off k"
  by (simp add: mem_read_def take_map)

end
