(* ===== verification/Fpga.thy ===== *)
theory Fpga
  imports Prelude
begin

text \<open>
  \<open>client/fpga.h\<close>: the context every function of the client receives, and the interface of
  the two link-time alternatives behind it (the simulator's sockets, \<open>fpga_rtl.c\<close>, and the
  AWS F1 SDK, \<open>fpga_aws.c\<close>). The part of the context common to both builds is
  \<open>FPGAContext\<close>; each build extends it by its own handles.
\<close>

record AXIBaseAddress =
  axil_base :: u32
  tt :: u32
  transplant_data :: u32
  transplant_ctl :: u32
  ba_transplant_stopCPU :: u32
  message_queue :: u32
  dram_base :: u64
  pt_base :: u64
  page_base :: u64
  axi_base :: u64
  message :: u64

record FPGAContext =
  dram_size :: u64
  base_address :: AXIBaseAddress

record FPGAContext_rtl = FPGAContext +
  axil_fd :: int
  axi_fd :: int

record FPGAContext_aws = FPGAContext +
  axil :: int
  read_fd :: int
  write_fd :: int

text \<open>
  The four accessors as the rest of the client sees them. An argument \<open>data\<close> is what the
  pointed-to storage holds before the call, a result what it holds after; \<open>None\<close> is a call
  that never returns.
\<close>

record ('z, 's) backend =
  readAXIL :: "'z FPGAContext_scheme \<Rightarrow> u32 \<Rightarrow> u32 \<Rightarrow> 's \<Rightarrow> (int \<times> u32 \<times> 's) option"
  writeAXIL :: "'z FPGAContext_scheme \<Rightarrow> u32 \<Rightarrow> u32 \<Rightarrow> 's \<Rightarrow> (int \<times> 's) option"
  readAXI :: "'z FPGAContext_scheme \<Rightarrow> u64 \<Rightarrow> u8 list \<Rightarrow> u64 \<Rightarrow> 's \<Rightarrow> (int \<times> u8 list \<times> 's) option"
  writeAXI :: "'z FPGAContext_scheme \<Rightarrow> u64 \<Rightarrow> u8 list \<Rightarrow> u64 \<Rightarrow> 's \<Rightarrow> (int \<times> 's) option"

datatype MagicTypes = cycleStep

fun MagicTypes_value :: "MagicTypes \<Rightarrow> int" where
  "MagicTypes_value cycleStep = 0"

text \<open>
  The addresses both \<open>initFPGAContext\<close> functions set: all but \<open>transplant_stopCPU\<close>,
  which neither initialises.
\<close>

definition standard_base :: "u64 \<Rightarrow> AXIBaseAddress \<Rightarrow> AXIBaseAddress" where
  "standard_base dsize b0 = b0\<lparr>axil_base := 0, transplant_data := 0, tt := 0x8000,
     transplant_ctl := 0x9000, message_queue := 0x10000, dram_base := 0, pt_base := 0,
     page_base := drop_bit 8 dsize, axi_base := dsize, message := 0x8000\<rparr>"

text \<open>An instance of the storage \<open>initFPGAContext\<close> fills in.\<close>

definition unset_base :: AXIBaseAddress where
  "unset_base = \<lparr>axil_base = 0, tt = 0, transplant_data = 0, transplant_ctl = 0,
     ba_transplant_stopCPU = 0, message_queue = 0, dram_base = 0, pt_base = 0, page_base = 0,
     axi_base = 0, message = 0\<rparr>"

end
