(* ===== verification/Fpga_Aws.thy ===== *)
theory Fpga_Aws
  imports Prelude Fpga
begin

text \<open>
  \<open>client/fpga_aws.c\<close>: the accessors of the AWS F1 build. The SDK (\<open>fpga_mgmt\<close>,
  \<open>fpga_pci\<close>, \<open>fpga_dma\<close>, the logger) is not part of the repository: it is the record
  \<open>aws_sdk\<close> of functions over an arbitrary world \<open>'w\<close>, each returning the code the SDK
  function returns. \<open>fail_on(rc, label, ...)\<close> of the SDK jumps to the label when \<open>rc\<close> is
  not zero.
\<close>

record image_info =
  status :: int
  spec_vendor_id :: u32
  spec_device_id :: u32

record 'w aws_sdk =
  fpga_mgmt_init :: "'w \<Rightarrow> int \<times> 'w"
  fpga_mgmt_describe_local_image :: "int \<Rightarrow> 'w \<Rightarrow> int \<times> image_info \<times> 'w"
  fpga_pci_rescan_slot_app_pfs :: "int \<Rightarrow> 'w \<Rightarrow> int \<times> 'w"
  fpga_pci_attach :: "int \<Rightarrow> int \<Rightarrow> 'w \<Rightarrow> int \<times> int \<times> 'w"
  fpga_pci_detach :: "int \<Rightarrow> 'w \<Rightarrow> int \<times> 'w"
  fpga_pci_peek :: "int \<Rightarrow> u32 \<Rightarrow> u32 \<Rightarrow> 'w \<Rightarrow> int \<times> u32 \<times> 'w"
  fpga_pci_poke :: "int \<Rightarrow> u32 \<Rightarrow> u32 \<Rightarrow> 'w \<Rightarrow> int \<times> 'w"
  fpga_dma_open_queue :: "int \<Rightarrow> bool \<Rightarrow> 'w \<Rightarrow> int \<times> 'w"
  fpga_dma_burst_read :: "int \<Rightarrow> u8 list \<Rightarrow> u64 \<Rightarrow> u64 \<Rightarrow> 'w \<Rightarrow> int \<times> u8 list \<times> 'w"
  fpga_dma_burst_write :: "int \<Rightarrow> u8 list \<Rightarrow> u64 \<Rightarrow> u64 \<Rightarrow> 'w \<Rightarrow> int \<times> 'w"
  log_init :: "'w \<Rightarrow> int \<times> 'w"
  log_attach :: "'w \<Rightarrow> int \<times> 'w"
  sdk_close :: "int \<Rightarrow> 'w \<Rightarrow> int \<times> 'w"
  FPGA_STATUS_LOADED :: int
  PCI_BAR_HANDLE_INIT :: int

definition pci_vendor_id :: u32 where
  "pci_vendor_id = 0x1D0F"

definition pci_device_id :: u32 where
  "pci_device_id = 0xF000"

definition expected_ids :: "image_info \<Rightarrow> bool" where
  "expected_ids info \<longleftrightarrow> spec_vendor_id info = pci_vendor_id \<and> spec_device_id info = pci_device_id"

definition check_afi_ready :: "'w aws_sdk \<Rightarrow> int \<Rightarrow> 'w \<Rightarrow> int \<times> 'w" where
  "check_afi_ready sdk slot_id w =
     (let (rc, info, w1) = fpga_mgmt_describe_local_image sdk slot_id w in
      if rc \<noteq> 0 then (1, w1)
      else if status info \<noteq> FPGA_STATUS_LOADED sdk then (1, w1)
      else if expected_ids info then (rc, w1)
      else
        let (rc, w2) = fpga_pci_rescan_slot_app_pfs sdk slot_id w1 in
        if rc \<noteq> 0 then (1, w2)
        else
          let (rc, info, w3) = fpga_mgmt_describe_local_image sdk slot_id w2 in
          if rc \<noteq> 0 then (1, w3)
          else if expected_ids info then (rc, w3) else (1, w3))"

definition releaseFPGAContext_aws :: "'w aws_sdk \<Rightarrow> FPGAContext_aws \<Rightarrow> 'w \<Rightarrow> int \<times> 'w" where
  "releaseFPGAContext_aws sdk c w =
     (let res0 = (0 :: int);
          (res1, w1) = (if axil c \<noteq> PCI_BAR_HANDLE_INIT sdk then fpga_pci_detach sdk (axil c) w
                        else (res0, w));
          (res2, w2) = (if read_fd c > 0 then sdk_close sdk (read_fd c) w1 else (res1, w1));
          (res3, w3) = (if write_fd c > 0 then sdk_close sdk (write_fd c) w2 else (res2, w2))
      in (res3, w3))"

text \<open>Every failure of the sequence releases what has been opened and returns -1.\<close>

definition initFPGAContext_aws ::
  "'w aws_sdk \<Rightarrow> FPGAContext_aws \<Rightarrow> 'w \<Rightarrow> int \<times> FPGAContext_aws \<times> 'w" where
  "initFPGAContext_aws sdk c0 w =
     (let dsize = 0x0400000000;
          c1 = c0\<lparr>dram_size := dsize, base_address := standard_base dsize (base_address c0),
                 axil := PCI_BAR_HANDLE_INIT sdk, read_fd := -1, write_fd := -1\<rparr>;
          fail = (\<lambda>c w. (-1, c, snd (releaseFPGAContext_aws sdk c w)));
          (res, w1) = log_init sdk w in
      if res \<noteq> 0 then fail c1 w1 else
      let (res, w2) = log_attach sdk w1 in
      if res \<noteq> 0 then fail c1 w2 else
      let (res, w3) = fpga_mgmt_init sdk w2 in
      if res \<noteq> 0 then fail c1 w3 else
      let (res, w4) = check_afi_ready sdk 0 w3 in
      if res \<noteq> 0 then fail c1 w4 else
      let (res, bar, w5) = fpga_pci_attach sdk 0 (axil c1) w4; c2 = c1\<lparr>axil := bar\<rparr> in
      if res \<noteq> 0 then fail c2 w5 else
      let (fd, w6) = fpga_dma_open_queue sdk 0 True w5; c3 = c2\<lparr>read_fd := fd\<rparr> in
      if fd < 0 then fail c3 w6 else
      let (fd, w7) = fpga_dma_open_queue sdk 0 False w6; c4 = c3\<lparr>write_fd := fd\<rparr> in
      if fd < 0 then fail c4 w7 else (res, c4, w7))"

definition readAXIL_aws ::
  "'w aws_sdk \<Rightarrow> FPGAContext_aws \<Rightarrow> u32 \<Rightarrow> u32 \<Rightarrow> 'w \<Rightarrow> (int \<times> u32 \<times> 'w) option" where
  "readAXIL_aws sdk c a data w = Some (fpga_pci_peek sdk (axil c) a data w)"

definition writeAXIL_aws ::
  "'w aws_sdk \<Rightarrow> FPGAContext_aws \<Rightarrow> u32 \<Rightarrow> u32 \<Rightarrow> 'w \<Rightarrow> (int \<times> 'w) option" where
  "writeAXIL_aws sdk c a data w = Some (fpga_pci_poke sdk (axil c) a data w)"

definition readAXI_aws ::
  "'w aws_sdk \<Rightarrow> FPGAContext_aws \<Rightarrow> u64 \<Rightarrow> u8 list \<Rightarrow> u64 \<Rightarrow> 'w \<Rightarrow> (int \<times> u8 list \<times> 'w) option" where
  "readAXI_aws sdk c a data size_in_byte w =
     Some (fpga_dma_burst_read sdk (read_fd c) data size_in_byte a w)"

definition writeAXI_aws ::
  "'w aws_sdk \<Rightarrow> FPGAContext_aws \<Rightarrow> u64 \<Rightarrow> u8 list \<Rightarrow> u64 \<Rightarrow> 'w \<Rightarrow> (int \<times> 'w) option" where
  "writeAXI_aws sdk c a data size_in_byte w =
     Some (fpga_dma_burst_write sdk (write_fd c) data size_in_byte a w)"

definition aws_backend ::
  "'w aws_sdk \<Rightarrow> (\<lparr>axil :: int, read_fd :: int, write_fd :: int\<rparr>, 'w) backend" where
  "aws_backend sdk = \<lparr>readAXIL = readAXIL_aws sdk, writeAXIL = writeAXIL_aws sdk,
     readAXI = readAXI_aws sdk, writeAXI = writeAXI_aws sdk\<rparr>"

section \<open>Instances\<close>

text \<open>
  An AWS context after its initialisation; an SDK every call of which succeeds, with the two
  BAR accesses left open; a card whose BAR is a plain register file, and one that answers 0 to
  the first \<open>w\<close> reads and 1 from then on.
\<close>

definition example_context :: FPGAContext_aws where
  "example_context = \<lparr>dram_size = 0x400000000, base_address = standard_base 0x400000000 unset_base,
     axil = 0, read_fd = 3, write_fd = 4\<rparr>"

definition quiet_sdk ::
  "(u32 \<Rightarrow> u32 \<Rightarrow> 'w \<Rightarrow> int \<times> u32 \<times> 'w) \<Rightarrow> (u32 \<Rightarrow> u32 \<Rightarrow> 'w \<Rightarrow> int \<times> 'w) \<Rightarrow> 'w aws_sdk" where
  "quiet_sdk peek poke = \<lparr>fpga_mgmt_init = Pair 0,
     fpga_mgmt_describe_local_image =
       (\<lambda>_ w. (0, \<lparr>status = 0, spec_vendor_id = 0x1D0F, spec_device_id = 0xF000\<rparr>, w)),
     fpga_pci_rescan_slot_app_pfs = (\<lambda>_. Pair 0), fpga_pci_attach = (\<lambda>_ _ w. (0, 0, w)),
     fpga_pci_detach = (\<lambda>_. Pair 0), fpga_pci_peek = (\<lambda>_. peek), fpga_pci_poke = (\<lambda>_. poke),
     fpga_dma_open_queue = (\<lambda>_ rd w. (if rd then 3 else 4, w)),
     fpga_dma_burst_read = (\<lambda>_ buf _ _ w. (0, buf, w)), fpga_dma_burst_write = (\<lambda>_ _ _ _. Pair 0),
     log_init = Pair 0, log_attach = Pair 0, sdk_close = (\<lambda>_. Pair 0),
     FPGA_STATUS_LOADED = 0, PCI_BAR_HANDLE_INIT = -1\<rparr>"

definition register_bar :: "(u32 \<Rightarrow> u32) aws_sdk" where
  "register_bar = quiet_sdk (\<lambda>a x w. (0, w a, w)) (\<lambda>a v w. (0, w(a := v)))"

definition busy_bar :: "nat aws_sdk" where
  "busy_bar = quiet_sdk (\<lambda>a x w. (0, if w = 0 then 1 else 0, w - 1)) (\<lambda>a v. Pair 0)"

lemma example_bars [simp]:
  "readAXIL (aws_backend register_bar) c a x w = Some (0, w a, w)"
  "writeAXIL (aws_backend register_bar) c a v w = Some (0, w(a := v))"
  "writeAXI (aws_backend register_bar) c b d n w = Some (0, w)"
  "readAXIL (aws_backend busy_bar) c a x i = Some (0, if i = 0 then 1 else 0, i - 1)"
  "writeAXIL (aws_backend busy_bar) c a v i = Some (0, i)"
  "writeAXI (aws_backend busy_bar) c b d n i = Some (0, i)"
  by (simp_all add: aws_backend_def register_bar_def busy_bar_def quiet_sdk_def readAXIL_aws_def
      writeAXIL_aws_def writeAXI_aws_def)

end
