(* ===== verification/Kernel.thy ===== *)
theory Kernel
  imports Prelude
begin

text \<open>
  The operating system calls the code makes on sockets, as a record of functions over an
  arbitrary world \<open>'w\<close>: every definition that makes such a call takes the record as an
  argument. A result \<open>SendError\<close> or \<open>RecvError\<close> is a return value of \<open>-1\<close> with its
  \<open>errno\<close>; \<open>Received []\<close> is the return value 0 (end of file). \<open>k_junk\<close> is the
  content of an uninitialised \<open>uint32_t\<close> array on the caller's stack. The laws a socket
  obeys (\<open>send(2)\<close>, \<open>recv(2)\<close>, \<open>unix(7)\<close>) are stated as locales, so that what is
  proved about a loop over \<open>send\<close> or \<open>recv\<close> holds for every kernel with those laws.
\<close>

datatype errno = EAGAIN | EPIPE | EOTHER

datatype send_result = SendError errno | Sent nat

datatype recv_result = RecvError errno | Received "u8 list"

record 'w kernel =
  k_socket :: "'w \<Rightarrow> int \<times> 'w"
  k_connect :: "int \<Rightarrow> string \<Rightarrow> 'w \<Rightarrow> int \<times> 'w"
  k_bind :: "int \<Rightarrow> string \<Rightarrow> 'w \<Rightarrow> int \<times> 'w"
  k_listen :: "int \<Rightarrow> int \<Rightarrow> 'w \<Rightarrow> int \<times> 'w"
  k_accept :: "int \<Rightarrow> 'w \<Rightarrow> int \<times> 'w"
  k_close :: "int \<Rightarrow> 'w \<Rightarrow> int \<times> 'w"
  k_send :: "int \<Rightarrow> u8 list \<Rightarrow> 'w \<Rightarrow> send_result \<times> 'w"
  k_recv :: "int \<Rightarrow> nat \<Rightarrow> 'w \<Rightarrow> recv_result \<times> 'w"
  k_junk :: "nat \<Rightarrow> u32"

fun ssize_of_send :: "send_result \<Rightarrow> int" where
  "ssize_of_send (SendError e) = -1"
| "ssize_of_send (Sent n) = int n"

fun ssize_of_recv :: "recv_result \<Rightarrow> int" where
  "ssize_of_recv (RecvError e) = -1"
| "ssize_of_recv (Received bs) = int (length bs)"

section \<open>Stream sockets as byte queues\<close>

text \<open>
  \<open>out w\<close> is everything the socket has accepted so far. \<open>send\<close> accepts a prefix of
  what it is given and reports its length; on an error it accepts nothing.
\<close>

locale byte_sink =
  fixes k :: "'w kernel" and fd :: int and out :: "'w \<Rightarrow> u8 list"
  assumes send_accepts:
      "k_send k fd bs w = (Sent n, w') \<Longrightarrow> n \<le> length bs \<and> out w' = out w @ take n bs"
    and send_fails: "k_send k fd bs w = (SendError e, w') \<Longrightarrow> out w' = out w"

text \<open>
  A sink that never blocks forever: a call that accepts nothing brings the next one that
  does closer.
\<close>

locale live_sink = byte_sink +
  fixes delay :: "'w \<Rightarrow> nat"
  assumes send_progress:
    "bs \<noteq> [] \<Longrightarrow> k_send k fd bs w = (r, w') \<Longrightarrow>
       0 < ssize_of_send r \<or> delay w' < delay w"

text \<open>
  \<open>arriving w\<close> is the sequence of bytes the peer has written, or will have written when
  the reader asks for them: \<open>recv\<close> returns a prefix of it, never more than asked for.
\<close>

locale byte_source =
  fixes k :: "'w kernel" and fd :: int and arriving :: "'w \<Rightarrow> u8 list"
  assumes recv_delivers:
      "k_recv k fd n w = (Received bs, w') \<Longrightarrow> length bs \<le> n \<and> arriving w = bs @ arriving w'"
    and recv_fails: "k_recv k fd n w = (RecvError e, w') \<Longrightarrow> arriving w' = arriving w"

locale live_source = byte_source +
  fixes delay :: "'w \<Rightarrow> nat"
  assumes recv_progress:
    "0 < n \<Longrightarrow> arriving w \<noteq> [] \<Longrightarrow> k_recv k fd n w = (r, w') \<Longrightarrow>
       0 < ssize_of_recv r \<or> delay w' < delay w"

end
