(* ===== verification/Client_IPC.thy ===== *)
theory Client_IPC
  imports Kernel
begin

text \<open>
  \<open>client/ipc.c\<close>: connecting to the simulator's socket and the two transfer loops the
  client uses for every request. Neither loop looks at the sign of an error: a call that
  returns nothing is repeated, so the loops return 0 or not at all (\<open>None\<close>).
\<close>

section \<open>initIPC\<close>

text \<open>The pair returned is the function's result and the value left in \<open>*socket_fd\<close>.\<close>

definition initIPC :: "'w kernel \<Rightarrow> string \<Rightarrow> 'w \<Rightarrow> (int \<times> int) \<times> 'w" where
  "initIPC k filename w =
     (let (socket_fd, w1) = k_socket k w in
      if socket_fd < 0 then ((-1, socket_fd), w1)
      else let (res, w2) = k_connect k socket_fd filename w1 in
        if res < 0 then ((-1, socket_fd), w2) else ((0, socket_fd), w2))"

lemma initIPC_cases:
  "fst (fst (initIPC k filename w)) = 0 \<or> fst (fst (initIPC k filename w)) = -1"
  by (simp add: initIPC_def split: prod.splits)

lemma initIPC_ok_fd: "initIPC k filename w = ((0, fd), w') \<Longrightarrow> 0 \<le> fd"
  by (simp add: initIPC_def split: prod.splits if_splits)

section \<open>sendIPC\<close>

partial_function (option) sendIPC_loop ::
  "'w kernel \<Rightarrow> u8 list \<Rightarrow> int \<Rightarrow> int \<Rightarrow> int \<Rightarrow> 'w \<Rightarrow> 'w option" where
  "sendIPC_loop k buffer port missing_bytes curr_byte w =
     (if missing_bytes > 0 then
        (case k_send k port (take (nat missing_bytes) (drop (nat curr_byte) buffer)) w of
           (sent_number, w1) \<Rightarrow>
             if ssize_of_send sent_number > 0
             then sendIPC_loop k buffer port (missing_bytes - ssize_of_send sent_number)
                    (curr_byte + ssize_of_send sent_number) w1
             else sendIPC_loop k buffer port missing_bytes curr_byte w1)
      else Some w)"

definition sendIPC :: "'w kernel \<Rightarrow> u8 list \<Rightarrow> int \<Rightarrow> nat \<Rightarrow> 'w \<Rightarrow> (int \<times> 'w) option" where
  "sendIPC k buffer port tot_bytes w =
     do { w1 \<leftarrow> sendIPC_loop k buffer port (int tot_bytes) 0 w; Some (0, w1) }"

section \<open>recvIPC\<close>

partial_function (option) recvIPC_loop ::
  "'w kernel \<Rightarrow> u8 list \<Rightarrow> int \<Rightarrow> int \<Rightarrow> int \<Rightarrow> 'w \<Rightarrow> (u8 list \<times> 'w) option" where
  "recvIPC_loop k buffer port missing_bytes curr_byte w =
     (if missing_bytes > 0 then
        (case k_recv k port (nat missing_bytes) w of
           (recv_number, w1) \<Rightarrow>
             if ssize_of_recv recv_number > 0
             then recvIPC_loop k
                    (case recv_number of Received bs \<Rightarrow> overwrite buffer (nat curr_byte) bs
                                       | RecvError e \<Rightarrow> buffer)
                    port (missing_bytes - ssize_of_recv recv_number)
                    (curr_byte + ssize_of_recv recv_number) w1
             else recvIPC_loop k buffer port missing_bytes curr_byte w1)
      else Some (buffer, w))"

definition recvIPC ::
  "'w kernel \<Rightarrow> u8 list \<Rightarrow> int \<Rightarrow> nat \<Rightarrow> 'w \<Rightarrow> (int \<times> u8 list \<times> 'w) option" where
  "recvIPC k buffer port expected_bytes w =
     do { (buffer', w1) \<leftarrow> recvIPC_loop k buffer port (int expected_bytes) 0 w;
          Some (0, buffer', w1) }"

section \<open>Induction over the iterations of a transfer that ends\<close>

lemma sendIPC_loop_induct [consumes 1, case_names finished retry sent]:
  assumes "sendIPC_loop k buffer port missing c w = Some w'"
    and finished: "\<And>missing c w. missing \<le> 0 \<Longrightarrow> P missing c w w"
    and retry: "\<And>missing c w w1 w' r. 0 < missing \<Longrightarrow>
      k_send k port (take (nat missing) (drop (nat c) buffer)) w = (r, w1) \<Longrightarrow>
      ssize_of_send r \<le> 0 \<Longrightarrow> P missing c w1 w' \<Longrightarrow> P missing c w w'"
    and sent: "\<And>missing c w w1 w' n. 0 < missing \<Longrightarrow> 0 < n \<Longrightarrow>
      k_send k port (take (nat missing) (drop (nat c) buffer)) w = (Sent n, w1) \<Longrightarrow>
      P (missing - int n) (c + int n) w1 w' \<Longrightarrow> P missing c w w'"
  shows "P missing c w w'"
proof -
  have "k' = k \<longrightarrow> buffer' = buffer \<longrightarrow> port' = port \<longrightarrow> P missing c w w'"
    if "sendIPC_loop k' buffer' port' missing c w = Some w'" for k' buffer' port'
  proof (rule sendIPC_loop.raw_induct [OF _ that])
    fix loop k' buffer' port' missing c w w'
    assume IH: "\<And>k' buffer' port' missing c w w'. loop k' buffer' port' missing c w = Some w' \<Longrightarrow>
        k' = k \<longrightarrow> buffer' = buffer \<longrightarrow> port' = port \<longrightarrow> P missing c w w'"
      and eq: "(if missing > 0 then
        (case k_send k' port' (take (nat missing) (drop (nat c) buffer')) w of
           (sent_number, w1) \<Rightarrow>
             if ssize_of_send sent_number > 0
             then loop k' buffer' port' (missing - ssize_of_send sent_number)
                    (c + ssize_of_send sent_number) w1
             else loop k' buffer' port' missing c w1)
      else Some w) = Some w'"
    show "k' = k \<longrightarrow> buffer' = buffer \<longrightarrow> port' = port \<longrightarrow> P missing c w w'"
    proof (intro impI)
      assume eqs: "k' = k" "buffer' = buffer" "port' = port"
      obtain r w1 where snd: "k_send k port (take (nat missing) (drop (nat c) buffer)) w = (r, w1)"
        by (cases "k_send k port (take (nat missing) (drop (nat c) buffer)) w")
      show "P missing c w w'"
      proof (cases "0 < missing")
        case False
        with eq show ?thesis by (auto intro!: finished simp: not_less)
      next
        case True
        then show ?thesis
          using eq eqs snd IH [of k buffer port] retry [OF True snd] sent [OF True]
          by (cases r) (auto split: if_splits)
      qed
    qed
  qed
  with assms(1) show ?thesis by blast
qed

lemma recvIPC_loop_induct [consumes 1, case_names finished retry received]:
  assumes "recvIPC_loop k buffer port missing c w = Some (buffer', w')"
    and finished: "\<And>buffer missing c w. missing \<le> 0 \<Longrightarrow> P buffer missing c w buffer w"
    and retry: "\<And>buffer missing c w w1 buffer' w' r. 0 < missing \<Longrightarrow>
      k_recv k port (nat missing) w = (r, w1) \<Longrightarrow> ssize_of_recv r \<le> 0 \<Longrightarrow>
      P buffer missing c w1 buffer' w' \<Longrightarrow> P buffer missing c w buffer' w'"
    and received: "\<And>buffer missing c w w1 buffer' w' bs. 0 < missing \<Longrightarrow> bs \<noteq> [] \<Longrightarrow>
      k_recv k port (nat missing) w = (Received bs, w1) \<Longrightarrow>
      P (overwrite buffer (nat c) bs) (missing - int (length bs)) (c + int (length bs)) w1 buffer' w' \<Longrightarrow>
      P buffer missing c w buffer' w'"
  shows "P buffer missing c w buffer' w'"
proof -
  have "k' = k \<longrightarrow> port' = port \<longrightarrow> P buffer missing c w (fst res) (snd res)"
    if "recvIPC_loop k' buffer port' missing c w = Some res" for k' port' res
  proof (rule recvIPC_loop.raw_induct [OF _ that])
    fix loop k' buffer port' missing c w res
    assume IH: "\<And>k' buffer port' missing c w res. loop k' buffer port' missing c w = Some res \<Longrightarrow>
        k' = k \<longrightarrow> port' = port \<longrightarrow> P buffer missing c w (fst res) (snd res)"
      and eq: "(if missing > 0 then
        (case k_recv k' port' (nat missing) w of
           (recv_number, w1) \<Rightarrow>
             if ssize_of_recv recv_number > 0
             then loop k'
                    (case recv_number of Received bs \<Rightarrow> overwrite buffer (nat c) bs
                                       | RecvError e \<Rightarrow> buffer)
                    port' (missing - ssize_of_recv recv_number)
                    (c + ssize_of_recv recv_number) w1
             else loop k' buffer port' missing c w1)
      else Some (buffer, w)) = Some res"
    show "k' = k \<longrightarrow> port' = port \<longrightarrow> P buffer missing c w (fst res) (snd res)"
    proof (intro impI)
      assume eqs: "k' = k" "port' = port"
      obtain r w1 where rcv: "k_recv k port (nat missing) w = (r, w1)"
        by (cases "k_recv k port (nat missing) w")
      show "P buffer missing c w (fst res) (snd res)"
      proof (cases "0 < missing")
        case False
        with eq show ?thesis by (auto intro!: finished simp: not_less)
      next
        case True
        then show ?thesis
          using eq eqs rcv IH [of k _ port] retry [OF True rcv] received [OF True]
          by (cases r) (auto split: if_splits)
      qed
    qed
  qed
  from this [OF assms(1)] show ?thesis by simp
qed

section \<open>What the loops transfer\<close>

context byte_sink
begin

text \<open>If the send loop ends, the socket has taken exactly the rest of the buffer, in order.\<close>

lemma sendIPC_loop_out:
  assumes "sendIPC_loop k buffer fd missing c w = Some w'"
    and "0 \<le> missing" and "0 \<le> c" and "nat c + nat missing \<le> length buffer"
  shows "out w' = out w @ take (nat missing) (drop (nat c) buffer)"
  using assms
proof (induction rule: sendIPC_loop_induct)
  case (finished missing c w)
  then show ?case by simp
next
  case (retry missing c w w1 w' r)
  then have "out w1 = out w"
    using send_fails send_accepts by (cases r) fastforce+
  with retry show ?case by simp
next
  case (sent missing c w w1 w' n)
  have n: "n \<le> nat missing" and o: "out w1 = out w @ take n (drop (nat c) buffer)"
    using send_accepts [OF sent(3)] sent.prems by (auto simp: min_absorb1)
  have eqs: "nat (missing - int n) = nat missing - n" "nat (c + int n) = n + nat c"
    using n sent.prems by auto
  have "take (nat missing) (drop (nat c) buffer) =
      take n (drop (nat c) buffer) @ take (nat missing - n) (drop (n + nat c) buffer)"
    using take_add [of n "nat missing - n" "drop (nat c) buffer"] n by simp
  moreover have "out w' = out w1 @ take (nat missing - n) (drop (n + nat c) buffer)"
    using sent.IH sent.prems n unfolding eqs by simp
  ultimately show ?case using o by simp
qed

theorem sendIPC_out:
  assumes "sendIPC k buffer fd tot w = Some (r, w')" and "tot \<le> length buffer"
  shows "r = 0 \<and> out w' = out w @ take tot buffer"
  using assms sendIPC_loop_out [of buffer "int tot" 0 w w']
  by (auto simp: sendIPC_def bind_eq_Some_conv)

end

context live_sink
begin

lemma sendIPC_loop_returns:
  assumes "0 \<le> c" and "nat c + nat missing \<le> length buffer"
  shows "\<exists>w'. sendIPC_loop k buffer fd missing c w = Some w'"
  using assms
proof (induction "(nat missing, delay w)" arbitrary: missing c w
    rule: wf_induct_rule [OF wf_lex_prod [OF wf_less_than wf_less_than]])
  case (1 missing w c)
  show ?case
  proof (cases "0 < missing")
    case False
    then show ?thesis by (subst sendIPC_loop.simps) simp
  next
    case True
    let ?bs = "take (nat missing) (drop (nat c) buffer)"
    obtain r w1 where snd: "k_send k fd ?bs w = (r, w1)" by fastforce
    have "?bs \<noteq> []" using True 1(2,3) by simp
    then have live: "0 < ssize_of_send r \<or> delay w1 < delay w"
      using snd by (rule send_progress)
    show ?thesis
    proof (cases "0 < ssize_of_send r")
      case True
      then obtain n where r: "r = Sent n" and n: "0 < n" by (cases r) auto
      from send_accepts [OF snd [unfolded r]] have "n \<le> nat missing" by simp
      then have "\<exists>w'. sendIPC_loop k buffer fd (missing - int n) (c + int n) w1 = Some w'"
        using 1 \<open>0 < missing\<close> n by (intro 1(1)) auto
      with \<open>0 < missing\<close> snd r n show ?thesis
        by (subst sendIPC_loop.simps) simp
    next
      case stuck: False
      then have "\<exists>w'. sendIPC_loop k buffer fd missing c w1 = Some w'"
        using 1 live by (intro 1(1)) auto
      with \<open>0 < missing\<close> snd stuck show ?thesis
        by (subst sendIPC_loop.simps) simp
    qed
  qed
qed

theorem sendIPC_returns:
  "tot \<le> length buffer \<Longrightarrow> \<exists>w'. sendIPC k buffer fd tot w = Some (0, w')"
  using sendIPC_loop_returns [of 0 "int tot" buffer w] by (auto simp: sendIPC_def)

end

context byte_source
begin

lemma recvIPC_loop_in:
  assumes "recvIPC_loop k buffer fd missing c w = Some (buffer', w')"
    and "0 \<le> missing" and "0 \<le> c" and "nat c + nat missing \<le> length buffer"
  shows "\<exists>bs. length bs = nat missing \<and> arriving w = bs @ arriving w' \<and>
           buffer' = overwrite buffer (nat c) bs"
  using assms
proof (induction rule: recvIPC_loop_induct)
  case (finished buffer missing c w)
  then show ?case by simp
next
  case (retry buffer missing c w w1 buffer' w' r)
  then have "arriving w1 = arriving w"
    using recv_fails recv_delivers by (cases r) fastforce+
  with retry show ?case by simp
next
  case (received buffer missing c w w1 buffer' w' bs)
  from recv_delivers [OF received(3)]
  have n: "length bs \<le> nat missing" and a: "arriving w = bs @ arriving w1" by auto
  have eqs: "nat (missing - int (length bs)) = nat missing - length bs"
      "nat (c + int (length bs)) = nat c + length bs"
    using n received.prems by auto
  have "length (overwrite buffer (nat c) bs) = length buffer"
    using n received.prems by simp
  moreover have "0 \<le> missing - int (length bs)" using n received.prems by simp
  ultimately obtain cs
    where cs: "length cs = nat missing - length bs" "arriving w1 = cs @ arriving w'"
      "buffer' = overwrite (overwrite buffer (nat c) bs) (nat c + length bs) cs"
    using received.IH received.prems n unfolding eqs by auto
  have "buffer' = overwrite buffer (nat c) (bs @ cs)"
    unfolding cs(3) by (rule overwrite_overwrite) (use cs n received.prems in simp)
  with cs n a show ?case by (intro exI [of _ "bs @ cs"]) simp
qed

theorem recvIPC_in:
  assumes "recvIPC k buffer fd n w = Some (r, buffer', w')" and "n \<le> length buffer"
  shows "r = 0 \<and> (\<exists>bs. length bs = n \<and> arriving w = bs @ arriving w' \<and>
           buffer' = overwrite buffer 0 bs)"
  using assms recvIPC_loop_in [of buffer "int n" 0 w]
  by (fastforce simp: recvIPC_def bind_eq_Some_conv)

end

context live_source
begin

lemma recvIPC_loop_returns:
  assumes "0 \<le> missing" and "nat missing \<le> length (arriving w)"
  shows "\<exists>res. recvIPC_loop k buffer fd missing c w = Some res"
  using assms
proof (induction "(nat missing, delay w)" arbitrary: buffer missing c w
    rule: wf_induct_rule [OF wf_lex_prod [OF wf_less_than wf_less_than]])
  case (1 missing w buffer c)
  show ?case
  proof (cases "0 < missing")
    case False
    then show ?thesis by (subst recvIPC_loop.simps) simp
  next
    case True
    obtain r w1 where rcv: "k_recv k fd (nat missing) w = (r, w1)" by fastforce
    have "arriving w \<noteq> []" using True 1 by auto
    then have live: "0 < ssize_of_recv r \<or> delay w1 < delay w"
      using rcv True by (intro recv_progress) auto
    show ?thesis
    proof (cases "0 < ssize_of_recv r")
      case True
      then obtain bs where r: "r = Received bs" and bs: "bs \<noteq> []" by (cases r) auto
      from recv_delivers [OF rcv [unfolded r]]
      have "length bs \<le> nat missing" "arriving w = bs @ arriving w1" by auto
      then have "\<exists>res. recvIPC_loop k (overwrite buffer (nat c) bs) fd
          (missing - int (length bs)) (c + int (length bs)) w1 = Some res"
        using 1(2,3) \<open>0 < missing\<close> bs by (intro 1(1)) auto
      with \<open>0 < missing\<close> rcv r bs show ?thesis
        by (subst recvIPC_loop.simps) simp
    next
      case stuck: False
      then have "arriving w1 = arriving w"
        using rcv recv_fails recv_delivers by (cases r) fastforce+
      then have "\<exists>res. recvIPC_loop k buffer fd missing c w1 = Some res"
        using 1(2,3) stuck live by (intro 1(1)) auto
      with \<open>0 < missing\<close> rcv stuck show ?thesis
        by (subst recvIPC_loop.simps) simp
    qed
  qed
qed

theorem recvIPC_returns:
  "n \<le> length (arriving w) \<Longrightarrow> \<exists>buffer' w'. recvIPC k buffer fd n w = Some (0, buffer', w')"
  using recvIPC_loop_returns [of "int n" w buffer 0] by (auto simp: recvIPC_def)

end

section \<open>A dead socket is never reported\<close>

lemma sendIPC_loop_dead:
  assumes "\<And>bs w. ssize_of_send (fst (k_send k port bs w)) \<le> 0"
    and "sendIPC_loop k buffer port missing c w = Some w'"
  shows "missing \<le> 0"
  using assms(2)
proof (induction rule: sendIPC_loop_induct)
  case (sent missing c w w1 w' n)
  then show ?case using assms(1) [of "take (nat missing) (drop (nat c) buffer)" w] by simp
qed auto

lemma recvIPC_loop_dead:
  assumes "\<And>n w. ssize_of_recv (fst (k_recv k port n w)) \<le> 0"
    and "recvIPC_loop k buffer port missing c w = Some (buffer', w')"
  shows "missing \<le> 0"
  using assms(2)
proof (induction rule: recvIPC_loop_induct)
  case (received buffer missing c w w1 buffer' w' bs)
  then show ?case using assms(1) [of "nat missing" w] by simp
qed auto

end
