(* ===== verification/Wire.thy ===== *)
theory Wire
  imports Prelude
begin

text \<open>
  The request structures that cross the Unix sockets, once as the client declares them
  (\<open>client/ipc.h\<close>) and once as the server does (\<open>server/ipc.hh\<close>), with the byte layout
  the x86-64 and AArch64 ABIs give them: \<open>size_t\<close> and \<open>uint64_t\<close> are 8 bytes,
  \<open>uint32_t\<close> is 4, the AXI structure is padded from 4116 to 4120 bytes. The client writes
  its structure byte by byte to the socket and the server reads it into its own, so the two
  layouts have to agree; \<open>wire_AXI_agrees\<close> and \<open>wire_AXIL_agrees\<close> say that they do.
\<close>

section \<open>The client's structures (client/ipc.h)\<close>

record MemoryRequest =
  addr :: u64
  byte_size :: u64
  is_write :: u32
  w_data :: "u32 list"

record MemoryRequestAXIL =
  axil_addr :: u64
  axil_byte_size :: u64
  axil_is_write :: u32
  axil_w_data :: u32

text \<open>
  \<open>pad\<close> is the content of the four padding bytes, which C leaves indeterminate.
\<close>

definition sizeof_MemoryRequest :: nat where
  "sizeof_MemoryRequest = 4120"

definition sizeof_MemoryRequestAXIL :: nat where
  "sizeof_MemoryRequestAXIL = 24"

definition MemoryRequest_bytes :: "u32 \<Rightarrow> MemoryRequest \<Rightarrow> u8 list" where
  "MemoryRequest_bytes pad r =
     bytes_le 8 (addr r) @ bytes_le 8 (byte_size r) @ bytes_le 4 (is_write r) @
     bytes_of_words (w_data r) @ bytes_le 4 pad"

definition MemoryRequestAXIL_bytes :: "MemoryRequestAXIL \<Rightarrow> u8 list" where
  "MemoryRequestAXIL_bytes r =
     bytes_le 8 (axil_addr r) @ bytes_le 8 (axil_byte_size r) @
     bytes_le 4 (axil_is_write r) @ bytes_le 4 (axil_w_data r)"

section \<open>The server's structures (server/ipc.hh)\<close>

record srv_MemoryRequest =
  srv_addr :: u64
  srv_byte_size :: u64
  srv_is_write :: u32
  srv_w_data :: "u32 list"

record srv_MemoryRequestAXIL =
  srv_axil_addr :: u64
  srv_axil_byte_size :: u64
  srv_axil_is_write :: u32
  srv_axil_w_data :: u32

text \<open>Reading the fields out of the memory that holds the structure.\<close>

definition srv_MemoryRequest_of :: "(nat \<Rightarrow> u8) \<Rightarrow> srv_MemoryRequest" where
  "srv_MemoryRequest_of m =
     \<lparr>srv_addr = word_le (mem_read m 0 8), srv_byte_size = word_le (mem_read m 8 8),
      srv_is_write = word_le (mem_read m 16 4),
      srv_w_data = words_of_bytes (mem_read m 20 4096)\<rparr>"

definition srv_MemoryRequestAXIL_of :: "(nat \<Rightarrow> u8) \<Rightarrow> srv_MemoryRequestAXIL" where
  "srv_MemoryRequestAXIL_of m =
     \<lparr>srv_axil_addr = word_le (mem_read m 0 8), srv_axil_byte_size = word_le (mem_read m 8 8),
      srv_axil_is_write = word_le (mem_read m 16 4), srv_axil_w_data = word_le (mem_read m 20 4)\<rparr>"

section \<open>The two layouts agree\<close>

lemma length_MemoryRequest_bytes [wire_simps]:
  "length (w_data r) = 1024 \<Longrightarrow> length (MemoryRequest_bytes pad r) = sizeof_MemoryRequest"
  by (simp add: MemoryRequest_bytes_def sizeof_MemoryRequest_def)

lemma length_MemoryRequestAXIL_bytes [wire_simps]:
  "length (MemoryRequestAXIL_bytes r) = sizeof_MemoryRequestAXIL"
  by (simp add: MemoryRequestAXIL_bytes_def sizeof_MemoryRequestAXIL_def)

text \<open>Reading one field of a structure laid out as a concatenation of fields.\<close>

lemma mem_read_field:
  assumes "bs = xs @ ys @ zs" and "length xs = off - base" and "length ys = n" and "base \<le> off"
  shows "mem_read (mem_write m base bs) off n = ys"
proof (rule nth_equalityI)
  fix i assume "i < length (mem_read (mem_write m base bs) off n)"
  then have i: "i < n" by simp
  with assms show "mem_read (mem_write m base bs) off n ! i = ys ! i"
    by (auto simp: mem_write_def nth_append)
qed (use assms in simp)

lemma wire_AXI_agrees [wire_simps]:
  assumes "length (w_data r) = 1024"
  shows "srv_MemoryRequest_of (mem_write m 0 (MemoryRequest_bytes pad r)) =
    \<lparr>srv_addr = addr r, srv_byte_size = byte_size r, srv_is_write = is_write r,
     srv_w_data = w_data r\<rparr>"
proof -
  let ?m = "mem_write m 0 (MemoryRequest_bytes pad r)"
  have a: "mem_read ?m 0 8 = bytes_le 8 (addr r)"
    by (rule mem_read_field [where xs = "[]"]) (simp_all add: MemoryRequest_bytes_def)
  have b: "mem_read ?m 8 8 = bytes_le 8 (byte_size r)"
    by (rule mem_read_field [where xs = "bytes_le 8 (addr r)"])
       (simp_all add: MemoryRequest_bytes_def)
  have c: "mem_read ?m 16 4 = bytes_le 4 (is_write r)"
    by (rule mem_read_field [where xs = "bytes_le 8 (addr r) @ bytes_le 8 (byte_size r)"])
       (simp_all add: MemoryRequest_bytes_def)
  have d: "mem_read ?m 20 4096 = bytes_of_words (w_data r)"
    by (rule mem_read_field [where xs = "bytes_le 8 (addr r) @ bytes_le 8 (byte_size r) @
          bytes_le 4 (is_write r)"])
       (simp_all add: MemoryRequest_bytes_def assms)
  show ?thesis
    unfolding srv_MemoryRequest_of_def a b c d by simp
qed

lemma wire_AXIL_agrees [wire_simps]:
  "srv_MemoryRequestAXIL_of (mem_write m 0 (MemoryRequestAXIL_bytes r)) =
    \<lparr>srv_axil_addr = axil_addr r, srv_axil_byte_size = axil_byte_size r,
     srv_axil_is_write = axil_is_write r, srv_axil_w_data = axil_w_data r\<rparr>"
proof -
  let ?m = "mem_write m 0 (MemoryRequestAXIL_bytes r)"
  have a: "mem_read ?m 0 8 = bytes_le 8 (axil_addr r)"
    by (rule mem_read_field [where xs = "[]"]) (simp_all add: MemoryRequestAXIL_bytes_def)
  have b: "mem_read ?m 8 8 = bytes_le 8 (axil_byte_size r)"
    by (rule mem_read_field [where xs = "bytes_le 8 (axil_addr r)"])
       (simp_all add: MemoryRequestAXIL_bytes_def)
  have c: "mem_read ?m 16 4 = bytes_le 4 (axil_is_write r)"
    by (rule mem_read_field [where xs = "bytes_le 8 (axil_addr r) @ bytes_le 8 (axil_byte_size r)"])
       (simp_all add: MemoryRequestAXIL_bytes_def)
  have d: "mem_read ?m 20 4 = bytes_le 4 (axil_w_data r)"
    by (rule mem_read_field [where zs = "[]" and xs = "bytes_le 8 (axil_addr r) @
          bytes_le 8 (axil_byte_size r) @ bytes_le 4 (axil_is_write r)"])
       (simp_all add: MemoryRequestAXIL_bytes_def)
  show ?thesis
    unfolding srv_MemoryRequestAXIL_of_def a b c d by simp
qed

end
