(* ===== verification/Fpga_Rtl.thy ===== *)
theory Fpga_Rtl
  imports Client_IPC Wire Fpga
begin

text \<open>
  \<open>client/fpga_rtl.c\<close>: the accessors of the simulator build. Each sends one request
  structure over its socket and waits for the answer. The content a structure's unset
  members have on the stack is \<open>k_junk\<close>.
\<close>

section \<open>releaseFPGAContext and initFPGAContext\<close>

definition releaseFPGAContext_rtl :: "'w kernel \<Rightarrow> FPGAContext_rtl \<Rightarrow> 'w \<Rightarrow> int \<times> 'w" where
  "releaseFPGAContext_rtl k c w =
     (let res0 = (0 :: int);
          (res1, w1) = (if axi_fd c > 0
             then (let (r, w') = k_close k (axi_fd c) w in (res0 OR r, w')) else (res0, w));
          (res2, w2) = (if axil_fd c > 0
             then (let (r, w') = k_close k (axil_fd c) w1 in (res1 OR r, w')) else (res1, w1))
      in (res2, w2))"

definition initFPGAContext_rtl ::
  "'w kernel \<Rightarrow> FPGAContext_rtl \<Rightarrow> 'w \<Rightarrow> int \<times> FPGAContext_rtl \<times> 'w" where
  "initFPGAContext_rtl k c0 w =
     (let dsize = 1024 * 1024 * 16;
          c1 = c0\<lparr>dram_size := dsize, axi_fd := -1, axil_fd := -1,
                 base_address := standard_base dsize (base_address c0)\<rparr>;
          ((r1, fd1), w1) = initIPC k ''/dev/shm/axi'' w;
          c2 = c1\<lparr>axi_fd := fd1\<rparr> in
      if r1 \<noteq> 0 then (-1, c2, snd (releaseFPGAContext_rtl k c2 w1))
      else
        let ((r2, fd2), w2) = initIPC k ''/dev/shm/axi_lite'' w1; c3 = c2\<lparr>axil_fd := fd2\<rparr> in
        if r2 \<noteq> 0 then (-1, c3, snd (releaseFPGAContext_rtl k c3 w2))
        else (0, c3, w2))"

section \<open>AXI-Lite accesses\<close>

definition readAXIL_rtl ::
  "'w kernel \<Rightarrow> FPGAContext_rtl \<Rightarrow> u32 \<Rightarrow> u32 \<Rightarrow> 'w \<Rightarrow> (int \<times> u32 \<times> 'w) option" where
  "readAXIL_rtl k c a data w =
     (let request = \<lparr>axil_addr = ucast a, axil_byte_size = 4, axil_is_write = 0,
                     axil_w_data = k_junk k 0\<rparr> in
      if axil_fd c < 0 then Some (-1, data, w)
      else do {
        (res, w1) \<leftarrow> sendIPC k (MemoryRequestAXIL_bytes request) (axil_fd c)
                      sizeof_MemoryRequestAXIL w;
        if res \<noteq> 0 then Some (res, data, w1)
        else do {
          (res, buffer, w2) \<leftarrow> recvIPC k (bytes_le 4 data) (axil_fd c) 4 w1;
          if res \<noteq> 0 then Some (res, word_le buffer, w2) else Some (0, word_le buffer, w2)
        }
      })"

definition writeAXIL_request ::
  "'w kernel \<Rightarrow> u32 \<Rightarrow> FPGAContext_rtl \<Rightarrow> u32 \<Rightarrow> u32 \<Rightarrow> 'w \<Rightarrow> (int \<times> 'w) option" where
  "writeAXIL_request k op c a data w =
     (let request = \<lparr>axil_addr = ucast a, axil_byte_size = 4, axil_is_write = op,
                     axil_w_data = data\<rparr> in
      if axil_fd c < 0 then Some (-1, w)
      else do {
        (res, w1) \<leftarrow> sendIPC k (MemoryRequestAXIL_bytes request) (axil_fd c)
                      sizeof_MemoryRequestAXIL w;
        if res \<noteq> 0 then Some (res, w1)
        else do {
          (res, ack, w2) \<leftarrow> recvIPC k (bytes_le 4 (k_junk k 0)) (axil_fd c) 4 w1;
          if res \<noteq> 0 then Some (res, w2) else Some (0, w2)
        }
      })"

definition writeAXIL_rtl ::
  "'w kernel \<Rightarrow> FPGAContext_rtl \<Rightarrow> u32 \<Rightarrow> u32 \<Rightarrow> 'w \<Rightarrow> (int \<times> 'w) option" where
  "writeAXIL_rtl k = writeAXIL_request k 1"

text \<open>The magic command: a write request whose operation code is \<open>0xDEED\<close>.\<close>

definition writeAXILMagic ::
  "'w kernel \<Rightarrow> FPGAContext_rtl \<Rightarrow> u32 \<Rightarrow> u32 \<Rightarrow> 'w \<Rightarrow> (int \<times> 'w) option" where
  "writeAXILMagic k = writeAXIL_request k 0xDEED"

text \<open>\<open>writeSimCtrl\<close> of \<open>fpga_interface.c\<close>, in this build only; its \<open>int\<close> arguments become
  \<open>uint32_t\<close> ones.\<close>

definition writeSimCtrl ::
  "'w kernel \<Rightarrow> FPGAContext_rtl \<Rightarrow> int \<Rightarrow> int \<Rightarrow> 'w \<Rightarrow> (int \<times> 'w) option" where
  "writeSimCtrl k c type value w = writeAXILMagic k c (word_of_int type) (word_of_int value) w"

section \<open>AXI accesses\<close>

definition junk_words :: "'w kernel \<Rightarrow> u32 list" where
  "junk_words k = map (k_junk k) [0..<1024]"

definition readAXI_rtl ::
  "'w kernel \<Rightarrow> FPGAContext_rtl \<Rightarrow> u64 \<Rightarrow> u8 list \<Rightarrow> u64 \<Rightarrow> 'w \<Rightarrow> (int \<times> u8 list \<times> 'w) option" where
  "readAXI_rtl k c a data size_in_byte w =
     (let request = \<lparr>addr = a, byte_size = size_in_byte, is_write = 0, w_data = junk_words k\<rparr> in
      if size_in_byte > 4096 then Some (-1, data, w)
      else if axi_fd c < 0 then Some (-1, data, w)
      else do {
        (res, w1) \<leftarrow> sendIPC k (MemoryRequest_bytes (k_junk k 1024) request) (axi_fd c)
                      sizeof_MemoryRequest w;
        if res \<noteq> 0 then Some (res, data, w1)
        else do {
          (res, buffer, w2) \<leftarrow> recvIPC k data (axi_fd c) (unat size_in_byte) w1;
          if res \<noteq> 0 then Some (res, buffer, w2) else Some (0, buffer, w2)
        }
      })"

definition writeAXI_rtl ::
  "'w kernel \<Rightarrow> FPGAContext_rtl \<Rightarrow> u64 \<Rightarrow> u8 list \<Rightarrow> u64 \<Rightarrow> 'w \<Rightarrow> (int \<times> 'w) option" where
  "writeAXI_rtl k c a data size_in_byte w =
     (if size_in_byte > 4096 then Some (-1, w)
      else
        let request = \<lparr>addr = a, byte_size = size_in_byte, is_write = 1,
              w_data = words_of_bytes (overwrite (bytes_of_words (junk_words k)) 0
                         (take (unat size_in_byte) data))\<rparr> in
        if axi_fd c > 0 then do {
          (res, w1) \<leftarrow> sendIPC k (MemoryRequest_bytes (k_junk k 1024) request) (axi_fd c)
                        sizeof_MemoryRequest w;
          if res \<noteq> 0 then Some (res, w1)
          else do {
            (res, ack, w2) \<leftarrow> recvIPC k (bytes_le 4 (k_junk k 0)) (axi_fd c) 4 w1;
            if res \<noteq> 0 then Some (res, w2) else Some (0, w2)
          }
        } else Some (0, w))"

text \<open>The build's instance of the interface of \<open>fpga.h\<close>.\<close>

definition rtl_backend ::
  "'w kernel \<Rightarrow> (\<lparr>axil_fd :: int, axi_fd :: int\<rparr>, 'w) backend" where
  "rtl_backend k = \<lparr>readAXIL = readAXIL_rtl k, writeAXIL = writeAXIL_rtl k,
     readAXI = readAXI_rtl k, writeAXI = writeAXI_rtl k\<rparr>"

end
