(* ===== verification/Aws_Setup.thy ===== *)
theory Aws_Setup
  imports Fpga_Aws Fpga_Rtl
begin

text \<open>
  What \<open>initFPGAContext\<close> and \<open>releaseFPGAContext\<close> of \<open>client/fpga_aws.c\<close> promise, for an
  SDK that answers whatever it likes.
\<close>

lemma init_aws_base:
  assumes "initFPGAContext_aws sdk c0 w = (res, c, w')"
  shows "base_address c = standard_base 0x400000000 (base_address c0)"
proof -
  have "base_address (fst (snd (initFPGAContext_aws sdk c0 w))) = standard_base 0x400000000 (base_address c0)"
    by (simp add: initFPGAContext_aws_def Let_def split: prod.splits)
  with assms show ?thesis by simp
qed

text \<open>
  After \<open>initFPGAContext\<close> on AWS either the result is 0, both DMA queues are open and
  the context has the standard address map for 16 GiB of memory, or it is -1 and the last
  thing done was to release the context as it is left.
\<close>

theorem init_aws_result:
  "case initFPGAContext_aws sdk c0 w of (res, c, w') \<Rightarrow>
     dram_size c = 0x400000000 \<and> base_address c = standard_base 0x400000000 (base_address c0) \<and>
     (res = 0 \<and> 0 \<le> read_fd c \<and> 0 \<le> write_fd c \<or>
      res = -1 \<and> (\<exists>w1. w' = snd (releaseFPGAContext_aws sdk c w1)))"
  by (simp add: initFPGAContext_aws_def Let_def standard_base_def split: prod.splits) blast

text \<open>
  \<open>releaseFPGAContext\<close> on AWS reports only the last thing it did: once closing the queues
  succeeds, the error of detaching the BAR is lost. (The simulator build collects the errors
  of all its steps.)
\<close>

theorem release_aws_drops_errors:
  assumes "0 < write_fd c" and "\<forall>fd w. fst (sdk_close sdk fd w) = 0"
  shows "fst (releaseFPGAContext_aws sdk c w) = 0"
  using assms by (simp add: releaseFPGAContext_aws_def Let_def split_beta)

theorem release_aws_drops_errors_witness:
  "let sdk = (quiet_sdk (\<lambda>a x w. (0, 0, w)) (\<lambda>a v. Pair 0))\<lparr>fpga_pci_detach := \<lambda>_ w. (-1, w)\<rparr> in
     fst (fpga_pci_detach sdk (axil example_context) ()) = -1 \<and>
     axil example_context \<noteq> PCI_BAR_HANDLE_INIT sdk \<and>
     fst (releaseFPGAContext_aws sdk example_context ()) = 0"
proof -
  let ?sdk = "(quiet_sdk (\<lambda>a x w. (0, 0, w)) (\<lambda>a v. Pair 0))\<lparr>fpga_pci_detach := \<lambda>_ w. (-1, w)\<rparr> :: unit aws_sdk"
  have "fst (releaseFPGAContext_aws ?sdk example_context ()) = 0"
    by (rule release_aws_drops_errors) (simp_all add: example_context_def quiet_sdk_def)
  then show ?thesis by (simp add: example_context_def quiet_sdk_def)
qed

end
