(* ===== verification/Messages.thy ===== *)
theory Messages
  imports Prelude
begin

text \<open>
  \<open>client/fpga_interface.h\<close>: the messages exchanged with the MMU of the FPGA, their
  constructors, the address macros and the architectural state of a thread. A
  \<open>MessageFPGA\<close> is a C union of 64 bytes; it is held as its member \<open>words[16]\<close>, and
  every other member is a view of those words at the offset the C layout gives it.
\<close>

section \<open>Macros\<close>

definition PAGE_SIZE :: u64 where
  "PAGE_SIZE = 4096"

definition GET_PAGE_MASK :: "u64 \<Rightarrow> u64" where
  "GET_PAGE_MASK a = a AND NOT (PAGE_SIZE - 1)"

definition GET_PPN_FROM_PADDR :: "u64 \<Rightarrow> u64" where
  "GET_PPN_FROM_PADDR a = drop_bit 12 a"

definition VPN_ALIGN :: "u64 \<Rightarrow> u64" where
  "VPN_ALIGN va = drop_bit 12 va"

definition VPN_GET_HI :: "u64 \<Rightarrow> u64" where
  "VPN_GET_HI va = drop_bit 32 (VPN_ALIGN va) AND 0xFFFFFFFF"

definition VPN_GET_LO :: "u64 \<Rightarrow> u64" where
  "VPN_GET_LO va = VPN_ALIGN va AND 0xFFFFFFFF"

definition GET_NZCV :: "u64 \<Rightarrow> u64" where
  "GET_NZCV nzcv = nzcv AND 0xF"

section \<open>Message and access types\<close>

datatype MessageType =
  sPageFaultNotify | sEvictNotify | sEvictDone | sPageEvict | sMissReply | sEvictReply

fun MessageType_value :: "MessageType \<Rightarrow> u32" where
  "MessageType_value sPageFaultNotify = 4"
| "MessageType_value sEvictNotify = 5"
| "MessageType_value sEvictDone = 6"
| "MessageType_value sPageEvict = 7"
| "MessageType_value sMissReply = 2"
| "MessageType_value sEvictReply = 3"

datatype MemoryAccessType = DATA_LOAD | DATA_STORE | INST_FETCH

fun MemoryAccessType_value :: "MemoryAccessType \<Rightarrow> int" where
  "MemoryAccessType_value DATA_LOAD = 0"
| "MemoryAccessType_value DATA_STORE = 1"
| "MemoryAccessType_value INST_FETCH = 2"

section \<open>The message union\<close>

record MessageFPGA =
  words :: "u32 list"

definition wf_message :: "MessageFPGA \<Rightarrow> bool" where
  "wf_message m \<longleftrightarrow> length (words m) = 16"

definition set_word :: "nat \<Rightarrow> u32 \<Rightarrow> MessageFPGA \<Rightarrow> MessageFPGA" where
  "set_word i v m = m\<lparr>words := (words m)[i := v]\<rparr>"

definition message_bytes :: "MessageFPGA \<Rightarrow> u8 list" where
  "message_bytes m = bytes_of_words (words m)"

definition message_of_bytes :: "u8 list \<Rightarrow> MessageFPGA" where
  "message_of_bytes bs = \<lparr>words = words_of_bytes bs\<rparr>"

subsection \<open>Fields common to every message\<close>

definition msg_type :: "MessageFPGA \<Rightarrow> u32" where
  "msg_type m = words m ! 0"

definition msg_asid :: "MessageFPGA \<Rightarrow> u32" where
  "msg_asid m = words m ! 1"

definition msg_vpn_lo :: "MessageFPGA \<Rightarrow> u32" where
  "msg_vpn_lo m = words m ! 2"

definition msg_vpn_hi :: "MessageFPGA \<Rightarrow> u32" where
  "msg_vpn_hi m = words m ! 3"

text \<open>The member \<open>uint64_t vpn\<close> shares its storage with \<open>vpn_lo\<close> and \<open>vpn_hi\<close>.\<close>

definition msg_vpn :: "MessageFPGA \<Rightarrow> u64" where
  "msg_vpn m = word_le (bytes_le 4 (msg_vpn_lo m) @ bytes_le 4 (msg_vpn_hi m))"

subsection \<open>Fields of the message kinds\<close>

definition MissReply_permission :: "MessageFPGA \<Rightarrow> u32" where
  "MissReply_permission m = words m ! 4"

definition MissReply_thid :: "MessageFPGA \<Rightarrow> u32" where
  "MissReply_thid m = words m ! 5"

definition MissReply_ppn :: "MessageFPGA \<Rightarrow> u32" where
  "MissReply_ppn m = words m ! 6"

definition EvictReply_old_ppn :: "MessageFPGA \<Rightarrow> u32" where
  "EvictReply_old_ppn m = words m ! 4"

definition PageFaultNotif_permission :: "MessageFPGA \<Rightarrow> u32" where
  "PageFaultNotif_permission m = words m ! 4"

definition PageFaultNotif_thid :: "MessageFPGA \<Rightarrow> u32" where
  "PageFaultNotif_thid m = words m ! 5"

definition EvictNotif_ppn :: "MessageFPGA \<Rightarrow> u32" where
  "EvictNotif_ppn m = words m ! 4"

definition EvictNotif_permission :: "MessageFPGA \<Rightarrow> u32" where
  "EvictNotif_permission m = words m ! 5"

definition EvictNotif_modified :: "MessageFPGA \<Rightarrow> u32" where
  "EvictNotif_modified m = words m ! 6"

definition EvictDone_ppn :: "MessageFPGA \<Rightarrow> u32" where
  "EvictDone_ppn m = words m ! 4"

definition EvictDone_permission :: "MessageFPGA \<Rightarrow> u32" where
  "EvictDone_permission m = words m ! 5"

definition EvictDone_modified :: "MessageFPGA \<Rightarrow> u32" where
  "EvictDone_modified m = words m ! 6"

section \<open>Constructors\<close>

definition makeEvictRequest :: "int \<Rightarrow> u64 \<Rightarrow> MessageFPGA \<Rightarrow> MessageFPGA" where
  "makeEvictRequest asid va evict_request =
     set_word 2 (ucast (VPN_GET_LO va))
      (set_word 3 (ucast (VPN_GET_HI va))
        (set_word 1 (word_of_int asid)
          (set_word 0 (MessageType_value sPageEvict) evict_request)))"

definition makeEvictReply :: "MessageFPGA \<Rightarrow> MessageFPGA \<Rightarrow> MessageFPGA" where
  "makeEvictReply notif evict_reply =
     set_word 4 (EvictNotif_ppn notif)
      (set_word 2 (msg_vpn_lo notif)
        (set_word 3 (msg_vpn_hi notif)
          (set_word 1 (msg_asid notif)
            (set_word 0 (MessageType_value sEvictReply) evict_reply))))"

definition makeMissReply ::
  "int \<Rightarrow> int \<Rightarrow> int \<Rightarrow> u64 \<Rightarrow> u64 \<Rightarrow> MessageFPGA \<Rightarrow> MessageFPGA" where
  "makeMissReply type thid asid va paddr miss_reply =
     set_word 6 (ucast (GET_PPN_FROM_PADDR paddr))
      (set_word 4 (word_of_int type)
        (set_word 5 (word_of_int thid)
          (set_word 2 (ucast (VPN_GET_LO va))
            (set_word 3 (ucast (VPN_GET_HI va))
              (set_word 1 (word_of_int asid)
                (set_word 0 (MessageType_value sMissReply) miss_reply))))))"

section \<open>The architectural state\<close>

record ArmflexArchState =
  xregs :: "u64 list"
  pc :: u64
  sp :: u64
  nzcv :: u64

definition ARMFLEX_TOT_REGS :: nat where
  "ARMFLEX_TOT_REGS = 35"

text \<open>The state as the \<open>uint64_t\<close> array the transplant functions see.\<close>

definition arch_to_regs :: "ArmflexArchState \<Rightarrow> u64 list" where
  "arch_to_regs st = xregs st @ [pc st, sp st, nzcv st]"

definition arch_of_regs :: "u64 list \<Rightarrow> ArmflexArchState" where
  "arch_of_regs rs = \<lparr>xregs = take 32 rs, pc = rs ! 32, sp = rs ! 33, nzcv = rs ! 34\<rparr>"

definition wf_arch :: "ArmflexArchState \<Rightarrow> bool" where
  "wf_arch st \<longleftrightarrow> length (xregs st) = 32"

section \<open>Lemmas\<close>

lemmas message_fields =
  msg_type_def msg_asid_def msg_vpn_lo_def msg_vpn_hi_def MissReply_permission_def
  MissReply_thid_def MissReply_ppn_def EvictReply_old_ppn_def PageFaultNotif_permission_def
  PageFaultNotif_thid_def EvictNotif_ppn_def EvictNotif_permission_def EvictNotif_modified_def
  EvictDone_ppn_def EvictDone_permission_def EvictDone_modified_def

lemmas message_makers = makeEvictRequest_def makeEvictReply_def makeMissReply_def

lemma words_set_word [simp]: "words (set_word i v m) = (words m)[i := v]"
  by (simp add: set_word_def)

lemma wf_set_word [simp]: "wf_message (set_word i v m) = wf_message m"
  by (simp add: wf_message_def)

lemma wf_make [simp]:
  "wf_message (makeEvictRequest asid va m) = wf_message m"
  "wf_message (makeEvictReply n m) = wf_message m"
  "wf_message (makeMissReply t th asid va pa m) = wf_message m"
  by (simp_all add: message_makers)

lemma length_message_bytes [simp]: "wf_message m \<Longrightarrow> length (message_bytes m) = 64"
  by (simp add: wf_message_def message_bytes_def)

lemma message_of_message_bytes [simp]: "message_of_bytes (message_bytes m) = m"
  by (simp add: message_of_bytes_def message_bytes_def)

lemma wf_message_of_bytes: "length bs = 64 \<Longrightarrow> wf_message (message_of_bytes bs)"
  by (simp add: wf_message_def message_of_bytes_def)

lemma VPN_GET_LO_eq: "VPN_GET_LO va = take_bit 32 (drop_bit 12 va)"
  by (simp add: VPN_GET_LO_def VPN_ALIGN_def take_bit_eq_mask mask_numeral)

lemma VPN_GET_HI_eq: "VPN_GET_HI va = take_bit 32 (drop_bit 44 va)"
  by (simp add: VPN_GET_HI_def VPN_ALIGN_def take_bit_eq_mask mask_numeral)

text \<open>The halves written by a constructor read back as the whole page number.\<close>

lemma vpn_halves:
  "word_le (bytes_le 4 (ucast (VPN_GET_LO va) :: u32) @ bytes_le 4 (ucast (VPN_GET_HI va) :: u32))
   = (drop_bit 12 va :: u64)"
  unfolding word_le_append word_le_bytes_le_ucast
  by (rule bit_word_eqI) (auto simp: VPN_GET_LO_eq VPN_GET_HI_eq bit_simps)

lemma msg_vpn_make:
  assumes "wf_message m"
  shows "msg_vpn (makeEvictRequest asid va m) = drop_bit 12 va"
    and "msg_vpn (makeMissReply type thid asid va paddr m) = drop_bit 12 va"
  using assms
  by (simp_all add: msg_vpn_def message_makers message_fields wf_message_def vpn_halves)

lemma arch_of_arch_to_regs [simp]: "wf_arch st \<Longrightarrow> arch_of_regs (arch_to_regs st) = st"
  by (simp add: arch_of_regs_def arch_to_regs_def wf_arch_def nth_append)

lemma length_arch_to_regs [simp]: "wf_arch st \<Longrightarrow> length (arch_to_regs st) = ARMFLEX_TOT_REGS"
  by (simp add: arch_to_regs_def wf_arch_def ARMFLEX_TOT_REGS_def)

lemma arch_to_arch_of_regs [simp]:
  assumes "length rs = ARMFLEX_TOT_REGS"
  shows "arch_to_regs (arch_of_regs rs) = rs"
proof (rule nth_equalityI)
  show "length (arch_to_regs (arch_of_regs rs)) = length rs"
    using assms by (simp add: arch_to_regs_def arch_of_regs_def ARMFLEX_TOT_REGS_def)
next
  fix i assume "i < length (arch_to_regs (arch_of_regs rs))"
  then have "i < 35" using assms by (simp add: arch_to_regs_def arch_of_regs_def ARMFLEX_TOT_REGS_def)
  then consider "i < 32" | "i = 32" | "i = 33" | "i = 34" by linarith
  then show "arch_to_regs (arch_of_regs rs) ! i = rs ! i"
    using assms
    by cases (simp_all add: arch_to_regs_def arch_of_regs_def ARMFLEX_TOT_REGS_def nth_append)
qed

lemma unat_ppn: "unat (ucast (GET_PPN_FROM_PADDR pa) :: u32) = unat pa div 4096 mod 4294967296"
  unfolding GET_PPN_FROM_PADDR_def unsigned_ucast_eq
  by (subst unat_drop_bit_eq) (simp add: drop_bit_eq_div take_bit_eq_mod)

lemma GET_PAGE_MASK_eq: "GET_PAGE_MASK a = push_bit 12 (drop_bit 12 a)"
proof (rule bit_word_eqI)
  fix n assume "n < LENGTH(64)"
  moreover have "PAGE_SIZE - 1 = mask 12" by (simp add: PAGE_SIZE_def mask_numeral)
  ultimately show "bit (GET_PAGE_MASK a) n = bit (push_bit 12 (drop_bit 12 a)) n"
    by (auto simp: GET_PAGE_MASK_def bit_simps)
qed

lemma unat_push_drop: "unat (push_bit n (drop_bit n (a::'a::len word))) = unat a div 2 ^ n * 2 ^ n"
proof -
  have "unat (push_bit n (drop_bit n a)) = take_bit LENGTH('a) (push_bit n (drop_bit n (unat a)))"
    by (metis unat_drop_bit_eq unsigned_push_bit_eq)
  also have "\<dots> = unat a div 2 ^ n * 2 ^ n"
    unfolding drop_bit_eq_div push_bit_eq_mult
    by (rule take_bit_nat_eq_self) (metis div_times_less_eq_dividend le_less_trans unsigned_less)
  finally show ?thesis .
qed

lemma unat_GET_PAGE_MASK: "unat (GET_PAGE_MASK a) = unat a div 4096 * 4096"
  using unat_push_drop [of 12 a] by (simp add: GET_PAGE_MASK_eq)

section \<open>Properties\<close>

text \<open>
  C19. The reply to a page fault carries what the caller asked for: its type code, the address
  space, the page number of the faulting address in full (both halves), the permission and the
  thread; the frame number it holds is that of the page the physical address lies in, for
  every address below 2^44, and the rest of the message is left as it was.
\<close>

theorem miss_reply_contents:
  assumes "wf_message m"
  shows "let r = makeMissReply type thid asid va paddr m in
    msg_type r = MessageType_value sMissReply \<and> msg_asid r = word_of_int asid \<and>
    msg_vpn r = VPN_ALIGN va \<and> MissReply_permission r = word_of_int type \<and>
    MissReply_thid r = word_of_int thid \<and>
    (unat paddr < 2 ^ 44 \<longrightarrow> unat (MissReply_ppn r) * 4096 = unat (GET_PAGE_MASK paddr)) \<and>
    drop 7 (words r) = drop 7 (words m)"
proof -
  let ?r = "makeMissReply type thid asid va paddr m"
  have len: "length (words m) = 16" using assms(1) by (simp add: wf_message_def)
  have "MissReply_ppn ?r = ucast (GET_PPN_FROM_PADDR paddr)"
    by (simp add: makeMissReply_def MissReply_ppn_def len)
  moreover have "unat paddr div 4096 < 4294967296" if "unat paddr < 2 ^ 44"
    using that by (intro less_mult_imp_div_less) simp
  ultimately have "unat paddr < 2 ^ 44 \<longrightarrow>
      unat (MissReply_ppn ?r) * 4096 = unat (GET_PAGE_MASK paddr)"
    by (simp add: unat_ppn unat_GET_PAGE_MASK)
  then show ?thesis
    using msg_vpn_make(2) [OF assms(1)] len
    by (simp add: VPN_ALIGN_def makeMissReply_def message_fields drop_update_swap Let_def)
qed

theorem miss_reply_contents_witness:
  "let r = makeMissReply 1 (-1) 10 0x50000 0x20000 \<lparr>words = replicate 16 0\<rparr> in
    msg_type r = MessageType_value sMissReply \<and> msg_asid r = word_of_int 10 \<and>
    msg_vpn r = VPN_ALIGN 0x50000 \<and> MissReply_permission r = word_of_int 1 \<and>
    MissReply_thid r = word_of_int (-1) \<and>
    unat (MissReply_ppn r) * 4096 = unat (GET_PAGE_MASK 0x20000) \<and>
    drop 7 (words r) = drop 7 (words \<lparr>words = replicate 16 0\<rparr>)"
  using miss_reply_contents [of "\<lparr>words = replicate 16 0\<rparr>" 1 "-1" 10 "0x50000" "0x20000"]
  by (simp add: wf_message_def Let_def)

text \<open>
  The reply to an eviction notification names the page the notification named: its
  address space, its page number and its frame.
\<close>

theorem evict_reply_answers:
  assumes "wf_message m"
  shows "let r = makeEvictReply notif m in
    msg_type r = MessageType_value sEvictReply \<and> msg_asid r = msg_asid notif \<and>
    msg_vpn r = msg_vpn notif \<and> EvictReply_old_ppn r = EvictNotif_ppn notif \<and>
    drop 5 (words r) = drop 5 (words m)"
  using assms
  by (simp add: makeEvictReply_def msg_vpn_def message_fields wf_message_def drop_update_swap Let_def)

theorem evict_reply_answers_witness:
  "let notif = \<lparr>words = [5, 10, 0x50, 0, 0x20, 1, 1] @ replicate 9 0\<rparr>;
       r = makeEvictReply notif \<lparr>words = replicate 16 0\<rparr> in
    msg_type r = MessageType_value sEvictReply \<and> msg_asid r = msg_asid notif \<and>
    msg_vpn r = msg_vpn notif \<and> EvictReply_old_ppn r = EvictNotif_ppn notif \<and>
    drop 5 (words r) = drop 5 (words \<lparr>words = replicate 16 0\<rparr>)"
  using evict_reply_answers [of "\<lparr>words = replicate 16 0\<rparr>"
      "\<lparr>words = [5, 10, 0x50, 0, 0x20, 1, 1] @ replicate 9 0\<rparr>"]
  unfolding Let_def wf_message_def by simp

end
