(* ===== verification/Fpga_Interface.thy ===== *)
theory Fpga_Interface
  imports Fpga Messages
begin

text \<open>
  \<open>client/fpga_interface.c\<close>: transplanting threads, exchanging MMU messages and moving
  pages, over any backend. Addresses are computed at the width the C code uses:
  \<open>uint32_t\<close> bases, a \<open>size_t\<close> offset, and the truncation to \<open>uint32_t\<close> at the call.
\<close>

section \<open>Threads\<close>

definition registerThreadWithProcess ::
  "('z, 's) backend \<Rightarrow> 'z FPGAContext_scheme \<Rightarrow> u32 \<Rightarrow> u32 \<Rightarrow> 's \<Rightarrow> (int \<times> 's) option" where
  "registerThreadWithProcess be c thread_id process_id s =
     (let axi_tt_base = axil_base (base_address c) + tt (base_address c)
      in writeAXIL be c (axi_tt_base + thread_id * 4) process_id s)"

definition transplant_base_offset :: "'z FPGAContext_scheme \<Rightarrow> u32 \<Rightarrow> u64" where
  "transplant_base_offset c thread_id =
     (let axi_transplant_base = axil_base (base_address c) + transplant_data (base_address c)
      in ucast (axi_transplant_base + push_bit 7 thread_id * 4))"

definition reg_addr_lo :: "u64 \<Rightarrow> nat \<Rightarrow> u32" where
  "reg_addr_lo base_offset reg = ucast (base_offset + of_nat (2 * reg) * 4)"

definition reg_addr_hi :: "u64 \<Rightarrow> nat \<Rightarrow> u32" where
  "reg_addr_hi base_offset reg = ucast (base_offset + of_nat (2 * reg + 1) * 4)"

text \<open>The register loops; \<open>n\<close> iterations are left, \<open>reg\<close> is the loop variable.\<close>

fun getState_loop ::
  "('z, 's) backend \<Rightarrow> 'z FPGAContext_scheme \<Rightarrow> u64 \<Rightarrow> nat \<Rightarrow> nat \<Rightarrow> u64 list \<Rightarrow> u32 \<Rightarrow> u32 \<Rightarrow> 's \<Rightarrow>
   (int \<times> u64 list \<times> 's) option" where
  "getState_loop be c base_offset reg 0 state reg_val1 reg_val2 s = Some (0, state, s)"
| "getState_loop be c base_offset reg (Suc n) state reg_val1 reg_val2 s =
     do {
       (ret, reg_val1, s) \<leftarrow> readAXIL be c (reg_addr_lo base_offset reg) reg_val1 s;
       if ret \<noteq> 0 then Some (ret, state, s)
       else do {
         (ret, reg_val2, s) \<leftarrow> readAXIL be c (reg_addr_hi base_offset reg) reg_val2 s;
         if ret \<noteq> 0 then Some (ret, state, s)
         else getState_loop be c base_offset (Suc reg) n
                (state[reg := ucast reg_val1 OR push_bit 32 (ucast reg_val2)]) reg_val1 reg_val2 s
       }
     }"

text \<open>\<open>junk\<close> is what the two uninitialised locals hold at the start.\<close>

definition transplant_getState ::
  "('z, 's) backend \<Rightarrow> 'z FPGAContext_scheme \<Rightarrow> u32 \<Rightarrow> u32 \<Rightarrow> u64 list \<Rightarrow> nat \<Rightarrow> 's \<Rightarrow>
   (int \<times> u64 list \<times> 's) option" where
  "transplant_getState be c junk thread_id state regCount s =
     getState_loop be c (transplant_base_offset c thread_id) 0 regCount state junk junk s"

fun pushState_loop ::
  "('z, 's) backend \<Rightarrow> 'z FPGAContext_scheme \<Rightarrow> u64 \<Rightarrow> nat \<Rightarrow> nat \<Rightarrow> u64 list \<Rightarrow> 's \<Rightarrow>
   (int \<times> 's) option" where
  "pushState_loop be c base_offset reg 0 state s = Some (0, s)"
| "pushState_loop be c base_offset reg (Suc n) state s =
     (let reg_val1 = ucast (state ! reg) :: u32; reg_val2 = ucast (drop_bit 32 (state ! reg)) :: u32
      in do {
        (ret, s) \<leftarrow> writeAXIL be c (reg_addr_lo base_offset reg) reg_val1 s;
        if ret \<noteq> 0 then Some (ret, s)
        else do {
          (ret, s) \<leftarrow> writeAXIL be c (reg_addr_hi base_offset reg) reg_val2 s;
          if ret \<noteq> 0 then Some (ret, s)
          else pushState_loop be c base_offset (Suc reg) n state s
        }
      })"

definition transplant_pushState ::
  "('z, 's) backend \<Rightarrow> 'z FPGAContext_scheme \<Rightarrow> u32 \<Rightarrow> u64 list \<Rightarrow> nat \<Rightarrow> 's \<Rightarrow>
   (int \<times> 's) option" where
  "transplant_pushState be c thread_id state regCount s =
     pushState_loop be c (transplant_base_offset c thread_id) 0 regCount state s"

definition registerAndPushState ::
  "('z, 's) backend \<Rightarrow> 'z FPGAContext_scheme \<Rightarrow> u32 \<Rightarrow> u32 \<Rightarrow> ArmflexArchState \<Rightarrow> 's \<Rightarrow>
   (int \<times> 's) option" where
  "registerAndPushState be c thread_id process_id state s =
     do {
       (res, s) \<leftarrow> registerThreadWithProcess be c thread_id process_id s;
       if res \<noteq> 0 then Some (res, s)
       else transplant_pushState be c thread_id (arch_to_regs state) ARMFLEX_TOT_REGS s
     }"

definition transplantBack ::
  "('z, 's) backend \<Rightarrow> 'z FPGAContext_scheme \<Rightarrow> u32 \<Rightarrow> u32 \<Rightarrow> ArmflexArchState \<Rightarrow> 's \<Rightarrow>
   (int \<times> ArmflexArchState \<times> 's) option" where
  "transplantBack be c junk thread_id state s =
     do {
       (res, s) \<leftarrow> registerThreadWithProcess be c thread_id 0 s;
       if res \<noteq> 0 then Some (res, state, s)
       else do {
         (res, regs, s) \<leftarrow> transplant_getState be c junk thread_id (arch_to_regs state)
                             ARMFLEX_TOT_REGS s;
         Some (res, arch_of_regs regs, s)
       }
     }"

section \<open>Pending, starting and stopping threads\<close>

definition transplant_ctrl_base :: "'z FPGAContext_scheme \<Rightarrow> u32" where
  "transplant_ctrl_base c = axil_base (base_address c) + transplant_ctl (base_address c)"

definition transplant_pending ::
  "('z, 's) backend \<Rightarrow> 'z FPGAContext_scheme \<Rightarrow> 's \<Rightarrow> (int \<times> u32 \<times> 's) option" where
  "transplant_pending be c s = readAXIL be c (transplant_ctrl_base c) 0 s"

definition queryThreadState ::
  "('z, 's) backend \<Rightarrow> 'z FPGAContext_scheme \<Rightarrow> 's \<Rightarrow> (int \<times> u32 \<times> 's) option" where
  "queryThreadState be c s = transplant_pending be c s"

definition transplant_freePending ::
  "('z, 's) backend \<Rightarrow> 'z FPGAContext_scheme \<Rightarrow> u32 \<Rightarrow> 's \<Rightarrow> (int \<times> 's) option" where
  "transplant_freePending be c pending_threads s =
     writeAXIL be c (transplant_ctrl_base c) pending_threads s"

text \<open>
  \<open>1 << thread_id\<close> in C is undefined for \<open>thread_id >= 32\<close>; the properties are about
  \<open>thread_id < 32\<close>.
\<close>

definition thread_bit :: "u32 \<Rightarrow> u32" where
  "thread_bit thread_id = push_bit (unat thread_id) 1"

definition transplant_start ::
  "('z, 's) backend \<Rightarrow> 'z FPGAContext_scheme \<Rightarrow> u32 \<Rightarrow> 's \<Rightarrow> (int \<times> 's) option" where
  "transplant_start be c thread_id s =
     writeAXIL be c (transplant_ctrl_base c + 4) (thread_bit thread_id) s"

definition transplant_stopCPU ::
  "('z, 's) backend \<Rightarrow> 'z FPGAContext_scheme \<Rightarrow> u32 \<Rightarrow> 's \<Rightarrow> (int \<times> 's) option" where
  "transplant_stopCPU be c thread_id s =
     writeAXIL be c (transplant_ctrl_base c + 8) (thread_bit thread_id) s"

partial_function (option) waitTillPending_loop ::
  "('z, 's) backend \<Rightarrow> 'z FPGAContext_scheme \<Rightarrow> u32 \<Rightarrow> 's \<Rightarrow> (int \<times> u32 \<times> 's) option" where
  "waitTillPending_loop be c pending s =
     (if pending = 0 then
        (case queryThreadState be c s of
           None \<Rightarrow> None
         | Some (ret, pending, s) \<Rightarrow>
             if ret \<noteq> 0 then Some (-1, pending, s) else waitTillPending_loop be c pending s)
      else Some (0, pending, s))"

text \<open>The second component is \<open>*pending_threads\<close>, written only on success.\<close>

definition transplant_waitTillPending ::
  "('z, 's) backend \<Rightarrow> 'z FPGAContext_scheme \<Rightarrow> u32 \<Rightarrow> 's \<Rightarrow> (int \<times> u32 \<times> 's) option" where
  "transplant_waitTillPending be c pending_threads s =
     do {
       (ret, pending, s) \<leftarrow> waitTillPending_loop be c 0 s;
       if ret \<noteq> 0 then Some (ret, pending_threads, s)
       else do {
         (_, s) \<leftarrow> transplant_freePending be c pending s;
         Some (0, pending, s)
       }
     }"

section \<open>Messages\<close>

definition query_base :: "'z FPGAContext_scheme \<Rightarrow> u32" where
  "query_base c = axil_base (base_address c) + message_queue (base_address c)"

definition data_base :: "'z FPGAContext_scheme \<Rightarrow> u64" where
  "data_base c = axi_base (base_address c) + message (base_address c)"

text \<open>The result of the read is ignored: \<open>res\<close> keeps its initial \<open>-1\<close> when it fails.\<close>

definition hasMessagePending ::
  "('z, 's) backend \<Rightarrow> 'z FPGAContext_scheme \<Rightarrow> 's \<Rightarrow> (bool \<times> 's) option" where
  "hasMessagePending be c s =
     do {
       (_, res, s) \<leftarrow> readAXIL be c (query_base c + 0x4) (-1) s;
       Some (\<not> (res = 0), s)
     }"

definition getMessagePending ::
  "('z, 's) backend \<Rightarrow> 'z FPGAContext_scheme \<Rightarrow> u8 list \<Rightarrow> 's \<Rightarrow> (int \<times> u8 list \<times> 's) option" where
  "getMessagePending be c msg s = readAXI be c (data_base c) msg 64 s"

partial_function (option) queryMessage_loop ::
  "('z, 's) backend \<Rightarrow> 'z FPGAContext_scheme \<Rightarrow> 's \<Rightarrow> 's option" where
  "queryMessage_loop be c s =
     (case hasMessagePending be c s of
        None \<Rightarrow> None
      | Some (hasMessage, s) \<Rightarrow> if hasMessage then Some s else queryMessage_loop be c s)"

definition queryMessageFromFPGA ::
  "('z, 's) backend \<Rightarrow> 'z FPGAContext_scheme \<Rightarrow> u8 list \<Rightarrow> 's \<Rightarrow> (int \<times> u8 list \<times> 's) option" where
  "queryMessageFromFPGA be c msg s =
     do {
       s \<leftarrow> queryMessage_loop be c s;
       readAXI be c (data_base c) msg 64 s
     }"

definition checkRxMessageQueue ::
  "('z, 's) backend \<Rightarrow> 'z FPGAContext_scheme \<Rightarrow> u32 \<Rightarrow> 's \<Rightarrow> (int \<times> u32 \<times> 's) option" where
  "checkRxMessageQueue be c data s = readAXIL be c (query_base c + 0x4) data s"

partial_function (option) sendMessage_loop ::
  "('z, 's) backend \<Rightarrow> 'z FPGAContext_scheme \<Rightarrow> u32 \<Rightarrow> 's \<Rightarrow> 's option" where
  "sendMessage_loop be c res s =
     (case readAXIL be c (query_base c) res s of
        None \<Rightarrow> None
      | Some (_, res, s) \<Rightarrow> if res = 0 then sendMessage_loop be c res s else Some s)"

definition sendMessageToFPGA ::
  "('z, 's) backend \<Rightarrow> 'z FPGAContext_scheme \<Rightarrow> u8 list \<Rightarrow> nat \<Rightarrow> 's \<Rightarrow> (int \<times> 's) option" where
  "sendMessageToFPGA be c raw_message message_size s =
     do {
       s \<leftarrow> sendMessage_loop be c (-1) s;
       writeAXI be c (data_base c)
         (overwrite (replicate 64 0) 0 (take message_size raw_message)) 64 s
     }"

section \<open>Pages\<close>

definition align_paddr :: "u64 \<Rightarrow> u64" where
  "align_paddr paddr =
     (if paddr AND (PAGE_SIZE - 1) \<noteq> 0 then paddr XOR (paddr AND 4095) else paddr)"

definition pushPageToFPGA ::
  "('z, 's) backend \<Rightarrow> 'z FPGAContext_scheme \<Rightarrow> u64 \<Rightarrow> u8 list \<Rightarrow> 's \<Rightarrow> (int \<times> 's) option" where
  "pushPageToFPGA be c paddr page s =
     writeAXI be c (dram_base (base_address c) + align_paddr paddr) page PAGE_SIZE s"

definition fetchPageFromFPGA ::
  "('z, 's) backend \<Rightarrow> 'z FPGAContext_scheme \<Rightarrow> u64 \<Rightarrow> u8 list \<Rightarrow> 's \<Rightarrow>
   (int \<times> u8 list \<times> 's) option" where
  "fetchPageFromFPGA be c paddr buffer s =
     readAXI be c (dram_base (base_address c) + align_paddr paddr) buffer PAGE_SIZE s"

end
