(* ===== verification/Transplant.thy ===== *)
theory Transplant
  imports Fpga_Interface Fpga_Aws
begin

text \<open>
  What the transplant functions of \<open>client/fpga_interface.c\<close> do to the registers of the
  FPGA, over any backend whose AXI-Lite accessors behave like a register file: the contract
  \<open>axil_registers\<close>, stated for the addresses of a \<open>window\<close> and the states in which the
  device is usable.
\<close>

section \<open>The contract of the accessors\<close>

locale axil_registers =
  fixes be :: "('z, 's) backend" and c :: "'z FPGAContext_scheme"
    and usable :: "'s \<Rightarrow> bool" and regs :: "'s \<Rightarrow> u32 \<Rightarrow> u32" and window :: "u32 set"
  assumes write_register: "usable s \<Longrightarrow> a \<in> window \<Longrightarrow>
      \<exists>s'. writeAXIL be c a v s = Some (0, s') \<and> usable s' \<and> regs s' = (regs s)(a := v)"
    and read_register: "usable s \<Longrightarrow> a \<in> window \<Longrightarrow>
      \<exists>s'. readAXIL be c a x s = Some (0, regs s a, s') \<and> usable s' \<and> regs s' = regs s"

section \<open>Addresses of the register window\<close>

definition slot :: "u64 \<Rightarrow> nat \<Rightarrow> u32" where
  "slot base_offset k = ucast (base_offset + of_nat k * 4)"

lemma reg_addr_slot:
  "reg_addr_lo b reg = slot b (2 * reg)" "reg_addr_hi b reg = slot b (2 * reg + 1)"
  by (simp_all only: reg_addr_lo_def reg_addr_hi_def slot_def)

lemma slot_eq: "slot b k = ucast b + of_nat (4 * k)"
  by (simp add: slot_def unsigned_ucast_eq word_unat_eq_iff unat_word_ariths take_bit_eq_mod mod_simps
      mod_mod_cancel mult.commute unat_of_nat)

lemma slot_inj:
  assumes "k < 2 ^ 30" and "l < 2 ^ 30" and "slot b k = slot b l"
  shows "k = l"
proof -
  have "(of_nat (4 * k) :: u32) = of_nat (4 * l)"
    using assms(3) by (simp only: slot_eq add_left_cancel)
  then have "take_bit 32 (4 * k) = take_bit 32 (4 * l)"
    by (simp only: word_of_nat_eq_iff) simp
  then show ?thesis using assms(1,2) by (simp add: take_bit_eq_mod)
qed

lemma unat_slot: "unat (slot b k) = (unat b + 4 * k) mod 2 ^ 32"
  by (simp add: slot_eq unat_word_ariths unat_of_nat unsigned_ucast_eq take_bit_eq_mod mod_simps)


lemma reg_word_halves: "ucast (ucast v :: u32) OR push_bit 32 (ucast (ucast (drop_bit 32 v) :: u32)) = (v :: u64)"
  by (rule bit_word_eqI) (auto simp: bit_simps)

section \<open>The register loops over a register file\<close>

text \<open>Register \<open>r\<close> of the thread whose window starts at \<open>b\<close>, as the two words hold it.\<close>

definition reg_value :: "(u32 \<Rightarrow> u32) \<Rightarrow> u64 \<Rightarrow> nat \<Rightarrow> u64" where
  "reg_value f b r = ucast (f (reg_addr_lo b r)) OR push_bit 32 (ucast (f (reg_addr_hi b r)))"

lemma reg_value_set:
  assumes "r < 2 ^ 28" and "r' < 2 ^ 28"
  shows "reg_value (f(reg_addr_lo b r := ucast v, reg_addr_hi b r := ucast (drop_bit 32 v))) b r' =
    (if r' = r then v else reg_value f b r')"
proof -
  have lo: "reg_addr_lo b r = reg_addr_lo b r' \<longleftrightarrow> r = r'"
    and hi: "reg_addr_hi b r = reg_addr_hi b r' \<longleftrightarrow> r = r'"
    and "reg_addr_lo b r \<noteq> reg_addr_hi b r'" "reg_addr_lo b r' \<noteq> reg_addr_hi b r"
    using assms slot_inj [of "2 * r" "2 * r'" b] slot_inj [of "2 * r + 1" "2 * r' + 1" b]
      slot_inj [of "2 * r" "2 * r' + 1" b] slot_inj [of "2 * r'" "2 * r + 1" b]
    by (auto simp: reg_addr_slot) presburger+
  then show ?thesis by (auto simp: reg_value_def reg_word_halves)
qed

context axil_registers
begin

lemma pushState_loop_regs:
  assumes "usable s" and "reg + n \<le> 2 ^ 28"
    and "\<And>r. r < reg + n \<Longrightarrow> reg_addr_lo b r \<in> window \<and> reg_addr_hi b r \<in> window"
  shows "\<exists>s'. pushState_loop be c b reg n state s = Some (0, s') \<and> usable s' \<and>
    (\<forall>r < 2 ^ 28. reg_value (regs s') b r =
       (if reg \<le> r \<and> r < reg + n then state ! r else reg_value (regs s) b r)) \<and>
    (\<forall>a. (\<forall>r < reg + n. a \<noteq> reg_addr_lo b r \<and> a \<noteq> reg_addr_hi b r) \<longrightarrow> regs s' a = regs s a)"
  using assms
proof (induction n arbitrary: reg s)
  case 0
  then show ?case by auto
next
  case (Suc n)
  let ?v = "state ! reg"
  from Suc.prems have win: "reg_addr_lo b reg \<in> window" "reg_addr_hi b reg \<in> window" by auto
  obtain s1 where s1: "writeAXIL be c (reg_addr_lo b reg) (ucast ?v) s = Some (0, s1)" "usable s1"
    "regs s1 = (regs s)(reg_addr_lo b reg := ucast ?v)"
    using write_register [OF Suc.prems(1) win(1)] by blast
  obtain s2 where s2: "writeAXIL be c (reg_addr_hi b reg) (ucast (drop_bit 32 ?v)) s1 = Some (0, s2)"
    "usable s2" "regs s2 = (regs s1)(reg_addr_hi b reg := ucast (drop_bit 32 ?v))"
    using write_register [OF s1(2) win(2)] by blast
  have val: "reg_value (regs s2) b r = (if r = reg then ?v else reg_value (regs s) b r)"
    if "r < 2 ^ 28" for r
    using reg_value_set [of reg r "regs s" b ?v] that Suc.prems(2) s1(3) s2(3) by simp
  obtain s' where s': "pushState_loop be c b (Suc reg) n state s2 = Some (0, s')" "usable s'"
    "\<forall>r < 2 ^ 28. reg_value (regs s') b r =
       (if Suc reg \<le> r \<and> r < Suc reg + n then state ! r else reg_value (regs s2) b r)"
    "\<forall>a. (\<forall>r < Suc reg + n. a \<noteq> reg_addr_lo b r \<and> a \<noteq> reg_addr_hi b r) \<longrightarrow> regs s' a = regs s2 a"
    using Suc.IH [OF s2(2), of "Suc reg"] Suc.prems(2,3) by auto
  have "pushState_loop be c b reg (Suc n) state s = Some (0, s')"
    using s1(1) s2(1) s'(1) by simp
  moreover have "\<forall>r < 2 ^ 28. reg_value (regs s') b r =
      (if reg \<le> r \<and> r < reg + Suc n then state ! r else reg_value (regs s) b r)"
    using s'(3) val by auto
  moreover have "\<forall>a. (\<forall>r < reg + Suc n. a \<noteq> reg_addr_lo b r \<and> a \<noteq> reg_addr_hi b r) \<longrightarrow>
      regs s' a = regs s a"
    using s'(4) s1(3) s2(3) by simp
  ultimately show ?case using s'(2) by blast
qed

lemma getState_loop_regs:
  assumes "usable s" and "reg + n \<le> length state"
    and "\<And>r. r < reg + n \<Longrightarrow> reg_addr_lo b r \<in> window \<and> reg_addr_hi b r \<in> window"
  shows "\<exists>s'. getState_loop be c b reg n state v1 v2 s =
      Some (0, take reg state @ map (reg_value (regs s) b) [reg..<reg + n] @ drop (reg + n) state, s')
      \<and> usable s' \<and> regs s' = regs s"
  using assms
proof (induction n arbitrary: reg s state v1 v2)
  case 0
  then show ?case by simp
next
  case (Suc n)
  from Suc.prems have win: "reg_addr_lo b reg \<in> window" "reg_addr_hi b reg \<in> window" by auto
  let ?lo = "regs s (reg_addr_lo b reg)" and ?hi = "regs s (reg_addr_hi b reg)"
  obtain s1 where s1: "readAXIL be c (reg_addr_lo b reg) v1 s = Some (0, ?lo, s1)" "usable s1"
    "regs s1 = regs s"
    using read_register [OF Suc.prems(1) win(1)] by blast
  obtain s2 where s2: "readAXIL be c (reg_addr_hi b reg) v2 s1 = Some (0, ?hi, s2)" "usable s2"
    "regs s2 = regs s"
    using read_register [OF s1(2) win(2)] s1(3) by metis
  let ?st = "state[reg := reg_value (regs s) b reg]"
  obtain s' where s': "getState_loop be c b (Suc reg) n ?st ?lo ?hi s2 =
      Some (0, take (Suc reg) ?st @ map (reg_value (regs s2) b) [Suc reg..<Suc reg + n] @
        drop (Suc reg + n) ?st, s')" "usable s'" "regs s' = regs s2"
    using Suc.IH [OF s2(2), of "Suc reg" ?st ?lo ?hi] Suc.prems(2,3) by auto
  have "take (Suc reg) ?st = take reg state @ [reg_value (regs s) b reg]"
    using Suc.prems(2) by (simp add: take_Suc_conv_app_nth)
  moreover have "[reg..<reg + Suc n] = reg # [Suc reg..<Suc reg + n]"
    using upt_conv_Cons [of reg "reg + Suc n"] by simp
  ultimately show ?case
    using s1(1) s2(1) s2(3) s' by (simp add: reg_value_def)
qed

end


context axil_registers
begin

lemma transplant_pushState_regs:
  assumes "usable s" and "n \<le> 2 ^ 28"
    and "\<And>r. r < n \<Longrightarrow> reg_addr_lo (transplant_base_offset c th) r \<in> window \<and>
      reg_addr_hi (transplant_base_offset c th) r \<in> window"
  shows "\<exists>s'. transplant_pushState be c th state n s = Some (0, s') \<and> usable s' \<and>
    (\<forall>r < n. reg_value (regs s') (transplant_base_offset c th) r = state ! r)"
proof -
  from pushState_loop_regs [OF assms(1), of 0 n "transplant_base_offset c th" state] assms(2,3)
  obtain s' where "pushState_loop be c (transplant_base_offset c th) 0 n state s = Some (0, s')"
    "usable s'"
    "\<forall>r < 2 ^ 28. reg_value (regs s') (transplant_base_offset c th) r =
       (if r < n then state ! r else reg_value (regs s) (transplant_base_offset c th) r)"
    by auto
  then show ?thesis using assms(2) unfolding transplant_pushState_def by auto
qed

lemma transplant_getState_regs:
  assumes "usable s" and "length state = n"
    and "\<And>r. r < n \<Longrightarrow> reg_addr_lo (transplant_base_offset c th) r \<in> window \<and>
      reg_addr_hi (transplant_base_offset c th) r \<in> window"
  shows "\<exists>s'. transplant_getState be c junk th state n s =
    Some (0, map (reg_value (regs s) (transplant_base_offset c th)) [0..<n], s') \<and> usable s' \<and>
    regs s' = regs s"
  using getState_loop_regs [OF assms(1), of 0 n state "transplant_base_offset c th" junk junk] assms(2,3)
  by (auto simp: transplant_getState_def)

end

section \<open>The windows of the standard memory map\<close>

definition thread_window :: "nat \<Rightarrow> u32 set" where
  "thread_window th = {a. 512 * th \<le> unat a \<and> unat a < 512 * th + 8 * ARMFLEX_TOT_REGS}"

lemma unat_transplant_base:
  assumes "base_address c = standard_base d b" and "unat th < 64"
  shows "unat (transplant_base_offset c th) = 512 * unat th"
proof -
  have "unat (push_bit 7 th * 4) = 512 * unat th"
    using assms(2) by (simp add: push_bit_eq_mult unat_word_ariths)
  then show ?thesis
    using assms by (simp add: transplant_base_offset_def standard_base_def unsigned_ucast_eq
        take_bit_eq_mod)
qed

lemma reg_addrs_standard:
  assumes "base_address c = standard_base d b" and "unat th < 64" and "r < ARMFLEX_TOT_REGS"
  shows "unat (reg_addr_lo (transplant_base_offset c th) r) = 512 * unat th + 8 * r"
    and "unat (reg_addr_hi (transplant_base_offset c th) r) = 512 * unat th + 8 * r + 4"
  using assms
  by (simp_all add: reg_addr_slot unat_slot unat_transplant_base ARMFLEX_TOT_REGS_def)

lemma reg_addrs_in_window:
  assumes "base_address c = standard_base d b" and "unat th < 64" and "r < ARMFLEX_TOT_REGS"
  shows "reg_addr_lo (transplant_base_offset c th) r \<in> thread_window (unat th) \<and>
    reg_addr_hi (transplant_base_offset c th) r \<in> thread_window (unat th)"
  using reg_addrs_standard [OF assms] assms(3) by (simp add: thread_window_def)

definition tt_addr :: "'z FPGAContext_scheme \<Rightarrow> u32 \<Rightarrow> u32" where
  "tt_addr c th = axil_base (base_address c) + tt (base_address c) + th * 4"

lemma unat_tt_addr:
  assumes "base_address c = standard_base d b" and "unat th < 64"
  shows "unat (tt_addr c th) = 0x8000 + 4 * unat th"
  using assms by (simp add: tt_addr_def standard_base_def unat_word_ariths)


lemma registerThread_addr:
  "registerThreadWithProcess be c th pid s = writeAXIL be c (tt_addr c th) pid s"
  by (simp add: registerThreadWithProcess_def tt_addr_def Let_def)

lemma reg_value_other:
  assumes "base_address c = standard_base d b" and "unat th < 64" and "r < ARMFLEX_TOT_REGS"
  shows "reg_value (f(tt_addr c th := v)) (transplant_base_offset c th) r =
    reg_value f (transplant_base_offset c th) r"
proof -
  have "unat (reg_addr_lo (transplant_base_offset c th) r) < unat (tt_addr c th)"
    "unat (reg_addr_hi (transplant_base_offset c th) r) < unat (tt_addr c th)"
    using reg_addrs_standard [OF assms] unat_tt_addr [OF assms(1,2)] assms(2,3)
    by (simp_all add: ARMFLEX_TOT_REGS_def)
  then show ?thesis by (auto simp: reg_value_def)
qed

context axil_registers
begin

lemma registerAndPushState_regs:
  assumes "usable s" and "base_address c = standard_base d b" and "unat th < 64"
    and "insert (tt_addr c th) (thread_window (unat th)) \<subseteq> window" and "wf_arch st"
  shows "\<exists>s'. registerAndPushState be c th pid st s = Some (0, s') \<and> usable s' \<and>
    map (reg_value (regs s') (transplant_base_offset c th)) [0..<ARMFLEX_TOT_REGS] = arch_to_regs st"
proof -
  obtain s1 where s1: "writeAXIL be c (tt_addr c th) pid s = Some (0, s1)" "usable s1"
    using write_register [OF assms(1), of "tt_addr c th" pid] assms(4) by auto
  obtain s' where s': "transplant_pushState be c th (arch_to_regs st) ARMFLEX_TOT_REGS s1 = Some (0, s')"
    "usable s'" "\<forall>r < ARMFLEX_TOT_REGS. reg_value (regs s') (transplant_base_offset c th) r =
      arch_to_regs st ! r"
    using transplant_pushState_regs [OF s1(2), of ARMFLEX_TOT_REGS th "arch_to_regs st"]
      reg_addrs_in_window [OF assms(2,3)] assms(4)
    by (fastforce simp: ARMFLEX_TOT_REGS_def)
  have "map (reg_value (regs s') (transplant_base_offset c th)) [0..<ARMFLEX_TOT_REGS] = arch_to_regs st"
    by (rule nth_equalityI) (use assms(5) s'(3) in auto)
  with s1(1) s'(1,2) show ?thesis
    by (simp add: registerAndPushState_def registerThread_addr)
qed

lemma transplantBack_regs:
  assumes "usable s" and "base_address c = standard_base d b" and "unat th < 64"
    and "insert (tt_addr c th) (thread_window (unat th)) \<subseteq> window" and "wf_arch st0"
  shows "\<exists>s'. transplantBack be c junk th st0 s = Some (0, arch_of_regs
      (map (reg_value (regs s) (transplant_base_offset c th)) [0..<ARMFLEX_TOT_REGS]), s') \<and>
    usable s' \<and> regs s' (tt_addr c th) = 0"
proof -
  obtain s1 where s1: "writeAXIL be c (tt_addr c th) 0 s = Some (0, s1)" "usable s1"
    "regs s1 = (regs s)(tt_addr c th := 0)"
    using write_register [OF assms(1), of "tt_addr c th" 0] assms(4) by auto
  obtain s' where s': "transplant_getState be c junk th (arch_to_regs st0) ARMFLEX_TOT_REGS s1 =
    Some (0, map (reg_value (regs s1) (transplant_base_offset c th)) [0..<ARMFLEX_TOT_REGS], s')"
    "usable s'" "regs s' = regs s1"
    using transplant_getState_regs [OF s1(2), of "arch_to_regs st0" ARMFLEX_TOT_REGS th junk]
      reg_addrs_in_window [OF assms(2,3)] assms(4,5) by fastforce
  have vals: "map (reg_value (regs s1) (transplant_base_offset c th)) [0..<ARMFLEX_TOT_REGS] =
      map (reg_value (regs s) (transplant_base_offset c th)) [0..<ARMFLEX_TOT_REGS]"
    using reg_value_other [OF assms(2,3)] s1(3) by simp
  have "regs s' (tt_addr c th) = 0" using s'(3) s1(3) by simp
  with s1(1) s'(2) s'(1) [unfolded vals] show ?thesis
    by (simp add: transplantBack_def registerThread_addr)
qed

text \<open>A state pushed and fetched back is the state that was pushed.\<close>

theorem transplant_roundtrip:
  assumes "usable s" and "base_address c = standard_base d b" and "unat th < 64"
    and "insert (tt_addr c th) (thread_window (unat th)) \<subseteq> window" and "wf_arch st" and "wf_arch st0"
  shows "\<exists>s1 s2. registerAndPushState be c th pid st s = Some (0, s1) \<and>
    transplantBack be c junk th st0 s1 = Some (0, st, s2) \<and> regs s2 (tt_addr c th) = 0"
proof -
  obtain s1 where s1: "registerAndPushState be c th pid st s = Some (0, s1)" "usable s1"
    "map (reg_value (regs s1) (transplant_base_offset c th)) [0..<ARMFLEX_TOT_REGS] = arch_to_regs st"
    using registerAndPushState_regs [OF assms(1-5)] by metis
  obtain s2 where "transplantBack be c junk th st0 s1 = Some (0, arch_of_regs (arch_to_regs st), s2)"
    "regs s2 (tt_addr c th) = 0"
    using transplantBack_regs [OF s1(2) assms(2-4) assms(6), of junk] s1(3) by auto
  with s1(1) assms(5) show ?thesis by auto
qed

end


section \<open>The card as a register file\<close>

interpretation bar: axil_registers "aws_backend register_bar" c "\<lambda>_. True" "\<lambda>w. w" UNIV
  for c :: FPGAContext_aws
  by unfold_locales (simp_all add: aws_backend_def quiet_sdk_def register_bar_def readAXIL_aws_def writeAXIL_aws_def)

section \<open>Properties\<close>

text \<open>
  C16. With the memory map both builds set up, register \<open>r\<close> of thread \<open>th < 64\<close> occupies the
  eight bytes at \<open>512 * th + 8 * r\<close>, low word first: inside the 512-byte window of its
  thread, and below the thread table at \<open>0x8000\<close>. No address computation wraps.
\<close>

theorem transplant_window:
  assumes "base_address c = standard_base d b" and "unat th < 64" and "r < ARMFLEX_TOT_REGS"
  shows "unat (reg_addr_lo (transplant_base_offset c th) r) = 512 * unat th + 8 * r \<and>
    unat (reg_addr_hi (transplant_base_offset c th) r) = 512 * unat th + 8 * r + 4 \<and>
    512 * unat th + 8 * r + 8 \<le> 512 * (unat th + 1) \<and>
    512 * unat th + 8 * r + 8 \<le> unat (axil_base (base_address c) + tt (base_address c))"
  using reg_addrs_standard [OF assms] assms
  by (simp add: ARMFLEX_TOT_REGS_def standard_base_def)

theorem transplant_window_witness:
  "unat (reg_addr_lo (transplant_base_offset example_context 3) 34) = 512 * 3 + 8 * 34 \<and>
   unat (reg_addr_hi (transplant_base_offset example_context 3) 34) = 512 * 3 + 8 * 34 + 4 \<and>
   512 * 3 + 8 * 34 + 8 \<le> 512 * (3 + 1 :: nat) \<and>
   512 * 3 + 8 * 34 + 8 \<le>
     unat (axil_base (base_address example_context) + tt (base_address example_context))"
  using transplant_window [where c = example_context and th = 3 and r = 34 and
      d = "dram_size example_context" and b = unset_base]
  by (simp add: example_context_def ARMFLEX_TOT_REGS_def)

text \<open>
  C15. On a card whose BAR reads back what was written to it (the documented behaviour of
  \<open>fpga_pci_poke\<close> and \<open>fpga_pci_peek\<close> on registers; \<open>regs\<close> is the content of the BAR),
  a thread pushed with \<open>registerAndPushState\<close> and fetched with \<open>transplantBack\<close> comes back
  with the architectural state that was pushed, whatever the destination held before, and its
  entry of the thread table is cleared.
\<close>

theorem transplant_roundtrip_aws:
  fixes sdk :: "'w aws_sdk" and regs :: "'w \<Rightarrow> u32 \<Rightarrow> u32"
  assumes poke: "\<And>a v w. \<exists>w'. fpga_pci_poke sdk (axil c) a v w = (0, w') \<and> regs w' = (regs w)(a := v)"
    and peek: "\<And>a x w. \<exists>w'. fpga_pci_peek sdk (axil c) a x w = (0, regs w a, w') \<and> regs w' = regs w"
    and "base_address c = standard_base d b" and "unat th < 64" and "wf_arch st" and "wf_arch st0"
  shows "\<exists>w1 w2. registerAndPushState (aws_backend sdk) c th pid st w = Some (0, w1) \<and>
    transplantBack (aws_backend sdk) c junk th st0 w1 = Some (0, st, w2) \<and>
    regs w2 (tt_addr c th) = 0"
proof -
  have "axil_registers (aws_backend sdk) c (\<lambda>_. True) regs UNIV"
    by unfold_locales
      (use poke peek in \<open>auto simp: aws_backend_def readAXIL_aws_def writeAXIL_aws_def\<close>)
  from axil_registers.transplant_roundtrip [OF this, where s = w and th = th and st = st] assms(3-6)
  show ?thesis by simp
qed

theorem transplant_roundtrip_aws_witness:
  "\<exists>w1 w2. registerAndPushState (aws_backend register_bar) example_context 3 64
       \<lparr>xregs = replicate 32 7, pc = 0x40000000, sp = 0, nzcv = 0\<rparr> (\<lambda>_. 0) = Some (0, w1) \<and>
    transplantBack (aws_backend register_bar) example_context 0 3
       \<lparr>xregs = replicate 32 0, pc = 0, sp = 0, nzcv = 0\<rparr> w1 =
      Some (0, \<lparr>xregs = replicate 32 7, pc = 0x40000000, sp = 0, nzcv = 0\<rparr>, w2) \<and>
    w2 (tt_addr example_context 3) = 0"
  by (rule transplant_roundtrip_aws [where regs = "\<lambda>w. w" and d = "0x400000000" and b = unset_base])
    (simp_all add: quiet_sdk_def register_bar_def example_context_def wf_arch_def)

end
