(* ===== verification/Dut.thy ===== *)
theory Dut
  imports Prelude
begin

text \<open>
  \<open>server/dut.hh\<close> and \<open>server/dut.cc\<close>: the design under test. \<open>VARMFlexTop\<close> is the
  class Verilator generates from the RTL; it is not part of the repository, so the model
  keeps what the code uses of it: its ports (a record) and its member function \<open>eval\<close>,
  a parameter \<open>ev\<close> of every definition that calls it, over an arbitrary internal state
  \<open>rtl\<close>. Port widths are those of the C++ members Verilator declares for the port widths
  of \<open>ARMFlexTop.scala\<close> (\<open>S_AXI\<close> has a 7-bit address, \<open>S_AXIL\<close> a 32-bit one).
\<close>

section \<open>The Verilated model\<close>

record s_axil_ports =
  S_AXIL_aw_awaddr :: u32
  S_AXIL_aw_awprot :: u8
  S_AXIL_aw_awvalid :: bool
  S_AXIL_w_wdata :: u32
  S_AXIL_w_wstrb :: u8
  S_AXIL_w_wvalid :: bool
  S_AXIL_b_bready :: bool
  S_AXIL_ar_araddr :: u32
  S_AXIL_ar_arprot :: u8
  S_AXIL_ar_arvalid :: bool
  S_AXIL_r_rready :: bool
  S_AXIL_aw_awready :: bool
  S_AXIL_w_wready :: bool
  S_AXIL_b_bvalid :: bool
  S_AXIL_ar_arready :: bool
  S_AXIL_r_rvalid :: bool
  S_AXIL_r_rdata :: u32

record s_axi_ports = s_axil_ports +
  S_AXI_aw_awaddr :: u8
  S_AXI_aw_awsize :: u8
  S_AXI_aw_awburst :: u8
  S_AXI_aw_awlen :: u8
  S_AXI_aw_awvalid :: bool
  S_AXI_w_wdata :: "u32 list"
  S_AXI_w_wlast :: bool
  S_AXI_w_wstrb :: u64
  S_AXI_w_wvalid :: bool
  S_AXI_b_bready :: bool
  S_AXI_ar_araddr :: u8
  S_AXI_ar_arlen :: u8
  S_AXI_ar_arburst :: u8
  S_AXI_ar_arsize :: u8
  S_AXI_ar_arvalid :: bool
  S_AXI_r_rready :: bool
  S_AXI_aw_awready :: bool
  S_AXI_w_wready :: bool
  S_AXI_b_bvalid :: bool
  S_AXI_ar_arready :: bool
  S_AXI_r_rvalid :: bool
  S_AXI_r_rdata :: "u32 list"
  S_AXI_r_rlast :: bool

record m_axi_ports = s_axi_ports +
  M_AXI_ar_arready :: bool
  M_AXI_r_rid :: u8
  M_AXI_r_rresp :: u8
  M_AXI_r_rdata :: "u32 list"
  M_AXI_r_rlast :: bool
  M_AXI_r_rvalid :: bool
  M_AXI_aw_awready :: bool
  M_AXI_w_wready :: bool
  M_AXI_b_bvalid :: bool
  M_AXI_b_bid :: u8
  M_AXI_b_bresp :: u8
  M_AXI_ar_arvalid :: bool
  M_AXI_ar_araddr :: u64
  M_AXI_ar_arsize :: u8
  M_AXI_ar_arid :: u8
  M_AXI_ar_arlen :: u8
  M_AXI_r_rready :: bool
  M_AXI_aw_awvalid :: bool
  M_AXI_aw_awaddr :: u64
  M_AXI_aw_awid :: u8
  M_AXI_aw_awlen :: u8
  M_AXI_w_wvalid :: bool
  M_AXI_w_wdata :: "u32 list"
  M_AXI_b_bready :: bool

record 'i VARMFlexTop = m_axi_ports +
  clock :: bool
  reset :: bool
  rtl :: 'i

section \<open>TopDUT\<close>

text \<open>
  \<open>dram\<close> is the array of \<open>dram_size / 4\<close> words. An access outside the array is undefined
  in C++; the model lets it go to the word of that index and records it in \<open>dram_oob\<close>,
  which no code reads. \<open>n_subroutines\<close> is \<open>subroutines.size()\<close>.
\<close>

record 'i TopDUT =
  td_dut :: "'i VARMFlexTop"
  dram :: "nat \<Rightarrow> u32"
  td_dram_size :: u64
  dram_addr_mask :: u64
  axi_base_addr :: u64
  ready_thread :: nat
  decoupled_count :: nat
  n_subroutines :: nat
  terminating :: bool
  error_occurred :: bool
  td_time :: nat
  dram_oob :: bool

definition BLOCK_SIZE :: nat where
  "BLOCK_SIZE = 512"

definition WORD_SIZE :: nat where
  "WORD_SIZE = 32"

definition WORDS_PER_BLOCK :: nat where
  "WORDS_PER_BLOCK = BLOCK_SIZE div WORD_SIZE"

definition BYTES_PER_BLOCK :: nat where
  "BYTES_PER_BLOCK = BLOCK_SIZE div 8"

definition BYTE_TO_WORD :: "u64 \<Rightarrow> u64" where
  "BYTE_TO_WORD a = drop_bit 2 a"

subsection \<open>The constructor\<close>

lemma unat_drop_bit_1: "unat (drop_bit 1 (d :: u64)) = unat d div 2"
  by (subst unat_drop_bit_eq) (simp add: drop_bit_eq_div)

text \<open>\<open>for (p = 1; d > 0; d >>= 1, p <<= 1);\<close>\<close>

function power2_loop :: "u64 \<Rightarrow> u64 \<Rightarrow> u64" where
  "power2_loop d p = (if d > 0 then power2_loop (drop_bit 1 d) (push_bit 1 p) else p)"
  by pat_completeness auto
termination
proof (relation "measure (\<lambda>(d, p). unat d)")
  fix d p :: u64
  assume "d > 0"
  then have "0 < unat d" by (simp add: word_less_nat_alt)
  then show "((drop_bit 1 d, push_bit 1 p), d, p) \<in> measure (\<lambda>(d, p). unat d)"
    by (simp only: in_measure prod.case unat_drop_bit_1)
qed simp

declare power2_loop.simps [simp del]

text \<open>\<open>d0\<close> is the new Verilated model, \<open>mem0\<close> the uninitialised array.\<close>

definition TopDUT_new :: "'i VARMFlexTop \<Rightarrow> (nat \<Rightarrow> u32) \<Rightarrow> u64 \<Rightarrow> 'i TopDUT" where
  "TopDUT_new d0 mem0 dsize =
     \<lparr>td_dut = d0, dram = mem0, td_dram_size = dsize,
      dram_addr_mask = power2_loop dsize 1 - 1, axi_base_addr = dsize,
      ready_thread = 0, decoupled_count = 0, n_subroutines = 0,
      terminating = False, error_occurred = False, td_time = 0, dram_oob = False\<rparr>"

definition isAXIDRAM :: "'i TopDUT \<Rightarrow> u64 \<Rightarrow> bool" where
  "isAXIDRAM t a = (a < td_dram_size t)"

subsection \<open>Ports, eval, reset and the clock edge\<close>

definition set_ports :: "('i VARMFlexTop \<Rightarrow> 'i VARMFlexTop) \<Rightarrow> 'i TopDUT \<Rightarrow> 'i TopDUT" where
  "set_ports f t = t\<lparr>td_dut := f (td_dut t)\<rparr>"

definition dump :: "'i TopDUT \<Rightarrow> 'i TopDUT" where
  "dump t = t\<lparr>td_time := td_time t + 1\<rparr>"

definition TopDUT_reset :: "('i VARMFlexTop \<Rightarrow> 'i VARMFlexTop) \<Rightarrow> 'i TopDUT \<Rightarrow> 'i TopDUT" where
  "TopDUT_reset ev t =
     (let t1 = dump (set_ports ev (set_ports (\<lambda>d. d\<lparr>reset := True\<rparr>) t));
          t2 = dump (set_ports ev (set_ports (\<lambda>d. d\<lparr>clock := True\<rparr>) t1))
      in set_ports ev (set_ports (\<lambda>d. d\<lparr>clock := False, reset := False\<rparr>) t2))"

definition reportError :: "'i TopDUT \<Rightarrow> 'i TopDUT" where
  "reportError t = t\<lparr>error_occurred := True\<rparr>"

text \<open>The first half of \<open>tick\<close>: the clock edge, up to waking the subroutines.\<close>

definition tick_edge :: "('i VARMFlexTop \<Rightarrow> 'i VARMFlexTop) \<Rightarrow> 'i TopDUT \<Rightarrow> 'i TopDUT" where
  "tick_edge ev t =
     (let t1 = dump (set_ports ev t);
          t2 = dump (set_ports ev (set_ports (\<lambda>d. d\<lparr>clock := True\<rparr>) t1));
          t3 = set_ports ev (set_ports (\<lambda>d. d\<lparr>clock := False\<rparr>) t2)
      in t3\<lparr>ready_thread := 0\<rparr>)"

text \<open>The predicate \<open>tick\<close> waits for.\<close>

definition tick_done :: "'i TopDUT \<Rightarrow> bool" where
  "tick_done t \<longleftrightarrow> int (ready_thread t) = int (n_subroutines t) - int (decoupled_count t)"

subsection \<open>The DRAM array\<close>

definition dram_in_bounds :: "'i TopDUT \<Rightarrow> nat \<Rightarrow> nat \<Rightarrow> bool" where
  "dram_in_bounds t first n \<longleftrightarrow> first + n \<le> unat (td_dram_size t) div 4"

definition dram_touch :: "nat \<Rightarrow> nat \<Rightarrow> 'i TopDUT \<Rightarrow> 'i TopDUT" where
  "dram_touch first n t = t\<lparr>dram_oob := dram_oob t \<or> \<not> dram_in_bounds t first n\<rparr>"

definition dram_store :: "nat \<Rightarrow> u32 list \<Rightarrow> 'i TopDUT \<Rightarrow> 'i TopDUT" where
  "dram_store first ws t =
     dram_touch first (length ws) (t\<lparr>dram := mem_write (dram t) first ws\<rparr>)"

section \<open>Facts about the constructor's address mask\<close>

lemma power2_loop_shift:
  "\<exists>n. power2_loop d p = push_bit n p \<and> unat d < 2 ^ n"
proof (induction d p rule: power2_loop.induct)
  case (1 d p)
  show ?case
  proof (cases "d > 0")
    case False
    then have "d = 0" by (simp add: word_gt_0)
    then show ?thesis by (subst power2_loop.simps) (auto intro: exI [of _ 0])
  next
    case True
    with 1 obtain n where n: "power2_loop (drop_bit 1 d) (push_bit 1 p) = push_bit n (push_bit 1 p)"
      "unat (drop_bit 1 d) < 2 ^ n" by blast
    then have "unat d < 2 ^ Suc n"
      by (simp only: unat_drop_bit_1) simp
    with True n(1) show ?thesis
      by (subst power2_loop.simps) (auto intro!: exI [of _ "Suc n"] simp: push_bit_push_bit)
  qed
qed

lemma dram_mask_covers:
  assumes "a < d"
  shows "a AND (power2_loop d 1 - 1) = a"
proof -
  obtain n where n: "power2_loop d 1 = push_bit n 1" "unat d < 2 ^ n"
    using power2_loop_shift by blast
  have "power2_loop d 1 - 1 = mask n"
    by (simp add: n(1) mask_eq_exp_minus_1 push_bit_of_1)
  moreover have "take_bit n a = a"
  proof (rule bit_word_eqI)
    fix i assume "i < LENGTH(64)"
    have "unat a < 2 ^ n"
      using assms n(2) by (simp add: word_less_nat_alt)
    then have "take_bit n (unat a) = unat a"
      by (simp add: take_bit_nat_eq_self)
    then have "bit (unat a) i \<longleftrightarrow> i < n \<and> bit (unat a) i"
      by (metis bit_take_bit_iff)
    then show "bit (take_bit n a) i = bit a i"
      by (auto simp: bit_simps)
  qed
  ultimately show ?thesis by (simp add: take_bit_eq_mask)
qed

text \<open>
  C21. The mask the constructor computes keeps every address \<open>isAXIDRAM\<close> accepts, whatever
  the size of the DRAM (a power of two or not), so the host's accesses are not redirected.
\<close>

theorem dram_mask_keeps_addresses:
  assumes "isAXIDRAM (TopDUT_new d0 mem0 dsize) a"
  shows "a AND dram_addr_mask (TopDUT_new d0 mem0 dsize) = a"
  using assms dram_mask_covers [of a dsize] by (simp add: isAXIDRAM_def TopDUT_new_def)

section \<open>Frame facts\<close>

lemma set_ports_sel [simp, dut_simps]:
  "td_dut (set_ports f t) = f (td_dut t)"
  "dram (set_ports f t) = dram t" "td_dram_size (set_ports f t) = td_dram_size t"
  "dram_addr_mask (set_ports f t) = dram_addr_mask t"
  "axi_base_addr (set_ports f t) = axi_base_addr t"
  "ready_thread (set_ports f t) = ready_thread t"
  "decoupled_count (set_ports f t) = decoupled_count t"
  "n_subroutines (set_ports f t) = n_subroutines t"
  "terminating (set_ports f t) = terminating t"
  "error_occurred (set_ports f t) = error_occurred t"
  "td_time (set_ports f t) = td_time t" "dram_oob (set_ports f t) = dram_oob t"
  by (simp_all add: set_ports_def)

lemma dram_store_sel [simp, dut_simps]:
  "td_dut (dram_store i ws t) = td_dut t"
  "dram (dram_store i ws t) = mem_write (dram t) i ws"
  "td_dram_size (dram_store i ws t) = td_dram_size t"
  "dram_addr_mask (dram_store i ws t) = dram_addr_mask t"
  "axi_base_addr (dram_store i ws t) = axi_base_addr t"
  "ready_thread (dram_store i ws t) = ready_thread t"
  "decoupled_count (dram_store i ws t) = decoupled_count t"
  "n_subroutines (dram_store i ws t) = n_subroutines t"
  "terminating (dram_store i ws t) = terminating t"
  "error_occurred (dram_store i ws t) = error_occurred t"
  "td_time (dram_store i ws t) = td_time t"
  "dram_oob (dram_store i ws t) = (dram_oob t \<or> \<not> dram_in_bounds t i (length ws))"
  by (simp_all add: dram_store_def dram_touch_def dram_in_bounds_def)

lemma dram_touch_sel [simp, dut_simps]:
  "td_dut (dram_touch i n t) = td_dut t" "dram (dram_touch i n t) = dram t"
  "td_dram_size (dram_touch i n t) = td_dram_size t"
  "dram_addr_mask (dram_touch i n t) = dram_addr_mask t"
  "axi_base_addr (dram_touch i n t) = axi_base_addr t"
  "ready_thread (dram_touch i n t) = ready_thread t"
  "decoupled_count (dram_touch i n t) = decoupled_count t"
  "n_subroutines (dram_touch i n t) = n_subroutines t"
  "terminating (dram_touch i n t) = terminating t"
  "error_occurred (dram_touch i n t) = error_occurred t"
  "td_time (dram_touch i n t) = td_time t"
  "dram_oob (dram_touch i n t) = (dram_oob t \<or> \<not> dram_in_bounds t i n)"
  by (simp_all add: dram_touch_def dram_in_bounds_def)

lemma reportError_sel [simp, dut_simps]:
  "td_dut (reportError t) = td_dut t" "dram (reportError t) = dram t"
  "td_dram_size (reportError t) = td_dram_size t"
  "dram_addr_mask (reportError t) = dram_addr_mask t"
  "axi_base_addr (reportError t) = axi_base_addr t"
  "ready_thread (reportError t) = ready_thread t"
  "decoupled_count (reportError t) = decoupled_count t"
  "n_subroutines (reportError t) = n_subroutines t"
  "terminating (reportError t) = terminating t"
  "error_occurred (reportError t) = True"
  "td_time (reportError t) = td_time t" "dram_oob (reportError t) = dram_oob t"
  by (simp_all add: reportError_def)

section \<open>An idle design\<close>

text \<open>Every port low; instances start from here.\<close>

definition idle_dut :: "'i \<Rightarrow> 'i VARMFlexTop" where
  "idle_dut i =
    \<lparr>S_AXIL_aw_awaddr = 0, S_AXIL_aw_awprot = 0, S_AXIL_aw_awvalid = False,
     S_AXIL_w_wdata = 0, S_AXIL_w_wstrb = 0, S_AXIL_w_wvalid = False, S_AXIL_b_bready = False,
     S_AXIL_ar_araddr = 0, S_AXIL_ar_arprot = 0, S_AXIL_ar_arvalid = False,
     S_AXIL_r_rready = False, S_AXIL_aw_awready = False, S_AXIL_w_wready = False,
     S_AXIL_b_bvalid = False, S_AXIL_ar_arready = False, S_AXIL_r_rvalid = False,
     S_AXIL_r_rdata = 0, S_AXI_aw_awaddr = 0, S_AXI_aw_awsize = 0, S_AXI_aw_awburst = 0,
     S_AXI_aw_awlen = 0, S_AXI_aw_awvalid = False, S_AXI_w_wdata = replicate 16 0,
     S_AXI_w_wlast = False, S_AXI_w_wstrb = 0, S_AXI_w_wvalid = False, S_AXI_b_bready = False,
     S_AXI_ar_araddr = 0, S_AXI_ar_arlen = 0, S_AXI_ar_arburst = 0, S_AXI_ar_arsize = 0,
     S_AXI_ar_arvalid = False, S_AXI_r_rready = False, S_AXI_aw_awready = False,
     S_AXI_w_wready = False, S_AXI_b_bvalid = False, S_AXI_ar_arready = False,
     S_AXI_r_rvalid = False, S_AXI_r_rdata = replicate 16 0, S_AXI_r_rlast = False,
     M_AXI_ar_arready = False, M_AXI_r_rid = 0, M_AXI_r_rresp = 0,
     M_AXI_r_rdata = replicate 16 0, M_AXI_r_rlast = False, M_AXI_r_rvalid = False,
     M_AXI_aw_awready = False, M_AXI_w_wready = False, M_AXI_b_bvalid = False, M_AXI_b_bid = 0,
     M_AXI_b_bresp = 0, M_AXI_ar_arvalid = False, M_AXI_ar_araddr = 0, M_AXI_ar_arsize = 0,
     M_AXI_ar_arid = 0, M_AXI_ar_arlen = 0, M_AXI_r_rready = False, M_AXI_aw_awvalid = False,
     M_AXI_aw_awaddr = 0, M_AXI_aw_awid = 0, M_AXI_aw_awlen = 0, M_AXI_w_wvalid = False,
     M_AXI_w_wdata = replicate 16 0, M_AXI_b_bready = False, clock = False, reset = False,
     rtl = i\<rparr>"

lemma TopDUT_new_sel [simp]:
  "td_dut (TopDUT_new d m n) = d" "dram (TopDUT_new d m n) = m" "td_dram_size (TopDUT_new d m n) = n"
  "axi_base_addr (TopDUT_new d m n) = n" "ready_thread (TopDUT_new d m n) = 0"
  "dram_addr_mask (TopDUT_new d m n) = power2_loop n 1 - 1"
  "decoupled_count (TopDUT_new d m n) = 0" "n_subroutines (TopDUT_new d m n) = 0"
  "terminating (TopDUT_new d m n) = False" "error_occurred (TopDUT_new d m n) = False"
  "td_time (TopDUT_new d m n) = 0" "dram_oob (TopDUT_new d m n) = False"
  by (simp_all add: TopDUT_new_def)

theorem dram_mask_keeps_addresses_witness:
  "0x2FFFFF AND dram_addr_mask (TopDUT_new (idle_dut ()) (\<lambda>_. 0) 0x300000) = 0x2FFFFF"
  by (rule dram_mask_keeps_addresses) (simp add: isAXIDRAM_def TopDUT_new_def)

end
