(* ===== verification/Server_IPC.thy ===== *)
theory Server_IPC
  imports Kernel Wire
begin

text \<open>
  \<open>server/ipc.cc\<close>: the \<open>IPCServer\<close> object of the simulator. A request is read into a
  structure on the caller's stack; that memory is explicit here (\<open>nat \<Rightarrow> u8\<close>, offset 0 is
  the start of the structure), because the code computes the address of a later fragment as
  \<open>&msg[curr_byte]\<close> with \<open>msg\<close> a pointer to the structure, that is, at byte
  \<open>curr_byte * sizeof( *msg)\<close>: only a request that arrives in one piece stays inside it.
\<close>

record IPCServer =
  ipc_name :: string
  socket_fd :: int
  client_fd :: int
  ipc_error :: bool

section \<open>Constructor, destructor, accepting the client\<close>

text \<open>
  \<open>this0\<close> is the storage the object is built in: the early returns leave \<open>client_fd\<close>
  as it was.
\<close>

definition IPCServer_new :: "'w kernel \<Rightarrow> IPCServer \<Rightarrow> string \<Rightarrow> 'w \<Rightarrow> IPCServer \<times> 'w" where
  "IPCServer_new k this0 name w =
     (let this1 = this0\<lparr>ipc_name := name, ipc_error := False\<rparr>;
          (fd, w1) = k_socket k w;
          this2 = this1\<lparr>socket_fd := fd\<rparr> in
      if fd < 0 then (this2\<lparr>ipc_error := True\<rparr>, w1)
      else let (res, w2) = k_bind k fd name w1 in
        if res < 0 then (this2\<lparr>ipc_error := True\<rparr>, w2)
        else let (res, w3) = k_listen k fd 1 w2 in
          if res < 0 then (this2\<lparr>ipc_error := True\<rparr>, w3)
          else (this2\<lparr>client_fd := -1\<rparr>, w3))"

definition IPCServer_delete :: "'w kernel \<Rightarrow> IPCServer \<Rightarrow> 'w \<Rightarrow> 'w" where
  "IPCServer_delete k this w =
     (let w1 = (if socket_fd this > 0 then snd (k_close k (socket_fd this) w) else w)
      in if client_fd this > 0 then snd (k_close k (client_fd this) w1) else w1)"

definition waitForClient :: "'w kernel \<Rightarrow> IPCServer \<Rightarrow> 'w \<Rightarrow> bool \<times> IPCServer \<times> 'w" where
  "waitForClient k this w =
     (if ipc_error this then (False, this, w)
      else let (fd, w1) = k_accept k (socket_fd this) w; this1 = this\<lparr>client_fd := fd\<rparr> in
        if fd < 0 then (False, this1\<lparr>ipc_error := True\<rparr>, w1) else (True, this1, w1))"

definition hasPendingError :: "IPCServer \<Rightarrow> bool" where
  "hasPendingError this = ipc_error this"

section \<open>Reading a request\<close>

text \<open>
  The loop of \<open>getRequestAXIL\<close> and \<open>getRequestAXI\<close>, which differ in \<open>sz = sizeof( *msg)\<close>
  only. It ends: an iteration that goes on has received at least one byte.
\<close>

function getRequest_loop ::
  "'w kernel \<Rightarrow> nat \<Rightarrow> IPCServer \<Rightarrow> (nat \<Rightarrow> u8) \<Rightarrow> int \<Rightarrow> int \<Rightarrow> 'w \<Rightarrow>
   bool \<times> IPCServer \<times> (nat \<Rightarrow> u8) \<times> 'w" where
  "getRequest_loop k sz this msg missing_bytes curr_byte w =
     (if missing_bytes > 0 then
        if ipc_error this then (False, this, msg, w)
        else case k_recv k (client_fd this) (nat missing_bytes) w of
          (RecvError EAGAIN, w1) \<Rightarrow> (False, this, msg, w1)
        | (RecvError e, w1) \<Rightarrow> (False, this\<lparr>ipc_error := True\<rparr>, msg, w1)
        | (Received bs, w1) \<Rightarrow>
            if bs = [] then (False, this\<lparr>ipc_error := True\<rparr>, msg, w1)
            else getRequest_loop k sz this (mem_write msg (nat curr_byte * sz) bs)
                   (missing_bytes - int (length bs)) (curr_byte + int (length bs)) w1
      else (True, this, msg, w))"
  by pat_completeness auto
termination
  by (relation "measure (\<lambda>(k, sz, this, msg, missing_bytes, curr_byte, w). nat missing_bytes)") auto

declare getRequest_loop.simps [simp del]

definition getRequestAXIL ::
  "'w kernel \<Rightarrow> IPCServer \<Rightarrow> (nat \<Rightarrow> u8) \<Rightarrow> 'w \<Rightarrow> bool \<times> IPCServer \<times> (nat \<Rightarrow> u8) \<times> 'w" where
  "getRequestAXIL k this msg w =
     getRequest_loop k sizeof_MemoryRequestAXIL this msg (int sizeof_MemoryRequestAXIL) 0 w"

definition getRequestAXI ::
  "'w kernel \<Rightarrow> IPCServer \<Rightarrow> (nat \<Rightarrow> u8) \<Rightarrow> 'w \<Rightarrow> bool \<times> IPCServer \<times> (nat \<Rightarrow> u8) \<times> 'w" where
  "getRequestAXI k this msg w =
     getRequest_loop k sizeof_MemoryRequest this msg (int sizeof_MemoryRequest) 0 w"

section \<open>Replying\<close>

partial_function (option) reply_loop ::
  "'w kernel \<Rightarrow> IPCServer \<Rightarrow> u8 list \<Rightarrow> int \<Rightarrow> int \<Rightarrow> 'w \<Rightarrow> (bool \<times> IPCServer \<times> 'w) option" where
  "reply_loop k this buff missing_bytes curr_byte w =
     (if missing_bytes > 0 then
        if ipc_error this then Some (False, this, w)
        else case k_send k (client_fd this) (take (nat missing_bytes) (drop (nat curr_byte) buff)) w of
          (sent_number, w1) \<Rightarrow>
            (case sent_number of
               SendError e \<Rightarrow>
                 (case e of EPIPE \<Rightarrow> Some (False, this\<lparr>ipc_error := True\<rparr>, w1)
                  | EAGAIN \<Rightarrow> Some (False, this, w1)
                  | EOTHER \<Rightarrow> Some (False, this, w1))
             | Sent n \<Rightarrow>
                 if n > 0
                 then reply_loop k this buff (missing_bytes - int n) (curr_byte + int n) w1
                 else reply_loop k this buff missing_bytes curr_byte w1)
      else Some (True, this, w))"

definition reply ::
  "'w kernel \<Rightarrow> IPCServer \<Rightarrow> u32 list \<Rightarrow> nat \<Rightarrow> 'w \<Rightarrow> (bool \<times> IPCServer \<times> 'w) option" where
  "reply k this data word_count w =
     reply_loop k this (bytes_of_words data) (int word_count * 4) 0 w"

section \<open>A request in one piece\<close>

lemma getRequest_whole [io_simps]:
  assumes "\<not> ipc_error this" and "0 < sz"
    and "k_recv k (client_fd this) sz w = (Received bs, w')" and "length bs = sz"
  shows "getRequest_loop k sz this msg (int sz) 0 w = (True, this, mem_write msg 0 bs, w')"
  using assms by (subst getRequest_loop.simps, subst getRequest_loop.simps) auto

lemma getRequest_again [io_simps]:
  assumes "\<not> ipc_error this" and "0 < sz"
    and "k_recv k (client_fd this) sz w = (RecvError EAGAIN, w')"
  shows "getRequest_loop k sz this msg (int sz) 0 w = (False, this, msg, w')"
  using assms by (subst getRequest_loop.simps) auto

lemma getRequest_error_sticky:
  "ipc_error this \<Longrightarrow> 0 < m \<Longrightarrow> getRequest_loop k sz this msg m c w = (False, this, msg, w)"
  by (subst getRequest_loop.simps) simp

text \<open>What the loop can change of the object: the error flag, from false to true.\<close>

lemma getRequest_loop_frame:
  assumes "getRequest_loop k sz this msg m c w = (ok, this', msg', w')"
  shows "this' = this \<or> (this' = this\<lparr>ipc_error := True\<rparr> \<and> \<not> ok)"
  using assms
proof (induction k sz this msg m c w rule: getRequest_loop.induct)
  case (1 k sz this msg m c w)
  show ?case
  proof (cases "0 < m \<and> \<not> ipc_error this")
    case False
    with 1(2) show ?thesis by (subst (asm) getRequest_loop.simps) (auto split: if_splits)
  next
    case True
    obtain r w1 where rcv: "k_recv k (client_fd this) (nat m) w = (r, w1)" by fastforce
    show ?thesis
    proof (cases "\<exists>bs. r = Received bs \<and> bs \<noteq> []")
      case True
      then obtain bs where r: "r = Received bs" "bs \<noteq> []" by blast
      with \<open>0 < m \<and> \<not> ipc_error this\<close> rcv 1(2)
      have "getRequest_loop k sz this (mem_write msg (nat c * sz) bs) (m - int (length bs))
          (c + int (length bs)) w1 = (ok, this', msg', w')"
        by (subst (asm) getRequest_loop.simps) simp
      with 1(1) [OF _ _ rcv [symmetric] r] \<open>0 < m \<and> \<not> ipc_error this\<close> show ?thesis
        by simp
    next
      case False
      with \<open>0 < m \<and> \<not> ipc_error this\<close> rcv 1(2) show ?thesis
        by (subst (asm) getRequest_loop.simps)
          (auto split: recv_result.splits errno.splits)
    qed
  qed
qed

section \<open>A request in pieces\<close>

text \<open>
  Two fragments: the first lands at the start of the structure, the second
  \<open>sz\<close> bytes further for every byte of the first.
\<close>

lemma getRequest_two_fragments:
  assumes "\<not> ipc_error this" and "bs1 \<noteq> []" and "bs2 \<noteq> []" and "length bs1 + length bs2 = sz"
    and "k_recv k (client_fd this) sz w = (Received bs1, w1)"
    and "k_recv k (client_fd this) (sz - length bs1) w1 = (Received bs2, w2)"
  shows "getRequest_loop k sz this msg (int sz) 0 w =
    (True, this, mem_write (mem_write msg 0 bs1) (length bs1 * sz) bs2, w2)"
proof -
  have pos: "0 < sz" "length bs1 < sz"
    using assms(2-4) by (auto simp flip: length_greater_0_conv)
  have "nat (int sz - int (length bs1)) = sz - length bs1" by simp
  moreover have "int sz - int (length bs1) - int (length bs2) = 0"
    using assms(4) by simp
  ultimately show ?thesis
    using assms pos
    by (subst getRequest_loop.simps, subst getRequest_loop.simps, subst getRequest_loop.simps) simp
qed

lemma getRequest_fragment_then_again:
  assumes "\<not> ipc_error this" and "bs1 \<noteq> []" and "length bs1 < sz"
    and "k_recv k (client_fd this) sz w = (Received bs1, w1)"
    and "k_recv k (client_fd this) (sz - length bs1) w1 = (RecvError EAGAIN, w2)"
  shows "getRequest_loop k sz this msg (int sz) 0 w = (False, this, mem_write msg 0 bs1, w2)"
proof -
  have "nat (int sz - int (length bs1)) = sz - length bs1" by simp
  then show ?thesis
    using assms by (subst getRequest_loop.simps, subst getRequest_loop.simps) simp
qed

section \<open>What the loops take from and give to the sockets\<close>

context byte_source
begin

text \<open>A request that is reported read has consumed exactly the structure's size.\<close>

lemma getRequest_loop_consumes:
  assumes "getRequest_loop k' sz this msg m c w = (True, this', msg', w')"
    and "k' = k" and "client_fd this = fd" and "0 \<le> m"
  shows "\<exists>bs. length bs = nat m \<and> arriving w = bs @ arriving w'"
  using assms
proof (induction k' sz this msg m c w rule: getRequest_loop.induct)
  case (1 k' sz this msg m c w)
  show ?case
  proof (cases "0 < m")
    case False
    with 1(2,5) show ?thesis by (subst (asm) getRequest_loop.simps) simp
  next
    case True
    obtain r w1 where rcv: "k_recv k' (client_fd this) (nat m) w = (r, w1)" by fastforce
    from True rcv 1(2) obtain bs where no_err: "\<not> ipc_error this" and r: "r = Received bs" "bs \<noteq> []"
      and rest: "getRequest_loop k' sz this (mem_write msg (nat c * sz) bs) (m - int (length bs))
          (c + int (length bs)) w1 = (True, this', msg', w')"
      by (subst (asm) getRequest_loop.simps)
        (auto split: if_splits recv_result.splits errno.splits)
    from recv_delivers rcv r 1(3,4)
    have d: "length bs \<le> nat m" "arriving w = bs @ arriving w1" by blast+
    with 1(1) [OF True no_err rcv [symmetric] r rest 1(3,4)] True
    obtain cs where "length cs = nat (m - int (length bs))" "arriving w1 = cs @ arriving w'"
      using le_nat_iff by fastforce
    with d show ?thesis by (intro exI [of _ "bs @ cs"]) auto
  qed
qed

end

lemma reply_loop_induct [consumes 1, case_names finished flagged failed retry sent]:
  assumes "reply_loop k this buff m c w = Some (ok, this', w')"
    and finished: "\<And>m c w. m \<le> 0 \<Longrightarrow> P m c w True this w"
    and flagged: "\<And>m c w. 0 < m \<Longrightarrow> ipc_error this \<Longrightarrow> P m c w False this w"
    and failed: "\<And>m c w w1 e. 0 < m \<Longrightarrow>
      k_send k (client_fd this) (take (nat m) (drop (nat c) buff)) w = (SendError e, w1) \<Longrightarrow>
      P m c w False (if e = EPIPE then this\<lparr>ipc_error := True\<rparr> else this) w1"
    and retry: "\<And>m c w w1 ok this' w'. 0 < m \<Longrightarrow>
      k_send k (client_fd this) (take (nat m) (drop (nat c) buff)) w = (Sent 0, w1) \<Longrightarrow>
      P m c w1 ok this' w' \<Longrightarrow> P m c w ok this' w'"
    and sent: "\<And>m c w w1 n ok this' w'. 0 < m \<Longrightarrow> 0 < n \<Longrightarrow>
      k_send k (client_fd this) (take (nat m) (drop (nat c) buff)) w = (Sent n, w1) \<Longrightarrow>
      P (m - int n) (c + int n) w1 ok this' w' \<Longrightarrow> P m c w ok this' w'"
  shows "P m c w ok this' w'"
proof -
  have "k' = k \<longrightarrow> this0 = this \<longrightarrow> buff' = buff \<longrightarrow> P m c w (fst res) (fst (snd res)) (snd (snd res))"
    if "reply_loop k' this0 buff' m c w = Some res" for k' this0 buff' res
  proof (rule reply_loop.raw_induct [OF _ that])
    fix loop k' this0 buff' m c w res
    assume IH: "\<And>k' this0 buff' m c w res. loop k' this0 buff' m c w = Some res \<Longrightarrow>
        k' = k \<longrightarrow> this0 = this \<longrightarrow> buff' = buff \<longrightarrow> P m c w (fst res) (fst (snd res)) (snd (snd res))"
      and eq: "(if m > 0 then
        if ipc_error this0 then Some (False, this0, w)
        else case k_send k' (client_fd this0) (take (nat m) (drop (nat c) buff')) w of
          (sent_number, w1) \<Rightarrow>
            (case sent_number of
               SendError e \<Rightarrow>
                 (case e of EPIPE \<Rightarrow> Some (False, this0\<lparr>ipc_error := True\<rparr>, w1)
                  | EAGAIN \<Rightarrow> Some (False, this0, w1)
                  | EOTHER \<Rightarrow> Some (False, this0, w1))
             | Sent n \<Rightarrow>
                 if n > 0
                 then loop k' this0 buff' (m - int n) (c + int n) w1
                 else loop k' this0 buff' m c w1)
      else Some (True, this0, w)) = Some res"
    show "k' = k \<longrightarrow> this0 = this \<longrightarrow> buff' = buff \<longrightarrow> P m c w (fst res) (fst (snd res)) (snd (snd res))"
    proof (intro impI)
      assume eqs: "k' = k" "this0 = this" "buff' = buff"
      obtain r w1 where snd:
        "k_send k (client_fd this) (take (nat m) (drop (nat c) buff)) w = (r, w1)" by fastforce
      show "P m c w (fst res) (fst (snd res)) (snd (snd res))"
      proof (cases "0 < m \<and> \<not> ipc_error this")
        case False
        with eq eqs show ?thesis by (auto intro!: finished flagged split: if_splits)
      next
        case True
        then show ?thesis
          using eq eqs snd IH [of k this buff] failed [of m c w] retry [of m c w] sent [of m _ c w]
          by (cases r) (fastforce split: errno.splits if_splits)+
      qed
    qed
  qed
  from this [OF assms(1)] show ?thesis by simp
qed

context byte_sink
begin

text \<open>
  Whatever the outcome, the socket has taken a prefix of the reply; the whole of it when
  the result is true.
\<close>

lemma reply_loop_out:
  assumes "reply_loop k this buff m c w = Some (ok, this', w')"
    and "client_fd this = fd" and "0 \<le> m" and "0 \<le> c"
  shows "\<exists>n. n \<le> nat m \<and> out w' = out w @ take n (drop (nat c) buff) \<and> (ok \<longrightarrow> n = nat m)"
  using assms(1,3,4)
proof (induction rule: reply_loop_induct)
  case (finished m c w)
  then show ?case by simp
next
  case (flagged m c w)
  then show ?case by (intro exI [of _ 0]) simp
next
  case (failed m c w w1 e)
  then have "out w1 = out w" using send_fails assms(2) by blast
  then show ?case by (intro exI [of _ 0]) simp
next
  case (retry m c w w1 ok this' w')
  then have "out w1 = out w" using send_accepts [of _ w 0 w1] assms(2) by simp
  with retry show ?case by simp
next
  case (sent m c w w1 n ok this' w')
  let ?d = "drop (nat c) buff"
  from send_accepts sent(3) assms(2)
  have n: "n \<le> nat m" and o: "out w1 = out w @ take n ?d" by (fastforce simp: min_absorb1)+
  have "nat (c + int n) = n + nat c" "nat (m - int n) = nat m - n" "0 \<le> m - int n"
    using n sent.prems sent(1) by auto
  with sent.IH sent.prems obtain j where j: "j \<le> nat m - n"
      "out w' = out w1 @ take j (drop (n + nat c) buff)" "ok \<longrightarrow> j = nat m - n"
    by auto
  have "out w' = out w @ take (n + j) ?d"
    using j(2) o by (simp add: take_add)
  with j n show ?case by (intro exI [of _ "n + j"]) auto
qed

end

context live_sink
begin

lemma reply_loop_returns:
  assumes "client_fd this = fd" and "0 \<le> c" and "nat c + nat m \<le> length buff"
  shows "\<exists>res. reply_loop k this buff m c w = Some res"
  using assms(2,3)
proof (induction "(nat m, delay w)" arbitrary: m c w
    rule: wf_induct_rule [OF wf_lex_prod [OF wf_less_than wf_less_than]])
  case (1 m w c)
  show ?case
  proof (cases "0 < m \<and> \<not> ipc_error this")
    case False
    then show ?thesis by (subst reply_loop.simps) auto
  next
    case True
    let ?bs = "take (nat m) (drop (nat c) buff)"
    obtain r w1 where snd: "k_send k fd ?bs w = (r, w1)" by fastforce
    have "?bs \<noteq> []" using True 1(2,3) by (auto simp: not_le)
    then have live: "0 < ssize_of_send r \<or> delay w1 < delay w"
      using snd by (rule send_progress)
    show ?thesis
    proof (cases r)
      case (SendError e)
      with True snd assms(1) show ?thesis
        by (subst reply_loop.simps) (auto split: errno.split)
    next
      case (Sent n)
      from send_accepts [OF snd [unfolded Sent]] have n: "n \<le> nat m" by simp
      have "\<exists>res. reply_loop k this buff (m - int n) (c + int n) w1 = Some res"
        using 1(2,3) True n live Sent by (intro 1(1)) auto
      with True snd Sent assms(1) show ?thesis
        by (subst reply_loop.simps) auto
    qed
  qed
qed

end

end
