(* ===== verification/Simulation_State.thy ===== *)
theory Simulation_State
  imports Dut Server_IPC
begin

text \<open>
  The objects \<open>server/main.cc\<close> builds and its three subroutines share: the design, the two
  IPC servers and the operating system behind their sockets.
\<close>

record ('i, 'w) server =
  top :: "'i TopDUT"
  axil_ipc :: IPCServer
  axi_ipc :: IPCServer
  os :: 'w

definition on_top :: "('i TopDUT \<Rightarrow> 'i TopDUT) \<Rightarrow> ('i, 'w) server \<Rightarrow> ('i, 'w) server" where
  "on_top f s = s\<lparr>top := f (top s)\<rparr>"

text \<open>\<open>dut->port = ...; dut->eval()\<close>\<close>

definition drive ::
  "('i VARMFlexTop \<Rightarrow> 'i VARMFlexTop) \<Rightarrow> ('i VARMFlexTop \<Rightarrow> 'i VARMFlexTop) \<Rightarrow>
   ('i, 'w) server \<Rightarrow> ('i, 'w) server" where
  "drive ev f = on_top (\<lambda>t. set_ports ev (set_ports f t))"

definition ports :: "('i, 'w) server \<Rightarrow> 'i VARMFlexTop" where
  "ports s = td_dut (top s)"

lemma on_top_sel [simp, dut_simps]:
  "top (on_top f s) = f (top s)" "axil_ipc (on_top f s) = axil_ipc s"
  "axi_ipc (on_top f s) = axi_ipc s" "os (on_top f s) = os s"
  by (simp_all add: on_top_def)

lemma drive_sel [simp, dut_simps]:
  "top (drive ev f s) = set_ports ev (set_ports f (top s))"
  "axil_ipc (drive ev f s) = axil_ipc s" "axi_ipc (drive ev f s) = axi_ipc s"
  "os (drive ev f s) = os s"
  "ports (drive ev f s) = ev (f (ports s))"
  by (simp_all add: drive_def ports_def)

section \<open>What a subroutine may do to the shared objects\<close>

text \<open>
  \<open>dut_frame t t'\<close>: from \<open>t\<close> to \<open>t'\<close> only ports, the DRAM array and the error flag have
  changed, and a reported error has stayed reported. The fields of the clock barrier belong
  to \<open>tick\<close> and \<open>waitForTick\<close>, the geometry to the constructor.
\<close>

definition dut_frame :: "'i TopDUT \<Rightarrow> 'i TopDUT \<Rightarrow> bool" where
  "dut_frame t t' \<longleftrightarrow>
     td_dram_size t' = td_dram_size t \<and> dram_addr_mask t' = dram_addr_mask t \<and>
     axi_base_addr t' = axi_base_addr t \<and> ready_thread t' = ready_thread t \<and>
     decoupled_count t' = decoupled_count t \<and> n_subroutines t' = n_subroutines t \<and>
     terminating t' = terminating t \<and> td_time t' = td_time t \<and>
     (error_occurred t \<longrightarrow> error_occurred t') \<and> (dram_oob t \<longrightarrow> dram_oob t')"

lemma dut_frame_refl [simp]: "dut_frame t t"
  by (simp add: dut_frame_def)

lemma dut_frame_trans [trans]: "dut_frame t t' \<Longrightarrow> dut_frame t' t'' \<Longrightarrow> dut_frame t t''"
  by (auto simp: dut_frame_def)

lemma dut_frame_steps [simp, dut_simps]:
  "dut_frame t (set_ports f t') = dut_frame t t'"
  "dut_frame (set_ports f t) t' = dut_frame t t'"
  "dut_frame t t' \<Longrightarrow> dut_frame t (reportError t')"
  "dut_frame t t' \<Longrightarrow> dut_frame t (dram_store i ws t')"
  "dut_frame t t' \<Longrightarrow> dut_frame t (dram_touch i n t')"
  by (auto simp: dut_frame_def)

text \<open>
  The contract of a subroutine, given by its run from one \<open>TICK\<close> to the next: it keeps the
  frame, a failed label (on the way to \<open>wait_for_join\<close>, or there) is only reached with the
  error reported, and once failed it stays failed.
\<close>

locale subroutine =
  fixes resume :: "'l \<Rightarrow> ('i, 'w) server \<Rightarrow> ('l \<times> ('i, 'w) server) option"
    and failed :: "'l \<Rightarrow> bool"
  assumes resume_frame: "resume l s = Some (l', s') \<Longrightarrow> dut_frame (top s) (top s')"
    and failed_reported:
      "resume l s = Some (l', s') \<Longrightarrow> failed l' \<Longrightarrow> failed l \<or> error_occurred (top s')"
    and failed_stays: "resume l s = Some (l', s') \<Longrightarrow> failed l \<Longrightarrow> failed l'"

text \<open>Several runs, each after an environment step \<open>e\<close> (the clock edge, the other threads).\<close>

fun runs ::
  "('l \<Rightarrow> 's \<Rightarrow> ('l \<times> 's) option) \<Rightarrow> ('s \<Rightarrow> 's) list \<Rightarrow> 'l \<Rightarrow> 's \<Rightarrow> ('l \<times> 's) option" where
  "runs resume [] l s = Some (l, s)"
| "runs resume (e # es) l s =
     (case resume l (e s) of None \<Rightarrow> None | Some (l', s') \<Rightarrow> runs resume es l' s')"

context subroutine
begin

lemma failed_implies_error:
  assumes "resume l s = Some (l', s')" and "failed l \<longrightarrow> error_occurred (top s)" and "failed l'"
  shows "error_occurred (top s')"
  using assms resume_frame failed_reported by (fastforce simp: dut_frame_def)

text \<open>
  As long as the environment keeps errors reported, a thread that has gone to
  \<open>wait_for_join\<close> has its error reported: the main loop will see it.
\<close>

lemma runs_failed_error:
  assumes "runs resume es l s = Some (l', s')"
    and "\<And>e s. e \<in> set es \<Longrightarrow> error_occurred (top s) \<Longrightarrow> error_occurred (top (e s))"
    and "failed l \<longrightarrow> error_occurred (top s)"
  shows "failed l' \<longrightarrow> error_occurred (top s')"
  using assms
proof (induction es arbitrary: l s)
  case Nil
  then show ?case by simp
next
  case (Cons e es)
  from Cons.prems(1) obtain l1 s1 where step: "resume l (e s) = Some (l1, s1)"
    and rest: "runs resume es l1 s1 = Some (l', s')"
    by (auto split: option.splits)
  from step Cons.prems(2,3) have "failed l1 \<longrightarrow> error_occurred (top s1)"
    using failed_implies_error [of l "e s" l1 s1] by auto
  with Cons.IH [OF rest] Cons.prems(2) show ?case by simp
qed

lemma runs_frame:
  assumes "runs resume es l s = Some (l', s')"
    and "\<And>e s. e \<in> set es \<Longrightarrow> dut_frame (top s) (top (e s))"
  shows "dut_frame (top s) (top s')"
  using assms
proof (induction es arbitrary: l s)
  case Nil
  then show ?case by simp
next
  case (Cons e es)
  from Cons.prems(1) obtain l1 s1 where step: "resume l (e s) = Some (l1, s1)"
    and rest: "runs resume es l1 s1 = Some (l', s')"
    by (auto split: option.splits)
  from Cons.prems(2) have "dut_frame (top s) (top (e s))" by simp
  also from step have "dut_frame (top (e s)) (top s1)" by (rule resume_frame)
  also from Cons.IH [OF rest] Cons.prems(2) have "dut_frame (top s1) (top s')" by simp
  finally show ?case .
qed

end

end
