(* ===== verification/Dram_Routine.thy ===== *)
theory Dram_Routine
  imports Simulation_State
begin

text \<open>
  \<open>handleDRAMSubroute\<close> of \<open>server/subroutine.cc\<close>: the memory side of the design's AXI
  master port. A subroutine runs from one \<open>TICK\<close> to the next while it holds the lock, so
  it is a state machine: a label for each \<open>TICK\<close> it can be waiting in, with the locals that
  are live there, and \<open>dram_resume\<close>, which runs the code from that \<open>TICK\<close> to the next
  one. Each definition below is the code from one point of the routine on.
\<close>

datatype dram_label =
    D_Top                              \<comment> \<open>the \<open>TICK\<close> at the end of the main loop\<close>
  | D_ArTick u64 u8 nat                \<comment> \<open>read address accepted: address, id, burst count\<close>
  | D_RWait u64 u8 nat nat             \<comment> \<open>waiting for \<open>rready\<close>, block \<open>curr\<close>\<close>
  | D_RTick u64 u8 nat nat             \<comment> \<open>block \<open>curr\<close> is being taken\<close>
  | D_AwTick u64 u8 nat                \<comment> \<open>write address accepted\<close>
  | D_WWait u64 u8 nat nat             \<comment> \<open>waiting for \<open>wvalid\<close>, block \<open>curr\<close>\<close>
  | D_WTick u64 u8 nat nat             \<comment> \<open>block \<open>curr\<close> has been stored\<close>
  | D_BWait u8                         \<comment> \<open>waiting for \<open>bready\<close>\<close>
  | D_BTick                            \<comment> \<open>the response is being taken\<close>
  | D_Join                             \<comment> \<open>\<open>wait_for_join\<close>\<close>

text \<open>The macro \<open>CHECK\<close> with a false condition.\<close>

definition dram_check_failed :: "'i TopDUT \<Rightarrow> dram_label \<times> 'i TopDUT" where
  "dram_check_failed t = (D_Join, reportError t)"

text \<open>The first word of block \<open>curr_block\<close> of a burst.\<close>

definition block_word :: "u64 \<Rightarrow> nat \<Rightarrow> nat" where
  "block_word addr_byte curr_block =
     unat (BYTE_TO_WORD addr_byte + of_nat curr_block * of_nat WORDS_PER_BLOCK)"

section \<open>The write half of the main loop\<close>

definition dram_aw ::
  "('i VARMFlexTop \<Rightarrow> 'i VARMFlexTop) \<Rightarrow> 'i TopDUT \<Rightarrow> dram_label \<times> 'i TopDUT" where
  "dram_aw ev t =
     (let d = td_dut t in
      if M_AXI_aw_awvalid d then
        let addr_byte = M_AXI_aw_awaddr d in
        if \<not> addr_byte < td_dram_size t then dram_check_failed t
        else if addr_byte AND 0x3F \<noteq> 0 then dram_check_failed t
        else if M_AXI_ar_arsize d \<noteq> 6 then dram_check_failed t
        else (D_AwTick addr_byte (M_AXI_aw_awid d) (unat (M_AXI_aw_awlen d) + 1),
              set_ports ev (set_ports (\<lambda>d. d\<lparr>M_AXI_aw_awready := True\<rparr>) t))
      else (D_Top, t))"

text \<open>Store the block the design offers and take one cycle.\<close>

definition dram_store_block ::
  "u64 \<Rightarrow> u8 \<Rightarrow> nat \<Rightarrow> nat \<Rightarrow> 'i TopDUT \<Rightarrow> dram_label \<times> 'i TopDUT" where
  "dram_store_block addr_byte bid burst_count curr_block t =
     (D_WTick addr_byte bid burst_count curr_block,
      dram_store (block_word addr_byte curr_block)
        (take WORDS_PER_BLOCK (M_AXI_w_wdata (td_dut t))) t)"

definition dram_w_wait ::
  "u64 \<Rightarrow> u8 \<Rightarrow> nat \<Rightarrow> nat \<Rightarrow> 'i TopDUT \<Rightarrow> dram_label \<times> 'i TopDUT" where
  "dram_w_wait addr_byte bid burst_count curr_block t =
     (if \<not> M_AXI_w_wvalid (td_dut t) then (D_WWait addr_byte bid burst_count curr_block, t)
      else dram_store_block addr_byte bid burst_count curr_block t)"

definition dram_b_wait :: "u8 \<Rightarrow> 'i TopDUT \<Rightarrow> dram_label \<times> 'i TopDUT" where
  "dram_b_wait bid t = (if \<not> M_AXI_b_bready (td_dut t) then (D_BWait bid, t) else (D_BTick, t))"

definition dram_write_loop ::
  "('i VARMFlexTop \<Rightarrow> 'i VARMFlexTop) \<Rightarrow> u64 \<Rightarrow> u8 \<Rightarrow> nat \<Rightarrow> nat \<Rightarrow> 'i TopDUT \<Rightarrow>
   dram_label \<times> 'i TopDUT" where
  "dram_write_loop ev addr_byte bid burst_count curr_block t =
     (if curr_block < burst_count then
        dram_w_wait addr_byte bid burst_count curr_block
          (set_ports ev (set_ports (\<lambda>d. d\<lparr>M_AXI_w_wready := True\<rparr>) t))
      else
        dram_b_wait bid
          (set_ports ev (set_ports
             (\<lambda>d. d\<lparr>M_AXI_b_bvalid := True, M_AXI_b_bid := bid, M_AXI_b_bresp := 0\<rparr>) t)))"

section \<open>The read half of the main loop\<close>

definition dram_r_wait ::
  "u64 \<Rightarrow> u8 \<Rightarrow> nat \<Rightarrow> nat \<Rightarrow> 'i TopDUT \<Rightarrow> dram_label \<times> 'i TopDUT" where
  "dram_r_wait addr_byte rid burst_count curr_block t =
     (if \<not> M_AXI_r_rready (td_dut t) then (D_RWait addr_byte rid burst_count curr_block, t)
      else (D_RTick addr_byte rid burst_count curr_block, t))"

text \<open>Block \<open>curr_block\<close> of the array, on the data port.\<close>

definition dram_read_loop ::
  "('i VARMFlexTop \<Rightarrow> 'i VARMFlexTop) \<Rightarrow> u64 \<Rightarrow> u8 \<Rightarrow> nat \<Rightarrow> nat \<Rightarrow> 'i TopDUT \<Rightarrow>
   dram_label \<times> 'i TopDUT" where
  "dram_read_loop ev addr_byte rid burst_count curr_block t =
     (if curr_block < burst_count then
        (let w = block_word addr_byte curr_block;
             ws = mem_read (dram t) w WORDS_PER_BLOCK in
         dram_r_wait addr_byte rid burst_count curr_block
           (set_ports ev (set_ports (\<lambda>d. d\<lparr>M_AXI_r_rid := rid, M_AXI_r_rresp := 0,
              M_AXI_r_rdata := ws, M_AXI_r_rlast := (curr_block = burst_count - 1),
              M_AXI_r_rvalid := True\<rparr>) (dram_touch w WORDS_PER_BLOCK t))))
      else dram_aw ev t)"

definition dram_top ::
  "('i VARMFlexTop \<Rightarrow> 'i VARMFlexTop) \<Rightarrow> 'i TopDUT \<Rightarrow> dram_label \<times> 'i TopDUT" where
  "dram_top ev t =
     (let d = td_dut t in
      if M_AXI_ar_arvalid d then
        let addr_byte = M_AXI_ar_araddr d in
        if \<not> addr_byte < td_dram_size t then dram_check_failed t
        else if addr_byte AND 0x3F \<noteq> 0 then dram_check_failed t
        else if M_AXI_ar_arsize d \<noteq> 6 then dram_check_failed t
        else (D_ArTick addr_byte (M_AXI_ar_arid d) (unat (M_AXI_ar_arlen d) + 1),
              set_ports (\<lambda>d. d\<lparr>M_AXI_ar_arready := True\<rparr>) t)
      else dram_aw ev t)"

section \<open>One run from TICK to TICK\<close>

fun dram_resume ::
  "('i VARMFlexTop \<Rightarrow> 'i VARMFlexTop) \<Rightarrow> dram_label \<Rightarrow> 'i TopDUT \<Rightarrow> dram_label \<times> 'i TopDUT" where
  "dram_resume ev D_Top t = dram_top ev t"
| "dram_resume ev (D_ArTick a i n) t =
     dram_read_loop ev a i n 0
       (set_ports ev (set_ports (\<lambda>d. d\<lparr>M_AXI_ar_arready := False\<rparr>) t))"
| "dram_resume ev (D_RWait a i n j) t = dram_r_wait a i n j t"
| "dram_resume ev (D_RTick a i n j) t =
     dram_read_loop ev a i n (Suc j)
       (set_ports ev (set_ports (\<lambda>d. d\<lparr>M_AXI_r_rvalid := False\<rparr>) t))"
| "dram_resume ev (D_AwTick a i n) t =
     dram_write_loop ev a i n 0
       (set_ports ev (set_ports (\<lambda>d. d\<lparr>M_AXI_aw_awready := False\<rparr>) t))"
| "dram_resume ev (D_WWait a i n j) t = dram_w_wait a i n j t"
| "dram_resume ev (D_WTick a i n j) t =
     dram_write_loop ev a i n (Suc j)
       (set_ports ev (set_ports (\<lambda>d. d\<lparr>M_AXI_w_wready := False\<rparr>) t))"
| "dram_resume ev (D_BWait i) t = dram_b_wait i t"
| "dram_resume ev D_BTick t =
     (D_Top, set_ports ev (set_ports (\<lambda>d. d\<lparr>M_AXI_b_bvalid := False\<rparr>) t))"
| "dram_resume ev D_Join t = (D_Join, t)"

lemmas dram_code = dram_top_def dram_read_loop_def dram_r_wait_def dram_aw_def
  dram_write_loop_def dram_w_wait_def dram_store_block_def dram_b_wait_def dram_check_failed_def

text \<open>The label the thread starts in: the main loop is entered without a \<open>TICK\<close>.\<close>

definition dram_start :: dram_label where
  "dram_start = D_Top"

section \<open>The subroutine contract\<close>

definition dram_step ::
  "('i VARMFlexTop \<Rightarrow> 'i VARMFlexTop) \<Rightarrow> dram_label \<Rightarrow> ('i, 'w) server \<Rightarrow>
   (dram_label \<times> ('i, 'w) server) option" where
  "dram_step ev l s = (case dram_resume ev l (top s) of (l', t) \<Rightarrow> Some (l', s\<lparr>top := t\<rparr>))"

fun dram_failed :: "dram_label \<Rightarrow> bool" where
  "dram_failed D_Join = True"
| "dram_failed _ = False"

lemma dram_resume_frame: "dut_frame t (snd (dram_resume ev l t))"
  by (cases l) (simp_all add: dram_code Let_def)

lemma dram_resume_failed:
  "dram_failed (fst (dram_resume ev l t)) \<Longrightarrow>
   dram_failed l \<or> error_occurred (snd (dram_resume ev l t))"
  by (cases l) (auto simp: dram_code Let_def split: if_splits)

interpretation dram: subroutine "dram_step ev" dram_failed
  for ev :: "'i VARMFlexTop \<Rightarrow> 'i VARMFlexTop"
proof
  fix l l' and s s' :: "('i, 'w) server"
  assume step: "dram_step ev l s = Some (l', s')"
  then have eqs: "l' = fst (dram_resume ev l (top s))" "top s' = snd (dram_resume ev l (top s))"
    by (auto simp: dram_step_def split: prod.splits)
  show "dut_frame (top s) (top s')" by (simp add: eqs dram_resume_frame)
  show "dram_failed l' \<Longrightarrow> dram_failed l \<or> error_occurred (top s')"
    by (simp add: eqs dram_resume_failed)
  show "dram_failed l \<Longrightarrow> dram_failed l'"
    by (cases l) (simp_all add: eqs)
qed

end
