(* ===== verification/Axil_Routine.thy ===== *)
theory Axil_Routine
  imports Simulation_State
begin

text \<open>
  \<open>AXILRoutine\<close> of \<open>server/subroutine.cc\<close>: requests of the AXI-Lite socket become
  transactions on the design's \<open>S_AXIL\<close> port. Labels and resumption are as in
  \<open>Dram_Routine\<close>. A label carries the memory of the local \<open>result\<close> structure, which
  keeps its place on the stack from one request to the next. The run from one \<open>TICK\<close> to
  the next is an option: \<open>None\<close> when it never gets there.
\<close>

type_synonym mem = "nat \<Rightarrow> u8"

datatype axil_label =
    A_Poll mem                 \<comment> \<open>no request yet\<close>
  | A_ErrTick mem              \<comment> \<open>the \<open>TICK\<close> before \<open>goto wait_for_join\<close>\<close>
  | A_Magic mem nat            \<comment> \<open>advancing cycles, \<open>cycle\<close> of them before this one\<close>
  | A_AwWait mem
  | A_AwTick mem
  | A_WWait mem
  | A_WTick mem
  | A_BWait mem
  | A_BTick mem
  | A_ArWait mem
  | A_ArTick mem
  | A_RWait mem
  | A_RTick mem u32            \<comment> \<open>with \<open>read_res\<close>\<close>
  | A_Join

section \<open>Waiting for a port\<close>

definition axil_aw_wait :: "mem \<Rightarrow> ('i, 'w) server \<Rightarrow> axil_label \<times> ('i, 'w) server" where
  "axil_aw_wait m s = (if \<not> S_AXIL_aw_awready (ports s) then (A_AwWait m, s) else (A_AwTick m, s))"

definition axil_w_wait :: "mem \<Rightarrow> ('i, 'w) server \<Rightarrow> axil_label \<times> ('i, 'w) server" where
  "axil_w_wait m s = (if \<not> S_AXIL_w_wready (ports s) then (A_WWait m, s) else (A_WTick m, s))"

definition axil_b_wait :: "mem \<Rightarrow> ('i, 'w) server \<Rightarrow> axil_label \<times> ('i, 'w) server" where
  "axil_b_wait m s = (if \<not> S_AXIL_b_bvalid (ports s) then (A_BWait m, s) else (A_BTick m, s))"

definition axil_ar_wait :: "mem \<Rightarrow> ('i, 'w) server \<Rightarrow> axil_label \<times> ('i, 'w) server" where
  "axil_ar_wait m s = (if \<not> S_AXIL_ar_arready (ports s) then (A_ArWait m, s) else (A_ArTick m, s))"

definition axil_r_wait :: "mem \<Rightarrow> ('i, 'w) server \<Rightarrow> axil_label \<times> ('i, 'w) server" where
  "axil_r_wait m s =
     (if \<not> S_AXIL_r_rvalid (ports s) then (A_RWait m, s)
      else (A_RTick m (S_AXIL_r_rdata (ports s)), s))"

section \<open>Starting a transaction\<close>

definition axil_start_write ::
  "('i VARMFlexTop \<Rightarrow> 'i VARMFlexTop) \<Rightarrow> mem \<Rightarrow> ('i, 'w) server \<Rightarrow>
   axil_label \<times> ('i, 'w) server" where
  "axil_start_write ev m s =
     axil_aw_wait m (drive ev (\<lambda>d. d\<lparr>
       S_AXIL_aw_awaddr := ucast (srv_axil_addr (srv_MemoryRequestAXIL_of m)),
       S_AXIL_aw_awprot := 0, S_AXIL_aw_awvalid := True\<rparr>) s)"

definition axil_start_read ::
  "('i VARMFlexTop \<Rightarrow> 'i VARMFlexTop) \<Rightarrow> mem \<Rightarrow> ('i, 'w) server \<Rightarrow>
   axil_label \<times> ('i, 'w) server" where
  "axil_start_read ev m s =
     axil_ar_wait m (drive ev (\<lambda>d. d\<lparr>
       S_AXIL_ar_araddr := ucast (srv_axil_addr (srv_MemoryRequestAXIL_of m)),
       S_AXIL_ar_arprot := 0, S_AXIL_ar_arvalid := True\<rparr>) s)"

text \<open>What follows the magic command and the \<open>CHECK\<close> on the size.\<close>

definition axil_transaction ::
  "('i VARMFlexTop \<Rightarrow> 'i VARMFlexTop) \<Rightarrow> mem \<Rightarrow> ('i, 'w) server \<Rightarrow>
   axil_label \<times> ('i, 'w) server" where
  "axil_transaction ev m s =
     (let result = srv_MemoryRequestAXIL_of m in
      if srv_axil_byte_size result \<noteq> 4 then (A_Join, on_top reportError s)
      else if srv_axil_is_write result \<noteq> 0 then axil_start_write ev m s
      else axil_start_read ev m s)"

section \<open>Replying\<close>

text \<open>\<open>ipc.reply(&v, 1)\<close>; the flag says whether it succeeded.\<close>

definition axil_reply ::
  "'w kernel \<Rightarrow> u32 \<Rightarrow> ('i, 'w) server \<Rightarrow> (bool \<times> ('i, 'w) server) option" where
  "axil_reply k v s =
     do {
       (ok, ipc, w) \<leftarrow> reply k (axil_ipc s) [v] 1 (os s);
       Some (ok, s\<lparr>axil_ipc := ipc, os := w\<rparr>)
     }"

definition axil_fail :: "mem \<Rightarrow> ('i, 'w) server \<Rightarrow> axil_label \<times> ('i, 'w) server" where
  "axil_fail m s = (A_ErrTick m, on_top reportError s)"

section \<open>The top of the main loop\<close>

text \<open>
  \<open>while (!getRequestAXIL) ...\<close> and the dispatch of the request. A magic command for no
  cycles is answered without a \<open>TICK\<close>, and the loop goes on to the next request.
\<close>

partial_function (option) axil_poll ::
  "('i VARMFlexTop \<Rightarrow> 'i VARMFlexTop) \<Rightarrow> 'w kernel \<Rightarrow> mem \<Rightarrow> ('i, 'w) server \<Rightarrow>
   (axil_label \<times> ('i, 'w) server) option" where
  "axil_poll ev k m s =
     (case getRequestAXIL k (axil_ipc s) m (os s) of (got, ipc, m1, w) \<Rightarrow>
        if \<not> got then
          (if hasPendingError ipc then Some (axil_fail m1 (s\<lparr>axil_ipc := ipc, os := w\<rparr>))
           else Some (A_Poll m1, s\<lparr>axil_ipc := ipc, os := w\<rparr>))
        else if srv_axil_is_write (srv_MemoryRequestAXIL_of m1) = 0xDEED then
          (if 0 < unat (srv_axil_w_data (srv_MemoryRequestAXIL_of m1))
           then Some (A_Magic m1 0, s\<lparr>axil_ipc := ipc, os := w\<rparr>)
           else case axil_reply k 0 (s\<lparr>axil_ipc := ipc, os := w\<rparr>) of
               None \<Rightarrow> None
             | Some (ok, s2) \<Rightarrow> if ok then axil_poll ev k m1 s2 else Some (axil_fail m1 s2))
        else Some (axil_transaction ev m1 (s\<lparr>axil_ipc := ipc, os := w\<rparr>)))"

text \<open>A reply, then the next request.\<close>

definition axil_finish ::
  "('i VARMFlexTop \<Rightarrow> 'i VARMFlexTop) \<Rightarrow> 'w kernel \<Rightarrow> mem \<Rightarrow> u32 \<Rightarrow> ('i, 'w) server \<Rightarrow>
   (axil_label \<times> ('i, 'w) server) option" where
  "axil_finish ev k m v s =
     do {
       (ok, s1) \<leftarrow> axil_reply k v s;
       if ok then axil_poll ev k m s1 else Some (axil_fail m s1)
     }"

section \<open>One run from TICK to TICK\<close>

fun axil_resume ::
  "('i VARMFlexTop \<Rightarrow> 'i VARMFlexTop) \<Rightarrow> 'w kernel \<Rightarrow> axil_label \<Rightarrow> ('i, 'w) server \<Rightarrow>
   (axil_label \<times> ('i, 'w) server) option" where
  "axil_resume ev k (A_Poll m) s = axil_poll ev k m s"
| "axil_resume ev k (A_ErrTick m) s = Some (A_Join, s)"
| "axil_resume ev k (A_Magic m cycle) s =
     (if Suc cycle < unat (srv_axil_w_data (srv_MemoryRequestAXIL_of m))
      then Some (A_Magic m (Suc cycle), s) else axil_finish ev k m 0 s)"
| "axil_resume ev k (A_AwWait m) s = Some (axil_aw_wait m s)"
| "axil_resume ev k (A_AwTick m) s =
     Some (axil_w_wait m
       (drive ev (\<lambda>d. d\<lparr>S_AXIL_w_wdata := srv_axil_w_data (srv_MemoryRequestAXIL_of m),
                       S_AXIL_w_wstrb := 0xF, S_AXIL_w_wvalid := True\<rparr>)
         (drive ev (\<lambda>d. d\<lparr>S_AXIL_aw_awvalid := False\<rparr>) s)))"
| "axil_resume ev k (A_WWait m) s = Some (axil_w_wait m s)"
| "axil_resume ev k (A_WTick m) s =
     Some (axil_b_wait m
       (drive ev (\<lambda>d. d\<lparr>S_AXIL_w_wvalid := False, S_AXIL_b_bready := True\<rparr>) s))"
| "axil_resume ev k (A_BWait m) s = Some (axil_b_wait m s)"
| "axil_resume ev k (A_BTick m) s =
     axil_finish ev k m 0 (drive ev (\<lambda>d. d\<lparr>S_AXIL_b_bready := False\<rparr>) s)"
| "axil_resume ev k (A_ArWait m) s = Some (axil_ar_wait m s)"
| "axil_resume ev k (A_ArTick m) s =
     Some (axil_r_wait m
       (drive ev (\<lambda>d. d\<lparr>S_AXIL_ar_arvalid := False, S_AXIL_r_rready := True\<rparr>) s))"
| "axil_resume ev k (A_RWait m) s = Some (axil_r_wait m s)"
| "axil_resume ev k (A_RTick m read_res) s =
     axil_finish ev k m read_res (drive ev (\<lambda>d. d\<lparr>S_AXIL_r_rready := False\<rparr>) s)"
| "axil_resume ev k A_Join s = Some (A_Join, s)"

lemmas axil_code = axil_aw_wait_def axil_w_wait_def axil_b_wait_def axil_ar_wait_def
  axil_r_wait_def axil_start_write_def axil_start_read_def axil_transaction_def axil_fail_def

section \<open>The subroutine contract\<close>

fun axil_failed :: "axil_label \<Rightarrow> bool" where
  "axil_failed (A_ErrTick m) = True"
| "axil_failed A_Join = True"
| "axil_failed _ = False"

lemma axil_reply_top:
  "axil_reply k v s = Some (ok, s') \<Longrightarrow> top s' = top s \<and> axi_ipc s' = axi_ipc s"
  by (auto simp: axil_reply_def bind_eq_Some_conv)

lemma axil_transaction_frame:
  "dut_frame (top s) (top (snd (axil_transaction ev m s)))"
  "axil_failed (fst (axil_transaction ev m s)) \<Longrightarrow>
     error_occurred (top (snd (axil_transaction ev m s)))"
  by (auto simp: axil_code Let_def split: if_splits)

lemma axil_poll_frame:
  assumes "axil_poll ev k m s = Some (l', s')"
  shows "dut_frame (top s) (top s') \<and> (axil_failed l' \<longrightarrow> error_occurred (top s'))"
proof -
  have "dut_frame (top s) (top (snd r)) \<and> (axil_failed (fst r) \<longrightarrow> error_occurred (top (snd r)))"
    if "axil_poll ev k m s = Some r" for r
  proof (rule axil_poll.raw_induct [OF _ that])
    fix poll and ev :: "'a VARMFlexTop \<Rightarrow> 'a VARMFlexTop" and k :: "'b kernel" and m s r
    assume IH: "\<And>ev k m s r. poll ev k m s = Some r \<Longrightarrow>
        dut_frame (top s) (top (snd r)) \<and> (axil_failed (fst r) \<longrightarrow> error_occurred (top (snd r)))"
      and eq: "(case getRequestAXIL k (axil_ipc s) m (os s) of (got, ipc, m1, w) \<Rightarrow>
        if \<not> got then
          (if hasPendingError ipc then Some (axil_fail m1 (s\<lparr>axil_ipc := ipc, os := w\<rparr>))
           else Some (A_Poll m1, s\<lparr>axil_ipc := ipc, os := w\<rparr>))
        else if srv_axil_is_write (srv_MemoryRequestAXIL_of m1) = 0xDEED then
          (if 0 < unat (srv_axil_w_data (srv_MemoryRequestAXIL_of m1))
           then Some (A_Magic m1 0, s\<lparr>axil_ipc := ipc, os := w\<rparr>)
           else case axil_reply k 0 (s\<lparr>axil_ipc := ipc, os := w\<rparr>) of
               None \<Rightarrow> None
             | Some (ok, s2) \<Rightarrow> if ok then poll ev k m1 s2 else Some (axil_fail m1 s2))
        else Some (axil_transaction ev m1 (s\<lparr>axil_ipc := ipc, os := w\<rparr>))) = Some r"
    obtain got ipc m1 w where get: "getRequestAXIL k (axil_ipc s) m (os s) = (got, ipc, m1, w)"
      by (cases "getRequestAXIL k (axil_ipc s) m (os s)")
    let ?s1 = "s\<lparr>axil_ipc := ipc, os := w\<rparr>"
    have top: "top ?s1 = top s" by simp
    show "dut_frame (top s) (top (snd r)) \<and>
        (axil_failed (fst r) \<longrightarrow> error_occurred (top (snd r)))"
      using eq axil_transaction_frame [where ev = ev and m = m1 and s = ?s1]
      by (auto simp: get axil_fail_def top split: if_splits option.splits
          dest!: IH axil_reply_top)
  qed
  from this [OF assms] show ?thesis by simp
qed

lemma axil_finish_frame:
  assumes "axil_finish ev k m v s = Some (l', s')"
  shows "dut_frame (top s) (top s') \<and> (axil_failed l' \<longrightarrow> error_occurred (top s'))"
  using assms
  by (auto simp: axil_finish_def axil_fail_def bind_eq_Some_conv split: if_splits
      dest!: axil_reply_top axil_poll_frame)

lemma axil_resume_frame:
  assumes "axil_resume ev k l s = Some (l', s')"
  shows "dut_frame (top s) (top s') \<and>
    (axil_failed l' \<longrightarrow> axil_failed l \<or> error_occurred (top s'))"
  using assms
  by (cases l) (auto simp: axil_code split: if_splits
      dest: axil_poll_frame dest!: axil_finish_frame)

lemma axil_resume_failed_stays:
  "axil_resume ev k l s = Some (l', s') \<Longrightarrow> axil_failed l \<Longrightarrow> axil_failed l'"
  by (cases l) auto

interpretation axil: subroutine "axil_resume ev k" axil_failed
  for ev :: "'i VARMFlexTop \<Rightarrow> 'i VARMFlexTop" and k :: "'w kernel"
  by unfold_locales (use axil_resume_frame axil_resume_failed_stays in blast)+

end
