(* ===== verification/Axi_Routine.thy ===== *)
theory Axi_Routine
  imports Simulation_State
begin

text \<open>
  \<open>AXI_DRAM_access\<close> and \<open>AXIRoutine\<close> of \<open>server/subroutine.cc\<close>: requests of the AXI
  socket either go straight to the DRAM array or become bursts on the design's \<open>S_AXI\<close>
  port. Labels and resumption are as in \<open>Dram_Routine\<close>; a label carries the memory of the
  local \<open>result\<close> structure, whose \<open>w_data\<close> a read burst fills.
\<close>

datatype axi_label =
    X_Poll "nat \<Rightarrow> u8"
  | X_ErrTick "nat \<Rightarrow> u8"
  | X_AwWait "nat \<Rightarrow> u8"
  | X_AwTick "nat \<Rightarrow> u8"
  | X_WWait "nat \<Rightarrow> u8" nat
  | X_WTick "nat \<Rightarrow> u8" nat
  | X_BWait "nat \<Rightarrow> u8"
  | X_BTick "nat \<Rightarrow> u8"
  | X_ArWait "nat \<Rightarrow> u8"
  | X_ArTick "nat \<Rightarrow> u8"
  | X_RWait "nat \<Rightarrow> u8" nat
  | X_RTick "nat \<Rightarrow> u8" nat
  | X_Join

section \<open>Replying and failing\<close>

definition axi_reply ::
  "'w kernel \<Rightarrow> u32 list \<Rightarrow> nat \<Rightarrow> ('i, 'w) server \<Rightarrow> (bool \<times> ('i, 'w) server) option" where
  "axi_reply k data word_count s =
     do {
       (ok, ipc, w) \<leftarrow> reply k (axi_ipc s) data word_count (os s);
       Some (ok, s\<lparr>axi_ipc := ipc, os := w\<rparr>)
     }"

definition axi_fail :: "(nat \<Rightarrow> u8) \<Rightarrow> ('i, 'w) server \<Rightarrow> axi_label \<times> ('i, 'w) server" where
  "axi_fail m s = (X_ErrTick m, on_top reportError s)"

section \<open>AXI_DRAM_access\<close>

text \<open>
  The \<open>memcpy\<close> moves \<open>byte_size\<close> bytes, a multiple of 64 here, between the array and
  \<open>w_data\<close>; the code compares \<open>byte_size\<close> neither with the 4096 bytes of \<open>w_data\<close> nor
  with the end of the array, and both ways out of bounds set \<open>dram_oob\<close>.
\<close>

definition w_data_touch :: "nat \<Rightarrow> 'i TopDUT \<Rightarrow> 'i TopDUT" where
  "w_data_touch n t = t\<lparr>dram_oob := dram_oob t \<or> 1024 < n\<rparr>"

definition AXI_DRAM_access ::
  "'w kernel \<Rightarrow> srv_MemoryRequest \<Rightarrow> ('i, 'w) server \<Rightarrow> (int \<times> ('i, 'w) server) option" where
  "AXI_DRAM_access k req s =
     (let addr_byte = srv_addr req AND dram_addr_mask (top s);
          addr_word = unat (BYTE_TO_WORD addr_byte);
          n = unat (srv_byte_size req) div 4 in
      if srv_is_write req \<noteq> 0 then
        do {
          (ok, s2) \<leftarrow> axi_reply k [0] 1
             (on_top (\<lambda>t. dram_store addr_word (take n (srv_w_data req)) (w_data_touch n t)) s);
          if \<not> ok then Some (-1, on_top reportError s2) else Some (0, s2)
        }
      else
        do {
          (ok, s2) \<leftarrow> axi_reply k
             (overwrite (srv_w_data req) 0 (mem_read (dram (top s)) addr_word n)) n
             (on_top (\<lambda>t. dram_touch addr_word n (w_data_touch n t)) s);
          if \<not> ok then Some (-1, on_top reportError s2) else Some (0, s2)
        })"

section \<open>The write burst\<close>

definition axi_aw_wait :: "(nat \<Rightarrow> u8) \<Rightarrow> ('i, 'w) server \<Rightarrow> axi_label \<times> ('i, 'w) server" where
  "axi_aw_wait m s = (if \<not> S_AXI_aw_awready (ports s) then (X_AwWait m, s) else (X_AwTick m, s))"

definition axi_w_wait ::
  "(nat \<Rightarrow> u8) \<Rightarrow> nat \<Rightarrow> ('i, 'w) server \<Rightarrow> axi_label \<times> ('i, 'w) server" where
  "axi_w_wait m j s = (if \<not> S_AXI_w_wready (ports s) then (X_WWait m j, s) else (X_WTick m j, s))"

definition axi_b_wait :: "(nat \<Rightarrow> u8) \<Rightarrow> ('i, 'w) server \<Rightarrow> axi_label \<times> ('i, 'w) server" where
  "axi_b_wait m s = (if \<not> S_AXI_b_bvalid (ports s) then (X_BWait m, s) else (X_BTick m, s))"

text \<open>\<open>result.byte_size / BYTES_PER_BLOCK\<close>\<close>

definition axi_blocks :: "(nat \<Rightarrow> u8) \<Rightarrow> nat" where
  "axi_blocks m = unat (srv_byte_size (srv_MemoryRequest_of m)) div BYTES_PER_BLOCK"

text \<open>\<open>(result.byte_size / BYTES_PER_BLOCK) - 1\<close>, in \<open>size_t\<close>, stored in an 8-bit port.\<close>

definition axi_burst_len :: "(nat \<Rightarrow> u8) \<Rightarrow> u8" where
  "axi_burst_len m = ucast (of_nat (axi_blocks m) - 1 :: u64)"

definition axi_start_write ::
  "('i VARMFlexTop \<Rightarrow> 'i VARMFlexTop) \<Rightarrow> (nat \<Rightarrow> u8) \<Rightarrow> ('i, 'w) server \<Rightarrow>
   axi_label \<times> ('i, 'w) server" where
  "axi_start_write ev m s =
     axi_aw_wait m (drive ev (\<lambda>d. d\<lparr>
       S_AXI_aw_awaddr := ucast (srv_addr (srv_MemoryRequest_of m) - axi_base_addr (top s)),
       S_AXI_aw_awsize := 6, S_AXI_aw_awburst := 1, S_AXI_aw_awlen := axi_burst_len m,
       S_AXI_aw_awvalid := True\<rparr>) s)"

definition axi_write_loop ::
  "('i VARMFlexTop \<Rightarrow> 'i VARMFlexTop) \<Rightarrow> (nat \<Rightarrow> u8) \<Rightarrow> nat \<Rightarrow> ('i, 'w) server \<Rightarrow>
   axi_label \<times> ('i, 'w) server" where
  "axi_write_loop ev m curr_block s =
     (if curr_block < axi_blocks m then
        axi_w_wait m curr_block (drive ev (\<lambda>d. d\<lparr>
          S_AXI_w_wdata := take WORDS_PER_BLOCK
            (drop (curr_block * WORDS_PER_BLOCK) (srv_w_data (srv_MemoryRequest_of m))),
          S_AXI_w_wlast := (curr_block = axi_blocks m - 1),
          S_AXI_w_wstrb := 0xFFFFFFFFFFFFFFFF, S_AXI_w_wvalid := True\<rparr>) s)
      else
        axi_b_wait m (drive ev (\<lambda>d. d\<lparr>S_AXI_w_wvalid := False, S_AXI_b_bready := True\<rparr>) s))"

section \<open>The read burst\<close>

text \<open>The source tests \<open>arready\<close> without a negation here.\<close>

definition axi_ar_wait :: "(nat \<Rightarrow> u8) \<Rightarrow> ('i, 'w) server \<Rightarrow> axi_label \<times> ('i, 'w) server" where
  "axi_ar_wait m s = (if S_AXI_ar_arready (ports s) then (X_ArWait m, s) else (X_ArTick m, s))"

definition axi_start_read ::
  "('i VARMFlexTop \<Rightarrow> 'i VARMFlexTop) \<Rightarrow> (nat \<Rightarrow> u8) \<Rightarrow> ('i, 'w) server \<Rightarrow>
   axi_label \<times> ('i, 'w) server" where
  "axi_start_read ev m s =
     axi_ar_wait m (drive ev (\<lambda>d. d\<lparr>
       S_AXI_ar_araddr := ucast (srv_addr (srv_MemoryRequest_of m) - axi_base_addr (top s)),
       S_AXI_ar_arlen := axi_burst_len m, S_AXI_ar_arburst := 1, S_AXI_ar_arsize := 6,
       S_AXI_ar_arvalid := True\<rparr>) s)"

text \<open>
  \<open>memcpy(&result.w_data[curr_block * 16], rdata, 64)\<close> on the structure's memory
  (\<open>w_data\<close> starts at byte 20), then the check of \<open>rlast\<close> on the last block.
\<close>

definition axi_r_wait ::
  "(nat \<Rightarrow> u8) \<Rightarrow> nat \<Rightarrow> ('i, 'w) server \<Rightarrow> axi_label \<times> ('i, 'w) server" where
  "axi_r_wait m j s =
     (if \<not> S_AXI_r_rvalid (ports s) then (X_RWait m j, s)
      else
        let m1 = mem_write m (20 + j * BYTES_PER_BLOCK)
              (bytes_of_words (take WORDS_PER_BLOCK (S_AXI_r_rdata (ports s)))) in
        if j = axi_blocks m - 1 \<and> \<not> S_AXI_r_rlast (ports s) then (X_Join, on_top reportError s)
        else (X_RTick m1 j, s))"

section \<open>The top of the main loop\<close>

text \<open>
  A request inside the DRAM range is served without a \<open>TICK\<close>, and the loop goes on to the
  next request.
\<close>

partial_function (option) axi_poll ::
  "('i VARMFlexTop \<Rightarrow> 'i VARMFlexTop) \<Rightarrow> 'w kernel \<Rightarrow> (nat \<Rightarrow> u8) \<Rightarrow> ('i, 'w) server \<Rightarrow>
   (axi_label \<times> ('i, 'w) server) option" where
  "axi_poll ev k m s =
     (case getRequestAXI k (axi_ipc s) m (os s) of (got, ipc, m1, w) \<Rightarrow>
        if \<not> got then
          (if hasPendingError ipc then Some (axi_fail m1 (s\<lparr>axi_ipc := ipc, os := w\<rparr>))
           else Some (X_Poll m1, s\<lparr>axi_ipc := ipc, os := w\<rparr>))
        else if unat (srv_byte_size (srv_MemoryRequest_of m1)) mod 64 \<noteq> 0 then
          Some (X_Join, on_top reportError (s\<lparr>axi_ipc := ipc, os := w\<rparr>))
        else if isAXIDRAM (top s) (srv_addr (srv_MemoryRequest_of m1)) then
          (case AXI_DRAM_access k (srv_MemoryRequest_of m1) (s\<lparr>axi_ipc := ipc, os := w\<rparr>) of
             None \<Rightarrow> None
           | Some (res, s2) \<Rightarrow> if res = -1 then Some (X_ErrTick m1, s2) else axi_poll ev k m1 s2)
        else if srv_is_write (srv_MemoryRequest_of m1) \<noteq> 0 then
          Some (axi_start_write ev m1 (s\<lparr>axi_ipc := ipc, os := w\<rparr>))
        else Some (axi_start_read ev m1 (s\<lparr>axi_ipc := ipc, os := w\<rparr>)))"

definition axi_finish ::
  "('i VARMFlexTop \<Rightarrow> 'i VARMFlexTop) \<Rightarrow> 'w kernel \<Rightarrow> (nat \<Rightarrow> u8) \<Rightarrow> u32 list \<Rightarrow> nat \<Rightarrow>
   ('i, 'w) server \<Rightarrow> (axi_label \<times> ('i, 'w) server) option" where
  "axi_finish ev k m data word_count s =
     do {
       (ok, s1) \<leftarrow> axi_reply k data word_count s;
       if ok then axi_poll ev k m s1 else Some (axi_fail m s1)
     }"

definition axi_read_loop ::
  "('i VARMFlexTop \<Rightarrow> 'i VARMFlexTop) \<Rightarrow> 'w kernel \<Rightarrow> (nat \<Rightarrow> u8) \<Rightarrow> nat \<Rightarrow> ('i, 'w) server \<Rightarrow>
   (axi_label \<times> ('i, 'w) server) option" where
  "axi_read_loop ev k m curr_block s =
     (if curr_block < axi_blocks m then Some (axi_r_wait m curr_block s)
      else
        let result = srv_MemoryRequest_of m in
        axi_finish ev k m (srv_w_data result) (unat (srv_byte_size result) div 4)
          (drive ev (\<lambda>d. d\<lparr>S_AXI_r_rready := False\<rparr>) s))"

section \<open>One run from TICK to TICK\<close>

fun axi_resume ::
  "('i VARMFlexTop \<Rightarrow> 'i VARMFlexTop) \<Rightarrow> 'w kernel \<Rightarrow> axi_label \<Rightarrow> ('i, 'w) server \<Rightarrow>
   (axi_label \<times> ('i, 'w) server) option" where
  "axi_resume ev k (X_Poll m) s = axi_poll ev k m s"
| "axi_resume ev k (X_ErrTick m) s = Some (X_Join, s)"
| "axi_resume ev k (X_AwWait m) s = Some (axi_aw_wait m s)"
| "axi_resume ev k (X_AwTick m) s =
     Some (axi_write_loop ev m 0 (drive ev (\<lambda>d. d\<lparr>S_AXI_aw_awvalid := False\<rparr>) s))"
| "axi_resume ev k (X_WWait m j) s = Some (axi_w_wait m j s)"
| "axi_resume ev k (X_WTick m j) s = Some (axi_write_loop ev m (Suc j) s)"
| "axi_resume ev k (X_BWait m) s = Some (axi_b_wait m s)"
| "axi_resume ev k (X_BTick m) s =
     axi_finish ev k m [0] 1 (drive ev (\<lambda>d. d\<lparr>S_AXI_b_bready := False\<rparr>) s)"
| "axi_resume ev k (X_ArWait m) s = Some (axi_ar_wait m s)"
| "axi_resume ev k (X_ArTick m) s =
     axi_read_loop ev k m 0
       (drive ev (\<lambda>d. d\<lparr>S_AXI_ar_arvalid := False, S_AXI_r_rready := True\<rparr>) s)"
| "axi_resume ev k (X_RWait m j) s = Some (axi_r_wait m j s)"
| "axi_resume ev k (X_RTick m j) s = axi_read_loop ev k m (Suc j) s"
| "axi_resume ev k X_Join s = Some (X_Join, s)"

lemmas axi_code = axi_aw_wait_def axi_w_wait_def axi_b_wait_def axi_ar_wait_def
  axi_r_wait_def axi_start_write_def axi_start_read_def axi_write_loop_def axi_fail_def

section \<open>The subroutine contract\<close>

fun axi_failed :: "axi_label \<Rightarrow> bool" where
  "axi_failed (X_ErrTick m) = True"
| "axi_failed X_Join = True"
| "axi_failed _ = False"

lemma w_data_touch_frame [simp]: "dut_frame t t' \<Longrightarrow> dut_frame t (w_data_touch n t')"
  by (simp add: w_data_touch_def dut_frame_def)

lemma axi_reply_top:
  "axi_reply k data n s = Some (ok, s') \<Longrightarrow> top s' = top s \<and> axil_ipc s' = axil_ipc s"
  by (auto simp: axi_reply_def bind_eq_Some_conv)

lemma AXI_DRAM_access_frame:
  assumes "AXI_DRAM_access k req s = Some (res, s')"
  shows "dut_frame (top s) (top s') \<and> (res = -1 \<longrightarrow> error_occurred (top s')) \<and> (res = 0 \<or> res = -1)"
proof -
  obtain f data n ok s2 where f: "dut_frame (top s) (f (top s))"
    and r: "axi_reply k data n (on_top f s) = Some (ok, s2)"
    and res: "(res, s') = (if \<not> ok then (-1, on_top reportError s2) else (0, s2))"
    using assms unfolding AXI_DRAM_access_def Let_def
    by (cases "srv_is_write req = 0") (force simp: bind_eq_Some_conv split: if_splits)+
  from axi_reply_top [OF r] have "top s2 = f (top s)" by simp
  with f res show ?thesis by (cases ok) auto
qed

lemma axi_start_frame:
  "dut_frame (top s) (top (snd (axi_start_write ev m s)))"
  "dut_frame (top s) (top (snd (axi_start_read ev m s)))"
  "\<not> axi_failed (fst (axi_start_write ev m s))"
  "\<not> axi_failed (fst (axi_start_read ev m s))"
  by (simp_all add: axi_code)

lemma axi_poll_frame:
  assumes "axi_poll ev k m s = Some (l', s')"
  shows "dut_frame (top s) (top s') \<and> (axi_failed l' \<longrightarrow> error_occurred (top s'))"
proof -
  have "dut_frame (top s) (top (snd r)) \<and> (axi_failed (fst r) \<longrightarrow> error_occurred (top (snd r)))"
    if "axi_poll ev k m s = Some r" for r
  proof (rule axi_poll.raw_induct [OF _ that])
    fix poll and ev :: "'a VARMFlexTop \<Rightarrow> 'a VARMFlexTop" and k :: "'b kernel" and m s r
    assume IH: "\<And>ev k m s r. poll ev k m s = Some r \<Longrightarrow>
        dut_frame (top s) (top (snd r)) \<and> (axi_failed (fst r) \<longrightarrow> error_occurred (top (snd r)))"
      and eq: "(case getRequestAXI k (axi_ipc s) m (os s) of (got, ipc, m1, w) \<Rightarrow>
        if \<not> got then
          (if hasPendingError ipc then Some (axi_fail m1 (s\<lparr>axi_ipc := ipc, os := w\<rparr>))
           else Some (X_Poll m1, s\<lparr>axi_ipc := ipc, os := w\<rparr>))
        else if unat (srv_byte_size (srv_MemoryRequest_of m1)) mod 64 \<noteq> 0 then
          Some (X_Join, on_top reportError (s\<lparr>axi_ipc := ipc, os := w\<rparr>))
        else if isAXIDRAM (top s) (srv_addr (srv_MemoryRequest_of m1)) then
          (case AXI_DRAM_access k (srv_MemoryRequest_of m1) (s\<lparr>axi_ipc := ipc, os := w\<rparr>) of
             None \<Rightarrow> None
           | Some (res, s2) \<Rightarrow> if res = -1 then Some (X_ErrTick m1, s2) else poll ev k m1 s2)
        else if srv_is_write (srv_MemoryRequest_of m1) \<noteq> 0 then
          Some (axi_start_write ev m1 (s\<lparr>axi_ipc := ipc, os := w\<rparr>))
        else Some (axi_start_read ev m1 (s\<lparr>axi_ipc := ipc, os := w\<rparr>))) = Some r"
    obtain got ipc m1 w where get: "getRequestAXI k (axi_ipc s) m (os s) = (got, ipc, m1, w)"
      by (cases "getRequestAXI k (axi_ipc s) m (os s)")
    let ?s1 = "s\<lparr>axi_ipc := ipc, os := w\<rparr>"
    have top: "top ?s1 = top s" by simp
    show "dut_frame (top s) (top (snd r)) \<and>
        (axi_failed (fst r) \<longrightarrow> error_occurred (top (snd r)))"
      using eq axi_start_frame [where ev = ev and m = m1 and s = ?s1]
      by (auto simp: get axi_fail_def top split: if_splits option.splits
          dest!: IH AXI_DRAM_access_frame intro: dut_frame_trans)
  qed
  from this [OF assms] show ?thesis by simp
qed

lemma axi_finish_frame:
  assumes "axi_finish ev k m data n s = Some (l', s')"
  shows "dut_frame (top s) (top s') \<and> (axi_failed l' \<longrightarrow> error_occurred (top s'))"
  using assms
  by (auto simp: axi_finish_def axi_fail_def bind_eq_Some_conv split: if_splits
      dest!: axi_reply_top axi_poll_frame)

lemma axi_read_loop_frame:
  assumes "axi_read_loop ev k m j s = Some (l', s')"
  shows "dut_frame (top s) (top s') \<and> (axi_failed l' \<longrightarrow> error_occurred (top s'))"
  using assms
  by (auto simp: axi_read_loop_def axi_r_wait_def Let_def split: if_splits dest!: axi_finish_frame)

lemma axi_resume_frame:
  assumes "axi_resume ev k l s = Some (l', s')"
  shows "dut_frame (top s) (top s') \<and>
    (axi_failed l' \<longrightarrow> axi_failed l \<or> error_occurred (top s'))"
  using assms
  by (cases l) (auto simp: axi_code Let_def split: if_splits
      dest: axi_poll_frame dest!: axi_finish_frame axi_read_loop_frame)

lemma axi_resume_failed_stays:
  "axi_resume ev k l s = Some (l', s') \<Longrightarrow> axi_failed l \<Longrightarrow> axi_failed l'"
  by (cases l) auto

interpretation axi: subroutine "axi_resume ev k" axi_failed
  for ev :: "'i VARMFlexTop \<Rightarrow> 'i VARMFlexTop" and k :: "'w kernel"
  by unfold_locales (use axi_resume_frame axi_resume_failed_stays in blast)+

end
