(* ===== verification/Clock.thy ===== *)
theory Clock
  imports Dram_Routine Axil_Routine Axi_Routine
begin

text \<open>
  The clock barrier of \<open>server/dut.cc\<close> and the main loop of \<open>server/main.cc\<close>. The mutex
  is held by \<open>tick\<close> up to its wait on \<open>clock_cv\<close> and by a subroutine from one \<open>TICK\<close>
  to the next, so these pieces are atomic, and the threads are a step relation over them:
  which runnable subroutine gets the lock is not determined. C++ lets a wait on a condition
  variable return without a notification; \<open>subroutine_cv.wait(lock)\<close> has no predicate that
  would catch it, so the relation takes a parameter that says whether this happens.
\<close>

section \<open>The threads\<close>

datatype routine_label = L_Dram dram_label | L_Axil axil_label | L_Axi axi_label

datatype thread = Runnable routine_label | Blocked routine_label | Exited

text \<open>
  Where the main thread is: at the top of its loop, waiting in \<open>tick\<close>, out of the loop,
  waiting in the \<open>tick\<close> of \<open>join\<close>, joining the threads, done.
\<close>

datatype main_pc = M_Loop | M_Ticking | M_Break | M_JoinTicking | M_Joining | M_Done

record ('i, 'w) sim =
  srv :: "('i, 'w) server"
  threads :: "thread list"
  main_at :: main_pc

fun subroutine_resume ::
  "('i VARMFlexTop \<Rightarrow> 'i VARMFlexTop) \<Rightarrow> 'w kernel \<Rightarrow> routine_label \<Rightarrow> ('i, 'w) server \<Rightarrow>
   (routine_label \<times> ('i, 'w) server) option" where
  "subroutine_resume ev k (L_Dram l) s = map_option (apfst L_Dram) (dram_step ev l s)"
| "subroutine_resume ev k (L_Axil l) s = map_option (apfst L_Axil) (axil_resume ev k l s)"
| "subroutine_resume ev k (L_Axi l) s = map_option (apfst L_Axi) (axi_resume ev k l s)"

fun routine_failed :: "routine_label \<Rightarrow> bool" where
  "routine_failed (L_Dram l) = dram_failed l"
| "routine_failed (L_Axil l) = axil_failed l"
| "routine_failed (L_Axi l) = axi_failed l"

text \<open>\<open>TopDUT::registerSubroutine\<close>: one more thread, at the start of its function.\<close>

definition registerSubroutine :: "routine_label \<Rightarrow> ('i, 'w) sim \<Rightarrow> ('i, 'w) sim" where
  "registerSubroutine l \<sigma> = \<sigma>\<lparr>threads := threads \<sigma> @ [Runnable l],
     srv := on_top (\<lambda>t. t\<lparr>n_subroutines := n_subroutines t + 1\<rparr>) (srv \<sigma>)\<rparr>"

text \<open>\<open>TopDUT::waitForTick\<close> up to the wait; the flag is its result when it does not wait.\<close>

definition waitForTick :: "'i TopDUT \<Rightarrow> bool \<times> 'i TopDUT" where
  "waitForTick t = (terminating t, t\<lparr>ready_thread := ready_thread t + 1\<rparr>)"

text \<open>A thread with the lock: its code to the next \<open>TICK\<close>, and the \<open>TICK\<close>.\<close>

definition run_thread ::
  "('i VARMFlexTop \<Rightarrow> 'i VARMFlexTop) \<Rightarrow> 'w kernel \<Rightarrow> routine_label \<Rightarrow> ('i, 'w) server \<Rightarrow>
   (thread \<times> ('i, 'w) server) option" where
  "run_thread ev k l s =
     do {
       (l', s1) \<leftarrow> subroutine_resume ev k l s;
       let (stop, t) = waitForTick (top s1);
       Some (if stop then Exited else Blocked l', s1\<lparr>top := t\<rparr>)
     }"

fun wake :: "thread \<Rightarrow> thread" where
  "wake (Blocked l) = Runnable l"
| "wake (Runnable l) = Runnable l"
| "wake Exited = Exited"

fun is_runnable :: "thread \<Rightarrow> bool" where
  "is_runnable (Runnable l) = True"
| "is_runnable _ = False"

section \<open>Steps\<close>

definition tick_begin :: "('i VARMFlexTop \<Rightarrow> 'i VARMFlexTop) \<Rightarrow> main_pc \<Rightarrow> ('i, 'w) sim \<Rightarrow> ('i, 'w) sim" where
  "tick_begin ev pc \<sigma> = \<sigma>\<lparr>srv := on_top (tick_edge ev) (srv \<sigma>),
     threads := map wake (threads \<sigma>), main_at := pc\<rparr>"

inductive sim_step ::
  "bool \<Rightarrow> ('i VARMFlexTop \<Rightarrow> 'i VARMFlexTop) \<Rightarrow> 'w kernel \<Rightarrow> ('i, 'w) sim \<Rightarrow> ('i, 'w) sim \<Rightarrow> bool"
  for spurious :: bool and ev :: "'i VARMFlexTop \<Rightarrow> 'i VARMFlexTop" and k :: "'w kernel" where
  tick: "main_at \<sigma> = M_Loop \<Longrightarrow> sim_step spurious ev k \<sigma> (tick_begin ev M_Ticking \<sigma>)"
| tick_end: "main_at \<sigma> = M_Ticking \<Longrightarrow> tick_done (top (srv \<sigma>)) \<Longrightarrow>
    \<not> error_occurred (top (srv \<sigma>)) \<Longrightarrow> sim_step spurious ev k \<sigma> (\<sigma>\<lparr>main_at := M_Loop\<rparr>)"
| tick_break: "main_at \<sigma> = M_Ticking \<Longrightarrow> tick_done (top (srv \<sigma>)) \<Longrightarrow>
    error_occurred (top (srv \<sigma>)) \<or> closeprogram \<Longrightarrow>
    sim_step spurious ev k \<sigma> (\<sigma>\<lparr>main_at := M_Break\<rparr>)"
| run: "i < length (threads \<sigma>) \<Longrightarrow> threads \<sigma> ! i = Runnable l \<Longrightarrow>
    run_thread ev k l (srv \<sigma>) = Some (th, s') \<Longrightarrow>
    sim_step spurious ev k \<sigma> (\<sigma>\<lparr>threads := (threads \<sigma>)[i := th], srv := s'\<rparr>)"
| spurious_wakeup: "spurious \<Longrightarrow> i < length (threads \<sigma>) \<Longrightarrow> threads \<sigma> ! i = Blocked l \<Longrightarrow>
    sim_step spurious ev k \<sigma> (\<sigma>\<lparr>threads := (threads \<sigma>)[i := Runnable l]\<rparr>)"
| join: "main_at \<sigma> = M_Break \<Longrightarrow>
    sim_step spurious ev k \<sigma>
      (tick_begin ev M_JoinTicking (\<sigma>\<lparr>srv := on_top (\<lambda>t. t\<lparr>terminating := True\<rparr>) (srv \<sigma>)\<rparr>))"
| join_tick_end: "main_at \<sigma> = M_JoinTicking \<Longrightarrow> tick_done (top (srv \<sigma>)) \<Longrightarrow>
    sim_step spurious ev k \<sigma> (\<sigma>\<lparr>main_at := M_Joining\<rparr>)"
| joined: "main_at \<sigma> = M_Joining \<Longrightarrow> \<forall>th \<in> set (threads \<sigma>). th = Exited \<Longrightarrow>
    sim_step spurious ev k \<sigma>
      (\<sigma>\<lparr>srv := on_top (\<lambda>t. t\<lparr>terminating := False\<rparr>) (srv \<sigma>), main_at := M_Done\<rparr>)"

inductive_cases sim_stepE: "sim_step spurious ev k \<sigma> \<sigma>'"

text \<open>
  The state in which \<open>main\<close> enters its loop: three subroutines registered, no tick yet.
\<close>

definition main_start :: "('i, 'w) server \<Rightarrow> (nat \<Rightarrow> u8) \<Rightarrow> (nat \<Rightarrow> u8) \<Rightarrow> ('i, 'w) sim" where
  "main_start s m1 m2 =
     registerSubroutine (L_Axi (X_Poll m2))
       (registerSubroutine (L_Axil (A_Poll m1))
         (registerSubroutine (L_Dram dram_start)
           \<lparr>srv = s, threads = [], main_at = M_Loop\<rparr>))"

inductive reachable ::
  "bool \<Rightarrow> ('i VARMFlexTop \<Rightarrow> 'i VARMFlexTop) \<Rightarrow> 'w kernel \<Rightarrow> ('i, 'w) sim \<Rightarrow> ('i, 'w) sim \<Rightarrow> bool"
  for spurious :: bool and ev :: "'i VARMFlexTop \<Rightarrow> 'i VARMFlexTop" and k :: "'w kernel"
    and \<sigma>0 :: "('i, 'w) sim" where
  start: "reachable spurious ev k \<sigma>0 \<sigma>0"
| step: "reachable spurious ev k \<sigma>0 \<sigma> \<Longrightarrow> sim_step spurious ev k \<sigma> \<sigma>' \<Longrightarrow>
    reachable spurious ev k \<sigma>0 \<sigma>'"

section \<open>The barrier invariant\<close>

definition n_runnable :: "thread list \<Rightarrow> nat" where
  "n_runnable ths = length (filter is_runnable ths)"

text \<open>
  Every thread either still has to run in this cycle or has been counted; threads leave
  only in the tick of \<open>join\<close>, and the two are told apart by \<open>terminating\<close>.
\<close>

definition barrier_inv :: "('i, 'w) sim \<Rightarrow> bool" where
  "barrier_inv \<sigma> \<longleftrightarrow>
     n_subroutines (top (srv \<sigma>)) = length (threads \<sigma>) \<and>
     decoupled_count (top (srv \<sigma>)) = 0 \<and>
     ready_thread (top (srv \<sigma>)) + n_runnable (threads \<sigma>) = length (threads \<sigma>) \<and>
     (main_at \<sigma> \<in> {M_Loop, M_Ticking, M_Break} \<longrightarrow>
        \<not> terminating (top (srv \<sigma>)) \<and> Exited \<notin> set (threads \<sigma>)) \<and>
     (main_at \<sigma> \<in> {M_JoinTicking, M_Joining} \<longrightarrow>
        terminating (top (srv \<sigma>)) \<and> (\<forall>l. Blocked l \<notin> set (threads \<sigma>))) \<and>
     (main_at \<sigma> \<in> {M_Joining, M_Done} \<longrightarrow> n_runnable (threads \<sigma>) = 0)"

lemma subroutine_resume_frame:
  assumes "subroutine_resume ev k l s = Some (l', s')"
  shows "dut_frame (top s) (top s')"
proof (cases l)
  case (L_Dram x)
  with assms obtain x' where "dram_step ev x s = Some (x', s')"
    by (cases "dram_step ev x s") auto
  then show ?thesis by (rule dram.resume_frame)
next
  case (L_Axil x)
  with assms obtain x' where "axil_resume ev k x s = Some (x', s')"
    by (cases "axil_resume ev k x s") auto
  then show ?thesis by (rule axil.resume_frame)
next
  case (L_Axi x)
  with assms obtain x' where "axi_resume ev k x s = Some (x', s')"
    by (cases "axi_resume ev k x s") auto
  then show ?thesis by (rule axi.resume_frame)
qed

lemma run_thread_eq:
  "subroutine_resume ev k l s = Some (l', s1) \<Longrightarrow>
   run_thread ev k l s = Some (if terminating (top s1) then Exited else Blocked l',
     s1\<lparr>top := (top s1)\<lparr>ready_thread := ready_thread (top s1) + 1\<rparr>\<rparr>)"
  by (simp add: run_thread_def waitForTick_def)

lemma run_thread_None: "subroutine_resume ev k l s = None \<Longrightarrow> run_thread ev k l s = None"
  by (simp add: run_thread_def)

lemma run_thread_cases:
  assumes run: "run_thread ev k l s = Some (th, s')"
  shows "ready_thread (top s') = ready_thread (top s) + 1 \<and>
    n_subroutines (top s') = n_subroutines (top s) \<and>
    decoupled_count (top s') = decoupled_count (top s) \<and>
    terminating (top s') = terminating (top s) \<and>
    (if terminating (top s) then th = Exited else \<exists>l'. th = Blocked l')"
proof (cases "subroutine_resume ev k l s")
  case None
  with run show ?thesis by (simp add: run_thread_None)
next
  case (Some p)
  show ?thesis
  proof (cases p)
    case (Pair l' s1)
    with Some have step: "subroutine_resume ev k l s = Some (l', s1)" by simp
    from run run_thread_eq [OF step]
    have th: "th = (if terminating (top s1) then Exited else Blocked l')"
      and s': "s' = s1\<lparr>top := (top s1)\<lparr>ready_thread := ready_thread (top s1) + 1\<rparr>\<rparr>"
      by simp_all
    from subroutine_resume_frame [OF step] show ?thesis
      unfolding th s' by (simp add: dut_frame_def)
  qed
qed

lemma n_runnable_update:
  "i < length ths \<Longrightarrow> is_runnable (ths ! i) \<Longrightarrow> \<not> is_runnable th \<Longrightarrow>
   Suc (n_runnable (ths[i := th])) = n_runnable ths"
  by (induction ths arbitrary: i) (auto simp: n_runnable_def nth_Cons split: nat.splits)

lemma n_runnable_wake:
  "Exited \<notin> set ths \<Longrightarrow> n_runnable (map wake ths) = length ths"
proof (induction ths)
  case (Cons th ths)
  then show ?case by (cases th) (auto simp: n_runnable_def)
qed (simp add: n_runnable_def)

lemma Blocked_wake: "Blocked l \<notin> set (map wake ths)"
proof (induction ths)
  case (Cons th ths)
  then show ?case by (cases th) auto
qed simp

lemma Exited_wake: "Exited \<in> set (map wake ths) \<longleftrightarrow> Exited \<in> set ths"
proof (induction ths)
  case (Cons th ths)
  then show ?case by (cases th) auto
qed simp

lemma tick_edge_sel [simp]:
  "ready_thread (tick_edge ev t) = 0" "n_subroutines (tick_edge ev t) = n_subroutines t"
  "decoupled_count (tick_edge ev t) = decoupled_count t"
  "terminating (tick_edge ev t) = terminating t"
  "error_occurred (tick_edge ev t) = error_occurred t" "dram (tick_edge ev t) = dram t"
  "td_dram_size (tick_edge ev t) = td_dram_size t"
  "dram_addr_mask (tick_edge ev t) = dram_addr_mask t"
  "axi_base_addr (tick_edge ev t) = axi_base_addr t"
  by (simp_all add: tick_edge_def dump_def Let_def)

lemma barrier_inv_step:
  assumes "sim_step False ev k \<sigma> \<sigma>'" and "barrier_inv \<sigma>"
  shows "barrier_inv \<sigma>'"
  using assms
proof (induction rule: sim_step.induct)
  case (tick \<sigma>)
  then show ?case
    by (simp add: barrier_inv_def tick_begin_def n_runnable_wake Exited_wake del: set_map)
next
  case (tick_end \<sigma>)
  then show ?case by (simp add: barrier_inv_def)
next
  case (tick_break \<sigma>)
  then show ?case by (simp add: barrier_inv_def)
next
  case (run i \<sigma> l th s')
  from run_thread_cases [OF run(3)] run.prems
  have th: "\<not> is_runnable th" by (auto split: if_splits)
  with run have "Suc (n_runnable ((threads \<sigma>)[i := th])) = n_runnable (threads \<sigma>)"
    by (intro n_runnable_update) auto
  with run.prems run_thread_cases [OF run(3)] run(1,2) show ?case
    by (cases "main_at \<sigma>")
      (auto simp: barrier_inv_def split: if_splits dest: set_update_subset_insert [THEN subsetD])
next
  case (spurious_wakeup i \<sigma> l)
  then show ?case by simp
next
  case (join \<sigma>)
  then show ?case
    by (simp add: barrier_inv_def tick_begin_def n_runnable_wake Blocked_wake del: set_map)
next
  case (join_tick_end \<sigma>)
  then show ?case by (auto simp: barrier_inv_def tick_done_def)
next
  case (joined \<sigma>)
  then show ?case by (simp add: barrier_inv_def)
qed

lemma barrier_inv_start:
  assumes "n_subroutines (top s) = 0" and "decoupled_count (top s) = 0"
    and "ready_thread (top s) = 0" and "\<not> terminating (top s)"
  shows "barrier_inv (main_start s m1 m2)"
  using assms by (simp add: barrier_inv_def main_start_def registerSubroutine_def n_runnable_def)

lemma reachable_barrier_inv:
  "reachable False ev k \<sigma>0 \<sigma> \<Longrightarrow> barrier_inv \<sigma>0 \<Longrightarrow> barrier_inv \<sigma>"
  by (induction rule: reachable.induct) (auto intro: barrier_inv_step)

section \<open>One cycle\<close>

text \<open>
  The runs of subroutines inside one \<open>tick\<close>, with the thread that gets the lock in each.
\<close>

inductive run_chain ::
  "('i VARMFlexTop \<Rightarrow> 'i VARMFlexTop) \<Rightarrow> 'w kernel \<Rightarrow> nat list \<Rightarrow> ('i, 'w) sim \<Rightarrow> ('i, 'w) sim \<Rightarrow> bool"
  for ev :: "'i VARMFlexTop \<Rightarrow> 'i VARMFlexTop" and k :: "'w kernel" where
  chain_nil: "run_chain ev k [] \<sigma> \<sigma>"
| chain_cons: "i < length (threads \<sigma>) \<Longrightarrow> threads \<sigma> ! i = Runnable l \<Longrightarrow>
    run_thread ev k l (srv \<sigma>) = Some (th, s') \<Longrightarrow>
    run_chain ev k order (\<sigma>\<lparr>threads := (threads \<sigma>)[i := th], srv := s'\<rparr>) \<sigma>' \<Longrightarrow>
    run_chain ev k (i # order) \<sigma> \<sigma>'"

inductive_cases run_chain_ConsE: "run_chain ev k (i # order) \<sigma> \<sigma>'"
inductive_simps run_chain_Nil: "run_chain ev k [] \<sigma> \<sigma>'"

definition runnable_set :: "thread list \<Rightarrow> nat set" where
  "runnable_set ths = {i. i < length ths \<and> is_runnable (ths ! i)}"

lemma run_thread_not_runnable:
  "run_thread ev k l s = Some (th, s') \<Longrightarrow> \<not> is_runnable th"
  using run_thread_cases [of ev k l s th s'] by (auto split: if_splits)

lemma runnable_set_update:
  "i < length ths \<Longrightarrow> \<not> is_runnable th \<Longrightarrow> runnable_set (ths[i := th]) = runnable_set ths - {i}"
  by (auto simp: runnable_set_def nth_list_update split: if_splits)

lemma card_runnable_set: "card (runnable_set ths) = n_runnable ths"
  by (simp add: runnable_set_def n_runnable_def length_filter_conv_card)

lemma finite_runnable_set [simp]: "finite (runnable_set ths)"
  by (simp add: runnable_set_def)

lemma run_chain_once:
  assumes "run_chain ev k order \<sigma> \<sigma>'"
  shows "distinct order \<and> set order \<subseteq> runnable_set (threads \<sigma>) \<and>
    runnable_set (threads \<sigma>') = runnable_set (threads \<sigma>) - set order \<and>
    length (threads \<sigma>') = length (threads \<sigma>)"
  using assms
proof (induction rule: run_chain.induct)
  case (chain_nil \<sigma>)
  then show ?case by simp
next
  case (chain_cons i \<sigma> l th s' order \<sigma>')
  have "runnable_set ((threads \<sigma>)[i := th]) = runnable_set (threads \<sigma>) - {i}"
    using chain_cons(1) run_thread_not_runnable [OF chain_cons(3)] by (rule runnable_set_update)
  moreover have "i \<in> runnable_set (threads \<sigma>)"
    using chain_cons(1,2) by (simp add: runnable_set_def)
  ultimately show ?case using chain_cons.IH by auto
qed

lemma run_chain_inv:
  assumes "run_chain ev k order \<sigma> \<sigma>'" and "barrier_inv \<sigma>"
  shows "barrier_inv \<sigma>'"
  using assms
proof (induction rule: run_chain.induct)
  case (chain_cons i \<sigma> l th s' order \<sigma>')
  from barrier_inv_step [OF sim_step.run [OF chain_cons(1-3)] chain_cons.prems]
  show ?case by (rule chain_cons.IH)
qed simp

lemma tick_done_iff:
  "barrier_inv \<sigma> \<Longrightarrow> tick_done (top (srv \<sigma>)) \<longleftrightarrow> runnable_set (threads \<sigma>) = {}"
  using card_runnable_set [of "threads \<sigma>"]
  by (auto simp: barrier_inv_def tick_done_def n_runnable_def)

lemma runnable_set_woken:
  assumes "Exited \<notin> set ths"
  shows "runnable_set (map wake ths) = {..<length ths}"
proof -
  have "is_runnable (wake (ths ! i))" if "i < length ths" for i
    using assms that nth_mem [of i ths] by (cases "ths ! i") auto
  then show ?thesis by (auto simp: runnable_set_def)
qed

text \<open>A chain of runs is a sequence of steps of the simulation.\<close>

lemma run_chain_reachable:
  assumes "run_chain ev k order \<sigma> \<sigma>'" and "reachable b ev k \<sigma>0 \<sigma>"
  shows "reachable b ev k \<sigma>0 \<sigma>'"
  using assms
proof (induction rule: run_chain.induct)
  case (chain_cons i \<sigma> l th s' order \<sigma>')
  from reachable.step [OF chain_cons.prems sim_step.run [OF chain_cons(1-3)]]
  show ?case by (rule chain_cons.IH)
qed simp

section \<open>A failed subroutine ends the simulation\<close>

fun thread_label :: "thread \<Rightarrow> routine_label option" where
  "thread_label (Runnable l) = Some l"
| "thread_label (Blocked l) = Some l"
| "thread_label Exited = None"

definition failure_inv :: "('i, 'w) sim \<Rightarrow> bool" where
  "failure_inv \<sigma> \<longleftrightarrow> (\<forall>th \<in> set (threads \<sigma>). \<forall>l. thread_label th = Some l \<and> routine_failed l \<longrightarrow>
     error_occurred (top (srv \<sigma>)))"

lemma thread_label_wake [simp]: "thread_label (wake th) = thread_label th"
  by (cases th) auto

lemma subroutine_resume_failed:
  assumes "subroutine_resume ev k l s = Some (l', s')" and "routine_failed l \<longrightarrow> error_occurred (top s)"
    and "routine_failed l'"
  shows "error_occurred (top s')"
proof (cases l)
  case (L_Dram x)
  with assms(1) obtain x' where x: "dram_step ev x s = Some (x', s')" "l' = L_Dram x'"
    by (cases "dram_step ev x s") auto
  from dram.failed_implies_error [OF x(1)] assms(2,3) L_Dram x(2) show ?thesis by simp
next
  case (L_Axil x)
  with assms(1) obtain x' where x: "axil_resume ev k x s = Some (x', s')" "l' = L_Axil x'"
    by (cases "axil_resume ev k x s") auto
  from axil.failed_implies_error [OF x(1)] assms(2,3) L_Axil x(2) show ?thesis by simp
next
  case (L_Axi x)
  with assms(1) obtain x' where x: "axi_resume ev k x s = Some (x', s')" "l' = L_Axi x'"
    by (cases "axi_resume ev k x s") auto
  from axi.failed_implies_error [OF x(1)] assms(2,3) L_Axi x(2) show ?thesis by simp
qed

lemma run_thread_failure:
  assumes run: "run_thread ev k l s = Some (th, s')"
    and "routine_failed l \<longrightarrow> error_occurred (top s)"
  shows "error_occurred (top s) \<longrightarrow> error_occurred (top s')"
    and "thread_label th = Some l' \<Longrightarrow> routine_failed l' \<Longrightarrow> error_occurred (top s')"
proof -
  have "(error_occurred (top s) \<longrightarrow> error_occurred (top s')) \<and>
    (thread_label th = Some l' \<longrightarrow> routine_failed l' \<longrightarrow> error_occurred (top s'))" for l'
  proof (cases "subroutine_resume ev k l s")
    case None
    with run show ?thesis by (simp add: run_thread_None)
  next
    case (Some p)
    show ?thesis
    proof (cases p)
      case (Pair l1 s1)
      with Some have step: "subroutine_resume ev k l s = Some (l1, s1)" by simp
      from run run_thread_eq [OF step]
      have th: "th = (if terminating (top s1) then Exited else Blocked l1)"
        and s': "s' = s1\<lparr>top := (top s1)\<lparr>ready_thread := ready_thread (top s1) + 1\<rparr>\<rparr>"
        by simp_all
      from subroutine_resume_failed [OF step assms(2)] subroutine_resume_frame [OF step]
      show ?thesis unfolding th s' by (simp add: dut_frame_def)
    qed
  qed
  then show "error_occurred (top s) \<longrightarrow> error_occurred (top s')"
    and "thread_label th = Some l' \<Longrightarrow> routine_failed l' \<Longrightarrow> error_occurred (top s')"
    by blast+
qed

lemma failure_inv_step:
  assumes "sim_step b ev k \<sigma> \<sigma>'" and "failure_inv \<sigma>"
  shows "failure_inv \<sigma>'"
  using assms
proof (induction rule: sim_step.induct)
  case (run i \<sigma> l th s')
  have "routine_failed l \<longrightarrow> error_occurred (top (srv \<sigma>))"
    using run.prems run(1,2) nth_mem [OF run(1)] by (fastforce simp: failure_inv_def)
  note keep = run_thread_failure [OF run(3) this]
  have "error_occurred (top s')"
    if "t \<in> set ((threads \<sigma>)[i := th])" "thread_label t = Some l1" "routine_failed l1" for t l1
  proof (cases "t = th")
    case True
    with that keep(2) show ?thesis by blast
  next
    case False
    with that(1) have "t \<in> set (threads \<sigma>)"
      using set_update_subset_insert by fastforce
    with that run.prems keep(1) show ?thesis by (auto simp: failure_inv_def)
  qed
  then show ?case by (simp add: failure_inv_def)
next
  case (spurious_wakeup i \<sigma> l)
  have "error_occurred (top (srv \<sigma>))"
    if "t \<in> set ((threads \<sigma>)[i := Runnable l])" "thread_label t = Some l1" "routine_failed l1" for t l1
  proof (cases "t = Runnable l")
    case True
    with that spurious_wakeup.prems spurious_wakeup(2,3) nth_mem [OF spurious_wakeup(2)]
    show ?thesis by (fastforce simp: failure_inv_def)
  next
    case False
    with that(1) have "t \<in> set (threads \<sigma>)"
      using set_update_subset_insert by fastforce
    with that spurious_wakeup.prems show ?thesis by (auto simp: failure_inv_def)
  qed
  then show ?case by (simp add: failure_inv_def)
qed (auto simp: failure_inv_def tick_begin_def)

lemma failure_inv_start: "failure_inv (main_start s m1 m2)"
  by (simp add: failure_inv_def main_start_def registerSubroutine_def dram_start_def)

lemma reachable_failure_inv:
  "reachable b ev k \<sigma>0 \<sigma> \<Longrightarrow> failure_inv \<sigma>0 \<Longrightarrow> failure_inv \<sigma>"
  by (induction rule: reachable.induct) (auto intro: failure_inv_step)

end
