(* ===== verification/Sockets.thy ===== *)
theory Sockets
  imports Fpga_Rtl Server_IPC
begin

text \<open>
  The life of the file descriptors on both sides (\<open>client/fpga_rtl.c\<close>, \<open>server/ipc.cc\<close>),
  over any kernel that keeps a table of open descriptors, and an in-memory kernel that has
  every law the development states: the instance of the locales of \<open>Kernel\<close>.
\<close>

section \<open>Descriptors\<close>

text \<open>
  What the manual pages of the calls say: a call fails with a negative value and opens nothing, or
  returns a descriptor, 0 or more, that was not open; \<open>close\<close> closes its argument.
\<close>

locale socket_table =
  fixes k :: "'w kernel" and opn :: "'w \<Rightarrow> int set"
  assumes socket_opens: "k_socket k w = (fd, w') \<Longrightarrow>
      fd < 0 \<and> opn w' = opn w \<or> 0 \<le> fd \<and> fd \<notin> opn w \<and> opn w' = insert fd (opn w)"
    and accept_opens: "k_accept k lfd w = (fd, w') \<Longrightarrow>
      fd < 0 \<and> opn w' = opn w \<or> 0 \<le> fd \<and> fd \<notin> opn w \<and> opn w' = insert fd (opn w)"
    and connect_keeps: "opn (snd (k_connect k fd nm w)) = opn w"
    and bind_keeps: "opn (snd (k_bind k fd nm w)) = opn w"
    and listen_keeps: "opn (snd (k_listen k fd n w)) = opn w"
    and close_closes: "opn (snd (k_close k fd w)) = opn w - {fd}"
begin

lemma initIPC_fds:
  assumes "initIPC k nm w = ((r, fd), w')"
  shows "(r = 0 \<or> r = -1) \<and> (fd < 0 \<and> r = -1 \<and> opn w' = opn w \<or>
    0 \<le> fd \<and> fd \<notin> opn w \<and> opn w' = insert fd (opn w))"
proof -
  obtain f w1 where f: "k_socket k w = (f, w1)" by fastforce
  obtain r2 w2 where c: "k_connect k f nm w1 = (r2, w2)" by fastforce
  from socket_opens [OF f] connect_keeps [of f nm w1] assms show ?thesis
    by (auto simp: initIPC_def f c split: if_splits)
qed

lemma releaseFPGAContext_rtl_closes:
  "opn (snd (releaseFPGAContext_rtl k c w)) =
    opn w - {fd. 0 < fd \<and> (fd = axi_fd c \<or> fd = axil_fd c)}"
  by (cases "axi_fd c > 0"; cases "axil_fd c > 0")
    (auto simp: releaseFPGAContext_rtl_def Let_def case_prod_unfold close_closes)

lemma initFPGAContext_rtl_fds:
  assumes "initFPGAContext_rtl k c0 w = (r, c, w')"
  shows "r = 0 \<and> 0 \<le> axi_fd c \<and> 0 \<le> axil_fd c \<and> axi_fd c \<noteq> axil_fd c \<and>
      {axi_fd c, axil_fd c} \<inter> opn w = {} \<and> opn w' = {axi_fd c, axil_fd c} \<union> opn w \<and>
      base_address c = standard_base (dram_size c) (base_address c0)
    \<or> r = -1 \<and> opn w \<subseteq> opn w' \<and> opn w' \<subseteq> insert 0 (opn w)"
proof -
  let ?c1 = "c0\<lparr>dram_size := 1024 * 1024 * 16, axi_fd := -1, axil_fd := -1,
      base_address := standard_base (1024 * 1024 * 16) (base_address c0)\<rparr>"
  obtain r1 fd1 w1 where i1: "initIPC k ''/dev/shm/axi'' w = ((r1, fd1), w1)"
    by (metis prod.collapse)
  obtain r2 fd2 w2 where i2: "initIPC k ''/dev/shm/axi_lite'' w1 = ((r2, fd2), w2)"
    by (metis prod.collapse)
  note f1 = initIPC_fds [OF i1] and f2 = initIPC_fds [OF i2]
  have init: "initFPGAContext_rtl k c0 w =
    (if r1 \<noteq> 0 then (-1, ?c1\<lparr>axi_fd := fd1\<rparr>, snd (releaseFPGAContext_rtl k (?c1\<lparr>axi_fd := fd1\<rparr>) w1))
     else if r2 \<noteq> 0 then (-1, ?c1\<lparr>axi_fd := fd1, axil_fd := fd2\<rparr>,
       snd (releaseFPGAContext_rtl k (?c1\<lparr>axi_fd := fd1, axil_fd := fd2\<rparr>) w2))
     else (0, ?c1\<lparr>axi_fd := fd1, axil_fd := fd2\<rparr>, w2))"
    by (simp add: initFPGAContext_rtl_def Let_def i1 i2)
  show ?thesis
  proof (cases "r1 = 0")
    case False
    with init assms have "r = -1" "opn w' = opn w1 - {fd. 0 < fd \<and> (fd = fd1 \<or> fd = -1)}"
      by (auto simp: releaseFPGAContext_rtl_closes)
    with f1 show ?thesis by auto
  next
    case r1: True
    then have o1: "0 \<le> fd1" "fd1 \<notin> opn w" "opn w1 = insert fd1 (opn w)" using f1 by auto
    show ?thesis
    proof (cases "r2 = 0")
      case False
      with init assms r1
      have "r = -1" "opn w' = opn w2 - {fd. 0 < fd \<and> (fd = fd1 \<or> fd = fd2)}"
        by (auto simp: releaseFPGAContext_rtl_closes)
      with f2 o1 show ?thesis by auto
    next
      case True
      with init assms r1 f2 o1 show ?thesis by (auto simp: standard_base_def)
    qed
  qed
qed


lemma IPCServer_new_fds:
  assumes "IPCServer_new k this0 nm w = (srv, w')"
  shows "(ipc_error srv \<and> client_fd srv = client_fd this0 \<or>
      \<not> ipc_error srv \<and> client_fd srv = -1 \<and> 0 \<le> socket_fd srv) \<and>
    (socket_fd srv < 0 \<and> ipc_error srv \<and> opn w' = opn w \<or>
      0 \<le> socket_fd srv \<and> socket_fd srv \<notin> opn w \<and> opn w' = insert (socket_fd srv) (opn w))"
proof -
  obtain f w1 where f: "k_socket k w = (f, w1)" by fastforce
  obtain r2 w2 where b: "k_bind k f nm w1 = (r2, w2)" by fastforce
  obtain r3 w3 where l: "k_listen k f 1 w2 = (r3, w3)" by fastforce
  note opens = socket_opens [OF f] and keeps = bind_keeps [of f nm w1] listen_keeps [of f 1 w2]
  have res: "(srv, w') = (let this2 = this0\<lparr>ipc_name := nm, ipc_error := False, socket_fd := f\<rparr> in
      if f < 0 then (this2\<lparr>ipc_error := True\<rparr>, w1)
      else if r2 < 0 then (this2\<lparr>ipc_error := True\<rparr>, w2)
      else if r3 < 0 then (this2\<lparr>ipc_error := True\<rparr>, w3) else (this2\<lparr>client_fd := -1\<rparr>, w3))"
    using assms unfolding IPCServer_new_def f b l Let_def prod.case by (rule sym)
  have o: "opn w2 = opn w1" "opn w3 = opn w1" using keeps by (simp_all add: b l)
  show ?thesis
  proof (cases "f < 0")
    case True
    with res opens show ?thesis by simp
  next
    case False
    with opens have "0 \<le> f" "f \<notin> opn w" "opn w1 = insert f (opn w)" by auto
    with res o show ?thesis
      by (cases "r2 < 0"; cases "r3 < 0") simp_all
  qed
qed

lemma IPCServer_delete_closes:
  "opn (IPCServer_delete k this w) =
    opn w - {fd. 0 < fd \<and> (fd = socket_fd this \<or> fd = client_fd this)}"
  by (cases "socket_fd this > 0"; cases "client_fd this > 0")
    (auto simp: IPCServer_delete_def Let_def close_closes)

lemma waitForClient_fds:
  assumes "waitForClient k this w = (ok, this', w')" and "client_fd this < 0"
  shows "socket_fd this' = socket_fd this \<and>
    (ok = (\<not> ipc_error this')) \<and>
    (client_fd this' < 0 \<and> opn w' = opn w \<or>
     0 \<le> client_fd this' \<and> client_fd this' \<notin> opn w \<and> opn w' = insert (client_fd this') (opn w))"
proof -
  obtain f w1 where f: "k_accept k (socket_fd this) w = (f, w1)" by fastforce
  note opens = accept_opens [OF f]
  show ?thesis
  proof (cases "ipc_error this")
    case True
    with assms show ?thesis by (simp add: waitForClient_def)
  next
    case False
    then have res: "(ok, this', w') = (if f < 0 then (False, this\<lparr>client_fd := f, ipc_error := True\<rparr>, w1)
        else (True, this\<lparr>client_fd := f\<rparr>, w1))"
      using assms(1) by (simp add: waitForClient_def f Let_def)
    show ?thesis
    proof (cases "f < 0")
      case True
      with res opens show ?thesis by simp
    next
      case pos: False
      with opens have "0 \<le> f" "f \<notin> opn w" "opn w1 = insert f (opn w)" by auto
      with res pos False show ?thesis by simp
    qed
  qed
qed

lemma ipc_lifecycle_fds:
  assumes "IPCServer_new k this0 nm w = (s1, w1)" and "\<not> ipc_error s1"
    and "waitForClient k s1 w1 = (ok, s2, w2)"
  shows "opn (IPCServer_delete k s2 w2) = opn w \<union> {fd \<in> {socket_fd s2, client_fd s2}. fd = 0}"
  using IPCServer_new_fds [OF assms(1)] waitForClient_fds [OF assms(3)] assms(2)
  by (auto simp: IPCServer_delete_closes)

end

section \<open>An in-memory kernel\<close>

text \<open>
  Descriptors are numbers from 3 up and every call succeeds. What a descriptor has sent is its
  outbox; what it can still receive is its inbox, and an empty inbox is \<open>EAGAIN\<close>. \<open>chunk\<close>
  bounds the bytes one call moves: 0 for no bound.
\<close>

record pipes =
  fd_count :: nat
  fds :: "int set"
  outbox :: "int \<Rightarrow> u8 list"
  inbox :: "int \<Rightarrow> u8 list"

definition pipe_open :: "pipes \<Rightarrow> int \<times> pipes" where
  "pipe_open w = (let fd = 3 + int (fd_count w) in
     (fd, w\<lparr>fd_count := fd_count w + 1, fds := insert fd (fds w)\<rparr>))"

definition pipe_limit :: "nat \<Rightarrow> nat \<Rightarrow> nat" where
  "pipe_limit chunk n = (if chunk = 0 then n else min chunk n)"

definition pipe_send :: "nat \<Rightarrow> int \<Rightarrow> u8 list \<Rightarrow> pipes \<Rightarrow> send_result \<times> pipes" where
  "pipe_send chunk fd bs w =
     (let n = pipe_limit chunk (length bs) in
      (Sent n, w\<lparr>outbox := (outbox w)(fd := outbox w fd @ take n bs)\<rparr>))"

definition pipe_recv :: "nat \<Rightarrow> int \<Rightarrow> nat \<Rightarrow> pipes \<Rightarrow> recv_result \<times> pipes" where
  "pipe_recv chunk fd n w =
     (if inbox w fd = [] then (RecvError EAGAIN, w)
      else (Received (take (pipe_limit chunk n) (inbox w fd)),
            w\<lparr>inbox := (inbox w)(fd := drop (pipe_limit chunk n) (inbox w fd))\<rparr>))"

definition pipe_kernel :: "nat \<Rightarrow> pipes kernel" where
  "pipe_kernel chunk = \<lparr>k_socket = pipe_open, k_connect = (\<lambda>_ _. Pair 0), k_bind = (\<lambda>_ _. Pair 0),
     k_listen = (\<lambda>_ _. Pair 0), k_accept = (\<lambda>_. pipe_open),
     k_close = (\<lambda>fd w. (0, w\<lparr>fds := fds w - {fd}\<rparr>)),
     k_send = pipe_send chunk, k_recv = pipe_recv chunk, k_junk = (\<lambda>_. 0xCCCCCCCC)\<rparr>"

lemma pipe_kernel_sel [simp]:
  "k_send (pipe_kernel chunk) = pipe_send chunk" "k_recv (pipe_kernel chunk) = pipe_recv chunk"
  "k_socket (pipe_kernel chunk) = pipe_open" "k_junk (pipe_kernel chunk) i = 0xCCCCCCCC"
  by (simp_all add: pipe_kernel_def)

text \<open>The descriptors in use are those handed out so far.\<close>

definition pipe_fds :: "pipes \<Rightarrow> int set" where
  "pipe_fds w = {fd \<in> fds w. fd < 3 + int (fd_count w)}"

lemma pipe_open_fds:
  assumes "pipe_open w = (fd, w')"
  shows "0 \<le> fd \<and> fd \<notin> pipe_fds w \<and> pipe_fds w' = insert fd (pipe_fds w)"
  using assms by (auto simp: pipe_open_def pipe_fds_def Let_def)

interpretation pipe_fds: socket_table "pipe_kernel chunk" pipe_fds for chunk
  by unfold_locales (use pipe_open_fds in \<open>auto simp: pipe_kernel_def pipe_fds_def\<close>)

interpretation pipe_sink: live_sink "pipe_kernel chunk" fd "\<lambda>w. outbox w fd" "\<lambda>_. 0" for chunk fd
  by unfold_locales (auto simp: pipe_send_def pipe_limit_def Let_def split: if_splits)

interpretation pipe_source: live_source "pipe_kernel chunk" fd "\<lambda>w. inbox w fd" "\<lambda>_. 0" for chunk fd
  by unfold_locales (auto simp: pipe_recv_def pipe_limit_def Let_def split: if_splits)

section \<open>Properties\<close>

text \<open>
  \<open>initFPGAContext\<close> of the simulator build either succeeds, with two different open
  descriptors that were not in use before and the standard memory map, or returns -1 and
  leaves no descriptor open that was not open before, except descriptor 0 when that is what it
  was given: every failure path closes what it opened, as far as its tests for \<open>> 0\<close> let it.
\<close>

theorem init_rtl_fds:
  assumes "socket_table k opn" and "initFPGAContext_rtl k c0 w = (r, c, w')"
  shows "r = 0 \<and> 0 \<le> axi_fd c \<and> 0 \<le> axil_fd c \<and> axi_fd c \<noteq> axil_fd c \<and>
      {axi_fd c, axil_fd c} \<inter> opn w = {} \<and> opn w' = {axi_fd c, axil_fd c} \<union> opn w \<and>
      base_address c = standard_base (dram_size c) (base_address c0)
    \<or> r = -1 \<and> opn w \<subseteq> opn w' \<and> opn w' \<subseteq> insert 0 (opn w)"
  using assms by (rule socket_table.initFPGAContext_rtl_fds)

definition no_pipes :: pipes where
  "no_pipes = \<lparr>fd_count = 0, fds = {}, outbox = (\<lambda>_. []), inbox = (\<lambda>_. [])\<rparr>"

theorem init_rtl_fds_witness:
  "let c = snd (initFPGAContext_rtl (pipe_kernel 0)
         \<lparr>dram_size = 0, base_address = unset_base, axil_fd = 0, axi_fd = 0\<rparr> no_pipes) in
    fst c = \<lparr>dram_size = 0x1000000, base_address = standard_base 0x1000000 unset_base,
             axil_fd = 4, axi_fd = 3\<rparr> \<and>
    pipe_fds (snd c) = {3, 4} \<union> pipe_fds no_pipes"
proof -
  let ?before = "\<lparr>dram_size = 0, base_address = unset_base, axil_fd = 0, axi_fd = 0\<rparr>"
  let ?after = "\<lparr>dram_size = 0x1000000, base_address = standard_base 0x1000000 unset_base,
             axil_fd = 4, axi_fd = 3\<rparr>"
  have run: "initFPGAContext_rtl (pipe_kernel 0) ?before no_pipes = (0, ?after, no_pipes\<lparr>fd_count := 2, fds := {3, 4}\<rparr>)"
    by (simp add: initFPGAContext_rtl_def initIPC_def pipe_kernel_def pipe_open_def Let_def
        no_pipes_def insert_commute
        standard_base_def unset_base_def)
  from init_rtl_fds [OF pipe_fds.socket_table_axioms run] run show ?thesis
    by (simp add: Let_def)
qed

text \<open>
  C20. A server that is constructed without an error, waits for its client and is destroyed
  closes the listening socket and the connection, whether the client came or not: the table of
  open descriptors is what it was before the constructor, but for descriptor 0. The kernel may hand
  that one out when standard input is closed, the destructor tests for \<open>> 0\<close>, and it stays open
  exactly when it was one of the two. Of the kernel is assumed that \<open>socket\<close> and \<open>accept\<close>
  return a negative value or a descriptor that was not open, and \<open>close\<close> closes (\<open>socket_table\<close>).
\<close>

theorem ipc_lifecycle:
  assumes "socket_table k opn" and "IPCServer_new k this0 nm w = (s1, w1)" and "\<not> ipc_error s1"
    and "waitForClient k s1 w1 = (ok, s2, w2)"
  shows "opn (IPCServer_delete k s2 w2) = opn w \<union> {fd \<in> {socket_fd s2, client_fd s2}. fd = 0}"
  using assms by (rule socket_table.ipc_lifecycle_fds)

theorem ipc_lifecycle_witness:
  "pipe_fds (IPCServer_delete (pipe_kernel 0)
      \<lparr>ipc_name = ''axi'', socket_fd = 3, client_fd = 4, ipc_error = False\<rparr>
      \<lparr>fd_count = 2, fds = {3, 4}, outbox = (\<lambda>_. []), inbox = (\<lambda>_. [])\<rparr>) =
   pipe_fds \<lparr>fd_count = 0, fds = {}, outbox = (\<lambda>_. []), inbox = (\<lambda>_. [])\<rparr>"
proof -
  let ?s2 = "\<lparr>ipc_name = ''axi'', socket_fd = 3, client_fd = 4, ipc_error = False\<rparr>"
  have "pipe_fds (IPCServer_delete (pipe_kernel 0) ?s2
      \<lparr>fd_count = 2, fds = {3, 4}, outbox = (\<lambda>_. []), inbox = (\<lambda>_. [])\<rparr>) =
    pipe_fds \<lparr>fd_count = 0, fds = {}, outbox = (\<lambda>_. []), inbox = (\<lambda>_. [])\<rparr> \<union>
    {fd \<in> {socket_fd ?s2, client_fd ?s2}. fd = 0}"
    by (rule ipc_lifecycle [OF pipe_fds.socket_table_axioms,
          where ?this0.0 = "\<lparr>ipc_name = ''x'', socket_fd = 0, client_fd = 77, ipc_error = False\<rparr>"
            and nm = "''axi''" and ok = True
            and ?s1.0 = "\<lparr>ipc_name = ''axi'', socket_fd = 3, client_fd = -1, ipc_error = False\<rparr>"
            and ?w1.0 = "\<lparr>fd_count = 1, fds = {3}, outbox = (\<lambda>_. []), inbox = (\<lambda>_. [])\<rparr>"])
      (simp_all add: IPCServer_new_def waitForClient_def pipe_kernel_def pipe_open_def insert_commute)
  moreover have "{fd \<in> {socket_fd ?s2, client_fd ?s2}. fd = 0} = {}" by auto
  ultimately show ?thesis by (simp only: Un_empty_right)
qed

text \<open>
  The constructor's error paths leave \<open>client_fd\<close> as the storage had it, and the
  destructor does not know: when \<open>socket\<close> fails, destroying the object closes whatever
  positive number was in that storage.
\<close>

theorem ipc_error_closes_garbage:
  assumes "k_socket k w = (fd, w1)" and "fd < 0" and "0 < client_fd this0"
  shows "let (srv, w2) = IPCServer_new k this0 nm w in
    ipc_error srv \<and> IPCServer_delete k srv w2 = snd (k_close k (client_fd this0) w1)"
  using assms by (simp add: IPCServer_new_def IPCServer_delete_def Let_def)

theorem ipc_error_closes_garbage_witness:
  "let k = (pipe_kernel 0)\<lparr>k_socket := Pair (-1)\<rparr>;
       w = \<lparr>fd_count = 5, fds = {3, 4, 5, 6, 7}, outbox = (\<lambda>_. []), inbox = (\<lambda>_. [])\<rparr>;
       (srv, w2) = IPCServer_new k
         \<lparr>ipc_name = ''x'', socket_fd = 0, client_fd = 5, ipc_error = False\<rparr> ''axi'' w in
    ipc_error srv \<and> IPCServer_delete k srv w2 = snd (k_close k 5 w)"
  unfolding Let_def
  using ipc_error_closes_garbage [of "(pipe_kernel 0)\<lparr>k_socket := Pair (-1)\<rparr>"
      "\<lparr>fd_count = 5, fds = {3, 4, 5, 6, 7}, outbox = (\<lambda>_. []), inbox = (\<lambda>_. [])\<rparr>" "-1"
      "\<lparr>fd_count = 5, fds = {3, 4, 5, 6, 7}, outbox = (\<lambda>_. []), inbox = (\<lambda>_. [])\<rparr>"
      "\<lparr>ipc_name = ''x'', socket_fd = 0, client_fd = 5, ipc_error = False\<rparr>" "''axi''"]
  by (simp add: Let_def)

end
