(* ===== verification/Message_Queue.thy ===== *)
theory Message_Queue
  imports Fpga_Interface Fpga_Rtl Fpga_Aws
begin

text \<open>
  The blocking half of \<open>client/fpga_interface.c\<close>: the loops that poll a status register
  before a message is read or written, what they wait for, and when they end.
\<close>

section \<open>Polling a register\<close>

text \<open>
  \<open>polls be c a x s s'\<close>: reading register \<open>a\<close> over and over, the first time into a
  variable that holds \<open>x\<close>, leads from \<open>s\<close> to the state \<open>s'\<close> right after the first
  read that leaves the variable different from 0.
\<close>

inductive polls ::
  "('z, 's) backend \<Rightarrow> 'z FPGAContext_scheme \<Rightarrow> u32 \<Rightarrow> u32 \<Rightarrow> 's \<Rightarrow> 's \<Rightarrow> bool"
  for be :: "('z, 's) backend" and c :: "'z FPGAContext_scheme" and a :: u32 where
  ready: "readAXIL be c a x s = Some (ret, v, s') \<Longrightarrow> v \<noteq> 0 \<Longrightarrow> polls be c a x s s'"
| again: "readAXIL be c a x s = Some (ret, 0, s1) \<Longrightarrow> polls be c a 0 s1 s' \<Longrightarrow> polls be c a x s s'"

inductive_cases pollsE: "polls be c a x s s'"

lemma sendMessage_loop_sound:
  assumes "sendMessage_loop be c x s = Some s'"
  shows "polls be c (query_base c) x s s'"
proof (rule sendMessage_loop.raw_induct [OF _ assms])
  fix loop be c x s s'
  assume IH: "\<And>be c x s s'. loop be c x s = Some s' \<Longrightarrow> polls be c (query_base c) x s s'"
    and eq: "(case readAXIL be c (query_base c) x s of
        None \<Rightarrow> None
      | Some (_, res, s) \<Rightarrow> if res = 0 then loop be c res s else Some s) = Some s'"
  show "polls be c (query_base c) x s s'"
  proof (cases "readAXIL be c (query_base c) x s")
    case None
    with eq show ?thesis by simp
  next
    case (Some p)
    obtain ret v s1 where p: "p = (ret, v, s1)" by (cases p)
    with IH eq Some show ?thesis
      by (cases "v = 0") (auto intro: polls.intros)
  qed
qed

lemma sendMessage_loop_complete:
  "polls be c (query_base c) x s s' \<Longrightarrow> sendMessage_loop be c x s = Some s'"
  by (induction rule: polls.induct) (subst sendMessage_loop.simps, simp)+

lemma sendMessage_loop_iff:
  "sendMessage_loop be c x s = Some s' \<longleftrightarrow> polls be c (query_base c) x s s'"
  by (rule iffI) (rule sendMessage_loop_sound sendMessage_loop_complete, assumption)+


lemma overwrite_zeros:
  "n \<le> length raw \<Longrightarrow> n \<le> 64 \<Longrightarrow>
   overwrite (replicate 64 0) 0 (take n raw) = take n raw @ replicate (64 - n) (0 :: u8)"
  by (simp add: overwrite_def min_absorb2)

lemma polls_ends:
  fixes delay :: "'s \<Rightarrow> nat"
  assumes "\<And>x s. \<exists>ret v s'. readAXIL be c a x s = Some (ret, v, s') \<and> (v = 0 \<longrightarrow> delay s' < delay s)"
  shows "\<exists>s'. polls be c a x s s'"
proof (induction "delay s" arbitrary: x s rule: less_induct)
  case less
  from assms [of x s] obtain ret v s1 where
    s1: "readAXIL be c a x s = Some (ret, v, s1)" "v = 0 \<longrightarrow> delay s1 < delay s" by blast
  show ?case
  proof (cases "v = 0")
    case True
    with s1 less [of s1 0] show ?thesis by (blast intro: again)
  next
    case False
    with s1 show ?thesis by (blast intro: ready)
  qed
qed

lemma waitTillPending_loop_result:
  assumes "waitTillPending_loop be c pending s = Some (ret, p, s')"
  shows "(ret = 0 \<and> p \<noteq> 0 \<and> (p = pending \<and> s' = s \<or>
      (\<exists>s1. readAXIL be c (transplant_ctrl_base c) 0 s1 = Some (0, p, s')))) \<or> ret = -1"
proof -
  let ?P = "\<lambda>be c pending s res. (fst res = 0 \<and> fst (snd res) \<noteq> 0 \<and>
      (fst (snd res) = pending \<and> snd (snd res) = s \<or>
      (\<exists>s1. readAXIL be c (transplant_ctrl_base c) 0 s1 = Some (0, snd res)))) \<or> fst res = -1"
  have "?P be c pending s res" if "waitTillPending_loop be c pending s = Some res" for res
  proof (rule waitTillPending_loop.raw_induct [OF _ that])
    fix loop be c pending s res
    assume IH: "\<And>be c pending s res. loop be c pending s = Some res \<Longrightarrow> ?P be c pending s res"
      and eq: "(if pending = 0 then
        (case queryThreadState be c s of
           None \<Rightarrow> None
         | Some (ret, pending, s) \<Rightarrow>
             if ret \<noteq> 0 then Some (-1, pending, s) else loop be c pending s)
      else Some (0, pending, s)) = Some res"
    show "?P be c pending s res"
    proof (cases "pending = 0")
      case False
      with eq show ?thesis by auto
    next
      case True
      with eq obtain r v s1 where q: "readAXIL be c (transplant_ctrl_base c) 0 s = Some (r, v, s1)"
        by (cases "readAXIL be c (transplant_ctrl_base c) 0 s")
          (auto simp: queryThreadState_def transplant_pending_def)
      show ?thesis
      proof (cases "r = 0")
        case False
        with eq True q show ?thesis
          by (auto simp: queryThreadState_def transplant_pending_def)
      next
        case True
        with eq \<open>pending = 0\<close> q have "loop be c v s1 = Some res"
          by (simp add: queryThreadState_def transplant_pending_def)
        from IH [OF this] q True show ?thesis by auto
      qed
    qed
  qed
  from this [OF assms] show ?thesis by auto
qed

section \<open>Instances\<close>

definition silent_kernel :: "unit kernel" where
  "silent_kernel = \<lparr>k_socket = Pair (-1), k_connect = (\<lambda>_ _. Pair (-1)), k_bind = (\<lambda>_ _. Pair (-1)),
     k_listen = (\<lambda>_ _. Pair (-1)), k_accept = (\<lambda>_. Pair (-1)), k_close = (\<lambda>_. Pair (-1)),
     k_send = (\<lambda>_ _. Pair (SendError EPIPE)), k_recv = (\<lambda>_ _. Pair (Received [])),
     k_junk = (\<lambda>_. 0)\<rparr>"

definition closed_context :: FPGAContext_rtl where
  "closed_context = \<lparr>dram_size = 0x1000000, base_address = standard_base 0x1000000 unset_base,
     axil_fd = -1, axi_fd = -1\<rparr>"

section \<open>Properties\<close>

text \<open>
  C17. \<open>sendMessageToFPGA\<close> writes the message exactly once, to the message window, padded with
  zeros to 64 bytes, and only from a state in which a read of the queue register has just
  returned something other than 0; it returns exactly when that state is reached and the
  write returns, with the write's result.
\<close>

theorem sendMessage_iff:
  assumes "message_size \<le> length raw" and "message_size \<le> 64"
  shows "sendMessageToFPGA be c raw message_size s = Some (r, s') \<longleftrightarrow>
    (\<exists>s1. polls be c (query_base c) (-1) s s1 \<and>
      writeAXI be c (data_base c) (take message_size raw @ replicate (64 - message_size) 0) 64 s1 =
        Some (r, s'))"
  using overwrite_zeros [OF assms]
  by (auto simp: sendMessageToFPGA_def bind_eq_Some_conv sendMessage_loop_iff)

theorem sendMessage_iff_witness:
  "sendMessageToFPGA (aws_backend register_bar) example_context [1, 2, 3, 4] 4 (\<lambda>_. 1) =
    Some (0, \<lambda>_. 1)"
proof (subst sendMessage_iff)
  have "polls (aws_backend register_bar) example_context (query_base example_context) (-1)
      (\<lambda>_. 1) (\<lambda>_. 1)"
    by (rule ready [where v = 1]) simp_all
  then show "\<exists>s1. polls (aws_backend register_bar) example_context (query_base example_context) (-1)
      (\<lambda>_. 1) s1 \<and> writeAXI (aws_backend register_bar) example_context (data_base example_context)
        (take 4 [1, 2, 3, 4] @ replicate (64 - 4) 0) 64 s1 = Some (0, \<lambda>_. 1)"
    by auto
qed simp_all

text \<open>
  If every read of the queue register returns and each one that reports a full queue is
  followed by progress (a measure that decreases), and the write returns, then
  \<open>sendMessageToFPGA\<close> returns.
\<close>

theorem sendMessage_returns:
  fixes delay :: "'s \<Rightarrow> nat"
  assumes "\<And>x s. \<exists>ret v s'. readAXIL be c (query_base c) x s = Some (ret, v, s') \<and>
      (v = 0 \<longrightarrow> delay s' < delay s)"
    and "\<And>a d n s. \<exists>r s'. writeAXI be c a d n s = Some (r, s')"
  shows "\<exists>r s'. sendMessageToFPGA be c raw message_size s = Some (r, s')"
proof -
  obtain s1 where "polls be c (query_base c) (-1) s s1"
    using polls_ends [where delay = delay, OF assms(1)] by blast
  then have "sendMessage_loop be c (-1) s = Some s1" by (rule sendMessage_loop_complete)
  with assms(2) show ?thesis unfolding sendMessageToFPGA_def by simp
qed

theorem sendMessage_returns_witness:
  "\<exists>r s'. sendMessageToFPGA (aws_backend busy_bar) example_context [1, 2, 3, 4] 4 7 = Some (r, s')"
  by (rule sendMessage_returns [where delay = "\<lambda>v. v"]) simp_all

text \<open>
  C18. When \<open>transplant_waitTillPending\<close> returns 0, the set of threads it hands out is not
  empty, was read from the control register, and was written back to that register to release
  them; the only other result is -1, and then \<open>*pending_threads\<close> is
  untouched.
\<close>

theorem waitTillPending_result:
  assumes "transplant_waitTillPending be c pt s = Some (ret, p, s')"
  shows "(ret = 0 \<and> p \<noteq> 0 \<and>
      (\<exists>s1 s2 r. readAXIL be c (transplant_ctrl_base c) 0 s1 = Some (0, p, s2) \<and>
        writeAXIL be c (transplant_ctrl_base c) p s2 = Some (r, s'))) \<or>
    (ret = -1 \<and> p = pt)"
proof -
  from assms obtain r0 p0 s0 where loop: "waitTillPending_loop be c 0 s = Some (r0, p0, s0)"
    and rest: "(if r0 \<noteq> 0 then Some (r0, pt, s0)
      else do { (_, s) \<leftarrow> transplant_freePending be c p0 s0; Some (0, p0, s) }) = Some (ret, p, s')"
    unfolding transplant_waitTillPending_def by (auto simp: bind_eq_Some_conv)
  from waitTillPending_loop_result [OF loop] rest show ?thesis
    by (auto simp: transplant_freePending_def bind_eq_Some_conv) blast+
qed

theorem waitTillPending_result_witness:
  "(0 = (0 :: int) \<and> 1 \<noteq> (0 :: u32) \<and>
      (\<exists>s1 s2 r. readAXIL (aws_backend busy_bar) example_context (transplant_ctrl_base example_context) 0 s1 =
          Some (0, 1, s2) \<and>
        writeAXIL (aws_backend busy_bar) example_context (transplant_ctrl_base example_context) 1 s2 =
          Some (r, 0))) \<or> (0 = (-1 :: int) \<and> 1 = (9 :: u32))"
proof (rule waitTillPending_result)
  have "waitTillPending_loop (aws_backend busy_bar) example_context 0 2 = Some (0, 1, 0)"
    by (simp add: waitTillPending_loop.simps [where pending = 0] waitTillPending_loop.simps [where pending = 1]
        queryThreadState_def transplant_pending_def)
  then show "transplant_waitTillPending (aws_backend busy_bar) example_context 9 2 = Some (0, 1, 0)"
    by (simp add: transplant_waitTillPending_def transplant_freePending_def)
qed

text \<open>
  In the simulator build, a context whose sockets are closed makes \<open>hasMessagePending\<close>
  answer that there is a message: the failed read leaves its variable at -1. The blocking
  \<open>queryMessageFromFPGA\<close> then returns at once, with the error of its own read and the
  caller's buffer as it was, and \<open>sendMessageToFPGA\<close> takes the queue for free and reports
  success although its message went nowhere.
\<close>

theorem closed_context_messages:
  assumes "axil_fd c < 0" and "axi_fd c < 0"
  shows "hasMessagePending (rtl_backend k) c w = Some (True, w) \<and>
    queryMessageFromFPGA (rtl_backend k) c msg w = Some (-1, msg, w) \<and>
    sendMessageToFPGA (rtl_backend k) c raw n w = Some (0, w)"
proof -
  have rd: "readAXIL_rtl k c a x w = Some (-1, x, w)" for a x
    using assms(1) by (simp add: readAXIL_rtl_def)
  have has: "hasMessagePending (rtl_backend k) c w = Some (True, w)"
    by (simp add: hasMessagePending_def rtl_backend_def rd)
  then have "queryMessage_loop (rtl_backend k) c w = Some w"
    by (subst queryMessage_loop.simps) simp
  then have query: "queryMessageFromFPGA (rtl_backend k) c msg w = Some (-1, msg, w)"
    using assms(2) by (simp add: queryMessageFromFPGA_def rtl_backend_def readAXI_rtl_def)
  have "sendMessage_loop (rtl_backend k) c (-1) w = Some w"
    by (rule sendMessage_loop_complete, rule ready [where v = "-1"])
      (simp_all add: rtl_backend_def rd)
  then have "sendMessageToFPGA (rtl_backend k) c raw n w = Some (0, w)"
    using assms(2) by (simp add: sendMessageToFPGA_def rtl_backend_def writeAXI_rtl_def)
  with has query show ?thesis by blast
qed

theorem closed_context_messages_witness:
  "hasMessagePending (rtl_backend silent_kernel) closed_context () = Some (True, ()) \<and>
    queryMessageFromFPGA (rtl_backend silent_kernel) closed_context [1] () = Some (-1, [1], ()) \<and>
    sendMessageToFPGA (rtl_backend silent_kernel) closed_context [2] 1 () = Some (0, ())"
  by (rule closed_context_messages) (simp_all add: closed_context_def)

end
