(* ===== verification/Transport.thy ===== *)
theory Transport
  imports Sockets Message_Queue
begin

text \<open>
  A request from the client's accessor to the server's structure: what \<open>writeAXI\<close> and
  \<open>writeAXIL\<close> of \<open>client/fpga_rtl.c\<close> put on the socket, and what \<open>getRequestAXI\<close> and
  \<open>getRequestAXIL\<close> of \<open>server/ipc.cc\<close> make of it when it arrives in one piece and when
  it does not.
\<close>

section \<open>The client's side\<close>

definition AXI_write_request :: "'w kernel \<Rightarrow> u64 \<Rightarrow> u8 list \<Rightarrow> u64 \<Rightarrow> MemoryRequest" where
  "AXI_write_request k a data n = \<lparr>addr = a, byte_size = n, is_write = 1,
     w_data = words_of_bytes (overwrite (bytes_of_words (junk_words k)) 0 (take (unat n) data))\<rparr>"

definition AXI_read_request :: "'w kernel \<Rightarrow> u64 \<Rightarrow> u64 \<Rightarrow> MemoryRequest" where
  "AXI_read_request k a n = \<lparr>addr = a, byte_size = n, is_write = 0, w_data = junk_words k\<rparr>"

definition AXIL_request :: "u32 \<Rightarrow> u32 \<Rightarrow> u32 \<Rightarrow> MemoryRequestAXIL" where
  "AXIL_request op a data = \<lparr>axil_addr = ucast a, axil_byte_size = 4, axil_is_write = op,
     axil_w_data = data\<rparr>"

lemma length_junk_words [simp]: "length (junk_words k) = 1024"
  by (simp add: junk_words_def)

lemma AXI_write_request_data:
  assumes "unat n \<le> 4096" and "unat n \<le> length data"
  shows "length (w_data (AXI_write_request k a data n)) = 1024"
    and "take (unat n) (bytes_of_words (w_data (AXI_write_request k a data n))) = take (unat n) data"
proof -
  let ?buf = "overwrite (bytes_of_words (junk_words k)) 0 (take (unat n) data)"
  have len: "length ?buf = 4096" using assms by simp
  then show "length (w_data (AXI_write_request k a data n)) = 1024"
    by (simp add: AXI_write_request_def)
  from len show "take (unat n) (bytes_of_words (w_data (AXI_write_request k a data n))) =
      take (unat n) data"
    using assms by (simp add: AXI_write_request_def bytes_of_words_of_bytes)
      (simp add: overwrite_def min_absorb2)
qed

text \<open>
  A socket with independent directions: receiving does not change what has been sent.
\<close>

locale duplex = byte_sink +
  assumes recv_keeps_out: "k_recv k fd n w = (r, w') \<Longrightarrow> out w' = out w"
begin

lemma recvIPC_loop_keeps_out:
  assumes "recvIPC_loop k buffer fd missing c w = Some (buffer', w')"
  shows "out w' = out w"
  using assms
  by (induction rule: recvIPC_loop_induct) (auto dest: recv_keeps_out)

lemma recvIPC_keeps_out:
  "recvIPC k buffer fd n w = Some (r, buffer', w') \<Longrightarrow> out w' = out w"
  by (auto simp: recvIPC_def bind_eq_Some_conv dest: recvIPC_loop_keeps_out)

lemma writeAXI_rtl_out:
  assumes "writeAXI_rtl k c a data n w = Some (r, w')" and "axi_fd c = fd" and "0 < fd"
    and "unat n \<le> 4096" and "unat n \<le> length data"
  shows "r = 0 \<and> out w' = out w @ MemoryRequest_bytes (k_junk k 1024) (AXI_write_request k a data n)"
proof -
  have n: "\<not> n > 4096" using assms(4) by (simp add: word_less_nat_alt)
  let ?bs = "MemoryRequest_bytes (k_junk k 1024) (AXI_write_request k a data n)"
  have len: "length ?bs = sizeof_MemoryRequest"
    by (rule length_MemoryRequest_bytes, rule AXI_write_request_data(1)) (use assms in simp_all)
  from assms(1-3) n obtain r1 w1 where send: "sendIPC k ?bs fd sizeof_MemoryRequest w = Some (r1, w1)"
    and rest: "(if r1 \<noteq> 0 then Some (r1, w1) else do {
        (res, ack, w2) \<leftarrow> recvIPC k (bytes_le 4 (k_junk k 0)) fd 4 w1;
        if res \<noteq> 0 then Some (res, w2) else Some (0, w2) }) = Some (r, w')"
    by (auto simp: writeAXI_rtl_def AXI_write_request_def Let_def bind_eq_Some_conv)
  from sendIPC_out [OF send] len have out1: "r1 = 0" "out w1 = out w @ ?bs" by simp_all
  from rest out1(1) obtain r2 ack where
    recv: "recvIPC k (bytes_le 4 (k_junk k 0)) fd 4 w1 = Some (r2, ack, w')" and r: "r = r2"
    by (auto simp: bind_eq_Some_conv split: if_splits)
  from recv have "r2 = 0" by (auto simp: recvIPC_def bind_eq_Some_conv)
  with r recvIPC_keeps_out [OF recv] out1 show ?thesis by simp
qed

end

interpretation pipe_duplex: duplex "pipe_kernel chunk" fd "\<lambda>w. outbox w fd" for chunk fd
  by unfold_locales (auto simp: pipe_recv_def split: if_splits)

section \<open>The server's side\<close>

lemma getRequestAXI_one_piece:
  assumes "\<not> ipc_error this" and "length (w_data r) = 1024"
    and "k_recv k (client_fd this) sizeof_MemoryRequest w = (Received (MemoryRequest_bytes pad r), w')"
  shows "\<exists>m'. getRequestAXI k this m w = (True, this, m', w') \<and>
    srv_MemoryRequest_of m' = \<lparr>srv_addr = addr r, srv_byte_size = byte_size r,
      srv_is_write = is_write r, srv_w_data = w_data r\<rparr>"
proof -
  have "getRequestAXI k this m w = (True, this, mem_write m 0 (MemoryRequest_bytes pad r), w')"
    unfolding getRequestAXI_def
    by (rule getRequest_whole [OF assms(1) _ assms(3)])
      (simp_all add: length_MemoryRequest_bytes assms(2) sizeof_MemoryRequest_def)
  moreover have "srv_MemoryRequest_of (mem_write m 0 (MemoryRequest_bytes pad r)) =
      \<lparr>srv_addr = addr r, srv_byte_size = byte_size r, srv_is_write = is_write r, srv_w_data = w_data r\<rparr>"
    by (rule wire_AXI_agrees [OF assms(2)])
  ultimately show ?thesis by blast
qed

lemma getRequestAXIL_one_piece:
  assumes "\<not> ipc_error this"
    and "k_recv k (client_fd this) sizeof_MemoryRequestAXIL w = (Received (MemoryRequestAXIL_bytes r), w')"
  shows "\<exists>m'. getRequestAXIL k this m w = (True, this, m', w') \<and>
    srv_MemoryRequestAXIL_of m' = \<lparr>srv_axil_addr = axil_addr r, srv_axil_byte_size = axil_byte_size r,
      srv_axil_is_write = axil_is_write r, srv_axil_w_data = axil_w_data r\<rparr>"
proof -
  have "getRequestAXIL k this m w = (True, this, mem_write m 0 (MemoryRequestAXIL_bytes r), w')"
    unfolding getRequestAXIL_def
    by (rule getRequest_whole [OF assms(1) _ assms(2)])
      (simp_all add: length_MemoryRequestAXIL_bytes sizeof_MemoryRequestAXIL_def)
  then show ?thesis using wire_AXIL_agrees by blast
qed

lemma sendIPC_dead:
  assumes "\<And>bs w. ssize_of_send (fst (k_send k fd bs w)) \<le> 0" and "0 < n"
  shows "sendIPC k buffer fd n w = None"
proof (cases "sendIPC_loop k buffer fd (int n) 0 w")
  case None
  then show ?thesis by (simp add: sendIPC_def)
next
  case (Some w')
  from sendIPC_loop_dead [OF assms(1) Some] assms(2) show ?thesis by simp
qed

section \<open>Properties\<close>

text \<open>
  A \<open>writeAXI\<close> of the simulator build that returns has returned 0 and has sent one
  structure, 4120 bytes long, which the server's declaration of the structure reads as a write
  of the same size to the same address, and whose first \<open>n\<close> payload bytes are the caller's
  data. The kernel is any one whose socket takes a prefix of what it is given.
\<close>

theorem AXI_write_on_the_wire:
  assumes "duplex k (axi_fd c) out" and "writeAXI_rtl k c a data n w = Some (r, w')"
    and "0 < axi_fd c" and "unat n \<le> 4096" and "unat n \<le> length data"
  shows "r = 0 \<and> (\<exists>bs. out w' = out w @ bs \<and> length bs = sizeof_MemoryRequest \<and>
    (\<forall>m. let req = srv_MemoryRequest_of (mem_write m 0 bs) in
       srv_addr req = a \<and> srv_byte_size req = n \<and> srv_is_write req = 1 \<and>
       length (srv_w_data req) = 1024 \<and>
       take (unat n) (bytes_of_words (srv_w_data req)) = take (unat n) data))"
proof -
  let ?req = "AXI_write_request k a data n"
  note req = AXI_write_request_data [OF assms(4,5), of k a]
  from duplex.writeAXI_rtl_out [OF assms(1,2) _ assms(3-5)]
  have "r = 0" and "out w' = out w @ MemoryRequest_bytes (k_junk k 1024) ?req" by simp_all
  moreover have "length (MemoryRequest_bytes (k_junk k 1024) ?req) = sizeof_MemoryRequest"
    by (rule length_MemoryRequest_bytes [OF req(1)])
  moreover have "let rq = srv_MemoryRequest_of (mem_write m 0 (MemoryRequest_bytes (k_junk k 1024) ?req)) in
       srv_addr rq = a \<and> srv_byte_size rq = n \<and> srv_is_write rq = 1 \<and>
       length (srv_w_data rq) = 1024 \<and>
       take (unat n) (bytes_of_words (srv_w_data rq)) = take (unat n) data" for m
    using req unfolding Let_def wire_AXI_agrees [OF req(1)] by (simp add: AXI_write_request_def)
  ultimately show ?thesis by blast
qed

theorem AXI_write_on_the_wire_witness:
  "\<exists>w'. writeAXI_rtl (pipe_kernel 0) (closed_context\<lparr>axi_fd := 3\<rparr>) 0x1000 (replicate 64 7) 64
      (no_pipes\<lparr>inbox := (\<lambda>_. [0, 0, 0, 0])\<rparr>) = Some (0, w') \<and>
    length (outbox w' 3) = 4120"
proof -
  let ?w = "no_pipes\<lparr>inbox := (\<lambda>_. [0, 0, 0, 0])\<rparr>"
  let ?req = "AXI_write_request (pipe_kernel 0) 0x1000 (replicate 64 7) 64"
  let ?bs = "MemoryRequest_bytes 0xCCCCCCCC ?req"
  let ?w1 = "?w\<lparr>outbox := (outbox ?w)(3 := ?bs)\<rparr>"
  have len: "length ?bs = 4120"
    by (subst length_MemoryRequest_bytes [OF AXI_write_request_data(1)])
      (simp_all add: sizeof_MemoryRequest_def)
  have "sendIPC (pipe_kernel 0) ?bs 3 4120 ?w = Some (0, ?w1)"
    using len
    by (simp add: sendIPC_def sendIPC_loop.simps [where missing_bytes = 4120]
        sendIPC_loop.simps [where missing_bytes = 0] pipe_send_def pipe_limit_def no_pipes_def)
  moreover have "\<exists>b w2. recvIPC (pipe_kernel 0) (bytes_le 4 (0xCCCCCCCC :: u32)) 3 4 ?w1 = Some (0, b, w2)"
    by (rule pipe_source.recvIPC_returns) (simp add: no_pipes_def)
  ultimately obtain w' where w': "writeAXI_rtl (pipe_kernel 0) (closed_context\<lparr>axi_fd := 3\<rparr>) 0x1000
      (replicate 64 7) 64 ?w = Some (0, w')"
    by (auto simp: writeAXI_rtl_def AXI_write_request_def Let_def sizeof_MemoryRequest_def)
  from AXI_write_on_the_wire [OF _ w', of "\<lambda>w. outbox w 3"] pipe_duplex.duplex_axioms
  have "length (outbox w' 3) = 4120"
    by (auto simp: no_pipes_def sizeof_MemoryRequest_def)
  with w' show ?thesis by blast
qed

text \<open>
  A request structure that the server's socket delivers in two pieces is reported as read,
  but only its first piece is in the structure: every byte after the first \<open>n\<close> keeps the
  value it had before the call, because the second piece is stored at \<open>&msg[n]\<close>, \<open>n\<close>
  structures further (the code means \<open>n\<close> bytes).
\<close>

theorem fragmented_request_lost:
  assumes "\<not> ipc_error this" and "bs1 \<noteq> []" and "bs2 \<noteq> []"
    and "length bs1 + length bs2 = sizeof_MemoryRequest"
    and "k_recv k (client_fd this) sizeof_MemoryRequest w = (Received bs1, w1)"
    and "k_recv k (client_fd this) (sizeof_MemoryRequest - length bs1) w1 = (Received bs2, w2)"
  shows "\<exists>m'. getRequestAXI k this m w = (True, this, m', w2) \<and>
    (\<forall>i < length bs1. m' i = bs1 ! i) \<and>
    (\<forall>i. length bs1 \<le> i \<and> i < sizeof_MemoryRequest \<longrightarrow> m' i = m i)"
proof -
  let ?m = "mem_write (mem_write m 0 bs1) (length bs1 * sizeof_MemoryRequest) bs2"
  have "getRequestAXI k this m w = (True, this, ?m, w2)"
    unfolding getRequestAXI_def by (rule getRequest_two_fragments [OF assms])
  moreover have far: "sizeof_MemoryRequest \<le> length bs1 * sizeof_MemoryRequest"
    using assms(2) by (cases bs1) auto
  have "?m i = mem_write m 0 bs1 i" if "i < sizeof_MemoryRequest" for i
    by (rule mem_write_outside) (use less_le_trans [OF that far] in blast)
  moreover have "length bs1 \<le> sizeof_MemoryRequest" using assms(4) by simp
  ultimately show ?thesis
    by (intro exI [of _ ?m]) (simp add: mem_write_def [of m])
qed

theorem fragmented_request_lost_witness:
  "\<exists>m'. getRequestAXI (pipe_kernel 2060) \<lparr>ipc_name = ''axi'', socket_fd = 3, client_fd = 4, ipc_error = False\<rparr>
      (\<lambda>_. 0) (no_pipes\<lparr>inbox := (\<lambda>_. replicate 4120 1)\<rparr>) =
      (True, \<lparr>ipc_name = ''axi'', socket_fd = 3, client_fd = 4, ipc_error = False\<rparr>, m',
       no_pipes\<lparr>inbox := (\<lambda>_. replicate 4120 1)(4 := [])\<rparr>) \<and>
    m' 2059 = 1 \<and> m' 2060 = 0"
proof -
  let ?ipc = "\<lparr>ipc_name = ''axi'', socket_fd = 3, client_fd = 4, ipc_error = False\<rparr>"
  let ?w = "no_pipes\<lparr>inbox := (\<lambda>_. replicate 4120 1)\<rparr>"
  let ?wa = "no_pipes\<lparr>inbox := (\<lambda>_. replicate 4120 1)(4 := replicate 2060 1)\<rparr>"
  let ?wb = "no_pipes\<lparr>inbox := (\<lambda>_. replicate 4120 1)(4 := [])\<rparr>"
  have r1: "k_recv (pipe_kernel 2060) (client_fd ?ipc) sizeof_MemoryRequest ?w =
      (Received (replicate 2060 1), ?wa)"
    by (simp add: pipe_recv_def pipe_limit_def sizeof_MemoryRequest_def)
  have r2: "k_recv (pipe_kernel 2060) (client_fd ?ipc) (sizeof_MemoryRequest - length (replicate 2060 (1 :: u8))) ?wa =
      (Received (replicate 2060 1), ?wb)"
    by (simp add: pipe_recv_def pipe_limit_def sizeof_MemoryRequest_def)
  have "\<exists>m'. getRequestAXI (pipe_kernel 2060) ?ipc (\<lambda>_. 0) ?w = (True, ?ipc, m', ?wb) \<and>
    (\<forall>i < length (replicate 2060 (1 :: u8)). m' i = replicate 2060 1 ! i) \<and>
    (\<forall>i. length (replicate 2060 (1 :: u8)) \<le> i \<and> i < sizeof_MemoryRequest \<longrightarrow> m' i = 0)"
    by (rule fragmented_request_lost [OF _ _ _ _ r1 r2]) (simp_all add: sizeof_MemoryRequest_def)
  then show ?thesis by (auto simp: sizeof_MemoryRequest_def)
qed

text \<open>
  A request whose first piece has arrived and whose second has not yet (\<open>EAGAIN\<close>) is
  given up without an error, and the bytes already taken from the socket are gone: the next
  call of \<open>getRequestAXI\<close> takes what is left of this request for the start of a new one.
\<close>

theorem interrupted_request_misread:
  assumes "\<not> ipc_error this" and "bs1 \<noteq> []" and "length bs1 < sizeof_MemoryRequest"
    and "k_recv k (client_fd this) sizeof_MemoryRequest w = (Received bs1, w1)"
    and "k_recv k (client_fd this) (sizeof_MemoryRequest - length bs1) w1 = (RecvError EAGAIN, w2)"
    and "length bs2 = sizeof_MemoryRequest"
    and "k_recv k (client_fd this) sizeof_MemoryRequest w3 = (Received bs2, w4)"
  shows "\<exists>m1. getRequestAXI k this m w = (False, this, m1, w2) \<and>
    getRequestAXI k this m1 w3 = (True, this, mem_write m1 0 bs2, w4)"
  unfolding getRequestAXI_def
  using getRequest_fragment_then_again [OF assms(1-5)]
    getRequest_whole [OF assms(1) _ assms(7,6)] assms(3) by auto

theorem interrupted_request_misread_witness:
  "\<exists>m1. getRequestAXI (pipe_kernel 0) \<lparr>ipc_name = ''axi'', socket_fd = 3, client_fd = 4, ipc_error = False\<rparr>
      (\<lambda>_. 0) (no_pipes\<lparr>inbox := (\<lambda>_. replicate 20 1)\<rparr>) =
      (False, \<lparr>ipc_name = ''axi'', socket_fd = 3, client_fd = 4, ipc_error = False\<rparr>, m1,
       no_pipes\<lparr>inbox := (\<lambda>_. replicate 20 1)(4 := [])\<rparr>) \<and>
    getRequestAXI (pipe_kernel 0) \<lparr>ipc_name = ''axi'', socket_fd = 3, client_fd = 4, ipc_error = False\<rparr>
      m1 (no_pipes\<lparr>inbox := (\<lambda>_. replicate 4120 2)\<rparr>) =
      (True, \<lparr>ipc_name = ''axi'', socket_fd = 3, client_fd = 4, ipc_error = False\<rparr>,
       mem_write m1 0 (replicate 4120 2), no_pipes\<lparr>inbox := (\<lambda>_. replicate 4120 2)(4 := [])\<rparr>)"
  by (rule interrupted_request_misread [where ?bs1.0 = "replicate 20 1" and
        ?w1.0 = "no_pipes\<lparr>inbox := (\<lambda>_. replicate 20 1)(4 := [])\<rparr>"])
    (simp_all add: pipe_recv_def pipe_limit_def sizeof_MemoryRequest_def)

text \<open>
  C23. The client never learns that its socket is dead: if every \<open>send\<close> fails, no accessor of
  the simulator build returns.
\<close>

theorem dead_socket_hangs:
  assumes "\<And>fd bs w. ssize_of_send (fst (k_send k fd bs w)) \<le> 0"
    and "0 < axi_fd c" and "0 < axil_fd c" and "n \<le> 4096"
  shows "writeAXI_rtl k c a data n w = None \<and> readAXI_rtl k c a data n w = None \<and>
    writeAXIL_rtl k c b v w = None \<and> readAXIL_rtl k c b v w = None"
proof -
  have send: "sendIPC k buf fd sizeof_MemoryRequest w = None"
    "sendIPC k buf fd sizeof_MemoryRequestAXIL w = None" for buf fd
    by (rule sendIPC_dead, rule assms(1), simp add: sizeof_MemoryRequest_def sizeof_MemoryRequestAXIL_def)+
  have n: "\<not> n > 4096" using assms(4) by simp
  show ?thesis
    using assms(2,3) n
    by (simp add: writeAXI_rtl_def readAXI_rtl_def writeAXIL_rtl_def writeAXIL_request_def
        readAXIL_rtl_def send Let_def)
qed

theorem dead_socket_hangs_witness:
  "writeAXI_rtl silent_kernel (closed_context\<lparr>axi_fd := 3, axil_fd := 4\<rparr>) 0 [1] 64 () = None \<and>
   readAXI_rtl silent_kernel (closed_context\<lparr>axi_fd := 3, axil_fd := 4\<rparr>) 0 [1] 64 () = None \<and>
   writeAXIL_rtl silent_kernel (closed_context\<lparr>axi_fd := 3, axil_fd := 4\<rparr>) 0 1 () = None \<and>
   readAXIL_rtl silent_kernel (closed_context\<lparr>axi_fd := 3, axil_fd := 4\<rparr>) 0 1 () = None"
  by (rule dead_socket_hangs) (simp_all add: silent_kernel_def)

end
