(* ===== verification/Paging.thy ===== *)
theory Paging
  imports Fpga_Interface
begin

text \<open>
  Pages in the FPGA's memory (\<open>pushPageToFPGA\<close>, \<open>fetchPageFromFPGA\<close> of
  \<open>client/fpga_interface.c\<close>), over any backend whose AXI accessors behave like a memory of
  32-bit words below some limit: the contract \<open>axi_memory\<close>, for transfers of whole 64-byte
  blocks up to 4096 bytes.
\<close>

section \<open>The contract of the accessors\<close>

locale axi_memory =
  fixes be :: "('z, 's) backend" and c :: "'z FPGAContext_scheme"
    and usable :: "'s \<Rightarrow> bool" and content :: "'s \<Rightarrow> nat \<Rightarrow> u32" and limit :: u64
  assumes write_memory: "usable s \<Longrightarrow> a < limit \<Longrightarrow> unat n \<le> 4096 \<Longrightarrow> unat n mod 64 = 0 \<Longrightarrow>
      n \<noteq> 0 \<Longrightarrow> length data = unat n \<Longrightarrow>
      \<exists>s'. writeAXI be c a data n s = Some (0, s') \<and> usable s' \<and>
        content s' = mem_write (content s) (unat a div 4) (words_of_bytes data)"
    and read_memory: "usable s \<Longrightarrow> a < limit \<Longrightarrow> unat n \<le> 4096 \<Longrightarrow> unat n mod 64 = 0 \<Longrightarrow>
      n \<noteq> 0 \<Longrightarrow> length buf = unat n \<Longrightarrow>
      \<exists>s'. readAXI be c a buf n s =
          Some (0, bytes_of_words (mem_read (content s) (unat a div 4) (unat n div 4)), s') \<and>
        usable s' \<and> content s' = content s"

section \<open>Page addresses\<close>

lemma low_bits: "paddr AND (PAGE_SIZE - 1) = paddr AND 4095"
  by (simp add: PAGE_SIZE_def)

lemma align_paddr_eq: "align_paddr paddr = GET_PAGE_MASK paddr"
proof (cases "paddr AND 4095 = 0")
  case True
  have m: "(4095 :: u64) = mask 12" by (simp add: mask_numeral)
  have "GET_PAGE_MASK paddr = paddr"
  proof (rule bit_word_eqI)
    fix n assume n: "n < LENGTH(64)"
    have "bit (paddr AND mask 12) n = False" using True m by simp
    then show "bit (GET_PAGE_MASK paddr) n = bit paddr n"
      using n by (auto simp: GET_PAGE_MASK_eq bit_simps)
  qed
  with True show ?thesis unfolding align_paddr_def low_bits by simp
next
  case False
  have m: "(4095 :: u64) = mask 12" by (simp add: mask_numeral)
  have "paddr XOR (paddr AND 4095) = GET_PAGE_MASK paddr"
    unfolding m by (rule bit_word_eqI) (auto simp: GET_PAGE_MASK_eq bit_simps)
  with False show ?thesis unfolding align_paddr_def low_bits by simp
qed

definition frame_of :: "u64 \<Rightarrow> nat" where
  "frame_of paddr = unat paddr div 4096"

lemma frame_word: "unat (align_paddr paddr) div 4 = 1024 * frame_of paddr"
proof -
  have "k * 4096 div 4 = 1024 * k" for k :: nat by simp
  then show ?thesis unfolding align_paddr_eq unat_GET_PAGE_MASK frame_of_def .
qed

lemma page_words: "length page = 4096 \<Longrightarrow> bytes_of_words (words_of_bytes page) = page"
  by (simp add: bytes_of_words_of_bytes)

context axi_memory
begin

lemma pushPage_content:
  assumes "usable s" and "dram_base (base_address c) = 0" and "GET_PAGE_MASK paddr < limit"
    and "length page = 4096"
  shows "\<exists>s'. pushPageToFPGA be c paddr page s = Some (0, s') \<and> usable s' \<and>
    content s' = mem_write (content s) (1024 * frame_of paddr) (words_of_bytes page)"
  using write_memory [OF assms(1), of "align_paddr paddr" PAGE_SIZE page] assms(2-4)
  by (simp add: pushPageToFPGA_def frame_word align_paddr_eq [symmetric] PAGE_SIZE_def)

lemma fetchPage_content:
  assumes "usable s" and "dram_base (base_address c) = 0" and "GET_PAGE_MASK paddr < limit"
    and "length buf = 4096"
  shows "\<exists>s'. fetchPageFromFPGA be c paddr buf s =
      Some (0, bytes_of_words (mem_read (content s) (1024 * frame_of paddr) 1024), s') \<and>
    usable s' \<and> content s' = content s"
  using read_memory [OF assms(1), of "align_paddr paddr" PAGE_SIZE buf] assms(2-4)
  by (simp add: fetchPageFromFPGA_def frame_word align_paddr_eq [symmetric] PAGE_SIZE_def)

text \<open>A pushed page is fetched back, also after another page has been pushed elsewhere.\<close>

lemma push_push_fetch:
  assumes "usable s" and "dram_base (base_address c) = 0" and "GET_PAGE_MASK p < limit"
    and "GET_PAGE_MASK q < limit" and "frame_of p \<noteq> frame_of q"
    and "length page = 4096" and "length other = 4096" and "length buf = 4096"
  shows "\<exists>s1 s2 s3. pushPageToFPGA be c p page s = Some (0, s1) \<and>
    pushPageToFPGA be c q other s1 = Some (0, s2) \<and>
    fetchPageFromFPGA be c p buf s2 = Some (0, page, s3) \<and> usable s3"
proof -
  obtain s1 where s1: "pushPageToFPGA be c p page s = Some (0, s1)" "usable s1"
    "content s1 = mem_write (content s) (1024 * frame_of p) (words_of_bytes page)"
    using pushPage_content [OF assms(1,2,3,6)] by blast
  obtain s2 where s2: "pushPageToFPGA be c q other s1 = Some (0, s2)" "usable s2"
    "content s2 = mem_write (content s1) (1024 * frame_of q) (words_of_bytes other)"
    using pushPage_content [OF s1(2) assms(2,4,7)] by blast
  obtain s3 where s3: "fetchPageFromFPGA be c p buf s2 =
      Some (0, bytes_of_words (mem_read (content s2) (1024 * frame_of p) 1024), s3)" "usable s3"
    using fetchPage_content [OF s2(2) assms(2,3,8)] by blast
  have "mem_read (content s2) (1024 * frame_of p) 1024 = mem_read (content s1) (1024 * frame_of p) 1024"
    unfolding s2(3) by (rule mem_read_write_disjoint) (use assms(5,7) in auto)
  also have "\<dots> = words_of_bytes page"
    unfolding s1(3) by (rule mem_read_write_same) (simp add: assms(6))
  finally have "bytes_of_words (mem_read (content s2) (1024 * frame_of p) 1024) = page"
    using page_words [OF assms(6)] by simp
  with s1(1) s2(1) s3 show ?thesis by auto
qed

end

section \<open>Properties\<close>

text \<open>
  The two page functions work on whole frames: whatever the low 12 bits of the physical
  address, the transfer is of one page, to or from the address of its frame (the address with
  \<open>GET_PAGE_MASK\<close> applied), although the code clears the bits with a conditional
  exclusive or.
\<close>

theorem page_transfers_whole_frames:
  "pushPageToFPGA be c paddr page s =
     writeAXI be c (dram_base (base_address c) + GET_PAGE_MASK paddr) page 4096 s \<and>
   fetchPageFromFPGA be c paddr buf s =
     readAXI be c (dram_base (base_address c) + GET_PAGE_MASK paddr) buf 4096 s \<and>
   unat (GET_PAGE_MASK paddr) = unat paddr div 4096 * 4096"
  by (simp add: pushPageToFPGA_def fetchPageFromFPGA_def align_paddr_eq unat_GET_PAGE_MASK
      PAGE_SIZE_def)

end
