(* ===== verification/Simulator.thy ===== *)
theory Simulator
  imports Clock Transport Paging
begin

text \<open>
  Both programs together: the client of \<open>client/fpga_rtl.c\<close> on sockets whose other end is
  the simulator of \<open>server/\<close>. The server's world is the in-memory kernel; the client's world
  is the whole simulation. A \<open>recv\<close> of the client that finds nothing lets the simulation go
  through one iteration of its main loop and is then repeated by the client. Nobody interrupts the
  simulator meanwhile: \<open>closeprogram\<close> stays clear.
\<close>

section \<open>One iteration of the simulator's main loop\<close>

text \<open>The threads in the given order, each up to its next \<open>TICK\<close>.\<close>

fun run_threads ::
  "('i VARMFlexTop \<Rightarrow> 'i VARMFlexTop) \<Rightarrow> 'w kernel \<Rightarrow> nat list \<Rightarrow> ('i, 'w) sim \<Rightarrow> ('i, 'w) sim option" where
  "run_threads ev k [] \<sigma> = Some \<sigma>"
| "run_threads ev k (i # is) \<sigma> =
     (case threads \<sigma> ! i of
        Runnable l \<Rightarrow>
          do {
            (th, s) \<leftarrow> run_thread ev k l (srv \<sigma>);
            run_threads ev k is (\<sigma>\<lparr>threads := (threads \<sigma>)[i := th], srv := s\<rparr>)
          }
      | _ \<Rightarrow> None)"

text \<open>
  \<open>if (dut.tick()) break; if (closeprogram) break;\<close> The handler of \<open>SIGINT\<close> may set the flag at
  any time, so what the loop finds in it is an argument.
\<close>

definition main_iteration ::
  "('i VARMFlexTop \<Rightarrow> 'i VARMFlexTop) \<Rightarrow> 'w kernel \<Rightarrow> bool \<Rightarrow> ('i, 'w) sim \<Rightarrow> ('i, 'w) sim option" where
  "main_iteration ev k closeprogram \<sigma> =
     do {
       \<sigma>1 \<leftarrow> run_threads ev k [0..<length (threads \<sigma>)] (tick_begin ev M_Ticking \<sigma>);
       Some (\<sigma>1\<lparr>main_at := (if error_occurred (top (srv \<sigma>1)) then M_Break
         else if closeprogram then M_Break else M_Loop)\<rparr>)
     }"

lemma run_threads_chain:
  assumes "run_threads ev k is \<sigma> = Some \<sigma>'" and "\<And>i. i \<in> set is \<Longrightarrow> i < length (threads \<sigma>)"
  shows "run_chain ev k is \<sigma> \<sigma>'"
  using assms
proof (induction "is" arbitrary: \<sigma>)
  case Nil
  then show ?case by (simp add: run_chain.chain_nil)
next
  case (Cons i "is")
  from Cons.prems(1) obtain l th s where l: "threads \<sigma> ! i = Runnable l"
    "run_thread ev k l (srv \<sigma>) = Some (th, s)"
    "run_threads ev k is (\<sigma>\<lparr>threads := (threads \<sigma>)[i := th], srv := s\<rparr>) = Some \<sigma>'"
    by (auto simp: bind_eq_Some_conv split: thread.splits)
  show ?case
    by (rule run_chain.chain_cons [OF _ l(1,2)], use Cons.prems(2) in simp,
        rule Cons.IH [OF l(3)], use Cons.prems(2) in simp)
qed

text \<open>The iteration is a run of the step relation of \<open>Clock\<close>.\<close>

lemma main_iteration_reachable:
  assumes "main_iteration ev k closeprogram \<sigma> = Some \<sigma>'" and "main_at \<sigma> = M_Loop"
    and "barrier_inv \<sigma>"
  shows "reachable False ev k \<sigma> \<sigma>'"
proof -
  let ?\<sigma>0 = "tick_begin ev M_Ticking \<sigma>"
  from assms(1) obtain \<sigma>1 where r: "run_threads ev k [0..<length (threads \<sigma>)] ?\<sigma>0 = Some \<sigma>1"
    and \<sigma>': "\<sigma>' = \<sigma>1\<lparr>main_at := (if error_occurred (top (srv \<sigma>1)) then M_Break
      else if closeprogram then M_Break else M_Loop)\<rparr>"
    by (auto simp: main_iteration_def bind_eq_Some_conv)
  have len: "length (threads ?\<sigma>0) = length (threads \<sigma>)" by (simp add: tick_begin_def)
  have chain: "run_chain ev k [0..<length (threads \<sigma>)] ?\<sigma>0 \<sigma>1"
    by (rule run_threads_chain [OF r]) (simp add: len)
  have start: "sim_step False ev k \<sigma> ?\<sigma>0" by (rule sim_step.tick [OF assms(2)])
  have inv: "barrier_inv ?\<sigma>0" by (rule barrier_inv_step [OF start assms(3)])
  have reach: "reachable False ev k \<sigma> \<sigma>1"
    by (rule run_chain_reachable [OF chain]) (rule reachable.step [OF reachable.start start])
  have "main_at \<sigma>1 = main_at ?\<sigma>0"
    using chain by (induction rule: run_chain.induct) simp_all
  then have at: "main_at \<sigma>1 = M_Ticking" by (simp add: tick_begin_def)
  have "runnable_set (threads \<sigma>1) = {}"
  proof -
    have "runnable_set (threads \<sigma>1) = runnable_set (threads ?\<sigma>0) - {0..<length (threads \<sigma>)}"
      using run_chain_once [OF chain] by simp
    moreover have "runnable_set (threads ?\<sigma>0) \<subseteq> {0..<length (threads \<sigma>)}"
      by (auto simp: runnable_set_def len)
    ultimately show ?thesis by blast
  qed
  then have tick: "tick_done (top (srv \<sigma>1))"
    using tick_done_iff [OF run_chain_inv [OF chain inv]] by simp
  show ?thesis
  proof (cases "error_occurred (top (srv \<sigma>1)) \<or> closeprogram")
    case True
    then show ?thesis
      unfolding \<sigma>' using reachable.step [OF reach sim_step.tick_break [OF at tick True]] by (auto split: if_splits)
  next
    case False
    then show ?thesis
      unfolding \<sigma>' using reachable.step [OF reach sim_step.tick_end [OF at tick]] by simp
  qed
qed

section \<open>The client's kernel\<close>

text \<open>A connection has the same number at both ends.\<close>

definition cl_send :: "int \<Rightarrow> u8 list \<Rightarrow> ('i, pipes) sim \<Rightarrow> send_result \<times> ('i, pipes) sim" where
  "cl_send fd bs \<sigma> =
     (Sent (length bs), \<sigma>\<lparr>srv := (srv \<sigma>)\<lparr>os := (os (srv \<sigma>))\<lparr>inbox :=
        (inbox (os (srv \<sigma>)))(fd := inbox (os (srv \<sigma>)) fd @ bs)\<rparr>\<rparr>\<rparr>)"

definition cl_recv ::
  "('i VARMFlexTop \<Rightarrow> 'i VARMFlexTop) \<Rightarrow> int \<Rightarrow> nat \<Rightarrow> ('i, pipes) sim \<Rightarrow> recv_result \<times> ('i, pipes) sim" where
  "cl_recv ev fd n \<sigma> =
     (if outbox (os (srv \<sigma>)) fd = [] then
        (RecvError EAGAIN,
         if main_at \<sigma> = M_Loop then (case main_iteration ev (pipe_kernel 0) False \<sigma> of None \<Rightarrow> \<sigma> | Some \<sigma>' \<Rightarrow> \<sigma>')
         else \<sigma>)
      else
        (Received (take n (outbox (os (srv \<sigma>)) fd)),
         \<sigma>\<lparr>srv := (srv \<sigma>)\<lparr>os := (os (srv \<sigma>))\<lparr>outbox :=
           (outbox (os (srv \<sigma>)))(fd := drop n (outbox (os (srv \<sigma>)) fd))\<rparr>\<rparr>\<rparr>))"

definition client_kernel :: "('i VARMFlexTop \<Rightarrow> 'i VARMFlexTop) \<Rightarrow> ('i, pipes) sim kernel" where
  "client_kernel ev = \<lparr>k_socket = Pair (-1), k_connect = (\<lambda>_ _. Pair (-1)), k_bind = (\<lambda>_ _. Pair (-1)),
     k_listen = (\<lambda>_ _. Pair (-1)), k_accept = (\<lambda>_. Pair (-1)), k_close = (\<lambda>_. Pair (-1)),
     k_send = cl_send, k_recv = cl_recv ev, k_junk = (\<lambda>_. 0xCCCCCCCC)\<rparr>"

lemma client_kernel_sel [simp]:
  "k_send (client_kernel ev) = cl_send" "k_recv (client_kernel ev) = cl_recv ev"
  "k_junk (client_kernel ev) i = 0xCCCCCCCC"
  by (simp_all add: client_kernel_def)


section \<open>The server's pieces over the in-memory kernel\<close>

lemma words_of_bytes_take: "words_of_bytes (take (4 * n) bs) = take n (words_of_bytes bs)"
proof (induction bs arbitrary: n rule: words_of_bytes.induct)
  case (1 b0 b1 b2 b3 bs)
  then show ?case by (cases n) (simp_all add: take_Cons' del: word_le.simps)
qed (auto simp: take_Cons')

lemma reply_whole:
  assumes "\<not> ipc_error ipc" and "0 < n" and "n \<le> length data"
  shows "reply (pipe_kernel 0) ipc data n w =
    Some (True, ipc, w\<lparr>outbox := (outbox w)(client_fd ipc :=
      outbox w (client_fd ipc) @ bytes_of_words (take n data))\<rparr>)"
proof -
  have "take (nat (int n * 4)) (bytes_of_words data) = bytes_of_words (take n data)"
    using take_bytes_of_words [of n data] by (simp add: nat_mult_distrib mult.commute)
  then show ?thesis
    using assms
    by (simp add: reply_def reply_loop.simps [where missing_bytes = "int n * 4"]
        reply_loop.simps [where missing_bytes = 0] pipe_send_def pipe_limit_def Let_def
        reply_loop.simps [where missing_bytes = "int n * 4 - int (4 * n)"])
qed

lemma getRequestAXI_empty:
  assumes "\<not> ipc_error ipc" and "inbox w (client_fd ipc) = []"
  shows "getRequestAXI (pipe_kernel 0) ipc m w = (False, ipc, m, w)"
  unfolding getRequestAXI_def
  by (rule getRequest_again) (use assms in \<open>simp_all add: sizeof_MemoryRequest_def pipe_recv_def\<close>)

lemma getRequestAXIL_empty:
  assumes "\<not> ipc_error ipc" and "inbox w (client_fd ipc) = []"
  shows "getRequestAXIL (pipe_kernel 0) ipc m w = (False, ipc, m, w)"
  unfolding getRequestAXIL_def
  by (rule getRequest_again) (use assms in \<open>simp_all add: sizeof_MemoryRequestAXIL_def pipe_recv_def\<close>)

lemma axi_poll_empty:
  assumes "\<not> ipc_error (axi_ipc s)" and "inbox (os s) (client_fd (axi_ipc s)) = []"
  shows "axi_poll ev (pipe_kernel 0) m s = Some (X_Poll m, s)"
  by (subst axi_poll.simps) (simp add: getRequestAXI_empty assms hasPendingError_def)

lemma axil_poll_empty:
  assumes "\<not> ipc_error (axil_ipc s)" and "inbox (os s) (client_fd (axil_ipc s)) = []"
  shows "axil_poll ev (pipe_kernel 0) m s = Some (A_Poll m, s)"
  by (subst axil_poll.simps) (simp add: getRequestAXIL_empty assms hasPendingError_def)

section \<open>The DRAM bypass\<close>

text \<open>What a request in the DRAM range does to the shared objects.\<close>

definition dram_request_reply :: "MemoryRequest \<Rightarrow> 'i TopDUT \<Rightarrow> u8 list" where
  "dram_request_reply r t =
     (if is_write r \<noteq> 0 then [0, 0, 0, 0]
      else bytes_of_words (mem_read (dram t) (unat (addr r) div 4) (unat (byte_size r) div 4)))"

definition dram_request_dram :: "MemoryRequest \<Rightarrow> 'i TopDUT \<Rightarrow> nat \<Rightarrow> u32" where
  "dram_request_dram r t =
     (if is_write r \<noteq> 0
      then mem_write (dram t) (unat (addr r) div 4) (take (unat (byte_size r) div 4) (w_data r))
      else dram t)"

definition standard_mask :: "'i TopDUT \<Rightarrow> bool" where
  "standard_mask t \<longleftrightarrow> dram_addr_mask t = power2_loop (td_dram_size t) 1 - 1"

lemma bytes_of_zero: "bytes_of_words [0] = [0, 0, 0, 0]"
  by (simp add: numeral_eq_Suc)

lemma AXI_DRAM_access_whole:
  assumes "standard_mask (top s)" and "addr r < td_dram_size (top s)" and "\<not> ipc_error (axi_ipc s)"
    and "length (w_data r) = 1024" and "unat (byte_size r) \<le> 4096" and "4 \<le> unat (byte_size r)"
  shows "\<exists>s'. AXI_DRAM_access (pipe_kernel 0) \<lparr>srv_addr = addr r, srv_byte_size = byte_size r,
        srv_is_write = is_write r, srv_w_data = w_data r\<rparr> s = Some (0, s') \<and>
    dram (top s') = dram_request_dram r (top s) \<and> td_dut (top s') = td_dut (top s) \<and>
    dut_frame (top s) (top s') \<and> (error_occurred (top s') = error_occurred (top s)) \<and>
    axil_ipc s' = axil_ipc s \<and> axi_ipc s' = axi_ipc s \<and>
    os s' = (os s)\<lparr>outbox := (outbox (os s))(client_fd (axi_ipc s) :=
      outbox (os s) (client_fd (axi_ipc s)) @ dram_request_reply r (top s))\<rparr>"
proof -
  let ?n = "unat (byte_size r) div 4"
  have a: "addr r AND dram_addr_mask (top s) = addr r"
    using dram_mask_covers [OF assms(2)] assms(1) by (simp add: standard_mask_def)
  have w: "unat (BYTE_TO_WORD (addr r)) = unat (addr r) div 4"
    unfolding BYTE_TO_WORD_def by (subst unat_drop_bit_eq) (simp add: drop_bit_eq_div)
  have n: "0 < ?n" "?n \<le> 1024" using assms(5,6) by auto
  show ?thesis
  proof (cases "is_write r = 0")
    case True
    let ?data = "overwrite (w_data r) 0 (mem_read (dram (top s)) (unat (addr r) div 4) ?n)"
    have "take ?n ?data = mem_read (dram (top s)) (unat (addr r) div 4) ?n"
      using n assms(4) by (simp add: overwrite_def)
    moreover have "?n \<le> length ?data" using n assms(4) by simp
    ultimately show ?thesis
      using True n assms(3)
      by (simp add: AXI_DRAM_access_def Let_def a w axi_reply_def reply_whole
          dram_request_reply_def dram_request_dram_def w_data_touch_def dut_frame_def)
  next
    case False
    then show ?thesis
      using assms(3)
      by (simp add: AXI_DRAM_access_def Let_def a w axi_reply_def reply_whole bytes_of_zero
          dram_request_reply_def dram_request_dram_def w_data_touch_def dut_frame_def
          del: bytes_of_words_simps)
  qed
qed


lemma axi_poll_dram:
  assumes "standard_mask (top s)" and "addr r < td_dram_size (top s)" and "\<not> ipc_error (axi_ipc s)"
    and "length (w_data r) = 1024" and "unat (byte_size r) \<le> 4096"
    and "unat (byte_size r) mod 64 = 0" and "byte_size r \<noteq> 0"
    and "inbox (os s) (client_fd (axi_ipc s)) = MemoryRequest_bytes pad r"
  shows "\<exists>m' s'. axi_poll ev (pipe_kernel 0) m s = Some (X_Poll m', s') \<and>
    dram (top s') = dram_request_dram r (top s) \<and> td_dut (top s') = td_dut (top s) \<and>
    dut_frame (top s) (top s') \<and> error_occurred (top s') = error_occurred (top s) \<and>
    axil_ipc s' = axil_ipc s \<and> axi_ipc s' = axi_ipc s \<and>
    os s' = (os s)\<lparr>inbox := (inbox (os s))(client_fd (axi_ipc s) := []),
      outbox := (outbox (os s))(client_fd (axi_ipc s) :=
        outbox (os s) (client_fd (axi_ipc s)) @ dram_request_reply r (top s))\<rparr>"
proof -
  let ?fd = "client_fd (axi_ipc s)"
  let ?w1 = "(os s)\<lparr>inbox := (inbox (os s))(?fd := [])\<rparr>"
  let ?s1 = "s\<lparr>axi_ipc := axi_ipc s, os := ?w1\<rparr>"
  have len: "length (MemoryRequest_bytes pad r) = sizeof_MemoryRequest"
    by (rule length_MemoryRequest_bytes [OF assms(4)])
  then have "k_recv (pipe_kernel 0) ?fd sizeof_MemoryRequest (os s) =
      (Received (MemoryRequest_bytes pad r), ?w1)"
    using assms(8) by (auto simp: pipe_recv_def pipe_limit_def sizeof_MemoryRequest_def)
  from getRequestAXI_one_piece [OF assms(3,4) this, of m] obtain m1
    where get: "getRequestAXI (pipe_kernel 0) (axi_ipc s) m (os s) = (True, axi_ipc s, m1, ?w1)"
      and req: "srv_MemoryRequest_of m1 = \<lparr>srv_addr = addr r, srv_byte_size = byte_size r,
        srv_is_write = is_write r, srv_w_data = w_data r\<rparr>" by blast
  have size: "4 \<le> unat (byte_size r)"
  proof -
    have "unat (byte_size r) \<noteq> 0" using assms(7) by (simp add: unat_eq_zero)
    with assms(6) show ?thesis by presburger
  qed
  have pre: "standard_mask (top ?s1)" "addr r < td_dram_size (top ?s1)" "\<not> ipc_error (axi_ipc ?s1)"
    using assms(1-3) by simp_all
  from AXI_DRAM_access_whole [OF pre assms(4,5) size] obtain s2
    where acc: "AXI_DRAM_access (pipe_kernel 0) (srv_MemoryRequest_of m1) ?s1 = Some (0, s2)"
      and s2: "dram (top s2) = dram_request_dram r (top ?s1)" "td_dut (top s2) = td_dut (top ?s1)"
        "dut_frame (top ?s1) (top s2)" "error_occurred (top s2) = error_occurred (top ?s1)"
        "axil_ipc s2 = axil_ipc ?s1" "axi_ipc s2 = axi_ipc ?s1"
        "os s2 = (os ?s1)\<lparr>outbox := (outbox (os ?s1))(client_fd (axi_ipc ?s1) :=
          outbox (os ?s1) (client_fd (axi_ipc ?s1)) @ dram_request_reply r (top ?s1))\<rparr>"
    unfolding req by blast
  have "axi_poll ev (pipe_kernel 0) m s = axi_poll ev (pipe_kernel 0) m1 s2"
    using assms(2,6) acc
    by (subst axi_poll.simps) (simp add: get req isAXIDRAM_def)
  also have "\<dots> = Some (X_Poll m1, s2)"
    by (rule axi_poll_empty) (use s2(6,7) assms(3) in simp_all)
  finally have poll: "axi_poll ev (pipe_kernel 0) m s = Some (X_Poll m1, s2)" .
  show ?thesis
    by (rule exI [of _ m1], rule exI [of _ s2]) (use poll s2 in simp)
qed

section \<open>One request through the whole simulation\<close>

definition no_mastering :: "('i VARMFlexTop \<Rightarrow> 'i VARMFlexTop) \<Rightarrow> bool" where
  "no_mastering ev \<longleftrightarrow> (\<forall>d. \<not> M_AXI_ar_arvalid (ev d) \<and> \<not> M_AXI_aw_awvalid (ev d))"

text \<open>The simulator between two requests, with \<open>reqs\<close> waiting on the AXI socket.\<close>

definition sim_at_rest :: "u8 list \<Rightarrow> u8 list \<Rightarrow> ('i, pipes) sim \<Rightarrow> bool" where
  "sim_at_rest reqs replies \<sigma> \<longleftrightarrow>
     (\<exists>m1 m2. threads \<sigma> =
        [Blocked (L_Dram D_Top), Blocked (L_Axil (A_Poll m1)), Blocked (L_Axi (X_Poll m2))]) \<and>
     main_at \<sigma> = M_Loop \<and> \<not> terminating (top (srv \<sigma>)) \<and> \<not> error_occurred (top (srv \<sigma>)) \<and>
     standard_mask (top (srv \<sigma>)) \<and> \<not> ipc_error (axil_ipc (srv \<sigma>)) \<and> \<not> ipc_error (axi_ipc (srv \<sigma>)) \<and>
     client_fd (axil_ipc (srv \<sigma>)) \<noteq> client_fd (axi_ipc (srv \<sigma>)) \<and>
     inbox (os (srv \<sigma>)) (client_fd (axil_ipc (srv \<sigma>))) = [] \<and>
     inbox (os (srv \<sigma>)) (client_fd (axi_ipc (srv \<sigma>))) = reqs \<and>
     outbox (os (srv \<sigma>)) (client_fd (axi_ipc (srv \<sigma>))) = replies"

definition axi_end :: "('i, 'w) sim \<Rightarrow> int" where
  "axi_end \<sigma> = client_fd (axi_ipc (srv \<sigma>))"

lemma tick_edge_idle:
  assumes "no_mastering ev"
  shows "dram_top ev (tick_edge ev t) = (D_Top, tick_edge ev t)"
proof -
  have "\<exists>d. td_dut (tick_edge ev t) = ev d" by (auto simp: tick_edge_def Let_def)
  with assms show ?thesis by (auto simp: no_mastering_def dram_top_def dram_aw_def)
qed

abbreviation count_ready :: "('i, 'w) server \<Rightarrow> ('i, 'w) server" where
  "count_ready s \<equiv> s\<lparr>top := (top s)\<lparr>ready_thread := ready_thread (top s) + 1\<rparr>\<rparr>"

lemma main_iteration_serves:
  assumes "no_mastering ev" and "sim_at_rest (MemoryRequest_bytes pad r) [] \<sigma>"
    and "addr r < td_dram_size (top (srv \<sigma>))" and "length (w_data r) = 1024"
    and "unat (byte_size r) \<le> 4096" and "unat (byte_size r) mod 64 = 0" and "byte_size r \<noteq> 0"
  shows "\<exists>\<sigma>'. main_iteration ev (pipe_kernel 0) False \<sigma> = Some \<sigma>' \<and>
    sim_at_rest [] (dram_request_reply r (top (srv \<sigma>))) \<sigma>' \<and> axi_end \<sigma>' = axi_end \<sigma> \<and>
    dram (top (srv \<sigma>')) = dram_request_dram r (top (srv \<sigma>)) \<and>
    td_dram_size (top (srv \<sigma>')) = td_dram_size (top (srv \<sigma>))"
proof -
  from assms(2) obtain m1 m2 where ths: "threads \<sigma> =
      [Blocked (L_Dram D_Top), Blocked (L_Axil (A_Poll m1)), Blocked (L_Axi (X_Poll m2))]"
    and rest: "main_at \<sigma> = M_Loop" "\<not> terminating (top (srv \<sigma>))" "\<not> error_occurred (top (srv \<sigma>))"
      "standard_mask (top (srv \<sigma>))" "\<not> ipc_error (axil_ipc (srv \<sigma>))" "\<not> ipc_error (axi_ipc (srv \<sigma>))"
      "client_fd (axil_ipc (srv \<sigma>)) \<noteq> client_fd (axi_ipc (srv \<sigma>))"
      "inbox (os (srv \<sigma>)) (client_fd (axil_ipc (srv \<sigma>))) = []"
      "inbox (os (srv \<sigma>)) (client_fd (axi_ipc (srv \<sigma>))) = MemoryRequest_bytes pad r"
      "outbox (os (srv \<sigma>)) (client_fd (axi_ipc (srv \<sigma>))) = []"
    unfolding sim_at_rest_def by blast
  let ?k = "pipe_kernel 0"
  define s0 where "s0 = on_top (tick_edge ev) (srv \<sigma>)"
  define s1 where "s1 = count_ready s0"
  define s2 where "s2 = count_ready s1"
  have t0: "run_thread ev ?k (L_Dram D_Top) s0 = Some (Blocked (L_Dram D_Top), s1)"
    unfolding s1_def
    by (subst run_thread_eq [of ev ?k "L_Dram D_Top" s0 "L_Dram D_Top" s0])
      (simp_all add: s0_def dram_step_def tick_edge_idle [OF assms(1)] on_top_def rest(2))
  have "axil_poll ev ?k m1 s1 = Some (A_Poll m1, s1)"
    by (rule axil_poll_empty) (use rest in \<open>simp_all add: s0_def s1_def\<close>)
  then have t1: "run_thread ev ?k (L_Axil (A_Poll m1)) s1 = Some (Blocked (L_Axil (A_Poll m1)), s2)"
    unfolding s2_def
    by (subst run_thread_eq [of ev ?k "L_Axil (A_Poll m1)" s1 "L_Axil (A_Poll m1)" s1])
      (simp_all add: s0_def s1_def rest(2))
  have "\<exists>m' s'. axi_poll ev ?k m2 s2 = Some (X_Poll m', s') \<and>
    dram (top s') = dram_request_dram r (top s2) \<and> td_dut (top s') = td_dut (top s2) \<and>
    dut_frame (top s2) (top s') \<and> error_occurred (top s') = error_occurred (top s2) \<and>
    axil_ipc s' = axil_ipc s2 \<and> axi_ipc s' = axi_ipc s2 \<and>
    os s' = (os s2)\<lparr>inbox := (inbox (os s2))(client_fd (axi_ipc s2) := []),
      outbox := (outbox (os s2))(client_fd (axi_ipc s2) :=
        outbox (os s2) (client_fd (axi_ipc s2)) @ dram_request_reply r (top s2))\<rparr>"
    by (rule axi_poll_dram) (use rest assms in \<open>simp_all add: s0_def s1_def s2_def standard_mask_def\<close>)
  then obtain m' s' where poll: "axi_poll ev ?k m2 s2 = Some (X_Poll m', s')"
    and s': "dram (top s') = dram_request_dram r (top s2)" "dut_frame (top s2) (top s')"
      "error_occurred (top s') = error_occurred (top s2)"
      "axil_ipc s' = axil_ipc s2" "axi_ipc s' = axi_ipc s2"
      "os s' = (os s2)\<lparr>inbox := (inbox (os s2))(client_fd (axi_ipc s2) := []),
      outbox := (outbox (os s2))(client_fd (axi_ipc s2) :=
        outbox (os s2) (client_fd (axi_ipc s2)) @ dram_request_reply r (top s2))\<rparr>"
    by blast
  have geo: "td_dram_size (top s') = td_dram_size (top (srv \<sigma>))"
    "dram_addr_mask (top s') = dram_addr_mask (top (srv \<sigma>))" "\<not> terminating (top s')"
    "\<not> error_occurred (top s')"
    using s'(2,3) rest(2,3) by (simp_all add: dut_frame_def s0_def s1_def s2_def)
  have t2: "run_thread ev ?k (L_Axi (X_Poll m2)) s2 = Some (Blocked (L_Axi (X_Poll m')), count_ready s')"
    by (subst run_thread_eq [of ev ?k "L_Axi (X_Poll m2)" s2 "L_Axi (X_Poll m')" s'])
      (use poll geo(3) in simp_all)
  let ?\<sigma>' = "\<sigma>\<lparr>threads := [Blocked (L_Dram D_Top), Blocked (L_Axil (A_Poll m1)),
      Blocked (L_Axi (X_Poll m'))], srv := count_ready s', main_at := M_Loop\<rparr>"
  have "main_iteration ev ?k False \<sigma> = Some ?\<sigma>'"
    using geo(4)
    by (simp add: main_iteration_def ths tick_begin_def s0_def [symmetric] t0 t1 t2 upt_rec)
  moreover have "dram_request_dram r (top s2) = dram_request_dram r (top (srv \<sigma>))"
    "dram_request_reply r (top s2) = dram_request_reply r (top (srv \<sigma>))"
    by (simp_all add: dram_request_dram_def dram_request_reply_def s0_def s1_def s2_def)
  then have "sim_at_rest [] (dram_request_reply r (top (srv \<sigma>))) ?\<sigma>'" "axi_end ?\<sigma>' = axi_end \<sigma>"
    "dram (top (srv ?\<sigma>')) = dram_request_dram r (top (srv \<sigma>))"
    "td_dram_size (top (srv ?\<sigma>')) = td_dram_size (top (srv \<sigma>))"
    using rest s' geo
    by (simp_all add: sim_at_rest_def axi_end_def standard_mask_def s0_def s1_def s2_def)
  ultimately show ?thesis by blast
qed

section \<open>The client's accessors on the simulation\<close>

lemma cl_sendIPC:
  assumes "0 < n" and "length bs = n"
  shows "sendIPC (client_kernel ev) bs fd n \<sigma> = Some (0, snd (cl_send fd bs \<sigma>))"
  using assms
  by (simp add: sendIPC_def sendIPC_loop.simps [where missing_bytes = "int n"] cl_send_def
      sendIPC_loop.simps [where missing_bytes = 0] sendIPC_loop.simps [where missing_bytes = "int n - int n"])

lemma cl_send_at_rest:
  assumes "sim_at_rest [] [] \<sigma>" and "0 < n" and "length bs = n"
  shows "\<exists>\<sigma>1. sendIPC (client_kernel ev) bs (axi_end \<sigma>) n \<sigma> = Some (0, \<sigma>1) \<and>
    sim_at_rest bs [] \<sigma>1 \<and> axi_end \<sigma>1 = axi_end \<sigma> \<and> top (srv \<sigma>1) = top (srv \<sigma>)"
  using assms(1) cl_sendIPC [OF assms(2,3), of ev "axi_end \<sigma>" \<sigma>]
  by (intro exI [of _ "snd (cl_send (axi_end \<sigma>) bs \<sigma>)"])
    (simp add: sim_at_rest_def cl_send_def axi_end_def)

lemma cl_recv_reply:
  assumes "sim_at_rest [] bs \<sigma>" and "bs \<noteq> []"
  shows "cl_recv ev (axi_end \<sigma>) (length bs) \<sigma> =
      (Received bs, snd (cl_recv ev (axi_end \<sigma>) (length bs) \<sigma>)) \<and>
    sim_at_rest [] [] (snd (cl_recv ev (axi_end \<sigma>) (length bs) \<sigma>)) \<and>
    axi_end (snd (cl_recv ev (axi_end \<sigma>) (length bs) \<sigma>)) = axi_end \<sigma> \<and>
    top (srv (snd (cl_recv ev (axi_end \<sigma>) (length bs) \<sigma>))) = top (srv \<sigma>)"
  using assms by (simp add: sim_at_rest_def cl_recv_def axi_end_def)

text \<open>Waiting for the reply: one iteration of the simulator, then the reply in one piece.\<close>

lemma cl_recvIPC_served:
  assumes "no_mastering ev" and "sim_at_rest (MemoryRequest_bytes pad r) [] \<sigma>"
    and "addr r < td_dram_size (top (srv \<sigma>))" and "length (w_data r) = 1024"
    and "unat (byte_size r) \<le> 4096" and "unat (byte_size r) mod 64 = 0" and "byte_size r \<noteq> 0"
    and "n = length (dram_request_reply r (top (srv \<sigma>)))" and "0 < n"
  shows "\<exists>\<sigma>'. recvIPC (client_kernel ev) buf (axi_end \<sigma>) n \<sigma> =
      Some (0, overwrite buf 0 (dram_request_reply r (top (srv \<sigma>))), \<sigma>') \<and>
    sim_at_rest [] [] \<sigma>' \<and> axi_end \<sigma>' = axi_end \<sigma> \<and>
    dram (top (srv \<sigma>')) = dram_request_dram r (top (srv \<sigma>)) \<and>
    td_dram_size (top (srv \<sigma>')) = td_dram_size (top (srv \<sigma>))"
proof -
  let ?rep = "dram_request_reply r (top (srv \<sigma>))"
  obtain \<sigma>1 where it: "main_iteration ev (pipe_kernel 0) False \<sigma> = Some \<sigma>1"
    and \<sigma>1: "sim_at_rest [] ?rep \<sigma>1" "axi_end \<sigma>1 = axi_end \<sigma>"
      "dram (top (srv \<sigma>1)) = dram_request_dram r (top (srv \<sigma>))"
      "td_dram_size (top (srv \<sigma>1)) = td_dram_size (top (srv \<sigma>))"
    using main_iteration_serves [OF assms(1-7)] by blast
  have wait: "cl_recv ev (axi_end \<sigma>) n \<sigma> = (RecvError EAGAIN, \<sigma>1)"
    using assms(2) it by (simp add: cl_recv_def sim_at_rest_def axi_end_def)
  have rep: "?rep \<noteq> []" using assms(8,9) by auto
  obtain \<sigma>2 where got: "cl_recv ev (axi_end \<sigma>) n \<sigma>1 = (Received ?rep, \<sigma>2)" "sim_at_rest [] [] \<sigma>2"
    "axi_end \<sigma>2 = axi_end \<sigma>" "top (srv \<sigma>2) = top (srv \<sigma>1)"
    using cl_recv_reply [OF \<sigma>1(1) rep, of ev] \<sigma>1(2) assms(8) by metis
  have "recvIPC_loop (client_kernel ev) buf (axi_end \<sigma>) (int n) 0 \<sigma> =
      recvIPC_loop (client_kernel ev) buf (axi_end \<sigma>) (int n) 0 \<sigma>1"
    using assms(9) by (subst recvIPC_loop.simps) (simp add: wait)
  also have "\<dots> = recvIPC_loop (client_kernel ev) (overwrite buf 0 ?rep) (axi_end \<sigma>) 0 (int n) \<sigma>2"
    using assms(8,9) got(1) by (subst recvIPC_loop.simps) simp
  also have "\<dots> = Some (overwrite buf 0 ?rep, \<sigma>2)"
    by (subst recvIPC_loop.simps) simp
  finally have "recvIPC (client_kernel ev) buf (axi_end \<sigma>) n \<sigma> = Some (0, overwrite buf 0 ?rep, \<sigma>2)"
    by (simp add: recvIPC_def)
  with got \<sigma>1 show ?thesis by metis
qed

lemma byte_size_cases:
  assumes "unat n mod 64 = 0" and "n \<noteq> (0 :: u64)"
  shows "4 \<le> unat n" "unat n mod 4 = 0" "4 * (unat n div 4) = unat n"
proof -
  have "unat n \<noteq> 0" using assms(2) by (simp add: unat_eq_zero)
  with assms(1) show "4 \<le> unat n" "unat n mod 4 = 0" "4 * (unat n div 4) = unat n"
    by presburger+
qed

lemma sim_writeAXI:
  assumes "no_mastering ev" and "sim_at_rest [] [] \<sigma>" and "axi_fd c = axi_end \<sigma>" and "0 < axi_fd c"
    and "a < td_dram_size (top (srv \<sigma>))" and "unat n \<le> 4096" and "unat n mod 64 = 0" and "n \<noteq> 0"
    and "length data = unat n"
  shows "\<exists>\<sigma>'. writeAXI_rtl (client_kernel ev) c a data n \<sigma> = Some (0, \<sigma>') \<and>
    sim_at_rest [] [] \<sigma>' \<and> axi_end \<sigma>' = axi_end \<sigma> \<and>
    dram (top (srv \<sigma>')) = mem_write (dram (top (srv \<sigma>))) (unat a div 4) (words_of_bytes data) \<and>
    td_dram_size (top (srv \<sigma>')) = td_dram_size (top (srv \<sigma>))"
proof -
  let ?k = "client_kernel ev"
  let ?r = "AXI_write_request ?k a data n"
  let ?bs = "MemoryRequest_bytes 0xCCCCCCCC ?r"
  have data: "length (w_data ?r) = 1024"
    "take (unat n) (bytes_of_words (w_data ?r)) = data"
    using AXI_write_request_data [of n data ?k a] assms(6,9) by simp_all
  have fields: "addr ?r = a" "byte_size ?r = n" "is_write ?r = 1"
    by (simp_all add: AXI_write_request_def)
  have "words_of_bytes (take (unat n) (bytes_of_words (w_data ?r))) = take (unat n div 4) (w_data ?r)"
    using words_of_bytes_take [of "unat n div 4"] byte_size_cases(3) [OF assms(7,8)] by simp
  then have words: "take (unat n div 4) (w_data ?r) = words_of_bytes data" using data(2) by simp
  have len: "length ?bs = 4120"
    using length_MemoryRequest_bytes [OF data(1)] by (simp add: sizeof_MemoryRequest_def)
  obtain \<sigma>1 where send: "sendIPC ?k ?bs (axi_end \<sigma>) sizeof_MemoryRequest \<sigma> = Some (0, \<sigma>1)"
    and s1: "sim_at_rest ?bs [] \<sigma>1" "axi_end \<sigma>1 = axi_end \<sigma>" "top (srv \<sigma>1) = top (srv \<sigma>)"
    using cl_send_at_rest [OF assms(2) _ len, of ev] by (auto simp: sizeof_MemoryRequest_def)
  have rep: "dram_request_reply ?r t = [0, 0, 0, 0]" for t :: "'a TopDUT"
    by (simp add: dram_request_reply_def fields)
  have "\<exists>\<sigma>'. recvIPC ?k (bytes_le 4 (0xCCCCCCCC :: u32)) (axi_end \<sigma>1) 4 \<sigma>1 =
      Some (0, overwrite (bytes_le 4 (0xCCCCCCCC :: u32)) 0 (dram_request_reply ?r (top (srv \<sigma>1))), \<sigma>') \<and>
    sim_at_rest [] [] \<sigma>' \<and> axi_end \<sigma>' = axi_end \<sigma>1 \<and>
    dram (top (srv \<sigma>')) = dram_request_dram ?r (top (srv \<sigma>1)) \<and>
    td_dram_size (top (srv \<sigma>')) = td_dram_size (top (srv \<sigma>1))"
    by (rule cl_recvIPC_served [OF assms(1) s1(1)])
      (simp_all only: fields rep s1(3) assms(5-8) data(1) list.size, simp_all)
  then obtain \<sigma>' where recv: "recvIPC ?k (bytes_le 4 (0xCCCCCCCC :: u32)) (axi_end \<sigma>) 4 \<sigma>1 =
      Some (0, overwrite (bytes_le 4 (0xCCCCCCCC :: u32)) 0 [0, 0, 0, 0], \<sigma>')"
    and \<sigma>': "sim_at_rest [] [] \<sigma>'" "axi_end \<sigma>' = axi_end \<sigma>"
      "dram (top (srv \<sigma>')) = dram_request_dram ?r (top (srv \<sigma>))"
      "td_dram_size (top (srv \<sigma>')) = td_dram_size (top (srv \<sigma>))"
    unfolding rep s1(2,3) by blast
  have n: "\<not> n > 4096" using assms(6) by (simp add: word_less_nat_alt)
  have "writeAXI_rtl ?k c a data n \<sigma> = Some (0, \<sigma>')"
    using send recv assms(3,4) n by (simp add: writeAXI_rtl_def AXI_write_request_def Let_def)
  with \<sigma>' show ?thesis
    by (simp add: dram_request_dram_def fields words)
qed

lemma sim_readAXI:
  assumes "no_mastering ev" and "sim_at_rest [] [] \<sigma>" and "axi_fd c = axi_end \<sigma>" and "0 < axi_fd c"
    and "a < td_dram_size (top (srv \<sigma>))" and "unat n \<le> 4096" and "unat n mod 64 = 0" and "n \<noteq> 0"
    and "length buf = unat n"
  shows "\<exists>\<sigma>'. readAXI_rtl (client_kernel ev) c a buf n \<sigma> =
      Some (0, bytes_of_words (mem_read (dram (top (srv \<sigma>))) (unat a div 4) (unat n div 4)), \<sigma>') \<and>
    sim_at_rest [] [] \<sigma>' \<and> axi_end \<sigma>' = axi_end \<sigma> \<and>
    dram (top (srv \<sigma>')) = dram (top (srv \<sigma>)) \<and>
    td_dram_size (top (srv \<sigma>')) = td_dram_size (top (srv \<sigma>))"
proof -
  let ?k = "client_kernel ev"
  let ?r = "AXI_read_request ?k a n"
  let ?bs = "MemoryRequest_bytes 0xCCCCCCCC ?r"
  let ?rep = "bytes_of_words (mem_read (dram (top (srv \<sigma>))) (unat a div 4) (unat n div 4))"
  have fields: "addr ?r = a" "byte_size ?r = n" "is_write ?r = 0" "length (w_data ?r) = 1024"
    by (simp_all add: AXI_read_request_def)
  have len: "length ?bs = 4120"
    using length_MemoryRequest_bytes [OF fields(4)] by (simp add: sizeof_MemoryRequest_def)
  obtain \<sigma>1 where send: "sendIPC ?k ?bs (axi_end \<sigma>) sizeof_MemoryRequest \<sigma> = Some (0, \<sigma>1)"
    and s1: "sim_at_rest ?bs [] \<sigma>1" "axi_end \<sigma>1 = axi_end \<sigma>" "top (srv \<sigma>1) = top (srv \<sigma>)"
    using cl_send_at_rest [OF assms(2) _ len, of ev] by (auto simp: sizeof_MemoryRequest_def)
  note sz = byte_size_cases [OF assms(7,8)]
  have rep: "dram_request_reply ?r (top (srv \<sigma>)) = ?rep"
    by (simp add: dram_request_reply_def fields)
  have rlen: "length ?rep = unat n" using sz(3) by simp
  have rep1: "dram_request_reply ?r (top (srv \<sigma>1)) = ?rep" using rep s1(3) by simp
  have "\<exists>\<sigma>'. recvIPC ?k buf (axi_end \<sigma>1) (unat n) \<sigma>1 =
      Some (0, overwrite buf 0 (dram_request_reply ?r (top (srv \<sigma>1))), \<sigma>') \<and>
    sim_at_rest [] [] \<sigma>' \<and> axi_end \<sigma>' = axi_end \<sigma>1 \<and>
    dram (top (srv \<sigma>')) = dram_request_dram ?r (top (srv \<sigma>1)) \<and>
    td_dram_size (top (srv \<sigma>')) = td_dram_size (top (srv \<sigma>1))"
    by (rule cl_recvIPC_served [OF assms(1) s1(1)])
      (simp_all add: fields s1(3) assms(5-8) rep, use sz(1,3) in simp_all)
  then obtain \<sigma>' where recv: "recvIPC ?k buf (axi_end \<sigma>) (unat n) \<sigma>1 = Some (0, overwrite buf 0 ?rep, \<sigma>')"
    and \<sigma>': "sim_at_rest [] [] \<sigma>'" "axi_end \<sigma>' = axi_end \<sigma>"
      "dram (top (srv \<sigma>')) = dram_request_dram ?r (top (srv \<sigma>))"
      "td_dram_size (top (srv \<sigma>')) = td_dram_size (top (srv \<sigma>))"
    unfolding rep1 unfolding s1(2,3) by blast
  have n: "\<not> n > 4096" using assms(6) by (simp add: word_less_nat_alt)
  have "overwrite buf 0 ?rep = ?rep" using rlen assms(9) by simp
  then have "readAXI_rtl ?k c a buf n \<sigma> = Some (0, ?rep, \<sigma>')"
    using send recv assms(3,4) n by (simp add: readAXI_rtl_def AXI_read_request_def Let_def)
  with \<sigma>' show ?thesis by (simp add: dram_request_dram_def fields)
qed

section \<open>The simulation is a memory for the client\<close>

interpretation sim: axi_memory "rtl_backend (client_kernel ev)" c
  "\<lambda>\<sigma>. no_mastering ev \<and> sim_at_rest [] [] \<sigma> \<and> axi_fd c = axi_end \<sigma> \<and> 0 < axi_fd c \<and>
     td_dram_size (top (srv \<sigma>)) = limit"
  "\<lambda>\<sigma>. dram (top (srv \<sigma>))" limit
  for ev :: "'i VARMFlexTop \<Rightarrow> 'i VARMFlexTop" and c :: FPGAContext_rtl and limit
proof unfold_locales
  fix \<sigma> :: "('i, pipes) sim" and a n :: u64 and data :: "u8 list"
  assume "no_mastering ev \<and> sim_at_rest [] [] \<sigma> \<and> axi_fd c = axi_end \<sigma> \<and> 0 < axi_fd c \<and>
     td_dram_size (top (srv \<sigma>)) = limit"
    and "a < limit" "unat n \<le> 4096" "unat n mod 64 = 0" "n \<noteq> 0" "length data = unat n"
  then show "\<exists>\<sigma>'. writeAXI (rtl_backend (client_kernel ev)) c a data n \<sigma> = Some (0, \<sigma>') \<and>
      (no_mastering ev \<and> sim_at_rest [] [] \<sigma>' \<and> axi_fd c = axi_end \<sigma>' \<and> 0 < axi_fd c \<and>
        td_dram_size (top (srv \<sigma>')) = limit) \<and>
      dram (top (srv \<sigma>')) = mem_write (dram (top (srv \<sigma>))) (unat a div 4) (words_of_bytes data)"
    using sim_writeAXI [of ev \<sigma> c a n data] by (auto simp: rtl_backend_def)
next
  fix \<sigma> :: "('i, pipes) sim" and a n :: u64 and buf :: "u8 list"
  assume "no_mastering ev \<and> sim_at_rest [] [] \<sigma> \<and> axi_fd c = axi_end \<sigma> \<and> 0 < axi_fd c \<and>
     td_dram_size (top (srv \<sigma>)) = limit"
    and "a < limit" "unat n \<le> 4096" "unat n mod 64 = 0" "n \<noteq> 0" "length buf = unat n"
  then show "\<exists>\<sigma>'. readAXI (rtl_backend (client_kernel ev)) c a buf n \<sigma> =
        Some (0, bytes_of_words (mem_read (dram (top (srv \<sigma>))) (unat a div 4) (unat n div 4)), \<sigma>') \<and>
      (no_mastering ev \<and> sim_at_rest [] [] \<sigma>' \<and> axi_fd c = axi_end \<sigma>' \<and> 0 < axi_fd c \<and>
        td_dram_size (top (srv \<sigma>')) = limit) \<and>
      dram (top (srv \<sigma>')) = dram (top (srv \<sigma>))"
    using sim_readAXI [of ev \<sigma> c a n buf] by (auto simp: rtl_backend_def)
qed

section \<open>An instance\<close>

definition example_design :: "unit VARMFlexTop \<Rightarrow> unit VARMFlexTop" where
  "example_design d = d\<lparr>M_AXI_ar_arvalid := False, M_AXI_aw_awvalid := False\<rparr>"

definition example_sim :: "(unit, pipes) sim" where
  "example_sim = \<lparr>srv = \<lparr>top = (TopDUT_new (idle_dut ()) (\<lambda>_. 0) 0x1000000)\<lparr>n_subroutines := 3\<rparr>,
       axil_ipc = \<lparr>ipc_name = ''/dev/shm/axi_lite'', socket_fd = 3, client_fd = 5, ipc_error = False\<rparr>,
       axi_ipc = \<lparr>ipc_name = ''/dev/shm/axi'', socket_fd = 4, client_fd = 6, ipc_error = False\<rparr>,
       os = \<lparr>fd_count = 4, fds = {3, 4, 5, 6}, outbox = (\<lambda>_. []), inbox = (\<lambda>_. [])\<rparr>\<rparr>,
     threads = [Blocked (L_Dram D_Top), Blocked (L_Axil (A_Poll (\<lambda>_. 0))), Blocked (L_Axi (X_Poll (\<lambda>_. 0)))],
     main_at = M_Loop\<rparr>"

definition example_client :: FPGAContext_rtl where
  "example_client = \<lparr>dram_size = 0x1000000, base_address = standard_base 0x1000000 unset_base,
     axil_fd = 5, axi_fd = 6\<rparr>"

lemma example_sim_at_rest:
  "no_mastering example_design" "sim_at_rest [] [] example_sim"
  "axi_fd example_client = axi_end example_sim" "0 < axi_fd example_client" "0 < axi_end example_sim"
  "td_dram_size (top (srv example_sim)) = 0x1000000"
  "dram_base (base_address example_client) = 0"
  by (simp_all add: no_mastering_def example_design_def sim_at_rest_def example_sim_def
      axi_end_def example_client_def standard_mask_def standard_base_def)

section \<open>Properties\<close>

text \<open>
  C2. The whole path, client and simulator: a page the client pushes with \<open>pushPageToFPGA\<close>
  over its socket is the page it gets back with \<open>fetchPageFromFPGA\<close>, after another page has
  been pushed to another frame; every call returns, with 0. It is served by
  \<open>AXIRoutine\<close> from the DRAM array in the cycle in which the request arrives. The design does
  not start transfers of its own, the connection works, both pages lie in the DRAM, and nobody
  interrupts the simulator.
\<close>

theorem simulated_pages:
  fixes \<sigma> :: "('i, pipes) sim"
  assumes "no_mastering ev" and "sim_at_rest [] [] \<sigma>" and "axi_fd c = axi_end \<sigma>" and "0 < axi_fd c"
    and "dram_base (base_address c) = 0"
    and "GET_PAGE_MASK p < td_dram_size (top (srv \<sigma>))" and "GET_PAGE_MASK q < td_dram_size (top (srv \<sigma>))"
    and "frame_of p \<noteq> frame_of q"
    and "length page = 4096" and "length other = 4096" and "length buf = 4096"
  shows "let be = rtl_backend (client_kernel ev) in
    \<exists>\<sigma>1 \<sigma>2 \<sigma>3. pushPageToFPGA be c p page \<sigma> = Some (0, \<sigma>1) \<and>
      pushPageToFPGA be c q other \<sigma>1 = Some (0, \<sigma>2) \<and>
      fetchPageFromFPGA be c p buf \<sigma>2 = Some (0, page, \<sigma>3) \<and> sim_at_rest [] [] \<sigma>3"
  using sim.push_push_fetch [of ev \<sigma> c "td_dram_size (top (srv \<sigma>))" p q page other buf] assms
  unfolding Let_def by blast

theorem simulated_pages_witness:
  "let be = rtl_backend (client_kernel example_design) in
    \<exists>\<sigma>1 \<sigma>2 \<sigma>3. pushPageToFPGA be example_client 0x20010 (replicate 4096 7) example_sim = Some (0, \<sigma>1) \<and>
      pushPageToFPGA be example_client 0x21000 (replicate 4096 8) \<sigma>1 = Some (0, \<sigma>2) \<and>
      fetchPageFromFPGA be example_client 0x20010 (replicate 4096 0) \<sigma>2 =
        Some (0, replicate 4096 7, \<sigma>3) \<and> sim_at_rest [] [] \<sigma>3"
  by (rule simulated_pages) (simp_all add: example_sim_at_rest frame_of_def GET_PAGE_MASK_def PAGE_SIZE_def)

text \<open>
  C1. An iteration of the main loop with the threads in their order of registration is one
  of the interleavings of the threaded program: it is a run of the step relation, without
  spurious wakeups, from any state in which the counters of the barrier are consistent, and it ends
  either at the top of the loop, with the error flag and \<open>closeprogram\<close> clear, or out of it, with
  one of them set.
\<close>

theorem iteration_refines_threads:
  assumes "main_iteration ev k closeprogram \<sigma> = Some \<sigma>'" and "main_at \<sigma> = M_Loop" and "barrier_inv \<sigma>"
  shows "reachable False ev k \<sigma> \<sigma>' \<and>
    (main_at \<sigma>' = M_Loop \<and> \<not> error_occurred (top (srv \<sigma>')) \<and> \<not> closeprogram \<or>
     main_at \<sigma>' = M_Break \<and> (error_occurred (top (srv \<sigma>')) \<or> closeprogram))"
proof -
  from assms(1) obtain \<sigma>1 where "\<sigma>' = \<sigma>1\<lparr>main_at := (if error_occurred (top (srv \<sigma>1)) then M_Break
      else if closeprogram then M_Break else M_Loop)\<rparr>"
    by (auto simp: main_iteration_def bind_eq_Some_conv)
  then have "main_at \<sigma>' = M_Loop \<and> \<not> error_occurred (top (srv \<sigma>')) \<and> \<not> closeprogram \<or>
     main_at \<sigma>' = M_Break \<and> (error_occurred (top (srv \<sigma>')) \<or> closeprogram)"
    by (cases "error_occurred (top (srv \<sigma>1))"; cases closeprogram) simp_all
  with main_iteration_reachable [OF assms] show ?thesis by blast
qed

theorem iteration_refines_threads_witness:
  "\<exists>\<sigma>'. reachable False example_design (pipe_kernel 0)
      (example_sim\<lparr>srv := on_top (\<lambda>t. t\<lparr>ready_thread := 3\<rparr>) (srv example_sim)\<rparr>) \<sigma>' \<and>
    main_at \<sigma>' = M_Loop"
proof -
  let ?\<sigma> = "example_sim\<lparr>srv := on_top (\<lambda>t. t\<lparr>ready_thread := 3\<rparr>) (srv example_sim)\<rparr>"
  have inv: "barrier_inv ?\<sigma>" and at: "main_at ?\<sigma> = M_Loop"
    by (simp_all add: barrier_inv_def example_sim_def n_runnable_def)
  define s0 where "s0 = on_top (tick_edge example_design) (srv ?\<sigma>)"
  define s1 where "s1 = count_ready s0"
  define s2 where "s2 = count_ready s1"
  define s3 where "s3 = count_ready s2"
  have t0: "run_thread example_design (pipe_kernel 0) (L_Dram D_Top) s0 = Some (Blocked (L_Dram D_Top), s1)"
    unfolding s1_def
    by (subst run_thread_eq [where l' = "L_Dram D_Top" and ?s1.0 = s0])
      (simp_all add: s0_def dram_step_def tick_edge_idle example_sim_at_rest(1) on_top_def example_sim_def)
  have "axil_poll example_design (pipe_kernel 0) (\<lambda>_. 0) s1 = Some (A_Poll (\<lambda>_. 0), s1)"
    by (rule axil_poll_empty) (simp_all add: s0_def s1_def example_sim_def)
  then have t1: "run_thread example_design (pipe_kernel 0) (L_Axil (A_Poll (\<lambda>_. 0))) s1 =
      Some (Blocked (L_Axil (A_Poll (\<lambda>_. 0))), s2)"
    unfolding s2_def
    by (subst run_thread_eq [where l' = "L_Axil (A_Poll (\<lambda>_. 0))" and ?s1.0 = s1])
      (simp_all add: s0_def s1_def example_sim_def)
  have "axi_poll example_design (pipe_kernel 0) (\<lambda>_. 0) s2 = Some (X_Poll (\<lambda>_. 0), s2)"
    by (rule axi_poll_empty) (simp_all add: s0_def s1_def s2_def example_sim_def)
  then have t2: "run_thread example_design (pipe_kernel 0) (L_Axi (X_Poll (\<lambda>_. 0))) s2 =
      Some (Blocked (L_Axi (X_Poll (\<lambda>_. 0))), s3)"
    unfolding s3_def
    by (subst run_thread_eq [where l' = "L_Axi (X_Poll (\<lambda>_. 0))" and ?s1.0 = s2])
      (simp_all add: s0_def s1_def s2_def example_sim_def)
  have "main_iteration example_design (pipe_kernel 0) False ?\<sigma> =
      Some (?\<sigma>\<lparr>threads := [Blocked (L_Dram D_Top), Blocked (L_Axil (A_Poll (\<lambda>_. 0))),
        Blocked (L_Axi (X_Poll (\<lambda>_. 0)))], srv := s3, main_at := M_Loop\<rparr>)"
    using t0 t1 t2
    by (simp add: main_iteration_def tick_begin_def upt_rec example_sim_def s0_def [unfolded example_sim_def]
        s1_def s2_def s3_def)
  from iteration_refines_threads [OF this at inv] show ?thesis
    by (intro exI) auto
qed

end
