(* ===== verification/Host_Protocol.thy ===== *)
theory Host_Protocol
  imports Simulator
begin

text \<open>
  The host side of the design's slave ports, \<open>AXILRoutine\<close> and \<open>AXIRoutine\<close> of
  \<open>server/subroutine.cc\<close>: which handshake signals are up at which \<open>TICK\<close>, with which
  address and data, over any \<open>eval\<close> that leaves the ports the routine drives alone and any
  environment that does.
\<close>

section \<open>Invariants over several runs\<close>

lemma runs_invariant:
  assumes "runs resume es l s = Some (l', s')" and "I l s"
    and "\<And>l s l' s'. I l s \<Longrightarrow> resume l s = Some (l', s') \<Longrightarrow> I l' s'"
    and "\<And>e l s. e \<in> set es \<Longrightarrow> I l s \<Longrightarrow> I l (e s)"
  shows "I l' s'"
  using assms(1,2,4)
proof (induction es arbitrary: l s)
  case Nil
  then show ?case by simp
next
  case (Cons e es)
  from Cons.prems(1) obtain l1 s1 where step: "resume l (e s) = Some (l1, s1)"
    and rest: "runs resume es l1 s1 = Some (l', s')"
    by (auto split: option.splits)
  from Cons.prems have "I l (e s)" by simp
  then have "I l1 s1" using step by (rule assms(3))
  from Cons.IH [OF rest this] Cons.prems(3) show ?case by simp
qed

section \<open>The AXI-Lite port\<close>

definition s_axil_inputs where
  "s_axil_inputs d = ((S_AXIL_aw_awvalid d, S_AXIL_w_wvalid d, S_AXIL_b_bready d, S_AXIL_ar_arvalid d,
     S_AXIL_r_rready d), S_AXIL_aw_awaddr d, S_AXIL_w_wdata d, S_AXIL_w_wstrb d, S_AXIL_ar_araddr d)"

definition keeps_s_axil :: "('i VARMFlexTop \<Rightarrow> 'i VARMFlexTop) \<Rightarrow> bool" where
  "keeps_s_axil ev \<longleftrightarrow> (\<forall>d. s_axil_inputs (ev d) = s_axil_inputs d)"

lemma keeps_s_axilD:
  assumes "keeps_s_axil ev"
  shows "S_AXIL_aw_awvalid (ev d) = S_AXIL_aw_awvalid d" "S_AXIL_w_wvalid (ev d) = S_AXIL_w_wvalid d"
    "S_AXIL_b_bready (ev d) = S_AXIL_b_bready d" "S_AXIL_ar_arvalid (ev d) = S_AXIL_ar_arvalid d"
    "S_AXIL_r_rready (ev d) = S_AXIL_r_rready d" "S_AXIL_aw_awaddr (ev d) = S_AXIL_aw_awaddr d"
    "S_AXIL_w_wdata (ev d) = S_AXIL_w_wdata d" "S_AXIL_w_wstrb (ev d) = S_AXIL_w_wstrb d"
    "S_AXIL_ar_araddr (ev d) = S_AXIL_ar_araddr d"
  using assms by (simp_all add: keeps_s_axil_def s_axil_inputs_def)

text \<open>\<open>(awvalid, wvalid, bready, arvalid, rready)\<close>\<close>

definition s_axil_handshake :: "'i VARMFlexTop \<Rightarrow> bool \<times> bool \<times> bool \<times> bool \<times> bool" where
  "s_axil_handshake d = (S_AXIL_aw_awvalid d, S_AXIL_w_wvalid d, S_AXIL_b_bready d,
     S_AXIL_ar_arvalid d, S_AXIL_r_rready d)"

fun axil_expected :: "axil_label \<Rightarrow> bool \<times> bool \<times> bool \<times> bool \<times> bool" where
  "axil_expected (A_AwWait m) = (True, False, False, False, False)"
| "axil_expected (A_AwTick m) = (True, False, False, False, False)"
| "axil_expected (A_WWait m) = (False, True, False, False, False)"
| "axil_expected (A_WTick m) = (False, True, False, False, False)"
| "axil_expected (A_BWait m) = (False, False, True, False, False)"
| "axil_expected (A_BTick m) = (False, False, True, False, False)"
| "axil_expected (A_ArWait m) = (False, False, False, True, False)"
| "axil_expected (A_ArTick m) = (False, False, False, True, False)"
| "axil_expected (A_RWait m) = (False, False, False, False, True)"
| "axil_expected (A_RTick m v) = (False, False, False, False, True)"
| "axil_expected _ = (False, False, False, False, False)"

text \<open>What goes with a valid signal, and what the request must have been to get there.\<close>

fun axil_payload :: "axil_label \<Rightarrow> 'i VARMFlexTop \<Rightarrow> bool" where
  "axil_payload (A_AwWait m) d \<longleftrightarrow>
     S_AXIL_aw_awaddr d = ucast (srv_axil_addr (srv_MemoryRequestAXIL_of m))"
| "axil_payload (A_AwTick m) d \<longleftrightarrow>
     S_AXIL_aw_awaddr d = ucast (srv_axil_addr (srv_MemoryRequestAXIL_of m))"
| "axil_payload (A_WWait m) d \<longleftrightarrow>
     S_AXIL_w_wdata d = srv_axil_w_data (srv_MemoryRequestAXIL_of m) \<and> S_AXIL_w_wstrb d = 0xF"
| "axil_payload (A_WTick m) d \<longleftrightarrow>
     S_AXIL_w_wdata d = srv_axil_w_data (srv_MemoryRequestAXIL_of m) \<and> S_AXIL_w_wstrb d = 0xF"
| "axil_payload (A_ArWait m) d \<longleftrightarrow>
     S_AXIL_ar_araddr d = ucast (srv_axil_addr (srv_MemoryRequestAXIL_of m))"
| "axil_payload (A_ArTick m) d \<longleftrightarrow>
     S_AXIL_ar_araddr d = ucast (srv_axil_addr (srv_MemoryRequestAXIL_of m))"
| "axil_payload _ d \<longleftrightarrow> True"

definition axil_ports_ok :: "axil_label \<Rightarrow> ('i, 'w) server \<Rightarrow> bool" where
  "axil_ports_ok l s \<longleftrightarrow> s_axil_handshake (ports s) = axil_expected l \<and> axil_payload l (ports s)"

lemma ports_frame [simp]:
  "ports (s\<lparr>axil_ipc := i, os := w\<rparr>) = ports s" "ports (s\<lparr>axi_ipc := i, os := w\<rparr>) = ports s"
  "ports (on_top reportError s) = ports s"
  by (simp_all add: ports_def)

definition axil_quiet :: "('i, 'w) server \<Rightarrow> bool" where
  "axil_quiet s \<longleftrightarrow> s_axil_handshake (ports s) = (False, False, False, False, False)"

lemma axil_quiet_frame [simp]:
  "axil_quiet (s\<lparr>axil_ipc := i, os := w\<rparr>) = axil_quiet s" "axil_quiet (on_top reportError s) = axil_quiet s"
  by (simp_all add: axil_quiet_def)

lemma axil_transaction_ports:
  assumes "keeps_s_axil ev" and "axil_quiet s"
  shows "axil_ports_ok (fst (axil_transaction ev m s)) (snd (axil_transaction ev m s))"
  using assms(2)
  by (simp add: axil_code Let_def axil_ports_ok_def axil_quiet_def s_axil_handshake_def
      keeps_s_axilD [OF assms(1)])

lemma axil_poll_ports:
  assumes "keeps_s_axil ev" and "axil_poll ev k m s = Some (l', s')" and "axil_quiet s"
  shows "axil_ports_ok l' s'"
proof -
  have "ev' = ev \<longrightarrow> axil_quiet s \<longrightarrow> axil_ports_ok (fst r) (snd r)" if "axil_poll ev' k m s = Some r" for r ev'
  proof (rule axil_poll.raw_induct [OF _ that])
    fix poll and ev' :: "'a VARMFlexTop \<Rightarrow> 'a VARMFlexTop" and k :: "'b kernel" and m s r
    assume IH: "\<And>ev' k m s r. poll ev' k m s = Some r \<Longrightarrow>
        ev' = ev \<longrightarrow> axil_quiet s \<longrightarrow> axil_ports_ok (fst r) (snd r)"
      and eq: "(case getRequestAXIL k (axil_ipc s) m (os s) of (got, ipc, m1, w) \<Rightarrow>
        if \<not> got then
          (if hasPendingError ipc then Some (axil_fail m1 (s\<lparr>axil_ipc := ipc, os := w\<rparr>))
           else Some (A_Poll m1, s\<lparr>axil_ipc := ipc, os := w\<rparr>))
        else if srv_axil_is_write (srv_MemoryRequestAXIL_of m1) = 0xDEED then
          (if 0 < unat (srv_axil_w_data (srv_MemoryRequestAXIL_of m1))
           then Some (A_Magic m1 0, s\<lparr>axil_ipc := ipc, os := w\<rparr>)
           else case axil_reply k 0 (s\<lparr>axil_ipc := ipc, os := w\<rparr>) of
               None \<Rightarrow> None
             | Some (ok, s2) \<Rightarrow> if ok then poll ev' k m1 s2 else Some (axil_fail m1 s2))
        else Some (axil_transaction ev' m1 (s\<lparr>axil_ipc := ipc, os := w\<rparr>))) = Some r"
    show "ev' = ev \<longrightarrow> axil_quiet s \<longrightarrow> axil_ports_ok (fst r) (snd r)"
    proof (intro impI)
      assume ev: "ev' = ev" and quiet: "axil_quiet s"
      obtain got ipc m1 w where get: "getRequestAXIL k (axil_ipc s) m (os s) = (got, ipc, m1, w)"
        by (cases "getRequestAXIL k (axil_ipc s) m (os s)")
      let ?s1 = "s\<lparr>axil_ipc := ipc, os := w\<rparr>"
      have q2: "axil_quiet s2" if "axil_reply k 0 ?s1 = Some (ok, s2)" for ok s2
        using axil_reply_top [OF that] quiet by (simp add: axil_quiet_def ports_def)
      have tr: "axil_ports_ok (fst (axil_transaction ev m1 ?s1)) (snd (axil_transaction ev m1 ?s1))"
        by (rule axil_transaction_ports [OF assms(1)]) (simp add: quiet)
      show "axil_ports_ok (fst r) (snd r)"
        using eq tr ev quiet
        by (auto simp: get axil_fail_def axil_ports_ok_def axil_quiet_def split: if_splits option.splits
            dest!: IH q2)
    qed
  qed
  from this [OF assms(2)] assms(3) show ?thesis by simp
qed

lemma axil_finish_ports:
  assumes "keeps_s_axil ev" and "axil_finish ev k m v s = Some (l', s')" and "axil_quiet s"
  shows "axil_ports_ok l' s'"
proof -
  from assms(2) obtain ok s1 where rep: "axil_reply k v s = Some (ok, s1)"
    and rest: "(if ok then axil_poll ev k m s1 else Some (axil_fail m s1)) = Some (l', s')"
    by (auto simp: axil_finish_def bind_eq_Some_conv)
  have q: "axil_quiet s1" using axil_reply_top [OF rep] assms(3) by (simp add: axil_quiet_def ports_def)
  show ?thesis
  proof (cases ok)
    case True
    with rest axil_poll_ports [OF assms(1) _ q] show ?thesis by simp
  next
    case False
    with rest q show ?thesis by (auto simp: axil_fail_def axil_ports_ok_def axil_quiet_def)
  qed
qed

lemma axil_resume_ports:
  assumes "keeps_s_axil ev" and "axil_ports_ok l s" and "axil_resume ev k l s = Some (l', s')"
  shows "axil_ports_ok l' s'"
proof (cases l)
  case (A_Poll m)
  with assms(2,3) have "axil_poll ev k m s = Some (l', s')" "axil_quiet s"
    by (simp_all add: axil_ports_ok_def axil_quiet_def)
  then show ?thesis by (rule axil_poll_ports [OF assms(1)])
next
  case (A_Magic m c)
  with assms(2) have q: "axil_quiet s" by (simp add: axil_ports_ok_def axil_quiet_def)
  show ?thesis
  proof (cases "Suc c < unat (srv_axil_w_data (srv_MemoryRequestAXIL_of m))")
    case True
    with A_Magic assms(3) q show ?thesis by (auto simp: axil_ports_ok_def axil_quiet_def)
  next
    case False
    with A_Magic assms(3) have "axil_finish ev k m 0 s = Some (l', s')" by simp
    then show ?thesis using q by (rule axil_finish_ports [OF assms(1)])
  qed
next
  case (A_BTick m)
  with assms(3) have "axil_finish ev k m 0 (drive ev (\<lambda>d. d\<lparr>S_AXIL_b_bready := False\<rparr>) s) = Some (l', s')"
    by simp
  from axil_finish_ports [OF assms(1) this] A_BTick assms(2) show ?thesis
    by (simp add: axil_ports_ok_def axil_quiet_def s_axil_handshake_def keeps_s_axilD [OF assms(1)])
next
  case (A_RTick m v)
  with assms(3) have "axil_finish ev k m v (drive ev (\<lambda>d. d\<lparr>S_AXIL_r_rready := False\<rparr>) s) = Some (l', s')"
    by simp
  from axil_finish_ports [OF assms(1) this] A_RTick assms(2) show ?thesis
    by (simp add: axil_ports_ok_def axil_quiet_def s_axil_handshake_def keeps_s_axilD [OF assms(1)])
qed (use assms(2,3) in \<open>auto simp: axil_ports_ok_def axil_code s_axil_handshake_def
  keeps_s_axilD [OF assms(1)] split: if_splits\<close>)

section \<open>The AXI port\<close>

definition s_axi_inputs where
  "s_axi_inputs d = ((S_AXI_aw_awvalid d, S_AXI_w_wvalid d, S_AXI_b_bready d, S_AXI_ar_arvalid d,
     S_AXI_r_rready d), (S_AXI_aw_awaddr d, S_AXI_aw_awlen d), (S_AXI_w_wdata d, S_AXI_w_wlast d),
     (S_AXI_ar_araddr d, S_AXI_ar_arlen d))"

definition keeps_s_axi :: "('i VARMFlexTop \<Rightarrow> 'i VARMFlexTop) \<Rightarrow> bool" where
  "keeps_s_axi ev \<longleftrightarrow> (\<forall>d. s_axi_inputs (ev d) = s_axi_inputs d)"

lemma keeps_s_axiD:
  assumes "keeps_s_axi ev"
  shows "S_AXI_aw_awvalid (ev d) = S_AXI_aw_awvalid d" "S_AXI_w_wvalid (ev d) = S_AXI_w_wvalid d"
    "S_AXI_b_bready (ev d) = S_AXI_b_bready d" "S_AXI_ar_arvalid (ev d) = S_AXI_ar_arvalid d"
    "S_AXI_r_rready (ev d) = S_AXI_r_rready d" "S_AXI_aw_awaddr (ev d) = S_AXI_aw_awaddr d"
    "S_AXI_aw_awlen (ev d) = S_AXI_aw_awlen d" "S_AXI_w_wdata (ev d) = S_AXI_w_wdata d"
    "S_AXI_w_wlast (ev d) = S_AXI_w_wlast d" "S_AXI_ar_araddr (ev d) = S_AXI_ar_araddr d"
    "S_AXI_ar_arlen (ev d) = S_AXI_ar_arlen d"
  using assms by (simp_all add: keeps_s_axi_def s_axi_inputs_def)

definition s_axi_handshake :: "'i VARMFlexTop \<Rightarrow> bool \<times> bool \<times> bool \<times> bool \<times> bool" where
  "s_axi_handshake d = (S_AXI_aw_awvalid d, S_AXI_w_wvalid d, S_AXI_b_bready d,
     S_AXI_ar_arvalid d, S_AXI_r_rready d)"

fun axi_expected :: "axi_label \<Rightarrow> bool \<times> bool \<times> bool \<times> bool \<times> bool" where
  "axi_expected (X_AwWait m) = (True, False, False, False, False)"
| "axi_expected (X_AwTick m) = (True, False, False, False, False)"
| "axi_expected (X_WWait m j) = (False, True, False, False, False)"
| "axi_expected (X_WTick m j) = (False, True, False, False, False)"
| "axi_expected (X_BWait m) = (False, False, True, False, False)"
| "axi_expected (X_BTick m) = (False, False, True, False, False)"
| "axi_expected (X_ArWait m) = (False, False, False, True, False)"
| "axi_expected (X_ArTick m) = (False, False, False, True, False)"
| "axi_expected (X_RWait m j) = (False, False, False, False, True)"
| "axi_expected (X_RTick m j) = (False, False, False, False, True)"
| "axi_expected _ = (False, False, False, False, False)"

text \<open>The block a write burst offers, and the last one marked.\<close>

definition write_block :: "(nat \<Rightarrow> u8) \<Rightarrow> nat \<Rightarrow> u32 list" where
  "write_block m j = take WORDS_PER_BLOCK (drop (j * WORDS_PER_BLOCK) (srv_w_data (srv_MemoryRequest_of m)))"

fun axi_payload :: "axi_label \<Rightarrow> 'i VARMFlexTop \<Rightarrow> bool" where
  "axi_payload (X_WWait m j) d \<longleftrightarrow>
     j < axi_blocks m \<and> S_AXI_w_wdata d = write_block m j \<and> S_AXI_w_wlast d = (j = axi_blocks m - 1)"
| "axi_payload (X_WTick m j) d \<longleftrightarrow>
     j < axi_blocks m \<and> S_AXI_w_wdata d = write_block m j \<and> S_AXI_w_wlast d = (j = axi_blocks m - 1)"
| "axi_payload (X_AwWait m) d \<longleftrightarrow> S_AXI_aw_awlen d = axi_burst_len m"
| "axi_payload (X_AwTick m) d \<longleftrightarrow> S_AXI_aw_awlen d = axi_burst_len m"
| "axi_payload (X_ArWait m) d \<longleftrightarrow> S_AXI_ar_arlen d = axi_burst_len m"
| "axi_payload (X_ArTick m) d \<longleftrightarrow> S_AXI_ar_arlen d = axi_burst_len m"
| "axi_payload _ d \<longleftrightarrow> True"

definition axi_quiet :: "('i, 'w) server \<Rightarrow> bool" where
  "axi_quiet s \<longleftrightarrow> s_axi_handshake (ports s) = (False, False, False, False, False)"

text \<open>After a failed last-block check the thread is done, with \<open>rready\<close> left up.\<close>

definition axi_ports_ok :: "axi_label \<Rightarrow> ('i, 'w) server \<Rightarrow> bool" where
  "axi_ports_ok l s \<longleftrightarrow>
     s_axi_handshake (ports s) = axi_expected l \<and> axi_payload l (ports s) \<or>
     l = X_Join \<and> s_axi_handshake (ports s) = (False, False, False, False, True)"

lemma axi_ports_ok_simps:
  "l \<noteq> X_Join \<Longrightarrow>
    axi_ports_ok l s \<longleftrightarrow> s_axi_handshake (ports s) = axi_expected l \<and> axi_payload l (ports s)"
  "axi_ports_ok X_Join s \<longleftrightarrow> axi_quiet s \<or> s_axi_handshake (ports s) = (False, False, False, False, True)"
  by (auto simp: axi_ports_ok_def axi_quiet_def)

lemma axi_quiet_frame [simp]:
  "axi_quiet (s\<lparr>axi_ipc := i, os := w\<rparr>) = axi_quiet s" "axi_quiet (on_top reportError s) = axi_quiet s"
  by (simp_all add: axi_quiet_def)

lemma w_data_touch_dut [simp]: "td_dut (w_data_touch n t) = td_dut t"
  by (simp add: w_data_touch_def)

lemma axi_reply_ports: "axi_reply k data n s = Some (ok, s') \<Longrightarrow> ports s' = ports s"
  using axi_reply_top by (fastforce simp: ports_def)

lemma dram_updates_dut [simp]:
  "td_dut (dram_store a ws t) = td_dut t" "td_dut (dram_touch a n t) = td_dut t"
  by (simp_all add: dram_store_def dram_touch_def)

lemma axi_access_ports:
  assumes "do {
      (ok, s2) \<leftarrow> axi_reply k data n (on_top f s);
      if \<not> ok then Some (-1, on_top reportError s2) else Some (0, s2)
    } = Some (res :: int, s')" and "\<And>t. td_dut (f t) = td_dut t"
  shows "ports s' = ports s"
proof -
  from assms(1) obtain ok s2 where r: "axi_reply k data n (on_top f s) = Some (ok, s2)"
    and res: "(if \<not> ok then Some (-1, on_top reportError s2) else Some (0, s2)) = Some (res, s')"
    by (cases "axi_reply k data n (on_top f s)") auto
  from axi_reply_ports [OF r] res assms(2) show ?thesis by (cases ok) (auto simp: ports_def)
qed

lemma AXI_DRAM_access_ports:
  assumes "AXI_DRAM_access k req s = Some (res, s')"
  shows "ports s' = ports s"
proof (cases "srv_is_write req = 0")
  case True
  then have "\<not> srv_is_write req \<noteq> 0" by simp
  from assms [unfolded AXI_DRAM_access_def Let_def if_not_P [OF this]] show ?thesis
    by (rule axi_access_ports) simp
next
  case False
  from assms [unfolded AXI_DRAM_access_def Let_def if_P [OF False]] show ?thesis
    by (rule axi_access_ports) simp
qed

lemma axi_aw_wait_ports:
  assumes "s_axi_handshake (ports s) = (True, False, False, False, False)"
    and "S_AXI_aw_awlen (ports s) = axi_burst_len m"
  shows "axi_ports_ok (fst (axi_aw_wait m s)) (snd (axi_aw_wait m s))"
  using assms by (simp add: axi_aw_wait_def axi_ports_ok_simps)

lemma axi_ar_wait_ports:
  assumes "s_axi_handshake (ports s) = (False, False, False, True, False)"
    and "S_AXI_ar_arlen (ports s) = axi_burst_len m"
  shows "axi_ports_ok (fst (axi_ar_wait m s)) (snd (axi_ar_wait m s))"
  using assms by (simp add: axi_ar_wait_def axi_ports_ok_simps)

lemma axi_start_ports:
  assumes "keeps_s_axi ev" and "axi_quiet s"
  shows "axi_ports_ok (fst (axi_start_write ev m s)) (snd (axi_start_write ev m s))"
    and "axi_ports_ok (fst (axi_start_read ev m s)) (snd (axi_start_read ev m s))"
  unfolding axi_start_write_def axi_start_read_def
  using assms(2)
  by (auto intro!: axi_aw_wait_ports axi_ar_wait_ports
      simp: axi_quiet_def s_axi_handshake_def keeps_s_axiD [OF assms(1)])

lemma axi_poll_ports:
  assumes "keeps_s_axi ev" and "axi_poll ev k m s = Some (l', s')" and "axi_quiet s"
  shows "axi_ports_ok l' s'"
proof -
  have "ev' = ev \<longrightarrow> axi_quiet s \<longrightarrow> axi_ports_ok (fst r) (snd r)" if "axi_poll ev' k m s = Some r" for r ev'
  proof (rule axi_poll.raw_induct [OF _ that])
    fix poll and ev' :: "'a VARMFlexTop \<Rightarrow> 'a VARMFlexTop" and k :: "'b kernel" and m s r
    assume IH: "\<And>ev' k m s r. poll ev' k m s = Some r \<Longrightarrow>
        ev' = ev \<longrightarrow> axi_quiet s \<longrightarrow> axi_ports_ok (fst r) (snd r)"
      and eq: "(case getRequestAXI k (axi_ipc s) m (os s) of (got, ipc, m1, w) \<Rightarrow>
        if \<not> got then
          (if hasPendingError ipc then Some (axi_fail m1 (s\<lparr>axi_ipc := ipc, os := w\<rparr>))
           else Some (X_Poll m1, s\<lparr>axi_ipc := ipc, os := w\<rparr>))
        else if unat (srv_byte_size (srv_MemoryRequest_of m1)) mod 64 \<noteq> 0 then
          Some (X_Join, on_top reportError (s\<lparr>axi_ipc := ipc, os := w\<rparr>))
        else if isAXIDRAM (top s) (srv_addr (srv_MemoryRequest_of m1)) then
          (case AXI_DRAM_access k (srv_MemoryRequest_of m1) (s\<lparr>axi_ipc := ipc, os := w\<rparr>) of
             None \<Rightarrow> None
           | Some (res, s2) \<Rightarrow> if res = -1 then Some (X_ErrTick m1, s2) else poll ev' k m1 s2)
        else if srv_is_write (srv_MemoryRequest_of m1) \<noteq> 0 then
          Some (axi_start_write ev' m1 (s\<lparr>axi_ipc := ipc, os := w\<rparr>))
        else Some (axi_start_read ev' m1 (s\<lparr>axi_ipc := ipc, os := w\<rparr>))) = Some r"
    show "ev' = ev \<longrightarrow> axi_quiet s \<longrightarrow> axi_ports_ok (fst r) (snd r)"
    proof (intro impI)
      assume ev: "ev' = ev" and quiet: "axi_quiet s"
      obtain got ipc m1 w where get: "getRequestAXI k (axi_ipc s) m (os s) = (got, ipc, m1, w)"
        by (cases "getRequestAXI k (axi_ipc s) m (os s)")
      let ?s1 = "s\<lparr>axi_ipc := ipc, os := w\<rparr>"
      have q2: "axi_quiet s2" if "AXI_DRAM_access k req ?s1 = Some (res, s2)" for req res s2
        using AXI_DRAM_access_ports [OF that] quiet by (simp add: axi_quiet_def)
      have st: "axi_ports_ok (fst (axi_start_write ev m1 ?s1)) (snd (axi_start_write ev m1 ?s1))"
        "axi_ports_ok (fst (axi_start_read ev m1 ?s1)) (snd (axi_start_read ev m1 ?s1))"
        by (rule axi_start_ports [OF assms(1)], simp add: quiet)+
      show "axi_ports_ok (fst r) (snd r)"
        using eq st ev quiet
        by (auto simp: get axi_fail_def axi_ports_ok_simps axi_quiet_def split: if_splits option.splits
            dest!: IH q2)
    qed
  qed
  from this [OF assms(2)] assms(3) show ?thesis by simp
qed

lemma axi_finish_ports:
  assumes "keeps_s_axi ev" and "axi_finish ev k m data n s = Some (l', s')" and "axi_quiet s"
  shows "axi_ports_ok l' s'"
proof -
  from assms(2) obtain ok s1 where rep: "axi_reply k data n s = Some (ok, s1)"
    and rest: "(if ok then axi_poll ev k m s1 else Some (axi_fail m s1)) = Some (l', s')"
    by (auto simp: axi_finish_def bind_eq_Some_conv)
  have q: "axi_quiet s1" using axi_reply_ports [OF rep] assms(3) by (simp add: axi_quiet_def)
  show ?thesis
  proof (cases ok)
    case True
    with rest axi_poll_ports [OF assms(1) _ q] show ?thesis by simp
  next
    case False
    with rest q show ?thesis by (auto simp: axi_fail_def axi_ports_ok_simps axi_quiet_def)
  qed
qed

lemma axi_read_loop_ports:
  assumes "keeps_s_axi ev" and "axi_read_loop ev k m j s = Some (l', s')"
    and "s_axi_handshake (ports s) = (False, False, False, False, True)"
  shows "axi_ports_ok l' s'"
proof (cases "j < axi_blocks m")
  case True
  with assms(2,3) show ?thesis
    by (auto simp: axi_read_loop_def axi_r_wait_def Let_def axi_ports_ok_simps split: if_splits)
next
  case False
  let ?s = "drive ev (\<lambda>d. d\<lparr>S_AXI_r_rready := False\<rparr>) s"
  have "axi_quiet ?s"
    using assms(3) by (simp add: axi_quiet_def s_axi_handshake_def keeps_s_axiD [OF assms(1)])
  with False assms(2) axi_finish_ports [OF assms(1), where s = ?s] show ?thesis
    by (simp add: axi_read_loop_def Let_def)
qed

lemma axi_resume_ports:
  assumes "keeps_s_axi ev" and "axi_ports_ok l s" and "axi_resume ev k l s = Some (l', s')"
  shows "axi_ports_ok l' s'"
proof (cases l)
  case (X_Poll m)
  with assms(2,3) have "axi_poll ev k m s = Some (l', s')" "axi_quiet s"
    by (simp_all add: axi_ports_ok_simps axi_quiet_def)
  then show ?thesis by (rule axi_poll_ports [OF assms(1)])
next
  case (X_BTick m)
  with assms(3) have "axi_finish ev k m [0] 1 (drive ev (\<lambda>d. d\<lparr>S_AXI_b_bready := False\<rparr>) s) = Some (l', s')"
    by simp
  from axi_finish_ports [OF assms(1) this] X_BTick assms(2) show ?thesis
    by (simp add: axi_ports_ok_simps axi_quiet_def s_axi_handshake_def keeps_s_axiD [OF assms(1)])
next
  case (X_ArTick m)
  with assms(3) have "axi_read_loop ev k m 0
      (drive ev (\<lambda>d. d\<lparr>S_AXI_ar_arvalid := False, S_AXI_r_rready := True\<rparr>) s) = Some (l', s')"
    by simp
  from axi_read_loop_ports [OF assms(1) this] X_ArTick assms(2) show ?thesis
    by (simp add: axi_ports_ok_simps s_axi_handshake_def keeps_s_axiD [OF assms(1)])
next
  case (X_RTick m j)
  with assms(2,3) axi_read_loop_ports [OF assms(1), of k m "Suc j" s l' s'] show ?thesis
    by (simp add: axi_ports_ok_simps)
next
  case (X_RWait m j)
  with assms(2,3) show ?thesis
    by (auto simp: axi_ports_ok_simps axi_r_wait_def Let_def split: if_splits)
qed (use assms(2,3) in \<open>auto simp: axi_ports_ok_simps axi_quiet_def axi_aw_wait_def axi_w_wait_def axi_b_wait_def
  axi_ar_wait_def axi_write_loop_def write_block_def s_axi_handshake_def
  keeps_s_axiD [OF assms(1)] split: if_splits\<close>)


section \<open>The protocol of the two slave ports\<close>

definition example_port_server :: "(unit, unit) server" where
  "example_port_server = \<lparr>top = TopDUT_new (idle_dut ()) (\<lambda>_. 0) 128,
     axil_ipc = \<lparr>ipc_name = ''axil'', socket_fd = 3, client_fd = 4, ipc_error = False\<rparr>,
     axi_ipc = \<lparr>ipc_name = ''axi'', socket_fd = 5, client_fd = 6, ipc_error = False\<rparr>, os = ()\<rparr>"

lemma example_port_server_ports [simp]: "ports example_port_server = idle_dut ()"
  by (simp add: example_port_server_def ports_def)

lemma env_axil_ports:
  assumes "s_axil_inputs (ports (e s)) = s_axil_inputs (ports s)" and "axil_ports_ok l s"
  shows "axil_ports_ok l (e s)"
  using assms by (cases l) (simp_all add: axil_ports_ok_def s_axil_handshake_def s_axil_inputs_def)

lemma env_axi_ports:
  assumes "s_axi_inputs (ports (e s)) = s_axi_inputs (ports s)" and "axi_ports_ok l s"
  shows "axi_ports_ok l (e s)"
  using assms
  by (cases l) (simp_all add: axi_ports_ok_simps axi_quiet_def s_axi_handshake_def s_axi_inputs_def)

text \<open>
  C13. Whatever the design answers, at every \<open>TICK\<close> \<open>AXILRoutine\<close> has up exactly the
  handshake signal of the phase it is in, with the address, data and strobes of the request
  it serves, and drops it when the phase is over, provided \<open>eval\<close> and the other threads
  leave the inputs of the AXI-Lite port alone.
\<close>

theorem axil_port_protocol:
  assumes "keeps_s_axil ev"
    and "\<forall>e \<in> set es. \<forall>s. s_axil_inputs (ports (e s)) = s_axil_inputs (ports s)"
    and "s_axil_handshake (ports s) = axil_expected l \<and> axil_payload l (ports s)"
    and "runs (axil_resume ev k) es l s = Some (l', s')"
  shows "s_axil_handshake (ports s') = axil_expected l' \<and> axil_payload l' (ports s')"
proof -
  have start: "axil_ports_ok l s" using assms(3) by (simp add: axil_ports_ok_def)
  have "axil_ports_ok l' s'"
    by (rule runs_invariant [OF assms(4), where I = axil_ports_ok])
      (use start axil_resume_ports [OF assms(1)] env_axil_ports assms(2) in blast)+
  then show ?thesis by (simp add: axil_ports_ok_def)
qed

theorem axil_port_protocol_witness:
  "let s = drive id (\<lambda>d. d\<lparr>S_AXIL_aw_awready := True, S_AXIL_w_wready := True,
       S_AXIL_aw_awvalid := True\<rparr>) example_port_server in
     \<exists>s'. runs (axil_resume id silent_kernel) [id, id, id] (A_AwWait (\<lambda>_. 0)) s =
       Some (A_BWait (\<lambda>_. 0), s') \<and> s_axil_handshake (ports s') = (False, False, True, False, False)"
proof -
  let ?s = "drive id (\<lambda>d. d\<lparr>S_AXIL_aw_awready := True, S_AXIL_w_wready := True,
       S_AXIL_aw_awvalid := True\<rparr>) example_port_server"
  obtain s' where run: "runs (axil_resume id silent_kernel) [id, id, id] (A_AwWait (\<lambda>_. 0)) ?s =
      Some (A_BWait (\<lambda>_. 0), s')"
    by (simp add: axil_code idle_dut_def)
  have zero: "srv_axil_addr (srv_MemoryRequestAXIL_of (\<lambda>_. 0)) = 0" by code_simp
  have "s_axil_handshake (ports s') = axil_expected (A_BWait (\<lambda>_. 0)) \<and>
      axil_payload (A_BWait (\<lambda>_. 0)) (ports s')"
    by (rule axil_port_protocol [OF _ _ _ run])
      (simp_all add: keeps_s_axil_def s_axil_handshake_def idle_dut_def zero)
  with run show ?thesis by (simp add: Let_def)
qed

text \<open>
  C14. The same for \<open>AXIRoutine\<close> and the AXI port: one handshake signal per phase, the burst
  length of the request with the address, block \<open>curr_block\<close> of the request's data with
  each write beat, \<open>wlast\<close> on the last one only, and no beat past it; with one exception, the
  routine leaves \<open>rready\<close>, and only that, up when it gives up because \<open>rlast\<close> was not where it
  expected it. Again \<open>eval\<close> and the other threads are to leave the inputs of the AXI port alone.
\<close>

theorem axi_port_protocol:
  assumes "keeps_s_axi ev"
    and "\<forall>e \<in> set es. \<forall>s. s_axi_inputs (ports (e s)) = s_axi_inputs (ports s)"
    and "s_axi_handshake (ports s) = axi_expected l \<and> axi_payload l (ports s)"
    and "runs (axi_resume ev k) es l s = Some (l', s')"
  shows "s_axi_handshake (ports s') = axi_expected l' \<and> axi_payload l' (ports s') \<or>
    l' = X_Join \<and> s_axi_handshake (ports s') = (False, False, False, False, True)"
proof -
  have start: "axi_ports_ok l s" using assms(3) by (simp add: axi_ports_ok_def)
  have "axi_ports_ok l' s'"
    by (rule runs_invariant [OF assms(4), where I = axi_ports_ok])
      (use start axi_resume_ports [OF assms(1)] env_axi_ports assms(2) in blast)+
  then show ?thesis by (simp add: axi_ports_ok_def)
qed

text \<open>A read request for one block, in the memory of \<open>result\<close>.\<close>

definition example_block_read :: "nat \<Rightarrow> u8" where
  "example_block_read = mem_write (\<lambda>_. 0) 8 [64]"

lemma example_block_read: "axi_blocks example_block_read = 1"
proof -
  have "word_le (mem_read example_block_read 8 8) = (64 :: u64)" by code_simp
  then show ?thesis
    by (simp add: axi_blocks_def srv_MemoryRequest_of_def BYTES_PER_BLOCK_def BLOCK_SIZE_def)
qed

theorem axi_port_protocol_witness:
  "let s = drive id (\<lambda>d. d\<lparr>S_AXI_aw_awready := True, S_AXI_w_wready := True,
       S_AXI_aw_awvalid := True, S_AXI_aw_awlen := 0\<rparr>) example_port_server in
     \<exists>s'. runs (axi_resume id silent_kernel) [id, id] (X_AwWait example_block_read) s =
       Some (X_WTick example_block_read 0, s') \<and> S_AXI_w_wlast (ports s')"
proof -
  let ?s = "drive id (\<lambda>d. d\<lparr>S_AXI_aw_awready := True, S_AXI_w_wready := True,
       S_AXI_aw_awvalid := True, S_AXI_aw_awlen := 0\<rparr>) example_port_server"
  have len: "axi_burst_len example_block_read = 0"
    by (simp add: axi_burst_len_def example_block_read)
  obtain s' where run: "runs (axi_resume id silent_kernel) [id, id] (X_AwWait example_block_read) ?s =
      Some (X_WTick example_block_read 0, s')"
    by (simp add: axi_code example_block_read idle_dut_def)
  have "s_axi_handshake (ports s') = axi_expected (X_WTick example_block_read 0) \<and>
      axi_payload (X_WTick example_block_read 0) (ports s') \<or>
      X_WTick example_block_read 0 = X_Join \<and>
      s_axi_handshake (ports s') = (False, False, False, False, True)"
    by (rule axi_port_protocol [OF _ _ _ run])
      (simp_all add: keeps_s_axi_def s_axi_handshake_def idle_dut_def len)
  with run example_block_read show ?thesis by (simp add: Let_def)
qed

text \<open>
  C22. \<open>AXIRoutine\<close> tests \<open>arready\<close> of a read the wrong way round: with a design that is
  ready it stays in the address phase for ever, and with one that is not it drops
  \<open>arvalid\<close> one cycle later, the address never having been accepted.
\<close>

theorem read_address_phase_inverted:
  assumes "keeps_s_axi ev" and "0 < axi_blocks m"
  shows "((\<forall>e \<in> set es. \<forall>s. S_AXI_ar_arready (ports (e s))) \<longrightarrow>
      (\<exists>s'. runs (axi_resume ev k) es (X_ArWait m) s = Some (X_ArWait m, s'))) \<and>
    (\<not> S_AXI_ar_arready (ports s) \<longrightarrow>
      (\<exists>l' s'. runs (axi_resume ev k) [id, id] (X_ArWait m) s = Some (l', s') \<and>
         l' \<noteq> X_ArWait m \<and> \<not> S_AXI_ar_arvalid (ports s')))"
proof
  have stays: "\<exists>s'. runs (axi_resume ev k) es (X_ArWait m) s = Some (X_ArWait m, s')"
    if "\<forall>e \<in> set es. \<forall>s. S_AXI_ar_arready (ports (e s))" for es s
    using that by (induction es arbitrary: s) (simp_all add: axi_ar_wait_def)
  then show "(\<forall>e \<in> set es. \<forall>s. S_AXI_ar_arready (ports (e s))) \<longrightarrow>
      (\<exists>s'. runs (axi_resume ev k) es (X_ArWait m) s = Some (X_ArWait m, s'))" by blast
  show "\<not> S_AXI_ar_arready (ports s) \<longrightarrow>
      (\<exists>l' s'. runs (axi_resume ev k) [id, id] (X_ArWait m) s = Some (l', s') \<and>
         l' \<noteq> X_ArWait m \<and> \<not> S_AXI_ar_arvalid (ports s'))"
    using keeps_s_axiD [OF assms(1)] assms(2)
    by (auto simp: axi_ar_wait_def axi_read_loop_def axi_r_wait_def Let_def)
qed

theorem read_address_phase_inverted_witness:
  "\<exists>l' s'. runs (axi_resume id silent_kernel) [id, id] (X_ArWait example_block_read)
      example_port_server = Some (l', s') \<and>
    l' \<noteq> X_ArWait example_block_read \<and> \<not> S_AXI_ar_arvalid (ports s')"
  using read_address_phase_inverted [of id example_block_read "[]" silent_kernel example_port_server]
  by (simp add: keeps_s_axi_def example_block_read idle_dut_def)

end
