(* ===== verification/Dram_Bursts.thy ===== *)
theory Dram_Bursts
  imports Dram_Routine
begin

text \<open>
  What \<open>handleDRAMSubroute\<close> (\<open>server/subroutine.cc\<close>) does over many cycles: the handshake
  signals it drives, the beats of a read burst, the stores of a write burst. \<open>eval\<close> is any
  function that leaves the ports the routine drives as they are (Verilator's \<open>eval\<close> assigns
  outputs and internal state, never an input), and between two runs of the routine the clock
  edge and the other threads act, an arbitrary step of the environment.
\<close>

section \<open>The environment\<close>

definition m_axi_inputs where
  "m_axi_inputs d = ((M_AXI_ar_arready d, M_AXI_aw_awready d, M_AXI_w_wready d),
     (M_AXI_r_rvalid d, M_AXI_r_rid d, M_AXI_r_rresp d, M_AXI_r_rdata d, M_AXI_r_rlast d),
     (M_AXI_b_bvalid d, M_AXI_b_bid d, M_AXI_b_bresp d))"

definition keeps_m_axi :: "('i VARMFlexTop \<Rightarrow> 'i VARMFlexTop) \<Rightarrow> bool" where
  "keeps_m_axi ev \<longleftrightarrow> (\<forall>d. m_axi_inputs (ev d) = m_axi_inputs d)"

definition quiet :: "('i TopDUT \<Rightarrow> 'i TopDUT) \<Rightarrow> bool" where
  "quiet e \<longleftrightarrow> (\<forall>t. m_axi_inputs (td_dut (e t)) = m_axi_inputs (td_dut t) \<and> dram (e t) = dram t \<and>
     td_dram_size (e t) = td_dram_size t \<and> dram_oob (e t) = dram_oob t)"

text \<open>
  The other threads may write the array and change anything but the ports the routine drives:
  \<open>AXIRoutine\<close> stores pages of the host and sets \<open>dram_oob\<close>, and drives ports of its own.
\<close>

definition leaves_ports :: "('i TopDUT \<Rightarrow> 'i TopDUT) \<Rightarrow> bool" where
  "leaves_ports e \<longleftrightarrow> (\<forall>t. m_axi_inputs (td_dut (e t)) = m_axi_inputs (td_dut t))"

definition leaves_array :: "('i TopDUT \<Rightarrow> 'i TopDUT) \<Rightarrow> bool" where
  "leaves_array e \<longleftrightarrow> (\<forall>t. dram (e t) = dram t)"

lemma keeps_m_axiD:
  assumes "keeps_m_axi ev"
  shows "M_AXI_ar_arready (ev d) = M_AXI_ar_arready d" "M_AXI_aw_awready (ev d) = M_AXI_aw_awready d"
    "M_AXI_w_wready (ev d) = M_AXI_w_wready d" "M_AXI_r_rvalid (ev d) = M_AXI_r_rvalid d"
    "M_AXI_r_rid (ev d) = M_AXI_r_rid d" "M_AXI_r_rresp (ev d) = M_AXI_r_rresp d"
    "M_AXI_r_rdata (ev d) = M_AXI_r_rdata d" "M_AXI_r_rlast (ev d) = M_AXI_r_rlast d"
    "M_AXI_b_bvalid (ev d) = M_AXI_b_bvalid d" "M_AXI_b_bid (ev d) = M_AXI_b_bid d"
    "M_AXI_b_bresp (ev d) = M_AXI_b_bresp d"
  using assms by (simp_all add: keeps_m_axi_def m_axi_inputs_def)

text \<open>A clock edge is quiet: it only touches \<open>clock\<close>, the time and the barrier's count.\<close>

lemma m_axi_inputs_clock [simp]: "m_axi_inputs (d\<lparr>clock := b\<rparr>) = m_axi_inputs d"
  by (simp add: m_axi_inputs_def)

text \<open>The routine, run once after each step of the environment.\<close>

fun dram_run ::
  "('i VARMFlexTop \<Rightarrow> 'i VARMFlexTop) \<Rightarrow> ('i TopDUT \<Rightarrow> 'i TopDUT) list \<Rightarrow> dram_label \<Rightarrow> 'i TopDUT \<Rightarrow>
   (dram_label \<times> 'i TopDUT) list" where
  "dram_run ev [] l t = []"
| "dram_run ev (e # es) l t =
     (case dram_resume ev l (e t) of (l', t') \<Rightarrow> (l', t') # dram_run ev es l' t')"

section \<open>Handshake signals\<close>

text \<open>\<open>(arready, rvalid, awready, wready, bvalid)\<close>\<close>

definition m_axi_handshake :: "'i VARMFlexTop \<Rightarrow> bool \<times> bool \<times> bool \<times> bool \<times> bool" where
  "m_axi_handshake d = (M_AXI_ar_arready d, M_AXI_r_rvalid d, M_AXI_aw_awready d, M_AXI_w_wready d,
     M_AXI_b_bvalid d)"

fun expected_handshake :: "dram_label \<Rightarrow> bool \<times> bool \<times> bool \<times> bool \<times> bool" where
  "expected_handshake (D_ArTick a i n) = (True, False, False, False, False)"
| "expected_handshake (D_RWait a i n j) = (False, True, False, False, False)"
| "expected_handshake (D_RTick a i n j) = (False, True, False, False, False)"
| "expected_handshake (D_AwTick a i n) = (False, False, True, False, False)"
| "expected_handshake (D_WWait a i n j) = (False, False, False, True, False)"
| "expected_handshake (D_WTick a i n j) = (False, False, False, True, False)"
| "expected_handshake (D_BWait i) = (False, False, False, False, True)"
| "expected_handshake D_BTick = (False, False, False, False, True)"
| "expected_handshake D_Top = (False, False, False, False, False)"
| "expected_handshake D_Join = (False, False, False, False, False)"

lemma dram_resume_handshake:
  assumes "keeps_m_axi ev" and "m_axi_handshake (td_dut t) = expected_handshake l"
    and "dram_resume ev l t = (l', t')"
  shows "m_axi_handshake (td_dut t') = expected_handshake l'"
  using assms(2,3)
  by (cases l)
    (auto simp: dram_code Let_def m_axi_handshake_def keeps_m_axiD [OF assms(1)] split: if_splits)

lemma dram_run_handshake:
  assumes "keeps_m_axi ev" and "\<And>e. e \<in> set es \<Longrightarrow> leaves_ports e"
    and "m_axi_handshake (td_dut t) = expected_handshake l"
  shows "\<forall>(l', t') \<in> set (dram_run ev es l t). m_axi_handshake (td_dut t') = expected_handshake l'"
  using assms(2,3)
proof (induction es arbitrary: l t)
  case Nil
  then show ?case by simp
next
  case (Cons e es)
  obtain l1 t1 where r: "dram_resume ev l (e t) = (l1, t1)" by fastforce
  have "m_axi_handshake (td_dut (e t)) = expected_handshake l"
    using Cons.prems by (auto simp: leaves_ports_def m_axi_inputs_def m_axi_handshake_def)
  then have "m_axi_handshake (td_dut t1) = expected_handshake l1"
    using dram_resume_handshake [OF assms(1) _ r] by blast
  with Cons r show ?case by simp
qed

section \<open>Block addresses\<close>

lemma block_word_eq:
  assumes "j \<le> 256"
  shows "block_word a j = unat a div 4 + 16 * j"
proof -
  have d: "unat (BYTE_TO_WORD a) = unat a div 4"
    unfolding BYTE_TO_WORD_def by (subst unat_drop_bit_eq) (simp add: drop_bit_eq_div)
  have "unat a < 2 ^ LENGTH(64)" by (rule unsigned_less)
  then have "unat a div 4 < 2 ^ 62" by simp
  then show ?thesis
    using assms
    by (simp add: block_word_def unat_word_ariths d WORDS_PER_BLOCK_def BLOCK_SIZE_def WORD_SIZE_def
        unat_of_nat)
qed


section \<open>Read bursts\<close>

fun in_read_burst :: "dram_label \<Rightarrow> bool" where
  "in_read_burst (D_RWait a i n j) = True"
| "in_read_burst (D_RTick a i n j) = True"
| "in_read_burst _ = False"

fun takes_read_beat :: "dram_label \<Rightarrow> bool" where
  "takes_read_beat (D_RTick a i n j) = True"
| "takes_read_beat _ = False"

definition r_beat :: "'i TopDUT \<Rightarrow> u8 \<times> u32 list \<times> bool" where
  "r_beat t = (M_AXI_r_rid (td_dut t), M_AXI_r_rdata (td_dut t), M_AXI_r_rlast (td_dut t))"

text \<open>The beats the design takes: \<open>rvalid\<close> is up and it has answered \<open>rready\<close>.\<close>

definition read_beats :: "(dram_label \<times> 'i TopDUT) list \<Rightarrow> (u8 \<times> u32 list \<times> bool) list" where
  "read_beats tr = map (r_beat \<circ> snd) (filter (takes_read_beat \<circ> fst) tr)"

definition dram_beat :: "(nat \<Rightarrow> u32) \<Rightarrow> u64 \<Rightarrow> u8 \<Rightarrow> nat \<Rightarrow> nat \<Rightarrow> u8 \<times> u32 list \<times> bool" where
  "dram_beat m a i n j = (i, mem_read m (block_word a j) WORDS_PER_BLOCK, j = n - 1)"

text \<open>The beats of the burst that starts a trace.\<close>

definition burst_beats :: "(dram_label \<times> 'i TopDUT) list \<Rightarrow> (u8 \<times> u32 list \<times> bool) list" where
  "burst_beats tr = read_beats (takeWhile (in_read_burst \<circ> fst) tr)"

lemma burst_beats_simps [simp]:
  "burst_beats [] = []"
  "burst_beats ((D_RWait a i n j, t) # tr) = burst_beats tr"
  "burst_beats ((D_RTick a i n j, t) # tr) = r_beat t # burst_beats tr"
  "\<not> in_read_burst l \<Longrightarrow> burst_beats ((l, t) # tr) = []"
  by (simp_all add: burst_beats_def read_beats_def)

definition burst_over :: "(dram_label \<times> 'i TopDUT) list \<Rightarrow> bool" where
  "burst_over tr \<longleftrightarrow> (\<exists>(l, t) \<in> set tr. \<not> in_read_burst l)"

lemma burst_over_simps [simp]:
  "\<not> burst_over []"
  "burst_over ((l, t) # tr) \<longleftrightarrow> \<not> in_read_burst l \<or> burst_over tr"
  by (auto simp: burst_over_def)

definition beats_from :: "(nat \<Rightarrow> u32) \<Rightarrow> u64 \<Rightarrow> u8 \<Rightarrow> nat \<Rightarrow> nat \<Rightarrow> (dram_label \<times> 'i TopDUT) list \<Rightarrow> bool" where
  "beats_from m a i n j tr \<longleftrightarrow>
     (\<exists>k. j \<le> k \<and> k \<le> n \<and> burst_beats tr = map (dram_beat m a i n) [j..<k] \<and> (burst_over tr \<longrightarrow> k = n))"

lemma beats_from_wait: "beats_from m a i n j tr \<Longrightarrow> beats_from m a i n j ((D_RWait a i n j, t) # tr)"
  by (auto simp: beats_from_def)

lemma beats_from_tick:
  assumes "beats_from m a i n (Suc j) tr" and "r_beat t = dram_beat m a i n j"
  shows "beats_from m a i n j ((D_RTick a i n j, t) # tr)"
proof -
  from assms(1) obtain k where k: "Suc j \<le> k" "k \<le> n"
    "burst_beats tr = map (dram_beat m a i n) [Suc j..<k]" "burst_over tr \<longrightarrow> k = n"
    by (auto simp: beats_from_def)
  moreover have "[j..<k] = j # [Suc j..<k]" using k(1) upt_conv_Cons by simp
  ultimately show ?thesis
    unfolding beats_from_def using assms(2) by (intro exI [of _ k]) simp
qed

lemma beats_from_end: "\<not> in_read_burst l \<Longrightarrow> beats_from m a i n n ((l, t) # tr)"
  by (auto simp: beats_from_def)

lemma dram_aw_not_in_burst: "\<not> in_read_burst (fst (dram_aw ev t))"
  by (simp add: dram_code Let_def)

text \<open>
  One run that ends waiting for \<open>rready\<close> on block \<open>j\<close>, or taking it, then the rest.
\<close>

lemma dram_r_wait_beats:
  assumes "r_beat t = dram_beat (dram t) a i n j"
    and "beats_from (dram t) a i n j (dram_run ev es (D_RWait a i n j) t)"
    and "beats_from (dram t) a i n (Suc j) (dram_run ev es (D_RTick a i n j) t)"
  shows "beats_from (dram t) a i n j
    (case dram_r_wait a i n j t of (l', t') \<Rightarrow> (l', t') # dram_run ev es l' t')"
  using assms by (auto simp: dram_r_wait_def intro: beats_from_wait beats_from_tick)

lemma quiet_beat:
  "quiet e \<Longrightarrow> r_beat (e t) = r_beat t" "quiet e \<Longrightarrow> dram (e t) = dram t"
  by (auto simp: quiet_def r_beat_def m_axi_inputs_def)

lemma read_burst_run:
  assumes "keeps_m_axi ev" and "\<And>e. e \<in> set es \<Longrightarrow> quiet e" and "j < n"
  shows "(r_beat t = dram_beat (dram t) a i n j \<longrightarrow>
      beats_from (dram t) a i n j (dram_run ev es (D_RWait a i n j) t)) \<and>
    beats_from (dram t) a i n (Suc j) (dram_run ev es (D_RTick a i n j) t)"
  using assms(2,3)
proof (induction es arbitrary: j t)
  case Nil
  then show ?case by (auto simp: beats_from_def)
next
  case (Cons e es)
  note keep = quiet_beat [of e t]
  have q: "quiet e" using Cons.prems(1) by simp
  have wait: "beats_from (dram u) a i n j
      (case dram_r_wait a i n j u of (l', t') \<Rightarrow> (l', t') # dram_run ev es l' t')"
    if "j < n" "r_beat u = dram_beat (dram u) a i n j" for j u
    using that Cons.IH [of j u] Cons.prems(1) by (intro dram_r_wait_beats) auto
  have first: "beats_from (dram t) a i n j (dram_run ev (e # es) (D_RWait a i n j) t)"
    if "r_beat t = dram_beat (dram t) a i n j"
    using wait [OF Cons.prems(2), of "e t"] that q keep by simp
  have "beats_from (dram t) a i n (Suc j) (dram_run ev (e # es) (D_RTick a i n j) t)"
  proof (cases "Suc j < n")
    case True
    let ?t1 = "set_ports ev (set_ports (\<lambda>d. d\<lparr>M_AXI_r_rvalid := False\<rparr>) (e t))"
    let ?w = "block_word a (Suc j)"
    let ?u = "set_ports ev (set_ports (\<lambda>d. d\<lparr>M_AXI_r_rid := i, M_AXI_r_rresp := 0,
        M_AXI_r_rdata := mem_read (dram ?t1) ?w WORDS_PER_BLOCK, M_AXI_r_rlast := (Suc j = n - 1),
        M_AXI_r_rvalid := True\<rparr>) (dram_touch ?w WORDS_PER_BLOCK ?t1))"
    have "r_beat ?u = dram_beat (dram ?u) a i n (Suc j)"
      by (simp add: r_beat_def dram_beat_def keeps_m_axiD [OF assms(1)])
    from wait [OF True this] True q keep show ?thesis
      by (simp add: dram_read_loop_def Let_def)
  next
    case False
    with Cons.prems(2) have "n = Suc j" by simp
    moreover obtain l' t' where aw:
      "dram_aw ev (set_ports ev (set_ports (\<lambda>d. d\<lparr>M_AXI_r_rvalid := False\<rparr>) (e t))) = (l', t')"
      by fastforce
    moreover from dram_aw_not_in_burst [of ev] aw have "\<not> in_read_burst l'" by (metis fst_conv)
    ultimately show ?thesis by (simp add: dram_read_loop_def beats_from_end)
  qed
  with first show ?case by blast
qed

lemma read_burst_from_address:
  assumes "keeps_m_axi ev" and "\<And>e. e \<in> set es \<Longrightarrow> quiet e" and "0 < n"
  shows "beats_from (dram t) a i n 0 (dram_run ev es (D_ArTick a i n) t)"
proof (cases es)
  case Nil
  then show ?thesis using assms(3) by (auto simp: beats_from_def)
next
  case (Cons e es')
  then have q: "quiet e" and qs: "\<And>e. e \<in> set es' \<Longrightarrow> quiet e" using assms(2) by auto
  let ?t1 = "set_ports ev (set_ports (\<lambda>d. d\<lparr>M_AXI_ar_arready := False\<rparr>) (e t))"
  let ?w = "block_word a 0"
  let ?u = "set_ports ev (set_ports (\<lambda>d. d\<lparr>M_AXI_r_rid := i, M_AXI_r_rresp := 0,
      M_AXI_r_rdata := mem_read (dram ?t1) ?w WORDS_PER_BLOCK, M_AXI_r_rlast := (0 = n - 1),
      M_AXI_r_rvalid := True\<rparr>) (dram_touch ?w WORDS_PER_BLOCK ?t1))"
  have "r_beat ?u = dram_beat (dram ?u) a i n 0"
    by (simp add: r_beat_def dram_beat_def keeps_m_axiD [OF assms(1)])
  with read_burst_run [OF assms(1) qs assms(3), where t = ?u and a = a and i = i]
  have "beats_from (dram ?u) a i n 0
      (case dram_r_wait a i n 0 ?u of (l', t') \<Rightarrow> (l', t') # dram_run ev es' l' t')"
    by (intro dram_r_wait_beats) auto
  with Cons assms(3) quiet_beat [OF q] show ?thesis
    by (simp add: dram_read_loop_def Let_def)
qed

section \<open>Write bursts\<close>

fun in_write_burst :: "dram_label \<Rightarrow> bool" where
  "in_write_burst (D_WWait a i n j) = True"
| "in_write_burst (D_WTick a i n j) = True"
| "in_write_burst _ = False"

fun takes_write_beat :: "dram_label \<Rightarrow> bool" where
  "takes_write_beat (D_WTick a i n j) = True"
| "takes_write_beat _ = False"

definition w_beat :: "'i TopDUT \<Rightarrow> u32 list" where
  "w_beat t = take WORDS_PER_BLOCK (M_AXI_w_wdata (td_dut t))"

definition write_trace :: "(dram_label \<times> 'i TopDUT) list \<Rightarrow> (dram_label \<times> 'i TopDUT) list" where
  "write_trace tr = takeWhile (in_write_burst \<circ> fst) tr"

text \<open>The blocks the design hands over: it has \<open>wvalid\<close> up and \<open>wready\<close> is up.\<close>

definition write_blocks :: "(dram_label \<times> 'i TopDUT) list \<Rightarrow> u32 list list" where
  "write_blocks tr = map (w_beat \<circ> snd) (filter (takes_write_beat \<circ> fst) (write_trace tr))"

definition write_over :: "(dram_label \<times> 'i TopDUT) list \<Rightarrow> bool" where
  "write_over tr \<longleftrightarrow> (\<exists>(l, t) \<in> set tr. \<not> in_write_burst l)"

text \<open>The array after the part of the trace that is in the burst.\<close>

fun dram_after :: "(nat \<Rightarrow> u32) \<Rightarrow> (dram_label \<times> 'i TopDUT) list \<Rightarrow> nat \<Rightarrow> u32" where
  "dram_after m [] = m"
| "dram_after m ((l, t) # tr) = dram_after (dram t) tr"

lemma write_trace_simps [simp]:
  "write_trace [] = []"
  "write_trace ((l, t) # tr) = (if in_write_burst l then (l, t) # write_trace tr else [])"
  by (simp_all add: write_trace_def)

lemma write_blocks_simps [simp]:
  "write_blocks [] = []"
  "write_blocks ((D_WWait a i n j, t) # tr) = write_blocks tr"
  "write_blocks ((D_WTick a i n j, t) # tr) = w_beat t # write_blocks tr"
  "\<not> in_write_burst l \<Longrightarrow> write_blocks ((l, t) # tr) = []"
  by (simp_all add: write_blocks_def)

lemma write_over_simps [simp]:
  "\<not> write_over []"
  "write_over ((l, t) # tr) \<longleftrightarrow> \<not> in_write_burst l \<or> write_over tr"
  by (auto simp: write_over_def)

definition full_blocks :: "(dram_label \<times> 'i TopDUT) list \<Rightarrow> bool" where
  "full_blocks tr \<longleftrightarrow> (\<forall>(l, t) \<in> set tr. length (M_AXI_w_wdata (td_dut t)) = WORDS_PER_BLOCK)"

text \<open>From block \<open>j\<close> on, over an array that is \<open>m\<close> now.\<close>

definition stores_from ::
  "(nat \<Rightarrow> u32) \<Rightarrow> u64 \<Rightarrow> nat \<Rightarrow> nat \<Rightarrow> (dram_label \<times> 'i TopDUT) list \<Rightarrow> bool" where
  "stores_from m a j n tr \<longleftrightarrow>
     (full_blocks tr \<longrightarrow> j + length (write_blocks tr) \<le> n \<and>
       dram_after m (write_trace tr) = mem_write m (block_word a j) (concat (write_blocks tr)) \<and>
       (write_over tr \<longrightarrow> j + length (write_blocks tr) = n))"

lemma stores_from_wait:
  assumes "stores_from (dram t) a j n tr"
  shows "stores_from (dram t) a j n ((D_WWait a i n j, t) # tr)"
  using assms by (simp add: stores_from_def full_blocks_def)

lemma stores_from_tick:
  assumes "stores_from (dram t) a (Suc j) n tr" and "j < n" and "n \<le> 256"
    and "dram t = mem_write m (block_word a j) (w_beat t)"
  shows "stores_from m a j n ((D_WTick a i n j, t) # tr)"
proof -
  have "length (w_beat t) = WORDS_PER_BLOCK" if "full_blocks ((D_WTick a i n j, t) # tr)"
    using that by (simp add: full_blocks_def w_beat_def)
  moreover have "block_word a (Suc j) = block_word a j + WORDS_PER_BLOCK"
    using assms(2,3) by (simp add: block_word_eq WORDS_PER_BLOCK_def BLOCK_SIZE_def WORD_SIZE_def)
  ultimately show ?thesis
    using assms(1) mem_write_append [of m "block_word a j" "w_beat t" "concat (write_blocks tr)"]
    by (auto simp: stores_from_def full_blocks_def assms(4))
qed

lemma stores_from_end: "\<not> in_write_burst l \<Longrightarrow> stores_from m a n n ((l, t) # tr)"
  by (simp add: stores_from_def)

lemma dram_b_wait_not_in_burst: "\<not> in_write_burst (fst (dram_b_wait i t))"
  by (simp add: dram_b_wait_def)

lemma dram_w_wait_stores:
  assumes "j < n" and "n \<le> 256"
    and "stores_from (dram t) a j n (dram_run ev es (D_WWait a i n j) t)"
    and "\<And>u. stores_from (dram u) a (Suc j) n (dram_run ev es (D_WTick a i n j) u)"
  shows "stores_from (dram t) a j n
    (case dram_w_wait a i n j t of (l', t') \<Rightarrow> (l', t') # dram_run ev es l' t')"
proof (cases "M_AXI_w_wvalid (td_dut t)")
  case False
  with assms(3) show ?thesis by (simp add: dram_w_wait_def stores_from_wait)
next
  case True
  let ?u = "dram_store (block_word a j) (take WORDS_PER_BLOCK (M_AXI_w_wdata (td_dut t))) t"
  have "stores_from (dram t) a j n ((D_WTick a i n j, ?u) # dram_run ev es (D_WTick a i n j) ?u)"
    by (rule stores_from_tick [OF assms(4) assms(1,2)]) (simp add: w_beat_def)
  with True show ?thesis by (simp add: dram_w_wait_def dram_store_block_def)
qed

lemma dram_write_loop_stores:
  assumes "j \<le> n" and "n \<le> 256"
    and "\<And>t. j < n \<Longrightarrow> stores_from (dram t) a j n (dram_run ev es (D_WWait a i n j) t)"
    and "\<And>u. j < n \<Longrightarrow> stores_from (dram u) a (Suc j) n (dram_run ev es (D_WTick a i n j) u)"
  shows "stores_from (dram t) a j n
    (case dram_write_loop ev a i n j t of (l', t') \<Rightarrow> (l', t') # dram_run ev es l' t')"
proof (cases "j < n")
  case True
  have "stores_from (dram t) a j n
    (case dram_w_wait a i n j (set_ports ev (set_ports (\<lambda>d. d\<lparr>M_AXI_w_wready := True\<rparr>) t)) of
      (l', t') \<Rightarrow> (l', t') # dram_run ev es l' t')"
    using dram_w_wait_stores [OF True assms(2), where a = a and i = i and ev = ev and es = es and
        t = "set_ports ev (set_ports (\<lambda>d. d\<lparr>M_AXI_w_wready := True\<rparr>) t)"]
      assms(3) [OF True, of "set_ports ev (set_ports (\<lambda>d. d\<lparr>M_AXI_w_wready := True\<rparr>) t)"]
      assms(4) [OF True] by simp
  with True show ?thesis by (simp add: dram_write_loop_def)
next
  case False
  with assms(1) have "j = n" by simp
  obtain l' t' where b: "dram_write_loop ev a i n n t = (l', t')" by fastforce
  then have "\<not> in_write_burst l'"
    by (auto simp: dram_write_loop_def dram_b_wait_def split: if_splits)
  with b \<open>j = n\<close> show ?thesis by (simp add: stores_from_end)
qed

lemma write_burst_run:
  assumes "n \<le> 256" and "\<And>e. e \<in> set es \<Longrightarrow> leaves_array e" and "j < n"
  shows "stores_from (dram t) a j n (dram_run ev es (D_WWait a i n j) t) \<and>
    stores_from (dram t) a (Suc j) n (dram_run ev es (D_WTick a i n j) t)"
  using assms(2,3)
proof (induction es arbitrary: j t)
  case Nil
  then show ?case by (simp add: stores_from_def)
next
  case (Cons e es)
  have keep: "dram (e t) = dram t" using Cons.prems(1) by (simp add: leaves_array_def)
  have IH: "stores_from (dram u) a l n (dram_run ev es (D_WWait a i n l) u) \<and>
    stores_from (dram u) a (Suc l) n (dram_run ev es (D_WTick a i n l) u)" if "l < n" for l u
    using Cons.IH Cons.prems(1) that by simp
  have "stores_from (dram (e t)) a j n (dram_run ev (e # es) (D_WWait a i n j) t)"
    using dram_w_wait_stores [OF Cons.prems(2) assms(1), where t = "e t"] IH [OF Cons.prems(2)]
    by simp
  moreover have "stores_from (dram (e t)) a (Suc j) n (dram_run ev (e # es) (D_WTick a i n j) t)"
    using dram_write_loop_stores [of "Suc j" n a ev es i
        "set_ports ev (set_ports (\<lambda>d. d\<lparr>M_AXI_w_wready := False\<rparr>) (e t))"]
      IH [of "Suc j"] Cons.prems(2) assms(1) by simp
  ultimately show ?case by (simp add: keep)
qed

lemma write_burst_from_address:
  assumes "n \<le> 256" and "\<And>e. e \<in> set es \<Longrightarrow> leaves_array e" and "0 < n"
  shows "stores_from (dram t) a 0 n (dram_run ev es (D_AwTick a i n) t)"
proof (cases es)
  case Nil
  then show ?thesis by (simp add: stores_from_def)
next
  case (Cons e es')
  then have q: "leaves_array e" and qs: "\<And>e. e \<in> set es' \<Longrightarrow> leaves_array e" using assms(2) by auto
  have "stores_from (dram (e t)) a 0 n (dram_run ev (e # es') (D_AwTick a i n) t)"
    using dram_write_loop_stores [of 0 n a ev es' i
        "set_ports ev (set_ports (\<lambda>d. d\<lparr>M_AXI_aw_awready := False\<rparr>) (e t))"]
      write_burst_run [OF assms(1) qs assms(3)] assms(1,3) by simp
  with Cons q show ?thesis by (simp add: leaves_array_def)
qed

section \<open>Properties\<close>

text \<open>
  C10. At every \<open>TICK\<close> of the DRAM routine at most one of the handshake signals it drives is
  up, the one its place in the code says: \<open>arready\<close> and \<open>awready\<close> for the cycle that
  accepts an address, \<open>rvalid\<close> from the first cycle of a read beat until the design has taken
  it, \<open>wready\<close> and \<open>bvalid\<close> likewise, none while it is idle. The routine's ports are inputs
  of the design, which \<open>eval\<close> does not assign (\<open>keeps_m_axi\<close>), and the other threads and the clock,
  which act between two runs of the routine, do not drive them either (\<open>leaves_ports\<close>); apart
  from these ports they may do anything, writing the array included. The signals are
  assumed to be down when the routine starts; the program does not initialise them.
\<close>

theorem dram_handshake:
  assumes "keeps_m_axi ev" and "\<And>e. e \<in> set es \<Longrightarrow> leaves_ports e"
    and "m_axi_handshake (td_dut t) = expected_handshake dram_start"
    and "(l', t') \<in> set (dram_run ev es dram_start t)"
  shows "m_axi_handshake (td_dut t') = expected_handshake l'"
  using dram_run_handshake [OF assms(1-3)] assms(4) by auto

theorem dram_handshake_witness:
  "let t = TopDUT_new ((idle_dut ())\<lparr>M_AXI_ar_arvalid := True, M_AXI_ar_arsize := 6\<rparr>) (\<lambda>_. 0) 1024;
       t' = snd (dram_resume id dram_start t) in
    m_axi_handshake (td_dut t') = expected_handshake (D_ArTick 0 0 1)"
proof -
  let ?t = "TopDUT_new ((idle_dut ())\<lparr>M_AXI_ar_arvalid := True, M_AXI_ar_arsize := 6\<rparr>) (\<lambda>_. 0) 1024"
  have run: "(D_ArTick 0 0 1, snd (dram_resume id dram_start ?t)) \<in> set (dram_run id [id] dram_start ?t)"
    by (simp add: dram_start_def dram_top_def Let_def idle_dut_def)
  have "m_axi_handshake (td_dut (snd (dram_resume id dram_start ?t))) = expected_handshake (D_ArTick 0 0 1)"
    by (rule dram_handshake [OF _ _ _ run])
      (simp_all add: keeps_m_axi_def leaves_ports_def m_axi_handshake_def dram_start_def idle_dut_def)
  then show ?thesis by (simp only: Let_def)
qed

text \<open>
  C11. The beats of a read burst: however the design delays its \<open>rready\<close> and whatever the
  environment does in between (short of writing the array), the beats the design takes after a
  read address \<open>a\<close>, id \<open>i\<close> and \<open>n\<close> blocks are, in order and without repetition, blocks
  0, 1, 2, ... of the array from \<open>a\<close>, each with id \<open>i\<close> and with \<open>rlast\<close> exactly on the
  last; and the burst is left only after all \<open>n\<close>.
\<close>

theorem read_burst:
  assumes "keeps_m_axi ev" and "\<And>e. e \<in> set es \<Longrightarrow> quiet e" and "0 < n"
  shows "\<exists>k \<le> n. burst_beats (dram_run ev es (D_ArTick a i n) t) =
      map (\<lambda>j. (i, mem_read (dram t) (block_word a j) WORDS_PER_BLOCK, j = n - 1)) [0..<k] \<and>
    (burst_over (dram_run ev es (D_ArTick a i n) t) \<longrightarrow> k = n)"
proof -
  have "dram_beat (dram t) a i n = (\<lambda>j. (i, mem_read (dram t) (block_word a j) WORDS_PER_BLOCK, j = n - 1))"
    by (rule ext) (simp add: dram_beat_def)
  with read_burst_from_address [where t = t and a = a and i = i, OF assms] show ?thesis
    by (auto simp: beats_from_def)
qed

theorem read_burst_witness:
  "burst_beats (dram_run id (replicate 3 id) (D_ArTick 64 3 2)
        (TopDUT_new ((idle_dut ())\<lparr>M_AXI_r_rready := True\<rparr>) of_nat 1024)) =
      map (\<lambda>j. (3, mem_read of_nat (block_word 64 j) WORDS_PER_BLOCK, j = 1)) [0..<2]"
proof -
  let ?t = "TopDUT_new ((idle_dut ())\<lparr>M_AXI_r_rready := True\<rparr>) of_nat 1024"
  let ?run = "dram_run id (replicate 3 id) (D_ArTick 64 3 2) ?t"
  have over: "burst_over ?run"
    by (simp add: numeral_3_eq_3 numeral_2_eq_2 dram_code Let_def burst_over_def idle_dut_def)
  obtain k where "burst_beats ?run =
      map (\<lambda>j. (3, mem_read (dram ?t) (block_word 64 j) WORDS_PER_BLOCK, j = 2 - 1)) [0..<k]" "k = 2"
    using read_burst [where ev = id and es = "replicate 3 id" and n = 2 and a = 64 and i = 3 and t = ?t] over
    by (auto simp: keeps_m_axi_def quiet_def)
  then show ?thesis by simp
qed

text \<open>
  C12. The stores of a write burst of 1 to 256 blocks (what \<open>awlen\<close> can say): as long as no
  other thread writes the array during the burst (\<open>leaves_array\<close>; a page of the host that
  \<open>AXIRoutine\<close> stores meanwhile would show in it), and the design hands over full blocks of 16
  words, the array is at every \<open>TICK\<close> of the burst the array before it with the blocks handed
  over so far written one after the other from the word of the burst's address on, and nothing
  else; the burst is left exactly after \<open>n\<close> blocks.
\<close>

theorem write_burst:
  assumes "n \<le> 256" and "0 < n" and "\<And>e. e \<in> set es \<Longrightarrow> leaves_array e"
    and "full_blocks (dram_run ev es (D_AwTick a i n) t)"
  shows "let tr = dram_run ev es (D_AwTick a i n) t in
    length (write_blocks tr) \<le> n \<and>
    dram_after (dram t) (write_trace tr) =
      mem_write (dram t) (unat a div 4) (concat (write_blocks tr)) \<and>
    (write_over tr \<longrightarrow> length (write_blocks tr) = n)"
  using write_burst_from_address [OF assms(1,3,2), where t = t and a = a and i = i and ev = ev] assms(4)
  by (simp add: stores_from_def Let_def block_word_eq)

theorem write_burst_witness:
  "let tr = dram_run id [id, id] (D_AwTick 64 3 2)
        (TopDUT_new ((idle_dut ())\<lparr>M_AXI_w_wvalid := True, M_AXI_w_wdata := replicate 16 9\<rparr>) (\<lambda>_. 0) 1024) in
    length (write_blocks tr) \<le> 2 \<and>
    dram_after (\<lambda>_. 0) (write_trace tr) = mem_write (\<lambda>_. 0) 16 (concat (write_blocks tr))"
  using write_burst [where ev = id and es = "[id, id]" and a = 64 and i = 3 and n = 2 and
      t = "TopDUT_new ((idle_dut ())\<lparr>M_AXI_w_wvalid := True, M_AXI_w_wdata := replicate 16 9\<rparr>) (\<lambda>_. 0) 1024"]
  by (simp add: leaves_array_def full_blocks_def dram_write_loop_def dram_w_wait_def dram_store_block_def
      WORDS_PER_BLOCK_def BLOCK_SIZE_def WORD_SIZE_def Let_def)

text \<open>
  The address check of a burst covers its first byte only: block \<open>j\<close> of a burst is read
  outside the array exactly when the burst, up to that block, reaches past the end of the DRAM,
  and nothing stops it.
\<close>

theorem read_burst_bounds:
  assumes "j < n" and "n \<le> 256"
  shows "dram_oob (snd (dram_read_loop ev a i n j t)) \<longleftrightarrow>
    dram_oob t \<or> unat (td_dram_size t) div 4 < unat a div 4 + 16 * (j + 1)"
  using assms
  by (auto simp: dram_read_loop_def dram_r_wait_def Let_def dram_in_bounds_def block_word_eq
      WORDS_PER_BLOCK_def BLOCK_SIZE_def WORD_SIZE_def)

theorem read_burst_bounds_witness:
  "let t = TopDUT_new (idle_dut ()) (\<lambda>_. 0) 128;
       t' = snd (dram_read_loop id 64 0 2 1 t) in dram_oob t'"
  using read_burst_bounds [where ev = id and a = 64 and i = 0 and n = 2 and j = 1 and
      t = "TopDUT_new (idle_dut ()) (\<lambda>_. 0) 128"]
  by (simp add: Let_def)

text \<open>
  A write address is checked with the size of the read channel: a well-formed write (in
  range, aligned) ends the routine with an error whenever the idle read channel does not
  happen to show size 6, and \<open>awsize\<close> is never looked at.
\<close>

theorem write_check_uses_arsize:
  assumes "\<not> M_AXI_ar_arvalid (td_dut t)" and "M_AXI_aw_awvalid (td_dut t)"
    and "M_AXI_aw_awaddr (td_dut t) < td_dram_size t" and "M_AXI_aw_awaddr (td_dut t) AND 0x3F = 0"
  shows "(M_AXI_ar_arsize (td_dut t) \<noteq> 6 \<longrightarrow> dram_resume ev D_Top t = (D_Join, reportError t)) \<and>
    (M_AXI_ar_arsize (td_dut t) = 6 \<longrightarrow>
      fst (dram_resume ev D_Top t) = D_AwTick (M_AXI_aw_awaddr (td_dut t)) (M_AXI_aw_awid (td_dut t))
        (unat (M_AXI_aw_awlen (td_dut t)) + 1))"
  using assms by (simp add: dram_top_def dram_aw_def dram_check_failed_def Let_def)

theorem write_check_uses_arsize_witness:
  "dram_resume id D_Top (TopDUT_new ((idle_dut ())\<lparr>M_AXI_aw_awvalid := True\<rparr>) (\<lambda>_. 0) 128) =
    (D_Join, reportError (TopDUT_new ((idle_dut ())\<lparr>M_AXI_aw_awvalid := True\<rparr>) (\<lambda>_. 0) 128))"
  using write_check_uses_arsize [where ev = id and
      t = "TopDUT_new ((idle_dut ())\<lparr>M_AXI_aw_awvalid := True\<rparr>) (\<lambda>_. 0) 128"]
  by (simp add: idle_dut_def)

end
