(* ===== verification/Barrier.thy ===== *)
theory Barrier
  imports Simulator
begin

text \<open>
  What the clock barrier of \<open>server/dut.cc\<close> and the main loop of \<open>server/main.cc\<close> promise
  about every interleaving of the three subroutines, from the invariants of \<open>Clock\<close>.
\<close>

section \<open>Lemmas\<close>

lemma sim_step_length:
  "sim_step b ev k \<sigma> \<sigma>' \<Longrightarrow> length (threads \<sigma>') = length (threads \<sigma>)"
  by (induction rule: sim_step.induct) (simp_all add: tick_begin_def)

lemma reachable_length:
  "reachable b ev k \<sigma>0 \<sigma> \<Longrightarrow> length (threads \<sigma>) = length (threads \<sigma>0)"
  by (induction rule: reachable.induct) (simp_all add: sim_step_length)

lemma main_start_length [simp]: "length (threads (main_start s m1 m2)) = 3"
  by (simp add: main_start_def registerSubroutine_def)

text \<open>The simulator before its threads are registered.\<close>

definition fresh_server :: "('i, 'w) server \<Rightarrow> bool" where
  "fresh_server s \<longleftrightarrow> n_subroutines (top s) = 0 \<and> decoupled_count (top s) = 0 \<and>
     ready_thread (top s) = 0 \<and> \<not> terminating (top s)"

lemma reachable_main_inv:
  assumes "fresh_server s" and "reachable False ev k (main_start s m1 m2) \<sigma>"
  shows "barrier_inv \<sigma>"
  using reachable_barrier_inv [OF assms(2)] barrier_inv_start assms(1)
  unfolding fresh_server_def by blast

lemma not_runnable_blocked:
  assumes "n_runnable ths = 0" and "Exited \<notin> set ths" and "th \<in> set ths"
  shows "\<exists>l. th = Blocked l"
  using assms by (cases th) (auto simp: n_runnable_def filter_empty_conv)

lemma not_runnable_exited:
  assumes "n_runnable ths = 0" and "\<forall>l. Blocked l \<notin> set ths" and "th \<in> set ths"
  shows "th = Exited"
  using assms by (cases th) (auto simp: n_runnable_def filter_empty_conv)

lemma tick_done_none_runnable:
  "barrier_inv \<sigma> \<Longrightarrow> tick_done (top (srv \<sigma>)) \<longleftrightarrow> n_runnable (threads \<sigma>) = 0"
  by (auto simp: barrier_inv_def tick_done_def)

section \<open>An idle simulation\<close>

text \<open>A server none of whose subroutines has anything to do, and the runs of the three.\<close>

definition quiet_server :: "('i, pipes) server \<Rightarrow> bool" where
  "quiet_server s \<longleftrightarrow> \<not> M_AXI_ar_arvalid (td_dut (top s)) \<and> \<not> M_AXI_aw_awvalid (td_dut (top s)) \<and>
     \<not> terminating (top s) \<and> \<not> ipc_error (axil_ipc s) \<and> \<not> ipc_error (axi_ipc s) \<and>
     inbox (os s) (client_fd (axil_ipc s)) = [] \<and> inbox (os s) (client_fd (axi_ipc s)) = []"

definition idle_label :: "nat \<Rightarrow> routine_label" where
  "idle_label i = (if i = 0 then L_Dram dram_start
     else if i = 1 then L_Axil (A_Poll (\<lambda>_. 0)) else L_Axi (X_Poll (\<lambda>_. 0)))"

definition counted :: "('i, 'w) server \<Rightarrow> ('i, 'w) server" where
  "counted s = count_ready s"

lemma counted_sel [simp]:
  "quiet_server (counted s1) = quiet_server s1"
  "ready_thread (top (counted s)) = Suc (ready_thread (top s))"
  "n_subroutines (top (counted s)) = n_subroutines (top s)"
  "decoupled_count (top (counted s)) = decoupled_count (top s)"
  by (simp_all add: quiet_server_def counted_def)

lemma idle_run:
  assumes "quiet_server s"
  shows "run_thread ev (pipe_kernel 0) (idle_label i) s = Some (Blocked (idle_label i), counted s)"
proof -
  have "dram_top ev (top s) = (D_Top, top s)"
    using assms by (simp add: dram_top_def dram_aw_def quiet_server_def)
  moreover have "axil_poll ev (pipe_kernel 0) (\<lambda>_. 0) s = Some (A_Poll (\<lambda>_. 0), s)"
    by (rule axil_poll_empty) (use assms in \<open>simp_all add: quiet_server_def\<close>)
  moreover have "axi_poll ev (pipe_kernel 0) (\<lambda>_. 0) s = Some (X_Poll (\<lambda>_. 0), s)"
    by (rule axi_poll_empty) (use assms in \<open>simp_all add: quiet_server_def\<close>)
  ultimately have "subroutine_resume ev (pipe_kernel 0) (idle_label i) s = Some (idle_label i, s)"
    by (simp add: idle_label_def dram_step_def dram_start_def)
  from run_thread_eq [OF this] assms show ?thesis by (simp add: quiet_server_def counted_def)
qed

definition example_fresh :: "(unit, pipes) server" where
  "example_fresh = (srv example_sim)\<lparr>top := TopDUT_new (idle_dut ()) (\<lambda>_. 0) 0x1000000\<rparr>"

definition example_start :: "(unit, pipes) sim" where
  "example_start = main_start example_fresh (\<lambda>_. 0) (\<lambda>_. 0)"

lemma example_fresh [simp]: "fresh_server example_fresh"
  by (simp add: fresh_server_def example_fresh_def)

text \<open>The first cycle of the instance, at its start.\<close>

definition example_tick :: "(unit, pipes) sim" where
  "example_tick = tick_begin example_design M_Ticking example_start"

lemma example_tick_sel:
  "main_at example_tick = M_Ticking"
  "threads example_tick = map (Runnable \<circ> idle_label) [0, 1, 2]"
  "quiet_server (srv example_tick)" "ready_thread (top (srv example_tick)) = 0"
  "n_subroutines (top (srv example_tick)) = 3" "decoupled_count (top (srv example_tick)) = 0"
  "\<not> error_occurred (top (srv example_tick))"
  by (simp_all add: example_tick_def tick_begin_def example_start_def main_start_def idle_label_def
      registerSubroutine_def example_fresh_def quiet_server_def tick_edge_def example_design_def
      example_sim_def Let_def dump_def)

lemma example_tick_reachable: "reachable b example_design (pipe_kernel 0) example_start example_tick"
  unfolding example_tick_def
  by (rule reachable.step [OF reachable.start], rule sim_step.tick)
    (simp add: example_start_def main_start_def registerSubroutine_def)

text \<open>A kernel on which every routine gets from each \<open>TICK\<close> to the next: no call blocks.\<close>

lemma silent_request_loop:
  "0 < m \<Longrightarrow> \<exists>ipc m'. getRequest_loop silent_kernel sz this msg m c w = (False, ipc, m', w)"
  by (subst getRequest_loop.simps) (simp add: silent_kernel_def)

lemma silent_reply: "reply silent_kernel this data n w \<noteq> None"
  unfolding reply_def
  by (subst reply_loop.simps) (auto simp: silent_kernel_def)

lemma silent_polls:
  "axil_poll ev silent_kernel m s \<noteq> None" "axi_poll ev silent_kernel n s \<noteq> None"
proof -
  obtain ipc m' where "getRequestAXIL silent_kernel (axil_ipc s) m (os s) = (False, ipc, m', os s)"
    using silent_request_loop [of "int sizeof_MemoryRequestAXIL"]
    unfolding getRequestAXIL_def sizeof_MemoryRequestAXIL_def by fastforce
  then show "axil_poll ev silent_kernel m s \<noteq> None" by (subst axil_poll.simps) simp
  obtain ipc m' where "getRequestAXI silent_kernel (axi_ipc s) n (os s) = (False, ipc, m', os s)"
    using silent_request_loop [of "int sizeof_MemoryRequest"]
    unfolding getRequestAXI_def sizeof_MemoryRequest_def by fastforce
  then show "axi_poll ev silent_kernel n s \<noteq> None" by (subst axi_poll.simps) simp
qed

lemma silent_finish:
  "axil_finish ev silent_kernel m v s \<noteq> None" "axi_finish ev silent_kernel n data j s \<noteq> None"
proof -
  obtain ok ipc w where "reply silent_kernel (axil_ipc s) [v] 1 (os s) = Some (ok, ipc, w)"
    using silent_reply [of "axil_ipc s" "[v]" 1 "os s"] by auto
  then show "axil_finish ev silent_kernel m v s \<noteq> None"
    using silent_polls(1) by (cases ok) (simp_all add: axil_finish_def axil_reply_def del: not_None_eq)
  obtain ok ipc w where "reply silent_kernel (axi_ipc s) data j (os s) = Some (ok, ipc, w)"
    using silent_reply [of "axi_ipc s" data j "os s"] by auto
  then show "axi_finish ev silent_kernel n data j s \<noteq> None"
    using silent_polls(2) by (cases ok) (simp_all add: axi_finish_def axi_reply_def del: not_None_eq)
qed

lemma silent_resume: "subroutine_resume ev silent_kernel l s \<noteq> None"
proof (cases l)
  case (L_Dram x)
  then show ?thesis by (simp add: dram_step_def split: prod.split)
next
  case (L_Axil x)
  have "axil_resume ev silent_kernel x s \<noteq> None"
    by (cases x) (simp_all add: silent_polls silent_finish del: not_None_eq)
  with L_Axil show ?thesis by (simp del: not_None_eq)
next
  case (L_Axi x)
  have "axi_resume ev silent_kernel x s \<noteq> None"
    by (cases x) (simp_all add: silent_polls silent_finish axi_read_loop_def Let_def del: not_None_eq)
  with L_Axi show ?thesis by (simp del: not_None_eq)
qed

lemma run_dram_failed:
  assumes "dram_step ev D_Top s = Some (D_Join, s1)" and "\<not> terminating (top s1)"
  shows "run_thread ev k (L_Dram D_Top) s = Some (Blocked (L_Dram D_Join), counted s1)"
  using run_thread_eq [of ev k "L_Dram D_Top" s "L_Dram D_Join" s1] assms by (simp add: counted_def)

text \<open>The end of the first cycle of the instance.\<close>

definition example_end :: "(unit, pipes) sim" where
  "example_end = example_tick\<lparr>threads := map (Blocked \<circ> idle_label) [0, 1, 2],
      srv := counted (counted (counted (srv example_tick)))\<rparr>"

lemma example_chain: "run_chain example_design (pipe_kernel 0) [2, 0, 1] example_tick example_end"
proof -
  let ?s = "srv example_tick"
  let ?ths = "threads example_tick"
  let ?\<sigma>1 = "example_tick\<lparr>threads := ?ths[2 := Blocked (idle_label 2)], srv := counted ?s\<rparr>"
  let ?\<sigma>2 = "?\<sigma>1\<lparr>threads := (threads ?\<sigma>1)[0 := Blocked (idle_label 0)], srv := counted (counted ?s)\<rparr>"
  let ?\<sigma>3 = "?\<sigma>2\<lparr>threads := (threads ?\<sigma>2)[1 := Blocked (idle_label 1)],
      srv := counted (counted (counted ?s))\<rparr>"
  have c1: "run_chain example_design (pipe_kernel 0) [1] ?\<sigma>2 ?\<sigma>3"
    by (rule run_chain.chain_cons [where l = "idle_label 1", OF _ _ _ run_chain.chain_nil])
      (simp_all add: example_tick_sel idle_run)
  have c2: "run_chain example_design (pipe_kernel 0) [0, 1] ?\<sigma>1 ?\<sigma>3"
    by (rule run_chain.chain_cons [where l = "idle_label 0", OF _ _ _ c1]) (simp_all add: example_tick_sel idle_run)
  have "run_chain example_design (pipe_kernel 0) [2, 0, 1] example_tick ?\<sigma>3"
    by (rule run_chain.chain_cons [where l = "idle_label 2", OF _ _ _ c2]) (simp_all add: example_tick_sel idle_run)
  then show ?thesis by (simp add: example_tick_sel example_end_def)
qed

lemma example_end_sel:
  "tick_done (top (srv example_end))" "main_at example_end = M_Ticking"
  "\<not> error_occurred (top (srv example_end))"
  by (simp_all add: tick_done_def example_tick_sel example_end_def counted_def)

section \<open>Properties\<close>

text \<open>
  C4. Every simulated cycle runs every subroutine exactly once: from the top of the main loop,
  whatever thread gets the lock when, the runs between \<open>tick\<close>'s clock edge and the moment
  its wait is over are a permutation of the three threads. This is so as long as no wait on a
  condition variable returns without having been notified; C++ allows such spurious wakeups, and
  with one it is false.
\<close>

theorem one_run_per_cycle:
  assumes "fresh_server s" and "reachable False ev k (main_start s m1 m2) \<sigma>" and "main_at \<sigma> = M_Loop"
    and "run_chain ev k order (tick_begin ev M_Ticking \<sigma>) \<sigma>'" and "tick_done (top (srv \<sigma>'))"
  shows "distinct order \<and> set order = {0, 1, 2}"
proof -
  have inv: "barrier_inv \<sigma>" by (rule reachable_main_inv [OF assms(1,2)])
  have inv0: "barrier_inv (tick_begin ev M_Ticking \<sigma>)"
    by (rule barrier_inv_step [OF sim_step.tick [OF assms(3)] inv])
  have ex: "Exited \<notin> set (threads \<sigma>)" using inv assms(3) by (simp add: barrier_inv_def)
  have len: "length (threads \<sigma>) = 3" using reachable_length [OF assms(2)] by simp
  have start: "runnable_set (threads (tick_begin ev M_Ticking \<sigma>)) = {..<3}"
    using runnable_set_woken [OF ex] len by (simp add: tick_begin_def)
  have idle: "runnable_set (threads \<sigma>') = {}"
    using tick_done_iff [OF run_chain_inv [OF assms(4) inv0]] assms(5) by simp
  have "distinct order" "set order = {..<3}"
    using run_chain_once [OF assms(4)] start idle by auto
  moreover have "{..<3} = {0, 1, 2 :: nat}" by auto
  ultimately show ?thesis by simp
qed

theorem one_run_per_cycle_witness:
  "\<exists>\<sigma>'. run_chain example_design (pipe_kernel 0) [2, 0, 1] example_tick \<sigma>' \<and> tick_done (top (srv \<sigma>')) \<and>
    distinct [2, 0, 1 :: nat] \<and> set [2, 0, 1 :: nat] = {0, 1, 2}"
proof -
  have "main_at example_start = M_Loop"
    by (simp add: example_start_def main_start_def registerSubroutine_def)
  with example_chain example_end_sel(1)
  have "distinct [2, 0, 1 :: nat] \<and> set [2, 0, 1 :: nat] = {0, 1, 2}"
    using one_run_per_cycle [OF example_fresh reachable.start [of False example_design "pipe_kernel 0"]]
    unfolding example_tick_def example_start_def by blast
  with example_chain example_end_sel(1) show ?thesis by blast
qed

text \<open>
  C6. Without spurious wakeups, which C++ allows and which break it, the clock does not overtake a
  subroutine: when \<open>tick\<close> returns, in the main loop or on its way out of it, every thread is
  waiting for the next cycle.
\<close>

theorem tick_waits_for_all:
  assumes "fresh_server s" and "reachable False ev k (main_start s m1 m2) \<sigma>"
    and "sim_step False ev k \<sigma> \<sigma>'" and "main_at \<sigma> = M_Ticking" and "main_at \<sigma>' \<noteq> M_Ticking"
  shows "\<forall>th \<in> set (threads \<sigma>'). \<exists>l. th = Blocked l"
proof -
  have inv: "barrier_inv \<sigma>" by (rule reachable_main_inv [OF assms(1,2)])
  have ex: "Exited \<notin> set (threads \<sigma>)" using inv assms(4) by (simp add: barrier_inv_def)
  have "threads \<sigma>' = threads \<sigma> \<and> tick_done (top (srv \<sigma>))"
    using assms(3-5) by (cases rule: sim_step.cases) auto
  with tick_done_none_runnable [OF inv] not_runnable_blocked [OF _ ex] show ?thesis by auto
qed

theorem tick_waits_for_all_witness:
  "\<exists>l. threads (example_end\<lparr>main_at := M_Loop\<rparr>) ! 0 = Blocked l"
proof -
  have "\<forall>th \<in> set (threads (example_end\<lparr>main_at := M_Loop\<rparr>)). \<exists>l. th = Blocked l"
  proof (rule tick_waits_for_all [OF example_fresh])
    show "reachable False example_design (pipe_kernel 0) (main_start example_fresh (\<lambda>_. 0) (\<lambda>_. 0)) example_end"
      using run_chain_reachable [OF example_chain example_tick_reachable] by (simp add: example_start_def)
    show "sim_step False example_design (pipe_kernel 0) example_end (example_end\<lparr>main_at := M_Loop\<rparr>)"
      by (rule sim_step.tick_end) (simp_all add: example_end_sel)
  qed (simp_all add: example_end_sel)
  then show ?thesis by (simp add: example_end_def)
qed

text \<open>
  C8. A subroutine that has given up (a failed \<open>CHECK\<close>, a dead connection) ends the
  simulation: its error is recorded, with or without spurious wakeups, and the main loop does
  not start another cycle after the one in progress.
\<close>

theorem failed_routine_stops:
  assumes "reachable b ev k (main_start s m1 m2) \<sigma>" and "th \<in> set (threads \<sigma>)"
    and "thread_label th = Some l" and "routine_failed l" and "sim_step b ev k \<sigma> \<sigma>'"
  shows "error_occurred (top (srv \<sigma>)) \<and> (main_at \<sigma> = M_Ticking \<longrightarrow> main_at \<sigma>' \<noteq> M_Loop)"
proof -
  have err: "error_occurred (top (srv \<sigma>))"
    using reachable_failure_inv [OF assms(1) failure_inv_start] assms(2-4)
    by (auto simp: failure_inv_def)
  have "main_at \<sigma>' \<noteq> M_Loop" if "main_at \<sigma> = M_Ticking"
    using assms(5) that err by (cases rule: sim_step.cases) (auto simp: tick_begin_def)
  with err show ?thesis by blast
qed

theorem failed_routine_stops_witness:
  "let t = TopDUT_new ((idle_dut ())\<lparr>M_AXI_ar_arvalid := True, M_AXI_ar_araddr := 0x1000000\<rparr>) (\<lambda>_. 0) 0x1000000;
       \<sigma>0 = main_start (example_fresh\<lparr>top := t\<rparr>) (\<lambda>_. 0) (\<lambda>_. 0);
       \<sigma> = \<sigma>0\<lparr>threads := (threads \<sigma>0)[0 := Blocked (L_Dram D_Join)],
            srv := counted (on_top reportError (srv \<sigma>0))\<rparr>
   in error_occurred (top (srv \<sigma>))"
proof -
  let ?t = "TopDUT_new ((idle_dut ())\<lparr>M_AXI_ar_arvalid := True, M_AXI_ar_araddr := 0x1000000\<rparr>) (\<lambda>_. 0) 0x1000000"
  let ?start = "main_start (example_fresh\<lparr>top := ?t\<rparr>) (\<lambda>_. 0) (\<lambda>_. 0)"
  let ?fail = "?start\<lparr>threads := (threads ?start)[0 := Blocked (L_Dram D_Join)],
      srv := counted (on_top reportError (srv ?start))\<rparr>"
  have "dram_step id D_Top (srv ?start) = Some (D_Join, on_top reportError (srv ?start))"
    by (simp add: dram_step_def dram_top_def Let_def main_start_def registerSubroutine_def
        dram_check_failed_def on_top_def)
  then have "run_thread id (pipe_kernel 0) (L_Dram D_Top) (srv ?start) =
      Some (Blocked (L_Dram D_Join), counted (on_top reportError (srv ?start)))"
    by (rule run_dram_failed) (simp add: main_start_def registerSubroutine_def)
  then have "sim_step True id (pipe_kernel 0) ?start ?fail"
    by (intro sim_step.run [where l = "L_Dram D_Top"])
      (simp_all add: main_start_def registerSubroutine_def dram_start_def)
  then have reach: "reachable True id (pipe_kernel 0) ?start ?fail"
    by (rule reachable.step [OF reachable.start])
  have "sim_step True id (pipe_kernel 0) ?fail
      (?fail\<lparr>threads := (threads ?fail)[0 := Runnable (L_Dram D_Join)]\<rparr>)"
    by (rule sim_step.spurious_wakeup) (simp_all add: main_start_def registerSubroutine_def)
  from failed_routine_stops [OF reach _ _ _ this, of "Blocked (L_Dram D_Join)" "L_Dram D_Join"]
  have "error_occurred (top (srv ?fail))"
    by (simp add: main_start_def registerSubroutine_def)
  then show ?thesis by (simp only: Let_def)
qed

text \<open>
  C7. Without spurious wakeups (a wait on a condition variable that returns without having been
  notified, as C++ allows), the simulation does not deadlock, and ends cleanly: as long as every
  subroutine gets from each \<open>TICK\<close> to the next (no loop inside one runs forever), every state
  so reached that is not the end of \<open>main\<close> has a next step, and when \<open>main\<close> gets to joining
  the threads they have all returned.
\<close>

theorem no_deadlock:
  assumes "fresh_server s" and "reachable False ev k (main_start s m1 m2) \<sigma>"
    and "\<And>l s. subroutine_resume ev k l s \<noteq> None" and "main_at \<sigma> \<noteq> M_Done"
  shows "(\<exists>\<sigma>'. sim_step False ev k \<sigma> \<sigma>') \<and>
    (main_at \<sigma> = M_Joining \<longrightarrow> (\<forall>th \<in> set (threads \<sigma>). th = Exited))"
proof -
  have inv: "barrier_inv \<sigma>" by (rule reachable_main_inv [OF assms(1,2)])
  have run: "\<exists>\<sigma>'. sim_step False ev k \<sigma> \<sigma>'" if "n_runnable (threads \<sigma>) \<noteq> 0"
  proof -
    from that obtain th where th: "th \<in> set (threads \<sigma>)" "is_runnable th"
      by (auto simp: n_runnable_def filter_empty_conv)
    from th(2) obtain l where "th = Runnable l" by (cases th) auto
    with th(1) obtain i where i: "i < length (threads \<sigma>)" "threads \<sigma> ! i = Runnable l"
      by (metis in_set_conv_nth)
    from assms(3) [of l "srv \<sigma>"] obtain l' s1 where "subroutine_resume ev k l (srv \<sigma>) = Some (l', s1)"
      by fastforce
    from sim_step.run [OF i run_thread_eq [OF this]] show ?thesis by blast
  qed
  have exited: "\<forall>th \<in> set (threads \<sigma>). th = Exited" if "main_at \<sigma> = M_Joining"
    using inv that not_runnable_exited by (auto simp: barrier_inv_def)
  have "\<exists>\<sigma>'. sim_step False ev k \<sigma> \<sigma>'"
  proof (cases "n_runnable (threads \<sigma>) = 0")
    case False
    then show ?thesis by (rule run)
  next
    case True
    then have tick: "tick_done (top (srv \<sigma>))" using tick_done_none_runnable [OF inv] by simp
    show ?thesis
    proof (cases "main_at \<sigma>")
      case M_Ticking
      with tick show ?thesis
        by (cases "error_occurred (top (srv \<sigma>))") (blast intro: sim_step.tick_end sim_step.tick_break)+
    qed (use tick exited assms(4) in \<open>auto intro: sim_step.intros\<close>)
  qed
  with exited show ?thesis by blast
qed

theorem no_deadlock_witness:
  "\<exists>\<sigma>'. sim_step False id silent_kernel (main_start
      \<lparr>top = TopDUT_new (idle_dut ()) (\<lambda>_. 0) 128, axil_ipc = axil_ipc example_fresh,
       axi_ipc = axi_ipc example_fresh, os = ()\<rparr> (\<lambda>_. 0) (\<lambda>_. 0)) \<sigma>'"
proof -
  let ?s = "\<lparr>top = TopDUT_new (idle_dut ()) (\<lambda>_. 0) 128, axil_ipc = axil_ipc example_fresh,
       axi_ipc = axi_ipc example_fresh, os = ()\<rparr>"
  have "fresh_server ?s" by (simp add: fresh_server_def)
  moreover have "subroutine_resume id silent_kernel l s \<noteq> None"
    for l and s :: "(unit, unit) server" by (rule silent_resume)
  moreover have "main_at (main_start ?s (\<lambda>_. 0) (\<lambda>_. 0)) \<noteq> M_Done"
    by (simp add: main_start_def registerSubroutine_def)
  ultimately show ?thesis
    using no_deadlock [OF _ reachable.start [of False id silent_kernel]] by blast
qed

text \<open>
  C24. The wait of a subroutine for the clock has no predicate, so a spurious wakeup, which the
  C++ standard allows, breaks the barrier: with one, \<open>tick\<close> can find its condition true
  while a subroutine has not run in this cycle at all.
\<close>

theorem spurious_wakeup_breaks_barrier:
  "\<exists>\<sigma>. reachable True example_design (pipe_kernel 0) example_start \<sigma> \<and> main_at \<sigma> = M_Ticking \<and>
    tick_done (top (srv \<sigma>)) \<and> threads \<sigma> ! 2 = threads example_tick ! 2 \<and> is_runnable (threads \<sigma> ! 2)"
proof -
  let ?k = "pipe_kernel 0" and ?ev = example_design
  let ?s = "srv example_tick"
  let ?s1 = "counted ?s"
  let ?s2 = "counted ?s1"
  let ?s3 = "counted ?s2"
  let ?\<sigma>1 = "example_tick\<lparr>threads := (threads example_tick)[0 := Blocked (idle_label 0)], srv := ?s1\<rparr>"
  let ?\<sigma>2 = "?\<sigma>1\<lparr>threads := (threads ?\<sigma>1)[0 := Runnable (idle_label 0)]\<rparr>"
  let ?\<sigma>3 = "?\<sigma>2\<lparr>threads := (threads ?\<sigma>2)[0 := Blocked (idle_label 0)], srv := ?s2\<rparr>"
  let ?\<sigma>4 = "?\<sigma>3\<lparr>threads := (threads ?\<sigma>3)[1 := Blocked (idle_label 1)], srv := ?s3\<rparr>"
  have "sim_step True ?ev ?k example_tick ?\<sigma>1"
    by (rule sim_step.run [where l = "idle_label 0"]) (simp_all add: example_tick_sel idle_run)
  then have "reachable True ?ev ?k example_start ?\<sigma>1"
    by (rule reachable.step [OF example_tick_reachable])
  moreover have "sim_step True ?ev ?k ?\<sigma>1 ?\<sigma>2"
    by (rule sim_step.spurious_wakeup) (simp_all add: example_tick_sel)
  ultimately have "reachable True ?ev ?k example_start ?\<sigma>2" by (rule reachable.step)
  moreover have "sim_step True ?ev ?k ?\<sigma>2 ?\<sigma>3"
    by (rule sim_step.run [where l = "idle_label 0"]) (simp_all add: example_tick_sel idle_run)
  ultimately have "reachable True ?ev ?k example_start ?\<sigma>3" by (rule reachable.step)
  moreover have "sim_step True ?ev ?k ?\<sigma>3 ?\<sigma>4"
    by (rule sim_step.run [where l = "idle_label 1"]) (simp_all add: example_tick_sel idle_run)
  ultimately have "reachable True ?ev ?k example_start ?\<sigma>4" by (rule reachable.step)
  then show ?thesis
    by (rule exI [of _ ?\<sigma>4, OF conjI]) (simp add: example_tick_sel tick_done_def)
qed

end
