(* ===== verification/Server_Main.thy ===== *)
theory Server_Main
  imports Barrier
begin

text \<open>
  The rest of \<open>server/main.cc\<close> and \<open>server/dut.cc\<close>: the set-up \<open>main\<close> goes through
  before its loop, the signal handler, and the two functions with which a subroutine leaves
  the clock barrier and comes back.
\<close>

section \<open>The signal handler\<close>

record signal_flags =
  closeprogram :: bool
  waitForIPC :: bool

text \<open>\<open>None\<close> is \<open>exit(1)\<close>.\<close>

definition signalHandler :: "signal_flags \<Rightarrow> signal_flags option" where
  "signalHandler f =
     (let f1 = f\<lparr>closeprogram := True\<rparr> in if waitForIPC f1 then None else Some f1)"

section \<open>Setting up\<close>

text \<open>
  \<open>remove\<close> is \<open>std::remove\<close>, \<open>d0\<close>, \<open>mem0\<close>, \<open>axil0\<close>, \<open>axi0\<close>, \<open>m1\<close> and \<open>m2\<close>
  the storage the objects are built in. The results of \<open>waitForClient\<close> are not looked at.
\<close>

definition main_setup ::
  "('i VARMFlexTop \<Rightarrow> 'i VARMFlexTop) \<Rightarrow> 'w kernel \<Rightarrow> (string \<Rightarrow> 'w \<Rightarrow> 'w) \<Rightarrow> 'i VARMFlexTop \<Rightarrow>
   (nat \<Rightarrow> u32) \<Rightarrow> IPCServer \<Rightarrow> IPCServer \<Rightarrow> 'w \<Rightarrow> ('i, 'w) server" where
  "main_setup ev k remove d0 mem0 axil0 axi0 w =
     (let dut = TopDUT_reset ev (TopDUT_new d0 mem0 (1024 * 1024 * 16));
          w1 = remove ''/dev/shm/axi'' w;
          w2 = remove ''/dev/shm/axi_lite'' w1;
          (axil1, w3) = IPCServer_new k axil0 ''/dev/shm/axi_lite'' w2;
          (axi1, w4) = IPCServer_new k axi0 ''/dev/shm/axi'' w3;
          (_, axil2, w5) = waitForClient k axil1 w4;
          (_, axi2, w6) = waitForClient k axi1 w5
      in \<lparr>top = dut, axil_ipc = axil2, axi_ipc = axi2, os = w6\<rparr>)"

definition main_enters_loop ::
  "('i VARMFlexTop \<Rightarrow> 'i VARMFlexTop) \<Rightarrow> 'w kernel \<Rightarrow> (string \<Rightarrow> 'w \<Rightarrow> 'w) \<Rightarrow> 'i VARMFlexTop \<Rightarrow>
   (nat \<Rightarrow> u32) \<Rightarrow> IPCServer \<Rightarrow> IPCServer \<Rightarrow> (nat \<Rightarrow> u8) \<Rightarrow> (nat \<Rightarrow> u8) \<Rightarrow> 'w \<Rightarrow> ('i, 'w) sim" where
  "main_enters_loop ev k remove d0 mem0 axil0 axi0 m1 m2 w =
     main_start (main_setup ev k remove d0 mem0 axil0 axi0 w) m1 m2"

section \<open>Leaving the barrier\<close>

text \<open>
  \<open>ids\<close> are the thread identifiers of \<open>subroutines\<close>, \<open>me\<close> the calling thread's; \<open>None\<close>
  is the failed assertion. The counter is a \<open>size_t\<close>. No subroutine calls either function:
  the calls are commented out.
\<close>

definition decoupleCurrentRoutine :: "nat list \<Rightarrow> nat \<Rightarrow> 'i TopDUT \<Rightarrow> 'i TopDUT option" where
  "decoupleCurrentRoutine ids me t =
     (if me \<in> set ids then Some (t\<lparr>decoupled_count := (decoupled_count t + 1) mod 2 ^ 64\<rparr>)
      else None)"

definition attachCurrentRoutine :: "nat list \<Rightarrow> nat \<Rightarrow> 'i TopDUT \<Rightarrow> 'i TopDUT option" where
  "attachCurrentRoutine ids me t =
     (if me \<in> set ids then Some (t\<lparr>decoupled_count :=
        (if decoupled_count t = 0 then 2 ^ 64 - 1 else decoupled_count t - 1)\<rparr>)
      else None)"

section \<open>Lemmas\<close>

lemma TopDUT_reset_sel [simp]:
  "n_subroutines (TopDUT_reset ev t) = n_subroutines t"
  "decoupled_count (TopDUT_reset ev t) = decoupled_count t"
  "ready_thread (TopDUT_reset ev t) = ready_thread t"
  "terminating (TopDUT_reset ev t) = terminating t"
  "td_dram_size (TopDUT_reset ev t) = td_dram_size t"
  "dram_addr_mask (TopDUT_reset ev t) = dram_addr_mask t"
  "axi_base_addr (TopDUT_reset ev t) = axi_base_addr t"
  "error_occurred (TopDUT_reset ev t) = error_occurred t"
  by (simp_all add: TopDUT_reset_def dump_def Let_def)

lemma main_setup_top:
  "top (main_setup ev k remove d0 mem0 axil0 axi0 w) =
     TopDUT_reset ev (TopDUT_new d0 mem0 (1024 * 1024 * 16))"
  by (simp add: main_setup_def Let_def split: prod.splits)

lemma main_setup_fresh: "fresh_server (main_setup ev k remove d0 mem0 axil0 axi0 w)"
  by (simp add: fresh_server_def main_setup_top)

lemma IPCServer_new_connected:
  assumes "IPCServer_new k this0 name w = (this, w')" and "\<not> ipc_error this"
  shows "client_fd this = -1"
  using assms by (auto simp: IPCServer_new_def Let_def split: prod.splits if_splits)

lemma waitForClient_error:
  assumes "waitForClient k this w = (ok, this', w')"
  shows "ok \<longleftrightarrow> \<not> ipc_error this'" and "ipc_error this \<Longrightarrow> ipc_error this'"
  using assms by (auto simp: waitForClient_def Let_def split: prod.splits if_splits)

lemma axil_poll_error:
  assumes "ipc_error (axil_ipc s)"
  shows "axil_poll ev k m s = Some (axil_fail m s)"
proof -
  have "getRequestAXIL k (axil_ipc s) m (os s) = (False, axil_ipc s, m, os s)"
    using assms by (simp add: getRequestAXIL_def sizeof_MemoryRequestAXIL_def getRequest_loop.simps)
  then show ?thesis
    using assms by (subst axil_poll.simps) (simp add: hasPendingError_def)
qed


lemma axi_poll_error:
  assumes "ipc_error (axi_ipc s)"
  shows "axi_poll ev k m s = Some (axi_fail m s)"
proof -
  have "getRequestAXI k (axi_ipc s) m (os s) = (False, axi_ipc s, m, os s)"
    using assms by (simp add: getRequestAXI_def sizeof_MemoryRequest_def getRequest_loop.simps)
  then show ?thesis
    using assms by (subst axi_poll.simps) (simp add: hasPendingError_def)
qed

subsection \<open>A subroutine only uses its own IPC server\<close>

lemma started_ipc [simp]:
  "axi_ipc (snd (axil_transaction ev m s)) = axi_ipc s"
  "axil_ipc (snd (axi_start_write ev m s)) = axil_ipc s"
  "axil_ipc (snd (axi_start_read ev m s)) = axil_ipc s"
  by (simp_all add: axil_code axi_code Let_def)

lemma axil_poll_axi_ipc:
  assumes "axil_poll ev k m s = Some (l', s')"
  shows "axi_ipc s' = axi_ipc s"
proof -
  have "axi_ipc (snd r) = axi_ipc s" if "axil_poll ev k m s = Some r" for r
  proof (rule axil_poll.raw_induct [OF _ that])
    fix poll and ev :: "'a VARMFlexTop \<Rightarrow> 'a VARMFlexTop" and k :: "'b kernel" and m s r
    assume IH: "\<And>ev k m s r. poll ev k m s = Some r \<Longrightarrow> axi_ipc (snd r) = axi_ipc s"
      and eq: "(case getRequestAXIL k (axil_ipc s) m (os s) of (got, ipc, m1, w) \<Rightarrow>
        if \<not> got then
          (if hasPendingError ipc then Some (axil_fail m1 (s\<lparr>axil_ipc := ipc, os := w\<rparr>))
           else Some (A_Poll m1, s\<lparr>axil_ipc := ipc, os := w\<rparr>))
        else if srv_axil_is_write (srv_MemoryRequestAXIL_of m1) = 0xDEED then
          (if 0 < unat (srv_axil_w_data (srv_MemoryRequestAXIL_of m1))
           then Some (A_Magic m1 0, s\<lparr>axil_ipc := ipc, os := w\<rparr>)
           else case axil_reply k 0 (s\<lparr>axil_ipc := ipc, os := w\<rparr>) of
               None \<Rightarrow> None
             | Some (ok, s2) \<Rightarrow> if ok then poll ev k m1 s2 else Some (axil_fail m1 s2))
        else Some (axil_transaction ev m1 (s\<lparr>axil_ipc := ipc, os := w\<rparr>))) = Some r"
    obtain got ipc m1 w where get: "getRequestAXIL k (axil_ipc s) m (os s) = (got, ipc, m1, w)"
      by (cases "getRequestAXIL k (axil_ipc s) m (os s)")
    show "axi_ipc (snd r) = axi_ipc s"
      using eq
      by (auto simp: get axil_fail_def split: if_splits option.splits dest!: IH axil_reply_top)
  qed
  from this [OF assms] show ?thesis by simp
qed

lemma axil_finish_axi_ipc:
  assumes "axil_finish ev k m v s = Some (l', s')"
  shows "axi_ipc s' = axi_ipc s"
  using assms
  by (auto simp: axil_finish_def axil_fail_def bind_eq_Some_conv split: if_splits
      dest!: axil_reply_top axil_poll_axi_ipc)

lemma axil_resume_axi_ipc:
  assumes "axil_resume ev k l s = Some (l', s')"
  shows "axi_ipc s' = axi_ipc s"
  using assms
  by (cases l) (auto simp: axil_code split: if_splits
      dest: axil_poll_axi_ipc dest!: axil_finish_axi_ipc)

lemma AXI_DRAM_access_axil_ipc:
  assumes "AXI_DRAM_access k req s = Some (res, s')"
  shows "axil_ipc s' = axil_ipc s"
proof -
  have *: "axil_ipc s' = axil_ipc s" if "do {
      (ok, s2) \<leftarrow> axi_reply k data n (on_top f s);
      if \<not> ok then Some (-1, on_top reportError s2) else Some (0, s2)
    } = Some (res :: int, s')" for data n f
  proof -
    from that obtain ok s2 where r: "axi_reply k data n (on_top f s) = Some (ok, s2)"
      and res: "(if \<not> ok then Some (-1, on_top reportError s2) else Some (0, s2)) = Some (res, s')"
      by (cases "axi_reply k data n (on_top f s)") auto
    from axi_reply_top [OF r] res show ?thesis by (cases ok) auto
  qed
  show ?thesis
  proof (cases "srv_is_write req = 0")
    case True
    then have "\<not> srv_is_write req \<noteq> 0" by simp
    from assms [unfolded AXI_DRAM_access_def Let_def if_not_P [OF this]] show ?thesis by (rule *)
  next
    case False
    from assms [unfolded AXI_DRAM_access_def Let_def if_P [OF False]] show ?thesis by (rule *)
  qed
qed

lemma axi_poll_axil_ipc:
  assumes "axi_poll ev k m s = Some (l', s')"
  shows "axil_ipc s' = axil_ipc s"
proof -
  have "axil_ipc (snd r) = axil_ipc s" if "axi_poll ev k m s = Some r" for r
  proof (rule axi_poll.raw_induct [OF _ that])
    fix poll and ev :: "'a VARMFlexTop \<Rightarrow> 'a VARMFlexTop" and k :: "'b kernel" and m s r
    assume IH: "\<And>ev k m s r. poll ev k m s = Some r \<Longrightarrow> axil_ipc (snd r) = axil_ipc s"
      and eq: "(case getRequestAXI k (axi_ipc s) m (os s) of (got, ipc, m1, w) \<Rightarrow>
        if \<not> got then
          (if hasPendingError ipc then Some (axi_fail m1 (s\<lparr>axi_ipc := ipc, os := w\<rparr>))
           else Some (X_Poll m1, s\<lparr>axi_ipc := ipc, os := w\<rparr>))
        else if unat (srv_byte_size (srv_MemoryRequest_of m1)) mod 64 \<noteq> 0 then
          Some (X_Join, on_top reportError (s\<lparr>axi_ipc := ipc, os := w\<rparr>))
        else if isAXIDRAM (top s) (srv_addr (srv_MemoryRequest_of m1)) then
          (case AXI_DRAM_access k (srv_MemoryRequest_of m1) (s\<lparr>axi_ipc := ipc, os := w\<rparr>) of
             None \<Rightarrow> None
           | Some (res, s2) \<Rightarrow> if res = -1 then Some (X_ErrTick m1, s2) else poll ev k m1 s2)
        else if srv_is_write (srv_MemoryRequest_of m1) \<noteq> 0 then
          Some (axi_start_write ev m1 (s\<lparr>axi_ipc := ipc, os := w\<rparr>))
        else Some (axi_start_read ev m1 (s\<lparr>axi_ipc := ipc, os := w\<rparr>))) = Some r"
    obtain got ipc m1 w where get: "getRequestAXI k (axi_ipc s) m (os s) = (got, ipc, m1, w)"
      by (cases "getRequestAXI k (axi_ipc s) m (os s)")
    show "axil_ipc (snd r) = axil_ipc s"
      using eq
      by (auto simp: get axi_fail_def split: if_splits option.splits
          dest!: IH AXI_DRAM_access_axil_ipc)
  qed
  from this [OF assms] show ?thesis by simp
qed

lemma axi_finish_axil_ipc:
  assumes "axi_finish ev k m data n s = Some (l', s')"
  shows "axil_ipc s' = axil_ipc s"
  using assms
  by (auto simp: axi_finish_def axi_fail_def bind_eq_Some_conv split: if_splits
      dest!: axi_reply_top axi_poll_axil_ipc)

lemma axi_read_loop_axil_ipc:
  assumes "axi_read_loop ev k m j s = Some (l', s')"
  shows "axil_ipc s' = axil_ipc s"
  using assms
  by (auto simp: axi_read_loop_def axi_r_wait_def Let_def split: if_splits
      dest!: axi_finish_axil_ipc)

lemma axi_resume_axil_ipc:
  assumes "axi_resume ev k l s = Some (l', s')"
  shows "axil_ipc s' = axil_ipc s"
  using assms
  by (cases l) (auto simp: axi_code Let_def split: if_splits
      dest: axi_poll_axil_ipc dest!: axi_finish_axil_ipc axi_read_loop_axil_ipc)


lemma dram_step_ipc:
  assumes "dram_step ev l s = Some (l', s')"
  shows "axil_ipc s' = axil_ipc s \<and> axi_ipc s' = axi_ipc s"
  using assms by (auto simp: dram_step_def split: prod.splits)

lemma run_thread_obtain:
  assumes "run_thread ev k l s = Some (th, s')"
  obtains l' s1 where "subroutine_resume ev k l s = Some (l', s1)"
    "s' = s1\<lparr>top := (top s1)\<lparr>ready_thread := ready_thread (top s1) + 1\<rparr>\<rparr>"
  using assms
  by (cases "subroutine_resume ev k l s") (auto simp: run_thread_None run_thread_eq)

section \<open>Which thread runs which routine\<close>

fun routine_kind :: "routine_label \<Rightarrow> nat" where
  "routine_kind (L_Dram l) = 0"
| "routine_kind (L_Axil l) = 1"
| "routine_kind (L_Axi l) = 2"

definition kinds_ok :: "thread list \<Rightarrow> bool" where
  "kinds_ok ths \<longleftrightarrow> length ths = 3 \<and>
     (\<forall>i l. i < 3 \<longrightarrow> ths ! i = Runnable l \<or> ths ! i = Blocked l \<longrightarrow> routine_kind l = i)"

lemma resume_kind:
  assumes "subroutine_resume ev k l s = Some (l', s')"
  shows "routine_kind l' = routine_kind l"
  using assms by (cases l) auto

lemma kinds_ok_update:
  assumes "kinds_ok ths" and "i < 3" and "\<And>l. th = Runnable l \<or> th = Blocked l \<Longrightarrow> routine_kind l = i"
  shows "kinds_ok (ths[i := th])"
  using assms by (auto simp: kinds_ok_def nth_list_update)

lemma kinds_ok_wake: "kinds_ok ths \<Longrightarrow> kinds_ok (map wake ths)"
proof -
  have "wake th = Runnable l \<or> wake th = Blocked l \<Longrightarrow> th = Runnable l \<or> th = Blocked l" for th l
    by (cases th) auto
  then show "kinds_ok ths \<Longrightarrow> kinds_ok (map wake ths)"
    by (simp add: kinds_ok_def) blast
qed

lemma kinds_ok_step:
  assumes "sim_step b ev k \<sigma> \<sigma>'" and "kinds_ok (threads \<sigma>)"
  shows "kinds_ok (threads \<sigma>')"
  using assms
proof (induction rule: sim_step.induct)
  case (run i \<sigma> l th s')
  from run(3) obtain l' s1 where r: "subroutine_resume ev k l (srv \<sigma>) = Some (l', s1)"
    by (rule run_thread_obtain)
  from run.prems run(1,2) have i: "i < 3" "routine_kind l = i" by (auto simp: kinds_ok_def)
  have "th = Exited \<or> th = Blocked l'"
    using run(3) run_thread_eq [OF r] by (auto split: if_splits)
  then have "kinds_ok ((threads \<sigma>)[i := th])"
    by (intro kinds_ok_update) (use run.prems i resume_kind [OF r] in auto)
  then show ?case by simp
next
  case (spurious_wakeup i \<sigma> l)
  then have "i < 3" "routine_kind l = i" by (auto simp: kinds_ok_def)
  then have "kinds_ok ((threads \<sigma>)[i := Runnable l])"
    by (intro kinds_ok_update) (use spurious_wakeup.prems in auto)
  then show ?case by simp
qed (simp_all add: tick_begin_def kinds_ok_wake del: set_map)

lemma kinds_ok_start: "kinds_ok (threads (main_start s m1 m2))"
proof -
  have "threads (main_start s m1 m2) =
      [Runnable (L_Dram dram_start), Runnable (L_Axil (A_Poll m1)), Runnable (L_Axi (X_Poll m2))]"
    by (simp add: main_start_def registerSubroutine_def)
  then show ?thesis by (auto simp: kinds_ok_def nth_Cons split: nat.splits)
qed

section \<open>A set-up that failed\<close>

text \<open>A thread that is going to report an error as soon as it runs.\<close>

definition doomed :: "(nat \<Rightarrow> u8) \<Rightarrow> (nat \<Rightarrow> u8) \<Rightarrow> ('i, 'w) sim \<Rightarrow> bool" where
  "doomed m1 m2 \<sigma> \<longleftrightarrow>
     threads \<sigma> ! 1 = Runnable (L_Axil (A_Poll m1)) \<and> ipc_error (axil_ipc (srv \<sigma>)) \<or>
     threads \<sigma> ! 2 = Runnable (L_Axi (X_Poll m2)) \<and> ipc_error (axi_ipc (srv \<sigma>))"

lemma resume_other_ipc:
  assumes "subroutine_resume ev k l s = Some (l', s')"
  shows "routine_kind l \<noteq> 1 \<Longrightarrow> axil_ipc s' = axil_ipc s"
    and "routine_kind l \<noteq> 2 \<Longrightarrow> axi_ipc s' = axi_ipc s"
  using assms
  by (cases l, auto dest: dram_step_ipc axil_resume_axi_ipc axi_resume_axil_ipc)+

lemma doomed_run:
  assumes "run_thread ev k l (srv \<sigma>) = Some (th, s')" and "threads \<sigma> ! i = Runnable l"
    and "i < length (threads \<sigma>)" and "doomed m1 m2 \<sigma>" and "kinds_ok (threads \<sigma>)"
  shows "error_occurred (top s') \<or> doomed m1 m2 (\<sigma>\<lparr>threads := (threads \<sigma>)[i := th], srv := s'\<rparr>)"
proof -
  from assms(1) obtain l' s1 where r: "subroutine_resume ev k l (srv \<sigma>) = Some (l', s1)"
    and s': "s' = s1\<lparr>top := (top s1)\<lparr>ready_thread := ready_thread (top s1) + 1\<rparr>\<rparr>"
    by (rule run_thread_obtain)
  from assms(2,3,5) have i: "routine_kind l = i" "i < 3" by (auto simp: kinds_ok_def)
  from assms(4) consider
      (axil) "threads \<sigma> ! 1 = Runnable (L_Axil (A_Poll m1))" "ipc_error (axil_ipc (srv \<sigma>))"
    | (axi) "threads \<sigma> ! 2 = Runnable (L_Axi (X_Poll m2))" "ipc_error (axi_ipc (srv \<sigma>))"
    by (auto simp: doomed_def)
  then show ?thesis
  proof cases
    case axil
    show ?thesis
    proof (cases "i = 1")
      case True
      with axil assms(2) have "l = L_Axil (A_Poll m1)" by simp
      with r axil(2) s' show ?thesis by (auto simp: axil_poll_error axil_fail_def)
    next
      case False
      with resume_other_ipc(1) [OF r] i have "axil_ipc s1 = axil_ipc (srv \<sigma>)" by simp
      with axil False s' show ?thesis by (simp add: doomed_def)
    qed
  next
    case axi
    show ?thesis
    proof (cases "i = 2")
      case True
      with axi assms(2) have "l = L_Axi (X_Poll m2)" by simp
      with r axi(2) s' show ?thesis by (auto simp: axi_poll_error axi_fail_def)
    next
      case False
      with resume_other_ipc(2) [OF r] i have "axi_ipc s1 = axi_ipc (srv \<sigma>)" by simp
      with axi False s' show ?thesis by (simp add: doomed_def)
    qed
  qed
qed

text \<open>Until the loop is left, the error is pending and the first tick has not been over.\<close>

definition first_tick :: "(nat \<Rightarrow> u8) \<Rightarrow> (nat \<Rightarrow> u8) \<Rightarrow> nat \<Rightarrow> ('i, 'w) sim \<Rightarrow> bool" where
  "first_tick m1 m2 time0 \<sigma> \<longleftrightarrow> barrier_inv \<sigma> \<and> kinds_ok (threads \<sigma>) \<and>
     (main_at \<sigma> \<in> {M_Loop, M_Ticking} \<longrightarrow>
        error_occurred (top (srv \<sigma>)) \<or> doomed m1 m2 \<sigma>) \<and>
     (main_at \<sigma> = M_Loop \<longrightarrow> td_time (top (srv \<sigma>)) = time0)"

lemma doomed_not_done:
  assumes "barrier_inv \<sigma>" and "kinds_ok (threads \<sigma>)" and "doomed m1 m2 \<sigma>"
  shows "\<not> tick_done (top (srv \<sigma>))"
proof -
  from assms(2) have len: "length (threads \<sigma>) = 3" by (simp add: kinds_ok_def)
  from assms(3) have "is_runnable (threads \<sigma> ! 1) \<or> is_runnable (threads \<sigma> ! 2)"
    by (auto simp: doomed_def)
  with len have "\<exists>th \<in> set (threads \<sigma>). is_runnable th"
    by (auto intro: nth_mem)
  then have "n_runnable (threads \<sigma>) \<noteq> 0" by (auto simp: n_runnable_def filter_empty_conv)
  with tick_done_none_runnable [OF assms(1)] show ?thesis by simp
qed

lemma first_tick_step:
  assumes "sim_step False ev k \<sigma> \<sigma>'" and "first_tick m1 m2 time0 \<sigma>"
  shows "first_tick m1 m2 time0 \<sigma>'"
proof -
  have inv: "barrier_inv \<sigma>'" "kinds_ok (threads \<sigma>')"
    using assms barrier_inv_step kinds_ok_step by (auto simp: first_tick_def)
  have "(main_at \<sigma>' \<in> {M_Loop, M_Ticking} \<longrightarrow> error_occurred (top (srv \<sigma>')) \<or> doomed m1 m2 \<sigma>') \<and>
      (main_at \<sigma>' = M_Loop \<longrightarrow> td_time (top (srv \<sigma>')) = time0)"
    using assms
  proof (induction rule: sim_step.induct)
    case (tick \<sigma>)
    then have "length (threads \<sigma>) = 3" by (simp add: first_tick_def kinds_ok_def)
    with tick show ?case by (auto simp: first_tick_def tick_begin_def doomed_def)
  next
    case (tick_end \<sigma>)
    then show ?case using doomed_not_done by (auto simp: first_tick_def)
  next
    case (run i \<sigma> l th s')
    from run(3) obtain l' s1 where r: "subroutine_resume ev k l (srv \<sigma>) = Some (l', s1)"
      and s': "s' = s1\<lparr>top := (top s1)\<lparr>ready_thread := ready_thread (top s1) + 1\<rparr>\<rparr>"
      by (rule run_thread_obtain)
    have "td_time (top s') = td_time (top (srv \<sigma>))"
      "error_occurred (top (srv \<sigma>)) \<Longrightarrow> error_occurred (top s')"
      using subroutine_resume_frame [OF r] by (simp_all add: s' dut_frame_def)
    with run.prems doomed_run [OF run(3,2,1)] show ?case by (auto simp: first_tick_def)
  qed (auto simp: tick_begin_def)
  with inv show ?thesis by (simp add: first_tick_def)
qed

lemma first_tick_reachable:
  assumes "reachable False ev k \<sigma>0 \<sigma>" and "first_tick m1 m2 time0 \<sigma>0"
  shows "first_tick m1 m2 time0 \<sigma>"
  using assms by (induction rule: reachable.induct) (auto intro: first_tick_step)

lemma first_tick_start:
  assumes "fresh_server s" and "ipc_error (axil_ipc s) \<or> ipc_error (axi_ipc s)"
  shows "first_tick m1 m2 (td_time (top s)) (main_start s m1 m2)"
proof -
  have ths: "threads (main_start s m1 m2) =
      [Runnable (L_Dram dram_start), Runnable (L_Axil (A_Poll m1)), Runnable (L_Axi (X_Poll m2))]"
    "axil_ipc (srv (main_start s m1 m2)) = axil_ipc s" "axi_ipc (srv (main_start s m1 m2)) = axi_ipc s"
    "td_time (top (srv (main_start s m1 m2))) = td_time (top s)"
    by (simp_all add: main_start_def registerSubroutine_def)
  have "barrier_inv (main_start s m1 m2)"
    using assms(1) by (auto simp: fresh_server_def intro: barrier_inv_start)
  with assms(2) kinds_ok_start [of s m1 m2] show ?thesis
    by (auto simp: first_tick_def doomed_def ths)
qed

text \<open>
  C9. \<open>main\<close> does not look at the results of \<open>waitForClient\<close>, yet a set-up in which either
  IPC server failed does not simulate: in every interleaving of the subroutines in which no wait
  on a condition variable returns without a notification (C++ allows such spurious wakeups), the
  error has been reported when the first tick is over, and the loop is left without a second one.
\<close>

theorem failed_setup_stops:
  assumes "s = main_setup ev k remove d0 mem0 axil0 axi0 w"
    and "ipc_error (axil_ipc s) \<or> ipc_error (axi_ipc s)"
    and "reachable False ev k (main_start s m1 m2) \<sigma>"
  shows "(main_at \<sigma> = M_Ticking \<and> tick_done (top (srv \<sigma>)) \<longrightarrow> error_occurred (top (srv \<sigma>))) \<and>
    (main_at \<sigma> = M_Loop \<longrightarrow> td_time (top (srv \<sigma>)) = td_time (top s))"
proof -
  have "fresh_server s" using main_setup_fresh assms(1) by simp
  from first_tick_reachable [OF assms(3) first_tick_start [OF this assms(2)]]
  have "first_tick m1 m2 (td_time (top s)) \<sigma>" .
  then show ?thesis using doomed_not_done by (auto simp: first_tick_def)
qed

text \<open>A kernel that cannot create a socket.\<close>

definition no_sockets :: "unit kernel" where
  "no_sockets = silent_kernel\<lparr>k_socket := \<lambda>w. (-1, w)\<rparr>"

definition example_failed_setup :: "(unit, unit) server" where
  "example_failed_setup = main_setup id no_sockets (\<lambda>_ w. w) (idle_dut ()) (\<lambda>_. 0)
     \<lparr>ipc_name = [], socket_fd = 0, client_fd = 0, ipc_error = False\<rparr>
     \<lparr>ipc_name = [], socket_fd = 0, client_fd = 0, ipc_error = False\<rparr> ()"

lemma example_failed_setup: "ipc_error (axil_ipc example_failed_setup)"
  by (simp add: example_failed_setup_def main_setup_def no_sockets_def IPCServer_new_def
      waitForClient_def)

theorem failed_setup_stops_witness:
  "td_time (top (srv (main_start example_failed_setup (\<lambda>_. 0) (\<lambda>_. 0)))) =
     td_time (top example_failed_setup)"
proof -
  have "main_at (main_start example_failed_setup (\<lambda>_. 0) (\<lambda>_. 0)) = M_Loop"
    by (simp add: main_start_def registerSubroutine_def)
  with failed_setup_stops [OF example_failed_setup_def disjI1 [OF example_failed_setup]
      reachable.start [of False id no_sockets "main_start example_failed_setup (\<lambda>_. 0) (\<lambda>_. 0)"]]
  show ?thesis by simp
qed

section \<open>The shape of every state\<close>

lemma reachable_kinds_ok:
  "reachable b ev k \<sigma>0 \<sigma> \<Longrightarrow> kinds_ok (threads \<sigma>0) \<Longrightarrow> kinds_ok (threads \<sigma>)"
  by (induction rule: reachable.induct) (auto intro: kinds_ok_step)

text \<open>
  C5. In every interleaving without spurious wakeups (a wait on a condition variable that returns
  without a notification, as C++ allows), the running simulator keeps its shape: there are three threads,
  each inside its own routine (a \<open>TICK\<close> of \<open>handleDRAMSubroute\<close>, \<open>AXILRoutine\<close> or
  \<open>AXIRoutine\<close>), three subroutines are registered and none decoupled, \<open>ready_thread\<close> counts
  the threads that have run in the cycle, no thread has exited before the end was announced, and
  all of them have when \<open>main\<close> returns from \<open>join\<close>.
\<close>

theorem simulator_well_typed:
  assumes "fresh_server s" and "reachable False ev k (main_start s m1 m2) \<sigma>"
  shows "kinds_ok (threads \<sigma>) \<and> n_subroutines (top (srv \<sigma>)) = 3 \<and> decoupled_count (top (srv \<sigma>)) = 0 \<and>
    ready_thread (top (srv \<sigma>)) + length (filter is_runnable (threads \<sigma>)) = 3 \<and>
    (main_at \<sigma> \<in> {M_Loop, M_Ticking, M_Break} \<longrightarrow>
       \<not> terminating (top (srv \<sigma>)) \<and> Exited \<notin> set (threads \<sigma>)) \<and>
    (main_at \<sigma> = M_Joining \<longrightarrow> threads \<sigma> = [Exited, Exited, Exited])"
proof -
  have inv: "barrier_inv \<sigma>" by (rule reachable_main_inv [OF assms])
  have kinds: "kinds_ok (threads \<sigma>)" by (rule reachable_kinds_ok [OF assms(2) kinds_ok_start])
  have len: "length (threads \<sigma>) = 3" using kinds by (simp add: kinds_ok_def)
  have "threads \<sigma> = replicate 3 Exited" if "main_at \<sigma> = M_Joining"
    using inv that not_runnable_exited len unfolding barrier_inv_def
    by (intro replicate_eqI) auto
  then have "main_at \<sigma> = M_Joining \<longrightarrow> threads \<sigma> = [Exited, Exited, Exited]"
    by (simp add: numeral_3_eq_3)
  then show ?thesis using inv kinds len by (auto simp: barrier_inv_def n_runnable_def)
qed

theorem simulator_well_typed_witness:
  "kinds_ok (threads example_tick) \<and> n_subroutines (top (srv example_tick)) = 3 \<and>
    ready_thread (top (srv example_tick)) + length (filter is_runnable (threads example_tick)) = 3"
  using simulator_well_typed [OF example_fresh, of example_design "pipe_kernel 0" "\<lambda>_. 0" "\<lambda>_. 0" example_tick]
    example_tick_reachable [of False] by (simp add: example_start_def)

end
