(* ===== verification/Test_Harness.thy ===== *)
theory Test_Harness
  imports Fpga_Interface
begin

text \<open>
  What the client's tests (\<open>client/main.cpp\<close>, \<open>client/tests/\<close>) use of the test framework,
  and the functions of \<open>client/test-helpers.cc\<close> and \<open>client/tests/asm/asm_helpers.c\<close>. A test
  is a block of statements over a frame: the locals of the test cases, the device behind the
  context, and what the framework counts. \<open>REQUIRE\<close> throws, which ends the test case;
  \<open>CHECK\<close> counts a failure and goes on; \<open>assert\<close> ends the program. \<open>INFO\<close> and
  \<open>printf\<close> write, \<open>usleep\<close> waits; they leave the frame alone and have no statement here.
\<close>

section \<open>Statements\<close>

datatype 'v outcome = Running 'v | RequireFailed 'v | AssertFailed 'v

text \<open>\<open>None\<close>: the statement never ends.\<close>

type_synonym 'v stmt = "'v \<Rightarrow> 'v outcome option"

fun run_block :: "'v stmt list \<Rightarrow> 'v stmt" where
  "run_block [] v = Some (Running v)"
| "run_block (st # sts) v =
     (case st v of
        Some (Running v') \<Rightarrow> run_block sts v'
      | r \<Rightarrow> r)"

definition assign :: "('v \<Rightarrow> 'v) \<Rightarrow> 'v stmt" where
  "assign f v = Some (Running (f v))"

definition REQUIRE :: "('v \<Rightarrow> bool) \<Rightarrow> 'v stmt" where
  "REQUIRE p v = Some (if p v then Running v else RequireFailed v)"

definition assert_stmt :: "('v \<Rightarrow> bool) \<Rightarrow> 'v stmt" where
  "assert_stmt p v = Some (if p v then Running v else AssertFailed v)"

definition if_stmt :: "('v \<Rightarrow> bool) \<Rightarrow> 'v stmt \<Rightarrow> 'v stmt \<Rightarrow> 'v stmt" where
  "if_stmt p a b v = (if p v then a v else b v)"

text \<open>A statement that reads the frame first (a local constant, say).\<close>

definition with_frame :: "('v \<Rightarrow> 'v stmt) \<Rightarrow> 'v stmt" where
  "with_frame f v = f v v"

partial_function (option) while_stmt :: "('v \<Rightarrow> bool) \<Rightarrow> 'v stmt \<Rightarrow> 'v stmt" where
  "while_stmt b body v =
     (if b v then
        (case body v of
           None \<Rightarrow> None
         | Some r \<Rightarrow> (case r of Running v' \<Rightarrow> while_stmt b body v' | _ \<Rightarrow> Some r))
      else Some (Running v))"

definition for_stmt :: "'a list \<Rightarrow> ('a \<Rightarrow> 'v stmt) \<Rightarrow> 'v stmt" where
  "for_stmt xs body = run_block (map body xs)"

lemma run_block_append:
  "run_block (as @ bs) v =
     (case run_block as v of Some (Running v') \<Rightarrow> run_block bs v' | r \<Rightarrow> r)"
  by (induction as arbitrary: v) (auto split: option.splits outcome.splits)

lemmas stmt_simps = assign_def REQUIRE_def assert_stmt_def if_stmt_def with_frame_def for_stmt_def

section \<open>The frame\<close>

text \<open>
  \<open>page\<close> and \<open>zero_page\<close> are global, the rest are locals of the test cases; an
  uninitialised local is whatever the frame holds.
\<close>

record ('z, 's) frame =
  ctx :: "'z FPGAContext_scheme"
  dev :: 's
  failed_checks :: nat
  rand_calls :: nat
  page :: "u8 list"
  zero_page :: "u8 list"
  inst_page :: "u8 list"
  data_page :: "u8 list"
  buffer :: "u8 list"
  state :: ArmflexArchState
  stateTransplant :: ArmflexArchState
  msg :: MessageFPGA
  reply_msg :: MessageFPGA
  evict_request :: MessageFPGA
  pending_threads :: u32
  queue_state :: u32
  iterations :: nat

text \<open>
  What differs from build to build and from run to run: the backend with its two life-cycle
  functions and \<open>writeSimCtrl\<close>, the \<open>n\<close>th value of \<open>rand\<close>, the content of the files.
\<close>

record ('z, 's) env =
  be :: "('z, 's) backend"
  init_ctx :: "'z FPGAContext_scheme \<Rightarrow> 's \<Rightarrow> int \<times> 'z FPGAContext_scheme \<times> 's"
  release_ctx :: "'z FPGAContext_scheme \<Rightarrow> 's \<Rightarrow> int \<times> 's"
  sim_ctrl :: "'z FPGAContext_scheme \<Rightarrow> int \<Rightarrow> int \<Rightarrow> 's \<Rightarrow> (int \<times> 's) option"
  rand :: "nat \<Rightarrow> int"
  file_of :: "string \<Rightarrow> u8 list option"
  uninit :: u32

definition CHECK :: "(('z, 's, 'm) frame_scheme \<Rightarrow> bool) \<Rightarrow> ('z, 's, 'm) frame_scheme stmt" where
  "CHECK p fr = Some (Running (if p fr then fr else fr\<lparr>failed_checks := failed_checks fr + 1\<rparr>))"

text \<open>Calls that return a code and a new device state, and those that return data as well.\<close>

definition call ::
  "(('z, 's, 'm) frame_scheme \<Rightarrow> (int \<times> 's) option) \<Rightarrow> ('z, 's, 'm) frame_scheme stmt" where
  "call f fr = map_option (\<lambda>(r, s). Running (fr\<lparr>dev := s\<rparr>)) (f fr)"

definition require_call ::
  "(('z, 's, 'm) frame_scheme \<Rightarrow> (int \<times> 's) option) \<Rightarrow> ('z, 's, 'm) frame_scheme stmt" where
  "require_call f fr = map_option (\<lambda>(r, s).
     if r = 0 then Running (fr\<lparr>dev := s\<rparr>) else RequireFailed (fr\<lparr>dev := s\<rparr>)) (f fr)"

definition call_data ::
  "(('z, 's, 'm) frame_scheme \<Rightarrow> (int \<times> 'd \<times> 's) option) \<Rightarrow> ('d \<Rightarrow> ('z, 's, 'm) frame_scheme \<Rightarrow> ('z, 's, 'm) frame_scheme) \<Rightarrow>
   ('z, 's, 'm) frame_scheme stmt" where
  "call_data f store fr = map_option (\<lambda>(r, d, s). Running (store d (fr\<lparr>dev := s\<rparr>))) (f fr)"

definition require_call_data ::
  "(('z, 's, 'm) frame_scheme \<Rightarrow> (int \<times> 'd \<times> 's) option) \<Rightarrow> ('d \<Rightarrow> ('z, 's, 'm) frame_scheme \<Rightarrow> ('z, 's, 'm) frame_scheme) \<Rightarrow>
   ('z, 's, 'm) frame_scheme stmt" where
  "require_call_data f store fr = map_option (\<lambda>(r, d, s).
     let fr' = store d (fr\<lparr>dev := s\<rparr>) in if r = 0 then Running fr' else RequireFailed fr') (f fr)"

lemmas call_simps = call_def require_call_def call_data_def require_call_data_def CHECK_def

text \<open>\<open>REQUIRE(initFPGAContext(&c) == 0)\<close> and \<open>releaseFPGAContext(&c)\<close>.\<close>

definition init_stmt :: "('z, 's) env \<Rightarrow> ('z, 's, 'm) frame_scheme stmt" where
  "init_stmt e = require_call_data (\<lambda>fr. Some (init_ctx e (ctx fr) (dev fr)))
     (\<lambda>c fr. fr\<lparr>ctx := c\<rparr>)"

definition release_stmt :: "('z, 's) env \<Rightarrow> ('z, 's, 'm) frame_scheme stmt" where
  "release_stmt e = call (\<lambda>fr. Some (release_ctx e (ctx fr) (dev fr)))"

text \<open>\<open>fopen\<close>, \<open>fread\<close> of up to 4096 bytes, \<open>fclose\<close>; the two \<open>REQUIRE\<close>s on the way.\<close>

definition load_file ::
  "('z, 's) env \<Rightarrow> string \<Rightarrow> (('z, 's, 'm) frame_scheme \<Rightarrow> u8 list) \<Rightarrow>
   (u8 list \<Rightarrow> ('z, 's, 'm) frame_scheme \<Rightarrow> ('z, 's, 'm) frame_scheme) \<Rightarrow> ('z, 's, 'm) frame_scheme stmt" where
  "load_file e name old store fr =
     (case file_of e name of
        None \<Rightarrow> Some (RequireFailed fr)
      | Some bs \<Rightarrow>
          let fr' = store (overwrite (old fr) 0 (take 4096 bs)) fr in
          Some (if bs \<noteq> [] then Running fr' else RequireFailed fr'))"

section \<open>client/test-helpers.cc and client/tests/asm/asm_helpers.c\<close>

definition GET_asid :: "u32 \<Rightarrow> u32" where
  "GET_asid th = push_bit 4 (th + 1)"

text \<open>The \<open>REQUIRE\<close>s of \<open>requireStateIsIdentical\<close>, as one condition.\<close>

definition stateIsIdentical :: "ArmflexArchState \<Rightarrow> ArmflexArchState \<Rightarrow> bool" where
  "stateIsIdentical state1 state2 \<longleftrightarrow> pc state1 = pc state2 \<and>
     GET_NZCV (nzcv state1) = GET_NZCV (nzcv state2) \<and> sp state1 = sp state2 \<and>
     list_all (\<lambda>i. xregs state1 ! i = xregs state2 ! i) [0..<32]"

definition requireStateIsIdentical ::
  "(('z, 's, 'm) frame_scheme \<Rightarrow> ArmflexArchState) \<Rightarrow> (('z, 's, 'm) frame_scheme \<Rightarrow> ArmflexArchState) \<Rightarrow>
   ('z, 's, 'm) frame_scheme stmt" where
  "requireStateIsIdentical state1 state2 = REQUIRE (\<lambda>fr. stateIsIdentical (state1 fr) (state2 fr))"

definition initArchState :: "u64 \<Rightarrow> ArmflexArchState" where
  "initArchState pc0 = \<lparr>xregs = map of_nat [0..<32], pc = pc0, sp = 0, nzcv = 0\<rparr>"

definition initState_pressure_ldp_stp ::
  "ArmflexArchState \<Rightarrow> u64 \<Rightarrow> u64 \<Rightarrow> u64 \<Rightarrow> ArmflexArchState" where
  "initState_pressure_ldp_stp st array_size array_ld_base_addr array_st_base_addr =
     st\<lparr>xregs := (xregs st)[3 := array_ld_base_addr, 4 := array_st_base_addr, 5 := array_size]\<rparr>"

definition initState_set_flag :: "ArmflexArchState \<Rightarrow> u64 \<Rightarrow> u64 \<Rightarrow> ArmflexArchState" where
  "initState_set_flag st set_flag_addr get_flag_addr =
     st\<lparr>xregs := (xregs st)[2 := set_flag_addr, 3 := get_flag_addr]\<rparr>"

definition initState_ldst_all_sizes_pair ::
  "ArmflexArchState \<Rightarrow> u64 \<Rightarrow> u64 \<Rightarrow> u64 \<Rightarrow> ArmflexArchState" where
  "initState_ldst_all_sizes_pair st mem_addr_ld mem_addr_st step_size =
     st\<lparr>xregs := (xregs st)[2 := mem_addr_ld, 3 := mem_addr_st, 4 := step_size]\<rparr>"

definition initState_infinite_loop :: "ArmflexArchState \<Rightarrow> bool \<Rightarrow> ArmflexArchState" where
  "initState_infinite_loop st loop = st\<lparr>xregs := (xregs st)[0 := (if loop then 0 else 1)]\<rparr>"

text \<open>\<open>bytes / 4\<close> words from the start of the pages.\<close>

definition makeDeadbeefPage :: "u8 list \<Rightarrow> nat \<Rightarrow> u8 list" where
  "makeDeadbeefPage pages bytes =
     overwrite pages 0 (bytes_of_words (replicate (bytes div 4) 0xDEADBEEF))"

definition makeZeroPage :: "u8 list \<Rightarrow> u8 list" where
  "makeZeroPage pages = overwrite pages 0 (bytes_of_words (replicate (unat PAGE_SIZE div 4) 0xFFFFFFFF))"

definition advanceTicks :: "('z, 's) env \<Rightarrow> int \<Rightarrow> ('z, 's, 'm) frame_scheme stmt" where
  "advanceTicks e ticks = call (\<lambda>fr. sim_ctrl e (ctx fr) (MagicTypes_value cycleStep) ticks (dev fr))"

subsection \<open>Messages in the tests\<close>

definition send_stmt ::
  "('z, 's) env \<Rightarrow> (('z, 's, 'm) frame_scheme \<Rightarrow> MessageFPGA) \<Rightarrow> ('z, 's, 'm) frame_scheme stmt" where
  "send_stmt e m = call (\<lambda>fr. sendMessageToFPGA (be e) (ctx fr) (message_bytes (m fr)) 64 (dev fr))"

definition query_stmt :: "('z, 's) env \<Rightarrow> ('z, 's, 'm) frame_scheme stmt" where
  "query_stmt e = call_data
     (\<lambda>fr. queryMessageFromFPGA (be e) (ctx fr) (message_bytes (msg fr)) (dev fr))
     (\<lambda>bs fr. fr\<lparr>msg := message_of_bytes bs\<rparr>)"

definition require_query :: "('z, 's) env \<Rightarrow> ('z, 's, 'm) frame_scheme stmt" where
  "require_query e = require_call_data
     (\<lambda>fr. queryMessageFromFPGA (be e) (ctx fr) (message_bytes (msg fr)) (dev fr))
     (\<lambda>bs fr. fr\<lparr>msg := message_of_bytes bs\<rparr>)"

text \<open>\<open>REQUIRE\<close>s on the common fields: the type, the address space, the two page number halves.\<close>

definition require_message ::
  "MessageType \<Rightarrow> u32 \<Rightarrow> (('z, 's, 'm) frame_scheme \<Rightarrow> u64) \<Rightarrow> ('z, 's, 'm) frame_scheme stmt" where
  "require_message ty asid va = run_block
    [REQUIRE (\<lambda>fr. msg_type (msg fr) = MessageType_value ty),
     REQUIRE (\<lambda>fr. msg_asid (msg fr) = asid),
     REQUIRE (\<lambda>fr. (ucast (msg_vpn_hi (msg fr)) :: u64) = VPN_GET_HI (va fr)),
     REQUIRE (\<lambda>fr. (ucast (msg_vpn_lo (msg fr)) :: u64) = VPN_GET_LO (va fr))]"

definition push_stmt ::
  "('z, 's) env \<Rightarrow> u64 \<Rightarrow> (('z, 's, 'm) frame_scheme \<Rightarrow> u8 list) \<Rightarrow> ('z, 's, 'm) frame_scheme stmt" where
  "push_stmt e paddr bytes = call (\<lambda>fr. pushPageToFPGA (be e) (ctx fr) paddr (bytes fr) (dev fr))"

definition fetch_stmt ::
  "('z, 's) env \<Rightarrow> u64 \<Rightarrow> (('z, 's, 'm) frame_scheme \<Rightarrow> u8 list) \<Rightarrow>
   (u8 list \<Rightarrow> ('z, 's, 'm) frame_scheme \<Rightarrow> ('z, 's, 'm) frame_scheme) \<Rightarrow> ('z, 's, 'm) frame_scheme stmt" where
  "fetch_stmt e paddr old store =
     call_data (\<lambda>fr. fetchPageFromFPGA (be e) (ctx fr) paddr (old fr) (dev fr)) store"

text \<open>The two message structures of \<open>synchronizePage\<close> are its own.\<close>

definition own_messages :: "('z, 's, 'm) frame_scheme stmt \<Rightarrow> ('z, 's, 'm) frame_scheme stmt" where
  "own_messages st fr =
     map_option (map_outcome (\<lambda>fr'. fr'\<lparr>msg := msg fr, evict_request := evict_request fr\<rparr>)) (st fr)"

definition synchronizePage ::
  "('z, 's) env \<Rightarrow> int \<Rightarrow> u64 \<Rightarrow> u64 \<Rightarrow> bool \<Rightarrow> (('z, 's, 'm) frame_scheme \<Rightarrow> u8 list) \<Rightarrow>
   (u8 list \<Rightarrow> ('z, 's, 'm) frame_scheme \<Rightarrow> ('z, 's, 'm) frame_scheme) \<Rightarrow> ('z, 's, 'm) frame_scheme stmt" where
  "synchronizePage e asid vaddr paddr expect_modified old store = own_messages (run_block
    [assign (\<lambda>fr. fr\<lparr>evict_request := makeEvictRequest asid vaddr (evict_request fr)\<rparr>),
     send_stmt e evict_request,
     query_stmt e,
     require_message sEvictNotify (word_of_int asid) (\<lambda>_. vaddr),
     query_stmt e,
     require_message sEvictDone (word_of_int asid) (\<lambda>_. vaddr),
     REQUIRE (\<lambda>fr. (ucast (EvictDone_ppn (msg fr)) :: u64) = GET_PPN_FROM_PADDR paddr),
     REQUIRE (\<lambda>fr. EvictDone_permission (msg fr) = word_of_int (MemoryAccessType_value DATA_STORE)),
     REQUIRE (\<lambda>fr. EvictDone_modified (msg fr) = (if expect_modified then 1 else 0)),
     fetch_stmt e paddr old store])"

end
