(* ===== verification/Test_Cases.thy ===== *)
theory Test_Cases
  imports Test_Harness
begin

text \<open>
  The test cases of \<open>client/main.cpp\<close>, one definition each, over any backend. Their
  \<open>FPGAContext\<close> is the frame's \<open>ctx\<close>, set by \<open>initFPGAContext\<close>.
\<close>

section \<open>Common statements\<close>

definition page_bytes :: nat where
  "page_bytes = unat PAGE_SIZE"

text \<open>One call of \<open>rand\<close>.\<close>

definition rand_stmt ::
  "('z, 's) env \<Rightarrow> (int \<Rightarrow> ('z, 's, 'm) frame_scheme \<Rightarrow> ('z, 's, 'm) frame_scheme) \<Rightarrow> ('z, 's, 'm) frame_scheme stmt" where
  "rand_stmt e store = assign (\<lambda>fr. store (rand e (rand_calls fr)) (fr\<lparr>rand_calls := rand_calls fr + 1\<rparr>))"

definition initFPGAContextAndPage :: "('z, 's) env \<Rightarrow> ('z, 's, 'm) frame_scheme stmt" where
  "initFPGAContextAndPage e = run_block
    [init_stmt e, assign (\<lambda>fr. fr\<lparr>page := replicate page_bytes 0xAB\<rparr>)]"

definition init_random_state :: "('z, 's) env \<Rightarrow> ('z, 's, 'm) frame_scheme stmt" where
  "init_random_state e = rand_stmt e (\<lambda>r fr. fr\<lparr>state := initArchState (word_of_int r)\<rparr>)"

definition miss_stmt ::
  "MemoryAccessType \<Rightarrow> int \<Rightarrow> u32 \<Rightarrow> (('z, 's, 'm) frame_scheme \<Rightarrow> u64) \<Rightarrow> u64 \<Rightarrow> ('z, 's, 'm) frame_scheme stmt" where
  "miss_stmt ty thid asid va paddr = assign (\<lambda>fr. fr\<lparr>reply_msg :=
     makeMissReply (MemoryAccessType_value ty) thid (uint asid) (va fr) paddr (reply_msg fr)\<rparr>)"

definition evict_stmt :: "u32 \<Rightarrow> u64 \<Rightarrow> ('z, 's, 'm) frame_scheme stmt" where
  "evict_stmt asid va = assign (\<lambda>fr. fr\<lparr>evict_request :=
     makeEvictRequest (uint asid) va (evict_request fr)\<rparr>)"

text \<open>\<open>for (i = 0; i < PAGE_SIZE; ++i) REQUIRE(a[i] == b[i])\<close>\<close>

definition require_pages_equal ::
  "(('z, 's, 'm) frame_scheme \<Rightarrow> u8 list) \<Rightarrow> (('z, 's, 'm) frame_scheme \<Rightarrow> u8 list) \<Rightarrow> ('z, 's, 'm) frame_scheme stmt" where
  "require_pages_equal a b = for_stmt [0..<page_bytes] (\<lambda>i. REQUIRE (\<lambda>fr. a fr ! i = b fr ! i))"

definition randomize_page :: "('z, 's) env \<Rightarrow> ('z, 's, 'm) frame_scheme stmt" where
  "randomize_page e = for_stmt [0..<page_bytes]
     (\<lambda>i. rand_stmt e (\<lambda>r fr. fr\<lparr>page := (page fr)[i := word_of_int r]\<rparr>))"

definition push_state_stmt ::
  "('z, 's) env \<Rightarrow> u32 \<Rightarrow> u32 \<Rightarrow> ('z, 's, 'm) frame_scheme stmt" where
  "push_state_stmt e th asid =
     call (\<lambda>fr. registerAndPushState (be e) (ctx fr) th asid (state fr) (dev fr))"

definition start_stmt :: "('z, 's) env \<Rightarrow> u32 \<Rightarrow> ('z, 's, 'm) frame_scheme stmt" where
  "start_stmt e th = call (\<lambda>fr. transplant_start (be e) (ctx fr) th (dev fr))"

definition back_stmt ::
  "('z, 's) env \<Rightarrow> u32 \<Rightarrow> (('z, 's, 'm) frame_scheme \<Rightarrow> ArmflexArchState) \<Rightarrow>
   (ArmflexArchState \<Rightarrow> ('z, 's, 'm) frame_scheme \<Rightarrow> ('z, 's, 'm) frame_scheme) \<Rightarrow> ('z, 's, 'm) frame_scheme stmt" where
  "back_stmt e th old store =
     call_data (\<lambda>fr. transplantBack (be e) (ctx fr) (uninit e) th (old fr) (dev fr)) store"

text \<open>\<open>while(!pending_threads) { REQUIRE(queryThreadState(...) == 0); usleep(1e5); }\<close>\<close>

definition wait_pending :: "('z, 's) env \<Rightarrow> ('z, 's, 'm) frame_scheme stmt" where
  "wait_pending e = run_block
    [assign (\<lambda>fr. fr\<lparr>pending_threads := 0\<rparr>),
     while_stmt (\<lambda>fr. pending_threads fr = 0)
       (require_call_data (\<lambda>fr. queryThreadState (be e) (ctx fr) (dev fr))
          (\<lambda>p fr. fr\<lparr>pending_threads := p\<rparr>))]"

definition require_pending :: "u32 \<Rightarrow> ('z, 's, 'm) frame_scheme stmt" where
  "require_pending th = REQUIRE (\<lambda>fr. pending_threads fr AND thread_bit th \<noteq> 0)"

text \<open>\<open>REQUIRE\<close>s on a page fault notification.\<close>

definition require_page_fault ::
  "u32 \<Rightarrow> (('z, 's, 'm) frame_scheme \<Rightarrow> u64) \<Rightarrow> MemoryAccessType \<Rightarrow> ('z, 's, 'm) frame_scheme stmt" where
  "require_page_fault asid va perm = run_block
    [require_message sPageFaultNotify asid va,
     REQUIRE (\<lambda>fr. PageFaultNotif_permission (msg fr) = word_of_int (MemoryAccessType_value perm))]"

section \<open>The test cases\<close>

definition multiple_pages_in_a_row :: "('z, 's) env \<Rightarrow> ('z, 's, 'm) frame_scheme stmt" where
  "multiple_pages_in_a_row e = run_block
    [init_stmt e,
     miss_stmt DATA_STORE (-1) 10 (\<lambda>_. 0x50000) 0x20000,
     for_stmt [0..<(10 :: nat)] (\<lambda>_. send_stmt e reply_msg),
     release_stmt e]"

definition transplant_in :: "('z, 's) env \<Rightarrow> ('z, 's, 'm) frame_scheme stmt" where
  "transplant_in e = run_block
    [initFPGAContextAndPage e,
     init_random_state e,
     require_call (\<lambda>fr. transplant_pushState (be e) (ctx fr) 0 (arch_to_regs (state fr))
       ARMFLEX_TOT_REGS (dev fr)),
     require_call_data (\<lambda>fr. transplant_getState (be e) (ctx fr) (uninit e) 0
       (arch_to_regs (stateTransplant fr)) ARMFLEX_TOT_REGS (dev fr))
       (\<lambda>regs fr. fr\<lparr>stateTransplant := arch_of_regs regs\<rparr>),
     requireStateIsIdentical state stateTransplant,
     release_stmt e]"

text \<open>\<open>rand() << 10\<close> is computed in \<open>int\<close>, then converted to \<open>uint64_t\<close>.\<close>

definition MMU_push_and_evict_pte :: "('z, 's) env \<Rightarrow> ('z, 's, 'm) frame_scheme stmt" where
  "MMU_push_and_evict_pte e = run_block
    [initFPGAContextAndPage e,
     with_frame (\<lambda>fr0.
       let asid = GET_asid 1;
           va = scast (push_bit 10 (word_of_int (rand e (rand_calls fr0)) :: u32)) :: u64;
           page_inst_paddr = page_base (base_address (ctx fr0)) in
       run_block
        [assign (\<lambda>fr. fr\<lparr>rand_calls := rand_calls fr + 1\<rparr>),
         push_stmt e page_inst_paddr page,
         miss_stmt INST_FETCH (-1) asid (\<lambda>_. va) page_inst_paddr,
         send_stmt e reply_msg,
         evict_stmt asid va,
         send_stmt e evict_request,
         require_query e,
         require_message sEvictNotify asid (\<lambda>_. va),
         require_query e,
         require_message sEvictDone asid (\<lambda>_. va)]),
     release_stmt e]"

definition Push_page_and_read_back :: "('z, 's) env \<Rightarrow> ('z, 's, 'm) frame_scheme stmt" where
  "Push_page_and_read_back e = run_block
    [initFPGAContextAndPage e,
     randomize_page e,
     call (\<lambda>fr. writeAXI (be e) (ctx fr) (push_bit 27 1) (page fr) PAGE_SIZE (dev fr)),
     assign (\<lambda>fr. fr\<lparr>buffer := replicate page_bytes 0\<rparr>),
     call_data (\<lambda>fr. readAXI (be e) (ctx fr) (push_bit 27 1) (buffer fr) PAGE_SIZE (dev fr))
       (\<lambda>bs fr. fr\<lparr>buffer := bs\<rparr>),
     require_pages_equal buffer page,
     randomize_page e,
     with_frame (\<lambda>fr0.
       let page_inst_paddr = page_base (base_address (ctx fr0)) in
       run_block
        [push_stmt e page_inst_paddr page,
         miss_stmt INST_FETCH (-1) 0 (\<lambda>_. 0) page_inst_paddr,
         send_stmt e reply_msg,
         assign (\<lambda>fr. fr\<lparr>buffer := replicate page_bytes 0\<rparr>),
         fetch_stmt e page_inst_paddr buffer (\<lambda>bs fr. fr\<lparr>buffer := bs\<rparr>)]),
     require_pages_equal buffer page,
     release_stmt e]"

definition basic_transplant_with_initial_page_fault :: "('z, 's) env \<Rightarrow> ('z, 's, 'm) frame_scheme stmt" where
  "basic_transplant_with_initial_page_fault e =
     (let th = 3; asid = GET_asid th in run_block
    [initFPGAContextAndPage e,
     init_random_state e,
     push_state_stmt e th asid,
     call (\<lambda>fr. registerThreadWithProcess (be e) (ctx fr) th asid (dev fr)),
     start_stmt e th,
     require_query e,
     require_page_fault asid (\<lambda>fr. pc (state fr)) INST_FETCH,
     release_stmt e])"

definition transplant_transplants :: "('z, 's) env \<Rightarrow> ('z, 's, 'm) frame_scheme stmt" where
  "transplant_transplants e =
     (let th = 0; asid = GET_asid th in run_block
    [initFPGAContextAndPage e,
     init_random_state e,
     with_frame (\<lambda>fr0.
       let page_inst_paddr = page_base (base_address (ctx fr0)) in
       run_block
        [push_stmt e page_inst_paddr page,
         miss_stmt INST_FETCH (-1) asid (\<lambda>fr. pc (state fr)) page_inst_paddr,
         send_stmt e reply_msg]),
     push_state_stmt e th asid,
     call_data (\<lambda>fr. transplant_getState (be e) (ctx fr) (uninit e) th
       (arch_to_regs (stateTransplant fr)) ARMFLEX_TOT_REGS (dev fr))
       (\<lambda>regs fr. fr\<lparr>stateTransplant := arch_of_regs regs\<rparr>),
     requireStateIsIdentical state stateTransplant,
     start_stmt e th,
     assign (\<lambda>fr. fr\<lparr>pending_threads := 0, iterations := 0\<rparr>),
     while_stmt (\<lambda>fr. pending_threads fr = 0) (run_block
       [\<lambda>fr. map_option (\<lambda>(ret, p, s).
            let fr' = fr\<lparr>dev := s, pending_threads := p\<rparr> in
            if ret = 0 then Running fr' else AssertFailed fr')
          (transplant_pending (be e) (ctx fr) (dev fr)),
        assign (\<lambda>fr. fr\<lparr>iterations := iterations fr + 1\<rparr>),
        REQUIRE (\<lambda>fr. iterations fr < 1000)]),
     REQUIRE (\<lambda>fr. pending_threads fr \<noteq> 0),
     require_pending th,
     back_stmt e th stateTransplant (\<lambda>st fr. fr\<lparr>stateTransplant := st\<rparr>),
     requireStateIsIdentical state stateTransplant,
     require_call_data (\<lambda>fr. checkRxMessageQueue (be e) (ctx fr) 1 (dev fr))
       (\<lambda>q fr. fr\<lparr>queue_state := q\<rparr>),
     REQUIRE (\<lambda>fr. queue_state fr = 0),
     release_stmt e])"

definition binary_a :: string where
  "binary_a = ''../src/client/tests/asm/executables/a.bin''"

text \<open>\<open>a.bin\<close> counts to ten: what both executions check of the final state.\<close>

definition require_final_state :: "u64 \<Rightarrow> ('z, 's, 'm) frame_scheme stmt" where
  "require_final_state pc0 = run_block
    [REQUIRE (\<lambda>fr. xregs (state fr) ! 0 = 10),
     REQUIRE (\<lambda>fr. xregs (state fr) ! 1 = 0),
     REQUIRE (\<lambda>fr. pc (state fr) = pc0 + 4 * 6)]"

definition execute_instruction_with_context_in_dram :: "('z, 's) env \<Rightarrow> ('z, 's, 'm) frame_scheme stmt" where
  "execute_instruction_with_context_in_dram e =
     (let pc0 = 0x40000000; thread_id = 3; asid = GET_asid thread_id in run_block
    [load_file e binary_a inst_page (\<lambda>bs fr. fr\<lparr>inst_page := bs\<rparr>),
     initFPGAContextAndPage e,
     assign (\<lambda>fr. fr\<lparr>state := initArchState pc0\<rparr>),
     with_frame (\<lambda>fr0.
       let page_inst_paddr = page_base (base_address (ctx fr0));
           page_data_paddr = page_inst_paddr + PAGE_SIZE in
       run_block
        [push_stmt e page_inst_paddr inst_page,
         miss_stmt INST_FETCH (-1) asid (\<lambda>_. pc0) page_inst_paddr,
         send_stmt e reply_msg,
         assign (\<lambda>fr. fr\<lparr>data_page := bytes_of_words (replicate (page_bytes div 4) 0xDEADBEEF)\<rparr>),
         push_stmt e page_data_paddr data_page,
         miss_stmt DATA_STORE (-1) asid (\<lambda>_. 0) page_data_paddr,
         send_stmt e reply_msg,
         assign (\<lambda>fr. fr\<lparr>buffer := replicate page_bytes 0\<rparr>),
         fetch_stmt e page_inst_paddr buffer (\<lambda>bs fr. fr\<lparr>buffer := bs\<rparr>),
         require_pages_equal buffer inst_page,
         fetch_stmt e page_data_paddr buffer (\<lambda>bs fr. fr\<lparr>buffer := bs\<rparr>),
         require_pages_equal buffer data_page,
         require_call (\<lambda>fr. registerAndPushState (be e) (ctx fr) thread_id asid (state fr) (dev fr)),
         require_call (\<lambda>fr. transplant_start (be e) (ctx fr) thread_id (dev fr)),
         wait_pending e,
         require_pending thread_id,
         back_stmt e thread_id state (\<lambda>st fr. fr\<lparr>state := st\<rparr>),
         require_final_state pc0,
         evict_stmt asid 0,
         send_stmt e evict_request,
         query_stmt e,
         require_message sEvictNotify asid (\<lambda>_. 0),
         query_stmt e,
         require_message sEvictDone asid (\<lambda>_. 0),
         REQUIRE (\<lambda>fr. EvictNotif_modified (msg fr) \<noteq> 0),
         REQUIRE (\<lambda>fr. (ucast (EvictNotif_ppn (msg fr)) :: u64) = GET_PPN_FROM_PADDR page_data_paddr),
         REQUIRE (\<lambda>fr. EvictNotif_permission (msg fr) =
           word_of_int (MemoryAccessType_value DATA_STORE)),
         fetch_stmt e page_data_paddr buffer (\<lambda>bs fr. fr\<lparr>buffer := bs\<rparr>),
         REQUIRE (\<lambda>fr. words_of_bytes (buffer fr) ! 0 = 10)]),
     release_stmt e])"

definition execute_instruction :: "('z, 's) env \<Rightarrow> ('z, 's, 'm) frame_scheme stmt" where
  "execute_instruction e =
     (let pc0 = 0x40000000; thread_id = 3; asid = GET_asid thread_id in run_block
    [load_file e binary_a inst_page (\<lambda>bs fr. fr\<lparr>inst_page := bs\<rparr>),
     initFPGAContextAndPage e,
     assign (\<lambda>fr. fr\<lparr>state := initArchState pc0\<rparr>),
     with_frame (\<lambda>fr0.
       let page_inst_paddr = page_base (base_address (ctx fr0));
           page_data_paddr = page_inst_paddr + PAGE_SIZE in
       run_block
        [require_call (\<lambda>fr. registerAndPushState (be e) (ctx fr) thread_id asid (state fr) (dev fr)),
         require_call (\<lambda>fr. transplant_start (be e) (ctx fr) thread_id (dev fr)),
         query_stmt e,
         require_page_fault asid (\<lambda>fr. pc (state fr)) INST_FETCH,
         push_stmt e page_inst_paddr inst_page,
         miss_stmt INST_FETCH 3 asid (\<lambda>_. pc0) page_inst_paddr,
         send_stmt e reply_msg,
         assign (\<lambda>fr. fr\<lparr>buffer := replicate page_bytes 0\<rparr>),
         fetch_stmt e page_inst_paddr buffer (\<lambda>bs fr. fr\<lparr>buffer := bs\<rparr>),
         require_pages_equal buffer inst_page,
         require_query e,
         require_page_fault asid (\<lambda>_. 0) DATA_STORE,
         push_stmt e page_data_paddr zero_page,
         miss_stmt DATA_STORE 3 asid (\<lambda>_. 0) page_data_paddr,
         send_stmt e reply_msg,
         wait_pending e,
         require_pending thread_id,
         back_stmt e thread_id state (\<lambda>st fr. fr\<lparr>state := st\<rparr>),
         require_final_state pc0,
         synchronizePage e (uint asid) 0 page_data_paddr True buffer (\<lambda>bs fr. fr\<lparr>buffer := bs\<rparr>),
         REQUIRE (\<lambda>fr. buffer fr ! 0 = 10)]),
     release_stmt e])"

end
