(* ===== verification/Load_Store_Tests.thy ===== *)
theory Load_Store_Tests
  imports Test_Cases
begin

text \<open>
  \<open>client/tests/load-store.cc\<close> and \<open>client/tests/host-control.cc\<close>: their helpers on pages and
  their test cases, as in \<open>Test_Cases\<close>.
\<close>

section \<open>Bytes of a page\<close>

definition page_offset :: "u64 \<Rightarrow> nat" where
  "page_offset a = unat (a AND (PAGE_SIZE - 1))"

definition write_page_block :: "u8 list \<Rightarrow> u8 list \<Rightarrow> u64 \<Rightarrow> nat \<Rightarrow> u8 list" where
  "write_page_block pg bytes a byteSize = overwrite pg (page_offset a) (take byteSize bytes)"

text \<open>\<open>byteSize\<close> bytes of \<open>bytes\<close>: half from \<open>lsb\<close>, half from \<open>msb\<close>.\<close>

definition slot_pair :: "u64 \<Rightarrow> u64 \<Rightarrow> nat \<Rightarrow> u8 list" where
  "slot_pair lsb msb byteSize =
     map (\<lambda>byte. if byte < byteSize div 2 then bytes_le 8 lsb ! byte
                 else bytes_le 8 msb ! (byte - byteSize div 2)) [0..<byteSize]"

definition init_mem_slot_pair :: "u8 list \<Rightarrow> u64 \<Rightarrow> u64 \<Rightarrow> nat \<Rightarrow> u8 list" where
  "init_mem_slot_pair bytes lsb msb byteSize = overwrite bytes 0 (slot_pair lsb msb byteSize)"

definition check_ldst_all_sizes_pair_load :: "u64 \<Rightarrow> u64 \<Rightarrow> ('z, 's, 'm) frame_scheme stmt" where
  "check_ldst_all_sizes_pair_load exp1 exp2 = run_block
    [REQUIRE (\<lambda>fr. xregs (state fr) ! 0 = exp1), REQUIRE (\<lambda>fr. xregs (state fr) ! 1 = exp2)]"

definition check_ldst_all_sizes_pair_store ::
  "(('z, 's, 'm) frame_scheme \<Rightarrow> u8 list) \<Rightarrow> u64 \<Rightarrow> nat \<Rightarrow> u64 \<Rightarrow> u64 \<Rightarrow> ('z, 's, 'm) frame_scheme stmt" where
  "check_ldst_all_sizes_pair_store pg a byteSize exp1 exp2 = for_stmt [0..<byteSize]
     (\<lambda>byte. REQUIRE (\<lambda>fr. pg fr ! (page_offset a + byte) = slot_pair exp1 exp2 byteSize ! byte))"

section \<open>test_ldst_all_sizes_pair\<close>

definition step_ldst_all_sizes_pair_load ::
  "('z, 's) env \<Rightarrow> u32 \<Rightarrow> u32 \<Rightarrow> u64 \<Rightarrow> u64 \<Rightarrow> ('z, 's, 'm) frame_scheme stmt" where
  "step_ldst_all_sizes_pair_load e thid asid exp1 exp2 = run_block
    [push_state_stmt e thid asid,
     require_call (\<lambda>fr. transplant_start (be e) (ctx fr) thid (dev fr)),
     call_data (\<lambda>fr. transplant_waitTillPending (be e) (ctx fr) (pending_threads fr) (dev fr))
       (\<lambda>p fr. fr\<lparr>pending_threads := p\<rparr>),
     require_pending thid,
     back_stmt e thid state (\<lambda>st fr. fr\<lparr>state := st\<rparr>),
     check_ldst_all_sizes_pair_load exp1 exp2,
     assign (\<lambda>fr. fr\<lparr>state := (state fr)\<lparr>pc := pc (state fr) + 4\<rparr>\<rparr>)]"

definition deadbeef_page_stmt :: "('z, 's, 'm) frame_scheme stmt" where
  "deadbeef_page_stmt = assign (\<lambda>fr. fr\<lparr>inst_page := makeDeadbeefPage (inst_page fr) page_bytes\<rparr>)"

text \<open>\<open>init_mem_slot_pair(bytes, ...); write_page_block(page, bytes, ...);\<close>\<close>

definition slot_stmt :: "u64 \<Rightarrow> u64 \<Rightarrow> u64 \<Rightarrow> nat \<Rightarrow> ('z, 's, 'm) frame_scheme stmt" where
  "slot_stmt lsb msb a byteSize = run_block
    [assign (\<lambda>fr. fr\<lparr>buffer := init_mem_slot_pair (buffer fr) lsb msb byteSize\<rparr>),
     assign (\<lambda>fr. fr\<lparr>inst_page := write_page_block (inst_page fr) (buffer fr) a byteSize\<rparr>)]"

text \<open>The local \<open>page\<close> is \<open>inst_page\<close>, the local \<open>bytes[32]\<close> is \<open>buffer\<close>.\<close>

definition test_ldst_all_sizes_pair :: "('z, 's) env \<Rightarrow> ('z, 's, 'm) frame_scheme stmt" where
  "test_ldst_all_sizes_pair e =
     (let thid = 3; asid = push_bit 4 (3 + 1) :: u32;
          page_inst_paddr = 0x10000; page_data_ld_paddr = 0x20000; page_data_st_paddr = 0x30000;
          pc0 = 0x2000; vaddr_ld = 0x6000; vaddr_st = 0xA000; step_size = 0x20 in run_block
    [assign (\<lambda>fr. fr\<lparr>inst_page := replicate page_bytes 0, buffer := replicate 32 0\<rparr>),
     assign (\<lambda>fr. fr\<lparr>state := initState_ldst_all_sizes_pair ((state fr)\<lparr>pc := pc0\<rparr>)
       vaddr_ld vaddr_st step_size\<rparr>),
     deadbeef_page_stmt,
     load_file e ''../src/client/tests/asm/executables/ldst_all_sizes.bin'' inst_page
       (\<lambda>bs fr. fr\<lparr>inst_page := bs\<rparr>),
     push_stmt e page_inst_paddr inst_page,
     miss_stmt INST_FETCH (-1) asid (\<lambda>_. pc0) page_inst_paddr,
     send_stmt e reply_msg,
     deadbeef_page_stmt,
     slot_stmt 0xABABABAB 0xCDCDCDCD vaddr_ld 8,
     slot_stmt 0xCCCCAAAA11117777 0x5555BBBB4444FFFF (vaddr_ld + step_size) 16,
     push_stmt e page_data_ld_paddr inst_page,
     miss_stmt DATA_LOAD (-1) asid (\<lambda>_. vaddr_ld) page_data_ld_paddr,
     send_stmt e reply_msg,
     deadbeef_page_stmt,
     push_stmt e page_data_st_paddr inst_page,
     miss_stmt DATA_STORE (-1) asid (\<lambda>_. vaddr_st) page_data_st_paddr,
     send_stmt e reply_msg,
     call (\<lambda>fr. registerThreadWithProcess (be e) (ctx fr) thid asid (dev fr)),
     step_ldst_all_sizes_pair_load e thid asid 0xABABABAB 0xCDCDCDCD,
     step_ldst_all_sizes_pair_load e thid asid 0xCCCCAAAA11117777 0x5555BBBB4444FFFF,
     assign (\<lambda>fr. fr\<lparr>inst_page := makeZeroPage (inst_page fr)\<rparr>),
     synchronizePage e (uint asid) vaddr_st page_data_st_paddr True inst_page
       (\<lambda>bs fr. fr\<lparr>inst_page := bs\<rparr>),
     check_ldst_all_sizes_pair_store inst_page vaddr_st 8 0xABABABAB 0xCDCDCDCD,
     check_ldst_all_sizes_pair_store inst_page (vaddr_st + step_size) 16
       0xCCCCAAAA11117777 0x5555BBBB4444FFFF])"

definition test_ldst_pair_all_sizes :: "('z, 's) env \<Rightarrow> ('z, 's, 'm) frame_scheme stmt" where
  "test_ldst_pair_all_sizes e = run_block [init_stmt e, test_ldst_all_sizes_pair e, release_stmt e]"

definition test_pressure_mmu_same_address :: "('z, 's) env \<Rightarrow> ('z, 's, 'm) frame_scheme stmt" where
  "test_pressure_mmu_same_address e = run_block
    [init_stmt e, for_stmt [0..<(10 :: nat)] (\<lambda>_. test_ldst_all_sizes_pair e), release_stmt e]"

section \<open>out-of-page-bound-pair-load\<close>

text \<open>One of the three page faults: the query, the checks, the answer with the page.\<close>

definition resolve_fault ::
  "('z, 's) env \<Rightarrow> u32 \<Rightarrow> int \<Rightarrow> u64 \<Rightarrow> u64 \<Rightarrow> MemoryAccessType \<Rightarrow>
   (('z, 's, 'm) frame_scheme \<Rightarrow> u8 list) \<Rightarrow> ('z, 's, 'm) frame_scheme stmt" where
  "resolve_fault e asid thid va pa access data = run_block
    [query_stmt e,
     require_message sPageFaultNotify asid (\<lambda>_. va),
     CHECK (\<lambda>fr. PageFaultNotif_permission (msg fr) = word_of_int (MemoryAccessType_value access)),
     push_stmt e pa data,
     miss_stmt access thid asid (\<lambda>_. va) pa,
     send_stmt e reply_msg]"

text \<open>
  \<open>data_pages[0]\<close>, \<open>[1]\<close>, \<open>[2]\<close> are \<open>data_page\<close>, \<open>page\<close> and \<open>zero_page\<close> of the frame (the
  test does not use the globals of those names).
\<close>

definition out_of_page_bound_pair_load :: "('z, 's) env \<Rightarrow> ('z, 's, 'm) frame_scheme stmt" where
  "out_of_page_bound_pair_load e =
     (let thid = 3; asid = push_bit 4 (3 + 1) :: u32;
          load_va = 0x2FFC; store_va = 0x3FFC in run_block
    [init_stmt e,
     assign (\<lambda>fr. fr\<lparr>inst_page := replicate page_bytes 0\<rparr>),
     assign (\<lambda>fr. fr\<lparr>state := (state fr)\<lparr>pc := 0x1000,
       xregs := (xregs (state fr))[2 := load_va, 3 := store_va, 4 := 0]\<rparr>\<rparr>),
     deadbeef_page_stmt,
     load_file e ''../src/client/tests/asm/executables/ldst_all_sizes.bin'' inst_page
       (\<lambda>bs fr. fr\<lparr>inst_page := bs\<rparr>),
     require_call (\<lambda>fr. registerAndPushState (be e) (ctx fr) thid asid (state fr) (dev fr)),
     require_call (\<lambda>fr. transplant_start (be e) (ctx fr) thid (dev fr)),
     query_stmt e,
     require_page_fault asid (\<lambda>fr. pc (state fr)) INST_FETCH,
     with_frame (\<lambda>fr0.
       let inst_pa = page_base (base_address (ctx fr0)) in
       run_block
        [push_stmt e inst_pa inst_page,
         miss_stmt INST_FETCH 3 asid (\<lambda>fr. pc (state fr)) inst_pa,
         send_stmt e reply_msg,
         assign (\<lambda>fr. fr\<lparr>
           data_page := bytes_of_words ((replicate (page_bytes div 4) 0)[page_bytes div 4 - 1 := 0xAABBCCDD]),
           page := bytes_of_words ((replicate (page_bytes div 4) 0)[0 := 0x99887766]),
           zero_page := bytes_of_words (replicate (page_bytes div 4) 0)\<rparr>),
         resolve_fault e asid 3 0x2000 (inst_pa + 1 * PAGE_SIZE) DATA_LOAD data_page,
         resolve_fault e asid 3 0x3000 (inst_pa + 2 * PAGE_SIZE) DATA_LOAD page,
         resolve_fault e asid 3 0x4000 (inst_pa + 3 * PAGE_SIZE) DATA_STORE zero_page,
         wait_pending e,
         require_pending thid,
         back_stmt e thid state (\<lambda>st fr. fr\<lparr>state := st\<rparr>),
         synchronizePage e (uint asid) 0x3000 (inst_pa + 2 * PAGE_SIZE) True page
           (\<lambda>bs fr. fr\<lparr>page := bs\<rparr>),
         synchronizePage e (uint asid) 0x4000 (inst_pa + 3 * PAGE_SIZE) True zero_page
           (\<lambda>bs fr. fr\<lparr>zero_page := bs\<rparr>)]),
     REQUIRE (\<lambda>fr. xregs (state fr) ! 0 = 0xAABBCCDD),
     REQUIRE (\<lambda>fr. xregs (state fr) ! 1 = 0x99887766),
     REQUIRE (\<lambda>fr. xregs (state fr) ! 2 = load_va),
     REQUIRE (\<lambda>fr. xregs (state fr) ! 3 = store_va),
     REQUIRE (\<lambda>fr. xregs (state fr) ! 4 = 0),
     REQUIRE (\<lambda>fr. words_of_bytes (page fr) ! 0 = 0xAABBCCDD),
     REQUIRE (\<lambda>fr. words_of_bytes (zero_page fr) ! 0 = 0x99887766),
     release_stmt e])"

section \<open>host-cmd-stop-cpu\<close>

definition pending_stmt :: "('z, 's) env \<Rightarrow> ('z, 's, 'm) frame_scheme stmt" where
  "pending_stmt e = call_data (\<lambda>fr. transplant_pending (be e) (ctx fr) (dev fr))
     (\<lambda>p fr. fr\<lparr>pending_threads := p\<rparr>)"

text \<open>\<open>int paddr = page_base\<close>: the address goes through an \<open>int\<close>.\<close>

definition host_cmd_stop_cpu :: "('z, 's) env \<Rightarrow> ('z, 's, 'm) frame_scheme stmt" where
  "host_cmd_stop_cpu e =
     (let asid = 0x10 :: u32 in run_block
    [assign (\<lambda>fr. fr\<lparr>inst_page := replicate page_bytes 0\<rparr>),
     init_stmt e,
     assign (\<lambda>fr. fr\<lparr>state := initState_infinite_loop (initArchState 0xABCDABCD0000) True\<rparr>),
     load_file e ''../src/client/tests/asm/executables/infinite-loop.bin'' inst_page
       (\<lambda>bs fr. fr\<lparr>inst_page := bs\<rparr>),
     with_frame (\<lambda>fr0.
       let paddr = scast (ucast (page_base (base_address (ctx fr0))) :: u32) :: u64 in
       run_block
        [push_stmt e paddr inst_page,
         miss_stmt INST_FETCH (-1) asid (\<lambda>fr. pc (state fr)) paddr,
         send_stmt e reply_msg]),
     push_state_stmt e 0 asid,
     advanceTicks e 100,
     start_stmt e 0,
     advanceTicks e 100,
     pending_stmt e,
     assert_stmt (\<lambda>fr. pending_threads fr = 0),
     advanceTicks e 100,
     call (\<lambda>fr. transplant_stopCPU (be e) (ctx fr) 0 (dev fr)),
     advanceTicks e 100,
     pending_stmt e,
     assert_stmt (\<lambda>fr. pending_threads fr \<noteq> 0),
     release_stmt e])"

end
