(* ===== verification/Stress_Test.thy ===== *)
theory Stress_Test
  imports Test_Cases
begin

text \<open>
  \<open>client/tests/back-pressure.cc\<close>: a host that serves the page faults of up to 32 threads
  until all of them have asked to be transplanted back. The locals of \<open>test_stress_memory\<close>
  extend the frame; its \<open>page\<close> is \<open>inst_page\<close>, its \<open>fetchedState\<close> is \<open>stateTransplant\<close>, its
  \<open>deadbeefedPage\<close> is \<open>data_page\<close>.
\<close>

record ('z, 's) stress_frame = "('z, 's) frame" +
  pages :: "u8 list"
  states :: "ArmflexArchState list"
  asids :: "u32 list"
  curr_ld_page_paddr :: "u64 list"
  curr_ld_page_vaddr :: "u64 list"
  curr_st_page_paddr :: "u64 list"
  curr_st_page_vaddr :: "u64 list"
  curr_ld_page_idx :: "u32 list"
  curr_st_page_idx :: "u32 list"
  completed :: u32

section \<open>Pages\<close>

definition page_tag :: "u64 \<Rightarrow> nat \<Rightarrow> nat \<Rightarrow> u64" where
  "page_tag thid nPage word = push_bit 56 thid OR push_bit 50 (of_nat nPage) OR of_nat word"

definition tagged_pages :: "u64 \<Rightarrow> nat \<Rightarrow> u8 list" where
  "tagged_pages thid nbPages = concat (map (\<lambda>nPage.
     concat (map (\<lambda>word. bytes_le 8 (page_tag thid nPage word)) [0..<page_bytes div 8])) [0..<nbPages])"

text \<open>\<open>tagPage\<close> on the pages from byte \<open>at\<close> of the array on.\<close>

definition tagPage :: "nat \<Rightarrow> u8 list \<Rightarrow> u64 \<Rightarrow> nat \<Rightarrow> u8 list" where
  "tagPage at ps thid nbPages = overwrite ps at (tagged_pages thid nbPages)"

definition word64_at :: "u8 list \<Rightarrow> nat \<Rightarrow> u64" where
  "word64_at bs i = word_le (take 8 (drop (8 * i) bs))"

definition checkPagePerWord ::
  "(('z, 's, 'm) frame_scheme \<Rightarrow> u8 list) \<Rightarrow> (('z, 's, 'm) frame_scheme \<Rightarrow> u8 list) \<Rightarrow>
   ('z, 's, 'm) frame_scheme stmt" where
  "checkPagePerWord page_expect page_actual = for_stmt [0..<page_bytes div 8]
     (\<lambda>word. REQUIRE (\<lambda>fr. word64_at (page_expect fr) word = word64_at (page_actual fr) word))"

section \<open>test_stress_memory\<close>

definition pc_stress :: u64 where "pc_stress = 0x3000"
definition vaddr_ld :: u64 where "vaddr_ld = 0x1000000"
definition vaddr_st :: u64 where "vaddr_st = 0xF000000"
definition page_inst_paddr :: u64 where "page_inst_paddr = 0x10000"
definition page_data_ld_paddr :: u64 where "page_data_ld_paddr = 0x20000"

text \<open>\<open>n * nDataPagesPerThread * PAGE_SIZE\<close>, the first product in \<open>uint32_t\<close>.\<close>

definition thread_pages :: "u32 \<Rightarrow> u32 \<Rightarrow> u64" where
  "thread_pages n nDataPagesPerThread = ucast (n * nDataPagesPerThread) * PAGE_SIZE"

definition page_data_st_paddr :: "u32 \<Rightarrow> u32 \<Rightarrow> u64" where
  "page_data_st_paddr thidN nData = page_data_ld_paddr + thread_pages thidN nData"

definition threadsMask :: "u32 \<Rightarrow> u32" where
  "threadsMask thidN = ucast (push_bit (unat thidN) 1 - 1 :: u64)"

definition thread_ids :: "u32 \<Rightarrow> u32 list" where
  "thread_ids thidN = map of_nat [0..<unat thidN]"

definition register_thread ::
  "('z, 's) env \<Rightarrow> u32 \<Rightarrow> u32 \<Rightarrow> bool \<Rightarrow> u32 \<Rightarrow> ('z, 's) stress_frame stmt" where
  "register_thread e thidN nData safeCheckTransplants thid =
     (let t = unat thid; base = thread_pages thid nData in run_block
    [assign (\<lambda>fr. fr\<lparr>asids := (asids fr)[t := GET_asid thid],
       curr_ld_page_paddr := (curr_ld_page_paddr fr)[t := page_data_ld_paddr + base],
       curr_st_page_paddr := (curr_st_page_paddr fr)[t := page_data_st_paddr thidN nData + base],
       curr_ld_page_vaddr := (curr_ld_page_vaddr fr)[t := vaddr_ld],
       curr_st_page_vaddr := (curr_st_page_vaddr fr)[t := vaddr_st],
       curr_ld_page_idx := (curr_ld_page_idx fr)[t := 0],
       curr_st_page_idx := (curr_st_page_idx fr)[t := 0],
       pages := tagPage (unat base) (pages fr) (ucast thid) (unat nData),
       states := (states fr)[t := (initState_pressure_ldp_stp (initArchState 0)
          (ucast nData * PAGE_SIZE) vaddr_ld vaddr_st)
          \<lparr>pc := (if safeCheckTransplants then pc_stress else pc_stress + 4)\<rparr>]\<rparr>),
     call (\<lambda>fr. registerAndPushState (be e) (ctx fr) thid (asids fr ! t) (states fr ! t) (dev fr))])"

text \<open>\<open>transplant_pending\<close>, and what is pending freed and added to \<open>completed\<close>.\<close>

definition collect_pending :: "('z, 's) env \<Rightarrow> ('z, 's) stress_frame stmt" where
  "collect_pending e = run_block
    [call_data (\<lambda>fr. transplant_pending (be e) (ctx fr) (dev fr)) (\<lambda>p fr. fr\<lparr>pending_threads := p\<rparr>),
     if_stmt (\<lambda>fr. pending_threads fr \<noteq> 0)
       (run_block
         [call (\<lambda>fr. transplant_freePending (be e) (ctx fr) (pending_threads fr) (dev fr)),
          assign (\<lambda>fr. fr\<lparr>completed := completed fr OR pending_threads fr\<rparr>)])
       (run_block [])]"

text \<open>The check that every thread comes back as it was sent; \<open>iterations\<close> is not counted here.\<close>

definition wait_all_transplanted :: "('z, 's) env \<Rightarrow> u32 \<Rightarrow> ('z, 's) stress_frame stmt" where
  "wait_all_transplanted e thidN =
     while_stmt (\<lambda>fr. completed fr \<noteq> threadsMask thidN)
       (run_block [collect_pending e, REQUIRE (\<lambda>fr. iterations fr < 100)])"

definition safe_check :: "('z, 's) env \<Rightarrow> u32 \<Rightarrow> ('z, 's) stress_frame stmt" where
  "safe_check e thidN = run_block
    [for_stmt (thread_ids thidN)
       (\<lambda>thid. require_call (\<lambda>fr. transplant_start (be e) (ctx fr) thid (dev fr))),
     wait_all_transplanted e thidN,
     for_stmt (thread_ids thidN) (\<lambda>thid. run_block
       [back_stmt e thid stateTransplant (\<lambda>st fr. fr\<lparr>stateTransplant := st\<rparr>),
        requireStateIsIdentical stateTransplant (\<lambda>fr. states fr ! unat thid),
        assign (\<lambda>fr. fr\<lparr>states := (states fr)[unat thid :=
          (states fr ! unat thid)\<lparr>pc := pc (states fr ! unat thid) + 4\<rparr>]\<rparr>)])]"

text \<open>Page \<open>idx\<close> of thread \<open>t\<close> in the array of pages.\<close>

definition host_page :: "u32 \<Rightarrow> u32 \<Rightarrow> nat \<Rightarrow> u8 list \<Rightarrow> u8 list" where
  "host_page nData thid idx ps = take page_bytes (drop (unat (thread_pages thid nData) + idx * page_bytes) ps)"

definition load_fault :: "('z, 's) env \<Rightarrow> u32 \<Rightarrow> ('z, 's) stress_frame stmt" where
  "load_fault e nData = with_frame (\<lambda>fr0.
     let thid = PageFaultNotif_thid (msg fr0); t = unat thid;
         pageIdx = unat (curr_ld_page_idx fr0 ! t);
         paddr = curr_ld_page_paddr fr0 ! t; vaddr = curr_ld_page_vaddr fr0 ! t in
     run_block
      [REQUIRE (\<lambda>fr. msg_asid (msg fr) = asids fr ! t),
       REQUIRE (\<lambda>fr. (ucast (msg_vpn_hi (msg fr)) :: u64) = VPN_GET_HI vaddr),
       REQUIRE (\<lambda>fr. (ucast (msg_vpn_lo (msg fr)) :: u64) = VPN_GET_LO vaddr),
       push_stmt e paddr (\<lambda>fr. host_page nData thid pageIdx (pages fr)),
       assign (\<lambda>fr. fr\<lparr>reply_msg := makeMissReply (MemoryAccessType_value DATA_LOAD) (uint thid)
         (uint (asids fr ! t)) vaddr paddr (reply_msg fr)\<rparr>),
       send_stmt e reply_msg,
       assign (\<lambda>fr. fr\<lparr>
         curr_ld_page_paddr := (curr_ld_page_paddr fr)[t := curr_ld_page_paddr fr ! t + PAGE_SIZE],
         curr_ld_page_vaddr := (curr_ld_page_vaddr fr)[t := curr_ld_page_vaddr fr ! t + PAGE_SIZE],
         curr_ld_page_idx := (curr_ld_page_idx fr)[t := curr_ld_page_idx fr ! t + 1]\<rparr>)])"

definition store_fault :: "('z, 's) env \<Rightarrow> u32 \<Rightarrow> ('z, 's) stress_frame stmt" where
  "store_fault e nData = with_frame (\<lambda>fr0.
     let thid = PageFaultNotif_thid (msg fr0); t = unat thid;
         pageIdx = unat (curr_st_page_idx fr0 ! t);
         paddr = curr_st_page_paddr fr0 ! t; vaddr = curr_st_page_vaddr fr0 ! t in
     run_block
      [REQUIRE (\<lambda>fr. msg_asid (msg fr) = asids fr ! t),
       REQUIRE (\<lambda>fr. (ucast (msg_vpn_hi (msg fr)) :: u64) = VPN_GET_HI vaddr),
       REQUIRE (\<lambda>fr. (ucast (msg_vpn_lo (msg fr)) :: u64) = VPN_GET_LO vaddr),
       push_stmt e paddr (\<lambda>fr. host_page nData thid pageIdx (pages fr)),
       assign (\<lambda>fr. fr\<lparr>reply_msg := makeMissReply (MemoryAccessType_value DATA_STORE) (uint thid)
         (uint (asids fr ! t)) vaddr paddr (reply_msg fr)\<rparr>),
       send_stmt e reply_msg,
       assign (\<lambda>fr. fr\<lparr>
         curr_st_page_paddr := (curr_st_page_paddr fr)[t := curr_st_page_paddr fr ! t + PAGE_SIZE],
         curr_st_page_vaddr := (curr_st_page_vaddr fr)[t := curr_st_page_vaddr fr ! t + PAGE_SIZE],
         curr_st_page_idx := (curr_st_page_idx fr)[t := curr_st_page_idx fr ! t + 1]\<rparr>)])"

definition serve_message ::
  "('z, 's) env \<Rightarrow> u32 \<Rightarrow> u32 \<Rightarrow> ('z, 's) stress_frame stmt" where
  "serve_message e thidN nData = run_block
    [call_data (\<lambda>fr. getMessagePending (be e) (ctx fr) (message_bytes (msg fr)) (dev fr))
       (\<lambda>bs fr. fr\<lparr>msg := message_of_bytes bs\<rparr>),
     REQUIRE (\<lambda>fr. msg_type (msg fr) = MessageType_value sPageFaultNotify),
     if_stmt (\<lambda>fr. PageFaultNotif_permission (msg fr) = word_of_int (MemoryAccessType_value DATA_LOAD))
       (load_fault e nData)
       (if_stmt (\<lambda>fr. PageFaultNotif_permission (msg fr) = word_of_int (MemoryAccessType_value DATA_STORE))
         (store_fault e nData)
         (REQUIRE (\<lambda>_. False))),
     assign (\<lambda>fr. fr\<lparr>iterations := iterations fr + 1\<rparr>),
     REQUIRE (\<lambda>fr. iterations fr < unat (1000 * thidN * nData))]"

definition serve_iteration ::
  "('z, 's) env \<Rightarrow> u32 \<Rightarrow> u32 \<Rightarrow> ('z, 's) stress_frame stmt" where
  "serve_iteration e thidN nData = run_block
    [collect_pending e,
     (\<lambda>fr. case hasMessagePending (be e) (ctx fr) (dev fr) of
        None \<Rightarrow> None
      | Some (pending, s) \<Rightarrow>
          if pending then serve_message e thidN nData (fr\<lparr>dev := s\<rparr>)
          else Some (Running (fr\<lparr>dev := s\<rparr>)))]"

definition verify_store_pages ::
  "('z, 's) env \<Rightarrow> u32 \<Rightarrow> u32 \<Rightarrow> ('z, 's) stress_frame stmt" where
  "verify_store_pages e thidN nData =
     for_stmt [0..<unat nData] (\<lambda>currPage. for_stmt (thread_ids thidN) (\<lambda>thid.
       let vaddr = vaddr_st + of_nat currPage * PAGE_SIZE;
           base_paddr = page_data_st_paddr thidN nData + thread_pages thid nData;
           paddr = base_paddr + of_nat currPage * PAGE_SIZE in
       run_block
        [assign (\<lambda>fr. fr\<lparr>inst_page := makeZeroPage (inst_page fr)\<rparr>),
         with_frame (\<lambda>fr0. synchronizePage e (uint (asids fr0 ! unat thid)) vaddr paddr True
           inst_page (\<lambda>bs fr. fr\<lparr>inst_page := bs\<rparr>)),
         checkPagePerWord (\<lambda>fr. host_page nData thid currPage (pages fr)) inst_page]))"

definition test_stress_memory ::
  "('z, 's) env \<Rightarrow> u32 \<Rightarrow> u32 \<Rightarrow> bool \<Rightarrow> ('z, 's) stress_frame stmt" where
  "test_stress_memory e thidN nData safeCheckTransplants =
     (let size = unat (thread_pages thidN nData) in run_block
    [REQUIRE (\<lambda>_. thidN \<le> 32),
     assign (\<lambda>fr. fr\<lparr>inst_page := replicate page_bytes 0, data_page := replicate page_bytes 0,
       asids := replicate 32 0, curr_ld_page_paddr := replicate 32 0,
       curr_ld_page_vaddr := replicate 32 0, curr_st_page_paddr := replicate 32 0,
       curr_st_page_vaddr := replicate 32 0, curr_ld_page_idx := replicate 32 0,
       curr_st_page_idx := replicate 32 0\<rparr>),
     assign (\<lambda>fr. fr\<lparr>pages := makeDeadbeefPage (pages fr) size,
       data_page := makeDeadbeefPage (data_page fr) page_bytes,
       inst_page := makeDeadbeefPage (inst_page fr) page_bytes\<rparr>),
     load_file e ''../src/client/tests/asm/executables/pressure_ldp_stp.bin'' inst_page
       (\<lambda>bs fr. fr\<lparr>inst_page := bs\<rparr>),
     for_stmt (thread_ids thidN) (register_thread e thidN nData safeCheckTransplants),
     push_stmt e page_inst_paddr inst_page,
     for_stmt (thread_ids thidN) (\<lambda>thid. run_block
       [with_frame (\<lambda>fr0. miss_stmt INST_FETCH (-1) (asids fr0 ! unat thid) (\<lambda>_. pc_stress) page_inst_paddr),
        send_stmt e reply_msg]),
     assign (\<lambda>fr. fr\<lparr>completed := 0, pending_threads := 0, iterations := 0\<rparr>),
     if safeCheckTransplants then safe_check e thidN else run_block [],
     for_stmt (thread_ids thidN) (\<lambda>thid. run_block
       [call (\<lambda>fr. registerAndPushState (be e) (ctx fr) thid (asids fr ! unat thid)
          (states fr ! unat thid) (dev fr)),
        require_call (\<lambda>fr. transplant_start (be e) (ctx fr) thid (dev fr))]),
     assign (\<lambda>fr. fr\<lparr>completed := 0, pending_threads := 0, iterations := 0\<rparr>),
     while_stmt (\<lambda>fr. completed fr \<noteq> threadsMask thidN) (serve_iteration e thidN nData),
     verify_store_pages e thidN nData])"

definition test_pressure_ldp_stp_short :: "('z, 's) env \<Rightarrow> ('z, 's) stress_frame stmt" where
  "test_pressure_ldp_stp_short e =
     run_block [init_stmt e, test_stress_memory e 4 1 True, release_stmt e]"

definition test_pressure_ldp_stp_max_thread_short :: "('z, 's) env \<Rightarrow> ('z, 's) stress_frame stmt" where
  "test_pressure_ldp_stp_max_thread_short e =
     run_block [init_stmt e, test_stress_memory e 32 1 False, release_stmt e]"

end
