(* ===== verification/Test_Properties.thy ===== *)
theory Test_Properties
  imports Transplant Aws_Setup Load_Store_Tests Stress_Test
begin

text \<open>
  What the client's tests establish, and one thing they do not: the transplant test passes on
  every card whose BAR is a register file, the tags of the stress test identify a word, the
  bound of its first waiting loop is never reached.
\<close>

section \<open>Lemmas\<close>

lemma while_stmt_forever:
  assumes "I v" and "\<And>v. I v \<Longrightarrow> b v \<and> (\<exists>v'. body v = Some (Running v') \<and> I v')"
  shows "while_stmt b body v = None"
proof -
  have "b' = b \<longrightarrow> body' = body \<longrightarrow> I v \<longrightarrow> False" if "while_stmt b' body' v = Some r" for r b' body'
  proof (rule while_stmt.raw_induct [OF _ that])
    fix loop b' body' v r
    assume IH: "\<And>b' body' v r. loop b' body' v = Some r \<Longrightarrow> b' = b \<longrightarrow> body' = body \<longrightarrow> I v \<longrightarrow> False"
      and eq: "(if b' v then
        (case body' v of
           None \<Rightarrow> None
         | Some r \<Rightarrow> (case r of Running v' \<Rightarrow> loop b' body' v' | _ \<Rightarrow> Some r))
        else Some (Running v)) = Some r"
    show "b' = b \<longrightarrow> body' = body \<longrightarrow> I v \<longrightarrow> False"
    proof (intro impI)
      assume "b' = b" "body' = body" "I v"
      moreover from assms(2) [OF \<open>I v\<close>] obtain v' where "b v" "body v = Some (Running v')" "I v'" by blast
      ultimately show False using eq IH by auto
    qed
  qed
  then show ?thesis using assms(1) by (cases "while_stmt b body v") auto
qed

context axil_registers
begin

lemma push_get_state:
  assumes "usable s" and "length new = n" and "length old = n" and "n \<le> 2 ^ 28"
    and "\<And>r. r < n \<Longrightarrow> reg_addr_lo (transplant_base_offset c th) r \<in> window \<and>
      reg_addr_hi (transplant_base_offset c th) r \<in> window"
  shows "\<exists>s1 s2. transplant_pushState be c th new n s = Some (0, s1) \<and>
    transplant_getState be c junk th old n s1 = Some (0, new, s2)"
proof -
  obtain s1 where s1: "transplant_pushState be c th new n s = Some (0, s1)" "usable s1"
    "\<forall>r < n. reg_value (regs s1) (transplant_base_offset c th) r = new ! r"
    using transplant_pushState_regs [OF assms(1,4,5), where state = new] by blast
  have "map (reg_value (regs s1) (transplant_base_offset c th)) [0..<n] = new"
    by (rule nth_equalityI) (use assms(2) s1(3) in auto)
  with transplant_getState_regs [OF s1(2) assms(3,5), of junk] s1(1) show ?thesis by auto
qed

end

lemma stateIsIdentical_refl [simp]: "stateIsIdentical st st"
  by (simp add: stateIsIdentical_def list_all_iff)

lemma wf_initArchState [simp]: "wf_arch (initArchState pc0)"
  by (simp add: wf_arch_def initArchState_def)

text \<open>
  C25. The test \<open>transplant-in\<close> passes on the AWS build whenever \<open>initFPGAContext\<close> succeeds and
  the BAR reads back what was written to it: the random state pushed for thread 0 is the state
  fetched, no \<open>REQUIRE\<close> fails.
\<close>

theorem transplant_in_passes:
  fixes sdk :: "'w aws_sdk" and regs :: "'w \<Rightarrow> u32 \<Rightarrow> u32"
  assumes poke: "\<And>h a v w. \<exists>w'. fpga_pci_poke sdk h a v w = (0, w') \<and> regs w' = (regs w)(a := v)"
    and peek: "\<And>h a x w. \<exists>w'. fpga_pci_peek sdk h a x w = (0, regs w a, w') \<and> regs w' = regs w"
    and "be e = aws_backend sdk" and "init_ctx e = initFPGAContext_aws sdk"
    and "fst (initFPGAContext_aws sdk (ctx fr) (dev fr)) = 0" and "wf_arch (stateTransplant fr)"
  shows "\<exists>fr'. transplant_in e fr = Some (Running fr') \<and> stateTransplant fr' = state fr' \<and>
    state fr' = initArchState (word_of_int (rand e (rand_calls fr)))"
proof -
  let ?st = "initArchState (word_of_int (rand e (rand_calls fr)))"
  obtain c w0 where init: "initFPGAContext_aws sdk (ctx fr) (dev fr) = (0, c, w0)"
    using assms(5) by (cases "initFPGAContext_aws sdk (ctx fr) (dev fr)") auto
  have base: "base_address c = standard_base 0x400000000 (base_address (ctx fr))"
    by (rule init_aws_base [OF init])
  have "axil_registers (aws_backend sdk) c (\<lambda>_. True) regs UNIV"
    by unfold_locales
      (use poke peek in \<open>auto simp: aws_backend_def readAXIL_aws_def writeAXIL_aws_def\<close>)
  from axil_registers.push_get_state [OF this, where s = w0 and th = 0 and
      n = ARMFLEX_TOT_REGS and junk = "uninit e" and new = "arch_to_regs ?st" and
      old = "arch_to_regs (stateTransplant fr)"] assms(6)
  obtain s1 s2 where push: "transplant_pushState (aws_backend sdk) c 0 (arch_to_regs ?st) ARMFLEX_TOT_REGS w0 = Some (0, s1)"
    and get: "transplant_getState (aws_backend sdk) c (uninit e) 0 (arch_to_regs (stateTransplant fr))
      ARMFLEX_TOT_REGS s1 = Some (0, arch_to_regs ?st, s2)"
    by (auto simp: ARMFLEX_TOT_REGS_def)
  show ?thesis
    using init push get assms(3,4)
    by (simp add: transplant_in_def initFPGAContextAndPage_def init_stmt_def init_random_state_def
        rand_stmt_def release_stmt_def requireStateIsIdentical_def call_simps stmt_simps Let_def
        split_beta)
qed

definition example_env ::
  "(\<lparr>axil :: int, read_fd :: int, write_fd :: int\<rparr>, u32 \<Rightarrow> u32) env" where
  "example_env = \<lparr>be = aws_backend register_bar, init_ctx = initFPGAContext_aws register_bar,
     release_ctx = releaseFPGAContext_aws register_bar, sim_ctrl = \<lambda>c t v w. Some (0, w),
     rand = int, file_of = \<lambda>_. None, uninit = 0\<rparr>"

definition example_frame ::
  "(\<lparr>axil :: int, read_fd :: int, write_fd :: int\<rparr>, u32 \<Rightarrow> u32) frame" where
  "example_frame = \<lparr>ctx = example_context, dev = \<lambda>_. 0, failed_checks = 0, rand_calls = 5,
     page = [], zero_page = [], inst_page = [], data_page = [], buffer = [],
     state = initArchState 0, stateTransplant = initArchState 0, msg = \<lparr>words = []\<rparr>,
     reply_msg = \<lparr>words = []\<rparr>, evict_request = \<lparr>words = []\<rparr>, pending_threads = 0,
     queue_state = 0, iterations = 0\<rparr>"

theorem transplant_in_passes_witness:
  "\<exists>fr'. transplant_in example_env example_frame = Some (Running fr') \<and>
    stateTransplant fr' = initArchState 5"
proof -
  have "\<exists>fr'. transplant_in example_env example_frame = Some (Running fr') \<and>
      stateTransplant fr' = state fr' \<and>
      state fr' = initArchState (word_of_int (rand example_env (rand_calls example_frame)))"
    by (rule transplant_in_passes [where sdk = register_bar and regs = "\<lambda>w. w"])
      (simp_all add: register_bar_def quiet_sdk_def example_env_def example_frame_def
        example_context_def initFPGAContext_aws_def check_afi_ready_def expected_ids_def
        pci_vendor_id_def pci_device_id_def)
  then show ?thesis by (auto simp: example_env_def example_frame_def)
qed

section \<open>The stress test\<close>

text \<open>
  The bound of the first waiting loop of \<open>test_stress_memory\<close> is never reached:
  \<open>iterations\<close> is not incremented in it, so with an FPGA on which no thread becomes pending the
  test does not fail but waits for ever.
\<close>

theorem stress_watchdog_ineffective:
  assumes "\<And>c s. \<exists>s'. transplant_pending (be e) c s = Some (0, 0, s')"
    and "completed fr \<noteq> threadsMask thidN" and "iterations fr < 100"
  shows "wait_all_transplanted e thidN fr = None"
  unfolding wait_all_transplanted_def
proof (rule while_stmt_forever [where I = "\<lambda>fr. completed fr \<noteq> threadsMask thidN \<and> iterations fr < 100"])
  fix fr :: "('a, 'b) stress_frame"
  assume I: "completed fr \<noteq> threadsMask thidN \<and> iterations fr < 100"
  obtain s' where "transplant_pending (be e) (ctx fr) (dev fr) = Some (0, 0, s')"
    using assms(1) by blast
  with I show "completed fr \<noteq> threadsMask thidN \<and>
      (\<exists>fr'. run_block [collect_pending e, REQUIRE (\<lambda>fr. iterations fr < 100)] fr = Some (Running fr') \<and>
        completed fr' \<noteq> threadsMask thidN \<and> iterations fr' < 100)"
    by (simp add: collect_pending_def call_simps stmt_simps)
qed (use assms(2,3) in simp)

definition example_stress_frame ::
  "(\<lparr>axil :: int, read_fd :: int, write_fd :: int\<rparr>, unit) stress_frame" where
  "example_stress_frame = \<lparr>ctx = example_context, dev = (), failed_checks = 0, rand_calls = 0,
     page = [], zero_page = [], inst_page = [], data_page = [], buffer = [],
     state = initArchState 0, stateTransplant = initArchState 0, msg = \<lparr>words = []\<rparr>,
     reply_msg = \<lparr>words = []\<rparr>, evict_request = \<lparr>words = []\<rparr>, pending_threads = 0,
     queue_state = 0, iterations = 0, pages = [], states = [], asids = [],
     curr_ld_page_paddr = [], curr_ld_page_vaddr = [], curr_st_page_paddr = [],
     curr_st_page_vaddr = [], curr_ld_page_idx = [], curr_st_page_idx = [], completed = 0\<rparr>"

definition idle_card ::
  "(\<lparr>axil :: int, read_fd :: int, write_fd :: int\<rparr>, unit) env" where
  "idle_card = \<lparr>be = aws_backend (quiet_sdk (\<lambda>a x w. (0, 0, w)) (\<lambda>a v. Pair 0)),
     init_ctx = \<lambda>c w. (0, c, w), release_ctx = \<lambda>c. Pair 0, sim_ctrl = \<lambda>c t v w. Some (0, w),
     rand = int, file_of = \<lambda>_. None, uninit = 0\<rparr>"

theorem stress_watchdog_ineffective_witness:
  "wait_all_transplanted idle_card 4 example_stress_frame = None"
  by (rule stress_watchdog_ineffective)
    (simp_all add: idle_card_def example_stress_frame_def transplant_pending_def aws_backend_def
      readAXIL_aws_def quiet_sdk_def threadsMask_def)

lemma bit_small_nat: "(m :: nat) < 2 ^ n \<Longrightarrow> bit m i \<Longrightarrow> i < n"
  by (metis bit_take_bit_iff take_bit_nat_eq_self)

lemma bit_small: "unat (w :: u64) < 2 ^ n \<Longrightarrow> bit w i \<Longrightarrow> i < n"
  using bit_small_nat [of "unat w" n i] by (simp add: bit_simps)

lemma page_tag_fields:
  assumes "thid < 256" and "nPage < 64" and "word < 512"
  shows "drop_bit 56 (page_tag thid nPage word) = thid"
    and "take_bit 6 (drop_bit 50 (page_tag thid nPage word)) = of_nat nPage"
    and "take_bit 50 (page_tag thid nPage word) = of_nat word"
proof -
  have t: "bit thid i \<Longrightarrow> i < 8" for i
    using bit_small [of thid 8] assms(1) by (simp add: word_less_nat_alt)
  have p: "bit nPage i \<Longrightarrow> i < 6" for i
    using bit_small_nat [of nPage 6] assms(2) by simp
  have w: "bit word i \<Longrightarrow> i < 9" for i
    using bit_small_nat [of word 9] assms(3) by simp
  show "drop_bit 56 (page_tag thid nPage word) = thid"
    by (rule bit_word_eqI) (auto simp: page_tag_def bit_simps dest: t p w)
  show "take_bit 6 (drop_bit 50 (page_tag thid nPage word)) = of_nat nPage"
    by (rule bit_word_eqI) (auto simp: page_tag_def bit_simps dest: t p w)
  show "take_bit 50 (page_tag thid nPage word) = of_nat word"
    by (rule bit_word_eqI) (auto simp: page_tag_def bit_simps dest: t p w)
qed

text \<open>
  The words \<open>tagPage\<close> writes identify where they belong: up to 64 pages per thread, two
  tags are equal only if thread, page and word are. From page 64 on the page number runs into
  the bits of the thread, and pages of different threads get the same tags.
\<close>

theorem page_tags_identify:
  assumes "thid < 256" and "thid' < 256" and "nPage < 64" and "nPage' < 64"
    and "word < page_bytes div 8" and "word' < page_bytes div 8"
  shows "(page_tag thid nPage word = page_tag thid' nPage' word' \<longleftrightarrow>
      thid = thid' \<and> nPage = nPage' \<and> word = word') \<and>
    page_tag thid 64 word = page_tag (thid OR 1) 0 word"
proof
  have bound: "word < 512" "word' < 512"
    using assms(5,6) by (simp_all add: page_bytes_def PAGE_SIZE_def)
  show "page_tag thid nPage word = page_tag thid' nPage' word' \<longleftrightarrow>
      thid = thid' \<and> nPage = nPage' \<and> word = word'"
  proof
    assume eq: "page_tag thid nPage word = page_tag thid' nPage' word'"
    have "(of_nat nPage :: u64) = of_nat nPage'"
      using page_tag_fields(2) [OF assms(1,3) bound(1)] page_tag_fields(2) [OF assms(2,4) bound(2)]
      unfolding eq by metis
    moreover have "(of_nat word :: u64) = of_nat word'"
      using page_tag_fields(3) [OF assms(1,3) bound(1)] page_tag_fields(3) [OF assms(2,4) bound(2)]
      unfolding eq by metis
    ultimately have "unat (of_nat nPage :: u64) = unat (of_nat nPage' :: u64)"
      "unat (of_nat word :: u64) = unat (of_nat word' :: u64)" by simp_all
    then have "nPage = nPage'" "word = word'" using assms(3,4) bound by (simp_all add: unat_of_nat)
    moreover have "thid = thid'"
      using page_tag_fields(1) [OF assms(1,3) bound(1)] page_tag_fields(1) [OF assms(2,4) bound(2)]
      unfolding eq by metis
    ultimately show "thid = thid' \<and> nPage = nPage' \<and> word = word'" by simp
  qed simp
  show "page_tag thid 64 word = page_tag (thid OR 1) 0 word"
  proof -
    have "push_bit 50 (of_nat 64 :: u64) = push_bit 56 1" by (simp add: push_bit_eq_mult)
    then show ?thesis by (simp only: page_tag_def push_bit_or or.assoc) simp
  qed
qed

theorem page_tags_identify_witness:
  "page_tag 3 1 0 \<noteq> page_tag 1 3 0 \<and> page_tag 0 64 511 = page_tag 1 0 511"
  using page_tags_identify [of 3 1 1 3 0 0] page_tags_identify [of 0 0 0 0 511 511]
  by (simp add: page_bytes_def PAGE_SIZE_def)

end
