(* ===== verification/Examples.thy ===== *)
theory Examples
  imports Kernel
begin

text \<open>
  The three programs of \<open>example/\<close>: an echo server in capitals and its client over a Unix
  socket, and the sketch of a clock barrier that \<open>server/dut.cc\<close> replaced.
\<close>

section \<open>garbage_server.cc\<close>

text \<open>\<open>buffer[i] - 'a' + 'A'\<close> for the characters from \<open>'a'\<close> to \<open>'z'\<close>; \<open>char\<close> is signed.\<close>

definition capital :: "u8 \<Rightarrow> u8" where
  "capital ch = (if sint ch \<ge> 97 \<and> sint ch \<le> 122 then ch - 97 + 65 else ch)"

text \<open>The inner loop: it only ends with the \<open>return -1\<close> of a failed call.\<close>

partial_function (option) serve_connection :: "'w kernel \<Rightarrow> int \<Rightarrow> 'w \<Rightarrow> (int \<times> 'w) option" where
  "serve_connection k data_socket w =
     (case k_recv k data_socket 128 w of
        (RecvError e, w1) \<Rightarrow> Some (-1, w1)
      | (Received bs, w1) \<Rightarrow>
          (case k_send k data_socket (map capital bs) w1 of
             (SendError e, w2) \<Rightarrow> Some (-1, w2)
           | (Sent n, w2) \<Rightarrow> serve_connection k data_socket w2))"

definition garbage_server_main :: "'w kernel \<Rightarrow> 'w \<Rightarrow> (int \<times> 'w) option" where
  "garbage_server_main k w =
     (let (socket_fd, w1) = k_socket k w in
      if socket_fd < 0 then Some (1, w1)
      else let (r, w2) = k_bind k socket_fd ''garbage.server'' w1 in
        if r < 0 then Some (-1, w2)
        else let (r, w3) = k_listen k socket_fd 5 w2 in
          if r < 0 then Some (-1, w3)
          else let (data_socket, w4) = k_accept k socket_fd w3 in
            if data_socket < 0 then Some (-1, w4)
            else serve_connection k data_socket w4)"

text \<open>
  The outer loop accepts the next client when the inner one ends, which it does only by leaving
  \<open>main\<close>: one client is all the server serves. After end of file the inner loop runs on empty
  reads for ever.
\<close>

lemma serve_connection_eof:
  assumes "eof w" and "\<And>w. eof w \<Longrightarrow> \<exists>w1. k_recv k fd 128 w = (Received [], w1) \<and> eof w1"
    and "\<And>w. eof w \<Longrightarrow> \<exists>w1. k_send k fd [] w = (Sent 0, w1) \<and> eof w1"
  shows "serve_connection k fd w = None"
proof -
  have "k' = k \<longrightarrow> fd' = fd \<longrightarrow> eof w \<longrightarrow> False" if "serve_connection k' fd' w = Some r" for r k' fd'
  proof (rule serve_connection.raw_induct [OF _ that])
    fix loop k' fd' w r
    assume IH: "\<And>k' fd' w r. loop k' fd' w = Some r \<Longrightarrow> k' = k \<longrightarrow> fd' = fd \<longrightarrow> eof w \<longrightarrow> False"
      and eq: "(case k_recv k' fd' 128 w of
        (RecvError e, w1) \<Rightarrow> Some (-1, w1)
      | (Received bs, w1) \<Rightarrow>
          (case k_send k' fd' (map capital bs) w1 of
             (SendError e, w2) \<Rightarrow> Some (-1, w2)
           | (Sent n, w2) \<Rightarrow> loop k' fd' w2)) = Some r"
    show "k' = k \<longrightarrow> fd' = fd \<longrightarrow> eof w \<longrightarrow> False"
    proof (intro impI)
      assume same: "k' = k" "fd' = fd" and "eof w"
      obtain w1 where w1: "k_recv k fd 128 w = (Received [], w1)" "eof w1"
        using assms(2) [OF \<open>eof w\<close>] by blast
      obtain w2 where w2: "k_send k fd [] w1 = (Sent 0, w2)" "eof w2"
        using assms(3) [OF w1(2)] by blast
      from eq w1 w2 same IH show False by simp
    qed
  qed
  then show ?thesis using assms(1) by (cases "serve_connection k fd w") auto
qed

section \<open>garbage_client.cc\<close>

text \<open>\<open>input\<close> is \<open>read(0, buffer, 128)\<close>; the reply is printed.\<close>

partial_function (option) client_loop ::
  "'w kernel \<Rightarrow> ('w \<Rightarrow> recv_result \<times> 'w) \<Rightarrow> int \<Rightarrow> 'w \<Rightarrow> (int \<times> 'w) option" where
  "client_loop k input socket_fd w =
     (case input w of
        (RecvError e, w1) \<Rightarrow> Some (-1, w1)
      | (Received bs, w1) \<Rightarrow>
          (case k_send k socket_fd bs w1 of
             (SendError e, w2) \<Rightarrow> Some (-1, w2)
           | (Sent n, w2) \<Rightarrow>
               (case k_recv k socket_fd 128 w2 of (_, w3) \<Rightarrow> client_loop k input socket_fd w3)))"

definition garbage_client_main ::
  "'w kernel \<Rightarrow> ('w \<Rightarrow> recv_result \<times> 'w) \<Rightarrow> 'w \<Rightarrow> (int \<times> 'w) option" where
  "garbage_client_main k input w =
     (let (socket_fd, w1) = k_socket k w in
      if socket_fd < 0 then Some (-1, w1)
      else let (r, w2) = k_connect k socket_fd ''garbage.server'' w1 in
        if r < 0 then Some (-1, w2) else client_loop k input socket_fd w2)"

section \<open>fuck_routine.cc\<close>

text \<open>
  Six threads call \<open>waitTick\<close> ten times each; \<open>main\<close> waits ten times for all of them and wakes
  them. A thread counts itself under one mutex and waits under another, so it can be between
  the two (\<open>Entering\<close>) when it is woken.
\<close>

datatype sub_pc = Counting nat | Entering nat | Waiting nat | Finished

datatype top_pc = Top_Waiting nat | Top_Joining | Top_Done

record sync_state =
  thread_cnt :: nat
  subs :: "sub_pc list"
  main_thread :: top_pc

definition THREAD_NUMBER :: nat where
  "THREAD_NUMBER = 6"

text \<open>The loop \<open>for (i = 0; i < 10; ++i)\<close> of a thread after \<open>waitTick\<close> number \<open>i\<close>.\<close>

definition next_round :: "nat \<Rightarrow> sub_pc" where
  "next_round i = (if Suc i < 10 then Counting (Suc i) else Finished)"

fun notified :: "sub_pc \<Rightarrow> sub_pc" where
  "notified (Waiting i) = next_round i"
| "notified p = p"

inductive sync_step :: "sync_state \<Rightarrow> sync_state \<Rightarrow> bool" where
  count: "j < length (subs s) \<Longrightarrow> subs s ! j = Counting i \<Longrightarrow> main_thread s = Top_Waiting n \<Longrightarrow>
    sync_step s (s\<lparr>thread_cnt := thread_cnt s + 1, subs := (subs s)[j := Entering i]\<rparr>)"
| enter_wait: "j < length (subs s) \<Longrightarrow> subs s ! j = Entering i \<Longrightarrow>
    sync_step s (s\<lparr>subs := (subs s)[j := Waiting i]\<rparr>)"
| release: "main_thread s = Top_Waiting n \<Longrightarrow> thread_cnt s = THREAD_NUMBER \<Longrightarrow>
    sync_step s (s\<lparr>thread_cnt := 0, subs := map notified (subs s),
      main_thread := (if Suc n < 10 then Top_Waiting (Suc n) else Top_Joining)\<rparr>)"
| join_all: "main_thread s = Top_Joining \<Longrightarrow> \<forall>p \<in> set (subs s). p = Finished \<Longrightarrow>
    sync_step s (s\<lparr>main_thread := Top_Done\<rparr>)"

inductive_cases sync_stepE: "sync_step s s'"

definition sync_start :: sync_state where
  "sync_start = \<lparr>thread_cnt = 0, subs = replicate THREAD_NUMBER (Counting 0),
     main_thread = Top_Waiting 0\<rparr>"

abbreviation sync_steps :: "sync_state \<Rightarrow> sync_state \<Rightarrow> bool" where
  "sync_steps \<equiv> sync_step\<^sup>*\<^sup>*"

text \<open>A thread that counts and waits, in two steps.\<close>

lemma count_and_wait:
  assumes "j < length (subs s)" and "subs s ! j = Counting i" and "main_thread s = Top_Waiting n"
  shows "sync_steps s (s\<lparr>thread_cnt := thread_cnt s + 1, subs := (subs s)[j := Waiting i]\<rparr>)"
proof -
  let ?s1 = "s\<lparr>thread_cnt := thread_cnt s + 1, subs := (subs s)[j := Entering i]\<rparr>"
  have "sync_step s ?s1" by (rule sync_step.count [OF assms])
  moreover have "sync_step ?s1 (?s1\<lparr>subs := (subs ?s1)[j := Waiting i]\<rparr>)"
    by (rule sync_step.enter_wait) (use assms(1) in simp_all)
  ultimately show ?thesis by simp
qed

lemma count_and_wait_all:
  assumes "length ws = k" and "subs s = ws @ replicate m (Counting i) @ rest"
    and "main_thread s = Top_Waiting n"
  shows "sync_steps s (s\<lparr>thread_cnt := thread_cnt s + m, subs := ws @ replicate m (Waiting i) @ rest\<rparr>)"
  using assms
proof (induction m arbitrary: s ws k)
  case 0
  then have "s\<lparr>subs := ws @ rest\<rparr> = s" by (cases s) simp
  then show ?case by simp
next
  case (Suc m)
  let ?s1 = "s\<lparr>thread_cnt := thread_cnt s + 1, subs := (subs s)[k := Waiting i]\<rparr>"
  have "sync_steps s ?s1"
    by (rule count_and_wait) (use Suc.prems in \<open>auto simp: nth_append\<close>)
  moreover have subs1: "subs ?s1 = (ws @ [Waiting i]) @ replicate m (Counting i) @ rest"
    using Suc.prems(1,2) by (simp add: list_update_append)
  have "sync_steps ?s1 (?s1\<lparr>thread_cnt := thread_cnt ?s1 + m,
      subs := (ws @ [Waiting i]) @ replicate m (Waiting i) @ rest\<rparr>)"
    by (rule Suc.IH [OF refl subs1]) (use Suc.prems(3) in simp)
  ultimately show ?case by simp
qed

text \<open>
  The sketch of the barrier can deadlock: a thread that has counted itself but not begun to
  wait misses the notification, and then everybody waits for ever. (The barrier of
  \<open>server/dut.cc\<close> counts and waits under one mutex.)
\<close>

theorem example_barrier_deadlocks:
  "\<exists>s. sync_steps sync_start s \<and> (\<nexists>s'. sync_step s s') \<and> main_thread s \<noteq> Top_Done"
proof -
  let ?r = "\<lambda>p q. replicate 5 p @ [q]"
  let ?s1 = "sync_start\<lparr>thread_cnt := 5, subs := ?r (Waiting 0) (Counting 0)\<rparr>"
  let ?s2 = "?s1\<lparr>thread_cnt := 6, subs := ?r (Waiting 0) (Entering 0)\<rparr>"
  let ?s3 = "?s2\<lparr>thread_cnt := 0, subs := ?r (Counting 1) (Entering 0), main_thread := Top_Waiting 1\<rparr>"
  let ?s4 = "?s3\<lparr>subs := ?r (Counting 1) (Waiting 0)\<rparr>"
  let ?s5 = "?s4\<lparr>thread_cnt := 5, subs := ?r (Waiting 1) (Waiting 0)\<rparr>"
  have "sync_steps sync_start ?s1"
    using count_and_wait_all [of "[]" 0 sync_start 5 0 "[Counting 0]" 0]
    by (simp add: sync_start_def THREAD_NUMBER_def numeral_eq_Suc)
  moreover have "sync_step ?s1 ?s2"
    using sync_step.count [of 5 ?s1 0 0] by (simp add: sync_start_def numeral_eq_Suc)
  moreover have "sync_step ?s2 ?s3"
    using sync_step.release [of ?s2 0]
    by (simp add: sync_start_def THREAD_NUMBER_def next_round_def numeral_eq_Suc)
  moreover have "sync_step ?s3 ?s4"
    using sync_step.enter_wait [of 5 ?s3 0] by (simp add: sync_start_def numeral_eq_Suc)
  moreover have "sync_steps ?s4 ?s5"
    using count_and_wait_all [of "[]" 0 ?s4 5 1 "[Waiting 0]" 1] by simp
  ultimately have reached: "sync_steps sync_start ?s5"
    by (meson rtranclp.rtrancl_into_rtrancl rtranclp_trans)
  have "\<nexists>s'. sync_step ?s5 s'"
  proof
    assume "\<exists>s'. sync_step ?s5 s'"
    then obtain s' where "sync_step ?s5 s'" ..
    then show False
      by (cases rule: sync_step.cases) (auto simp: THREAD_NUMBER_def nth_append split: if_splits)
  qed
  then show ?thesis using reached by (intro exI [of _ ?s5]) simp
qed

end
