(* ===== verification/Catch_Strings.thy ===== *)
theory Catch_Strings
  imports Prelude "HOL-Library.List_Lexorder" "HOL-Library.Char_ord"
begin

text \<open>
  The string functions of the test framework the client's tests are built on
  (\<open>client/catch.hpp\<close>): \<open>catch_string_manip.cpp\<close> and \<open>StringRef\<close>. A string is its list of
  bytes; a position is a natural number, \<open>std::string::npos\<close> is \<open>None\<close>.
\<close>

section \<open>Errors of the framework\<close>

text \<open>
  \<open>SourceLineInfo\<close>, and what the framework throws: the failures of \<open>CATCH_ENFORCE\<close> with
  what their messages mention, \<open>CATCH_INTERNAL_ERROR\<close>, \<open>std::out_of_range\<close> of \<open>substr\<close>, and a
  failed \<open>assert\<close> or a null pointer.
\<close>

record SourceLineInfo =
  src_file :: string
  src_line :: nat

datatype catch_error =
    Reserved_Tag string SourceLineInfo
  | Test_Already_Defined string SourceLineInfo SourceLineInfo
  | Alias_Malformed string SourceLineInfo
  | Alias_Already_Registered string SourceLineInfo SourceLineInfo
  | Internal_Error string
  | Out_Of_Range
  | Assert_Failed

section \<open>std::string\<close>

definition str_find :: "string \<Rightarrow> string \<Rightarrow> nat \<Rightarrow> nat option" where
  "str_find s t pos = find (\<lambda>i. take (length t) (drop i s) = t) [pos..<Suc (length s) - length t]"

definition std_substr :: "string \<Rightarrow> nat \<Rightarrow> catch_error + string" where
  "std_substr s pos = (if pos \<le> length s then Inr (drop pos s) else Inl Out_Of_Range)"

section \<open>catch_string_manip.cpp\<close>

text \<open>\<open>std::tolower\<close> and \<open>std::isalnum\<close> in the C locale.\<close>

definition toLowerCh :: "char \<Rightarrow> char" where
  "toLowerCh ch = (let n = of_char ch :: nat in if 65 \<le> n \<and> n \<le> 90 then char_of (n + 32) else ch)"

definition isalnum :: "char \<Rightarrow> bool" where
  "isalnum ch = (let n = of_char ch :: nat in
     48 \<le> n \<and> n \<le> 57 \<or> 65 \<le> n \<and> n \<le> 90 \<or> 97 \<le> n \<and> n \<le> 122)"

definition startsWith :: "string \<Rightarrow> string \<Rightarrow> bool" where
  "startsWith s pre \<longleftrightarrow> length s \<ge> length pre \<and> take (length pre) s = pre"

definition startsWith_char :: "string \<Rightarrow> char \<Rightarrow> bool" where
  "startsWith_char s pre \<longleftrightarrow> s \<noteq> [] \<and> s ! 0 = pre"

definition endsWith :: "string \<Rightarrow> string \<Rightarrow> bool" where
  "endsWith s suf \<longleftrightarrow> length s \<ge> length suf \<and> take (length suf) (rev s) = rev suf"

definition endsWith_char :: "string \<Rightarrow> char \<Rightarrow> bool" where
  "endsWith_char s suf \<longleftrightarrow> s \<noteq> [] \<and> s ! (length s - 1) = suf"

definition contains :: "string \<Rightarrow> string \<Rightarrow> bool" where
  "contains s infx \<longleftrightarrow> str_find s infx 0 \<noteq> None"

definition toLower :: "string \<Rightarrow> string" where
  "toLower s = map toLowerCh s"

definition is_ws :: "char \<Rightarrow> bool" where
  "is_ws ch \<longleftrightarrow> ch = CHR '' '' \<or> ch = CHR 0x09 \<or> ch = CHR 0x0A \<or> ch = CHR 0x0D"

text \<open>The two functions \<open>trim\<close>: by searches on a string, by loops on a \<open>StringRef\<close>.\<close>

definition trim :: "string \<Rightarrow> string" where
  "trim s =
     (case (find (\<lambda>i. \<not> is_ws (s ! i)) [0..<length s], find (\<lambda>i. \<not> is_ws (s ! i)) (rev [0..<length s])) of
        (Some start, Some stop) \<Rightarrow> take (1 + stop - start) (drop start s)
      | _ \<Rightarrow> '''')"

function trim_begin :: "string \<Rightarrow> nat \<Rightarrow> nat" where
  "trim_begin s i = (if i < length s \<and> is_ws (s ! i) then trim_begin s (i + 1) else i)"
  by auto
termination by (relation "measure (\<lambda>(s, i). length s - i)") auto

declare trim_begin.simps [simp del]

fun trim_end :: "string \<Rightarrow> nat \<Rightarrow> nat \<Rightarrow> nat" where
  "trim_end s i j = (if j > i \<and> is_ws (s ! (j - 1)) then trim_end s i (j - 1) else j)"

declare trim_end.simps [simp del]

definition ref_substr :: "string \<Rightarrow> nat \<Rightarrow> nat \<Rightarrow> string" where
  "ref_substr s start n = (if start < length s then take (min (length s - start) n) (drop start s) else '''')"

definition trim_ref :: "string \<Rightarrow> string" where
  "trim_ref s = (let i = trim_begin s 0; j = trim_end s i (length s) in ref_substr s i (j - i))"

text \<open>\<open>replaceInPlace\<close>: the string and whether anything was replaced.\<close>

partial_function (option) replace_loop :: "string \<Rightarrow> string \<Rightarrow> string \<Rightarrow> nat \<Rightarrow> string option" where
  "replace_loop this that s i =
     (let s' = take i s @ that @ drop (i + length this) s in
      if i < length s' - length that
      then (case str_find s' this (i + length that) of
              Some j \<Rightarrow> replace_loop this that s' j
            | None \<Rightarrow> Some s')
      else Some s')"

definition replaceInPlace :: "string \<Rightarrow> string \<Rightarrow> string \<Rightarrow> (bool \<times> string) option" where
  "replaceInPlace s this that =
     (case str_find s this 0 of
        None \<Rightarrow> Some (False, s)
      | Some i \<Rightarrow> map_option (\<lambda>s'. (True, s')) (replace_loop this that s i))"

text \<open>\<open>splitStringRef\<close>: the pieces so far and the start of the next one.\<close>

definition split_step :: "string \<Rightarrow> char \<Rightarrow> nat \<Rightarrow> string list \<times> nat \<Rightarrow> string list \<times> nat" where
  "split_step s delimiter pos = (\<lambda>(subStrings, start).
     if s ! pos = delimiter
     then (if pos - start > 1 then subStrings @ [ref_substr s start (pos - start)] else subStrings, pos + 1)
     else (subStrings, start))"

definition splitStringRef :: "string \<Rightarrow> char \<Rightarrow> string list" where
  "splitStringRef s delimiter =
     (let (subStrings, start) = fold (split_step s delimiter) [0..<length s] ([], 0) in
      if start < length s then subStrings @ [ref_substr s start (length s - start)] else subStrings)"

section \<open>What they compute\<close>

lemma startsWith_iff: "startsWith s pre \<longleftrightarrow> (\<exists>r. s = pre @ r)"
  unfolding startsWith_def by (metis append_take_drop_id append_eq_conv_conj length_append le_add1)

lemma startsWith_char_iff: "startsWith_char s ch \<longleftrightarrow> (\<exists>r. s = ch # r)"
  by (cases s) (auto simp: startsWith_char_def)

lemma endsWith_iff: "endsWith s suf \<longleftrightarrow> (\<exists>l. s = l @ suf)"
proof -
  have "endsWith s suf \<longleftrightarrow> startsWith (rev s) (rev suf)"
    by (simp add: endsWith_def startsWith_def)
  also have "\<dots> \<longleftrightarrow> (\<exists>l. s = l @ suf)"
    unfolding startsWith_iff by (metis rev_append rev_rev_ident)
  finally show ?thesis .
qed

lemma endsWith_char_iff: "endsWith_char s ch \<longleftrightarrow> (\<exists>l. s = l @ [ch])"
  by (cases s rule: rev_cases) (auto simp: endsWith_char_def nth_append)

lemma str_find_Some:
  assumes "str_find s t pos = Some i"
  shows "pos \<le> i \<and> i + length t \<le> length s \<and> s = take i s @ t @ drop (i + length t) s \<and>
    (\<forall>j. pos \<le> j \<and> j < i \<longrightarrow> take (length t) (drop j s) \<noteq> t)"
proof -
  let ?js = "[pos..<Suc (length s) - length t]"
  obtain k where k: "k < length ?js" "take (length t) (drop (?js ! k) s) = t" "i = ?js ! k"
      "\<forall>j<k. take (length t) (drop (?js ! j) s) \<noteq> t"
    using assms unfolding str_find_def find_Some_iff by blast
  have i: "i = pos + k" "i < Suc (length s) - length t" using k(1,3) by simp_all
  have "take i s @ take (length t) (drop i s) @ drop (length t) (drop i s) = s"
    by (simp only: append_take_drop_id)
  then have split: "s = take i s @ t @ drop (i + length t) s"
    using k(2,3) by (simp add: add.commute)
  have before: "take (length t) (drop j s) \<noteq> t" if "pos \<le> j" "j < i" for j
    using k(4)[rule_format, of "j - pos"] that i by simp
  have "i + length t \<le> length s"
    using i(2) by (cases "length t \<le> Suc (length s)") (auto simp: less_diff_conv)
  with i(1) split before show ?thesis by simp
qed

lemma str_find_None:
  "str_find s t pos = None \<longleftrightarrow> (\<forall>i. pos \<le> i \<and> i + length t \<le> length s \<longrightarrow> take (length t) (drop i s) \<noteq> t)"
  unfolding str_find_def find_None_iff by (auto simp: less_diff_conv)

lemma contains_iff: "contains s t \<longleftrightarrow> (\<exists>l r. s = l @ t @ r)"
proof
  assume "contains s t"
  then obtain i where "str_find s t 0 = Some i" by (auto simp: contains_def)
  then show "\<exists>l r. s = l @ t @ r" using str_find_Some by blast
next
  assume "\<exists>l r. s = l @ t @ r"
  then obtain l r where s: "s = l @ t @ r" by blast
  then have "take (length t) (drop (length l) s) = t \<and> length l + length t \<le> length s" by simp
  then have "str_find s t 0 \<noteq> None" unfolding str_find_None by blast
  then show "contains s t" by (simp add: contains_def)
qed

subsection \<open>Trimming\<close>

text \<open>Both functions drop the white space at both ends.\<close>

definition strip :: "string \<Rightarrow> string" where
  "strip s = rev (dropWhile is_ws (rev (dropWhile is_ws s)))"

lemma trim_begin_length: "i \<le> length s \<Longrightarrow> trim_begin s i = i + length (takeWhile is_ws (drop i s))"
proof (induction s i rule: trim_begin.induct)
  case (1 s i)
  show ?case
  proof (cases "i < length s \<and> is_ws (s ! i)")
    case True
    then have "drop i s = s ! i # drop (Suc i) s" by (simp add: Cons_nth_drop_Suc)
    with 1 True show ?thesis by (simp add: trim_begin.simps [of s i])
  next
    case False
    then have "takeWhile is_ws (drop i s) = []"
      by (cases "i < length s") (auto simp: Cons_nth_drop_Suc [symmetric])
    with False show ?thesis by (auto simp add: trim_begin.simps [of s i])
  qed
qed

lemma take_snoc:
  assumes "i < j" and "j \<le> length s"
  shows "take (j - i) (drop i s) = take (j - 1 - i) (drop i s) @ [s ! (j - 1)]"
proof -
  obtain k where "j = Suc (i + k)" using less_imp_Suc_add [OF assms(1)] by blast
  with assms(2) show ?thesis by (simp add: take_Suc_conv_app_nth)
qed

lemma trim_end_take:
  "i \<le> j \<Longrightarrow> j \<le> length s \<Longrightarrow>
    take (trim_end s i j - i) (drop i s) = rev (dropWhile is_ws (rev (take (j - i) (drop i s)))) \<and>
    i \<le> trim_end s i j \<and> trim_end s i j \<le> j"
proof (induction s i j rule: trim_end.induct)
  case (1 s i j)
  show ?case
  proof (cases "j > i \<and> is_ws (s ! (j - 1))")
    case True
    have "take (j - i) (drop i s) = take (j - 1 - i) (drop i s) @ [s ! (j - 1)]"
      using True 1(3) by (simp only: take_snoc)
    moreover have "i \<le> j - 1" "j - 1 \<le> length s" using True 1(3) by linarith+
    ultimately show ?thesis using 1(1) True by (auto simp: trim_end.simps [of s i j])
  next
    case False
    have "rev (dropWhile is_ws (rev (take (j - i) (drop i s)))) = take (j - i) (drop i s)"
    proof (cases "i < j")
      case True
      then have "take (j - i) (drop i s) = take (j - 1 - i) (drop i s) @ [s ! (j - 1)]"
        using 1(3) by (rule take_snoc)
      with True False show ?thesis by simp
    qed simp
    with False 1(2) show ?thesis by (auto simp add: trim_end.simps [of s i j])
  qed
qed

lemma trim_ref_strip: "trim_ref s = strip s"
proof -
  let ?i = "trim_begin s 0"
  have i: "?i = length (takeWhile is_ws s)" using trim_begin_length [of 0 s] by simp
  have le: "?i \<le> length s" using i length_takeWhile_le by metis
  let ?j = "trim_end s ?i (length s)"
  have rest: "drop ?i s = dropWhile is_ws s" by (simp add: i dropWhile_eq_drop)
  have "take (length s - ?i) (drop ?i s) = drop ?i s" by simp
  then have j: "take (?j - ?i) (dropWhile is_ws s) = strip s" "?j \<le> length s"
    using trim_end_take [OF le order_refl] by (simp_all add: rest strip_def)
  show ?thesis
  proof (cases "?i < length s")
    case True
    with j show ?thesis by (simp add: trim_ref_def Let_def ref_substr_def rest min_absorb2)
  next
    case False
    then have "dropWhile is_ws s = []" using rest by simp
    with False show ?thesis by (simp add: trim_ref_def Let_def ref_substr_def strip_def del: dropWhile_eq_Nil_conv)
  qed
qed

lemma find_map: "find p (map f xs) = map_option f (find (p \<circ> f) xs)"
  by (induction xs) auto

lemma find_first: "find (\<lambda>i. \<not> p (s ! i)) [0..<length s] =
    (if list_all p s then None else Some (length (takeWhile p s)))"
proof (induction s)
  case (Cons x s)
  have "[0..<length (x # s)] = 0 # map Suc [0..<length s]"
    by (simp add: upt_conv_Cons map_Suc_upt del: upt_Suc)
  with Cons show ?case by (simp add: find_map o_def del: upt_Suc)
qed simp

lemma find_last: "find (\<lambda>i. \<not> p (s ! i)) (rev [0..<length s]) =
    (if list_all p s then None else Some (length s - 1 - length (takeWhile p (rev s))))"
proof -
  let ?f = "\<lambda>i. length s - 1 - i"
  have "rev [0..<length s] = map ?f [0..<length (rev s)]"
    by (auto intro!: nth_equalityI simp: rev_nth)
  then have "find (\<lambda>i. \<not> p (s ! i)) (rev [0..<length s]) =
      map_option ?f (find (\<lambda>i. \<not> p (s ! (?f i))) [0..<length (rev s)])"
    by (simp only: find_map o_def)
  also have "find (\<lambda>i. \<not> p (s ! (?f i))) [0..<length (rev s)] =
      find (\<lambda>i. \<not> p (rev s ! i)) [0..<length (rev s)]"
    by (rule find_cong) (auto simp: rev_nth)
  finally show ?thesis by (simp only: find_first list_all_rev option.map if_distrib [of "map_option ?f"])
qed

lemma trim_strip: "trim s = strip s"
proof (cases "list_all is_ws s")
  case True
  then have "dropWhile is_ws s = []" by (simp add: list_all_iff)
  with True show ?thesis by (simp add: trim_def find_first strip_def del: dropWhile_eq_Nil_conv)
next
  case False
  let ?a = "takeWhile is_ws s" and ?r = "dropWhile is_ws s"
  let ?b = "takeWhile is_ws (rev ?r)"
  have "?r \<noteq> []" using False by (simp add: list_all_iff)
  have "\<exists>x\<in>set (rev ?r). \<not> is_ws x"
    using False by (metis dropWhile_eq_Nil_conv list.pred_set set_rev \<open>?r \<noteq> []\<close> hd_dropWhile list.set_sel(1))
  then have rev: "takeWhile is_ws (rev s) = ?b"
    by (metis rev_append takeWhile_append1 takeWhile_dropWhile_id)
  have len: "length s = length ?a + length ?r" by (metis length_append takeWhile_dropWhile_id)
  have b: "length ?b < length ?r"
    using \<open>\<exists>x\<in>set (rev ?r). \<not> is_ws x\<close>
    by (metis length_rev length_takeWhile_le nat_less_le takeWhile_eq_all_conv takeWhile_eq_take take_all_iff order_refl)
  have "rev (dropWhile is_ws (rev r)) = take (length r - length (takeWhile is_ws (rev r))) r" for r
    by (simp add: dropWhile_eq_drop rev_drop)
  then have "strip s = take (length ?r - length ?b) ?r" by (simp only: strip_def)
  moreover have "trim s = take (1 + (length s - 1 - length ?b) - length ?a) (drop (length ?a) s)"
    using False by (simp add: trim_def find_first find_last rev)
  moreover have "1 + (length s - 1 - length ?b) - length ?a = length ?r - length ?b" using len b by simp
  moreover have "drop (length ?a) s = ?r" by (simp only: dropWhile_eq_drop)
  ultimately show ?thesis by simp
qed

subsection \<open>Replacing\<close>

text \<open>The reference: every occurrence from the left, the replacements not searched again.\<close>

function replace_all :: "string \<Rightarrow> string \<Rightarrow> string \<Rightarrow> string" where
  "replace_all this that s =
     (if this = [] \<or> s = [] then s
      else if take (length this) s = this then that @ replace_all this that (drop (length this) s)
      else hd s # replace_all this that (tl s))"
  by auto
termination by (relation "measure (\<lambda>(this, that, s). length s)") auto

declare replace_all.simps [simp del]

lemma replace_all_Nil [simp]: "replace_all this that [] = []"
  by (simp add: replace_all.simps)

lemma replace_all_skip:
  "this \<noteq> [] \<Longrightarrow> k \<le> length s \<Longrightarrow> \<forall>j<k. take (length this) (drop j s) \<noteq> this \<Longrightarrow>
    replace_all this that s = take k s @ replace_all this that (drop k s)"
proof (induction k arbitrary: s)
  case (Suc k)
  then obtain x r where s: "s = x # r" by (cases s) auto
  have "take (length this) (drop j r) \<noteq> this" if "j < k" for j
    using Suc.prems(3)[rule_format, of "Suc j"] that s by simp
  then have "replace_all this that r = take k r @ replace_all this that (drop k r)"
    using Suc.IH [of r] Suc.prems(1,2) s by simp
  moreover have "take (length this) s \<noteq> this" using Suc.prems(3)[rule_format, of 0] by simp
  ultimately show ?case using Suc.prems(1) s by (simp add: replace_all.simps [of this that "x # r"])
qed simp

lemma replace_all_found:
  assumes "this \<noteq> []" and "str_find s this 0 = Some k"
  shows "replace_all this that s = take k s @ that @ replace_all this that (drop (k + length this) s)"
proof -
  note k = str_find_Some [OF assms(2)]
  then have at_k: "take (length this) (drop k s) = this" "drop k s \<noteq> []"
    using assms(1) by (metis append_eq_conv_conj length_append length_take min.absorb2 add_leD1, auto)
  have "replace_all this that s = take k s @ replace_all this that (drop k s)"
    using k assms(1) by (intro replace_all_skip) auto
  also have "replace_all this that (drop k s) = that @ replace_all this that (drop (k + length this) s)"
    using at_k assms(1) by (simp add: replace_all.simps [of this that "drop k s"] add.commute)
  finally show ?thesis .
qed

lemma replace_all_none:
  assumes "this \<noteq> []" and "str_find s this 0 = None"
  shows "replace_all this that s = s"
proof -
  have "take (length this) (drop j s) \<noteq> this" if "j < length s" for j
  proof (cases "j + length this \<le> length s")
    case True
    with assms(2) show ?thesis by (simp add: str_find_None)
  next
    case False
    then have "length (take (length this) (drop j s)) \<noteq> length this" using that assms(1) by auto
    then show ?thesis by metis
  qed
  then show ?thesis using replace_all_skip [OF assms(1), of "length s" s that] by simp
qed

lemma str_find_append:
  "str_find (l @ r) t (length l) = map_option (\<lambda>k. length l + k) (str_find r t 0)"
proof -
  have "[length l..<Suc (length (l @ r)) - length t] = map (\<lambda>k. length l + k) [0..<Suc (length r) - length t]"
    by (rule nth_equalityI) auto
  then show ?thesis
    by (simp add: str_find_def find_map o_def del: upt_Suc)
qed

lemma replace_loop_correct:
  assumes "this \<noteq> []"
  shows "replace_loop this that (l @ this @ r) (length l) = Some (l @ that @ replace_all this that r)"
proof (induction "length r" arbitrary: l r rule: less_induct)
  case less
  let ?s = "l @ that @ r"
  have cut: "take (length l) (l @ this @ r) @ that @ drop (length l + length this) (l @ this @ r) = ?s"
    by simp
  show ?case
  proof (cases "r = []")
    case True
    then show ?thesis by (subst replace_loop.simps) simp
  next
    case False
    have found: "str_find ?s this (length l + length that) =
        map_option (\<lambda>k. length l + length that + k) (str_find r this 0)"
      using str_find_append [of "l @ that" r this] by simp
    show ?thesis
    proof (cases "str_find r this 0")
      case None
      with found False assms replace_all_none [OF assms None] show ?thesis
        by (subst replace_loop.simps) (simp add: cut Let_def)
    next
      case (Some k)
      note k = str_find_Some [OF Some]
      let ?l = "l @ that @ take k r" and ?r = "drop (k + length this) r"
      have "?s = ?l @ this @ ?r" using k by (metis append.assoc)
      moreover have "length ?r < length r" using False assms by (simp add: less_diff_conv)
      moreover have "length ?l = length l + length that + k" using k by simp
      ultimately have "replace_loop this that ?s (length l + length that + k) =
          Some (?l @ that @ replace_all this that ?r)"
        using less [of ?r ?l] by (simp add: add.assoc)
      with found Some False replace_all_found [OF assms Some] show ?thesis
        by (subst replace_loop.simps) (simp add: cut Let_def)
    qed
  qed
qed

text \<open>
  \<open>replaceInPlace\<close> returns for every non-empty text to be replaced: it says whether the
  text occurs, and has then replaced each occurrence, from the left, without looking at the
  replacements again, also when they contain the text.
\<close>

theorem replaceInPlace_is_replace_all:
  assumes "this \<noteq> []"
  shows "replaceInPlace s this that = Some (contains s this, replace_all this that s)"
proof (cases "str_find s this 0")
  case None
  then show ?thesis using replace_all_none [OF assms None] by (simp add: replaceInPlace_def contains_def)
next
  case (Some k)
  note k = str_find_Some [OF Some]
  have "replace_loop this that s k = Some (take k s @ that @ replace_all this that (drop (k + length this) s))"
    using replace_loop_correct [OF assms, of that "take k s" "drop (k + length this) s"] k
    by (simp add: min_def split: if_splits)
  with Some show ?thesis
    using replace_all_found [OF assms Some] by (simp add: replaceInPlace_def contains_def)
qed

theorem replaceInPlace_is_replace_all_witness:
  "replaceInPlace ''a|b|'' ''|'' ''||'' = Some (True, ''a||b||'')"
  using replaceInPlace_is_replace_all [of "''|''" "''a|b|''" "''||''"]
  by (simp add: replace_all.simps contains_def str_find_def std_substr_def upt_rec)

end
