(* ===== verification/Catch_Text_Flow.thy ===== *)
theory Catch_Text_Flow
  imports Catch_Strings
begin

text \<open>
  \<open>clara_textflow.hpp\<close>: text broken into the lines of a column, and columns side by side. An
  iterator is its position in the text with the length of the current line.
\<close>

section \<open>Characters\<close>

definition isWhitespace :: "char \<Rightarrow> bool" where
  "isWhitespace ch \<longleftrightarrow> ch \<in> set [CHR '' '', CHR 0x09, CHR 0x0A, CHR 0x0D]"

definition isBreakableBefore :: "char \<Rightarrow> bool" where
  "isBreakableBefore ch \<longleftrightarrow> ch \<in> set ''[({<|''"

definition isBreakableAfter :: "char \<Rightarrow> bool" where
  "isBreakableAfter ch \<longleftrightarrow> ch \<in> set (''])}>.,:;*+-=&/'' @ [CHR 0x5C])"

text \<open>\<open>operator[]\<close> of a string, which gives the null character at its end.\<close>

definition char_at :: "string \<Rightarrow> nat \<Rightarrow> char" where
  "char_at s i = (if i < length s then s ! i else CHR 0x00)"

section \<open>Column\<close>

text \<open>\<open>None\<close> for the initial indent is \<open>std::string::npos\<close>.\<close>

record Column =
  m_strings :: "string list"
  m_width :: nat
  m_indentation :: nat
  m_initialIndent :: "nat option"

definition CONSOLE_WIDTH :: nat where
  "CONSOLE_WIDTH = 80"

definition Column_new :: "string \<Rightarrow> Column" where
  "Column_new text = \<lparr>m_strings = [text], m_width = CONSOLE_WIDTH - 1, m_indentation = 0, m_initialIndent = None\<rparr>"

record column_iterator =
  it_stringIndex :: nat
  it_pos :: nat
  it_len :: nat
  it_end :: nat
  it_suffix :: bool

definition current_line :: "Column \<Rightarrow> column_iterator \<Rightarrow> string" where
  "current_line col it = m_strings col ! it_stringIndex it"

definition isBoundary :: "string \<Rightarrow> nat \<Rightarrow> bool" where
  "isBoundary line at \<longleftrightarrow> at = length line \<or>
     isWhitespace (char_at line at) \<and> \<not> isWhitespace (char_at line (at - 1)) \<or>
     isBreakableBefore (char_at line at) \<or> isBreakableAfter (char_at line (at - 1))"

definition it_indent :: "Column \<Rightarrow> column_iterator \<Rightarrow> nat" where
  "it_indent col it =
     (let initial = (if it_pos it = 0 \<and> it_stringIndex it = 0 then m_initialIndent col else None) in
      case initial of None \<Rightarrow> m_indentation col | Some i \<Rightarrow> i)"

text \<open>The two loops that shorten a line.\<close>

fun to_boundary :: "string \<Rightarrow> nat \<Rightarrow> nat \<Rightarrow> nat" where
  "to_boundary line pos 0 = 0"
| "to_boundary line pos (Suc n) = (if \<not> isBoundary line (pos + Suc n) then to_boundary line pos n else Suc n)"

fun drop_spaces :: "string \<Rightarrow> nat \<Rightarrow> nat \<Rightarrow> nat" where
  "drop_spaces line pos 0 = 0"
| "drop_spaces line pos (Suc n) = (if isWhitespace (char_at line (pos + n)) then drop_spaces line pos n else Suc n)"

definition newline :: char where "newline = CHR 0x0A"

text \<open>Where the line that starts at \<open>pos\<close> ends; a line end at \<open>pos\<close> itself does not count.\<close>

definition line_end :: "string \<Rightarrow> nat \<Rightarrow> nat" where
  "line_end line pos =
     (let e = (if char_at line pos = newline then pos + 1 else pos) in
      e + length (takeWhile (\<lambda>ch. ch \<noteq> newline) (drop e line)))"

definition calcLength :: "Column \<Rightarrow> column_iterator \<Rightarrow> column_iterator" where
  "calcLength col it0 =
     (let it = it0\<lparr>it_suffix := False\<rparr>; line = current_line col it; pos = it_pos it;
          width = m_width col - it_indent col it;
          end' = line_end line pos in
      if end' < pos + width then it\<lparr>it_end := end', it_len := end' - pos\<rparr>
      else
        let len = drop_spaces line pos (to_boundary line pos width) in
        if len > 0 then it\<lparr>it_end := end', it_len := len\<rparr>
        else it\<lparr>it_end := end', it_suffix := True, it_len := width - 1\<rparr>)"

text \<open>The constructor of the iterator, \<open>begin()\<close>, with its assertions.\<close>

definition Column_begin :: "Column \<Rightarrow> catch_error + column_iterator" where
  "Column_begin col =
     (if m_width col > m_indentation col \<and>
         (case m_initialIndent col of None \<Rightarrow> True | Some i \<Rightarrow> m_width col > i) \<and> m_strings col \<noteq> []
      then
        let it = calcLength col \<lparr>it_stringIndex = 0, it_pos = 0, it_len = 0, it_end = 0, it_suffix = False\<rparr> in
        Inr (if it_len it = 0 then it\<lparr>it_stringIndex := it_stringIndex it + 1\<rparr> else it)
      else Inl Assert_Failed)"

text \<open>\<open>operator==\<close> with \<open>end()\<close>.\<close>

definition at_end :: "Column \<Rightarrow> column_iterator \<Rightarrow> bool" where
  "at_end col it \<longleftrightarrow> it_pos it = 0 \<and> it_stringIndex it = length (m_strings col)"

definition addIndentAndSuffix :: "nat \<Rightarrow> bool \<Rightarrow> string \<Rightarrow> string" where
  "addIndentAndSuffix ind suffix plain = replicate ind CHR '' '' @ (if suffix then plain @ ''-'' else plain)"

definition plain_text :: "Column \<Rightarrow> column_iterator \<Rightarrow> string" where
  "plain_text col it = take (it_len it) (drop (it_pos it) (current_line col it))"

definition column_deref :: "Column \<Rightarrow> column_iterator \<Rightarrow> string" where
  "column_deref col it = addIndentAndSuffix (it_indent col it) (it_suffix it) (plain_text col it)"

text \<open>One line end, or all white space, is skipped between two lines.\<close>

definition skip_space :: "string \<Rightarrow> nat \<Rightarrow> nat" where
  "skip_space line p =
     (if p < length line \<and> line ! p = newline then p + 1
      else p + length (takeWhile isWhitespace (drop p line)))"

definition column_next :: "Column \<Rightarrow> column_iterator \<Rightarrow> column_iterator" where
  "column_next col it =
     (let line = current_line col it; p' = skip_space line (it_pos it + it_len it);
          it1 = (if p' = length line then it\<lparr>it_pos := 0, it_stringIndex := it_stringIndex it + 1\<rparr>
                 else it\<lparr>it_pos := p'\<rparr>) in
      if it_stringIndex it1 < length (m_strings col) then calcLength col it1 else it1)"

text \<open>All lines from an iterator on; iterating may not end.\<close>

partial_function (option) column_lines :: "Column \<Rightarrow> column_iterator \<Rightarrow> string list option" where
  "column_lines col it =
     (if at_end col it then Some []
      else Option.bind (column_lines col (column_next col it)) (\<lambda>ls. Some (column_deref col it # ls)))"

definition Column_lines :: "Column \<Rightarrow> (catch_error + string list) option" where
  "Column_lines col =
     (case Column_begin col of Inl e \<Rightarrow> Some (Inl e) | Inr it \<Rightarrow> map_option Inr (column_lines col it))"

text \<open>\<open>operator<<\<close>: the lines, with line ends between them.\<close>

fun join_lines :: "string list \<Rightarrow> string" where
  "join_lines [] = ''''"
| "join_lines [l] = l"
| "join_lines (l # ls) = l @ [newline] @ join_lines ls"

definition Column_toString :: "Column \<Rightarrow> (catch_error + string) option" where
  "Column_toString col = map_option (map_sum id join_lines) (Column_lines col)"

section \<open>Columns\<close>

definition Spacer :: "nat \<Rightarrow> Column" where
  "Spacer spaceWidth = (Column_new '''')\<lparr>m_width := spaceWidth\<rparr>"

type_synonym Columns = "Column list"

fun Columns_begin :: "Columns \<Rightarrow> catch_error + column_iterator list" where
  "Columns_begin [] = Inr []"
| "Columns_begin (col # cols) =
     (case Column_begin col of Inl e \<Rightarrow> Inl e
      | Inr it \<Rightarrow> (case Columns_begin cols of Inl e \<Rightarrow> Inl e | Inr its \<Rightarrow> Inr (it # its)))"

definition row_step :: "Column \<times> column_iterator \<Rightarrow> string \<times> string \<Rightarrow> string \<times> string" where
  "row_step = (\<lambda>(col, it) (row, padding).
     let width = m_width col in
     if \<not> at_end col it
     then let cell = column_deref col it in
       (row @ padding @ cell, if length cell < width then replicate (width - length cell) CHR '' '' else '''')
     else (row, padding @ replicate width CHR '' ''))"

definition columns_deref :: "Columns \<Rightarrow> column_iterator list \<Rightarrow> string" where
  "columns_deref cols its = fst (fold row_step (zip cols its) ('''', ''''))"

definition columns_next :: "Columns \<Rightarrow> column_iterator list \<Rightarrow> column_iterator list" where
  "columns_next cols its = map2 (\<lambda>col it. if \<not> at_end col it then column_next col it else it) cols its"

definition columns_at_end :: "Columns \<Rightarrow> column_iterator list \<Rightarrow> bool" where
  "columns_at_end cols its \<longleftrightarrow> list_all2 at_end cols its"

partial_function (option) columns_rows :: "Columns \<Rightarrow> column_iterator list \<Rightarrow> string list option" where
  "columns_rows cols its =
     (if columns_at_end cols its then Some []
      else Option.bind (columns_rows cols (columns_next cols its)) (\<lambda>ls. Some (columns_deref cols its # ls)))"

definition Columns_toString :: "Columns \<Rightarrow> (catch_error + string) option" where
  "Columns_toString cols =
     (case Columns_begin cols of Inl e \<Rightarrow> Some (Inl e)
      | Inr its \<Rightarrow> map_option (Inr \<circ> join_lines) (columns_rows cols its))"

end
