(* ===== verification/Catch_Clara.thy ===== *)
theory Catch_Clara
  imports Catch_Text_Flow
begin

text \<open>
  \<open>clara.hpp\<close>: the parser of the command line. What an option is bound to is a function on the
  configuration, of an arbitrary type; the shared references of the code are the state it threads
  through.
\<close>

section \<open>Tokens\<close>

datatype TokenType = Option_Token | Argument_Token

record Token =
  tok_type :: TokenType
  token :: string

definition isOptPrefix :: "char \<Rightarrow> bool" where
  "isOptPrefix ch \<longleftrightarrow> ch = CHR ''-''"

text \<open>
  \<open>arguments\<close> are the arguments from \<open>it\<close> on; the buffer holds the tokens of the first of them
  that have not been used.
\<close>

record TokenStream =
  arguments :: "string list"
  m_tokenBuffer :: "Token list"

definition option_token :: "string \<Rightarrow> Token" where
  "option_token s = \<lparr>tok_type = Option_Token, token = s\<rparr>"

definition argument_token :: "string \<Rightarrow> Token" where
  "argument_token s = \<lparr>tok_type = Argument_Token, token = s\<rparr>"

definition find_first_of :: "string \<Rightarrow> string \<Rightarrow> nat option" where
  "find_first_of s chars = find (\<lambda>i. s ! i \<in> set chars) [0..<length s]"

definition tokens_of :: "string \<Rightarrow> Token list" where
  "tokens_of arg =
     (if isOptPrefix (char_at arg 0)
      then (case find_first_of arg '' :='' of
          Some delimiterPos \<Rightarrow> [option_token (take delimiterPos arg), argument_token (drop (delimiterPos + 1) arg)]
        | None \<Rightarrow>
            if char_at arg 1 \<noteq> CHR ''-'' \<and> length arg > 2
            then map (\<lambda>ch. option_token [CHR ''-'', ch]) (tl arg)
            else [option_token arg])
      else [argument_token arg])"

definition loadBuffer :: "TokenStream \<Rightarrow> TokenStream" where
  "loadBuffer ts =
     (let args = dropWhile (\<lambda>arg. arg = '''') (arguments ts) in
      \<lparr>arguments = args, m_tokenBuffer = (case args of [] \<Rightarrow> [] | arg # _ \<Rightarrow> tokens_of arg)\<rparr>)"

definition TokenStream_new :: "string list \<Rightarrow> TokenStream" where
  "TokenStream_new args = loadBuffer \<lparr>arguments = args, m_tokenBuffer = []\<rparr>"

definition has_tokens :: "TokenStream \<Rightarrow> bool" where
  "has_tokens ts \<longleftrightarrow> m_tokenBuffer ts \<noteq> [] \<or> arguments ts \<noteq> []"

definition front :: "TokenStream \<Rightarrow> Token" where
  "front ts = hd (m_tokenBuffer ts)"

definition next_token :: "TokenStream \<Rightarrow> TokenStream" where
  "next_token ts =
     (if length (m_tokenBuffer ts) \<ge> 2 then ts\<lparr>m_tokenBuffer := tl (m_tokenBuffer ts)\<rparr>
      else loadBuffer (ts\<lparr>arguments := tl (arguments ts)\<rparr>))"

section \<open>Results\<close>

text \<open>\<open>Assert_Abort\<close> is an \<open>assert\<close> that fails: the program stops.\<close>

datatype result_error = LogicError string | RuntimeError string | Assert_Abort

datatype ParseResultType = Matched | NoMatch | ShortCircuitAll | ShortCircuitSame

text \<open>A \<open>ParserResult\<close> with the configuration it leaves; after an error that is not used.\<close>

type_synonym 'c ParserResult = "result_error + (ParseResultType \<times> 'c)"
type_synonym 'c InternalParseResult = "result_error + (ParseResultType \<times> TokenStream \<times> 'c)"

definition errorMessage :: "result_error \<Rightarrow> string" where
  "errorMessage e = (case e of LogicError m \<Rightarrow> m | RuntimeError m \<Rightarrow> m | Assert_Abort \<Rightarrow> [])"

section \<open>Conversions\<close>

definition quoted :: "string \<Rightarrow> string" where
  "quoted s = [CHR 0x27] @ s @ [CHR 0x27]"

text \<open>
  \<open>ss >> target\<close> for an integer: white space and a sign, then as many digits as there are (the
  rest of the text is ignored).
\<close>

definition is_digit :: "char \<Rightarrow> bool" where
  "is_digit ch \<longleftrightarrow> ch \<in> set ''0123456789''"

definition digits_value :: "string \<Rightarrow> nat" where
  "digits_value ds = foldl (\<lambda>n ch. 10 * n + (of_char ch - 48)) 0 ds"

definition read_integer :: "string \<Rightarrow> (bool \<times> nat) option" where
  "read_integer s =
     (let t = dropWhile is_ws s;
          neg = (t \<noteq> [] \<and> hd t = CHR ''-'');
          u = (if t \<noteq> [] \<and> (hd t = CHR ''-'' \<or> hd t = CHR ''+'') then tl t else t);
          ds = takeWhile is_digit u in
      if ds = [] then None else Some (neg, digits_value ds))"

definition conversion_error :: "string \<Rightarrow> result_error" where
  "conversion_error source = RuntimeError (''Unable to convert '' @ quoted source @ '' to destination type'')"

definition convertInto_int :: "nat \<Rightarrow> string \<Rightarrow> result_error + int" where
  "convertInto_int w source =
     (case read_integer source of
        None \<Rightarrow> Inl (conversion_error source)
      | Some (neg, n) \<Rightarrow>
          let v = (if neg then - int n else int n) in
          if - (2 ^ (w - 1)) \<le> v \<and> v < 2 ^ (w - 1) then Inr v else Inl (conversion_error source))"

text \<open>A negative number wraps around.\<close>

definition convertInto_unsigned :: "string \<Rightarrow> result_error + u32" where
  "convertInto_unsigned source =
     (case read_integer source of
        None \<Rightarrow> Inl (conversion_error source)
      | Some (neg, n) \<Rightarrow>
          if n < 2 ^ 32 then Inr (if neg then - of_nat n else of_nat n) else Inl (conversion_error source))"

definition convertInto_bool :: "string \<Rightarrow> result_error + bool" where
  "convertInto_bool source =
     (let srcLC = map toLowerCh source in
      if srcLC \<in> {''y'', ''1'', ''true'', ''yes'', ''on''} then Inr True
      else if srcLC \<in> {''n'', ''0'', ''false'', ''no'', ''off''} then Inr False
      else Inl (RuntimeError (''Expected a boolean value but did not recognise: '' @ quoted source)))"

section \<open>Bound references\<close>

text \<open>A value, with whether it is a container, or a flag.\<close>

datatype 'c BoundRef =
    BoundValueRef bool "string \<Rightarrow> 'c \<Rightarrow> 'c ParserResult"
  | BoundFlagRef "bool \<Rightarrow> 'c \<Rightarrow> 'c ParserResult"

fun isContainer :: "'c BoundRef \<Rightarrow> bool" where
  "isContainer (BoundValueRef b f) = b"
| "isContainer (BoundFlagRef f) = False"

text \<open>\<open>invokeLambda\<close>: the argument is converted, the lambda returns nothing or a result.\<close>

definition invokeLambda ::
  "(string \<Rightarrow> result_error + 'a) \<Rightarrow> ('a \<Rightarrow> 'c \<Rightarrow> 'c ParserResult) \<Rightarrow> string \<Rightarrow> 'c \<Rightarrow> 'c ParserResult" where
  "invokeLambda convert lam arg c = (case convert arg of Inl e \<Rightarrow> Inl e | Inr v \<Rightarrow> lam v c)"

text \<open>A lambda that returns nothing, and a reference to a variable, give \<open>Matched\<close>.\<close>

definition assigns :: "('a \<Rightarrow> 'c \<Rightarrow> 'c) \<Rightarrow> 'a \<Rightarrow> 'c \<Rightarrow> 'c ParserResult" where
  "assigns f v c = Inr (Matched, f v c)"

section \<open>Opt and Arg\<close>

record 'c ParserRef =
  m_optional :: bool
  m_ref :: "'c BoundRef"
  m_hint :: string
  m_description :: string

record 'c Opt = "'c ParserRef" +
  m_optNames :: "string list"

definition cardinality :: "('c, 'm) ParserRef_scheme \<Rightarrow> nat" where
  "cardinality p = (if isContainer (m_ref p) then 0 else 1)"

definition Arg_parse :: "'c ParserRef \<Rightarrow> TokenStream \<Rightarrow> 'c \<Rightarrow> 'c InternalParseResult" where
  "Arg_parse p tokens c =
     (if tok_type (front tokens) \<noteq> Argument_Token then Inr (NoMatch, tokens, c)
      else case m_ref p of
          BoundValueRef container setValue \<Rightarrow>
            (case setValue (token (front tokens)) c of
               Inl e \<Rightarrow> Inl e
             | Inr (ty, c') \<Rightarrow> Inr (Matched, next_token tokens, c'))
        | BoundFlagRef setFlag \<Rightarrow> Inl Assert_Abort)"

definition isMatch :: "string \<Rightarrow> 'c Opt \<Rightarrow> bool" where
  "isMatch optToken p \<longleftrightarrow> optToken \<in> set (m_optNames p)"

definition Opt_validate :: "'c Opt \<Rightarrow> result_error option" where
  "Opt_validate p =
     (if m_optNames p = [] then Some (LogicError ''No options supplied to Opt'')
      else case find (\<lambda>nm. nm = '''' \<or> hd nm \<noteq> CHR ''-'') (m_optNames p) of
          None \<Rightarrow> None
        | Some nm \<Rightarrow> Some (LogicError (if nm = '''' then ''Option name cannot be empty''
            else ''Option name must begin with '' @ quoted ''-'')))"

definition Opt_parse :: "'c Opt \<Rightarrow> TokenStream \<Rightarrow> 'c \<Rightarrow> 'c InternalParseResult" where
  "Opt_parse p tokens c =
     (case Opt_validate p of
        Some e \<Rightarrow> Inl e
      | None \<Rightarrow>
          let tok = front tokens in
          if has_tokens tokens \<and> tok_type tok = Option_Token \<and> isMatch (token tok) p
          then (case m_ref p of
              BoundFlagRef setFlag \<Rightarrow>
                (case setFlag True c of
                   Inl e \<Rightarrow> Inl e
                 | Inr (ty, c') \<Rightarrow>
                     if ty = ShortCircuitAll then Inr (ty, tokens, c') else Inr (Matched, next_token tokens, c'))
            | BoundValueRef container setValue \<Rightarrow>
                let rest = next_token tokens in
                if \<not> has_tokens rest \<or> tok_type (front rest) \<noteq> Argument_Token
                then Inl (RuntimeError (''Expected argument following '' @ token tok))
                else (case setValue (token (front rest)) c of
                    Inl e \<Rightarrow> Inl e
                  | Inr (ty, c') \<Rightarrow>
                      if ty = ShortCircuitAll then Inr (ty, rest, c') else Inr (Matched, next_token rest, c')))
          else Inr (NoMatch, tokens, c))"

section \<open>Parser\<close>

record 'c Parser =
  m_exeName :: "string \<Rightarrow> 'c \<Rightarrow> 'c"
  m_options :: "'c Opt list"
  m_args :: "'c ParserRef list"

text \<open>\<open>ExeName::set\<close>: the name without the directories goes to what it is bound to.\<close>

definition executable_name :: "string \<Rightarrow> string" where
  "executable_name newName =
     (case find (\<lambda>i. newName ! i \<in> set [CHR 0x5C, CHR ''/'']) (rev [0..<length newName]) of
        None \<Rightarrow> newName
      | Some lastSlash \<Rightarrow> drop (lastSlash + 1) newName)"

text \<open>\<open>parseInfos\<close>: the options, then the arguments, each with how often it has matched.\<close>

datatype 'c ParserInfo = Info_Opt "'c Opt" nat | Info_Arg "'c ParserRef" nat

fun may_match :: "'c ParserInfo \<Rightarrow> bool" where
  "may_match (Info_Opt p n) \<longleftrightarrow> cardinality p = 0 \<or> n < cardinality p"
| "may_match (Info_Arg p n) \<longleftrightarrow> cardinality p = 0 \<or> n < cardinality p"

fun info_parse :: "'c ParserInfo \<Rightarrow> TokenStream \<Rightarrow> 'c \<Rightarrow> 'c InternalParseResult" where
  "info_parse (Info_Opt p n) = Opt_parse p"
| "info_parse (Info_Arg p n) = Arg_parse p"

fun count_match :: "'c ParserInfo \<Rightarrow> 'c ParserInfo" where
  "count_match (Info_Opt p n) = Info_Opt p (n + 1)"
| "count_match (Info_Arg p n) = Info_Arg p (n + 1)"

text \<open>The first parser that takes the token; \<open>NoMatch\<close> when there is none.\<close>

fun parse_token ::
  "'c ParserInfo list \<Rightarrow> TokenStream \<Rightarrow> 'c \<Rightarrow>
   result_error + (ParseResultType \<times> TokenStream \<times> 'c \<times> 'c ParserInfo list)" where
  "parse_token [] tokens c = Inr (NoMatch, tokens, c, [])"
| "parse_token (i # is) tokens c =
     (let skip = (\<lambda>tokens c. map_sum id (\<lambda>(ty, ts, c', js). (ty, ts, c', i # js)) (parse_token is tokens c)) in
      if may_match i
      then (case info_parse i tokens c of
          Inl e \<Rightarrow> Inl e
        | Inr (ty, ts, c') \<Rightarrow> if ty \<noteq> NoMatch then Inr (ty, ts, c', count_match i # is) else skip ts c')
      else skip tokens c)"

partial_function (option) parse_tokens ::
  "'c ParserInfo list \<Rightarrow> TokenStream \<Rightarrow> 'c \<Rightarrow> (result_error + 'c) option" where
  "parse_tokens is tokens c =
     (if \<not> has_tokens tokens then Some (Inr c)
      else case parse_token is tokens c of
          Inl e \<Rightarrow> Some (Inl e)
        | Inr (ty, ts, c', js) \<Rightarrow>
            if ty = ShortCircuitAll then Some (Inr c')
            else if ty = NoMatch then Some (Inl (RuntimeError (''Unrecognised token: '' @ token (front ts))))
            else parse_tokens js ts c')"

definition Parser_parse :: "'c Parser \<Rightarrow> string \<Rightarrow> string list \<Rightarrow> 'c \<Rightarrow> (result_error + 'c) option" where
  "Parser_parse parser exeName args c =
     (if length (m_options parser) + length (m_args parser) \<ge> 512 then Some (Inl Assert_Abort)
      else parse_tokens (map (\<lambda>p. Info_Opt p 0) (m_options parser) @ map (\<lambda>p. Info_Arg p 0) (m_args parser))
       (TokenStream_new args) (m_exeName parser (executable_name exeName) c))"

section \<open>Help\<close>

definition option_column :: "'c Opt \<Rightarrow> string" where
  "option_column p =
     snd (fold (\<lambda>opt (first, oss). (False, (if first then oss else oss @ '', '') @ opt)) (m_optNames p) (True, '''')) @
     (if m_hint p \<noteq> '''' then '' <'' @ m_hint p @ ''>'' else '''')"

definition getHelpColumns :: "'c Parser \<Rightarrow> (string \<times> string) list" where
  "getHelpColumns parser = map (\<lambda>p. (option_column p, m_description p)) (m_options parser)"

definition usage_args :: "'c ParserRef list \<Rightarrow> string" where
  "usage_args args =
     (let (first, required, oss) = fold (\<lambda>arg (first, required, oss).
            (False, required \<and> \<not> m_optional arg,
             oss @ (if first then '''' else '' '') @ (if m_optional arg \<and> required then ''['' else '''') @
               ''<'' @ m_hint arg @ ''>'' @ (if cardinality arg = 0 then '' ... '' else '''')))
          args (True, True, '''') in
      oss @ (if \<not> required then '']'' else ''''))"

definition usage :: "string \<Rightarrow> 'c Parser \<Rightarrow> string" where
  "usage nm parser =
     (if nm \<noteq> ''''
      then ''usage:'' @ [newline] @ ''  '' @ nm @ '' '' @ usage_args (m_args parser) @
        (if m_options parser \<noteq> [] then '' options'' else '''') @ [newline, newline] @ ''where options are:'' @ [newline]
      else '''')"

definition clara_console_width :: nat where
  "clara_console_width = 80"

definition help_width :: "(string \<times> string) list \<Rightarrow> nat" where
  "help_width rows = min (fold (\<lambda>cols w. max w (length (fst cols) + 2)) rows 0) (clara_console_width div 2)"

definition help_row :: "nat \<Rightarrow> string \<times> string \<Rightarrow> Columns" where
  "help_row optWidth cols =
     [(Column_new (fst cols))\<lparr>m_width := optWidth, m_indentation := 2\<rparr>, Spacer 4,
      (Column_new (snd cols))\<lparr>m_width := clara_console_width - 7 - optWidth\<rparr>]"

fun help_rows :: "nat \<Rightarrow> (string \<times> string) list \<Rightarrow> (catch_error + string) option" where
  "help_rows optWidth [] = Some (Inr '''')"
| "help_rows optWidth (cols # rows) =
     (case Columns_toString (help_row optWidth cols) of
        None \<Rightarrow> None
      | Some (Inl e) \<Rightarrow> Some (Inl e)
      | Some (Inr t) \<Rightarrow> map_option (map_sum id (\<lambda>rest. t @ [newline] @ rest)) (help_rows optWidth rows))"

definition writeToStream :: "string \<Rightarrow> 'c Parser \<Rightarrow> (catch_error + string) option" where
  "writeToStream nm parser =
     (let rows = getHelpColumns parser in
      map_option (map_sum id (\<lambda>t. usage nm parser @ t)) (help_rows (help_width rows) rows))"

end
