(* ===== verification/Catch_Tracking.thy ===== *)
theory Catch_Tracking
  imports Catch_Strings
begin

text \<open>
  \<open>catch_test_case_tracker.cpp\<close> and the \<open>GeneratorTracker\<close> of \<open>catch_run_context.cpp\<close>: the tree
  that remembers which sections of a test case have run. Trackers refer to their parents and
  children, so they live in a store: a tracker is its index in the list of all trackers that
  were allocated. A tracker is allocated after its parent, so the way up leads to smaller
  indices; the functions that climb test this, and end there otherwise.
\<close>

section \<open>State\<close>

datatype CycleState = NotStarted | Executing | ExecutingChildren | NeedsAnotherRun
  | CompletedSuccessfully | Failed

datatype RunState = Run_NotStarted | Run_Executing | CompletedCycle

record NameAndLocation =
  nl_name :: string
  nl_location :: SourceLineInfo

text \<open>
  The two classes: a \<open>SectionTracker\<close> with its filters and trimmed name, a
  \<open>GeneratorTracker\<close> with its generator.
\<close>

datatype 'g tracker_class =
    Section_Tracker "string list" string
  | Generator_Tracker "'g option"

record 'g tracker =
  nameAndLocation :: NameAndLocation
  parent :: "nat option"
  children :: "nat list"
  runState :: CycleState
  tracker_class :: "'g tracker_class"

record 'g TrackerContext =
  trackers :: "'g tracker list"
  rootTracker :: "nat option"
  currentTracker :: "nat option"
  contextState :: RunState

abbreviation tracker_at :: "'g TrackerContext \<Rightarrow> nat \<Rightarrow> 'g tracker" where
  "tracker_at c t \<equiv> trackers c ! t"

definition update_tracker :: "nat \<Rightarrow> ('g tracker \<Rightarrow> 'g tracker) \<Rightarrow> 'g TrackerContext \<Rightarrow> 'g TrackerContext" where
  "update_tracker t f c = c\<lparr>trackers := (trackers c)[t := f (tracker_at c t)]\<rparr>"

definition set_state :: "nat \<Rightarrow> CycleState \<Rightarrow> 'g TrackerContext \<Rightarrow> 'g TrackerContext" where
  "set_state t st = update_tracker t (\<lambda>x. x\<lparr>runState := st\<rparr>)"

section \<open>TrackerContext\<close>

definition TrackerContext_new :: "'g TrackerContext" where
  "TrackerContext_new = \<lparr>trackers = [], rootTracker = None, currentTracker = None,
     contextState = Run_NotStarted\<rparr>"

definition new_tracker :: "'g tracker \<Rightarrow> 'g TrackerContext \<Rightarrow> nat \<times> 'g TrackerContext" where
  "new_tracker x c = (length (trackers c), c\<lparr>trackers := trackers c @ [x]\<rparr>)"

definition startRun :: "SourceLineInfo \<Rightarrow> 'g TrackerContext \<Rightarrow> nat \<times> 'g TrackerContext" where
  "startRun here c =
     (let (t, c') = new_tracker \<lparr>nameAndLocation = \<lparr>nl_name = ''{root}'', nl_location = here\<rparr>,
            parent = None, children = [], runState = NotStarted,
            tracker_class = Section_Tracker [] ''{root}''\<rparr> c in
      (t, c'\<lparr>rootTracker := Some t, currentTracker := None, contextState := Run_Executing\<rparr>))"

definition endRun :: "'g TrackerContext \<Rightarrow> 'g TrackerContext" where
  "endRun c = c\<lparr>rootTracker := None, currentTracker := None, contextState := Run_NotStarted\<rparr>"

definition startCycle :: "'g TrackerContext \<Rightarrow> 'g TrackerContext" where
  "startCycle c = c\<lparr>currentTracker := rootTracker c, contextState := Run_Executing\<rparr>"

definition completeCycle :: "'g TrackerContext \<Rightarrow> 'g TrackerContext" where
  "completeCycle c = c\<lparr>contextState := CompletedCycle\<rparr>"

definition completedCycle :: "'g TrackerContext \<Rightarrow> bool" where
  "completedCycle c \<longleftrightarrow> contextState c = CompletedCycle"

definition setCurrentTracker :: "nat option \<Rightarrow> 'g TrackerContext \<Rightarrow> 'g TrackerContext" where
  "setCurrentTracker t c = c\<lparr>currentTracker := t\<rparr>"

section \<open>TrackerBase\<close>

definition base_isComplete :: "'g tracker \<Rightarrow> bool" where
  "base_isComplete x \<longleftrightarrow> runState x = CompletedSuccessfully \<or> runState x = Failed"

definition isSuccessfullyCompleted :: "'g tracker \<Rightarrow> bool" where
  "isSuccessfullyCompleted x \<longleftrightarrow> runState x = CompletedSuccessfully"

fun isSectionTracker :: "'g tracker_class \<Rightarrow> bool" where
  "isSectionTracker (Section_Tracker fs nm) = True"
| "isSectionTracker (Generator_Tracker g) = False"

text \<open>The virtual \<open>isComplete\<close>, with the override of \<open>SectionTracker\<close>.\<close>

definition isComplete :: "'g tracker \<Rightarrow> bool" where
  "isComplete x =
     (case tracker_class x of
        Section_Tracker fs trimmed \<Rightarrow>
          (if fs = [] \<or> fs ! 0 = '''' \<or> trimmed \<in> set fs then base_isComplete x else True)
      | Generator_Tracker g \<Rightarrow> base_isComplete x)"

definition isOpen :: "'g tracker \<Rightarrow> bool" where
  "isOpen x \<longleftrightarrow> runState x \<noteq> NotStarted \<and> \<not> isComplete x"

definition hasChildren :: "'g tracker \<Rightarrow> bool" where
  "hasChildren x \<longleftrightarrow> children x \<noteq> []"

definition hasStarted :: "'g tracker \<Rightarrow> bool" where
  "hasStarted x \<longleftrightarrow> runState x \<noteq> NotStarted"

definition addChild :: "nat \<Rightarrow> nat \<Rightarrow> 'g TrackerContext \<Rightarrow> 'g TrackerContext" where
  "addChild t child = update_tracker t (\<lambda>x. x\<lparr>children := children x @ [child]\<rparr>)"

definition findChild :: "'g TrackerContext \<Rightarrow> nat \<Rightarrow> NameAndLocation \<Rightarrow> nat option" where
  "findChild c t nl = find (\<lambda>ch. nameAndLocation (tracker_at c ch) = nl) (children (tracker_at c t))"

function openChild :: "nat \<Rightarrow> 'g TrackerContext \<Rightarrow> 'g TrackerContext" where
  "openChild t c =
     (if runState (tracker_at c t) \<noteq> ExecutingChildren
      then let c' = set_state t ExecutingChildren c in
        (case parent (tracker_at c t) of
           Some p \<Rightarrow> if p < t then openChild p c' else c'
         | None \<Rightarrow> c')
      else c)"
  by auto
termination by (relation "measure fst") auto

declare openChild.simps [simp del]

definition open_tracker :: "nat \<Rightarrow> 'g TrackerContext \<Rightarrow> 'g TrackerContext" where
  "open_tracker t c =
     (let c' = setCurrentTracker (Some t) (set_state t Executing c) in
      case parent (tracker_at c t) of Some p \<Rightarrow> openChild p c' | None \<Rightarrow> c')"

definition moveToParent :: "nat \<Rightarrow> 'g TrackerContext \<Rightarrow> catch_error + 'g TrackerContext" where
  "moveToParent t c =
     (case parent (tracker_at c t) of
        None \<Rightarrow> Inl Assert_Failed
      | Some p \<Rightarrow> Inr (setCurrentTracker (Some p) c))"

text \<open>\<open>TrackerBase::close\<close> after its loop, when the tracker is the current one.\<close>

definition closed_state :: "nat \<Rightarrow> 'g TrackerContext \<Rightarrow> catch_error + CycleState" where
  "closed_state t c =
     (case runState (tracker_at c t) of
        NeedsAnotherRun \<Rightarrow> Inr NeedsAnotherRun
      | Executing \<Rightarrow> Inr CompletedSuccessfully
      | ExecutingChildren \<Rightarrow>
          Inr (if list_all (\<lambda>ch. isComplete (tracker_at c ch)) (children (tracker_at c t))
               then CompletedSuccessfully else ExecutingChildren)
      | _ \<Rightarrow> Inl (Internal_Error ''Illogical state''))"

definition base_close :: "nat \<Rightarrow> 'g TrackerContext \<Rightarrow> catch_error + 'g TrackerContext" where
  "base_close t c =
     (case closed_state t c of
        Inl e \<Rightarrow> Inl e
      | Inr st \<Rightarrow>
          (case moveToParent t (set_state t st c) of
             Inl e \<Rightarrow> Inl e
           | Inr c' \<Rightarrow> Inr (completeCycle c')))"

definition markAsNeedingAnotherRun :: "nat \<Rightarrow> 'g TrackerContext \<Rightarrow> 'g TrackerContext" where
  "markAsNeedingAnotherRun t = set_state t NeedsAnotherRun"

definition fail_tracker :: "nat \<Rightarrow> 'g TrackerContext \<Rightarrow> catch_error + 'g TrackerContext" where
  "fail_tracker t c =
     (let c1 = set_state t Failed c;
          c2 = (case parent (tracker_at c t) of Some p \<Rightarrow> markAsNeedingAnotherRun p c1 | None \<Rightarrow> c1) in
      case moveToParent t c2 of Inl e \<Rightarrow> Inl e | Inr c' \<Rightarrow> Inr (completeCycle c'))"

section \<open>SectionTracker\<close>

text \<open>The nearest section tracker, from \<open>t\<close> upwards.\<close>

function section_above :: "nat \<Rightarrow> 'g TrackerContext \<Rightarrow> catch_error + nat" where
  "section_above t c =
     (if isSectionTracker (tracker_class (tracker_at c t)) then Inr t
      else case parent (tracker_at c t) of
        Some p \<Rightarrow> if p < t then section_above p c else Inl Assert_Failed
      | None \<Rightarrow> Inl Assert_Failed)"
  by auto
termination by (relation "measure fst") auto

declare section_above.simps [simp del]

fun getFilters :: "'g tracker_class \<Rightarrow> string list" where
  "getFilters (Section_Tracker fs nm) = fs"
| "getFilters (Generator_Tracker g) = []"

definition addNextFilters :: "string list \<Rightarrow> string list \<Rightarrow> string list" where
  "addNextFilters fs own = (if length fs > 1 then own @ drop 1 fs else own)"

definition addInitialFilters :: "string list \<Rightarrow> string list \<Rightarrow> string list" where
  "addInitialFilters fs own = (if fs \<noteq> [] then own @ ['''', ''''] @ fs else own)"

definition add_root_filters :: "nat \<Rightarrow> string list \<Rightarrow> 'g TrackerContext \<Rightarrow> 'g TrackerContext" where
  "add_root_filters t fs = update_tracker t (\<lambda>x. x\<lparr>tracker_class :=
     (case tracker_class x of
        Section_Tracker own nm \<Rightarrow> Section_Tracker (addInitialFilters fs own) nm
      | k \<Rightarrow> k)\<rparr>)"

definition SectionTracker_new ::
  "NameAndLocation \<Rightarrow> nat \<Rightarrow> 'g TrackerContext \<Rightarrow> catch_error + (nat \<times> 'g TrackerContext)" where
  "SectionTracker_new nl p c =
     (case section_above p c of
        Inl e \<Rightarrow> Inl e
      | Inr ps \<Rightarrow> Inr (new_tracker \<lparr>nameAndLocation = nl, parent = Some p, children = [],
          runState = NotStarted,
          tracker_class = Section_Tracker (addNextFilters (getFilters (tracker_class (tracker_at c ps))) [])
            (trim (nl_name nl))\<rparr> c))"

definition tryOpen :: "nat \<Rightarrow> 'g TrackerContext \<Rightarrow> 'g TrackerContext" where
  "tryOpen t c = (if \<not> isComplete (tracker_at c t) then open_tracker t c else c)"

definition SectionTracker_acquire ::
  "NameAndLocation \<Rightarrow> 'g TrackerContext \<Rightarrow> catch_error + (nat \<times> 'g TrackerContext)" where
  "SectionTracker_acquire nl c =
     (case currentTracker c of
        None \<Rightarrow> Inl Assert_Failed
      | Some cur \<Rightarrow>
          (case (case findChild c cur nl of
                   Some ch \<Rightarrow>
                     if isSectionTracker (tracker_class (tracker_at c ch)) then Inr (ch, c) else Inl Assert_Failed
                 | None \<Rightarrow>
                     (case SectionTracker_new nl cur c of
                        Inl e \<Rightarrow> Inl e
                      | Inr (t, c') \<Rightarrow> Inr (t, addChild cur t c'))) of
             Inl e \<Rightarrow> Inl e
           | Inr (t, c') \<Rightarrow> Inr (t, if \<not> completedCycle c' then tryOpen t c' else c')))"

section \<open>GeneratorTracker\<close>

definition GeneratorTracker_acquire ::
  "NameAndLocation \<Rightarrow> 'g TrackerContext \<Rightarrow> catch_error + (nat \<times> 'g TrackerContext)" where
  "GeneratorTracker_acquire nl c =
     (case currentTracker c of
        None \<Rightarrow> Inl Assert_Failed
      | Some cur \<Rightarrow>
          let known = (if nameAndLocation (tracker_at c cur) = nl
                       then (case parent (tracker_at c cur) of
                               None \<Rightarrow> Inl Assert_Failed
                             | Some p \<Rightarrow> (case findChild c p nl of None \<Rightarrow> Inl Assert_Failed | r \<Rightarrow> Inr r))
                       else Inr (findChild c cur nl)) in
          (case known of
             Inl e \<Rightarrow> Inl e
           | Inr (Some t) \<Rightarrow>
               if isSectionTracker (tracker_class (tracker_at c t)) then Inl Assert_Failed
               else Inr (t, if \<not> isComplete (tracker_at c t) then open_tracker t c else c)
           | Inr None \<Rightarrow>
               let (t, c1) = new_tracker \<lparr>nameAndLocation = nl, parent = Some cur, children = [],
                     runState = NotStarted, tracker_class = Generator_Tracker None\<rparr> c;
                   c2 = addChild cur t c1 in
               Inr (t, if \<not> isComplete (tracker_at c2 t) then open_tracker t c2 else c2)))"

definition setGenerator :: "nat \<Rightarrow> 'g \<Rightarrow> 'g TrackerContext \<Rightarrow> 'g TrackerContext" where
  "setGenerator t g = update_tracker t (\<lambda>x. x\<lparr>tracker_class := Generator_Tracker (Some g)\<rparr>)"

text \<open>The lambda \<open>should_wait_for_child\<close> of \<open>GeneratorTracker::close\<close>.\<close>

definition should_wait_for_child :: "nat \<Rightarrow> 'g TrackerContext \<Rightarrow> catch_error + bool" where
  "should_wait_for_child t c =
     (let chs = children (tracker_at c t) in
      if chs = [] then Inr False
      else if list_ex (\<lambda>ch. hasStarted (tracker_at c ch)) chs then Inr False
      else case parent (tracker_at c t) of
        None \<Rightarrow> Inl Assert_Failed
      | Some p \<Rightarrow>
          (case section_above p c of
             Inl e \<Rightarrow> Inl e
           | Inr ps \<Rightarrow>
               let fs = getFilters (tracker_class (tracker_at c ps)) in
               Inr (fs = [] \<or> list_ex (\<lambda>ch. case tracker_class (tracker_at c ch) of
                   Section_Tracker own trimmed \<Rightarrow> trimmed \<in> set fs
                 | Generator_Tracker g \<Rightarrow> False) chs)))"

text \<open>
  The virtual \<open>close\<close> of the current tracker; \<open>next\<close> is \<open>next()\<close> of the generators: whether
  there is another value, and the generator moved to it.
\<close>

definition restart_generator :: "nat \<Rightarrow> 'g TrackerContext \<Rightarrow> 'g TrackerContext" where
  "restart_generator t = update_tracker t (\<lambda>x. x\<lparr>children := [], runState := Executing\<rparr>)"

definition close_current ::
  "('g \<Rightarrow> bool \<times> 'g) \<Rightarrow> nat \<Rightarrow> 'g TrackerContext \<Rightarrow> catch_error + 'g TrackerContext" where
  "close_current next_value t c =
     (case base_close t c of
        Inl e \<Rightarrow> Inl e
      | Inr c1 \<Rightarrow>
          (case tracker_class (tracker_at c t) of
             Section_Tracker fs nm \<Rightarrow> Inr c1
           | Generator_Tracker g \<Rightarrow>
               (case should_wait_for_child t c1 of
                  Inl e \<Rightarrow> Inl e
                | Inr wait \<Rightarrow>
                    if wait then Inr (restart_generator t c1)
                    else if runState (tracker_at c1 t) = CompletedSuccessfully
                    then (case g of
                            None \<Rightarrow> Inl Assert_Failed
                          | Some gen \<Rightarrow>
                              let (more, gen') = next_value gen; c2 = setGenerator t gen' c1 in
                              Inr (if more then restart_generator t c2 else c2))
                    else Inr c1)))"

text \<open>\<open>close\<close> with its loop that closes the trackers below \<open>t\<close> first.\<close>

function close_tracker ::
  "('g \<Rightarrow> bool \<times> 'g) \<Rightarrow> nat \<Rightarrow> nat \<Rightarrow> 'g TrackerContext \<Rightarrow> catch_error + 'g TrackerContext" where
  "close_tracker next_value t cur c =
     (if cur = t then close_current next_value t c
      else case close_current next_value cur c of
        Inl e \<Rightarrow> Inl e
      | Inr c' \<Rightarrow>
          (case currentTracker c' of
             Some cur' \<Rightarrow> if cur' < cur then close_tracker next_value t cur' c' else Inl Assert_Failed
           | None \<Rightarrow> Inl Assert_Failed))"
  by auto
termination by (relation "measure (\<lambda>(nxt, t, cur, c). cur)") auto

declare close_tracker.simps [simp del]

definition close :: "('g \<Rightarrow> bool \<times> 'g) \<Rightarrow> nat \<Rightarrow> 'g TrackerContext \<Rightarrow> catch_error + 'g TrackerContext" where
  "close next_value t c =
     (case currentTracker c of None \<Rightarrow> Inl Assert_Failed | Some cur \<Rightarrow> close_tracker next_value t cur c)"

end
