(* ===== verification/Catch_Totals.thy ===== *)
theory Catch_Totals
  imports Catch_Strings
begin

text \<open>
  \<open>catch_totals.cpp\<close>, \<open>catch_result_type.h\<close> and \<open>catch_assertionresult.cpp\<close>: the counters of
  a run and the results of assertions.
\<close>

section \<open>Counts and Totals\<close>

record Counts =
  passed :: u64
  failed :: u64
  failedButOk :: u64

definition Counts_zero :: Counts where
  "Counts_zero = \<lparr>passed = 0, failed = 0, failedButOk = 0\<rparr>"

definition Counts_minus :: "Counts \<Rightarrow> Counts \<Rightarrow> Counts" where
  "Counts_minus cs other = \<lparr>passed = passed cs - passed other, failed = failed cs - failed other,
     failedButOk = failedButOk cs - failedButOk other\<rparr>"

definition Counts_plus :: "Counts \<Rightarrow> Counts \<Rightarrow> Counts" where
  "Counts_plus cs other = \<lparr>passed = passed cs + passed other, failed = failed cs + failed other,
     failedButOk = failedButOk cs + failedButOk other\<rparr>"

definition Counts_total :: "Counts \<Rightarrow> u64" where
  "Counts_total cs = passed cs + failed cs + failedButOk cs"

definition allPassed :: "Counts \<Rightarrow> bool" where
  "allPassed cs \<longleftrightarrow> failed cs = 0 \<and> failedButOk cs = 0"

definition allOk :: "Counts \<Rightarrow> bool" where
  "allOk cs \<longleftrightarrow> failed cs = 0"

record Totals =
  error :: int
  assertions :: Counts
  testCases :: Counts

definition Totals_zero :: Totals where
  "Totals_zero = \<lparr>error = 0, assertions = Counts_zero, testCases = Counts_zero\<rparr>"

text \<open>The difference is a new \<open>Totals\<close>, whose \<open>error\<close> is 0; \<open>+=\<close> keeps the left one.\<close>

definition Totals_minus :: "Totals \<Rightarrow> Totals \<Rightarrow> Totals" where
  "Totals_minus t other = \<lparr>error = 0, assertions = Counts_minus (assertions t) (assertions other),
     testCases = Counts_minus (testCases t) (testCases other)\<rparr>"

definition Totals_plus :: "Totals \<Rightarrow> Totals \<Rightarrow> Totals" where
  "Totals_plus t other = t\<lparr>assertions := Counts_plus (assertions t) (assertions other),
     testCases := Counts_plus (testCases t) (testCases other)\<rparr>"

definition Totals_delta :: "Totals \<Rightarrow> Totals \<Rightarrow> Totals" where
  "Totals_delta t prevTotals =
     (let d = Totals_minus t prevTotals; tcs = testCases d in
      if failed (assertions d) > 0 then d\<lparr>testCases := tcs\<lparr>failed := failed tcs + 1\<rparr>\<rparr>
      else if failedButOk (assertions d) > 0 then d\<lparr>testCases := tcs\<lparr>failedButOk := failedButOk tcs + 1\<rparr>\<rparr>
      else d\<lparr>testCases := tcs\<lparr>passed := passed tcs + 1\<rparr>\<rparr>)"

section \<open>ResultWas and ResultDisposition\<close>

datatype ResultWas = Unknown | Ok | Info | Warning | ExpressionFailed | ExplicitFailure
  | ThrewException | DidntThrowException | FatalErrorCondition

definition FailureBit :: int where
  "FailureBit = 0x10"

fun ResultWas_value :: "ResultWas \<Rightarrow> int" where
  "ResultWas_value Unknown = -1"
| "ResultWas_value Ok = 0"
| "ResultWas_value Info = 1"
| "ResultWas_value Warning = 2"
| "ResultWas_value ExpressionFailed = FailureBit OR 1"
| "ResultWas_value ExplicitFailure = FailureBit OR 2"
| "ResultWas_value ThrewException = (0x100 OR FailureBit) OR 1"
| "ResultWas_value DidntThrowException = (0x100 OR FailureBit) OR 2"
| "ResultWas_value FatalErrorCondition = 0x200 OR FailureBit"

definition isOk :: "ResultWas \<Rightarrow> bool" where
  "isOk resultType \<longleftrightarrow> ResultWas_value resultType AND FailureBit = 0"

text \<open>The flags of \<open>ResultDisposition\<close>.\<close>

definition Normal :: u32 where "Normal = 0x01"
definition ContinueOnFailure :: u32 where "ContinueOnFailure = 0x02"
definition FalseTest :: u32 where "FalseTest = 0x04"
definition SuppressFail :: u32 where "SuppressFail = 0x08"

lemmas disposition_defs = Normal_def ContinueOnFailure_def FalseTest_def SuppressFail_def

definition shouldContinueOnFailure :: "u32 \<Rightarrow> bool" where
  "shouldContinueOnFailure flags \<longleftrightarrow> flags AND ContinueOnFailure \<noteq> 0"

definition isFalseTest :: "u32 \<Rightarrow> bool" where
  "isFalseTest flags \<longleftrightarrow> flags AND FalseTest \<noteq> 0"

definition shouldSuppressFailure :: "u32 \<Rightarrow> bool" where
  "shouldSuppressFailure flags \<longleftrightarrow> flags AND SuppressFail \<noteq> 0"

lemma isOk_iff: "isOk r \<longleftrightarrow> r \<in> {Ok, Info, Warning}"
  by (cases r) (simp_all add: isOk_def FailureBit_def)

section \<open>AssertionResult\<close>

record AssertionInfo =
  macroName :: string
  ai_lineInfo :: SourceLineInfo
  capturedExpression :: string
  resultDisposition :: u32

text \<open>
  \<open>AssertionResultData\<close>: the expression is kept as the text it expands to, the empty one when
  there is none.
\<close>

record AssertionResult =
  m_info :: AssertionInfo
  res_message :: string
  reconstructedExpression :: string
  resultType :: ResultWas

definition succeeded :: "AssertionResult \<Rightarrow> bool" where
  "succeeded r \<longleftrightarrow> isOk (resultType r)"

definition AssertionResult_isOk :: "AssertionResult \<Rightarrow> bool" where
  "AssertionResult_isOk r \<longleftrightarrow>
     isOk (resultType r) \<or> shouldSuppressFailure (resultDisposition (m_info r))"

definition hasExpression :: "AssertionResult \<Rightarrow> bool" where
  "hasExpression r \<longleftrightarrow> capturedExpression (m_info r) \<noteq> ''''"

definition hasMessage :: "AssertionResult \<Rightarrow> bool" where
  "hasMessage r \<longleftrightarrow> res_message r \<noteq> ''''"

definition getExpression :: "AssertionResult \<Rightarrow> string" where
  "getExpression r =
     (let neg = isFalseTest (resultDisposition (m_info r)) in
      (if neg then ''!('' else '''') @ capturedExpression (m_info r) @ (if neg then '')'' else ''''))"

definition getExpressionInMacro :: "AssertionResult \<Rightarrow> string" where
  "getExpressionInMacro r =
     (if macroName (m_info r) = '''' then capturedExpression (m_info r)
      else macroName (m_info r) @ ''( '' @ capturedExpression (m_info r) @ '' )'')"

definition getExpandedExpression :: "AssertionResult \<Rightarrow> string" where
  "getExpandedExpression r =
     (if reconstructedExpression r = '''' then getExpression r else reconstructedExpression r)"

definition hasExpandedExpression :: "AssertionResult \<Rightarrow> bool" where
  "hasExpandedExpression r \<longleftrightarrow> hasExpression r \<and> getExpandedExpression r \<noteq> getExpression r"

end
