(* ===== verification/Catch_Test_Case.thy ===== *)
theory Catch_Test_Case
  imports Catch_Strings
begin

text \<open>
  \<open>catch_test_case_info.cpp\<close>: what \<open>TEST_CASE(name, tags)\<close> records of a test case. The enum
  \<open>SpecialProperties\<close> is its bits; a \<open>TestCase\<close> adds the identity of its invoker.
\<close>

section \<open>Special properties\<close>

definition NoProperties :: u32 where "NoProperties = 0"
definition IsHidden :: u32 where "IsHidden = push_bit 1 1"
definition ShouldFail :: u32 where "ShouldFail = push_bit 2 1"
definition MayFail :: u32 where "MayFail = push_bit 3 1"
definition Throws :: u32 where "Throws = push_bit 4 1"
definition NonPortable :: u32 where "NonPortable = push_bit 5 1"
definition Benchmark :: u32 where "Benchmark = push_bit 6 1"

lemmas property_defs = NoProperties_def IsHidden_def ShouldFail_def MayFail_def Throws_def
  NonPortable_def Benchmark_def

record TestCaseInfo =
  tc_name :: string
  className :: string
  description :: string
  tags :: "string list"
  lcaseTags :: "string list"
  lineInfo :: SourceLineInfo
  properties :: u32

record 'i TestCase = TestCaseInfo +
  tc_test :: 'i

definition parseSpecialTag :: "string \<Rightarrow> u32" where
  "parseSpecialTag tag =
     (if startsWith_char tag CHR ''.'' \<or> tag = ''!hide'' then IsHidden
      else if tag = ''!throws'' then Throws
      else if tag = ''!shouldfail'' then ShouldFail
      else if tag = ''!mayfail'' then MayFail
      else if tag = ''!nonportable'' then NonPortable
      else if tag = ''!benchmark'' then Benchmark OR IsHidden
      else NoProperties)"

definition isReservedTag :: "string \<Rightarrow> bool" where
  "isReservedTag tag \<longleftrightarrow> parseSpecialTag tag = NoProperties \<and> length tag > 0 \<and> \<not> isalnum (tag ! 0)"

definition enforceNotReservedTag :: "string \<Rightarrow> SourceLineInfo \<Rightarrow> catch_error + unit" where
  "enforceNotReservedTag tag loc = (if isReservedTag tag then Inl (Reserved_Tag tag loc) else Inr ())"

section \<open>makeTestCase\<close>

text \<open>The loop over the characters of \<open>nameAndTags.tags\<close> and its locals.\<close>

record tag_scan =
  hidden :: bool
  scanned :: "string list"
  desc :: string
  cur_tag :: string
  inTag :: bool

definition close_tag :: "SourceLineInfo \<Rightarrow> tag_scan \<Rightarrow> catch_error + tag_scan" where
  "close_tag loc s =
     (let tag = cur_tag s;
          prop = parseSpecialTag tag;
          stripped = (if startsWith_char tag CHR ''.'' \<and> length tag > 1 then drop 1 tag else tag);
          s' = s\<lparr>scanned := scanned s @ [stripped], cur_tag := '''', inTag := False\<rparr> in
      if prop AND IsHidden \<noteq> 0 then Inr (s'\<lparr>hidden := True\<rparr>)
      else if prop = NoProperties
           then (case enforceNotReservedTag tag loc of Inl e \<Rightarrow> Inl e | Inr _ \<Rightarrow> Inr s')
           else Inr s')"

definition scan_char :: "SourceLineInfo \<Rightarrow> char \<Rightarrow> tag_scan \<Rightarrow> catch_error + tag_scan" where
  "scan_char loc ch s =
     (if \<not> inTag s
      then Inr (if ch = CHR ''['' then s\<lparr>inTag := True\<rparr> else s\<lparr>desc := desc s @ [ch]\<rparr>)
      else if ch = CHR '']'' then close_tag loc s
           else Inr (s\<lparr>cur_tag := cur_tag s @ [ch]\<rparr>))"

fun scan_tags :: "SourceLineInfo \<Rightarrow> string \<Rightarrow> tag_scan \<Rightarrow> catch_error + tag_scan" where
  "scan_tags loc [] s = Inr s"
| "scan_tags loc (ch # cs) s =
     (case scan_char loc ch s of Inl e \<Rightarrow> Inl e | Inr s' \<Rightarrow> scan_tags loc cs s')"

definition setTags :: "'m TestCaseInfo_scheme \<Rightarrow> string list \<Rightarrow> 'm TestCaseInfo_scheme" where
  "setTags info ts =
     (let ts' = remdups_adj (sort ts) in
      info\<lparr>lcaseTags := map toLower ts',
        properties := fold (\<lambda>t p. p OR parseSpecialTag (toLower t)) ts' (properties info),
        tags := ts'\<rparr>)"

text \<open>The constructors of \<open>TestCaseInfo\<close> and \<open>TestCase\<close>.\<close>

definition TestCase_new ::
  "'i \<Rightarrow> string \<Rightarrow> string \<Rightarrow> string \<Rightarrow> string list \<Rightarrow> SourceLineInfo \<Rightarrow> 'i TestCase" where
  "TestCase_new invoker nm cls dsc ts loc =
     setTags \<lparr>tc_name = nm, className = cls, description = dsc, tags = [], lcaseTags = [],
       lineInfo = loc, properties = NoProperties, tc_test = invoker\<rparr> ts"

definition makeTestCase ::
  "'i \<Rightarrow> string \<Rightarrow> string \<Rightarrow> string \<Rightarrow> SourceLineInfo \<Rightarrow> catch_error + 'i TestCase" where
  "makeTestCase invoker cls nm tagString loc =
     (case scan_tags loc tagString
             \<lparr>hidden = False, scanned = [], desc = '''', cur_tag = '''', inTag = False\<rparr> of
        Inl e \<Rightarrow> Inl e
      | Inr s \<Rightarrow>
          let ts = (if hidden s then scanned s @ [''.'', ''!hide''] else scanned s) in
          Inr (TestCase_new invoker nm cls (desc s) ts loc))"

section \<open>Queries\<close>

definition isHidden :: "'m TestCaseInfo_scheme \<Rightarrow> bool" where
  "isHidden t \<longleftrightarrow> properties t AND IsHidden \<noteq> 0"

definition throws :: "'m TestCaseInfo_scheme \<Rightarrow> bool" where
  "throws t \<longleftrightarrow> properties t AND Throws \<noteq> 0"

definition okToFail :: "'m TestCaseInfo_scheme \<Rightarrow> bool" where
  "okToFail t \<longleftrightarrow> properties t AND (ShouldFail OR MayFail) \<noteq> 0"

definition expectedToFail :: "'m TestCaseInfo_scheme \<Rightarrow> bool" where
  "expectedToFail t \<longleftrightarrow> properties t AND ShouldFail \<noteq> 0"

definition tagsAsString :: "'m TestCaseInfo_scheme \<Rightarrow> string" where
  "tagsAsString t = concat (map (\<lambda>tag. CHR ''['' # tag @ [CHR '']'']) (tags t))"

definition withName :: "'m TestCaseInfo_scheme \<Rightarrow> string \<Rightarrow> 'm TestCaseInfo_scheme" where
  "withName t newName = t\<lparr>tc_name := newName\<rparr>"

definition TestCase_eq :: "'i TestCase \<Rightarrow> 'i TestCase \<Rightarrow> bool" where
  "TestCase_eq t other \<longleftrightarrow> tc_test t = tc_test other \<and> tc_name t = tc_name other \<and>
     className t = className other"

definition TestCase_less :: "'i TestCase \<Rightarrow> 'i TestCase \<Rightarrow> bool" where
  "TestCase_less t other \<longleftrightarrow> tc_name t < tc_name other"

text \<open>
  \<open>extractClassName\<close>: \<open>rfind("::", p)\<close> is the last occurrence that starts at or before \<open>p\<close>;
  with \<open>lastColons = npos\<close> the searches and lengths below wrap as they do in the code.
\<close>

definition str_rfind :: "string \<Rightarrow> string \<Rightarrow> nat option \<Rightarrow> nat option" where
  "str_rfind s t pos =
     find (\<lambda>i. (case pos of None \<Rightarrow> True | Some p \<Rightarrow> i \<le> p) \<and> take (length t) (drop i s) = t)
       (rev [0..<Suc (length s) - length t])"

definition extractClassName :: "string \<Rightarrow> catch_error + string" where
  "extractClassName classOrQualifiedMethodName =
     (let cls = classOrQualifiedMethodName in
      if startsWith_char cls CHR ''&''
      then
        let lastColons = str_rfind cls ''::'' None;
            before = (case lastColons of None \<Rightarrow> None | Some p \<Rightarrow> if p = 0 then None else Some (p - 1));
            penultimateColons = (case str_rfind cls ''::'' before of None \<Rightarrow> 1 | Some p \<Rightarrow> p) in
        (case std_substr cls penultimateColons of
           Inl e \<Rightarrow> Inl e
         | Inr r \<Rightarrow> Inr (case lastColons of
             None \<Rightarrow> r
           | Some p \<Rightarrow> if penultimateColons \<le> p then take (p - penultimateColons) r else r))
      else Inr cls)"

section \<open>Tags\<close>

lemma scan_tags_append:
  "scan_tags loc (as @ bs) s = (case scan_tags loc as s of Inl e \<Rightarrow> Inl e | Inr s' \<Rightarrow> scan_tags loc bs s')"
  by (induction as arbitrary: s) (auto split: sum.splits)

text \<open>Text outside brackets becomes the description: it is no tag.\<close>

lemma scan_plain:
  "CHR ''['' \<notin> set cs \<Longrightarrow> \<not> inTag s \<Longrightarrow> scan_tags loc cs s = Inr (s\<lparr>desc := desc s @ cs\<rparr>)"
  by (induction cs arbitrary: s) (auto simp: scan_char_def)

lemma scan_in_tag:
  "CHR '']'' \<notin> set cs \<Longrightarrow> inTag s \<Longrightarrow> scan_tags loc cs s = Inr (s\<lparr>cur_tag := cur_tag s @ cs\<rparr>)"
  by (induction cs arbitrary: s) (auto simp: scan_char_def)

text \<open>One bracketed tag.\<close>

lemma scan_bracketed:
  assumes "CHR '']'' \<notin> set tag" and "\<not> inTag s" and "cur_tag s = ''''"
  shows "scan_tags loc (CHR ''['' # tag @ [CHR '']'']) s = close_tag loc (s\<lparr>inTag := True, cur_tag := tag\<rparr>)"
  using assms scan_in_tag [of tag "s\<lparr>inTag := True\<rparr>" loc]
  by (simp add: scan_tags_append scan_char_def) (simp split: sum.splits)

text \<open>A tag that is neither special nor reserved.\<close>

definition plain_tag :: "string \<Rightarrow> bool" where
  "plain_tag tag \<longleftrightarrow> CHR '']'' \<notin> set tag \<and> parseSpecialTag tag = NoProperties \<and> \<not> isReservedTag tag"

lemma plain_tag_no_dot: "plain_tag tag \<Longrightarrow> \<not> startsWith_char tag CHR ''.''"
  by (auto simp: plain_tag_def parseSpecialTag_def property_defs split: if_splits)

lemma close_plain_tag:
  "plain_tag (cur_tag s) \<Longrightarrow>
    close_tag loc s = Inr (s\<lparr>scanned := scanned s @ [cur_tag s], cur_tag := '''', inTag := False\<rparr>)"
  using plain_tag_no_dot [of "cur_tag s"]
  by (auto simp: close_tag_def Let_def plain_tag_def enforceNotReservedTag_def NoProperties_def)

lemma scan_plain_tags:
  assumes "\<forall>tag \<in> set ts. plain_tag tag" and "\<not> inTag s" and "cur_tag s = ''''"
  shows "scan_tags loc (concat (map (\<lambda>tag. CHR ''['' # tag @ [CHR '']'']) ts)) s =
    Inr (s\<lparr>scanned := scanned s @ ts\<rparr>)"
  using assms
proof (induction ts arbitrary: s)
  case Nil
  then show ?case by simp
next
  case (Cons tag ts)
  let ?tag = "CHR ''['' # tag @ [CHR '']'']" and ?s = "s\<lparr>scanned := scanned s @ [tag]\<rparr>"
  have "scan_tags loc ?tag s = Inr (s\<lparr>cur_tag := '''', inTag := False, scanned := scanned s @ [tag]\<rparr>)"
    using Cons.prems close_plain_tag [of "s\<lparr>inTag := True, cur_tag := tag\<rparr>" loc]
    by (subst scan_bracketed) (auto simp: plain_tag_def)
  also have "s\<lparr>cur_tag := '''', inTag := False, scanned := scanned s @ [tag]\<rparr> = ?s"
    using Cons.prems(2,3) by (cases s) simp
  finally have "scan_tags loc (?tag @ concat (map (\<lambda>tag. CHR ''['' # tag @ [CHR '']'']) ts)) s =
      scan_tags loc (concat (map (\<lambda>tag. CHR ''['' # tag @ [CHR '']'']) ts)) ?s"
    by (simp only: scan_tags_append sum.case)
  with Cons show ?case by simp
qed

lemma setTags_simps [simp]:
  "tags (setTags info ts) = remdups_adj (sort ts)"
  "lcaseTags (setTags info ts) = map toLower (remdups_adj (sort ts))"
  "tc_name (setTags info ts) = tc_name info"
  "description (setTags info ts) = description info"
  "lineInfo (setTags info ts) = lineInfo info"
  by (simp_all add: setTags_def Let_def)

lemma set_remdups_adj_sort [simp]: "set (remdups_adj (sort xs)) = set xs"
  by simp

end
