(* ===== verification/Catch_Test_Spec.thy ===== *)
theory Catch_Test_Spec
  imports Catch_Test_Case
begin

text \<open>
  Which tests run: \<open>catch_wildcard_pattern.cpp\<close>, \<open>catch_test_spec.cpp\<close>,
  \<open>catch_tag_alias_registry.cpp\<close> and the parser of the command line's test specifications,
  \<open>catch_test_spec_parser.cpp\<close>. A \<open>PatternPtr\<close> is the pattern it points to.
\<close>

section \<open>WildcardPattern\<close>

datatype WildcardPosition = NoWildcard | WildcardAtStart | WildcardAtEnd | WildcardAtBothEnds

fun or_at_end :: "WildcardPosition \<Rightarrow> WildcardPosition" where
  "or_at_end NoWildcard = WildcardAtEnd"
| "or_at_end WildcardAtStart = WildcardAtBothEnds"
| "or_at_end WildcardAtEnd = WildcardAtEnd"
| "or_at_end WildcardAtBothEnds = WildcardAtBothEnds"

record WildcardPattern =
  caseSensitive :: bool
  wildcard :: WildcardPosition
  wc_pattern :: string

definition normaliseString :: "bool \<Rightarrow> string \<Rightarrow> string" where
  "normaliseString sensitive s = trim (if sensitive then s else toLower s)"

definition WildcardPattern_new :: "string \<Rightarrow> bool \<Rightarrow> WildcardPattern" where
  "WildcardPattern_new pat sensitive =
     (let p0 = normaliseString sensitive pat;
          (p1, w1) = (if startsWith_char p0 CHR ''*'' then (drop 1 p0, WildcardAtStart) else (p0, NoWildcard));
          (p2, w2) = (if endsWith_char p1 CHR ''*'' then (take (length p1 - 1) p1, or_at_end w1) else (p1, w1)) in
      \<lparr>caseSensitive = sensitive, wildcard = w2, wc_pattern = p2\<rparr>)"

definition WildcardPattern_matches :: "WildcardPattern \<Rightarrow> string \<Rightarrow> bool" where
  "WildcardPattern_matches p s =
     (let n = normaliseString (caseSensitive p) s in
      case wildcard p of
        NoWildcard \<Rightarrow> wc_pattern p = n
      | WildcardAtStart \<Rightarrow> endsWith n (wc_pattern p)
      | WildcardAtEnd \<Rightarrow> startsWith n (wc_pattern p)
      | WildcardAtBothEnds \<Rightarrow> contains n (wc_pattern p))"

section \<open>TestSpec\<close>

datatype Pattern =
    NamePattern WildcardPattern string
  | TagPattern string string
  | ExcludedPattern Pattern

definition NamePattern_new :: "string \<Rightarrow> string \<Rightarrow> Pattern" where
  "NamePattern_new nm filterString = NamePattern (WildcardPattern_new (toLower nm) False) filterString"

definition TagPattern_new :: "string \<Rightarrow> string \<Rightarrow> Pattern" where
  "TagPattern_new tag filterString = TagPattern (toLower tag) filterString"

fun Pattern_name :: "Pattern \<Rightarrow> string" where
  "Pattern_name (NamePattern w nm) = nm"
| "Pattern_name (TagPattern t nm) = nm"
| "Pattern_name (ExcludedPattern p) = Pattern_name p"

fun Pattern_matches :: "Pattern \<Rightarrow> 'm TestCaseInfo_scheme \<Rightarrow> bool" where
  "Pattern_matches (NamePattern w nm) t = WildcardPattern_matches w (tc_name t)"
| "Pattern_matches (TagPattern tag nm) t = (tag \<in> set (lcaseTags t))"
| "Pattern_matches (ExcludedPattern p) t = (\<not> Pattern_matches p t)"

type_synonym Filter = "Pattern list"

definition Filter_matches :: "Filter \<Rightarrow> 'm TestCaseInfo_scheme \<Rightarrow> bool" where
  "Filter_matches f t = list_all (\<lambda>p. Pattern_matches p t) f"

definition Filter_name :: "Filter \<Rightarrow> string" where
  "Filter_name f = concat (map Pattern_name f)"

record TestSpec =
  filters :: "Filter list"
  invalidArgs :: "string list"

definition hasFilters :: "TestSpec \<Rightarrow> bool" where
  "hasFilters ts \<longleftrightarrow> filters ts \<noteq> []"

definition TestSpec_matches :: "TestSpec \<Rightarrow> 'm TestCaseInfo_scheme \<Rightarrow> bool" where
  "TestSpec_matches ts t = list_ex (\<lambda>f. Filter_matches f t) (filters ts)"

text \<open>\<open>isThrowSafe\<close>, of which only \<open>allowThrows()\<close> of the configuration is used.\<close>

definition isThrowSafe :: "'m TestCaseInfo_scheme \<Rightarrow> bool \<Rightarrow> bool" where
  "isThrowSafe t allowThrows \<longleftrightarrow> \<not> throws t \<or> allowThrows"

definition matchesByFilter ::
  "TestSpec \<Rightarrow> 'm TestCaseInfo_scheme list \<Rightarrow> bool \<Rightarrow> (string \<times> 'm TestCaseInfo_scheme list) list" where
  "matchesByFilter ts testCases allowThrows =
     map (\<lambda>f. (Filter_name f, filter (\<lambda>t. isThrowSafe t allowThrows \<and> Filter_matches f t) testCases))
       (filters ts)"

section \<open>TagAliasRegistry\<close>

text \<open>A \<open>std::map\<close> iterates in the order of its keys: the registry is a list sorted by alias.\<close>

record TagAlias =
  alias_tag :: string
  alias_loc :: SourceLineInfo

type_synonym TagAliasRegistry = "(string \<times> TagAlias) list"

definition find_alias :: "TagAliasRegistry \<Rightarrow> string \<Rightarrow> TagAlias option" where
  "find_alias reg al = map_of reg al"

definition expand_alias :: "string \<times> TagAlias \<Rightarrow> string \<Rightarrow> string" where
  "expand_alias kvp spec =
     (case str_find spec (fst kvp) 0 of
        Some pos \<Rightarrow> take pos spec @ alias_tag (snd kvp) @ drop (pos + length (fst kvp)) spec
      | None \<Rightarrow> spec)"

definition expandAliases :: "TagAliasRegistry \<Rightarrow> string \<Rightarrow> string" where
  "expandAliases reg unexpandedTestSpec = fold expand_alias reg unexpandedTestSpec"

definition add_alias ::
  "TagAliasRegistry \<Rightarrow> string \<Rightarrow> string \<Rightarrow> SourceLineInfo \<Rightarrow> catch_error + TagAliasRegistry" where
  "add_alias reg al tag loc =
     (if startsWith al ''[@'' \<and> endsWith_char al CHR '']''
      then (case find_alias reg al of
              None \<Rightarrow> Inr (insort_key fst (al, \<lparr>alias_tag = tag, alias_loc = loc\<rparr>) reg)
            | Some known \<Rightarrow> Inl (Alias_Already_Registered al (alias_loc known) loc))
      else Inl (Alias_Malformed al loc))"

section \<open>TestSpecParser\<close>

datatype Mode = ModeNone | Name | QuotedName | Tag | EscapedName

text \<open>
  The characters of \<open>m_arg\<close> are visited from left to right, so \<open>m_pos\<close> is the place in the
  list; \<open>separate\<close> sets it to the end just before the loop is left.
\<close>

record TestSpecParser =
  m_mode :: Mode
  lastMode :: Mode
  m_exclusion :: bool
  m_realPatternPos :: nat
  m_arg :: string
  m_substring :: string
  m_patternName :: string
  m_escapeChars :: "nat list"
  m_currentFilter :: Filter
  m_testSpec :: TestSpec
  m_tagAliases :: TagAliasRegistry

definition TestSpecParser_new :: "TagAliasRegistry \<Rightarrow> TestSpecParser" where
  "TestSpecParser_new reg = \<lparr>m_mode = ModeNone, lastMode = ModeNone, m_exclusion = False,
     m_realPatternPos = 0, m_arg = '''', m_substring = '''', m_patternName = '''',
     m_escapeChars = [], m_currentFilter = [], m_testSpec = \<lparr>filters = [], invalidArgs = []\<rparr>,
     m_tagAliases = reg\<rparr>"

definition addCharToPattern :: "char \<Rightarrow> TestSpecParser \<Rightarrow> TestSpecParser" where
  "addCharToPattern ch p = p\<lparr>m_substring := m_substring p @ [ch],
     m_patternName := m_patternName p @ [ch], m_realPatternPos := m_realPatternPos p + 1\<rparr>"

definition startNewMode :: "Mode \<Rightarrow> TestSpecParser \<Rightarrow> TestSpecParser" where
  "startNewMode mode p = p\<lparr>m_mode := mode\<rparr>"

definition saveLastMode :: "TestSpecParser \<Rightarrow> TestSpecParser" where
  "saveLastMode p = p\<lparr>lastMode := m_mode p\<rparr>"

definition revertBackToLastMode :: "TestSpecParser \<Rightarrow> TestSpecParser" where
  "revertBackToLastMode p = p\<lparr>m_mode := lastMode p\<rparr>"

definition escape :: "TestSpecParser \<Rightarrow> TestSpecParser" where
  "escape p = (let p' = (saveLastMode p)\<lparr>m_mode := EscapedName\<rparr> in
     p'\<lparr>m_escapeChars := m_escapeChars p' @ [m_realPatternPos p']\<rparr>)"

definition isControlChar :: "TestSpecParser \<Rightarrow> char \<Rightarrow> bool" where
  "isControlChar p ch =
     (case m_mode p of
        ModeNone \<Rightarrow> ch = CHR ''~''
      | Name \<Rightarrow> ch = CHR ''[''
      | EscapedName \<Rightarrow> True
      | QuotedName \<Rightarrow> ch = CHR 0x22
      | Tag \<Rightarrow> ch = CHR ''['' \<or> ch = CHR '']'')"

definition addFilter :: "TestSpecParser \<Rightarrow> TestSpecParser" where
  "addFilter p =
     (if m_currentFilter p \<noteq> []
      then p\<lparr>m_testSpec := (m_testSpec p)\<lparr>filters := filters (m_testSpec p) @ [m_currentFilter p]\<rparr>,
             m_currentFilter := []\<rparr>
      else p)"

text \<open>
  The loop of \<open>preprocessPattern\<close> deletes the backslashes; \<open>substr\<close> throws when it starts
  past the end, and \<open>escape - i\<close> is unsigned, so a negative difference is past the end as well.
\<close>

fun unescape :: "nat \<Rightarrow> nat list \<Rightarrow> string \<Rightarrow> catch_error + string" where
  "unescape i [] token = Inr token"
| "unescape i (e # es) token =
     (if i \<le> e
      then (case std_substr token (e - i + 1) of
              Inl err \<Rightarrow> Inl err
            | Inr r \<Rightarrow> unescape (i + 1) es (take (e - i) token @ r))
      else Inl Out_Of_Range)"

definition preprocessPattern :: "TestSpecParser \<Rightarrow> catch_error + (string \<times> TestSpecParser)" where
  "preprocessPattern p =
     (case unescape 0 (m_escapeChars p) (m_patternName p) of
        Inl err \<Rightarrow> Inl err
      | Inr token \<Rightarrow>
          let (excl, token') = (if startsWith token ''exclude:'' then (True, drop 8 token)
                                else (m_exclusion p, token)) in
          Inr (token', p\<lparr>m_escapeChars := [], m_exclusion := excl, m_patternName := '''',
                 m_realPatternPos := 0\<rparr>))"

definition excluded :: "TestSpecParser \<Rightarrow> Pattern \<Rightarrow> Pattern" where
  "excluded p pat = (if m_exclusion p then ExcludedPattern pat else pat)"

definition end_pattern :: "Pattern list \<Rightarrow> TestSpecParser \<Rightarrow> TestSpecParser" where
  "end_pattern pats p = p\<lparr>m_currentFilter := m_currentFilter p @ pats, m_substring := '''',
     m_exclusion := False, m_mode := ModeNone\<rparr>"

definition addNamePattern :: "TestSpecParser \<Rightarrow> catch_error + TestSpecParser" where
  "addNamePattern p =
     (case preprocessPattern p of
        Inl err \<Rightarrow> Inl err
      | Inr (token, p') \<Rightarrow> Inr (end_pattern
          (if token \<noteq> [] then [excluded p' (NamePattern_new token (m_substring p'))] else []) p'))"

definition addTagPattern :: "TestSpecParser \<Rightarrow> catch_error + TestSpecParser" where
  "addTagPattern p =
     (case preprocessPattern p of
        Inl err \<Rightarrow> Inl err
      | Inr (token, p') \<Rightarrow>
          let sub = m_substring p' in
          Inr (end_pattern
            (if token = [] then []
             else if length token > 1 \<and> token ! 0 = CHR ''.''
                  then [excluded p' (TagPattern_new ''.'' sub), excluded p' (TagPattern_new (drop 1 token) sub)]
                  else [excluded p' (TagPattern_new token sub)]) p'))"

definition endMode :: "TestSpecParser \<Rightarrow> catch_error + TestSpecParser" where
  "endMode p =
     (case m_mode p of
        Name \<Rightarrow> addNamePattern p
      | QuotedName \<Rightarrow> addNamePattern p
      | Tag \<Rightarrow> addTagPattern p
      | EscapedName \<Rightarrow> Inr (revertBackToLastMode p)
      | ModeNone \<Rightarrow> Inr (startNewMode ModeNone p))"

definition separate :: "TestSpecParser \<Rightarrow> catch_error + (bool \<times> TestSpecParser)" where
  "separate p =
     (if m_mode p = QuotedName \<or> m_mode p = Tag
      then Inr (False, p\<lparr>m_mode := ModeNone, m_substring := '''', m_patternName := '''', m_realPatternPos := 0\<rparr>)
      else case endMode p of
             Inl err \<Rightarrow> Inl err
           | Inr p' \<Rightarrow> Inr (True, addFilter p'))"

definition processNoneChar :: "char \<Rightarrow> TestSpecParser \<Rightarrow> bool \<times> TestSpecParser" where
  "processNoneChar ch p =
     (if ch = CHR '' '' then (True, p)
      else if ch = CHR ''~'' then (False, p\<lparr>m_exclusion := True\<rparr>)
      else if ch = CHR ''['' then (False, startNewMode Tag p)
      else if ch = CHR 0x22 then (False, startNewMode QuotedName p)
      else (False, startNewMode Name p))"

definition processNameChar :: "char \<Rightarrow> TestSpecParser \<Rightarrow> catch_error + TestSpecParser" where
  "processNameChar ch p =
     (if ch = CHR ''[''
      then (if m_substring p = ''exclude:''
            then Inr (startNewMode Tag (p\<lparr>m_exclusion := True\<rparr>))
            else case endMode p of Inl err \<Rightarrow> Inl err | Inr p' \<Rightarrow> Inr (startNewMode Tag p'))
      else Inr p)"

definition processOtherChar :: "char \<Rightarrow> TestSpecParser \<Rightarrow> catch_error + (bool \<times> TestSpecParser)" where
  "processOtherChar ch p =
     (if \<not> isControlChar p ch then Inr (False, p)
      else case endMode (p\<lparr>m_substring := m_substring p @ [ch]\<rparr>) of
             Inl err \<Rightarrow> Inl err
           | Inr p' \<Rightarrow> Inr (True, p'))"

text \<open>The end of \<open>visitChar\<close>, for the cases that fall out of its \<open>switch\<close>.\<close>

definition add_visited :: "char \<Rightarrow> TestSpecParser \<Rightarrow> TestSpecParser" where
  "add_visited ch p =
     (let p' = p\<lparr>m_substring := m_substring p @ [ch]\<rparr> in
      if \<not> isControlChar p' ch
      then p'\<lparr>m_patternName := m_patternName p' @ [ch], m_realPatternPos := m_realPatternPos p' + 1\<rparr>
      else p')"

definition visitChar :: "char \<Rightarrow> TestSpecParser \<Rightarrow> catch_error + (bool \<times> TestSpecParser)" where
  "visitChar ch p =
     (if m_mode p \<noteq> EscapedName \<and> ch = CHR 0x5C then Inr (True, addCharToPattern ch (escape p))
      else if m_mode p \<noteq> EscapedName \<and> ch = CHR '','' then separate p
      else case m_mode p of
        ModeNone \<Rightarrow>
          let (done, p') = processNoneChar ch p in
          Inr (True, if done then p' else add_visited ch p')
      | Name \<Rightarrow>
          (case processNameChar ch p of Inl err \<Rightarrow> Inl err | Inr p' \<Rightarrow> Inr (True, add_visited ch p'))
      | EscapedName \<Rightarrow>
          (case endMode p of Inl err \<Rightarrow> Inl err | Inr p' \<Rightarrow> Inr (True, addCharToPattern ch p'))
      | _ \<Rightarrow>
          (case processOtherChar ch p of
             Inl err \<Rightarrow> Inl err
           | Inr (done, p') \<Rightarrow> Inr (True, if done then p' else add_visited ch p')))"

text \<open>The loop of \<open>parse\<close>; a failed \<open>visitChar\<close> records the argument and leaves it.\<close>

fun visit_all :: "string \<Rightarrow> string \<Rightarrow> TestSpecParser \<Rightarrow> catch_error + TestSpecParser" where
  "visit_all arg [] p = Inr p"
| "visit_all arg (ch # cs) p =
     (case visitChar ch p of
        Inl err \<Rightarrow> Inl err
      | Inr (ok, p') \<Rightarrow>
          if ok then visit_all arg cs p'
          else Inr (p'\<lparr>m_testSpec := (m_testSpec p')\<lparr>invalidArgs := invalidArgs (m_testSpec p') @ [arg]\<rparr>\<rparr>))"

definition parse :: "string \<Rightarrow> TestSpecParser \<Rightarrow> catch_error + TestSpecParser" where
  "parse arg p =
     (let p' = p\<lparr>m_mode := ModeNone, m_exclusion := False, m_arg := expandAliases (m_tagAliases p) arg,
                m_escapeChars := [], m_realPatternPos := 0\<rparr> in
      case visit_all arg (m_arg p') p' of
        Inl err \<Rightarrow> Inl err
      | Inr p'' \<Rightarrow> endMode p'')"

definition testSpec :: "TestSpecParser \<Rightarrow> TestSpec" where
  "testSpec p = m_testSpec (addFilter p)"

definition parseTestSpec :: "TagAliasRegistry \<Rightarrow> string \<Rightarrow> catch_error + TestSpec" where
  "parseTestSpec reg arg =
     (case parse arg (TestSpecParser_new reg) of Inl err \<Rightarrow> Inl err | Inr p \<Rightarrow> Inr (testSpec p))"

end
