(* ===== verification/Catch_Config.thy ===== *)
theory Catch_Config
  imports Catch_Test_Spec
begin

text \<open>
  \<open>catch_config.hpp\<close>, \<open>catch_config.cpp\<close> and the option handlers of
  \<open>catch_commandline.cpp\<close>: what a run of the tests is configured with. The two floating
  point values, \<open>minDuration\<close> and \<open>benchmarkConfidenceInterval\<close>, are left out.
\<close>

datatype Verbosity = Quiet | Normal_verbosity | High
datatype ShowDurations = DefaultForReporter | Always | Never_durations
datatype InWhatOrder = InDeclarationOrder | InLexicographicalOrder | InRandomOrder
datatype UseColour = Auto | Yes | No

text \<open>The enums used as bit sets.\<close>

definition WarnNothing :: u32 where "WarnNothing = 0"
definition NoAssertions :: u32 where "NoAssertions = 1"
definition NoTests :: u32 where "NoTests = 2"

definition Never :: u32 where "Never = 0"
definition BeforeStart :: u32 where "BeforeStart = 1"
definition BeforeExit :: u32 where "BeforeExit = 2"

definition BeforeStartAndExit :: u32 where
  "BeforeStartAndExit = BeforeStart OR BeforeExit"

record ConfigData =
  listTests :: bool
  listTags :: bool
  listReporters :: bool
  listTestNamesOnly :: bool
  showSuccessfulTests :: bool
  shouldDebugBreak :: bool
  noThrow :: bool
  showHelp :: bool
  showInvisibles :: bool
  filenamesAsTags :: bool
  libIdentify :: bool
  abortAfter :: int
  rngSeed :: u32
  benchmarkNoAnalysis :: bool
  benchmarkSamples :: u32
  benchmarkResamples :: u32
  benchmarkWarmupTime :: int
  verbosity :: Verbosity
  warnings :: u32
  showDurations :: ShowDurations
  runOrder :: InWhatOrder
  useColour :: UseColour
  waitForKeypress :: u32
  outputFilename :: string
  cfg_name :: string
  processName :: string
  reporterName :: string
  testsOrTags :: "string list"
  sectionsToRun :: "string list"

definition ConfigData_default :: ConfigData where
  "ConfigData_default = \<lparr>listTests = False, listTags = False, listReporters = False,
     listTestNamesOnly = False, showSuccessfulTests = False, shouldDebugBreak = False,
     noThrow = False, showHelp = False, showInvisibles = False, filenamesAsTags = False,
     libIdentify = False, abortAfter = -1, rngSeed = 0, benchmarkNoAnalysis = False,
     benchmarkSamples = 100, benchmarkResamples = 100000, benchmarkWarmupTime = 100, verbosity = Normal_verbosity,
     warnings = WarnNothing, showDurations = DefaultForReporter, runOrder = InDeclarationOrder,
     useColour = Auto, waitForKeypress = Never, outputFilename = '''', cfg_name = '''',
     processName = '''', reporterName = ''console'', testsOrTags = [], sectionsToRun = []\<rparr>"

section \<open>The handlers of the options\<close>

text \<open>A \<open>ParserResult\<close>: an error message or the changed configuration.\<close>

type_synonym option_result = "string + ConfigData"

definition setWarning :: "string \<Rightarrow> ConfigData \<Rightarrow> option_result" where
  "setWarning warning config =
     (let warningSet = (if warning = ''NoAssertions'' then NoAssertions
                        else if warning = ''NoTests'' then NoTests else WarnNothing) in
      if warningSet = WarnNothing
      then Inl (''Unrecognised warning: '' @ [CHR 0x27] @ warning @ [CHR 0x27])
      else Inr (config\<lparr>warnings := warnings config OR warningSet\<rparr>))"

text \<open>The lines of the file, or none when it cannot be opened.\<close>

definition load_line :: "string \<Rightarrow> string list \<Rightarrow> string list" where
  "load_line l0 ts =
     (let line = trim l0 in
      if line \<noteq> '''' \<and> \<not> startsWith_char line CHR ''#''
      then ts @ [if \<not> startsWith_char line CHR 0x22 then [CHR 0x22] @ line @ [CHR 0x22] else line, '','']
      else ts)"

definition loadTestNamesFromFile :: "string list option \<Rightarrow> string \<Rightarrow> ConfigData \<Rightarrow> option_result" where
  "loadTestNamesFromFile contents filename config =
     (case contents of
        None \<Rightarrow> Inl (''Unable to load input file: '' @ [CHR 0x27] @ filename @ [CHR 0x27])
      | Some ls \<Rightarrow>
          let ts = fold load_line ls (testsOrTags config) in
          Inr (config\<lparr>testsOrTags := (if ts \<noteq> [] then butlast ts else ts)\<rparr>))"

definition setTestOrder :: "string \<Rightarrow> ConfigData \<Rightarrow> option_result" where
  "setTestOrder order config =
     (if startsWith ''declared'' order then Inr (config\<lparr>runOrder := InDeclarationOrder\<rparr>)
      else if startsWith ''lexical'' order then Inr (config\<lparr>runOrder := InLexicographicalOrder\<rparr>)
      else if startsWith ''random'' order then Inr (config\<lparr>runOrder := InRandomOrder\<rparr>)
      else Inl (''Unrecognised ordering: '' @ [CHR 0x27] @ order @ [CHR 0x27]))"

definition setColourUsage :: "string \<Rightarrow> ConfigData \<Rightarrow> option_result" where
  "setColourUsage colour config =
     (let mode = toLower colour in
      if mode = ''yes'' then Inr (config\<lparr>useColour := Yes\<rparr>)
      else if mode = ''no'' then Inr (config\<lparr>useColour := No\<rparr>)
      else if mode = ''auto'' then Inr (config\<lparr>useColour := Auto\<rparr>)
      else Inl (''colour mode must be one of: auto, yes or no. '' @ [CHR 0x27] @ colour @
        [CHR 0x27] @ '' not recognised''))"

definition setWaitForKeypress :: "string \<Rightarrow> ConfigData \<Rightarrow> option_result" where
  "setWaitForKeypress keypress config =
     (let lc = toLower keypress in
      if lc = ''never'' then Inr (config\<lparr>waitForKeypress := Never\<rparr>)
      else if lc = ''start'' then Inr (config\<lparr>waitForKeypress := BeforeStart\<rparr>)
      else if lc = ''exit'' then Inr (config\<lparr>waitForKeypress := BeforeExit\<rparr>)
      else if lc = ''both'' then Inr (config\<lparr>waitForKeypress := BeforeStartAndExit\<rparr>)
      else Inl (''keypress argument must be one of: never, start, exit or both. '' @ [CHR 0x27] @
        keypress @ [CHR 0x27] @ '' not recognised''))"

definition setVerbosity :: "string \<Rightarrow> ConfigData \<Rightarrow> option_result" where
  "setVerbosity verb config =
     (let lc = toLower verb in
      if lc = ''quiet'' then Inr (config\<lparr>verbosity := Quiet\<rparr>)
      else if lc = ''normal'' then Inr (config\<lparr>verbosity := Normal_verbosity\<rparr>)
      else if lc = ''high'' then Inr (config\<lparr>verbosity := High\<rparr>)
      else Inl (''Unrecognised verbosity, '' @ [CHR 0x27] @ verb @ [CHR 0x27]))"

definition setReporter :: "string list \<Rightarrow> string \<Rightarrow> ConfigData \<Rightarrow> option_result" where
  "setReporter factories reporter config =
     (let lc = toLower reporter in
      if lc \<in> set factories then Inr (config\<lparr>reporterName := lc\<rparr>)
      else Inl (''Unrecognized reporter, '' @ [CHR 0x27] @ reporter @ [CHR 0x27] @
        ''. Check available with --list-reporters''))"

section \<open>Config\<close>

record Config =
  cfg_data :: ConfigData
  cfg_testSpec :: TestSpec
  cfg_hasTestFilters :: bool

fun parse_args :: "string list \<Rightarrow> TestSpecParser \<Rightarrow> catch_error + TestSpecParser" where
  "parse_args [] p = Inr p"
| "parse_args (arg # args) p =
     (case parse arg p of Inl err \<Rightarrow> Inl err | Inr p' \<Rightarrow> parse_args args p')"

definition Config_new :: "TagAliasRegistry \<Rightarrow> ConfigData \<Rightarrow> catch_error + Config" where
  "Config_new reg data =
     (let d = data\<lparr>testsOrTags := map trim (testsOrTags data), sectionsToRun := map trim (sectionsToRun data)\<rparr> in
      case parse_args (testsOrTags d) (TestSpecParser_new reg) of
        Inl err \<Rightarrow> Inl err
      | Inr parser \<Rightarrow> Inr \<lparr>cfg_data = d, cfg_testSpec = testSpec parser,
          cfg_hasTestFilters = (testsOrTags d \<noteq> [])\<rparr>)"

definition allowThrows :: "Config \<Rightarrow> bool" where
  "allowThrows config \<longleftrightarrow> \<not> noThrow (cfg_data config)"

definition config_name :: "Config \<Rightarrow> string" where
  "config_name config =
     (if cfg_name (cfg_data config) = '''' then processName (cfg_data config) else cfg_name (cfg_data config))"

definition warnAboutMissingAssertions :: "Config \<Rightarrow> bool" where
  "warnAboutMissingAssertions config \<longleftrightarrow> warnings (cfg_data config) AND NoAssertions \<noteq> 0"

definition warnAboutNoTests :: "Config \<Rightarrow> bool" where
  "warnAboutNoTests config \<longleftrightarrow> warnings (cfg_data config) AND NoTests \<noteq> 0"

end
