(* ===== verification/Catch_Registry.thy ===== *)
theory Catch_Registry
  imports Catch_Config "HOL-Library.Product_Lexorder"
begin

text \<open>
  \<open>catch_test_case_registry_impl.cpp\<close> and \<open>catch_test_registry.cpp\<close>: the registered tests, in
  the order they will run, and the selection of those that do; \<open>catch_list.cpp\<close> counts them.
\<close>

section \<open>The order of the tests\<close>

text \<open>FNV-1a; \<open>hash ^= c\<close> extends the sign of the \<open>char\<close>.\<close>

definition hash_char :: "char \<Rightarrow> u64 \<Rightarrow> u64" where
  "hash_char ch h = (h XOR scast (word_of_nat (of_char ch) :: u8)) * 1099511628211"

definition TestHasher :: "u64 \<Rightarrow> 'm TestCaseInfo_scheme \<Rightarrow> u32" where
  "TestHasher hashSuffix t =
     (let h = (fold hash_char (tc_name t) 14695981039346656037 XOR hashSuffix) * 1099511628211;
          low = ucast h :: u32;
          high = ucast (drop_bit 32 h) :: u32 in
      low * high)"

text \<open>
  \<open>std::sort\<close> leaves tests of equal keys in some order; names are distinct when \<open>sortTests\<close> is
  called, so no two tests are equal for the comparison.
\<close>

definition sortTests :: "InWhatOrder \<Rightarrow> u32 \<Rightarrow> 'm TestCaseInfo_scheme list \<Rightarrow> 'm TestCaseInfo_scheme list" where
  "sortTests order seed unsortedTestCases =
     (case order of
        InDeclarationOrder \<Rightarrow> unsortedTestCases
      | InLexicographicalOrder \<Rightarrow> sort_key tc_name unsortedTestCases
      | InRandomOrder \<Rightarrow> sort_key (\<lambda>t. (TestHasher (ucast seed) t, tc_name t)) unsortedTestCases)"

section \<open>TestRegistry\<close>

text \<open>A \<open>std::set<TestCase>\<close> compares by name only.\<close>

fun enforce_from ::
  "'m TestCaseInfo_scheme list \<Rightarrow> 'm TestCaseInfo_scheme list \<Rightarrow> catch_error + unit" where
  "enforce_from seen [] = Inr ()"
| "enforce_from seen (f # fs) =
     (case find (\<lambda>g. tc_name g = tc_name f) seen of
        Some prev \<Rightarrow> Inl (Test_Already_Defined (tc_name f) (lineInfo prev) (lineInfo f))
      | None \<Rightarrow> enforce_from (f # seen) fs)"

definition enforceNoDuplicateTestCases :: "'m TestCaseInfo_scheme list \<Rightarrow> catch_error + unit" where
  "enforceNoDuplicateTestCases functions = enforce_from [] functions"

record 'm TestRegistry =
  m_functions :: "'m TestCaseInfo_scheme list"
  m_currentSortOrder :: InWhatOrder
  m_sortedFunctions :: "'m TestCaseInfo_scheme list"
  m_unnamedCount :: nat

definition TestRegistry_new :: "'m TestRegistry" where
  "TestRegistry_new = \<lparr>m_functions = [], m_currentSortOrder = InDeclarationOrder,
     m_sortedFunctions = [], m_unnamedCount = 0\<rparr>"

fun decimal :: "nat \<Rightarrow> string" where
  "decimal n = (if n < 10 then [char_of (48 + n)] else decimal (n div 10) @ [char_of (48 + n mod 10)])"

declare decimal.simps [simp del]

definition registerTest :: "'m TestCaseInfo_scheme \<Rightarrow> 'm TestRegistry \<Rightarrow> 'm TestRegistry" where
  "registerTest t reg =
     (if tc_name t = ''''
      then let n = m_unnamedCount reg + 1 in
        reg\<lparr>m_unnamedCount := n,
          m_functions := m_functions reg @ [withName t (''Anonymous test case '' @ decimal n)]\<rparr>
      else reg\<lparr>m_functions := m_functions reg @ [t]\<rparr>)"

definition getAllTestsSorted ::
  "ConfigData \<Rightarrow> 'm TestRegistry \<Rightarrow> catch_error + ('m TestCaseInfo_scheme list \<times> 'm TestRegistry)" where
  "getAllTestsSorted config reg =
     (case (if m_sortedFunctions reg = [] then enforceNoDuplicateTestCases (m_functions reg) else Inr ()) of
        Inl e \<Rightarrow> Inl e
      | Inr _ \<Rightarrow>
          let reg' = (if m_currentSortOrder reg \<noteq> runOrder config \<or> m_sortedFunctions reg = []
                      then reg\<lparr>m_sortedFunctions := sortTests (runOrder config) (rngSeed config) (m_functions reg),
                             m_currentSortOrder := runOrder config\<rparr>
                      else reg) in
          Inr (m_sortedFunctions reg', reg'))"

text \<open>
  \<open>AutoReg\<close>: what \<open>TEST_CASE\<close> does before \<open>main\<close>; an exception is kept for the session to
  report.
\<close>

definition AutoReg ::
  "'i \<Rightarrow> SourceLineInfo \<Rightarrow> string \<Rightarrow> string \<Rightarrow> string \<Rightarrow>
   ('i, unit) TestCase_ext TestRegistry \<times> catch_error list \<Rightarrow> ('i, unit) TestCase_ext TestRegistry \<times> catch_error list" where
  "AutoReg invoker loc classOrMethod nm tagString = (\<lambda>(reg, startupExceptions).
     (case extractClassName classOrMethod of
        Inl e \<Rightarrow> (reg, startupExceptions @ [e])
      | Inr cls \<Rightarrow>
          (case makeTestCase invoker cls nm tagString loc of
             Inl e \<Rightarrow> (reg, startupExceptions @ [e])
           | Inr t \<Rightarrow> (registerTest t reg, startupExceptions))))"

section \<open>Selection\<close>

definition matchTest :: "'m TestCaseInfo_scheme \<Rightarrow> TestSpec \<Rightarrow> Config \<Rightarrow> bool" where
  "matchTest t spec config \<longleftrightarrow> TestSpec_matches spec t \<and> isThrowSafe t (allowThrows config)"

definition filterTests ::
  "'m TestCaseInfo_scheme list \<Rightarrow> TestSpec \<Rightarrow> Config \<Rightarrow> 'm TestCaseInfo_scheme list" where
  "filterTests testCases spec config =
     filter (\<lambda>t. \<not> hasFilters spec \<and> \<not> isHidden t \<or> hasFilters spec \<and> matchTest t spec config) testCases"

text \<open>\<open>TestGroup\<close>: the selected tests, in the order of \<open>allTestCases\<close> (a set of pointers into it).\<close>

definition group_tests ::
  "'m TestCaseInfo_scheme list \<Rightarrow> Config \<Rightarrow>
   (string \<times> 'm TestCaseInfo_scheme list) list \<times> 'm TestCaseInfo_scheme list" where
  "group_tests allTestCases config =
     (let matches = matchesByFilter (cfg_testSpec config) allTestCases (allowThrows config) in
      (matches,
       if matches = [] \<and> invalidArgs (cfg_testSpec config) = []
       then filter (\<lambda>t. \<not> isHidden t) allTestCases
       else filter (\<lambda>t. \<exists>m \<in> set matches. t \<in> set (snd m)) allTestCases))"

definition find_last_of :: "string \<Rightarrow> string \<Rightarrow> nat option" where
  "find_last_of s chars = find (\<lambda>i. s ! i \<in> set chars) (rev [0..<length s])"

definition filename_tag :: "string \<Rightarrow> string" where
  "filename_tag file =
     (let f1 = (case find_last_of file [CHR 0x5C, CHR ''/''] of
                  Some lastSlash \<Rightarrow> (drop lastSlash file)[0 := CHR ''#'']
                | None \<Rightarrow> file) in
      case find_last_of f1 ''.'' of
        Some lastDot \<Rightarrow> take lastDot f1
      | None \<Rightarrow> f1)"

definition applyFilenamesAsTags :: "'m TestCaseInfo_scheme list \<Rightarrow> 'm TestCaseInfo_scheme list" where
  "applyFilenamesAsTags ts =
     map (\<lambda>t. setTags t (tags t @ [filename_tag (src_file (lineInfo t))])) ts"

section \<open>Listing\<close>

record TagInfo =
  spellings :: "string list"
  tag_count :: nat

definition TagInfo_add :: "string \<Rightarrow> TagInfo \<Rightarrow> TagInfo" where
  "TagInfo_add spelling i = i\<lparr>tag_count := tag_count i + 1, spellings := insort_insert spelling (spellings i)\<rparr>"

definition TagInfo_all :: "TagInfo \<Rightarrow> string" where
  "TagInfo_all i = concat (map (\<lambda>sp. CHR ''['' # sp @ [CHR '']'']) (spellings i))"

definition count_tag :: "string \<Rightarrow> (string \<times> TagInfo) list \<Rightarrow> (string \<times> TagInfo) list" where
  "count_tag tagName counts =
     (let lc = toLower tagName;
          known = (case map_of counts lc of
              None \<Rightarrow> insort_key fst (lc, \<lparr>spellings = [], tag_count = 0\<rparr>) counts
            | Some _ \<Rightarrow> counts) in
      map (\<lambda>(k, i). (k, if k = lc then TagInfo_add tagName i else i)) known)"

definition count_tags :: "'m TestCaseInfo_scheme list \<Rightarrow> (string \<times> TagInfo) list" where
  "count_tags ts = fold count_tag (concat (map tags ts)) []"

end
