(* ===== verification/Catch_Run_Context.thy ===== *)
theory Catch_Run_Context
  imports Catch_Tracking Catch_Totals Catch_Registry
begin

text \<open>
  \<open>catch_run_context.cpp\<close> with \<open>catch_assertionhandler.cpp\<close> and \<open>catch_section.cpp\<close>: how a
  test case is run, and what assertions and sections do to the counters, the trackers and the
  control flow. The reporter is an interface; its calls are the list \<open>reports\<close>.
\<close>

section \<open>State\<close>

record MessageInfo =
  mi_macroName :: string
  mi_message :: string
  mi_lineInfo :: SourceLineInfo
  mi_type :: ResultWas
  mi_sequence :: u32

record SectionInfo =
  sec_name :: string
  sec_lineInfo :: SourceLineInfo

record SectionEndInfo =
  sectionInfo :: SectionInfo
  prevAssertions :: Counts

record GroupInfo =
  gi_name :: string
  groupIndex :: nat
  groupsCounts :: nat

datatype report =
    Report_testRunStarting string
  | Report_testGroupStarting GroupInfo
  | Report_assertionStarting AssertionInfo
  | Report_assertionEnded AssertionResult "MessageInfo list" Totals
  | Report_sectionStarting SectionInfo
  | Report_sectionEnded SectionInfo Counts bool
  | Report_testCaseStarting TestCaseInfo
  | Report_testCaseEnded TestCaseInfo Totals bool
  | Report_testGroupEnded GroupInfo Totals bool
  | Report_testRunEnded string Totals bool
  | Report_skipTest TestCaseInfo
  | Report_noMatchingTestCases string
  | Report_invalidArguments string
  | Report_fatalErrorEncountered string

record 'g RunContext =
  m_config :: Config
  m_totals :: Totals
  m_trackerContext :: "'g TrackerContext"
  m_activeTestCase :: "TestCaseInfo option"
  m_testCaseTracker :: "nat option"
  m_activeSections :: "nat list"
  m_unfinishedSections :: "SectionEndInfo list"
  m_messages :: "MessageInfo list"
  m_messageScopes :: "MessageInfo list"
  m_lastAssertionInfo :: AssertionInfo
  m_lastAssertionPassed :: bool
  m_lastResult :: "AssertionResult option"
  m_shouldReportUnexpected :: bool
  m_includeSuccessfulResults :: bool
  reports :: "report list"

definition report :: "report \<Rightarrow> 'g RunContext \<Rightarrow> 'g RunContext" where
  "report r rc = rc\<lparr>reports := reports rc @ [r]\<rparr>"

definition initial_info :: AssertionInfo where
  "initial_info = \<lparr>macroName = '''', ai_lineInfo = \<lparr>src_file = '''', src_line = 0\<rparr>,
     capturedExpression = '''', resultDisposition = Normal\<rparr>"

text \<open>\<open>reportAll\<close>: the preference \<open>shouldReportAllAssertions\<close> of the reporter.\<close>

definition RunContext_new :: "Config \<Rightarrow> bool \<Rightarrow> 'g RunContext" where
  "RunContext_new cfg reportAll = \<lparr>m_config = cfg, m_totals = Totals_zero,
     m_trackerContext = TrackerContext_new, m_activeTestCase = None, m_testCaseTracker = None,
     m_activeSections = [], m_unfinishedSections = [], m_messages = [], m_messageScopes = [],
     m_lastAssertionInfo = initial_info, m_lastAssertionPassed = False, m_lastResult = None,
     m_shouldReportUnexpected = True,
     m_includeSuccessfulResults = (showSuccessfulTests (cfg_data cfg) \<or> reportAll),
     reports = [Report_testRunStarting (config_name cfg)]\<rparr>"

definition aborting :: "'g RunContext \<Rightarrow> bool" where
  "aborting rc \<longleftrightarrow> failed (assertions (m_totals rc)) \<ge> word_of_int (abortAfter (cfg_data (m_config rc)))"

definition RunContext_delete :: "'g RunContext \<Rightarrow> 'g RunContext" where
  "RunContext_delete rc = report (Report_testRunEnded (config_name (m_config rc)) (m_totals rc) (aborting rc)) rc"

definition testGroupStarting :: "string \<Rightarrow> nat \<Rightarrow> nat \<Rightarrow> 'g RunContext \<Rightarrow> 'g RunContext" where
  "testGroupStarting nm index count =
     report (Report_testGroupStarting \<lparr>gi_name = nm, groupIndex = index, groupsCounts = count\<rparr>)"

definition testGroupEnded :: "string \<Rightarrow> Totals \<Rightarrow> nat \<Rightarrow> nat \<Rightarrow> 'g RunContext \<Rightarrow> 'g RunContext" where
  "testGroupEnded nm totals index count rc =
     report (Report_testGroupEnded \<lparr>gi_name = nm, groupIndex = index, groupsCounts = count\<rparr>
       totals (aborting rc)) rc"

section \<open>Messages\<close>

definition pushScopedMessage :: "MessageInfo \<Rightarrow> 'g RunContext \<Rightarrow> 'g RunContext" where
  "pushScopedMessage m rc = rc\<lparr>m_messages := m_messages rc @ [m]\<rparr>"

definition popScopedMessage :: "MessageInfo \<Rightarrow> 'g RunContext \<Rightarrow> 'g RunContext" where
  "popScopedMessage m rc =
     rc\<lparr>m_messages := filter (\<lambda>m'. mi_sequence m' \<noteq> mi_sequence m) (m_messages rc)\<rparr>"

text \<open>The constructor of the \<open>ScopedMessage\<close> pushes its message, its destructor pops it.\<close>

definition emplaceUnscopedMessage :: "MessageInfo \<Rightarrow> 'g RunContext \<Rightarrow> 'g RunContext" where
  "emplaceUnscopedMessage m rc =
     (let rc' = pushScopedMessage m rc in rc'\<lparr>m_messageScopes := m_messageScopes rc' @ [m]\<rparr>)"

definition clear_messageScopes :: "'g RunContext \<Rightarrow> 'g RunContext" where
  "clear_messageScopes rc = (fold popScopedMessage (m_messageScopes rc) rc)\<lparr>m_messageScopes := []\<rparr>"

section \<open>Assertions\<close>

definition getCurrentTestName :: "'g RunContext \<Rightarrow> string" where
  "getCurrentTestName rc = (case m_activeTestCase rc of Some t \<Rightarrow> tc_name t | None \<Rightarrow> '''')"

definition exceptionEarlyReported :: "'g RunContext \<Rightarrow> 'g RunContext" where
  "exceptionEarlyReported rc = rc\<lparr>m_shouldReportUnexpected := False\<rparr>"

definition resetAssertionInfo :: "'g RunContext \<Rightarrow> 'g RunContext" where
  "resetAssertionInfo rc = rc\<lparr>m_lastAssertionInfo := (m_lastAssertionInfo rc)\<lparr>macroName := '''',
     capturedExpression := ''{Unknown expression after the reported line}''\<rparr>\<rparr>"

definition count_assertion :: "(Counts \<Rightarrow> Counts) \<Rightarrow> 'g RunContext \<Rightarrow> 'g RunContext" where
  "count_assertion f rc = rc\<lparr>m_totals := (m_totals rc)\<lparr>assertions := f (assertions (m_totals rc))\<rparr>\<rparr>"

definition inc_passed :: "Counts \<Rightarrow> Counts" where "inc_passed cs = cs\<lparr>passed := passed cs + 1\<rparr>"
definition inc_failed :: "Counts \<Rightarrow> Counts" where "inc_failed cs = cs\<lparr>failed := failed cs + 1\<rparr>"

definition inc_failedButOk :: "Counts \<Rightarrow> Counts" where
  "inc_failedButOk cs = cs\<lparr>failedButOk := failedButOk cs + 1\<rparr>"

text \<open>\<open>m_activeTestCase->getTestCaseInfo().okToFail()\<close>\<close>

definition active_okToFail :: "'g RunContext \<Rightarrow> bool" where
  "active_okToFail rc = (case m_activeTestCase rc of Some t \<Rightarrow> okToFail t | None \<Rightarrow> False)"

definition count_result :: "AssertionResult \<Rightarrow> 'g RunContext \<Rightarrow> 'g RunContext" where
  "count_result result rc =
     (if resultType result = Ok
      then (count_assertion inc_passed rc)\<lparr>m_lastAssertionPassed := True\<rparr>
      else if \<not> AssertionResult_isOk result
      then count_assertion (if active_okToFail rc then inc_failedButOk else inc_failed)
             (rc\<lparr>m_lastAssertionPassed := False\<rparr>)
      else rc\<lparr>m_lastAssertionPassed := True\<rparr>)"

definition assertionEnded :: "AssertionResult \<Rightarrow> 'g RunContext \<Rightarrow> 'g RunContext" where
  "assertionEnded result rc =
     (let rc1 = count_result result rc;
          rc2 = report (Report_assertionEnded result (m_messages rc1) (m_totals rc1)) rc1;
          rc3 = (if resultType result \<noteq> Warning then clear_messageScopes rc2 else rc2) in
      (resetAssertionInfo rc3)\<lparr>m_lastResult := Some result\<rparr>)"

definition assertionPassed :: "'g RunContext \<Rightarrow> 'g RunContext" where
  "assertionPassed rc =
     clear_messageScopes (resetAssertionInfo (count_assertion inc_passed (rc\<lparr>m_lastAssertionPassed := True\<rparr>)))"

record AssertionReaction =
  reactBreak :: bool
  shouldThrow :: bool

definition no_reaction :: AssertionReaction where
  "no_reaction = \<lparr>reactBreak = False, shouldThrow = False\<rparr>"

definition populateReaction :: "'g RunContext \<Rightarrow> AssertionReaction" where
  "populateReaction rc = \<lparr>reactBreak = shouldDebugBreak (cfg_data (m_config rc)),
     shouldThrow = (aborting rc \<or> resultDisposition (m_lastAssertionInfo rc) AND Normal \<noteq> 0)\<rparr>"

definition make_result :: "AssertionInfo \<Rightarrow> ResultWas \<Rightarrow> string \<Rightarrow> string \<Rightarrow> AssertionResult" where
  "make_result info ty text message =
     \<lparr>m_info = info, res_message = message, reconstructedExpression = text, resultType = ty\<rparr>"

definition reportExpr :: "AssertionInfo \<Rightarrow> ResultWas \<Rightarrow> string \<Rightarrow> 'g RunContext \<Rightarrow> 'g RunContext" where
  "reportExpr info ty text rc =
     assertionEnded (make_result info ty text '''') (rc\<lparr>m_lastAssertionInfo := info\<rparr>)"

text \<open>
  An expression is its value and the text it expands to. A handler returns the reaction: what it
  stores into the reference it is given, or the reaction as it was.
\<close>

definition handleExpr ::
  "AssertionInfo \<Rightarrow> bool \<Rightarrow> string \<Rightarrow> 'g RunContext \<Rightarrow> AssertionReaction \<times> 'g RunContext" where
  "handleExpr info value text rc0 =
     (let rc = report (Report_assertionStarting info) rc0;
          negated = isFalseTest (resultDisposition info) in
      if value \<noteq> negated
      then (no_reaction,
            if \<not> m_includeSuccessfulResults rc then assertionPassed rc else reportExpr info Ok text rc)
      else let rc' = reportExpr info ExpressionFailed text rc in (populateReaction rc', rc'))"

definition handleMessage ::
  "AssertionInfo \<Rightarrow> ResultWas \<Rightarrow> string \<Rightarrow> 'g RunContext \<Rightarrow> AssertionReaction \<times> 'g RunContext" where
  "handleMessage info ty message rc0 =
     (let rc = (report (Report_assertionStarting info) rc0)\<lparr>m_lastAssertionInfo := info\<rparr>;
          result = make_result info ty '''' message;
          rc' = assertionEnded result rc in
      (if \<not> AssertionResult_isOk result then populateReaction rc' else no_reaction, rc'))"

definition handleUnexpectedInflightException ::
  "AssertionInfo \<Rightarrow> string \<Rightarrow> 'g RunContext \<Rightarrow> AssertionReaction \<times> 'g RunContext" where
  "handleUnexpectedInflightException info message rc =
     (let rc' = assertionEnded (make_result info ThrewException '''' message) (rc\<lparr>m_lastAssertionInfo := info\<rparr>) in
      (populateReaction rc', rc'))"

definition handleIncomplete :: "AssertionInfo \<Rightarrow> 'g RunContext \<Rightarrow> 'g RunContext" where
  "handleIncomplete info rc =
     assertionEnded (make_result info ThrewException ''''
       ''Exception translation was disabled by CATCH_CONFIG_FAST_COMPILE'')
       (rc\<lparr>m_lastAssertionInfo := info\<rparr>)"

definition handleNonExpr ::
  "AssertionInfo \<Rightarrow> ResultWas \<Rightarrow> 'g RunContext \<Rightarrow> AssertionReaction \<times> 'g RunContext" where
  "handleNonExpr info ty rc =
     (let result = make_result info ty '''' '''';
          rc' = assertionEnded result (rc\<lparr>m_lastAssertionInfo := info\<rparr>) in
      (if \<not> AssertionResult_isOk result then populateReaction rc' else no_reaction, rc'))"

definition handleUnexpectedExceptionNotThrown ::
  "AssertionInfo \<Rightarrow> 'g RunContext \<Rightarrow> AssertionReaction \<times> 'g RunContext" where
  "handleUnexpectedExceptionNotThrown info = handleNonExpr info DidntThrowException"

text \<open>
  How the test case goes on after a statement: it does, it ends with a \<open>TestFailureException\<close>
  or with another exception (whose translation is the string).
\<close>

datatype test_exit = Returned | TestFailure | Unexpected string

definition complete :: "AssertionReaction \<Rightarrow> test_exit" where
  "complete reaction = (if shouldThrow reaction then TestFailure else Returned)"

text \<open>An assertion macro on an expression that does not throw: \<open>handleExpr\<close>, \<open>complete\<close>.\<close>

definition assert_macro ::
  "AssertionInfo \<Rightarrow> bool \<Rightarrow> string \<Rightarrow> 'g RunContext \<Rightarrow> test_exit \<times> 'g RunContext" where
  "assert_macro info value text rc =
     (let (reaction, rc') = handleExpr info value text rc in (complete reaction, rc'))"

section \<open>Sections\<close>

definition sectionStarted ::
  "SectionInfo \<Rightarrow> 'g RunContext \<Rightarrow> catch_error + ((bool \<times> Counts) \<times> 'g RunContext)" where
  "sectionStarted info rc =
     (case SectionTracker_acquire \<lparr>nl_name = sec_name info, nl_location = sec_lineInfo info\<rparr>
             (m_trackerContext rc) of
        Inl e \<Rightarrow> Inl e
      | Inr (t, tc) \<Rightarrow>
          let rc1 = rc\<lparr>m_trackerContext := tc\<rparr> in
          if \<not> isOpen (tracker_at tc t) then Inr ((False, Counts_zero), rc1)
          else
            let rc2 = report (Report_sectionStarting info) (rc1\<lparr>m_activeSections := m_activeSections rc1 @ [t],
                  m_lastAssertionInfo := (m_lastAssertionInfo rc1)\<lparr>ai_lineInfo := sec_lineInfo info\<rparr>\<rparr>) in
            Inr ((True, assertions (m_totals rc2)), rc2))"

definition acquireGeneratorTracker ::
  "string \<Rightarrow> SourceLineInfo \<Rightarrow> 'g RunContext \<Rightarrow> catch_error + (nat \<times> 'g RunContext)" where
  "acquireGeneratorTracker generatorName loc rc =
     (case GeneratorTracker_acquire \<lparr>nl_name = generatorName, nl_location = loc\<rparr> (m_trackerContext rc) of
        Inl e \<Rightarrow> Inl e
      | Inr (t, tc) \<Rightarrow> Inr (t, rc\<lparr>m_trackerContext := tc,
          m_lastAssertionInfo := (m_lastAssertionInfo rc)\<lparr>ai_lineInfo := loc\<rparr>\<rparr>))"

text \<open>Whether assertions are missing, and the counts with the failure this adds.\<close>

definition testForMissingAssertions ::
  "Counts \<Rightarrow> 'g RunContext \<Rightarrow> catch_error + ((bool \<times> Counts) \<times> 'g RunContext)" where
  "testForMissingAssertions cs rc =
     (if Counts_total cs \<noteq> 0 \<or> \<not> warnAboutMissingAssertions (m_config rc) then Inr ((False, cs), rc)
      else case currentTracker (m_trackerContext rc) of
        None \<Rightarrow> Inl Assert_Failed
      | Some cur \<Rightarrow>
          if hasChildren (tracker_at (m_trackerContext rc) cur) then Inr ((False, cs), rc)
          else Inr ((True, inc_failed cs), count_assertion inc_failed rc))"

definition close_section ::
  "('g \<Rightarrow> bool \<times> 'g) \<Rightarrow> nat \<Rightarrow> 'g RunContext \<Rightarrow> catch_error + 'g RunContext" where
  "close_section next_value t rc =
     map_sum id (\<lambda>tc. rc\<lparr>m_trackerContext := tc\<rparr>) (close next_value t (m_trackerContext rc))"

definition sectionEnded ::
  "('g \<Rightarrow> bool \<times> 'g) \<Rightarrow> SectionEndInfo \<Rightarrow> 'g RunContext \<Rightarrow> catch_error + 'g RunContext" where
  "sectionEnded next_value endInfo rc =
     (case testForMissingAssertions (Counts_minus (assertions (m_totals rc)) (prevAssertions endInfo)) rc of
        Inl e \<Rightarrow> Inl e
      | Inr ((missing, cs), rc1) \<Rightarrow>
          (case (if m_activeSections rc1 \<noteq> []
                 then map_sum id (\<lambda>r. r\<lparr>m_activeSections := butlast (m_activeSections r)\<rparr>)
                        (close_section next_value (last (m_activeSections rc1)) rc1)
                 else Inr rc1) of
             Inl e \<Rightarrow> Inl e
           | Inr rc2 \<Rightarrow>
               Inr (clear_messageScopes
                 ((report (Report_sectionEnded (sectionInfo endInfo) cs missing) rc2)\<lparr>m_messages := []\<rparr>))))"

definition sectionEndedEarly ::
  "('g \<Rightarrow> bool \<times> 'g) \<Rightarrow> SectionEndInfo \<Rightarrow> 'g RunContext \<Rightarrow> catch_error + 'g RunContext" where
  "sectionEndedEarly next_value endInfo rc =
     (if m_activeSections rc = [] then Inl Assert_Failed
      else
        let t = last (m_activeSections rc) in
        case (if m_unfinishedSections rc = []
              then map_sum id (\<lambda>tc. rc\<lparr>m_trackerContext := tc\<rparr>) (fail_tracker t (m_trackerContext rc))
              else close_section next_value t rc) of
          Inl e \<Rightarrow> Inl e
        | Inr rc1 \<Rightarrow> Inr (rc1\<lparr>m_activeSections := butlast (m_activeSections rc1),
            m_unfinishedSections := m_unfinishedSections rc1 @ [endInfo]\<rparr>))"

fun end_sections ::
  "('g \<Rightarrow> bool \<times> 'g) \<Rightarrow> SectionEndInfo list \<Rightarrow> 'g RunContext \<Rightarrow> catch_error + 'g RunContext" where
  "end_sections next_value [] rc = Inr rc"
| "end_sections next_value (i # is) rc =
     (case sectionEnded next_value i rc of Inl e \<Rightarrow> Inl e | Inr rc' \<Rightarrow> end_sections next_value is rc')"

definition handleUnfinishedSections ::
  "('g \<Rightarrow> bool \<times> 'g) \<Rightarrow> 'g RunContext \<Rightarrow> catch_error + 'g RunContext" where
  "handleUnfinishedSections next_value rc =
     (case end_sections next_value (rev (m_unfinishedSections rc)) rc of
        Inl e \<Rightarrow> Inl e
      | Inr rc' \<Rightarrow> Inr (rc'\<lparr>m_unfinishedSections := []\<rparr>))"

text \<open>
  A \<open>SECTION\<close> around a body: the constructor and destructor of \<open>Section\<close>. The destructor runs
  while an exception leaves the body (\<open>uncaught_exceptions()\<close>), or after it; an exception in
  the destructor ends the program.
\<close>

type_synonym 'g test_body = "'g RunContext \<Rightarrow> (catch_error + (test_exit \<times> 'g RunContext)) option"

definition section_block :: "('g \<Rightarrow> bool \<times> 'g) \<Rightarrow> SectionInfo \<Rightarrow> 'g test_body \<Rightarrow> 'g test_body" where
  "section_block next_value info body rc =
     (case sectionStarted info rc of
        Inl e \<Rightarrow> Some (Inl e)
      | Inr ((included, prev), rc1) \<Rightarrow>
          if \<not> included then Some (Inr (Returned, rc1))
          else (case body rc1 of
            None \<Rightarrow> None
          | Some (Inl e) \<Rightarrow> Some (Inl e)
          | Some (Inr (ex, rc2)) \<Rightarrow>
              let endInfo = \<lparr>sectionInfo = info, prevAssertions = prev\<rparr> in
              Some (map_sum (\<lambda>_. Assert_Failed) (\<lambda>rc3. (ex, rc3))
                (if ex = Returned then sectionEnded next_value endInfo rc2
                 else sectionEndedEarly next_value endInfo rc2))))"

section \<open>Running a test case\<close>

definition handleFatalErrorCondition ::
  "('g \<Rightarrow> bool \<times> 'g) \<Rightarrow> string \<Rightarrow> 'g RunContext \<Rightarrow> catch_error + 'g RunContext" where
  "handleFatalErrorCondition next_value message rc =
     (case m_activeTestCase rc of
        None \<Rightarrow> Inl Assert_Failed
      | Some info \<Rightarrow>
          let rc1 = report (Report_fatalErrorEncountered message) rc;
              rc2 = assertionEnded (make_result (m_lastAssertionInfo rc1) FatalErrorCondition '''' message) rc1 in
          (case handleUnfinishedSections next_value rc2 of
             Inl e \<Rightarrow> Inl e
           | Inr rc3 \<Rightarrow>
               let one = inc_failed Counts_zero;
                   rc4 = report (Report_sectionEnded \<lparr>sec_name = tc_name info, sec_lineInfo = lineInfo info\<rparr> one False) rc3;
                   rc5 = report (Report_testCaseEnded info (Totals_zero\<lparr>assertions := one, testCases := one\<rparr>) False) rc4;
                   rc6 = rc5\<lparr>m_totals := (m_totals rc5)\<lparr>testCases := inc_failed (testCases (m_totals rc5))\<rparr>\<rparr>;
                   rc7 = testGroupEnded '''' (m_totals rc6) 1 1 rc6 in
               Inr (report (Report_testRunEnded (config_name (m_config rc7)) (m_totals rc7) False) rc7)))"

definition runCurrentTest ::
  "('g \<Rightarrow> bool \<times> 'g) \<Rightarrow> 'g test_body \<Rightarrow> TestCaseInfo \<Rightarrow> nat \<Rightarrow> 'g RunContext \<Rightarrow>
   (catch_error + 'g RunContext) option" where
  "runCurrentTest next_value invoke info tracker rc =
     (let sect = \<lparr>sec_name = tc_name info, sec_lineInfo = lineInfo info\<rparr>;
          rc1 = report (Report_sectionStarting sect) rc;
          prev = assertions (m_totals rc1);
          rc2 = rc1\<lparr>m_shouldReportUnexpected := True,
            m_lastAssertionInfo := \<lparr>macroName = ''TEST_CASE'', ai_lineInfo = lineInfo info,
              capturedExpression = '''', resultDisposition = Normal\<rparr>\<rparr> in
      case invoke rc2 of
        None \<Rightarrow> None
      | Some (Inl e) \<Rightarrow> Some (Inl e)
      | Some (Inr (ex, rc3)) \<Rightarrow>
          let rc4 = (case ex of
                Unexpected message \<Rightarrow>
                  if m_shouldReportUnexpected rc3
                  then snd (handleUnexpectedInflightException (m_lastAssertionInfo rc3) message rc3) else rc3
              | _ \<Rightarrow> rc3) in
          Some (case testForMissingAssertions (Counts_minus (assertions (m_totals rc4)) prev) rc4 of
             Inl e \<Rightarrow> Inl e
           | Inr ((missing, cs), rc5) \<Rightarrow>
               (case close_section next_value tracker rc5 of
                  Inl e \<Rightarrow> Inl e
                | Inr rc6 \<Rightarrow>
                    (case handleUnfinishedSections next_value rc6 of
                       Inl e \<Rightarrow> Inl e
                     | Inr rc7 \<Rightarrow>
                         Inr (report (Report_sectionEnded sect cs missing)
                           (clear_messageScopes (rc7\<lparr>m_messages := []\<rparr>)))))))"

text \<open>The loop of \<open>runTest\<close>: one cycle after another until the test case is complete.\<close>

partial_function (option) cycles ::
  "('g \<Rightarrow> bool \<times> 'g) \<Rightarrow> 'g test_body \<Rightarrow> TestCaseInfo \<Rightarrow> 'g RunContext \<Rightarrow>
   (catch_error + 'g RunContext) option" where
  "cycles next_value invoke info rc =
     (case SectionTracker_acquire \<lparr>nl_name = tc_name info, nl_location = lineInfo info\<rparr>
             (startCycle (m_trackerContext rc)) of
        Inl e \<Rightarrow> Some (Inl e)
      | Inr (t, tc) \<Rightarrow>
          (case runCurrentTest next_value invoke info t
                  (rc\<lparr>m_trackerContext := tc, m_testCaseTracker := Some t\<rparr>) of
             None \<Rightarrow> None
           | Some (Inl e) \<Rightarrow> Some (Inl e)
           | Some (Inr rc1) \<Rightarrow>
               if \<not> isSuccessfullyCompleted (tracker_at (m_trackerContext rc1) t) \<and> \<not> aborting rc1
               then cycles next_value invoke info rc1
               else Some (Inr rc1)))"

text \<open>The end of \<open>runTest\<close>; a test case that must fail and has passed is a failure.\<close>

definition expected_failure :: "TestCaseInfo \<Rightarrow> Totals \<Rightarrow> Totals" where
  "expected_failure info d =
     (if expectedToFail info \<and> passed (testCases d) > 0
      then d\<lparr>assertions := inc_failed (assertions d),
             testCases := (testCases d)\<lparr>passed := passed (testCases d) - 1, failed := failed (testCases d) + 1\<rparr>\<rparr>
      else d)"

definition test_ended :: "TestCaseInfo \<Rightarrow> Totals \<Rightarrow> 'g RunContext \<Rightarrow> Totals \<times> 'g RunContext" where
  "test_ended info prevTotals rc =
     (let deltaTotals = expected_failure info (Totals_delta (m_totals rc) prevTotals);
          rc1 = rc\<lparr>m_totals := (m_totals rc)\<lparr>testCases := Counts_plus (testCases (m_totals rc)) (testCases deltaTotals)\<rparr>\<rparr>;
          rc2 = report (Report_testCaseEnded info deltaTotals (aborting rc1)) rc1 in
      (deltaTotals, rc2\<lparr>m_activeTestCase := None, m_testCaseTracker := None\<rparr>))"

definition runTest ::
  "('g \<Rightarrow> bool \<times> 'g) \<Rightarrow> 'g test_body \<Rightarrow> SourceLineInfo \<Rightarrow> TestCaseInfo \<Rightarrow> 'g RunContext \<Rightarrow>
   (catch_error + (Totals \<times> 'g RunContext)) option" where
  "runTest next_value invoke here info rc =
     (let prevTotals = m_totals rc;
          rc1 = (report (Report_testCaseStarting info) rc)\<lparr>m_activeTestCase := Some info\<rparr>;
          (root, tc) = startRun here (m_trackerContext rc1);
          tc' = add_root_filters root (sectionsToRun (cfg_data (m_config rc1))) tc in
      map_option (map_sum id (test_ended info prevTotals))
        (cycles next_value invoke info (rc1\<lparr>m_trackerContext := tc'\<rparr>)))"

end
