(* ===== verification/Catch_Session.thy ===== *)
theory Catch_Session
  imports Catch_Run_Context
begin

text \<open>
  \<open>catch_session.cpp\<close>: the run of the selected tests and the exit code of the program.
  \<open>bodies\<close> is what the invokers call, \<open>here\<close> the place of the root tracker, \<open>factories\<close> the
  names of the registered reporters. Waiting for a key, \<open>showHelp\<close> and \<open>libIdentify\<close> only
  write and read the terminal; seeding \<open>rand\<close> does not touch the framework's state.
\<close>

section \<open>TestGroup\<close>

fun run_tests ::
  "('g \<Rightarrow> bool \<times> 'g) \<Rightarrow> ('i \<Rightarrow> 'g test_body) \<Rightarrow> SourceLineInfo \<Rightarrow> 'i TestCase list \<Rightarrow> Totals \<Rightarrow>
   'g RunContext \<Rightarrow> (catch_error + (Totals \<times> 'g RunContext)) option" where
  "run_tests next_value bodies here [] totals rc = Some (Inr (totals, rc))"
| "run_tests next_value bodies here (t # ts) totals rc =
     (let info = TestCaseInfo.truncate t in
      if \<not> aborting rc
      then (case runTest next_value (bodies (tc_test t)) here info rc of
              None \<Rightarrow> None
            | Some (Inl e) \<Rightarrow> Some (Inl e)
            | Some (Inr (d, rc')) \<Rightarrow> run_tests next_value bodies here ts (Totals_plus totals d) rc')
      else run_tests next_value bodies here ts totals (report (Report_skipTest info) rc))"

definition report_matches :: "(string \<times> 'a list) list \<Rightarrow> Totals \<Rightarrow> 'g RunContext \<Rightarrow> Totals \<times> 'g RunContext" where
  "report_matches matches totals rc =
     fold (\<lambda>m (tot, r). if snd m = [] then (tot\<lparr>error := -1\<rparr>, report (Report_noMatchingTestCases (fst m)) r)
                        else (tot, r)) matches (totals, rc)"

definition execute ::
  "('g \<Rightarrow> bool \<times> 'g) \<Rightarrow> ('i \<Rightarrow> 'g test_body) \<Rightarrow> SourceLineInfo \<Rightarrow>
   (string \<times> 'i TestCase list) list \<Rightarrow> 'i TestCase list \<Rightarrow> 'g RunContext \<Rightarrow>
   (catch_error + (Totals \<times> 'g RunContext)) option" where
  "execute next_value bodies here matches tests rc =
     map_option (map_sum id (\<lambda>(totals, rc1).
       let (totals2, rc2) = report_matches matches totals rc1;
           rc3 = fold (\<lambda>a. report (Report_invalidArguments a)) (invalidArgs (cfg_testSpec (m_config rc2))) rc2 in
       (totals2, testGroupEnded (config_name (m_config rc3)) totals2 1 1 rc3)))
       (run_tests next_value bodies here tests Totals_zero (testGroupStarting (config_name (m_config rc)) 1 1 rc))"

text \<open>A \<open>TestGroup\<close> from its construction to its end, where the \<open>RunContext\<close> is destroyed.\<close>

definition run_group ::
  "('g \<Rightarrow> bool \<times> 'g) \<Rightarrow> ('i \<Rightarrow> 'g test_body) \<Rightarrow> SourceLineInfo \<Rightarrow> Config \<Rightarrow> bool \<Rightarrow> 'i TestCase list \<Rightarrow>
   (catch_error + (Totals \<times> 'g RunContext)) option" where
  "run_group next_value bodies here config reportAll all =
     (let (matches, tests) = group_tests all config in
      map_option (map_sum id (\<lambda>(totals, rc). (totals, RunContext_delete rc)))
        (execute next_value bodies here matches tests (RunContext_new config reportAll)))"

section \<open>Session\<close>

definition MaxExitCode :: int where
  "MaxExitCode = 255"

definition exit_code :: "Totals \<Rightarrow> int" where
  "exit_code totals = min MaxExitCode (max (error totals) (sint (ucast (failed (assertions totals)) :: u32)))"

text \<open>\<open>list\<close>: how many tests, tags or reporters were listed, when anything was to be listed.\<close>

definition list_count :: "nat \<Rightarrow> Config \<Rightarrow> 'i TestCase list \<Rightarrow> nat option" where
  "list_count nReporters config tests =
     (let d = cfg_data config;
          matched = filterTests tests (cfg_testSpec config) config;
          add = (\<lambda>b n r. if b then Some ((case r of None \<Rightarrow> 0 | Some k \<Rightarrow> k) + n) else r) in
      add (listReporters d) nReporters
        (add (listTags d) (length (count_tags matched))
          (add (listTestNamesOnly d) (length matched)
            (add (listTests d) (length matched) None))))"

record 'i Session =
  configData :: ConfigData
  startupExceptions :: bool
  registry :: "('i, unit) TestCase_ext TestRegistry"
  aliases :: TagAliasRegistry

text \<open>A standard exception gives the exit code 255; a failed assertion ends the program.\<close>

definition caught :: "(catch_error + int) option \<Rightarrow> (catch_error + int) option" where
  "caught r =
     (case r of
        Some (Inl e) \<Rightarrow> if e = Assert_Failed then r else Some (Inr MaxExitCode)
      | _ \<Rightarrow> r)"

definition runInternal ::
  "('g \<Rightarrow> bool \<times> 'g) \<Rightarrow> ('i \<Rightarrow> 'g test_body) \<Rightarrow> SourceLineInfo \<Rightarrow> string list \<Rightarrow> bool \<Rightarrow> 'i Session \<Rightarrow>
   (catch_error + int) option" where
  "runInternal next_value bodies here factories reportAll s =
     (if startupExceptions s then Some (Inr 1)
      else if showHelp (configData s) \<or> libIdentify (configData s) then Some (Inr 0)
      else caught (case Config_new (aliases s) (configData s) of
        Inl e \<Rightarrow> Some (Inl e)
      | Inr config \<Rightarrow>
          (case getAllTestsSorted (cfg_data config) (registry s) of
             Inl e \<Rightarrow> Some (Inl e)
           | Inr (ordered, reg) \<Rightarrow>
               let all = (if filenamesAsTags (configData s) then applyFilenamesAsTags ordered else ordered) in
               (case list_count (length factories) config all of
                  Some n \<Rightarrow> Some (Inr (int n))
                | None \<Rightarrow>
                    if reporterName (cfg_data config) \<notin> set factories then Some (Inl (Internal_Error ''No reporter registered''))
                    else
                      map_option (map_sum id (\<lambda>(totals, rc).
                          if warnAboutNoTests config \<and> error totals = -1 then 2 else exit_code totals))
                        (run_group next_value bodies here config reportAll all)))))"

text \<open>\<open>run(argc, argv)\<close>: the parser of the command line gives an error or a configuration.\<close>

definition run_session ::
  "('g \<Rightarrow> bool \<times> 'g) \<Rightarrow> ('i \<Rightarrow> 'g test_body) \<Rightarrow> SourceLineInfo \<Rightarrow> string list \<Rightarrow> bool \<Rightarrow> option_result \<Rightarrow>
   'i Session \<Rightarrow> (catch_error + int) option" where
  "run_session next_value bodies here factories reportAll commandLine s =
     (if startupExceptions s then Some (Inr 1)
      else case commandLine of
        Inl message \<Rightarrow> Some (Inr MaxExitCode)
      | Inr config \<Rightarrow> runInternal next_value bodies here factories reportAll (s\<lparr>configData := config\<rparr>))"

end
