(* ===== verification/Catch_Command_Line.thy ===== *)
theory Catch_Command_Line
  imports Catch_Clara Catch_Session
begin

text \<open>
  \<open>catch_commandline.cpp\<close> and the \<open>Session\<close> that uses it: the options of the test program, the
  parsed command line as a configuration, and the run that it starts. \<open>Outside\<close> is what the
  options look at: the reporters that are registered, the files, the clock, and which texts the
  library reads as a floating point number.
\<close>

record Outside =
  registered_reporters :: "string list"
  read_file :: "string \<Rightarrow> string list option"
  time_now :: u32
  reads_double :: "string \<Rightarrow> bool"

section \<open>What the options are bound to\<close>

text \<open>A handler of \<open>Catch_Config\<close> as a lambda.\<close>

definition handler :: "(string \<Rightarrow> ConfigData \<Rightarrow> option_result) \<Rightarrow> ConfigData BoundRef" where
  "handler h = BoundValueRef False (\<lambda>arg config.
     case h arg config of Inl m \<Rightarrow> Inl (RuntimeError m) | Inr config' \<Rightarrow> Inr (Matched, config'))"

definition flag :: "(bool \<Rightarrow> ConfigData \<Rightarrow> ConfigData) \<Rightarrow> ConfigData BoundRef" where
  "flag set_it = BoundFlagRef (assigns set_it)"

definition value_of ::
  "(string \<Rightarrow> result_error + 'a) \<Rightarrow> ('a \<Rightarrow> ConfigData \<Rightarrow> ConfigData) \<Rightarrow> ConfigData BoundRef" where
  "value_of convert set_it = BoundValueRef False (invokeLambda convert (assigns set_it))"

definition vector_of :: "(string \<Rightarrow> ConfigData \<Rightarrow> ConfigData) \<Rightarrow> ConfigData BoundRef" where
  "vector_of push_back = BoundValueRef True (invokeLambda Inr (assigns push_back))"

definition setRngSeed :: "Outside \<Rightarrow> string \<Rightarrow> ConfigData \<Rightarrow> ConfigData ParserResult" where
  "setRngSeed outside seed config =
     (if seed \<noteq> ''time''
      then (case convertInto_unsigned seed of Inl e \<Rightarrow> Inl e | Inr v \<Rightarrow> Inr (Matched, config\<lparr>rngSeed := v\<rparr>))
      else Inr (Matched, config\<lparr>rngSeed := time_now outside\<rparr>))"

definition reads_value :: "Outside \<Rightarrow> ConfigData BoundRef" where
  "reads_value outside = BoundValueRef False (\<lambda>arg config.
     if reads_double outside arg then Inr (Matched, config) else Inl (conversion_error arg))"

section \<open>The parser\<close>

definition Opt_new :: "'c BoundRef \<Rightarrow> string \<Rightarrow> string list \<Rightarrow> string \<Rightarrow> 'c Opt" where
  "Opt_new ref hint optNames descr =
     \<lparr>m_optional = True, m_ref = ref, m_hint = hint, m_description = descr, m_optNames = optNames\<rparr>"

definition Help :: "ConfigData Opt" where
  "Help = Opt_new (BoundFlagRef (\<lambda>b config. Inr (ShortCircuitAll, config\<lparr>showHelp := b\<rparr>))) ''''
     [''-?'', ''-h'', ''--help''] ''display usage information''"

definition list_options :: "ConfigData Opt list" where
  "list_options =
     [Opt_new (flag (\<lambda>b. listTests_update (\<lambda>_. b))) '''' [''-l'', ''--list-tests''] ''list all/matching test cases'',
      Opt_new (flag (\<lambda>b. listTags_update (\<lambda>_. b))) '''' [''-t'', ''--list-tags''] ''list all/matching tags'']"

definition output_options :: "Outside \<Rightarrow> ConfigData Opt list" where
  "output_options outside =
     [Opt_new (flag (\<lambda>b. showSuccessfulTests_update (\<lambda>_. b))) '''' [''-s'', ''--success'']
        ''include successful tests in output'',
      Opt_new (flag (\<lambda>b. shouldDebugBreak_update (\<lambda>_. b))) '''' [''-b'', ''--break''] ''break into debugger on failure'',
      Opt_new (flag (\<lambda>b. noThrow_update (\<lambda>_. b))) '''' [''-e'', ''--nothrow''] ''skip exception tests'',
      Opt_new (flag (\<lambda>b. showInvisibles_update (\<lambda>_. b))) '''' [''-i'', ''--invisibles''] ''show invisibles (tabs, newlines)'',
      Opt_new (value_of Inr (\<lambda>s. outputFilename_update (\<lambda>_. s))) ''filename'' [''-o'', ''--out''] ''output filename'',
      Opt_new (handler (setReporter (registered_reporters outside))) ''name'' [''-r'', ''--reporter'']
        ''reporter to use (defaults to console)'',
      Opt_new (value_of Inr (\<lambda>s. cfg_name_update (\<lambda>_. s))) ''name'' [''-n'', ''--name''] ''suite name'']"

definition run_options :: "Outside \<Rightarrow> ConfigData Opt list" where
  "run_options outside =
     [Opt_new (flag (\<lambda>b. abortAfter_update (\<lambda>_. 1))) '''' [''-a'', ''--abort''] ''abort at first failure'',
      Opt_new (value_of (convertInto_int 32) (\<lambda>x. abortAfter_update (\<lambda>_. x))) ''no. failures'' [''-x'', ''--abortx'']
        ''abort after x failures'',
      Opt_new (handler setWarning) ''warning name'' [''-w'', ''--warn''] ''enable warnings'',
      Opt_new (value_of convertInto_bool (\<lambda>b. showDurations_update (\<lambda>_. if b then Always else Never_durations)))
        ''yes|no'' [''-d'', ''--durations''] ''show test durations'',
      Opt_new (reads_value outside) ''seconds'' [''-D'', ''--min-duration'']
        ''show test durations for tests taking at least the given number of seconds'',
      Opt_new (handler (\<lambda>f. loadTestNamesFromFile (read_file outside f) f)) ''filename'' [''-f'', ''--input-file'']
        ''load test names to run from a file'',
      Opt_new (flag (\<lambda>b. filenamesAsTags_update (\<lambda>_. b))) '''' [''-#'', ''--filenames-as-tags'']
        ''adds a tag for the filename'',
      Opt_new (vector_of (\<lambda>s. sectionsToRun_update (\<lambda>ss. ss @ [s]))) ''section name'' [''-c'', ''--section'']
        ''specify section to run'',
      Opt_new (handler setVerbosity) ''quiet|normal|high'' [''-v'', ''--verbosity''] ''set output verbosity'']"

definition long_options :: "Outside \<Rightarrow> ConfigData Opt list" where
  "long_options outside =
     [Opt_new (flag (\<lambda>b. listTestNamesOnly_update (\<lambda>_. b))) '''' [''--list-test-names-only'']
        ''list all/matching test cases names only'',
      Opt_new (flag (\<lambda>b. listReporters_update (\<lambda>_. b))) '''' [''--list-reporters''] ''list all reporters'',
      Opt_new (handler setTestOrder) ''decl|lex|rand'' [''--order''] ''test case order (defaults to decl)'',
      Opt_new (BoundValueRef False (setRngSeed outside)) (quoted ''time'' @ ''|number'') [''--rng-seed'']
        ''set a specific seed for random numbers'',
      Opt_new (handler setColourUsage) ''yes|no'' [''--use-colour''] ''should output be colourised'',
      Opt_new (flag (\<lambda>b. libIdentify_update (\<lambda>_. b))) '''' [''--libidentify'']
        ''report name and version according to libidentify standard'',
      Opt_new (handler setWaitForKeypress) ''never|start|exit|both'' [''--wait-for-keypress'']
        ''waits for a keypress before exiting'']"

definition benchmark_options :: "Outside \<Rightarrow> ConfigData Opt list" where
  "benchmark_options outside =
     [Opt_new (value_of convertInto_unsigned (\<lambda>v. benchmarkSamples_update (\<lambda>_. v))) ''samples''
        [''--benchmark-samples''] ''number of samples to collect (default: 100)'',
      Opt_new (value_of convertInto_unsigned (\<lambda>v. benchmarkResamples_update (\<lambda>_. v))) ''resamples''
        [''--benchmark-resamples''] ''number of resamples for the bootstrap (default: 100000)'',
      Opt_new (reads_value outside) ''confidence interval'' [''--benchmark-confidence-interval'']
        ''confidence interval for the bootstrap (between 0 and 1, default: 0.95)'',
      Opt_new (flag (\<lambda>b. benchmarkNoAnalysis_update (\<lambda>_. b))) '''' [''--benchmark-no-analysis'']
        ''perform only measurements; do not perform any analysis'',
      Opt_new (value_of (convertInto_int 64) (\<lambda>v. benchmarkWarmupTime_update (\<lambda>_. v))) ''benchmarkWarmupTime''
        [''--benchmark-warmup-time'']
        ''amount of time in milliseconds spent on warming up each test (default: 100)'']"

definition tests_arg :: "ConfigData ParserRef" where
  "tests_arg = \<lparr>m_optional = True, m_ref = vector_of (\<lambda>s. testsOrTags_update (\<lambda>ts. ts @ [s])),
     m_hint = ''test name|pattern|tags'', m_description = ''which test or tests to use''\<rparr>"

definition makeCommandLineParser :: "Outside \<Rightarrow> ConfigData Parser" where
  "makeCommandLineParser outside = \<lparr>m_exeName = \<lambda>s. processName_update (\<lambda>_. s),
     m_options = Help # list_options @ output_options outside @ run_options outside @ long_options outside @
       benchmark_options outside,
     m_args = [tests_arg]\<rparr>"

section \<open>Session\<close>

definition libraryVersion :: string where
  "libraryVersion = ''2.13.6''"

definition showHelp_text :: "string \<Rightarrow> Outside \<Rightarrow> (catch_error + string) option" where
  "showHelp_text exe outside =
     map_option (map_sum id (\<lambda>h. [newline] @ ''Catch v'' @ libraryVersion @ [newline] @ h @ [newline] @
         ''For more detailed usage please see the project docs'' @ [newline, newline]))
       (writeToStream exe (makeCommandLineParser outside))"

definition setw :: "nat \<Rightarrow> string \<Rightarrow> string" where
  "setw n s = s @ replicate (n - length s) CHR '' ''"

definition libIdentify_text :: string where
  "libIdentify_text =
     setw 16 ''description: '' @ ''A Catch2 test executable'' @ [newline] @
     setw 16 ''category: '' @ ''testframework'' @ [newline] @
     setw 16 ''framework: '' @ ''Catch Test'' @ [newline] @
     setw 16 ''version: '' @ libraryVersion @ [newline]"

text \<open>
  \<open>applyCommandLine\<close>: its result, what it writes (to \<open>cout\<close> or \<open>cerr\<close>, without the colours) and
  the session with the parsed configuration.
\<close>

definition applyCommandLine ::
  "Outside \<Rightarrow> string \<Rightarrow> string list \<Rightarrow> 'i Session \<Rightarrow> (catch_error + (int \<times> string \<times> 'i Session)) option" where
  "applyCommandLine outside exe args s =
     (if startupExceptions s then Some (Inr (1, '''', s))
      else case Parser_parse (makeCommandLineParser outside) exe args (configData s) of
          None \<Rightarrow> None
        | Some (Inl e) \<Rightarrow>
            (if e = Assert_Abort then Some (Inl Assert_Failed)
             else map_option (map_sum id (\<lambda>t. (MaxExitCode,
                 [newline] @ ''Error(s) in input:'' @ [newline] @ t @ [newline, newline] @
                   ''Run with -? for usage'' @ [newline, newline], s)))
               (Column_toString ((Column_new (errorMessage e))\<lparr>m_indentation := 2\<rparr>)))
        | Some (Inr config) \<Rightarrow>
            (let done = (\<lambda>help. (0, help @ (if libIdentify config then libIdentify_text else ''''),
                   s\<lparr>configData := config\<rparr>)) in
             if showHelp config then map_option (map_sum id done) (showHelp_text (executable_name exe) outside)
             else Some (Inr (done ''''))))"

text \<open>
  \<open>run\<close>: what is written when it waits for a key is left out, and so is the key. After an error
  in the arguments no test is run.
\<close>

definition session_run ::
  "('g \<Rightarrow> bool \<times> 'g) \<Rightarrow> ('i \<Rightarrow> 'g test_body) \<Rightarrow> SourceLineInfo \<Rightarrow> Outside \<Rightarrow> bool \<Rightarrow> string \<Rightarrow> string list \<Rightarrow>
   'i Session \<Rightarrow> (catch_error + int) option" where
  "session_run next_value bodies here outside reportAll exe args s =
     (if startupExceptions s then Some (Inr 1)
      else case applyCommandLine outside exe args s of
          None \<Rightarrow> None
        | Some (Inl e) \<Rightarrow> Some (Inl e)
        | Some (Inr (returnCode, out, s')) \<Rightarrow>
            if returnCode = 0 then runInternal next_value bodies here (registered_reporters outside) reportAll s'
            else Some (Inr returnCode))"

end
