(* ===== verification/Catch_Command_Tokens.thy ===== *)
theory Catch_Command_Tokens
  imports Catch_Clara
begin

text \<open>
  The token stream of \<open>clara\<close> as the list of the tokens it will give, and the parser as a reading
  of that list: parsing comes to an end, and what it gives depends on the tokens alone.
\<close>

section \<open>The stream as a list\<close>

definition command_tokens :: "string list \<Rightarrow> Token list" where
  "command_tokens args = concat (map tokens_of (filter (\<lambda>arg. arg \<noteq> '''') args))"

definition left_tokens :: "TokenStream \<Rightarrow> Token list" where
  "left_tokens ts = m_tokenBuffer ts @ command_tokens (tl (arguments ts))"

text \<open>The buffer is empty at the end only.\<close>

definition stream_ok :: "TokenStream \<Rightarrow> bool" where
  "stream_ok ts \<longleftrightarrow> (m_tokenBuffer ts = [] \<longleftrightarrow> arguments ts = [])"

lemma tokens_of_nonempty: "arg \<noteq> '''' \<Longrightarrow> tokens_of arg \<noteq> []"
  by (cases arg) (auto simp: tokens_of_def split: option.splits)

lemma command_tokens_simps [simp]:
  "command_tokens [] = []"
  "command_tokens (arg # args) = (if arg = '''' then [] else tokens_of arg) @ command_tokens args"
  "command_tokens (args1 @ args2) = command_tokens args1 @ command_tokens args2"
  by (simp_all add: command_tokens_def)

lemma command_tokens_dropWhile: "command_tokens (dropWhile (\<lambda>arg. arg = '''') args) = command_tokens args"
  by (induction args) auto

lemma loadBuffer_tokens [simp]:
  "stream_ok (loadBuffer ts)" "left_tokens (loadBuffer ts) = command_tokens (arguments ts)"
proof -
  let ?args = "dropWhile (\<lambda>arg. arg = '''') (arguments ts)"
  show "stream_ok (loadBuffer ts)"
  proof (cases ?args)
    case (Cons arg as)
    then have "arg \<noteq> ''''" using hd_dropWhile [of "\<lambda>arg. arg = ''''" "arguments ts"] by simp
    then show ?thesis by (simp add: loadBuffer_def stream_ok_def Cons tokens_of_nonempty)
  next
    case Nil
    then show ?thesis by (simp only: loadBuffer_def stream_ok_def Let_def Nil) simp
  qed
  show "left_tokens (loadBuffer ts) = command_tokens (arguments ts)"
  proof (cases ?args)
    case (Cons arg as)
    then have "arg \<noteq> ''''" using hd_dropWhile [of "\<lambda>arg. arg = ''''" "arguments ts"] by simp
    then have "left_tokens (loadBuffer ts) = command_tokens ?args"
      by (simp add: loadBuffer_def left_tokens_def Cons)
    then show ?thesis by (simp add: command_tokens_dropWhile)
  next
    case Nil
    then show ?thesis
      using command_tokens_dropWhile [of "arguments ts"]
      by (simp only: loadBuffer_def left_tokens_def Let_def Nil) simp
  qed
qed

lemma TokenStream_new_tokens [simp]:
  "stream_ok (TokenStream_new args)" "left_tokens (TokenStream_new args) = command_tokens args"
  by (simp_all add: TokenStream_new_def)

lemma has_tokens_left: "stream_ok ts \<Longrightarrow> has_tokens ts \<longleftrightarrow> left_tokens ts \<noteq> []"
  by (auto simp: stream_ok_def has_tokens_def left_tokens_def)

lemma front_left: "stream_ok ts \<Longrightarrow> left_tokens ts = t # rest \<Longrightarrow> front ts = t"
  by (cases "m_tokenBuffer ts") (auto simp: stream_ok_def front_def left_tokens_def)

lemma next_token_left:
  assumes "stream_ok ts" and "left_tokens ts = t # rest"
  shows "stream_ok (next_token ts)" and "left_tokens (next_token ts) = rest"
proof -
  from assms obtain us where us: "m_tokenBuffer ts = t # us"
    by (cases "m_tokenBuffer ts") (auto simp: stream_ok_def left_tokens_def)
  show "stream_ok (next_token ts)"
    using assms(1) us loadBuffer_tokens(1) by (cases us) (auto simp: next_token_def stream_ok_def [of "_\<lparr>m_tokenBuffer := _\<rparr>"] stream_ok_def [of ts])
  show "left_tokens (next_token ts) = rest"
    using assms(2) us by (cases us) (auto simp: next_token_def left_tokens_def [of "_\<lparr>m_tokenBuffer := _\<rparr>"] left_tokens_def [of ts])
qed

section \<open>Reading the tokens\<close>

text \<open>The parser a token is for: the first one that is not used up and takes such a token.\<close>

fun takes :: "'c ParserInfo \<Rightarrow> Token \<Rightarrow> bool" where
  "takes (Info_Opt p n) t \<longleftrightarrow> tok_type t = Option_Token \<and> token t \<in> set (m_optNames p)"
| "takes (Info_Arg p n) t \<longleftrightarrow> tok_type t = Argument_Token"

fun ref_of :: "'c ParserInfo \<Rightarrow> 'c BoundRef" where
  "ref_of (Info_Opt p n) = m_ref p"
| "ref_of (Info_Arg p n) = m_ref p"

fun is_option :: "'c ParserInfo \<Rightarrow> bool" where
  "is_option (Info_Opt p n) = True"
| "is_option (Info_Arg p n) = False"

fun chosen :: "'c ParserInfo list \<Rightarrow> Token \<Rightarrow> nat option" where
  "chosen [] t = None"
| "chosen (i # is) t = (if may_match i \<and> takes i t then Some 0 else map_option Suc (chosen is t))"

text \<open>
  What a token does, with the tokens after it: the value of an option is the next token, an
  argument is its own value. The answer is \<open>None\<close> in the first component when parsing stops.
\<close>

definition apply_token ::
  "'c ParserInfo \<Rightarrow> Token \<Rightarrow> Token list \<Rightarrow> 'c \<Rightarrow> result_error + (Token list option \<times> 'c)" where
  "apply_token i t rest c =
     (case ref_of i of
        BoundFlagRef setFlag \<Rightarrow>
          if is_option i
          then map_sum id (\<lambda>(ty, c'). (if ty = ShortCircuitAll then None else Some rest, c')) (setFlag True c)
          else Inl Assert_Abort
      | BoundValueRef container setValue \<Rightarrow>
          if is_option i
          then (case rest of
              v # rest' \<Rightarrow>
                if tok_type v = Argument_Token
                then map_sum id (\<lambda>(ty, c'). (if ty = ShortCircuitAll then None else Some rest', c')) (setValue (token v) c)
                else Inl (RuntimeError (''Expected argument following '' @ token t))
            | [] \<Rightarrow> Inl (RuntimeError (''Expected argument following '' @ token t)))
          else map_sum id (\<lambda>(ty, c'). (Some rest, c')) (setValue (token t) c))"

lemma apply_token_shorter:
  "apply_token i t rest c = Inr (Some rest', c') \<Longrightarrow> length rest' \<le> length rest"
  by (auto simp: apply_token_def map_sum_def split: BoundRef.splits list.splits sum.splits if_splits)

function read_tokens :: "'c ParserInfo list \<Rightarrow> Token list \<Rightarrow> 'c \<Rightarrow> result_error + 'c" where
  "read_tokens is [] c = Inr c"
| "read_tokens is (t # rest) c =
     (case chosen is t of
        None \<Rightarrow> Inl (RuntimeError (''Unrecognised token: '' @ token t))
      | Some k \<Rightarrow>
          (case apply_token (is ! k) t rest c of
             Inl e \<Rightarrow> Inl e
           | Inr (None, c') \<Rightarrow> Inr c'
           | Inr (Some rest', c') \<Rightarrow> read_tokens (is[k := count_match (is ! k)]) rest' c'))"
  by pat_completeness auto
termination
  by (relation "measure (\<lambda>(is, toks, c). length toks)") (auto dest: apply_token_shorter simp: less_Suc_eq_le)

section \<open>The parser is the reading\<close>

fun info_ok :: "'c ParserInfo \<Rightarrow> bool" where
  "info_ok (Info_Opt p n) \<longleftrightarrow> Opt_validate p = None"
| "info_ok (Info_Arg p n) \<longleftrightarrow> True"

definition Parser_ok :: "'c Parser \<Rightarrow> bool" where
  "Parser_ok parser \<longleftrightarrow> (\<forall>p \<in> set (m_options parser). Opt_validate p = None) \<and>
     length (m_options parser) + length (m_args parser) < 512"

definition parse_infos :: "'c Parser \<Rightarrow> 'c ParserInfo list" where
  "parse_infos parser =
     map (\<lambda>p. Info_Opt p 0) (m_options parser) @ map (\<lambda>p. Info_Arg p 0) (m_args parser)"

lemma count_match_simps [simp]:
  "info_ok (count_match i) = info_ok i" "takes (count_match i) t = takes i t"
  "ref_of (count_match i) = ref_of i" "is_option (count_match i) = is_option i"
  by (cases i; simp)+

lemma parse_not_taken:
  assumes ts: "stream_ok ts" and left: "left_tokens ts = t # rest"
  shows "info_ok i \<Longrightarrow> \<not> takes i t \<Longrightarrow> info_parse i ts c = Inr (NoMatch, ts, c)"
  by (cases i) (auto simp: Opt_parse_def Arg_parse_def isMatch_def front_left [OF ts left] Let_def
      intro: TokenType.exhaust)

lemma parse_taken:
  assumes ts: "stream_ok ts" and left: "left_tokens ts = t # rest"
    and "info_ok i" and "takes i t"
  shows "case apply_token i t rest c of
      Inl e \<Rightarrow> info_parse i ts c = Inl e
    | Inr (None, c') \<Rightarrow> \<exists>ts'. info_parse i ts c = Inr (ShortCircuitAll, ts', c')
    | Inr (Some rest', c') \<Rightarrow> \<exists>ts'. info_parse i ts c = Inr (Matched, ts', c') \<and> stream_ok ts' \<and> left_tokens ts' = rest'"
proof -
  note next1 = next_token_left [OF ts left]
  have has: "has_tokens ts" using has_tokens_left [OF ts] left by simp
  show ?thesis
  proof (cases i)
    case (Info_Arg p n)
    then show ?thesis
      using assms front_left [OF ts left] next1
      by (auto simp: apply_token_def Arg_parse_def split: BoundRef.splits sum.splits)
  next
    case (Info_Opt p n)
    show ?thesis
    proof (cases rest)
      case Nil
      then show ?thesis
        using assms Info_Opt front_left [OF ts left] next1 has has_tokens_left [OF next1(1)]
        by (auto simp: apply_token_def Opt_parse_def isMatch_def Let_def split: BoundRef.splits sum.splits)
    next
      case (Cons v rest')
      note next2 = next_token_left [OF next1(1), unfolded next1(2), OF Cons]
      show ?thesis
        using assms Info_Opt front_left [OF ts left] next1 next2 has has_tokens_left [OF next1(1)]
          front_left [OF next1(1), unfolded next1(2), OF Cons] Cons
        by (auto simp: apply_token_def Opt_parse_def isMatch_def Let_def split: BoundRef.splits sum.splits)
    qed
  qed
qed

lemma parse_token_none:
  assumes ts: "stream_ok ts" and left: "left_tokens ts = t # rest"
    and "\<forall>i \<in> set is. info_ok i" and "chosen is t = None"
  shows "parse_token is ts c = Inr (NoMatch, ts, c, is)"
  using assms(3,4) by (induction "is") (auto simp: parse_not_taken [OF ts left] split: if_splits)

lemma parse_token_some:
  assumes ts: "stream_ok ts" and left: "left_tokens ts = t # rest"
    and "\<forall>i \<in> set is. info_ok i" and "chosen is t = Some k"
  shows "k < length is \<and> takes (is ! k) t \<and> parse_token is ts c =
    map_sum id (\<lambda>(ty, ts', c'). (ty, ts', c', is[k := count_match (is ! k)])) (info_parse (is ! k) ts c)"
  using assms(3,4)
proof (induction "is" arbitrary: k)
  case (Cons i "is")
  show ?case
  proof (cases "may_match i \<and> takes i t")
    case True
    then show ?thesis using Cons.prems parse_taken [OF ts left, of i c] by (auto split: sum.splits option.splits)
  next
    case False
    then obtain j where j: "k = Suc j" "chosen is t = Some j" using Cons.prems by auto
    then show ?thesis
      using False Cons.IH [OF _ j(2)] Cons.prems(1)
      by (auto simp: parse_not_taken [OF ts left] split_def sum.map_comp comp_def)
  qed
qed simp

lemma parse_tokens_read:
  assumes "\<forall>i \<in> set is. info_ok i" and "stream_ok ts" and "left_tokens ts = toks"
  shows "parse_tokens is ts c = Some (read_tokens is toks c)"
  using assms
proof (induction "is" toks c arbitrary: ts rule: read_tokens.induct)
  case (1 "is" c)
  then show ?case by (subst parse_tokens.simps) (simp add: has_tokens_left)
next
  case (2 "is" t rest c)
  note ts = \<open>stream_ok ts\<close> and left = \<open>left_tokens ts = t # rest\<close> and ok = \<open>\<forall>i \<in> set is. info_ok i\<close>
  have has: "has_tokens ts" using ts left by (simp add: has_tokens_left)
  show ?case
  proof (cases "chosen is t")
    case None
    then show ?thesis
      using parse_token_none [OF ts left ok] front_left [OF ts left] has
      by (subst parse_tokens.simps) simp
  next
    case (Some k)
    note pt = parse_token_some [OF ts left ok Some]
    have okk: "info_ok (is ! k)" using pt ok by simp
    have ok': "\<forall>i \<in> set (is[k := count_match (is ! k)]). info_ok i"
      using ok okk set_update_subset_insert [of "is" k "count_match (is ! k)"] by auto
    note taken = parse_taken [OF ts left okk, of c] 
    show ?thesis
    proof (cases "apply_token (is ! k) t rest c")
      case (Inl e)
      then show ?thesis using taken pt has Some by (subst parse_tokens.simps) simp
    next
      case (Inr r)
      obtain more c' where r: "r = (more, c')" by (cases r)
      show ?thesis
      proof (cases more)
        case None
        then obtain ts' where "info_parse (is ! k) ts c = Inr (ShortCircuitAll, ts', c')"
          using taken pt Inr r by auto
        then show ?thesis using pt has Some Inr r None by (subst parse_tokens.simps) simp
      next
        case rest': (Some rest')
        then obtain ts' where "info_parse (is ! k) ts c = Inr (Matched, ts', c')" "stream_ok ts'" "left_tokens ts' = rest'"
          using taken pt Inr r by auto
        then show ?thesis
          using pt has Some Inr r rest' "2.IH" [OF Some Inr r [symmetric] rest' ok'] 
          by (subst parse_tokens.simps) simp
      qed
    qed
  qed
qed

lemma parse_infos_ok: "Parser_ok parser \<Longrightarrow> \<forall>i \<in> set (parse_infos parser). info_ok i"
  by (auto simp: Parser_ok_def parse_infos_def)

lemma Parser_parse_read:
  assumes "Parser_ok parser"
  shows "Parser_parse parser exe args c =
    Some (read_tokens (parse_infos parser) (command_tokens args) (m_exeName parser (executable_name exe) c))"
  using parse_tokens_read [OF parse_infos_ok [OF assms], of "TokenStream_new args"] assms
  by (simp add: Parser_parse_def Parser_ok_def flip: parse_infos_def)

section \<open>Spellings\<close>

lemma find_first_of_none: "find_first_of s chars = None \<longleftrightarrow> set s \<inter> set chars = {}"
  unfolding find_first_of_def find_None_iff disjoint_iff by (metis atLeastLessThan_iff in_set_conv_nth le0 set_upt)

lemma find_first_of_append:
  assumes "set s \<inter> set chars = {}" and "d \<in> set chars"
  shows "find_first_of (s @ d # v) chars = Some (length s)"
proof -
  have "find_first_of (s @ d # v) chars = find (\<lambda>i. (s @ d # v) ! i \<in> set chars) ([0..<length s] @ [length s..<length (s @ d # v)])"
    using upt_add_eq_append [of 0 "length s" "Suc (length v)"] by (simp add: find_first_of_def del: upt_Suc)
  moreover have "find (\<lambda>i. (s @ d # v) ! i \<in> set chars) [0..<length s] = None"
    using assms(1) by (auto simp: find_None_iff nth_append dest: nth_mem)
  moreover have "find p (xs @ ys) = find p ys" if "find p xs = None" for p :: "nat \<Rightarrow> bool" and xs ys
    using that by (induction xs) (auto split: if_splits)
  ultimately show ?thesis
    using assms(2) by (simp add: upt_conv_Cons del: upt_Suc)
qed

text \<open>An option as it stands alone on the command line.\<close>

definition option_word :: "string \<Rightarrow> bool" where
  "option_word opt \<longleftrightarrow> opt \<noteq> '''' \<and> hd opt = CHR ''-'' \<and> set opt \<inter> set '' :='' = {} \<and>
     (length opt \<le> 2 \<or> opt ! 1 = CHR ''-'')"

text \<open>What is not taken for an option, or skipped.\<close>

definition argument_word :: "string \<Rightarrow> bool" where
  "argument_word v \<longleftrightarrow> v \<noteq> '''' \<and> hd v \<noteq> CHR ''-''"

lemma tokens_of_option: "option_word opt \<Longrightarrow> tokens_of opt = [option_token opt]"
  using find_first_of_none [of opt "'' :=''"]
  by (auto simp: option_word_def tokens_of_def isOptPrefix_def char_at_def hd_conv_nth)

lemma tokens_of_argument: "argument_word v \<Longrightarrow> tokens_of v = [argument_token v]"
  by (auto simp: argument_word_def tokens_of_def isOptPrefix_def char_at_def hd_conv_nth)

lemma tokens_of_joined:
  assumes "option_word opt" and "d \<in> set '' :=''"
  shows "tokens_of (opt @ d # v) = [option_token opt, argument_token v]"
  using assms find_first_of_append [of opt "'' :=''" d v]
  by (auto simp: option_word_def tokens_of_def isOptPrefix_def char_at_def hd_conv_nth nth_append)

lemma tokens_of_cluster:
  assumes "s \<noteq> ''''" and "hd s \<noteq> CHR ''-''" and "set s \<inter> set '' :='' = {}"
  shows "tokens_of (CHR ''-'' # s) = concat (map (\<lambda>ch. tokens_of [CHR ''-'', ch]) s)"
proof -
  have one: "tokens_of [CHR ''-'', ch] = [option_token [CHR ''-'', ch]]" if "ch \<in> set s" for ch
    using that assms(3) by (intro tokens_of_option) (auto simp: option_word_def)
  have none: "find_first_of (CHR ''-'' # s) '' :='' = None"
    using assms(3) by (simp add: find_first_of_none)
  have "concat (map (\<lambda>ch. tokens_of [CHR ''-'', ch]) s) = map (\<lambda>ch. option_token [CHR ''-'', ch]) s"
    using one by (induction s) auto
  moreover have "tokens_of (CHR ''-'' # s) = map (\<lambda>ch. option_token [CHR ''-'', ch]) s"
    using assms(1,2) none by (cases s; cases "tl s") (auto simp: tokens_of_def isOptPrefix_def char_at_def)
  ultimately show ?thesis by simp
qed

lemma spellings_read:
  assumes "Parser_ok parser"
  shows "option_word opt \<Longrightarrow> argument_word v \<Longrightarrow> d \<in> set '' :='' \<Longrightarrow>
      Parser_parse parser exe (before @ [opt @ d # v] @ after) c = Parser_parse parser exe (before @ [opt, v] @ after) c"
    and "s \<noteq> '''' \<Longrightarrow> hd s \<noteq> CHR ''-'' \<Longrightarrow> set s \<inter> set '' :='' = {} \<Longrightarrow>
      Parser_parse parser exe (before @ [CHR ''-'' # s] @ after) c =
      Parser_parse parser exe (before @ map (\<lambda>ch. [CHR ''-'', ch]) s @ after) c"
proof -
  show "Parser_parse parser exe (before @ [opt @ d # v] @ after) c = Parser_parse parser exe (before @ [opt, v] @ after) c"
    if "option_word opt" "argument_word v" "d \<in> set '' :=''"
  proof -
    have "opt \<noteq> ''''" "v \<noteq> ''''" using that by (simp_all add: option_word_def argument_word_def)
    then show ?thesis
      using that by (simp add: Parser_parse_read [OF assms] tokens_of_joined tokens_of_option tokens_of_argument)
  qed
  show "Parser_parse parser exe (before @ [CHR ''-'' # s] @ after) c =
      Parser_parse parser exe (before @ map (\<lambda>ch. [CHR ''-'', ch]) s @ after) c"
    if s: "s \<noteq> ''''" "hd s \<noteq> CHR ''-''" "set s \<inter> set '' :='' = {}"
  proof -
    have "command_tokens (map (\<lambda>ch. [CHR ''-'', ch]) s) = concat (map (\<lambda>ch. tokens_of [CHR ''-'', ch]) s)"
      by (simp add: command_tokens_def comp_def)
    then show ?thesis by (simp add: Parser_parse_read [OF assms] tokens_of_cluster [OF s])
  qed
qed

end
