(* ===== verification/Catch_Command_Settings.thy ===== *)
theory Catch_Command_Settings
  imports Catch_Command_Tokens
begin

text \<open>
  A command line as what its user means by it, a list of settings, and its spelling as arguments:
  parsing the arguments carries out the settings in their order. An option that is not bound to a
  container can be set once.
\<close>

section \<open>Settings\<close>

text \<open>
  The option at a place of the parser under one of its names, as a flag or with a value; a value
  of the parser's last argument.
\<close>

datatype setting = Set_Flag nat string | Set_Value nat string string | Set_Arg string

fun print_setting :: "setting \<Rightarrow> string list" where
  "print_setting (Set_Flag k nm) = [nm]"
| "print_setting (Set_Value k nm v) = [nm, v]"
| "print_setting (Set_Arg v) = [v]"

definition print_settings :: "setting list \<Rightarrow> string list" where
  "print_settings ss = concat (map print_setting ss)"

definition set_value :: "'c BoundRef \<Rightarrow> string \<Rightarrow> 'c \<Rightarrow> 'c ParserResult" where
  "set_value ref v c = (case ref of BoundValueRef _ f \<Rightarrow> f v c | BoundFlagRef _ \<Rightarrow> Inl Assert_Abort)"

definition set_flag :: "'c BoundRef \<Rightarrow> 'c \<Rightarrow> 'c ParserResult" where
  "set_flag ref c = (case ref of BoundFlagRef f \<Rightarrow> f True c | BoundValueRef _ _ \<Rightarrow> Inl Assert_Abort)"

text \<open>What a setting does, with whether the command line is read on.\<close>

definition goes_on :: "'c ParserResult \<Rightarrow> result_error + (bool \<times> 'c)" where
  "goes_on r = map_sum id (\<lambda>(ty, c). (ty \<noteq> ShortCircuitAll, c)) r"

fun carry_out :: "'c Parser \<Rightarrow> setting \<Rightarrow> 'c \<Rightarrow> result_error + (bool \<times> 'c)" where
  "carry_out parser (Set_Flag k nm) c = goes_on (set_flag (m_ref (m_options parser ! k)) c)"
| "carry_out parser (Set_Value k nm v) c = goes_on (set_value (m_ref (m_options parser ! k)) v c)"
| "carry_out parser (Set_Arg v) c = map_sum id (\<lambda>(ty, c'). (True, c')) (set_value (m_ref (hd (m_args parser))) v c)"

fun carry_out_all :: "'c Parser \<Rightarrow> setting list \<Rightarrow> 'c \<Rightarrow> result_error + (bool \<times> 'c)" where
  "carry_out_all parser [] c = Inr (True, c)"
| "carry_out_all parser (s # ss) c =
     (case carry_out parser s c of
        Inl e \<Rightarrow> Inl e
      | Inr (on, c') \<Rightarrow> if on then carry_out_all parser ss c' else Inr (False, c'))"

fun is_flag :: "'c BoundRef \<Rightarrow> bool" where
  "is_flag (BoundFlagRef f) = True"
| "is_flag (BoundValueRef b f) = False"

fun names_option :: "'c Parser \<Rightarrow> nat \<Rightarrow> string \<Rightarrow> bool" where
  "names_option parser k nm \<longleftrightarrow>
     k < length (m_options parser) \<and> nm \<in> set (m_optNames (m_options parser ! k)) \<and> option_word nm"

fun setting_ok :: "'c Parser \<Rightarrow> setting \<Rightarrow> bool" where
  "setting_ok parser (Set_Flag k nm) \<longleftrightarrow> names_option parser k nm \<and> is_flag (m_ref (m_options parser ! k))"
| "setting_ok parser (Set_Value k nm v) \<longleftrightarrow>
     names_option parser k nm \<and> \<not> is_flag (m_ref (m_options parser ! k)) \<and> argument_word v"
| "setting_ok parser (Set_Arg v) \<longleftrightarrow> argument_word v"

text \<open>No name is that of two options; there is one argument, which takes any number of values.\<close>

definition unambiguous :: "'c Parser \<Rightarrow> bool" where
  "unambiguous parser \<longleftrightarrow> distinct (concat (map m_optNames (m_options parser))) \<and>
     (\<exists>arg. m_args parser = [arg] \<and> isContainer (m_ref arg) \<and> \<not> is_flag (m_ref arg))"

text \<open>The options that can be set once, as often as they are set.\<close>

fun option_at :: "setting \<Rightarrow> nat option" where
  "option_at (Set_Flag k nm) = Some k"
| "option_at (Set_Value k nm v) = Some k"
| "option_at (Set_Arg v) = None"

definition uses :: "setting list \<Rightarrow> nat \<Rightarrow> nat" where
  "uses ss k = length (filter (\<lambda>s. option_at s = Some k) ss)"

definition once_each :: "'c Parser \<Rightarrow> setting list \<Rightarrow> bool" where
  "once_each parser ss \<longleftrightarrow>
     (\<forall>k < length (m_options parser). cardinality (m_options parser ! k) = 0 \<or> uses ss k \<le> 1)"

section \<open>The parser after some settings\<close>

definition infos_at :: "'c Parser \<Rightarrow> (nat \<Rightarrow> nat) \<Rightarrow> nat \<Rightarrow> 'c ParserInfo list" where
  "infos_at parser n m =
     map (\<lambda>k. Info_Opt (m_options parser ! k) (n k)) [0..<length (m_options parser)] @ [Info_Arg (hd (m_args parser)) m]"

lemma infos_at_length [simp]: "length (infos_at parser n m) = Suc (length (m_options parser))"
  by (simp add: infos_at_def)

lemma infos_at_nth [simp]:
  "k < length (m_options parser) \<Longrightarrow> infos_at parser n m ! k = Info_Opt (m_options parser ! k) (n k)"
  "infos_at parser n m ! length (m_options parser) = Info_Arg (hd (m_args parser)) m"
  by (simp_all add: infos_at_def nth_append)

lemma infos_at_count_option:
  "k < length (m_options parser) \<Longrightarrow>
   (infos_at parser n m)[k := Info_Opt (m_options parser ! k) (Suc (n k))] = infos_at parser (n(k := Suc (n k))) m"
  by (rule nth_equalityI) (auto simp: infos_at_def nth_list_update nth_append)

lemma infos_at_count_arg:
  "(infos_at parser n m)[length (m_options parser) := Info_Arg (hd (m_args parser)) j] = infos_at parser n j"
  by (rule nth_equalityI) (auto simp: infos_at_def nth_list_update nth_append)

lemma parse_infos_at: "unambiguous parser \<Longrightarrow> parse_infos parser = infos_at parser (\<lambda>k. 0) 0"
  by (auto simp: unambiguous_def parse_infos_def infos_at_def intro: nth_equalityI)

lemma chosen_first:
  "chosen is t = Some k \<longleftrightarrow> k < length is \<and> may_match (is ! k) \<and> takes (is ! k) t \<and>
     (\<forall>j < k. \<not> (may_match (is ! j) \<and> takes (is ! j) t))"
proof (induction "is" arbitrary: k)
  case (Cons i "is")
  then show ?case by (cases k) (auto simp: All_less_Suc2)
qed simp

lemma chosen_nothing:
  "chosen is t = None \<longleftrightarrow> (\<forall>k < length is. \<not> (may_match (is ! k) \<and> takes (is ! k) t))"
  by (induction "is") (auto simp: less_Suc_eq_0_disj All_less_Suc2)

lemma distinct_concat_nth:
  assumes "distinct (concat xss)" and "j < k" and "k < length xss"
  shows "set (xss ! j) \<inter> set (xss ! k) = {}"
  using assms
proof (induction xss arbitrary: j k)
  case (Cons xs xss)
  then obtain k' where k': "k = Suc k'" "k' < length xss" by (cases k) auto
  show ?case
  proof (cases j)
    case 0
    then show ?thesis using Cons.prems(1) k' nth_mem [of k' xss] by (auto simp: disjoint_iff)
  next
    case (Suc j')
    then show ?thesis using Cons.IH [of j' k'] Cons.prems k' by simp
  qed
qed simp

lemma same_name:
  assumes "unambiguous parser" and "j < length (m_options parser)" and "k < length (m_options parser)"
    and "nm \<in> set (m_optNames (m_options parser ! j))" and "nm \<in> set (m_optNames (m_options parser ! k))"
  shows "j = k"
  using assms distinct_concat_nth [of "map m_optNames (m_options parser)"]
  by (cases j k rule: linorder_cases) (auto simp: unambiguous_def disjoint_iff)

lemma chosen_option:
  assumes "unambiguous parser" and "names_option parser k nm"
  shows "chosen (infos_at parser n m) (option_token nm) =
    (if cardinality (m_options parser ! k) = 0 \<or> n k = 0 then Some k else None)"
proof -
  have only: "j = k" if "j < Suc (length (m_options parser))" "takes (infos_at parser n m ! j) (option_token nm)" for j
    using that assms(2) same_name [OF assms(1), of j k nm]
    by (cases "j = length (m_options parser)") (auto simp: option_token_def)
  have k: "k < length (m_options parser)" "takes (infos_at parser n m ! k) (option_token nm)"
    using assms(2) by (simp_all add: option_token_def)
  have one: "cardinality (m_options parser ! k) \<le> 1" by (simp add: cardinality_def)
  have may: "may_match (infos_at parser n m ! k) \<longleftrightarrow> cardinality (m_options parser ! k) = 0 \<or> n k = 0"
    using k(1) one by auto
  have before: "\<forall>j < k. \<not> takes (infos_at parser n m ! j) (option_token nm)"
  proof (intro allI impI notI)
    fix j assume "j < k" "takes (infos_at parser n m ! j) (option_token nm)"
    then show False using only [of j] k(1) by simp
  qed
  show ?thesis
  proof (cases "cardinality (m_options parser ! k) = 0 \<or> n k = 0")
    case True
    then have "chosen (infos_at parser n m) (option_token nm) = Some k"
      using k may before by (simp add: chosen_first del: infos_at_nth)
    then show ?thesis using True by simp
  next
    case False
    have "chosen (infos_at parser n m) (option_token nm) = None"
      unfolding chosen_nothing infos_at_length
    proof (intro allI impI notI)
      fix j assume j: "j < Suc (length (m_options parser))"
        "may_match (infos_at parser n m ! j) \<and> takes (infos_at parser n m ! j) (option_token nm)"
      then have "j = k" by (intro only) simp_all
      then show False using j(2) may False by (simp del: infos_at_nth)
    qed
    then show ?thesis using False by simp
  qed
qed

lemma chosen_argument:
  assumes "unambiguous parser"
  shows "chosen (infos_at parser n m) (argument_token v) = Some (length (m_options parser))"
  using assms by (auto simp: chosen_first argument_token_def unambiguous_def cardinality_def)

section \<open>One setting\<close>

definition count_use :: "setting \<Rightarrow> (nat \<Rightarrow> nat) \<Rightarrow> nat \<Rightarrow> nat" where
  "count_use s n = (case option_at s of None \<Rightarrow> n | Some k \<Rightarrow> n(k := Suc (n k)))"

definition count_arg :: "setting \<Rightarrow> nat \<Rightarrow> nat" where
  "count_arg s m = (case option_at s of None \<Rightarrow> Suc m | Some k \<Rightarrow> m)"

definition usable :: "'c Parser \<Rightarrow> setting \<Rightarrow> (nat \<Rightarrow> nat) \<Rightarrow> bool" where
  "usable parser s n \<longleftrightarrow>
     (case option_at s of None \<Rightarrow> True | Some k \<Rightarrow> cardinality (m_options parser ! k) = 0 \<or> n k = 0)"

lemma option_word_nonempty [simp]: "option_word opt \<Longrightarrow> opt \<noteq> []" "argument_word v \<Longrightarrow> v \<noteq> []"
  by (simp_all add: option_word_def argument_word_def)

lemma tokens_fields [simp]:
  "tok_type (option_token s) = Option_Token" "token (option_token s) = s"
  "tok_type (argument_token s) = Argument_Token" "token (argument_token s) = s"
  by (simp_all add: option_token_def argument_token_def)

lemma read_setting:
  assumes "unambiguous parser" and "setting_ok parser s" and "usable parser s n"
  shows "read_tokens (infos_at parser n m) (command_tokens (print_setting s) @ rest) c =
    (case carry_out parser s c of
       Inl e \<Rightarrow> Inl e
     | Inr (on, c') \<Rightarrow>
         if on then read_tokens (infos_at parser (count_use s n) (count_arg s m)) rest c' else Inr c')"
proof (cases s)
  case (Set_Flag k nm)
  then have k: "names_option parser k nm" "chosen (infos_at parser n m) (option_token nm) = Some k"
    using assms chosen_option [OF assms(1), of k nm n m] by (simp_all add: usable_def)
  obtain f where "m_ref (m_options parser ! k) = BoundFlagRef f"
    using assms(2) Set_Flag by (cases "m_ref (m_options parser ! k)") auto
  then show ?thesis
    using k Set_Flag
    by (cases "f True c") (auto simp: tokens_of_option apply_token_def goes_on_def set_flag_def count_use_def count_arg_def
        infos_at_count_option split: sum.splits)
next
  case (Set_Value k nm v)
  then have k: "names_option parser k nm" "argument_word v" "chosen (infos_at parser n m) (option_token nm) = Some k"
    using assms chosen_option [OF assms(1), of k nm n m] by (simp_all add: usable_def)
  obtain b f where "m_ref (m_options parser ! k) = BoundValueRef b f"
    using assms(2) Set_Value by (cases "m_ref (m_options parser ! k)") auto
  then show ?thesis
    using k Set_Value
    by (cases "f v c") (auto simp: tokens_of_option tokens_of_argument apply_token_def goes_on_def set_value_def count_use_def count_arg_def
        infos_at_count_option split: sum.splits)
next
  case (Set_Arg v)
  obtain b f where "m_ref (hd (m_args parser)) = BoundValueRef b f"
    using assms(1) by (cases "m_ref (hd (m_args parser))") (auto simp: unambiguous_def)
  then show ?thesis
    using chosen_argument [OF assms(1), of n m v] Set_Arg assms(2)
    by (cases "f v c") (auto simp: tokens_of_argument apply_token_def set_value_def count_use_def count_arg_def
        infos_at_count_arg split: sum.splits)
qed

lemma read_unusable:
  assumes "unambiguous parser" and "names_option parser k nm"
    and "cardinality (m_options parser ! k) \<noteq> 0" and "n k \<noteq> 0"
  shows "read_tokens (infos_at parser n m) (option_token nm # rest) c = Inl (RuntimeError (''Unrecognised token: '' @ nm))"
  using assms chosen_option [OF assms(1,2), of n m] by simp

section \<open>A command line of settings\<close>

definition plain_args :: "setting list \<Rightarrow> nat" where
  "plain_args ss = length (filter (\<lambda>s. option_at s = None) ss)"

lemma uses_simps [simp]:
  "uses [] k = 0" "uses (s # ss) k = (if option_at s = Some k then Suc (uses ss k) else uses ss k)"
  by (simp_all add: uses_def)

lemma print_settings_simps [simp]:
  "print_settings [] = []" "print_settings (s # ss) = print_setting s @ print_settings ss"
  by (simp_all add: print_settings_def)

lemma read_settings:
  assumes "unambiguous parser" and "list_all (setting_ok parser) ss"
    and "\<forall>k < length (m_options parser). cardinality (m_options parser ! k) = 0 \<or> n k + uses ss k \<le> 1"
  shows "read_tokens (infos_at parser n m) (command_tokens (print_settings ss) @ rest) c =
    (case carry_out_all parser ss c of
       Inl e \<Rightarrow> Inl e
     | Inr (on, c') \<Rightarrow>
         if on then read_tokens (infos_at parser (\<lambda>k. n k + uses ss k) (m + plain_args ss)) rest c' else Inr c')"
  using assms(2,3)
proof (induction ss arbitrary: n m c)
  case Nil
  then show ?case by (simp add: plain_args_def)
next
  case (Cons s ss)
  have "usable parser s n"
    using Cons.prems by (cases s) (fastforce simp: usable_def split: if_splits)+
  then have step: "read_tokens (infos_at parser n m) (command_tokens (print_setting s) @ command_tokens (print_settings ss) @ rest) c =
      (case carry_out parser s c of
         Inl e \<Rightarrow> Inl e
       | Inr (on, c') \<Rightarrow>
           if on then read_tokens (infos_at parser (count_use s n) (count_arg s m)) (command_tokens (print_settings ss) @ rest) c'
           else Inr c')"
    using Cons.prems(1) by (intro read_setting [OF assms(1)]) simp_all
  have "\<forall>k < length (m_options parser). cardinality (m_options parser ! k) = 0 \<or> count_use s n k + uses ss k \<le> 1"
    using Cons.prems(2) by (cases s) (auto simp: count_use_def)
  note IH = Cons.IH [OF _ this]
  have counts: "(\<lambda>k. count_use s n k + uses ss k) = (\<lambda>k. n k + uses (s # ss) k)"
    "count_arg s m + plain_args ss = m + plain_args (s # ss)"
    by (cases s; simp add: count_use_def count_arg_def plain_args_def fun_eq_iff)+
  show ?case
    using step IH [of "count_arg s m", unfolded counts] Cons.prems(1)
    by (cases "carry_out parser s c") (auto simp del: uses_simps)
qed

lemma settings_read:
  assumes "Parser_ok parser" and "unambiguous parser"
    and "list_all (setting_ok parser) ss" and "once_each parser ss"
  shows "Parser_parse parser exe (print_settings ss) c =
    Some (map_sum id snd (carry_out_all parser ss (m_exeName parser (executable_name exe) c)))"
proof -
  have "read_tokens (infos_at parser (\<lambda>k. 0) 0) (command_tokens (print_settings ss) @ []) c' =
      map_sum id snd (carry_out_all parser ss c')" for c'
    using assms(4) by (subst read_settings [OF assms(2,3)]) (auto simp: once_each_def split: sum.splits)
  then show ?thesis by (simp add: Parser_parse_read [OF assms(1)] parse_infos_at [OF assms(2)])
qed

lemma second_use_read:
  assumes "Parser_ok parser" and "unambiguous parser"
    and "list_all (setting_ok parser) ss" and "once_each parser ss"
    and "names_option parser k nm" and "cardinality (m_options parser ! k) \<noteq> 0" and "uses ss k \<noteq> 0"
    and "carry_out_all parser ss (m_exeName parser (executable_name exe) c) = Inr (True, c')"
  shows "Parser_parse parser exe (print_settings ss @ nm # args) c =
    Some (Inl (RuntimeError (''Unrecognised token: '' @ nm)))"
proof -
  have "command_tokens (nm # args) = option_token nm # command_tokens args"
    using assms(5) by (simp add: tokens_of_option)
  then have "read_tokens (infos_at parser (\<lambda>k. 0) 0) (command_tokens (print_settings ss) @ command_tokens (nm # args))
      (m_exeName parser (executable_name exe) c) = Inl (RuntimeError (''Unrecognised token: '' @ nm))"
    using assms(4,6-8) read_unusable [OF assms(2,5)]
    by (subst read_settings [OF assms(2,3)]) (simp_all add: once_each_def)
  then show ?thesis by (simp add: Parser_parse_read [OF assms(1)] parse_infos_at [OF assms(2)])
qed

end
