(* ===== verification/Catch_Selection.thy ===== *)
theory Catch_Selection
  imports Catch_Registry "HOL-Library.Multiset"
begin

text \<open>
  What the selection of tests promises: wildcard patterns, tags and the registry.
\<close>

section \<open>Wildcards\<close>

text \<open>The reference: \<open>*\<close> stands for any text, everywhere in the pattern.\<close>

fun glob :: "string \<Rightarrow> string \<Rightarrow> bool" where
  "glob [] s \<longleftrightarrow> s = []"
| "glob (ch # p) s \<longleftrightarrow>
     (if ch = CHR ''*'' then glob p s \<or> (case s of [] \<Rightarrow> False | x # r \<Rightarrow> glob (ch # p) r)
      else (case s of [] \<Rightarrow> False | x # r \<Rightarrow> x = ch \<and> glob p r))"

lemma glob_char: "ch \<noteq> CHR ''*'' \<Longrightarrow> glob (ch # p) s \<longleftrightarrow> (\<exists>r. s = ch # r \<and> glob p r)"
  by (cases s) auto

lemma glob_star: "glob (CHR ''*'' # p) s \<longleftrightarrow> (\<exists>l r. s = l @ r \<and> glob p r)"
proof (induction s)
  case Nil
  then show ?case by simp
next
  case (Cons x s)
  have "(\<exists>l r. x # s = l @ r \<and> glob p r) \<longleftrightarrow> glob p (x # s) \<or> (\<exists>l r. s = l @ r \<and> glob p r)"
    by (metis append_Cons append_Nil append_eq_Cons_conv)
  with Cons show ?case by simp
qed

declare glob.simps(2) [simp del]

lemma glob_literal: "CHR ''*'' \<notin> set core \<Longrightarrow> glob (core @ p) s \<longleftrightarrow> (\<exists>r. s = core @ r \<and> glob p r)"
  by (induction core arbitrary: s) (auto simp: glob_char)

lemma glob_all: "glob ''*'' s"
  using glob_star [of "[]" s] by simp

text \<open>
  C39. A wildcard pattern whose stars are at its ends matches exactly the texts the glob pattern
  matches, after both are trimmed and, for test names, put in lower case.
\<close>

theorem wildcard_is_glob:
  assumes "CHR ''*'' \<notin> set (butlast (tl (normaliseString sensitive pat)))"
  shows "WildcardPattern_matches (WildcardPattern_new pat sensitive) s \<longleftrightarrow>
    glob (normaliseString sensitive pat) (normaliseString sensitive s)"
proof -
  let ?p = "normaliseString sensitive pat" and ?n = "normaliseString sensitive s"
  define p1 where "p1 = (if startsWith_char ?p CHR ''*'' then drop 1 ?p else ?p)"
  define core where "core = (if endsWith_char p1 CHR ''*'' then butlast p1 else p1)"
  have end1: "p1 = core @ (if endsWith_char p1 CHR ''*'' then ''*'' else [])"
    unfolding core_def by (auto simp: endsWith_char_iff)
  have start1: "?p = (if startsWith_char ?p CHR ''*'' then ''*'' else []) @ p1"
    unfolding p1_def by (auto simp: startsWith_char_iff)
  have "CHR ''*'' \<notin> set core"
  proof (cases "startsWith_char ?p CHR ''*''")
    case True
    then obtain r where r: "?p = CHR ''*'' # r" by (auto simp: startsWith_char_iff)
    then have "p1 = r" by (simp add: p1_def startsWith_char_def)
    show ?thesis
    proof (cases r rule: rev_cases)
      case Nil
      then show ?thesis using \<open>p1 = r\<close> by (simp add: core_def)
    next
      case (snoc ys y)
      then show ?thesis using assms r \<open>p1 = r\<close> by (auto simp: core_def endsWith_char_iff)
    qed
  next
    case False
    then have "p1 = ?p" by (simp add: p1_def)
    show ?thesis
    proof (cases ?p)
      case Nil
      then show ?thesis using \<open>p1 = ?p\<close> by (simp add: core_def)
    next
      case (Cons x r)
      then have "x \<noteq> CHR ''*''" using False by (simp add: startsWith_char_iff)
      then show ?thesis using assms Cons \<open>p1 = ?p\<close>
        by (cases r rule: rev_cases) (auto simp: core_def endsWith_char_iff)
    qed
  qed
  then have tail: "glob (core @ ''*'') r \<longleftrightarrow> (\<exists>q. r = core @ q)" "glob core r \<longleftrightarrow> r = core" for r
    using glob_literal [of core "''*''" r] glob_literal [of core "[]" r] by (auto simp: glob_all)
  have new: "WildcardPattern_new pat sensitive = \<lparr>caseSensitive = sensitive,
      wildcard = (if startsWith_char ?p CHR ''*''
        then (if endsWith_char p1 CHR ''*'' then WildcardAtBothEnds else WildcardAtStart)
        else (if endsWith_char p1 CHR ''*'' then WildcardAtEnd else NoWildcard)), wc_pattern = core\<rparr>"
    by (auto simp: WildcardPattern_new_def Let_def p1_def core_def butlast_conv_take)
  show ?thesis
    by (subst start1, subst end1)
      (auto simp: new WildcardPattern_matches_def glob_star tail endsWith_iff startsWith_iff contains_iff)
qed

theorem wildcard_is_glob_witness:
  "WildcardPattern_matches (WildcardPattern_new '' *-Page*'' False) ''push-page-and-back'' \<longleftrightarrow>
    glob (normaliseString False '' *-Page*'') (normaliseString False ''push-page-and-back'')"
  by (rule wildcard_is_glob) code_simp

section \<open>Tags\<close>

lemma property_disjoint:
  "IsHidden AND NoProperties = 0" by (simp add: property_defs)

text \<open>
  Text outside brackets is no tag: \<open>TEST_CASE(name, "aws-only")\<close> gives the test a
  description and no tag, so no pattern \<open>[aws-only]\<close> selects it and every \<open>~[aws-only]\<close> does.
\<close>

theorem unbracketed_text_is_no_tag:
  assumes "CHR ''['' \<notin> set text"
  shows "\<exists>t. makeTestCase invoker cls nm text loc = Inr t \<and> tags t = [] \<and> description t = text \<and>
    \<not> isHidden t \<and> \<not> Pattern_matches (TagPattern_new tag flt) t \<and>
    Pattern_matches (ExcludedPattern (TagPattern_new tag flt)) t"
proof -
  let ?s = "\<lparr>hidden = False, scanned = [], desc = '''', cur_tag = '''', inTag = False\<rparr>"
  have "scan_tags loc text ?s = Inr (?s\<lparr>desc := text\<rparr>)"
    using scan_plain [OF assms, of ?s loc] by simp
  then have "makeTestCase invoker cls nm text loc = Inr (TestCase_new invoker nm cls text [] loc)"
    by (simp add: makeTestCase_def)
  moreover have "properties (TestCase_new invoker nm cls text [] loc) = NoProperties"
    by (simp add: TestCase_new_def setTags_def)
  ultimately show ?thesis
    by (simp add: TestCase_new_def isHidden_def TagPattern_new_def property_defs setTags_def)
qed

theorem unbracketed_text_is_no_tag_witness:
  "\<exists>t. makeTestCase (0 :: nat) '''' ''Push-page-and-read-back'' ''aws-only'' \<lparr>src_file = ''main.cpp'', src_line = 99\<rparr> = Inr t \<and>
    tags t = [] \<and> description t = ''aws-only'' \<and>
    \<not> isHidden t \<and> \<not> Pattern_matches (TagPattern_new ''aws-only'' ''[aws-only]'') t \<and>
    Pattern_matches (ExcludedPattern (TagPattern_new ''aws-only'' ''[aws-only]'')) t"
  by (rule unbracketed_text_is_no_tag) simp

section \<open>The registry\<close>

lemma enforce_from_ok:
  "enforce_from seen fs = Inr () \<longleftrightarrow>
    distinct (map tc_name fs) \<and> set (map tc_name seen) \<inter> set (map tc_name fs) = {}"
proof (induction fs arbitrary: seen)
  case (Cons f fs)
  show ?case
  proof (cases "find (\<lambda>g. tc_name g = tc_name f) seen")
    case None
    then have "tc_name f \<notin> set (map tc_name seen)" by (auto simp: find_None_iff)
    with None Cons show ?thesis by auto
  next
    case (Some g)
    then have "tc_name f \<in> set (map tc_name seen)"
      by (auto simp: find_Some_iff) (metis image_eqI nth_mem)
    with Some show ?thesis by auto
  qed
qed simp

lemma mset_sortTests [simp]: "mset (sortTests order seed ts) = mset ts"
  by (simp add: sortTests_def split: InWhatOrder.splits)

text \<open>
  The first call of \<open>getAllTestsSorted\<close> succeeds exactly when no two tests have the same
  name (whatever their classes); it then returns every registered test once, in the order of
  registration, of names, or of the hashes, as configured.
\<close>

theorem tests_in_order:
  assumes "m_sortedFunctions reg = []"
  shows "(distinct (map tc_name (m_functions reg)) \<longleftrightarrow>
      (\<exists>ts reg'. getAllTestsSorted config reg = Inr (ts, reg'))) \<and>
    (distinct (map tc_name (m_functions reg)) \<longrightarrow>
      (\<exists>ts reg'. getAllTestsSorted config reg = Inr (ts, reg') \<and> mset ts = mset (m_functions reg) \<and>
        (case runOrder config of
           InDeclarationOrder \<Rightarrow> ts = m_functions reg
         | InLexicographicalOrder \<Rightarrow> sorted_wrt (<) (map tc_name ts)
         | InRandomOrder \<Rightarrow> sorted (map (TestHasher (ucast (rngSeed config))) ts))))"
proof -
  let ?ts = "sortTests (runOrder config) (rngSeed config) (m_functions reg)"
  let ?h = "TestHasher (ucast (rngSeed config))"
  have ok: "enforceNoDuplicateTestCases (m_functions reg) = Inr () \<longleftrightarrow> distinct (map tc_name (m_functions reg))"
    by (simp add: enforceNoDuplicateTestCases_def enforce_from_ok)
  then have iff: "(\<exists>ts reg'. getAllTestsSorted config reg = Inr (ts, reg')) \<longleftrightarrow> distinct (map tc_name (m_functions reg))"
    using assms by (auto simp: getAllTestsSorted_def Let_def split: sum.splits)
  have "case runOrder config of
      InDeclarationOrder \<Rightarrow> ?ts = m_functions reg
    | InLexicographicalOrder \<Rightarrow> sorted_wrt (<) (map tc_name ?ts)
    | InRandomOrder \<Rightarrow> sorted (map ?h ?ts)" if d: "distinct (map tc_name (m_functions reg))"
  proof (cases "runOrder config")
    case InLexicographicalOrder
    have "mset (map tc_name ?ts) = mset (map tc_name (m_functions reg))" by simp
    then have "distinct (map tc_name ?ts)" using d by (metis mset_eq_imp_distinct_iff)
    moreover have "sorted (map tc_name ?ts)" by (simp add: sortTests_def InLexicographicalOrder)
    ultimately show ?thesis using InLexicographicalOrder
      by (simp add: strict_sorted_iff [symmetric] strict_sorted_iff)
  next
    case InRandomOrder
    have "sorted (map (\<lambda>t. (?h t, tc_name t)) ?ts)" by (simp add: sortTests_def InRandomOrder)
    then have "sorted (map ?h ?ts)"
      by (auto simp: sorted_map intro: sorted_wrt_mono_rel [rotated])
    with InRandomOrder show ?thesis by simp
  qed (simp add: sortTests_def)
  moreover have "\<exists>reg'. getAllTestsSorted config reg = Inr (?ts, reg')"
    if "distinct (map tc_name (m_functions reg))"
    using that assms ok by (auto simp: getAllTestsSorted_def Let_def)
  ultimately show ?thesis using iff by (metis mset_sortTests)
qed

definition example_test :: "string \<Rightarrow> nat TestCase" where
  "example_test nm = TestCase_new 0 nm '''' '''' [] \<lparr>src_file = ''main.cpp'', src_line = 16\<rparr>"

definition example_registry :: "(nat, unit) TestCase_ext TestRegistry" where
  "example_registry = registerTest (example_test ''transplant-in'')
     (registerTest (example_test ''execute-instruction'') TestRegistry_new)"

theorem tests_in_order_witness:
  "\<exists>ts reg'. getAllTestsSorted (ConfigData_default\<lparr>runOrder := InLexicographicalOrder\<rparr>) example_registry = Inr (ts, reg') \<and>
    mset ts = mset (m_functions example_registry) \<and> sorted_wrt (<) (map tc_name ts)"
proof -
  have reg: "m_sortedFunctions example_registry = []" "distinct (map tc_name (m_functions example_registry))"
    by (simp_all add: example_registry_def registerTest_def example_test_def TestCase_new_def TestRegistry_new_def Let_def)
  show ?thesis
    using tests_in_order [OF reg(1), of "ConfigData_default\<lparr>runOrder := InLexicographicalOrder\<rparr>"] reg(2)
    by simp
qed

end
