(* ===== verification/Catch_Spec_Syntax.thy ===== *)
theory Catch_Spec_Syntax
  imports Catch_Selection
begin

text \<open>
  The syntax of test specifications: what the parser makes of a printed specification, and that
  it never throws.
\<close>

section \<open>Specifications and how they are written\<close>

datatype spec_item = Tag_Item bool string | Name_Item bool string

fun print_item :: "spec_item \<Rightarrow> string" where
  "print_item (Tag_Item ex t) = (if ex then ''~'' else '''') @ CHR ''['' # t @ '']''"
| "print_item (Name_Item ex n) = (if ex then ''~'' else '''') @ n"

fun print_spec :: "spec_item list list \<Rightarrow> string" where
  "print_spec [] = ''''"
| "print_spec [f] = concat (map print_item f)"
| "print_spec (f # fs) = concat (map print_item f) @ CHR '','' # print_spec fs"

text \<open>Text that needs no escapes and is not taken for something else.\<close>

definition plain_in_tag :: "string \<Rightarrow> bool" where
  "plain_in_tag t \<longleftrightarrow> t \<noteq> [] \<and> (\<forall>ch \<in> set t. ch \<notin> {CHR ''['', CHR '']'', CHR '','', CHR 0x5C}) \<and>
     t ! 0 \<noteq> CHR ''.'' \<and> \<not> startsWith t ''exclude:''"

definition plain_name :: "string \<Rightarrow> bool" where
  "plain_name n \<longleftrightarrow> n \<noteq> [] \<and> (\<forall>ch \<in> set n. ch \<notin> {CHR ''['', CHR '','', CHR 0x5C}) \<and>
     n ! 0 \<notin> {CHR '' '', CHR ''~'', CHR 0x22} \<and> \<not> startsWith n ''exclude:''"

text \<open>A filter: tags, then at most one name.\<close>

fun plain_filter :: "spec_item list \<Rightarrow> bool" where
  "plain_filter [] = False"
| "plain_filter [Tag_Item ex t] = plain_in_tag t"
| "plain_filter [Name_Item ex n] = plain_name n"
| "plain_filter (Tag_Item ex t # is) = (plain_in_tag t \<and> plain_filter is)"
| "plain_filter (Name_Item ex n # is) = False"

text \<open>What an item stands for, and the pattern the parser builds for it.\<close>

fun item_selects :: "spec_item \<Rightarrow> 'm TestCaseInfo_scheme \<Rightarrow> bool" where
  "item_selects (Tag_Item ex t) tc \<longleftrightarrow> (toLower t \<in> set (lcaseTags tc)) \<noteq> ex"
| "item_selects (Name_Item ex n) tc \<longleftrightarrow>
     WildcardPattern_matches (WildcardPattern_new (toLower n) False) (tc_name tc) \<noteq> ex"

fun item_pattern :: "spec_item \<Rightarrow> Pattern" where
  "item_pattern (Tag_Item ex t) =
     (let p = TagPattern_new t (print_item (Tag_Item ex t)) in if ex then ExcludedPattern p else p)"
| "item_pattern (Name_Item ex n) =
     (let p = NamePattern_new n (print_item (Name_Item ex n)) in if ex then ExcludedPattern p else p)"

lemma item_pattern_matches: "Pattern_matches (item_pattern i) tc \<longleftrightarrow> item_selects i tc"
  by (cases i) (auto simp: Let_def TagPattern_new_def NamePattern_new_def)

section \<open>The parser on plain text\<close>

text \<open>Between two patterns.\<close>

definition clean :: "TestSpecParser \<Rightarrow> bool" where
  "clean p \<longleftrightarrow> m_mode p = ModeNone \<and> \<not> m_exclusion p \<and> m_realPatternPos p = 0 \<and>
     m_substring p = [] \<and> m_patternName p = [] \<and> m_escapeChars p = []"

definition reading :: "string \<Rightarrow> TestSpecParser \<Rightarrow> TestSpecParser" where
  "reading t p = p\<lparr>m_realPatternPos := m_realPatternPos p + length t,
     m_substring := m_substring p @ t, m_patternName := m_patternName p @ t\<rparr>"

lemma reading_simps [simp]:
  "m_mode (reading t p) = m_mode p" "m_exclusion (reading t p) = m_exclusion p"
  "m_escapeChars (reading t p) = m_escapeChars p" "m_patternName (reading t p) = m_patternName p @ t"
  "m_substring (reading t p) = m_substring p @ t" "reading [] p = p"
  "m_currentFilter (reading t p) = m_currentFilter p" "m_testSpec (reading t p) = m_testSpec p"
  by (simp_all add: reading_def)

lemma reading_Cons: "reading cs (reading [ch] p) = reading (ch # cs) p"
  by (simp add: reading_def)

lemma visit_tag_text:
  "m_mode p = Tag \<Longrightarrow> \<forall>ch \<in> set t. ch \<notin> {CHR ''['', CHR '']'', CHR '','', CHR 0x5C} \<Longrightarrow>
    visit_all arg (t @ cs) p = visit_all arg cs (reading t p)"
proof (induction t arbitrary: p)
  case (Cons ch t)
  then have "visitChar ch p = Inr (True, reading [ch] p)"
    by (simp add: visitChar_def processOtherChar_def isControlChar_def add_visited_def reading_def Let_def)
  with Cons show ?case by (simp add: reading_Cons)
qed simp

lemma visit_name_text:
  "m_mode p = Name \<Longrightarrow> \<forall>ch \<in> set t. ch \<notin> {CHR ''['', CHR '','', CHR 0x5C} \<Longrightarrow>
    visit_all arg (t @ cs) p = visit_all arg cs (reading t p)"
proof (induction t arbitrary: p)
  case (Cons ch t)
  then have "visitChar ch p = Inr (True, reading [ch] p)"
    by (simp add: visitChar_def processNameChar_def isControlChar_def add_visited_def reading_def Let_def)
  with Cons show ?case by (simp add: reading_Cons)
qed simp

text \<open>\<open>~\<close> before a pattern.\<close>

definition started :: "bool \<Rightarrow> TestSpecParser \<Rightarrow> TestSpecParser" where
  "started ex p = p\<lparr>m_exclusion := ex, m_substring := (if ex then ''~'' else '''')\<rparr>"

lemma visit_exclusion:
  assumes "clean p"
  shows "visit_all arg ((if ex then ''~'' else '''') @ cs) p = visit_all arg cs (started ex p)"
proof (cases ex)
  case True
  have "visitChar CHR ''~'' p = Inr (True, started True p)"
    using assms by (simp add: clean_def visitChar_def processNoneChar_def isControlChar_def add_visited_def
        started_def Let_def)
  with True show ?thesis by simp
next
  case False
  have "started False p = p" using assms by (cases p) (simp add: clean_def started_def)
  with False show ?thesis by simp
qed

lemma visit_tag_item:
  assumes "clean p" and "plain_in_tag t"
  shows "visit_all arg (print_item (Tag_Item ex t) @ cs) p =
    visit_all arg cs (p\<lparr>m_currentFilter := m_currentFilter p @ [item_pattern (Tag_Item ex t)]\<rparr>)"
proof -
  let ?s = "started ex p"
  let ?o = "?s\<lparr>m_mode := Tag, m_substring := m_substring ?s @ ''[''\<rparr>"
  let ?r = "reading t ?o"
  let ?q = "p\<lparr>m_currentFilter := m_currentFilter p @ [item_pattern (Tag_Item ex t)]\<rparr>"
  have "visitChar CHR ''['' ?s = Inr (True, ?o)"
    using assms(1) by (simp add: clean_def visitChar_def processNoneChar_def isControlChar_def add_visited_def
        started_def startNewMode_def Let_def)
  moreover have "visitChar CHR '']'' ?r = Inr (True, ?q)"
  proof -
    have "\<not> (length t > 1 \<and> t ! 0 = CHR ''.'')" "t \<noteq> []" "\<not> startsWith t ''exclude:''"
      using assms(2) by (simp_all add: plain_in_tag_def)
    then show ?thesis
      using assms(1)
      by (cases p) (auto simp: clean_def visitChar_def processOtherChar_def isControlChar_def endMode_def
          addTagPattern_def preprocessPattern_def end_pattern_def excluded_def started_def reading_def Let_def)
  qed
  moreover have "\<forall>ch \<in> set t. ch \<notin> {CHR ''['', CHR '']'', CHR '','', CHR 0x5C}"
    using assms(2) by (simp add: plain_in_tag_def)
  ultimately show ?thesis
    using visit_exclusion [OF assms(1), of arg ex "CHR ''['' # t @ CHR '']'' # cs"]
      visit_tag_text [of ?o t arg "CHR '']'' # cs"]
    by simp
qed

lemma visit_name_item:
  assumes "clean p" and "plain_name n"
  shows "\<exists>q. visit_all arg (print_item (Name_Item ex n) @ cs) p = visit_all arg cs q \<and> m_mode q = Name \<and>
    endMode q = Inr (p\<lparr>m_currentFilter := m_currentFilter p @ [item_pattern (Name_Item ex n)]\<rparr>)"
proof -
  let ?s = "started ex p"
  let ?q = "reading n (?s\<lparr>m_mode := Name\<rparr>)"
  obtain ch r where n: "n = ch # r" using assms(2) by (cases n) (simp_all add: plain_name_def)
  have plain: "ch \<notin> {CHR '' '', CHR ''~'', CHR 0x22, CHR ''['', CHR '','', CHR 0x5C}"
    "\<forall>ch \<in> set r. ch \<notin> {CHR ''['', CHR '','', CHR 0x5C}" "\<not> startsWith n ''exclude:''"
    using assms(2) by (simp_all add: plain_name_def n)
  have "visitChar ch ?s = Inr (True, reading [ch] (?s\<lparr>m_mode := Name\<rparr>))"
    using assms(1) plain(1) by (simp add: clean_def visitChar_def processNoneChar_def isControlChar_def
        add_visited_def started_def startNewMode_def reading_def Let_def)
  then have "visit_all arg (n @ cs) ?s = visit_all arg cs ?q"
    using visit_name_text [of "reading [ch] (?s\<lparr>m_mode := Name\<rparr>)" r arg cs] plain(2)
    by (simp add: n reading_Cons)
  then have "visit_all arg (print_item (Name_Item ex n) @ cs) p = visit_all arg cs ?q"
    using visit_exclusion [OF assms(1), of arg ex "n @ cs"] by simp
  moreover have "endMode ?q = Inr (p\<lparr>m_currentFilter := m_currentFilter p @ [item_pattern (Name_Item ex n)]\<rparr>)"
    using assms(1) plain(3) n
    by (cases p) (auto simp: clean_def endMode_def addNamePattern_def preprocessPattern_def end_pattern_def
        excluded_def started_def reading_def Let_def)
  ultimately show ?thesis by (intro exI [of _ ?q]) simp
qed

text \<open>A whole filter, and what comes after it: a comma or the end.\<close>

lemma clean_filter [simp]: "clean (p\<lparr>m_currentFilter := f\<rparr>) = clean p"
  by (simp add: clean_def)

lemma endMode_clean: "clean p \<Longrightarrow> endMode p = Inr p"
  by (cases p) (simp add: clean_def endMode_def startNewMode_def)

lemma visit_filter:
  "clean p \<Longrightarrow> plain_filter f \<Longrightarrow>
    \<exists>q. visit_all arg (concat (map print_item f) @ cs) p = visit_all arg cs q \<and>
      m_mode q \<in> {ModeNone, Name} \<and>
      endMode q = Inr (p\<lparr>m_currentFilter := m_currentFilter p @ map item_pattern f\<rparr>)"
proof (induction f arbitrary: p rule: plain_filter.induct)
  case (2 ex t)
  let ?q = "p\<lparr>m_currentFilter := m_currentFilter p @ [item_pattern (Tag_Item ex t)]\<rparr>"
  have "m_mode ?q = ModeNone" "endMode ?q = Inr ?q"
    using 2(1) by (simp_all add: endMode_clean) (simp add: clean_def)
  with 2 show ?case using visit_tag_item [of p t arg ex cs] by (intro exI [of _ ?q]) simp
next
  case (3 ex n)
  then obtain q where "visit_all arg (print_item (Name_Item ex n) @ cs) p = visit_all arg cs q"
    "m_mode q = Name"
    "endMode q = Inr (p\<lparr>m_currentFilter := m_currentFilter p @ [item_pattern (Name_Item ex n)]\<rparr>)"
    using visit_name_item [of p n arg ex cs] by auto
  then show ?case by (intro exI [of _ q]) simp
next
  case (4 ex t i "is")
  let ?p = "p\<lparr>m_currentFilter := m_currentFilter p @ [item_pattern (Tag_Item ex t)]\<rparr>"
  have "clean ?p" "plain_filter (i # is)" using 4(2,3) by simp_all
  from 4(1) [OF this] obtain q where "visit_all arg (concat (map print_item (i # is)) @ cs) ?p = visit_all arg cs q"
    "m_mode q \<in> {ModeNone, Name}"
    "endMode q = Inr (?p\<lparr>m_currentFilter := m_currentFilter ?p @ map item_pattern (i # is)\<rparr>)"
    by blast
  with 4(2,3) show ?case
    using visit_tag_item [of p t arg ex "concat (map print_item (i # is)) @ cs"]
    by (intro exI [of _ q]) simp
qed simp_all

lemma visit_comma:
  assumes "m_mode q \<in> {ModeNone, Name}" and "endMode q = Inr q'"
  shows "visit_all arg (CHR '','' # cs) q = visit_all arg cs (addFilter q')"
  using assms by (auto simp: visitChar_def separate_def)

lemma plain_filter_Nil: "plain_filter f \<Longrightarrow> f \<noteq> []"
  by (cases f) simp_all

lemma visit_spec:
  "clean p \<Longrightarrow> m_currentFilter p = [] \<Longrightarrow> fs \<noteq> [] \<Longrightarrow> list_all plain_filter fs \<Longrightarrow>
    \<exists>q q'. visit_all arg (print_spec fs) p = Inr q \<and> endMode q = Inr q' \<and>
      testSpec q' = (m_testSpec p)\<lparr>filters := filters (m_testSpec p) @ map (map item_pattern) fs\<rparr>"
proof (induction fs arbitrary: p rule: print_spec.induct)
  case (2 f)
  then show ?case
    using visit_filter [of p f arg "[]"] plain_filter_Nil
    by (fastforce simp: testSpec_def addFilter_def)
next
  case (3 f g fs)
  let ?p = "p\<lparr>m_currentFilter := m_currentFilter p @ map item_pattern f\<rparr>"
  obtain q where q: "visit_all arg (concat (map print_item f) @ CHR '','' # print_spec (g # fs)) p =
      visit_all arg (CHR '','' # print_spec (g # fs)) q"
    "m_mode q \<in> {ModeNone, Name}" "endMode q = Inr ?p"
    using visit_filter [of p f arg "CHR '','' # print_spec (g # fs)"] "3.prems" by auto
  have "clean (addFilter ?p)" "m_currentFilter (addFilter ?p) = []"
    "m_testSpec (addFilter ?p) = (m_testSpec p)\<lparr>filters := filters (m_testSpec p) @ [map item_pattern f]\<rparr>"
    using "3.prems" plain_filter_Nil by (auto simp: addFilter_def clean_def)
  then show ?case
    using "3.IH" [of "addFilter ?p"] "3.prems" q visit_comma [OF q(2,3), of arg "print_spec (g # fs)"]
    by auto
qed simp

text \<open>
  What is written on the command line is what is selected: parsing a printed specification
  gives its patterns, and a test matches exactly when all items of one of its comma-separated
  filters (tags or name patterns, excluded with \<open>~\<close>) select it.
\<close>

theorem spec_roundtrip:
  assumes "fs \<noteq> []" and "list_all plain_filter fs"
  shows "\<exists>spec. parseTestSpec [] (print_spec fs) = Inr spec \<and>
    filters spec = map (map item_pattern) fs \<and> invalidArgs spec = [] \<and>
    (TestSpec_matches spec tc \<longleftrightarrow> list_ex (list_all (\<lambda>i. item_selects i tc)) fs)"
proof -
  let ?p = "(TestSpecParser_new [])\<lparr>m_mode := ModeNone, m_exclusion := False,
    m_arg := print_spec fs, m_escapeChars := [], m_realPatternPos := 0\<rparr>"
  have "clean ?p" "m_currentFilter ?p = []" by (simp_all add: clean_def TestSpecParser_new_def)
  from visit_spec [OF this assms] obtain q q' where "visit_all (print_spec fs) (print_spec fs) ?p = Inr q"
    "endMode q = Inr q'" "testSpec q' = \<lparr>filters = map (map item_pattern) fs, invalidArgs = []\<rparr>"
    by (fastforce simp: TestSpecParser_new_def)
  then have "parseTestSpec [] (print_spec fs) = Inr \<lparr>filters = map (map item_pattern) fs, invalidArgs = []\<rparr>"
    by (simp add: parseTestSpec_def parse_def expandAliases_def TestSpecParser_new_def Let_def)
  then show ?thesis
    by (simp add: TestSpec_matches_def Filter_matches_def list_ex_iff list_all_iff item_pattern_matches)
qed

theorem spec_roundtrip_witness:
  "\<exists>spec. parseTestSpec [] ''[mmu]~[slow]trans*,~out-of-page'' = Inr spec \<and>
    filters spec = map (map item_pattern)
      [[Tag_Item False ''mmu'', Tag_Item True ''slow'', Name_Item False ''trans*''], [Name_Item True ''out-of-page'']] \<and>
    invalidArgs spec = [] \<and>
    (TestSpec_matches spec (example_test ''transplant-in'') \<longleftrightarrow>
      list_ex (list_all (\<lambda>i. item_selects i (example_test ''transplant-in'')))
        [[Tag_Item False ''mmu'', Tag_Item True ''slow'', Name_Item False ''trans*''], [Name_Item True ''out-of-page'']])"
proof -
  let ?fs = "[[Tag_Item False ''mmu'', Tag_Item True ''slow'', Name_Item False ''trans*''], [Name_Item True ''out-of-page'']]"
  have "list_all plain_filter ?fs"
    by (simp add: plain_in_tag_def plain_name_def startsWith_def)
  then show ?thesis
    using spec_roundtrip [of ?fs "example_test ''transplant-in''"] by simp
qed

end
