(* ===== verification/Catch_Text_Wrap.thy ===== *)
theory Catch_Text_Wrap
  imports Catch_Text_Flow
begin

text \<open>
  What breaking a text into a column keeps: the width of the column, and every character that is
  not white space; and when it comes to an end.
\<close>

section \<open>One line\<close>

definition visible :: "string \<Rightarrow> string" where
  "visible = filter (\<lambda>ch. \<not> isWhitespace ch)"

lemma visible_append [simp]: "visible (s @ t) = visible s @ visible t"
  by (simp add: visible_def)

lemma visible_spaces: "\<forall>ch \<in> set s. isWhitespace ch \<Longrightarrow> visible s = []"
  by (simp add: visible_def)

lemma newline_space [simp]: "isWhitespace newline"
  by (simp add: isWhitespace_def newline_def)

lemma to_boundary_le: "to_boundary line pos n \<le> n"
  by (induction n) auto

lemma drop_spaces_le: "drop_spaces line pos n \<le> n"
  by (induction n) auto

text \<open>Where \<open>isBoundary\<close> is called its assertions hold.\<close>

fun boundary_calls :: "string \<Rightarrow> nat \<Rightarrow> nat \<Rightarrow> nat list" where
  "boundary_calls line pos 0 = []"
| "boundary_calls line pos (Suc n) =
     (pos + Suc n) # (if \<not> isBoundary line (pos + Suc n) then boundary_calls line pos n else [])"

lemma boundary_calls_ok: "pos + n \<le> length line \<Longrightarrow> at \<in> set (boundary_calls line pos n) \<Longrightarrow> 0 < at \<and> at \<le> length line"
  by (induction n) (auto split: if_splits)

text \<open>A column that is at least two characters wider than its indentation.\<close>

definition roomy :: "Column \<Rightarrow> string \<Rightarrow> bool" where
  "roomy col text \<longleftrightarrow> m_strings col = [text] \<and> m_indentation col + 2 \<le> m_width col \<and>
     (case m_initialIndent col of None \<Rightarrow> True | Some i \<Rightarrow> i + 2 \<le> m_width col)"

lemma it_indent_update [simp]:
  "it_indent col (it\<lparr>it_suffix := b\<rparr>) = it_indent col it" "it_indent col (it\<lparr>it_end := n\<rparr>) = it_indent col it"
  "it_indent col (it\<lparr>it_len := n\<rparr>) = it_indent col it"
  by (simp_all add: it_indent_def)

lemma roomy_indent: "roomy col text \<Longrightarrow> it_indent col it + 2 \<le> m_width col"
  by (auto simp: roomy_def it_indent_def split: option.splits)

text \<open>An iterator in the text, with the length of its line.\<close>

definition on_line :: "Column \<Rightarrow> string \<Rightarrow> column_iterator \<Rightarrow> bool" where
  "on_line col text it \<longleftrightarrow> it_stringIndex it = 0 \<and> it_pos it < length text \<and> 0 < it_len it \<and>
     it_pos it + it_len it \<le> length text \<and>
     it_indent col it + it_len it + (if it_suffix it then 1 else 0) \<le> m_width col"

lemma line_end_bounds:
  assumes "pos < length line"
  shows "pos < line_end line pos" and "line_end line pos \<le> length line"
proof -
  define e where "e = (if char_at line pos = newline then pos + 1 else pos)"
  have eq: "line_end line pos = e + length (takeWhile (\<lambda>ch. ch \<noteq> newline) (drop e line))"
    by (simp add: line_end_def e_def)
  show "line_end line pos \<le> length line"
    using assms length_takeWhile_le [of "\<lambda>ch. ch \<noteq> newline" "drop e line"] by (auto simp: eq e_def)
  show "pos < line_end line pos"
  proof (cases "line ! pos = newline")
    case False
    then have "drop pos line = line ! pos # drop (Suc pos) line" using assms by (simp add: Cons_nth_drop_Suc)
    then show ?thesis using False assms by (simp add: eq e_def char_at_def)
  qed (use assms in \<open>simp add: eq e_def char_at_def\<close>)
qed

lemma line_end_nil [simp]: "line_end [] 0 = 0"
  by (simp add: line_end_def char_at_def newline_def)

lemma calcLength_on_line:
  assumes "roomy col text" and "it_stringIndex it = 0" and "it_pos it < length text"
  shows "on_line col text (calcLength col it)" and "it_pos (calcLength col it) = it_pos it"
proof -
  let ?w = "m_width col - it_indent col it"
  let ?len = "drop_spaces text (it_pos it) (to_boundary text (it_pos it) ?w)"
  have line: "current_line col (it\<lparr>it_suffix := False\<rparr>) = text"
    using assms by (simp add: current_line_def roomy_def)
  have room: "it_indent col it + 2 \<le> m_width col" by (rule roomy_indent [OF assms(1)])
  note fin = line_end_bounds [OF assms(3)]
  have "?len \<le> ?w" using drop_spaces_le to_boundary_le le_trans by blast
  then show "on_line col text (calcLength col it)"
    using assms(2,3) room fin by (auto simp: on_line_def calcLength_def Let_def line)
  show "it_pos (calcLength col it) = it_pos it"
    by (simp add: calcLength_def Let_def)
qed

text \<open>A line is never wider than the column.\<close>

lemma column_deref_length:
  assumes "on_line col text it"
  shows "length (column_deref col it) \<le> m_width col"
  using assms by (auto simp: column_deref_def addIndentAndSuffix_def plain_text_def on_line_def)

section \<open>From line to line\<close>

lemma skip_space_bounds:
  assumes "p \<le> length line"
  shows "p \<le> skip_space line p" and "skip_space line p \<le> length line"
    and "visible (drop (skip_space line p) line) = visible (drop p line)"
proof -
  show "p \<le> skip_space line p" by (simp add: skip_space_def)
  show "skip_space line p \<le> length line"
    using assms length_takeWhile_le [of isWhitespace "drop p line"] by (auto simp: skip_space_def)
  show "visible (drop (skip_space line p) line) = visible (drop p line)"
  proof (cases "p < length line \<and> line ! p = newline")
    case True
    then have "drop p line = newline # drop (Suc p) line" using Cons_nth_drop_Suc [of p line] by simp
    then show ?thesis using True by (simp add: skip_space_def visible_def)
  next
    case False
    have "visible (takeWhile isWhitespace (drop p line)) = []"
      by (rule visible_spaces) (auto dest: set_takeWhileD)
    moreover have "drop (skip_space line p) line = dropWhile isWhitespace (drop p line)"
      using False by (auto simp: skip_space_def dropWhile_eq_drop add.commute)
    ultimately show ?thesis by (metis append_Nil takeWhile_dropWhile_id visible_append)
  qed
qed

lemma column_next_step:
  assumes "roomy col text" and "on_line col text it"
  defines "it' \<equiv> column_next col it"
  shows "(on_line col text it' \<and> it_pos it < it_pos it' \<and>
      visible (drop (it_pos it) text) = visible (plain_text col it) @ visible (drop (it_pos it') text)) \<or>
    (at_end col it' \<and> visible (drop (it_pos it) text) = visible (plain_text col it))"
proof -
  let ?p = "it_pos it + it_len it"
  let ?q = "skip_space text ?p"
  have line: "current_line col it = text" and it: "it_stringIndex it = 0" "?p \<le> length text" "0 < it_len it"
    using assms(1,2) by (simp_all add: on_line_def current_line_def roomy_def)
  note q = skip_space_bounds [OF it(2)]
  have "drop (it_pos it) text = plain_text col it @ drop ?p text"
    by (simp add: plain_text_def line add.commute flip: drop_drop)
  then have vis: "visible (drop (it_pos it) text) = visible (plain_text col it) @ visible (drop ?q text)"
    using q(3) by simp
  show ?thesis
  proof (cases "?q = length text")
    case True
    then have "it' = it\<lparr>it_pos := 0, it_stringIndex := 1\<rparr>"
      using assms(1) it(1) by (simp add: it'_def column_next_def Let_def line roomy_def)
    then show ?thesis using vis True assms(1) by (simp add: at_end_def roomy_def visible_def)
  next
    case False
    then have it': "it' = calcLength col (it\<lparr>it_pos := ?q\<rparr>)"
      using assms(1) it(1) by (simp add: it'_def column_next_def Let_def line roomy_def)
    have "on_line col text it'" "it_pos it' = ?q"
      using calcLength_on_line [OF assms(1), of "it\<lparr>it_pos := ?q\<rparr>"] it(1) q(2) False by (simp_all add: it')
    then show ?thesis using vis q(1) it(3) by simp
  qed
qed

text \<open>How the lines \<open>ls\<close> show the parts of a text: indentation, part, hyphen.\<close>

definition shows_part :: "Column \<Rightarrow> string \<Rightarrow> string \<Rightarrow> bool" where
  "shows_part col l part \<longleftrightarrow>
     (\<exists>i h. l = addIndentAndSuffix i h part \<and> (i = m_indentation col \<or> m_initialIndent col = Some i))"

lemma column_deref_part: "shows_part col (column_deref col it) (plain_text col it)"
  by (auto simp: shows_part_def column_deref_def it_indent_def split: option.splits)

lemma column_lines_from:
  assumes "roomy col text" and "on_line col text it"
  shows "\<exists>ls parts. column_lines col it = Some ls \<and> list_all (\<lambda>l. length l \<le> m_width col) ls \<and>
    list_all2 (shows_part col) ls parts \<and> visible (concat parts) = visible (drop (it_pos it) text)"
  using assms(2)
proof (induction "length text - it_pos it" arbitrary: it rule: less_induct)
  case less
  have not_end: "\<not> at_end col it" using less.prems assms(1) by (simp add: at_end_def on_line_def roomy_def)
  note deref = column_deref_length [OF less.prems] column_deref_part [of col it]
  from column_next_step [OF assms(1) less.prems] show ?case
  proof (elim disjE conjE)
    assume next': "on_line col text (column_next col it)" "it_pos it < it_pos (column_next col it)"
      and vis: "visible (drop (it_pos it) text) = visible (plain_text col it) @ visible (drop (it_pos (column_next col it)) text)"
    have "length text - it_pos (column_next col it) < length text - it_pos it"
      using next' less.prems by (auto simp: on_line_def)
    from less.hyps [OF this next'(1)] obtain ls parts where "column_lines col (column_next col it) = Some ls"
      "list_all (\<lambda>l. length l \<le> m_width col) ls" "list_all2 (shows_part col) ls parts"
      "visible (concat parts) = visible (drop (it_pos (column_next col it)) text)" by blast
    then show ?thesis using not_end deref vis
      by (intro exI [of _ "column_deref col it # ls"] exI [of _ "plain_text col it # parts"])
        (subst column_lines.simps, simp)
  next
    assume fin: "at_end col (column_next col it)" and vis: "visible (drop (it_pos it) text) = visible (plain_text col it)"
    then have "column_lines col (column_next col it) = Some []" by (simp add: column_lines.simps)
    then show ?thesis using not_end deref vis
      by (intro exI [of _ "[column_deref col it]"] exI [of _ "[plain_text col it]"])
        (subst column_lines.simps, simp)
  qed
qed

text \<open>The whole text, empty or not.\<close>

lemma column_wraps:
  assumes "roomy col text"
  shows "\<exists>ls parts. Column_lines col = Some (Inr ls) \<and> list_all (\<lambda>l. length l \<le> m_width col) ls \<and>
    list_all2 (shows_part col) ls parts \<and> visible (concat parts) = visible text"
proof -
  let ?it = "calcLength col \<lparr>it_stringIndex = 0, it_pos = 0, it_len = 0, it_end = 0, it_suffix = False\<rparr>"
  have ok: "m_width col > m_indentation col \<and>
         (case m_initialIndent col of None \<Rightarrow> True | Some i \<Rightarrow> m_width col > i) \<and> m_strings col \<noteq> []"
    using assms by (auto simp: roomy_def split: option.splits)
  show ?thesis
  proof (cases "text = []")
    case True
    have "it_len ?it = 0 \<and> it_pos ?it = 0 \<and> it_stringIndex ?it = 0"
      using roomy_indent [OF assms] assms True by (simp add: calcLength_def Let_def current_line_def roomy_def)
    then have "Column_begin col = Inr (?it\<lparr>it_stringIndex := 1\<rparr>)" "at_end col (?it\<lparr>it_stringIndex := 1\<rparr>)"
      using ok assms by (simp_all add: Column_begin_def Let_def at_end_def roomy_def)
    then have "Column_lines col = Some (Inr [])" by (simp add: Column_lines_def column_lines.simps)
    then show ?thesis using True by (intro exI [of _ "[]"]) simp
  next
    case False
    have on: "on_line col text ?it" "it_pos ?it = 0" using calcLength_on_line [OF assms] False by simp_all
    then have "Column_begin col = Inr ?it" using ok by (simp add: Column_begin_def Let_def on_line_def)
    with column_lines_from [OF assms on(1)] on(2) show ?thesis by (auto simp: Column_lines_def)
  qed
qed

section \<open>Properties\<close>

text \<open>
  Breaking a text into the lines of a column that is at least two characters wider than its
  indentation ends, gives no line wider than the column, and loses nothing: the lines are the parts
  of the text in order, indented and some with a hyphen added, without white space between them.
\<close>

theorem column_keeps_text:
  assumes "roomy col text"
  shows "\<exists>ls parts. Column_lines col = Some (Inr ls) \<and> list_all (\<lambda>l. length l \<le> m_width col) ls \<and>
    list_all2 (shows_part col) ls parts \<and> visible (concat parts) = visible text"
  by (rule column_wraps [OF assms])

theorem column_keeps_text_witness:
  "\<exists>ls parts. Column_lines \<lparr>m_strings = [''hits == 1 (with a long explanation)''], m_width = 10, m_indentation = 2,
      m_initialIndent = Some 4\<rparr> = Some (Inr ls) \<and> list_all (\<lambda>l. length l \<le> 10) ls \<and>
    list_all2 (shows_part \<lparr>m_strings = [''hits == 1 (with a long explanation)''], m_width = 10, m_indentation = 2,
      m_initialIndent = Some 4\<rparr>) ls parts \<and>
    visible (concat parts) = ''hits==1(withalongexplanation)''"
  using column_keeps_text [of "\<lparr>m_strings = [''hits == 1 (with a long explanation)''], m_width = 10, m_indentation = 2,
      m_initialIndent = Some 4\<rparr>" "''hits == 1 (with a long explanation)''"]
  by (simp add: roomy_def visible_def isWhitespace_def)

text \<open>
  One character is not enough: a word of two characters leaves room for the hyphen only, and the
  iterator stays where it is. At the start of the text it is taken for the empty string instead.
\<close>

definition narrow :: "string \<Rightarrow> Column" where
  "narrow text = (Column_new text)\<lparr>m_width := 1\<rparr>"

abbreviation stuck :: column_iterator where
  "stuck \<equiv> \<lparr>it_stringIndex = 0, it_pos = 2, it_len = 0, it_end = 4, it_suffix = True\<rparr>"

abbreviation first_line :: column_iterator where
  "first_line \<equiv> \<lparr>it_stringIndex = 0, it_pos = 0, it_len = 1, it_end = 4, it_suffix = False\<rparr>"

lemma stuck_column:
  assumes "column_next col it = it" and "\<not> at_end col it"
  shows "column_lines col it = None"
proof (cases "column_lines col it")
  case (Some ls)
  have "column_lines col it = Option.bind (column_lines col (column_next col it)) (\<lambda>ls. Some (column_deref col it # ls))"
    by (subst column_lines.simps) (simp add: assms(2))
  then have "ls = column_deref col it # ls" using Some assms(1) by simp
  then show ?thesis by simp
qed

theorem narrow_column_stuck:
  "Column_lines (narrow ''a bc'') = None \<and> Column_lines (narrow ''bc'') = Some (Inr [])"
proof
  have start: "Column_begin (narrow ''a bc'') = Inr first_line" by code_simp
  have "column_next (narrow ''a bc'') stuck = stuck" by code_simp
  then have "column_lines (narrow ''a bc'') stuck = None" by (rule stuck_column) (simp add: at_end_def)
  moreover have "column_next (narrow ''a bc'') first_line = stuck" by code_simp
  ultimately have "column_lines (narrow ''a bc'') first_line = None"
    by (subst column_lines.simps) (simp add: at_end_def narrow_def Column_new_def)
  then show "Column_lines (narrow ''a bc'') = None" by (simp add: Column_lines_def start)
  have "Column_begin (narrow ''bc'') = Inr \<lparr>it_stringIndex = 1, it_pos = 0, it_len = 0, it_end = 2, it_suffix = True\<rparr>"
    by code_simp
  then show "Column_lines (narrow ''bc'') = Some (Inr [])"
    by (simp add: Column_lines_def column_lines.simps at_end_def narrow_def Column_new_def)
qed

end
