(* ===== verification/Catch_Command_Run.thy ===== *)
theory Catch_Command_Run
  imports Catch_Command_Line Catch_Command_Settings Catch_Spec_Syntax Catch_Text_Wrap
begin

text \<open>
  The command line of the test program: how its arguments are read, what they change in the
  configuration, and what a run does with it.
\<close>

section \<open>The parser of the test program\<close>

lemma command_line_parser_ok: "Parser_ok (makeCommandLineParser outside)"
  by (simp add: Parser_ok_def makeCommandLineParser_def Help_def list_options_def output_options_def run_options_def
      long_options_def benchmark_options_def Opt_new_def Opt_validate_def)

lemma command_line_unambiguous: "unambiguous (makeCommandLineParser outside)"
  by (simp add: unambiguous_def makeCommandLineParser_def Help_def list_options_def output_options_def run_options_def
      long_options_def benchmark_options_def Opt_new_def tests_arg_def vector_of_def)

lemma command_line_exeName [simp]:
  "m_exeName (makeCommandLineParser outside) exe c = c\<lparr>processName := exe\<rparr>"
  by (simp add: makeCommandLineParser_def)

definition example_outside :: Outside where
  "example_outside = \<lparr>registered_reporters = [''console'', ''junit'', ''xml''],
     read_file = (\<lambda>f. if f = ''smoke'' then Some [''[mmu]'', ''# slow'', ''host transplant''] else None),
     time_now = 7, reads_double = (\<lambda>s. s \<in> {''1'', ''0.5''})\<rparr>"

text \<open>
  The spellings of an option mean the same, whatever comes before and after on the command
  line: \<open>--opt=v\<close>, \<open>--opt:v\<close> and \<open>--opt v\<close> in one argument, and \<open>--opt\<close> followed by the
  argument \<open>v\<close>; and \<open>-sab\<close> and \<open>-s -a -b\<close>.
\<close>

theorem spellings_agree:
  assumes "option_word opt" and "argument_word v" and "d \<in> set '' :=''"
    and "s \<noteq> ''''" and "hd s \<noteq> CHR ''-''" and "set s \<inter> set '' :='' = {}"
  shows "Parser_parse (makeCommandLineParser outside) exe (before @ [opt @ d # v] @ after) c =
      Parser_parse (makeCommandLineParser outside) exe (before @ [opt, v] @ after) c \<and>
    Parser_parse (makeCommandLineParser outside) exe (before @ [CHR ''-'' # s] @ after) c =
      Parser_parse (makeCommandLineParser outside) exe (before @ map (\<lambda>ch. [CHR ''-'', ch]) s @ after) c"
  using spellings_read(1) [OF command_line_parser_ok assms(1-3)] spellings_read(2) [OF command_line_parser_ok assms(4-6)]
  by blast

theorem spellings_agree_witness:
  "Parser_parse (makeCommandLineParser example_outside) ''kraken'' ([''-s''] @ [''--order=lex''] @ [''[mmu]'']) ConfigData_default =
     Parser_parse (makeCommandLineParser example_outside) ''kraken'' ([''-s''] @ [''--order'', ''lex''] @ [''[mmu]'']) ConfigData_default \<and>
   Parser_parse (makeCommandLineParser example_outside) ''kraken'' ([''-s''] @ [''-eab''] @ [''[mmu]'']) ConfigData_default =
     Parser_parse (makeCommandLineParser example_outside) ''kraken'' ([''-s''] @ [''-e'', ''-a'', ''-b''] @ [''[mmu]'']) ConfigData_default"
  using spellings_agree [of "''--order''" "''lex''" "CHR ''=''" "''eab''" example_outside "''kraken''" "[''-s'']" "[''[mmu]'']" ConfigData_default]
  by (simp add: option_word_def argument_word_def)

text \<open>
  C33. The command line means what its user means: options under any of their names, with and
  without values, and tests, written as arguments in any order with no option twice that can be
  given once, are carried out one after the other in that order, on the configuration with the
  name of the program in it, up to the first that fails or asks for help. Values and tests are
  words that are not empty and do not begin with \<open>-\<close> (\<open>argument_word\<close>, a part of
  \<open>setting_ok\<close>): a value as in \<open>-x -1\<close> is taken for an option, and an empty one is skipped.
\<close>

theorem settings_carried_out:
  assumes "list_all (setting_ok (makeCommandLineParser outside)) ss"
    and "once_each (makeCommandLineParser outside) ss"
  shows "Parser_parse (makeCommandLineParser outside) exe (print_settings ss) c =
    Some (map_sum id snd (carry_out_all (makeCommandLineParser outside) ss (c\<lparr>processName := executable_name exe\<rparr>)))"
  using settings_read [OF command_line_parser_ok command_line_unambiguous assms, of exe c] by simp

lemmas command_line_options =
  makeCommandLineParser_def Help_def list_options_def output_options_def run_options_def long_options_def
  benchmark_options_def Opt_new_def tests_arg_def

lemmas command_line_refs =
  handler_def flag_def value_of_def vector_of_def assigns_def invokeLambda_def reads_value_def

theorem settings_carried_out_witness:
  "Parser_parse (makeCommandLineParser example_outside) ''./bin/kraken''
     [''--success'', ''-x'', ''2'', ''--order'', ''lex'', ''[mmu]'', ''-c'', ''first'', ''-c'', ''second''] ConfigData_default =
   Some (Inr (ConfigData_default\<lparr>processName := ''kraken'', showSuccessfulTests := True, abortAfter := 2,
     runOrder := InLexicographicalOrder, testsOrTags := [''[mmu]''], sectionsToRun := [''first'', ''second'']\<rparr>))"
proof -
  let ?p = "makeCommandLineParser example_outside"
  let ?ss = "[Set_Flag 3 ''--success'', Set_Value 11 ''-x'' ''2'', Set_Value 21 ''--order'' ''lex'', Set_Arg ''[mmu]'',
    Set_Value 17 ''-c'' ''first'', Set_Value 17 ''-c'' ''second'']"
  have ok: "list_all (setting_ok ?p) ?ss"
    by (simp add: command_line_options command_line_refs option_word_def argument_word_def)
  have once: "once_each ?p ?ss"
    by (auto simp: once_each_def command_line_options command_line_refs cardinality_def)
  have exe: "executable_name ''./bin/kraken'' = ''kraken''"
    by (simp add: executable_name_def upt_rec)
  have "convertInto_int 32 ''2'' = Inr 2" "startsWith ''declared'' ''lex'' = False" "startsWith ''lexical'' ''lex''"
    by code_simp+
  then have "carry_out_all ?p ?ss (ConfigData_default\<lparr>processName := ''kraken''\<rparr>) = Inr (True,
      ConfigData_default\<lparr>processName := ''kraken'', showSuccessfulTests := True, abortAfter := 2,
     runOrder := InLexicographicalOrder, testsOrTags := [''[mmu]''], sectionsToRun := [''first'', ''second'']\<rparr>)"
    by (simp add: command_line_options command_line_refs goes_on_def set_flag_def set_value_def setTestOrder_def ConfigData_default_def)
  then show ?thesis
    using settings_carried_out [OF ok once, of "''./bin/kraken''" ConfigData_default] by (simp add: print_settings_def exe)
qed

text \<open>
  C36. An option that is not bound to a container is rejected when it is given again, under
  whichever of its names: the command line is in error although each use alone is right. This is
  so for \<open>-w\<close> and \<open>-f\<close>, whose handlers add to what is there.
\<close>

theorem second_use_rejected:
  assumes "list_all (setting_ok (makeCommandLineParser outside)) ss"
    and "once_each (makeCommandLineParser outside) ss"
    and "names_option (makeCommandLineParser outside) k nm"
    and "\<not> isContainer (m_ref (m_options (makeCommandLineParser outside) ! k))" and "uses ss k \<noteq> 0"
    and "carry_out_all (makeCommandLineParser outside) ss (c\<lparr>processName := executable_name exe\<rparr>) = Inr (True, c')"
  shows "Parser_parse (makeCommandLineParser outside) exe (print_settings ss @ nm # args) c =
    Some (Inl (RuntimeError (''Unrecognised token: '' @ nm)))"
  using second_use_read [OF command_line_parser_ok command_line_unambiguous assms(1-3), of exe c c' args] assms(4-6)
  by (simp add: cardinality_def)

theorem second_use_rejected_witness:
  "Parser_parse (makeCommandLineParser example_outside) ''kraken'' [''-w'', ''NoTests'', ''--warn'', ''NoAssertions''] ConfigData_default =
     Some (Inl (RuntimeError ''Unrecognised token: --warn''))"
proof -
  let ?p = "makeCommandLineParser example_outside"
  let ?ss = "[Set_Value 12 ''-w'' ''NoTests'']"
  have ok: "list_all (setting_ok ?p) ?ss" "names_option ?p 12 ''--warn''" "\<not> isContainer (m_ref (m_options ?p ! 12))"
    by (simp_all add: command_line_options command_line_refs option_word_def argument_word_def)
  have once: "once_each ?p ?ss"
    by (auto simp: once_each_def command_line_options command_line_refs cardinality_def)
  have "setWarning ''NoTests'' c = Inr (c\<lparr>warnings := warnings c OR NoTests\<rparr>)" for c
    by (simp add: setWarning_def NoTests_def WarnNothing_def)
  then have "carry_out_all ?p ?ss c = Inr (True, c\<lparr>warnings := warnings c OR NoTests\<rparr>)" for c
    by (simp add: command_line_options command_line_refs goes_on_def set_value_def)
  then show ?thesis
    using second_use_rejected [where c = ConfigData_default and exe = "''kraken''" and args = "[''NoAssertions'']",
      OF ok(1) once ok(2,3)]
    by (simp add: print_settings_def)
qed

section \<open>Errors\<close>

text \<open>The parser of the test program fails with a message only.\<close>

definition tells_message :: "'c ParserInfo \<Rightarrow> bool" where
  "tells_message i \<longleftrightarrow>
     (case ref_of i of
        BoundFlagRef f \<Rightarrow> is_option i \<and> (\<forall>b c e. f b c = Inl e \<longrightarrow> (\<exists>m. e = RuntimeError m))
      | BoundValueRef _ f \<Rightarrow> \<forall>v c e. f v c = Inl e \<longrightarrow> (\<exists>m. e = RuntimeError m))"

lemma apply_token_message:
  "tells_message i \<Longrightarrow> apply_token i t rest c = Inl e \<Longrightarrow> \<exists>m. e = RuntimeError m"
  by (fastforce simp: tells_message_def apply_token_def map_sum_def split: BoundRef.splits list.splits sum.splits if_splits)

lemma tells_message_count [simp]: "tells_message (count_match i) = tells_message i"
  by (cases "ref_of i") (simp_all add: tells_message_def)

lemma read_tokens_message:
  "\<forall>i \<in> set is. tells_message i \<Longrightarrow> read_tokens is toks c = Inl e \<Longrightarrow> \<exists>m. e = RuntimeError m"
proof (induction "is" toks c rule: read_tokens.induct)
  case (2 "is" t rest c)
  show ?case
  proof (cases "chosen is t")
    case None
    then show ?thesis using "2.prems" by auto
  next
    case (Some k)
    then have k: "tells_message (is ! k)" using "2.prems"(1) by (simp add: chosen_first)
    then have set: "\<forall>i \<in> set (is[k := count_match (is ! k)]). tells_message i"
      using "2.prems"(1) set_update_subset_insert [of "is" k "count_match (is ! k)"] by auto
    show ?thesis
    proof (cases "apply_token (is ! k) t rest c")
      case (Inl e')
      then show ?thesis using "2.prems"(2) Some apply_token_message [OF k Inl] by simp
    next
      case (Inr r)
      then show ?thesis
        using "2.IH" [OF Some Inr _ _ set] "2.prems"(2) Some by (cases r; cases "fst r") auto
    qed
  qed
qed simp

lemma convert_messages:
  "convertInto_int w s = Inl e \<Longrightarrow> \<exists>m. e = RuntimeError m"
  "convertInto_unsigned s = Inl e \<Longrightarrow> \<exists>m. e = RuntimeError m"
  "convertInto_bool s = Inl e \<Longrightarrow> \<exists>m. e = RuntimeError m"
  by (auto simp: convertInto_int_def convertInto_unsigned_def convertInto_bool_def conversion_error_def Let_def
      split: option.splits if_splits)

lemma command_line_message:
  assumes "Parser_parse (makeCommandLineParser outside) exe args c = Some (Inl e)"
  shows "\<exists>m. e = RuntimeError m"
proof -
  have "\<forall>i \<in> set (parse_infos (makeCommandLineParser outside)). tells_message i"
    by (auto simp: parse_infos_def tells_message_def command_line_options command_line_refs setRngSeed_def conversion_error_def
        dest: convert_messages split: sum.splits if_splits)
  then show ?thesis
    using assms read_tokens_message by (fastforce simp: Parser_parse_read [OF command_line_parser_ok])
qed

text \<open>
  C37. Arguments that are in error run no test: the program ends with the exit code 255, after a
  report that shows the whole error message, broken into indented lines of at most 79 columns.
\<close>

theorem bad_arguments_run_nothing:
  assumes "Parser_parse (makeCommandLineParser outside) exe args (configData s) = Some (Inl e)"
    and "\<not> startupExceptions s"
  shows "session_run next_value bodies here outside reportAll exe args s = Some (Inr 255) \<and>
    (\<exists>ls parts. applyCommandLine outside exe args s = Some (Inr (255,
      newline # ''Error(s) in input:'' @ [newline] @ join_lines ls @ [newline, newline] @
        ''Run with -? for usage'' @ [newline, newline], s)) \<and>
      list_all (\<lambda>l. length l \<le> 79) ls \<and> visible (concat parts) = visible (errorMessage e) \<and>
      list_all2 (\<lambda>l part. l = ''  '' @ part \<or> l = ''  '' @ part @ ''-'') ls parts)"
proof -
  let ?col = "(Column_new (errorMessage e))\<lparr>m_indentation := 2\<rparr>"
  have "roomy ?col (errorMessage e)" by (simp add: roomy_def Column_new_def CONSOLE_WIDTH_def)
  from column_wraps [OF this] obtain ls parts where ls: "Column_lines ?col = Some (Inr ls)"
    "list_all (\<lambda>l. length l \<le> 79) ls" "list_all2 (shows_part ?col) ls parts"
    "visible (concat parts) = visible (errorMessage e)"
    by (auto simp: Column_new_def CONSOLE_WIDTH_def)
  have e: "e \<noteq> Assert_Abort" using command_line_message [OF assms(1)] by auto
  have applied: "applyCommandLine outside exe args s = Some (Inr (255,
      newline # ''Error(s) in input:'' @ [newline] @ join_lines ls @ [newline, newline] @
        ''Run with -? for usage'' @ [newline, newline], s))"
    using assms e ls(1) by (simp add: applyCommandLine_def Column_toString_def MaxExitCode_def)
  have "session_run next_value bodies here outside reportAll exe args s = Some (Inr 255)"
    using assms(2) by (simp add: session_run_def applied)
  moreover have "list_all2 (\<lambda>l part. l = ''  '' @ part \<or> l = ''  '' @ part @ ''-'') ls parts"
    using ls(3) by (rule list_all2_mono)
      (auto simp: shows_part_def addIndentAndSuffix_def Column_new_def numeral_2_eq_2)
  ultimately show ?thesis using applied ls by blast
qed

definition example_session :: "nat Session" where
  "example_session = \<lparr>configData = ConfigData_default, startupExceptions = False, registry = example_registry, aliases = []\<rparr>"

theorem bad_arguments_run_nothing_witness:
  "session_run (\<lambda>g::unit. (True, g)) (\<lambda>i rc. None) \<lparr>src_file = ''main.cpp'', src_line = 1\<rparr> example_outside True
     ''kraken'' [''--frobnicate''] example_session = Some (Inr 255) \<and>
   (\<exists>ls parts. applyCommandLine example_outside ''kraken'' [''--frobnicate''] example_session = Some (Inr (255,
      newline # ''Error(s) in input:'' @ [newline] @ join_lines ls @ [newline, newline] @
        ''Run with -? for usage'' @ [newline, newline], example_session)) \<and>
      list_all (\<lambda>l. length l \<le> 79) ls \<and> visible (concat parts) = visible ''Unrecognised token: --frobnicate'' \<and>
      list_all2 (\<lambda>l part. l = ''  '' @ part \<or> l = ''  '' @ part @ ''-'') ls parts)"
proof -
  have "chosen (parse_infos (makeCommandLineParser example_outside)) (option_token ''--frobnicate'') = None"
    by (simp add: parse_infos_def command_line_options)
  then have bad: "Parser_parse (makeCommandLineParser example_outside) ''kraken'' [''--frobnicate''] (configData example_session) =
      Some (Inl (RuntimeError ''Unrecognised token: --frobnicate''))"
    by (simp add: Parser_parse_read [OF command_line_parser_ok] tokens_of_option option_word_def)
  show ?thesis
    using bad_arguments_run_nothing [OF bad] by (simp add: example_session_def errorMessage_def)
qed

section \<open>The tests of the command line\<close>

text \<open>
  C34. The test specification on the command line decides which tests run: given as the one
  argument, a printed specification reaches the run's configuration, and the tests it filters
  are those that all items of one of its comma-separated filters select and that may run. The
  specifications are plain ones (\<open>plain_filter\<close>): a filter is some tags, then at most one name,
  there are no commas, opening brackets or backslashes inside tags and names and no closing
  brackets inside tags, a tag does not begin with a dot, a name not with a blank, a tilde or a
  quote, and neither with \<open>exclude:\<close>. What is printed has no white space at its ends and does not
  begin with \<open>-\<close> (\<open>argument_word\<close>), and no specification was in the configuration before.
\<close>

theorem command_line_selects:
  assumes "fs \<noteq> []" and "list_all plain_filter fs" and "trim (print_spec fs) = print_spec fs"
    and "argument_word (print_spec fs)" and "testsOrTags data = []"
  shows "\<exists>config cfg. Parser_parse (makeCommandLineParser outside) exe [print_spec fs] data = Some (Inr config) \<and>
    Config_new [] config = Inr cfg \<and>
    filterTests tests (cfg_testSpec cfg) cfg =
      filter (\<lambda>t. list_ex (list_all (\<lambda>i. item_selects i t)) fs \<and> (throws t \<longrightarrow> \<not> noThrow data)) tests"
proof -
  let ?p = "makeCommandLineParser outside" and ?ss = "[Set_Arg (print_spec fs)]"
  let ?config = "data\<lparr>processName := executable_name exe, testsOrTags := [print_spec fs]\<rparr>"
  have "carry_out_all ?p ?ss (data\<lparr>processName := executable_name exe\<rparr>) = Inr (True, ?config)"
    using assms(5) by (simp add: command_line_options command_line_refs set_value_def)
  then have parsed: "Parser_parse ?p exe [print_spec fs] data = Some (Inr ?config)"
    using settings_read [OF command_line_parser_ok command_line_unambiguous, of outside ?ss exe data] assms(4)
    by (simp add: once_each_def print_settings_def)
  let ?q = "(TestSpecParser_new [])\<lparr>m_mode := ModeNone, m_exclusion := False,
    m_arg := print_spec fs, m_escapeChars := [], m_realPatternPos := 0\<rparr>"
  have "clean ?q" "m_currentFilter ?q = []" by (simp_all add: clean_def TestSpecParser_new_def)
  from visit_spec [OF this assms(1,2)] obtain q q' where q: "visit_all (print_spec fs) (print_spec fs) ?q = Inr q"
    "endMode q = Inr q'" "testSpec q' = \<lparr>filters = map (map item_pattern) fs, invalidArgs = []\<rparr>"
    by (fastforce simp: TestSpecParser_new_def)
  then have "parse (print_spec fs) (TestSpecParser_new []) = Inr q'"
    by (simp add: parse_def expandAliases_def TestSpecParser_new_def Let_def)
  then obtain cfg where cfg: "Config_new [] ?config = Inr cfg" "cfg_testSpec cfg = testSpec q'"
      "noThrow (cfg_data cfg) = noThrow data"
    using assms(3) by (simp add: Config_new_def Let_def)
  have "filterTests tests (cfg_testSpec cfg) cfg =
      filter (\<lambda>t. list_ex (list_all (\<lambda>i. item_selects i t)) fs \<and> (throws t \<longrightarrow> \<not> noThrow data)) tests"
    using assms(1) cfg(2,3) q(3)
    by (auto simp: filterTests_def hasFilters_def matchTest_def TestSpec_matches_def Filter_matches_def list_ex_iff
        list_all_iff item_pattern_matches isThrowSafe_def allowThrows_def intro!: filter_cong)
  with parsed cfg(1) show ?thesis by blast
qed

theorem command_line_selects_witness:
  "\<exists>config cfg. Parser_parse (makeCommandLineParser example_outside) ''kraken'' [''[mmu]~[slow]trans*,exec*''] ConfigData_default = Some (Inr config) \<and>
    Config_new [] config = Inr cfg \<and>
    filterTests [example_test ''transplant-in'', example_test ''execute-instruction''] (cfg_testSpec cfg) cfg =
      filter (\<lambda>t. list_ex (list_all (\<lambda>i. item_selects i t))
          [[Tag_Item False ''mmu'', Tag_Item True ''slow'', Name_Item False ''trans*''], [Name_Item False ''exec*'']] \<and>
        (throws t \<longrightarrow> \<not> noThrow ConfigData_default)) [example_test ''transplant-in'', example_test ''execute-instruction'']"
proof -
  let ?fs = "[[Tag_Item False ''mmu'', Tag_Item True ''slow'', Name_Item False ''trans*''], [Name_Item False ''exec*'']]"
  have "list_all plain_filter ?fs"
    by (simp add: plain_in_tag_def plain_name_def startsWith_def)
  moreover have "trim (print_spec ?fs) = print_spec ?fs"
    by (simp add: trim_strip strip_def is_ws_def)
  moreover have "argument_word (print_spec ?fs)" by (simp add: argument_word_def)
  ultimately show ?thesis
    using command_line_selects [of ?fs ConfigData_default example_outside "''kraken''"
        "[example_test ''transplant-in'', example_test ''execute-instruction'']"]
    by (simp add: ConfigData_default_def del: filter.simps)
qed

end
