(* ===== verification/Catch_Help_Screen.thy ===== *)
theory Catch_Help_Screen
  imports Catch_Command_Run
begin

text \<open>
  Columns side by side as rows of the lines of each column, and the help screen of the test
  program, which shows every option in them.
\<close>

section \<open>Columns as lists of lines\<close>

text \<open>A row takes the next line of every column and pads it to the width, except at the end.\<close>

definition row_cell :: "nat \<times> string list \<Rightarrow> string \<times> string \<Rightarrow> string \<times> string" where
  "row_cell = (\<lambda>(w, ls) (row, padding).
     case ls of [] \<Rightarrow> (row, padding @ replicate w CHR '' '')
     | l # _ \<Rightarrow> (row @ padding @ l, replicate (w - length l) CHR '' ''))"

definition next_row :: "(nat \<times> string list) list \<Rightarrow> string" where
  "next_row cells = fst (fold row_cell cells ('''', ''''))"

definition next_cells :: "(nat \<times> string list) list \<Rightarrow> (nat \<times> string list) list" where
  "next_cells cells = map (\<lambda>(w, ls). (w, tl ls)) cells"

definition lines_left :: "(nat \<times> string list) list \<Rightarrow> nat" where
  "lines_left cells = sum_list (map (\<lambda>(w, ls). length ls) cells)"

lemma next_cells_le: "lines_left (next_cells cells) \<le> lines_left cells"
  by (induction cells) (auto simp: lines_left_def next_cells_def)

lemma next_cells_less: "list_ex (\<lambda>(w, ls). ls \<noteq> []) cells \<Longrightarrow> lines_left (next_cells cells) < lines_left cells"
proof (induction cells)
  case (Cons cell cells)
  then show ?case
    using next_cells_le [of cells] by (cases cell; cases "snd cell") (auto simp: lines_left_def next_cells_def)
qed simp

function side_by_side :: "(nat \<times> string list) list \<Rightarrow> string list" where
  "side_by_side cells =
     (if list_ex (\<lambda>(w, ls). ls \<noteq> []) cells then next_row cells # side_by_side (next_cells cells) else [])"
  by auto
termination by (relation "measure lines_left") (simp_all add: next_cells_less)

declare side_by_side.simps [simp del]

text \<open>The iterators of the columns, with the lines they will give.\<close>

definition gives :: "Columns \<Rightarrow> column_iterator list \<Rightarrow> string list list \<Rightarrow> bool" where
  "gives cols its lss \<longleftrightarrow> length its = length cols \<and> length lss = length cols \<and>
     (\<forall>i < length cols. column_lines (cols ! i) (its ! i) = Some (lss ! i))"

lemma column_lines_cases:
  assumes "column_lines col it = Some ls"
  shows "at_end col it \<and> ls = [] \<or>
    \<not> at_end col it \<and> (\<exists>ls'. ls = column_deref col it # ls' \<and> column_lines col (column_next col it) = Some ls')"
  using assms by (subst (asm) column_lines.simps) (auto split: if_splits Option.bind_splits)

lemma gives_Cons:
  "gives (col # cols) its lss \<longleftrightarrow>
     (\<exists>it its' ls lss'. its = it # its' \<and> lss = ls # lss' \<and> column_lines col it = Some ls \<and> gives cols its' lss')"
  by (cases its; cases lss) (auto simp: gives_def less_Suc_eq_0_disj)

lemma gives_Nil: "gives [] its lss \<longleftrightarrow> its = [] \<and> lss = []"
  by (auto simp: gives_def)

lemma gives_row:
  assumes "gives cols its lss"
  shows "fold row_step (zip cols its) rp = fold row_cell (zip (map m_width cols) lss) rp"
  using assms
proof (induction cols arbitrary: its lss rp)
  case (Cons col cols)
  from Cons.prems obtain it its' ls lss' where *: "its = it # its'" "lss = ls # lss'"
    "column_lines col it = Some ls" "gives cols its' lss'" by (auto simp: gives_Cons)
  have "row_step (col, it) rp = row_cell (m_width col, ls) rp"
    using column_lines_cases [OF *(3)] by (cases rp) (auto simp: row_step_def row_cell_def Let_def)
  then show ?case using Cons.IH [OF *(4)] * by simp
qed (simp add: gives_Nil)

lemma gives_next: "gives cols its lss \<Longrightarrow> gives cols (columns_next cols its) (map tl lss)"
proof (induction cols arbitrary: its lss)
  case (Cons col cols)
  from Cons.prems obtain it its' ls lss' where *: "its = it # its'" "lss = ls # lss'"
    "column_lines col it = Some ls" "gives cols its' lss'" by (auto simp: gives_Cons)
  then show ?case
    using column_lines_cases [OF *(3)] Cons.IH [OF *(4)] by (auto simp: gives_Cons columns_next_def)
qed (simp add: gives_Nil columns_next_def)

lemma gives_end:
  "gives cols its lss \<Longrightarrow> columns_at_end cols its \<longleftrightarrow> \<not> list_ex (\<lambda>(w, ls). ls \<noteq> []) (zip (map m_width cols) lss)"
proof (induction cols arbitrary: its lss)
  case (Cons col cols)
  from Cons.prems obtain it its' ls lss' where *: "its = it # its'" "lss = ls # lss'"
    "column_lines col it = Some ls" "gives cols its' lss'" by (auto simp: gives_Cons)
  then show ?case
    using column_lines_cases [OF *(3)] Cons.IH [OF *(4)] by (auto simp: columns_at_end_def)
qed (simp add: gives_Nil columns_at_end_def)

lemma columns_rows_side_by_side:
  "gives cols its lss \<Longrightarrow> columns_rows cols its = Some (side_by_side (zip (map m_width cols) lss))"
proof (induction "zip (map m_width cols) lss" arbitrary: its lss rule: side_by_side.induct)
  case 1
  have tls: "next_cells (zip (map m_width cols) lss) = zip (map m_width cols) (map tl lss)"
    by (simp add: next_cells_def zip_map2 split_def comp_def map_prod_def)
  show ?case
  proof (cases "columns_at_end cols its")
    case True
    then show ?thesis
      using gives_end [OF 1(2)] by (subst columns_rows.simps) (simp add: side_by_side.simps [of "zip _ _"])
  next
    case False
    then have more: "list_ex (\<lambda>(w, ls). ls \<noteq> []) (zip (map m_width cols) lss)" using gives_end [OF 1(2)] by simp
    have "columns_deref cols its = next_row (zip (map m_width cols) lss)"
      by (simp add: columns_deref_def next_row_def gives_row [OF 1(2)])
    then show ?thesis
      using False more 1(1) [OF more tls gives_next [OF 1(2)]]
      by (subst columns_rows.simps, subst side_by_side.simps) (simp add: tls)
  qed
qed

section \<open>Width\<close>

definition fits :: "(nat \<times> string list) list \<Rightarrow> bool" where
  "fits cells \<longleftrightarrow> (\<forall>(w, ls) \<in> set cells. list_all (\<lambda>l. length l \<le> w) ls)"

lemma row_cell_length:
  assumes "list_all (\<lambda>l. length l \<le> w) ls"
  shows "length (fst (row_cell (w, ls) rp)) + length (snd (row_cell (w, ls) rp)) = length (fst rp) + length (snd rp) + w"
  using assms by (cases ls) (simp_all add: row_cell_def split_def)

lemma fold_row_cell_length:
  "fits cells \<Longrightarrow> length (fst (fold row_cell cells rp)) + length (snd (fold row_cell cells rp)) =
     length (fst rp) + length (snd rp) + sum_list (map fst cells)"
proof (induction cells arbitrary: rp)
  case (Cons cell cells)
  obtain w ls where cell: "cell = (w, ls)" by (rule prod.exhaust)
  then have *: "list_all (\<lambda>l. length l \<le> w) ls" and **: "fits cells"
    using Cons.prems by (simp_all add: fits_def)
  show ?case
    using Cons.IH [OF **, of "row_cell cell rp"] row_cell_length [OF *, of rp] unfolding cell by simp
qed simp

lemma fits_next: "fits cells \<Longrightarrow> fits (next_cells cells)"
proof (induction cells)
  case (Cons cell cells)
  obtain w ls where "cell = (w, ls)" by (rule prod.exhaust)
  then show ?case using Cons by (cases ls) (simp_all add: fits_def next_cells_def)
qed (simp add: fits_def next_cells_def)

lemma side_by_side_width:
  "fits cells \<Longrightarrow> list_all (\<lambda>l. length l \<le> sum_list (map fst cells)) (side_by_side cells)"
proof (induction cells rule: side_by_side.induct)
  case (1 cells)
  have "length (next_row cells) \<le> sum_list (map fst cells)"
    using fold_row_cell_length [OF 1(2), of "('''', '''')"] by (simp add: next_row_def)
  moreover have "fits (next_cells cells)"
    by (rule fits_next [OF 1(2)])
  moreover have "map fst (next_cells cells) = map fst cells" by (auto simp: next_cells_def)
  ultimately show ?case using 1(1) by (subst side_by_side.simps) simp
qed

section \<open>The help screen\<close>

lemma column_begin_lines:
  "Column_lines col = Some (Inr ls) \<Longrightarrow> \<exists>it. Column_begin col = Inr it \<and> column_lines col it = Some ls"
  by (auto simp: Column_lines_def split: sum.splits)

lemma Columns_begin_gives:
  "list_all2 (\<lambda>col ls. Column_lines col = Some (Inr ls)) cols lss \<Longrightarrow> \<exists>its. Columns_begin cols = Inr its \<and> gives cols its lss"
proof (induction rule: list_all2_induct)
  case (Cons col cols ls lss)
  then show ?case using column_begin_lines [of col ls] by (auto simp: gives_Cons)
qed (simp add: gives_Nil)

lemma Columns_toString_rows:
  assumes "list_all2 (\<lambda>col ls. Column_lines col = Some (Inr ls)) cols lss"
  shows "Columns_toString cols = Some (Inr (join_lines (side_by_side (zip (map m_width cols) lss))))"
  using Columns_begin_gives [OF assms] by (auto simp: Columns_toString_def columns_rows_side_by_side)

text \<open>A cell of the help screen: lines no wider than its column that show the text.\<close>

definition shows_text :: "nat \<Rightarrow> nat \<Rightarrow> string \<Rightarrow> string list \<Rightarrow> bool" where
  "shows_text width indent text ls \<longleftrightarrow> list_all (\<lambda>l. length l \<le> width) ls \<and>
     (\<exists>parts. visible (concat parts) = visible text \<and>
        list_all2 (\<lambda>l part. l = replicate indent CHR '' '' @ part \<or> l = replicate indent CHR '' '' @ part @ ''-'') ls parts)"

lemma column_shows_text:
  assumes "n + 2 \<le> w"
  shows "\<exists>ls. Column_lines ((Column_new text)\<lparr>m_width := w, m_indentation := n\<rparr>) = Some (Inr ls) \<and> shows_text w n text ls"
proof -
  let ?col = "(Column_new text)\<lparr>m_width := w, m_indentation := n\<rparr>"
  have "roomy ?col text" using assms by (simp add: roomy_def Column_new_def)
  from column_wraps [OF this] obtain ls parts where ls: "Column_lines ?col = Some (Inr ls)"
    "list_all (\<lambda>l. length l \<le> w) ls" "list_all2 (shows_part ?col) ls parts" "visible (concat parts) = visible text"
    by (auto simp: Column_new_def)
  have "list_all2 (\<lambda>l part. l = replicate n CHR '' '' @ part \<or> l = replicate n CHR '' '' @ part @ ''-'') ls parts"
    using ls(3) by (rule list_all2_mono) (auto simp: shows_part_def addIndentAndSuffix_def Column_new_def)
  with ls show ?thesis unfolding shows_text_def by blast
qed

definition help_lines :: "nat \<Rightarrow> string list \<Rightarrow> string list \<Rightarrow> string list" where
  "help_lines w left right = side_by_side [(w, left), (4, []), (73 - w, right)]"

lemma help_row_shows:
  assumes "4 \<le> w" and "w \<le> 40"
  shows "\<exists>left right. Columns_toString (help_row w cols) = Some (Inr (join_lines (help_lines w left right))) \<and>
    shows_text w 2 (fst cols) left \<and> shows_text (73 - w) 0 (snd cols) right \<and>
    list_all (\<lambda>l. length l \<le> 77) (help_lines w left right)"
proof -
  obtain left where left: "Column_lines ((Column_new (fst cols))\<lparr>m_width := w, m_indentation := 2\<rparr>) = Some (Inr left)"
    "shows_text w 2 (fst cols) left" using column_shows_text [of 2 w "fst cols"] assms(1) by auto
  have room: "0 + 2 \<le> 73 - w" using assms(2) by linarith
  obtain right where right: "Column_lines ((Column_new (snd cols))\<lparr>m_width := 73 - w\<rparr>) = Some (Inr right)"
    "shows_text (73 - w) 0 (snd cols) right"
    using column_shows_text [OF room, of "snd cols"] by (auto simp: Column_new_def)
  have spacer: "Column_lines (Spacer 4) = Some (Inr [])"
    by (simp add: Spacer_def Column_new_def Column_lines_def Column_begin_def calcLength_def it_indent_def
        current_line_def Let_def column_lines.simps at_end_def)
  have "Columns_toString (help_row w cols) = Some (Inr (join_lines (help_lines w left right)))"
    using Columns_toString_rows [of "help_row w cols" "[left, [], right]"] left(1) right(1) spacer
    by (simp add: help_row_def help_lines_def clara_console_width_def Spacer_def Column_new_def)
  moreover have "fits [(w, left), (4, []), (73 - w, right)]"
    using left(2) right(2) by (simp add: fits_def shows_text_def)
  ultimately show ?thesis
    using left(2) right(2) side_by_side_width assms(2) by (fastforce simp: help_lines_def)
qed

text \<open>
  The rows of a help screen: for every option its names and its description in two columns of
  lines, the second from column \<open>w + 4\<close> on, and no line wider than 77.
\<close>

fun shows_rows :: "nat \<Rightarrow> (string \<times> string) list \<Rightarrow> string \<Rightarrow> bool" where
  "shows_rows w [] t \<longleftrightarrow> t = ''''"
| "shows_rows w ((names, descr) # rows) t \<longleftrightarrow>
     (\<exists>left right rest. t = join_lines (help_lines w left right) @ newline # rest \<and>
        shows_text w 2 names left \<and> shows_text (73 - w) 0 descr right \<and>
        list_all (\<lambda>l. length l \<le> 77) (help_lines w left right) \<and> shows_rows w rows rest)"

lemma help_rows_show:
  assumes "4 \<le> w" and "w \<le> 40"
  shows "\<exists>t. help_rows w rows = Some (Inr t) \<and> shows_rows w rows t"
proof (induction rows)
  case (Cons cols rows)
  obtain names descr where cols: "cols = (names, descr)" by (rule prod.exhaust)
  obtain left right where row: "Columns_toString (help_row w cols) = Some (Inr (join_lines (help_lines w left right)))"
    "shows_text w 2 names left" "shows_text (73 - w) 0 descr right"
    "list_all (\<lambda>l. length l \<le> 77) (help_lines w left right)"
    using help_row_shows [OF assms, of cols] cols by auto
  obtain t where "help_rows w rows = Some (Inr t)" "shows_rows w rows t" using Cons.IH by blast
  then show ?case using row cols by auto
qed simp

lemma command_line_help_width: "help_width (getHelpColumns (makeCommandLineParser outside)) = 40"
  by (simp add: help_width_def getHelpColumns_def option_column_def command_line_options clara_console_width_def quoted_def)

lemma command_line_help:
  "\<exists>t. writeToStream nm (makeCommandLineParser outside) = Some (Inr (usage nm (makeCommandLineParser outside) @ t)) \<and>
    shows_rows 40 (map (\<lambda>p. (option_column p, m_description p)) (m_options (makeCommandLineParser outside))) t"
  using help_rows_show [of 40 "getHelpColumns (makeCommandLineParser outside)"]
  unfolding writeToStream_def Let_def command_line_help_width
  by (auto simp: getHelpColumns_def)

text \<open>
  C35. A request for help, under any of its names and after any settings that are right, ends the
  run with the exit code 0 and without running a test, whatever follows it. The help screen shows
  all names of every option and its description beside them, in lines of at most 77 columns.
\<close>

theorem help_shows_options:
  assumes "list_all (setting_ok (makeCommandLineParser outside)) ss"
    and "once_each (makeCommandLineParser outside) ss"
    and "carry_out_all (makeCommandLineParser outside) ss ((configData s)\<lparr>processName := executable_name exe\<rparr>) = Inr (True, c)"
    and "h \<in> {''-?'', ''-h'', ''--help''}" and "uses ss 0 = 0" and "\<not> startupExceptions s"
  shows "session_run next_value bodies here outside reportAll exe (print_settings ss @ h # args) s = Some (Inr 0) \<and>
    (\<exists>t. shows_rows 40 (map (\<lambda>p. (option_column p, m_description p)) (m_options (makeCommandLineParser outside))) t \<and>
      applyCommandLine outside exe (print_settings ss @ h # args) s = Some (Inr (0,
        newline # ''Catch v2.13.6'' @ newline # usage (executable_name exe) (makeCommandLineParser outside) @ t @
          newline # ''For more detailed usage please see the project docs'' @ [newline, newline] @
          (if libIdentify c then libIdentify_text else ''''), s\<lparr>configData := c\<lparr>showHelp := True\<rparr>\<rparr>)))"
proof -
  let ?p = "makeCommandLineParser outside"
  have h: "setting_ok ?p (Set_Flag 0 h)" using assms(4) by (auto simp: command_line_options option_word_def)
  then have cmd: "command_tokens (h # args) = command_tokens (print_setting (Set_Flag 0 h)) @ command_tokens args"
    by simp
  have "carry_out ?p (Set_Flag 0 h) c = Inr (False, c\<lparr>showHelp := True\<rparr>)"
    by (simp add: goes_on_def set_flag_def command_line_options)
  then have "read_tokens (infos_at ?p (uses ss) (plain_args ss)) (command_tokens (h # args)) c = Inr (c\<lparr>showHelp := True\<rparr>)"
    unfolding cmd using assms(5) by (subst read_setting [OF command_line_unambiguous h]) (simp_all add: usable_def)
  then have "read_tokens (infos_at ?p (\<lambda>k. 0) 0) (command_tokens (print_settings ss) @ command_tokens (h # args))
      ((configData s)\<lparr>processName := executable_name exe\<rparr>) = Inr (c\<lparr>showHelp := True\<rparr>)"
    using assms(2,3) by (subst read_settings [OF command_line_unambiguous assms(1)]) (simp_all add: once_each_def del: command_tokens_simps)
  then have parsed: "Parser_parse ?p exe (print_settings ss @ h # args) (configData s) = Some (Inr (c\<lparr>showHelp := True\<rparr>))"
    by (simp add: Parser_parse_read [OF command_line_parser_ok] parse_infos_at [OF command_line_unambiguous] del: command_tokens_simps(2))
  obtain t where t: "writeToStream (executable_name exe) ?p = Some (Inr (usage (executable_name exe) ?p @ t))"
    "shows_rows 40 (map (\<lambda>p. (option_column p, m_description p)) (m_options ?p)) t"
    using command_line_help by blast
  have applied: "applyCommandLine outside exe (print_settings ss @ h # args) s = Some (Inr (0,
        newline # ''Catch v2.13.6'' @ newline # usage (executable_name exe) ?p @ t @
          newline # ''For more detailed usage please see the project docs'' @ [newline, newline] @
          (if libIdentify c then libIdentify_text else ''''), s\<lparr>configData := c\<lparr>showHelp := True\<rparr>\<rparr>))"
    using assms(6) by (simp add: applyCommandLine_def parsed showHelp_text_def t(1) libraryVersion_def Let_def)
  have "session_run next_value bodies here outside reportAll exe (print_settings ss @ h # args) s = Some (Inr 0)"
    using assms(6) by (simp add: session_run_def applied runInternal_def)
  with applied t(2) show ?thesis by blast
qed

theorem help_shows_options_witness:
  "session_run (\<lambda>g::unit. (True, g)) (\<lambda>i rc. None) \<lparr>src_file = ''main.cpp'', src_line = 1\<rparr> example_outside True
     ''bin/kraken'' [''-s'', ''--help'', ''--frobnicate''] example_session = Some (Inr 0) \<and>
   (\<exists>t. shows_rows 40 (map (\<lambda>p. (option_column p, m_description p)) (m_options (makeCommandLineParser example_outside))) t \<and>
      applyCommandLine example_outside ''bin/kraken'' [''-s'', ''--help'', ''--frobnicate''] example_session = Some (Inr (0,
        newline # ''Catch v2.13.6'' @ newline # usage (executable_name ''bin/kraken'') (makeCommandLineParser example_outside) @ t @
          newline # ''For more detailed usage please see the project docs'' @ [newline, newline],
        example_session\<lparr>configData := ConfigData_default\<lparr>processName := executable_name ''bin/kraken'',
          showSuccessfulTests := True, showHelp := True\<rparr>\<rparr>)))"
proof -
  let ?p = "makeCommandLineParser example_outside" and ?ss = "[Set_Flag 3 ''-s'']"
  let ?c = "ConfigData_default\<lparr>processName := executable_name ''bin/kraken'', showSuccessfulTests := True\<rparr>"
  have ok: "list_all (setting_ok ?p) ?ss" by (simp add: command_line_options command_line_refs option_word_def)
  have once: "once_each ?p ?ss" by (auto simp: once_each_def)
  have c: "carry_out_all ?p ?ss ((configData example_session)\<lparr>processName := executable_name ''bin/kraken''\<rparr>) = Inr (True, ?c)"
    by (simp add: command_line_options command_line_refs goes_on_def set_flag_def example_session_def)
  show ?thesis
    using help_shows_options [OF ok once c, where h = "''--help''" and args = "[''--frobnicate'']"]
    by (simp add: print_settings_def example_session_def ConfigData_default_def)
qed

end
