(* ===== verification/Catch_Tracker_Tree.thy ===== *)
theory Catch_Tracker_Tree
  imports Catch_Run_Context
begin

text \<open>
  The store of trackers as a tree: a tracker is found by the path of section names from the root,
  and the operations of \<open>Catch_Tracking\<close> on the store are updates of the states along one path.
  The lemmas are about section trackers without filters.
\<close>

section \<open>Paths\<close>

type_synonym path = "SectionInfo list"

definition nl_of :: "SectionInfo \<Rightarrow> NameAndLocation" where
  "nl_of i = \<lparr>nl_name = sec_name i, nl_location = sec_lineInfo i\<rparr>"

lemma nl_of_inject [simp]: "nl_of i = nl_of j \<longleftrightarrow> i = j"
  by (cases i; cases j) (simp add: nl_of_def)

text \<open>The states by path (\<open>None\<close> where there is no tracker), and where the trackers are.\<close>

definition kids_of :: "(path \<Rightarrow> CycleState option) \<Rightarrow> path \<Rightarrow> SectionInfo set" where
  "kids_of st p = {n. st (p @ [n]) \<noteq> None}"

definition tracks :: "'g TrackerContext \<Rightarrow> (path \<Rightarrow> nat) \<Rightarrow> (path \<Rightarrow> CycleState option) \<Rightarrow> bool" where
  "tracks c A st \<longleftrightarrow> inj_on A (dom st) \<and> st [] \<noteq> None \<and> parent (tracker_at c (A [])) = None \<and>
     rootTracker c = Some (A []) \<and>
     (\<forall>p x. st p = Some x \<longrightarrow> A p < length (trackers c) \<and> runState (tracker_at c (A p)) = x \<and>
        (\<exists>nm. tracker_class (tracker_at c (A p)) = Section_Tracker [] nm) \<and>
        set (children (tracker_at c (A p))) = (\<lambda>n. A (p @ [n])) ` kids_of st p) \<and>
     (\<forall>p i. st (p @ [i]) \<noteq> None \<longrightarrow> st p \<noteq> None \<and> A p < A (p @ [i]) \<and>
        parent (tracker_at c (A (p @ [i]))) = Some (A p) \<and>
        nameAndLocation (tracker_at c (A (p @ [i]))) = nl_of i)"

definition finished :: "(path \<Rightarrow> CycleState option) \<Rightarrow> path \<Rightarrow> bool" where
  "finished st p \<longleftrightarrow> st p = Some CompletedSuccessfully \<or> st p = Some Failed"

definition untouched :: "(path \<Rightarrow> CycleState option) \<Rightarrow> path \<Rightarrow> bool" where
  "untouched st p \<longleftrightarrow> st p = None \<or> st p = Some NotStarted"

lemma tracksI:
  assumes "inj_on A (dom st)" and "st [] \<noteq> None" and "parent (tracker_at c (A [])) = None"
    and "rootTracker c = Some (A [])"
    and "\<And>p x. st p = Some x \<Longrightarrow> A p < length (trackers c) \<and> runState (tracker_at c (A p)) = x \<and>
        (\<exists>nm. tracker_class (tracker_at c (A p)) = Section_Tracker [] nm) \<and>
        set (children (tracker_at c (A p))) = (\<lambda>n. A (p @ [n])) ` kids_of st p"
    and "\<And>p i. st (p @ [i]) \<noteq> None \<Longrightarrow> st p \<noteq> None \<and> A p < A (p @ [i]) \<and>
        parent (tracker_at c (A (p @ [i]))) = Some (A p) \<and>
        nameAndLocation (tracker_at c (A (p @ [i]))) = nl_of i"
  shows "tracks c A st"
  using assms unfolding tracks_def by blast

subsection \<open>What a tree of trackers knows\<close>

lemma tracks_root: "tracks c A st \<Longrightarrow> st [] \<noteq> None \<and> parent (tracker_at c (A [])) = None"
  by (simp add: tracks_def)

lemma tracks_inj: "tracks c A st \<Longrightarrow> st p \<noteq> None \<Longrightarrow> st q \<noteq> None \<Longrightarrow> A p = A q \<longleftrightarrow> p = q"
  by (auto simp: tracks_def inj_on_def dom_def)

lemma tracks_node:
  assumes "tracks c A st" and "st p = Some x"
  shows "A p < length (trackers c)" and "runState (tracker_at c (A p)) = x"
    and "\<exists>nm. tracker_class (tracker_at c (A p)) = Section_Tracker [] nm"
    and "set (children (tracker_at c (A p))) = (\<lambda>n. A (p @ [n])) ` kids_of st p"
  using assms unfolding tracks_def by blast+

lemma tracks_child:
  assumes "tracks c A st" and "st (p @ [i]) \<noteq> None"
  shows "st p \<noteq> None" and "A p < A (p @ [i])" and "parent (tracker_at c (A (p @ [i]))) = Some (A p)"
    and "nameAndLocation (tracker_at c (A (p @ [i]))) = nl_of i"
  using assms unfolding tracks_def by blast+

lemma tracks_prefix: "tracks c A st \<Longrightarrow> st p = None \<Longrightarrow> st (p @ q) = None"
proof (induction q rule: rev_induct)
  case (snoc x q)
  then show ?case using tracks_child(1) [of c A st "p @ q" x] by force
qed simp

lemma tracks_complete:
  assumes "tracks c A st" and "st p \<noteq> None"
  shows "isComplete (tracker_at c (A p)) \<longleftrightarrow> finished st p"
    and "isOpen (tracker_at c (A p)) \<longleftrightarrow> st p \<noteq> Some NotStarted \<and> \<not> finished st p"
    and "isSuccessfullyCompleted (tracker_at c (A p)) \<longleftrightarrow> st p = Some CompletedSuccessfully"
proof -
  obtain x where x: "st p = Some x" using assms(2) by blast
  obtain nm where "tracker_class (tracker_at c (A p)) = Section_Tracker [] nm"
    using tracks_node(3) [OF assms(1) x] ..
  then have "isComplete (tracker_at c (A p)) \<longleftrightarrow> finished st p"
    by (simp add: isComplete_def base_isComplete_def finished_def x tracks_node(2) [OF assms(1) x])
  then show "isComplete (tracker_at c (A p)) \<longleftrightarrow> finished st p"
    and "isOpen (tracker_at c (A p)) \<longleftrightarrow> st p \<noteq> Some NotStarted \<and> \<not> finished st p"
    and "isSuccessfullyCompleted (tracker_at c (A p)) \<longleftrightarrow> st p = Some CompletedSuccessfully"
    by (simp_all add: isOpen_def isSuccessfullyCompleted_def x tracks_node(2) [OF assms(1) x])
qed

lemma tracks_findChild:
  assumes "tracks c A st" and "st p \<noteq> None"
  shows "findChild c (A p) (nl_of i) = (if st (p @ [i]) = None then None else Some (A (p @ [i])))"
proof -
  have kids: "set (children (tracker_at c (A p))) = (\<lambda>n. A (p @ [n])) ` kids_of st p"
    using assms tracks_node(4) by blast
  have name: "nameAndLocation (tracker_at c (A (p @ [n]))) = nl_of n" if "n \<in> kids_of st p" for n
    using that assms(1) tracks_child(4) by (force simp: kids_of_def)
  show ?thesis
  proof (cases "findChild c (A p) (nl_of i)")
    case None
    then show ?thesis using kids name by (auto simp: findChild_def find_None_iff kids_of_def)
  next
    case (Some t)
    then have "t \<in> set (children (tracker_at c (A p))) \<and> nameAndLocation (tracker_at c t) = nl_of i"
      unfolding findChild_def find_Some_iff by (metis nth_mem)
    then obtain n where "n \<in> kids_of st p" "t = A (p @ [n])" "nl_of n = nl_of i"
      using kids name by auto
    then show ?thesis using Some by (simp add: kids_of_def)
  qed
qed

subsection \<open>Updates\<close>

lemma set_state_fields [simp]:
  "currentTracker (set_state t x c) = currentTracker c" "contextState (set_state t x c) = contextState c"
  "rootTracker (set_state t x c) = rootTracker c" "length (trackers (set_state t x c)) = length (trackers c)"
  by (simp_all add: set_state_def update_tracker_def)

lemma tracker_at_set_state:
  "t < length (trackers c) \<Longrightarrow>
    tracker_at (set_state t x c) u = (if u = t then (tracker_at c t)\<lparr>runState := x\<rparr> else tracker_at c u)"
  by (simp add: set_state_def update_tracker_def nth_list_update)

lemma kids_of_update: "st p \<noteq> None \<Longrightarrow> kids_of (st(p \<mapsto> x)) q = kids_of st q"
  by (auto simp: kids_of_def)

lemma tracks_set_state:
  assumes "tracks c A st" and "st p \<noteq> None"
  shows "tracks (set_state (A p) x c) A (st(p \<mapsto> x))"
proof (rule tracksI)
  let ?c = "set_state (A p) x c" and ?st = "st(p \<mapsto> x)"
  have len: "A p < length (trackers c)" using assms tracks_node(1) by blast
  note at = tracker_at_set_state [OF len]
  have old: "st q \<noteq> None \<longleftrightarrow> ?st q \<noteq> None" for q using assms(2) by auto
  then have dom: "dom ?st = dom st" by (auto simp: dom_def)
  show "inj_on A (dom ?st)" using assms(1) unfolding dom by (simp add: tracks_def)
  show "?st [] \<noteq> None" using tracks_root [OF assms(1)] old by blast
  show "rootTracker ?c = Some (A [])" using assms(1) by (simp add: tracks_def)
  show "parent (tracker_at ?c (A [])) = None" using tracks_root [OF assms(1)] by (auto simp: at)
  show "A q < length (trackers ?c) \<and> runState (tracker_at ?c (A q)) = y \<and>
      (\<exists>nm. tracker_class (tracker_at ?c (A q)) = Section_Tracker [] nm) \<and>
      set (children (tracker_at ?c (A q))) = (\<lambda>n. A (q @ [n])) ` kids_of ?st q"
    if upd: "?st q = Some y" for q y
  proof -
    obtain z where z: "st q = Some z" using upd old by force
    have "A q = A p \<longleftrightarrow> q = p" using tracks_inj [OF assms(1)] z assms(2) by blast
    moreover have "kids_of ?st q = kids_of st q" by (rule kids_of_update [where st = st, OF assms(2)])
    ultimately show ?thesis using tracks_node [OF assms(1) z] upd z by (auto simp: at)
  qed
  show "?st q \<noteq> None \<and> A q < A (q @ [i]) \<and> parent (tracker_at ?c (A (q @ [i]))) = Some (A q) \<and>
      nameAndLocation (tracker_at ?c (A (q @ [i]))) = nl_of i"
    if "?st (q @ [i]) \<noteq> None" for q i
  proof -
    have "st (q @ [i]) \<noteq> None" using that old by blast
    from tracks_child [OF assms(1) this] old show ?thesis by (auto simp: at)
  qed
qed

lemma tracks_add_child:
  assumes "tracks c A st" and "st p \<noteq> None" and "st (p @ [i]) = None"
  shows "\<exists>c1. SectionTracker_new (nl_of i) (A p) c = Inr (length (trackers c), c1) \<and>
    tracks (addChild (A p) (length (trackers c)) c1) (A(p @ [i] := length (trackers c)))
      (st(p @ [i] \<mapsto> NotStarted)) \<and>
    currentTracker (addChild (A p) (length (trackers c)) c1) = currentTracker c \<and>
    contextState (addChild (A p) (length (trackers c)) c1) = contextState c"
proof -
  let ?n = "length (trackers c)" and ?st = "st(p @ [i] \<mapsto> NotStarted)"
  let ?A = "A(p @ [i] := ?n)"
  obtain x where x: "st p = Some x" using assms(2) by blast
  obtain nm where nm: "tracker_class (tracker_at c (A p)) = Section_Tracker [] nm"
    using tracks_node(3) [OF assms(1) x] ..
  let ?new = "\<lparr>nameAndLocation = nl_of i, parent = Some (A p), children = [], runState = NotStarted,
     tracker_class = Section_Tracker [] (trim (nl_name (nl_of i)))\<rparr>"
  let ?c = "addChild (A p) ?n (c\<lparr>trackers := trackers c @ [?new]\<rparr>)"
  have new: "SectionTracker_new (nl_of i) (A p) c = Inr (?n, c\<lparr>trackers := trackers c @ [?new]\<rparr>)"
    by (simp add: SectionTracker_new_def section_above.simps nm new_tracker_def addNextFilters_def)
  have bound: "A q < ?n" if "st q \<noteq> None" for q using that tracks_node(1) [OF assms(1)] by blast
  have at: "tracker_at ?c u = (if u = ?n then ?new else if u = A p
      then (tracker_at c u)\<lparr>children := children (tracker_at c u) @ [?n]\<rparr> else tracker_at c u)" if "u \<le> ?n" for u
    using that bound [OF assms(2)] by (auto simp: addChild_def update_tracker_def nth_list_update nth_append)
  have len: "length (trackers ?c) = Suc ?n" by (simp add: addChild_def update_tracker_def)
  have none: "st (p @ [i] @ r) = None" for r using tracks_prefix [OF assms(1,3), of r] by simp
  have "tracks ?c ?A ?st"
  proof (rule tracksI)
    show "inj_on ?A (dom ?st)"
    proof (rule inj_onI)
      fix x y assume xy: "x \<in> dom ?st" "y \<in> dom ?st" "?A x = ?A y"
      then show "x = y"
        using bound [of x] bound [of y] tracks_inj [OF assms(1), of x y] by (auto split: if_splits)
    qed
    show "?st [] \<noteq> None" using tracks_root [OF assms(1)] by simp
    show "rootTracker ?c = Some (?A [])"
      using assms(1) by (simp add: tracks_def addChild_def update_tracker_def)
    show "parent (tracker_at ?c (?A [])) = None"
      using tracks_root [OF assms(1)] at [of "A []"] bound [of "[]"] by auto
    show "?A q < length (trackers ?c) \<and> runState (tracker_at ?c (?A q)) = y \<and>
        (\<exists>nm. tracker_class (tracker_at ?c (?A q)) = Section_Tracker [] nm) \<and>
        set (children (tracker_at ?c (?A q))) = (\<lambda>n. ?A (q @ [n])) ` kids_of ?st q"
      if upd: "?st q = Some y" for q y
    proof (cases "q = p @ [i]")
      case True
      then have "kids_of ?st q = {}" using none [of "[_]"] by (auto simp: kids_of_def)
      then show ?thesis using True upd at [of ?n] len by simp
    next
      case False
      then have q: "st q = Some y" using upd by simp
      note node = tracks_node [OF assms(1) q]
      have same: "A q = A p \<longleftrightarrow> q = p" using tracks_inj [OF assms(1)] q assms(2) by blast
      have kids: "kids_of ?st q = (if q = p then insert i (kids_of st q) else kids_of st q)"
        by (auto simp: kids_of_def)
      have "(\<lambda>n. ?A (q @ [n])) ` kids_of st q = (\<lambda>n. A (q @ [n])) ` kids_of st q"
        using assms(3) by (intro image_cong) (auto simp: kids_of_def)
      then have "(\<lambda>n. ?A (q @ [n])) ` kids_of ?st q =
          (if q = p then insert ?n else id) ((\<lambda>n. A (q @ [n])) ` kids_of st q)"
        unfolding kids by (cases "q = p") (simp_all only: if_True if_False image_insert fun_upd_same id_apply simp_thms)
      moreover have "?A q = A q" "tracker_at ?c (A q) = (if q = p
          then (tracker_at c (A q))\<lparr>children := children (tracker_at c (A q)) @ [?n]\<rparr> else tracker_at c (A q))"
        using False at [of "A q"] node(1) same by auto
      ultimately show ?thesis using node len by (cases "q = p") auto
    qed
    show "?st q \<noteq> None \<and> ?A q < ?A (q @ [j]) \<and>
        parent (tracker_at ?c (?A (q @ [j]))) = Some (?A q) \<and>
        nameAndLocation (tracker_at ?c (?A (q @ [j]))) = nl_of j"
      if upd: "?st (q @ [j]) \<noteq> None" for q j
    proof (cases "q @ [j] = p @ [i]")
      case True
      then show ?thesis using assms(2) at [of ?n] bound [OF assms(2)] by simp
    next
      case False
      then have old: "st (q @ [j]) \<noteq> None" using upd by (metis fun_upd_other)
      then have "q \<noteq> p @ [i]" using none [of "[j]"] by auto
      then show ?thesis
        using False tracks_child [OF assms(1) old] at [of "A (q @ [j])"] bound [OF old] by auto
    qed
  qed
  then show ?thesis using new by (simp add: addChild_def update_tracker_def)
qed

text \<open>Opening a child of \<open>p\<close>: its ancestors are executing their children already.\<close>

lemma tracks_openChild:
  assumes "tracks c A st" and "st p \<noteq> None" and "p = [] \<or> st (butlast p) = Some ExecutingChildren"
  shows "tracks (openChild (A p) c) A (st(p \<mapsto> ExecutingChildren)) \<and>
    currentTracker (openChild (A p) c) = currentTracker c \<and>
    contextState (openChild (A p) c) = contextState c"
proof (cases "st p = Some ExecutingChildren")
  case True
  then have "st(p \<mapsto> ExecutingChildren) = st" by (simp add: fun_upd_idem_iff)
  then show ?thesis using True assms(1) tracks_node(2) [OF assms(1) True]
    by (simp add: openChild.simps [of "A p"])
next
  case False
  let ?c = "set_state (A p) ExecutingChildren c"
  have state: "runState (tracker_at c (A p)) \<noteq> ExecutingChildren"
    using False assms(1,2) tracks_node(2) by fastforce
  have t: "tracks ?c A (st(p \<mapsto> ExecutingChildren))" by (rule tracks_set_state [OF assms(1,2)])
  show ?thesis
  proof (cases p rule: rev_cases)
    case Nil
    then show ?thesis using t state tracks_root [OF assms(1)] by (simp add: openChild.simps [of "A []"])
  next
    case (snoc q i)
    then have child: "st (q @ [i]) \<noteq> None" and q: "st q = Some ExecutingChildren" using assms(2,3) by auto
    have "runState (tracker_at ?c (A q)) = ExecutingChildren"
      using tracks_node(2) [OF t, of q] q snoc by simp
    then have "openChild (A q) ?c = ?c" by (simp add: openChild.simps [of "A q"])
    then have "openChild (A p) c = ?c"
      using state tracks_child(2,3) [OF assms(1) child] snoc
      by (simp add: openChild.simps [of "A (q @ [i])"])
    then show ?thesis using t by simp
  qed
qed

subsection \<open>acquire and close\<close>

lemma context_update_fields [simp]:
  "tracks (setCurrentTracker t c) A st = tracks c A st"
  "tracks (completeCycle c) A st = tracks c A st"
  by (simp_all add: tracks_def setCurrentTracker_def completeCycle_def)

text \<open>The states after \<open>acquire\<close>: the child exists, and is opened if the cycle is not complete.\<close>

definition created :: "path \<Rightarrow> (path \<Rightarrow> CycleState option) \<Rightarrow> path \<Rightarrow> CycleState option" where
  "created q st = (if st q = None then st(q \<mapsto> NotStarted) else st)"

definition opened :: "path \<Rightarrow> SectionInfo \<Rightarrow> (path \<Rightarrow> CycleState option) \<Rightarrow> path \<Rightarrow> CycleState option" where
  "opened p i st = (created (p @ [i]) st)(p @ [i] \<mapsto> Executing, p \<mapsto> ExecutingChildren)"

text \<open>The first half of \<open>acquire\<close>.\<close>

definition found_or_created ::
  "NameAndLocation \<Rightarrow> nat \<Rightarrow> 'g TrackerContext \<Rightarrow> catch_error + (nat \<times> 'g TrackerContext)" where
  "found_or_created nl cur c = (case findChild c cur nl of
        Some ch \<Rightarrow> if isSectionTracker (tracker_class (tracker_at c ch)) then Inr (ch, c) else Inl Assert_Failed
      | None \<Rightarrow> (case SectionTracker_new nl cur c of
          Inl e \<Rightarrow> Inl e | Inr (t, c') \<Rightarrow> Inr (t, addChild cur t c')))"

lemma tracks_created:
  assumes "tracks c A st" and "st p \<noteq> None" and "currentTracker c = Some (A p)"
  obtains c1 A' where "found_or_created (nl_of i) (A p) c = Inr (A' (p @ [i]), c1)"
    and "tracks c1 A' (created (p @ [i]) st)" and "\<And>q. st q \<noteq> None \<Longrightarrow> A' q = A q"
    and "currentTracker c1 = currentTracker c" and "contextState c1 = contextState c"
proof (cases "st (p @ [i])")
  case None
  obtain c1 where "SectionTracker_new (nl_of i) (A p) c = Inr (length (trackers c), c1)"
    and "tracks (addChild (A p) (length (trackers c)) c1) (A(p @ [i] := length (trackers c))) (st(p @ [i] \<mapsto> NotStarted))"
    and "currentTracker (addChild (A p) (length (trackers c)) c1) = currentTracker c"
    and "contextState (addChild (A p) (length (trackers c)) c1) = contextState c"
    using tracks_add_child [OF assms(1,2) None] by blast
  then show ?thesis
    using None tracks_findChild [OF assms(1,2), of i]
    by (intro that [of "A(p @ [i] := length (trackers c))" "addChild (A p) (length (trackers c)) c1"])
      (auto simp: created_def found_or_created_def)
next
  case (Some x)
  then show ?thesis
    using tracks_findChild [OF assms(1,2), of i] tracks_node(3) [OF assms(1) Some] assms(1)
    by (intro that [of A c]) (auto simp: created_def found_or_created_def)
qed

lemma tracks_acquire:
  assumes "tracks c A st" and "st p \<noteq> None" and "currentTracker c = Some (A p)"
    and "p = [] \<or> st (butlast p) = Some ExecutingChildren"
  obtains c' A' where "SectionTracker_acquire (nl_of i) c = Inr (A' (p @ [i]), c')"
    and "\<And>q. st q \<noteq> None \<Longrightarrow> A' q = A q" and "contextState c' = contextState c"
    and "tracks c' A' (if contextState c = CompletedCycle \<or> finished st (p @ [i])
       then created (p @ [i]) st else opened p i st)"
    and "currentTracker c' = Some (A' (if contextState c = CompletedCycle \<or> finished st (p @ [i])
       then p else p @ [i]))"
proof -
  obtain c1 A' where new: "found_or_created (nl_of i) (A p) c = Inr (A' (p @ [i]), c1)"
    and t1: "tracks c1 A' (created (p @ [i]) st)" and same: "\<And>q. st q \<noteq> None \<Longrightarrow> A' q = A q"
    and keep: "currentTracker c1 = currentTracker c" "contextState c1 = contextState c"
    by (rule tracks_created [OF assms(1-3), of i]) (rule that; assumption)
  let ?st = "created (p @ [i]) st" and ?q = "p @ [i]"
  have st: "?st ?q \<noteq> None" "?st p = st p" "?st (butlast p) = st (butlast p)" "finished ?st ?q = finished st ?q"
    by (auto simp: created_def finished_def dest: arg_cong [of _ _ length])
  have acquire: "SectionTracker_acquire (nl_of i) c =
      Inr (A' ?q, if completedCycle c1 then c1 else tryOpen (A' ?q) c1)"
    using assms(3) new unfolding SectionTracker_acquire_def found_or_created_def by simp
  show ?thesis
  proof (cases "contextState c = CompletedCycle \<or> finished st ?q")
    case True
    then have "(if completedCycle c1 then c1 else tryOpen (A' ?q) c1) = c1"
      using tracks_complete(1) [OF t1 st(1)] st(4) keep(2) by (auto simp: completedCycle_def tryOpen_def)
    then show ?thesis
      using True acquire t1 same keep assms(2,3) by (intro that [of A' c1]) auto
  next
    case False
    let ?c2 = "setCurrentTracker (Some (A' ?q)) (set_state (A' ?q) Executing c1)"
    have t2: "tracks ?c2 A' (?st(?q \<mapsto> Executing))"
      using tracks_set_state [OF t1 st(1)] by simp
    have chain: "p = [] \<or> (?st(?q \<mapsto> Executing)) (butlast p) = Some ExecutingChildren"
      using assms(4) st(3) by (auto dest: arg_cong [of _ _ length])
    have "(if completedCycle c1 then c1 else tryOpen (A' ?q) c1) = openChild (A' p) ?c2"
      using False tracks_complete(1) [OF t1 st(1)] st(4) keep(2) tracks_child(3) [OF t1 st(1)]
      by (auto simp: completedCycle_def tryOpen_def open_tracker_def Let_def)
    then have acq: "SectionTracker_acquire (nl_of i) c = Inr (A' ?q, openChild (A' p) ?c2)"
      using acquire by simp
    have "(?st(?q \<mapsto> Executing)) p \<noteq> None" using st(2) assms(2) by simp
    note opn = tracks_openChild [OF t2 this chain, folded opened_def]
    show ?thesis
      by (rule that [OF acq same]) (use False opn keep(2) in \<open>simp_all add: setCurrentTracker_def\<close>)
  qed
qed

text \<open>Closing the current tracker: it is complete unless some child is not.\<close>

definition closed :: "(path \<Rightarrow> CycleState option) \<Rightarrow> path \<Rightarrow> CycleState" where
  "closed st p = (if st p = Some Executing \<or> (\<forall>n \<in> kids_of st p. finished st (p @ [n]))
     then CompletedSuccessfully else ExecutingChildren)"

lemma tracks_close:
  assumes "tracks c A st" and "currentTracker c = Some (A (p @ [i]))"
    and "st (p @ [i]) = Some Executing \<or> st (p @ [i]) = Some ExecutingChildren"
  shows "\<exists>c'. close next_value (A (p @ [i])) c = Inr c' \<and>
    tracks c' A (st(p @ [i] \<mapsto> closed st (p @ [i]))) \<and>
    currentTracker c' = Some (A p) \<and> contextState c' = CompletedCycle"
proof -
  let ?q = "p @ [i]"
  have st: "st ?q \<noteq> None" using assms(3) by auto
  then obtain x where x: "st ?q = Some x" by blast
  note node = tracks_node [OF assms(1) x]
  obtain nm where nm: "tracker_class (tracker_at c (A ?q)) = Section_Tracker [] nm" using node(3) ..
  have "list_all (\<lambda>ch. isComplete (tracker_at c ch)) (children (tracker_at c (A ?q))) \<longleftrightarrow>
      (\<forall>n \<in> kids_of st ?q. finished st (?q @ [n]))"
    using node(4) tracks_complete(1) [OF assms(1)] by (auto simp: list_all_iff kids_of_def)
  then have state: "closed_state (A ?q) c = Inr (closed st ?q)"
    using assms(3) x node(2) by (auto simp: closed_state_def closed_def)
  let ?c = "set_state (A ?q) (closed st ?q) c"
  have t: "tracks ?c A (st(?q \<mapsto> closed st ?q))" by (rule tracks_set_state [OF assms(1) st])
  have "parent (tracker_at ?c (A ?q)) = Some (A p)" using tracks_child(3) [OF t, of p i] by simp
  then have "base_close (A ?q) c = Inr (completeCycle (setCurrentTracker (Some (A p)) ?c))"
    using state by (simp add: base_close_def moveToParent_def)
  then have "close next_value (A ?q) c = Inr (completeCycle (setCurrentTracker (Some (A p)) ?c))"
    using assms(2) nm by (simp add: close_def close_tracker.simps close_current_def)
  then show ?thesis
    using t by (auto simp: setCurrentTracker_def completeCycle_def tracks_def)
qed

end
