(* ===== verification/Catch_Assertions.thy ===== *)
theory Catch_Assertions
  imports Catch_Run_Context
begin

text \<open>
  What an assertion does to a run: which counter moves, and when the test case ends.
\<close>

section \<open>What stays the same\<close>

text \<open>Clearing the scoped messages only touches the messages.\<close>

lemma fold_pop_fields:
  "m_config (fold popScopedMessage ms rc) = m_config rc \<and>
   m_totals (fold popScopedMessage ms rc) = m_totals rc \<and>
   m_trackerContext (fold popScopedMessage ms rc) = m_trackerContext rc \<and>
   m_activeTestCase (fold popScopedMessage ms rc) = m_activeTestCase rc \<and>
   m_testCaseTracker (fold popScopedMessage ms rc) = m_testCaseTracker rc \<and>
   m_activeSections (fold popScopedMessage ms rc) = m_activeSections rc \<and>
   m_unfinishedSections (fold popScopedMessage ms rc) = m_unfinishedSections rc \<and>
   m_lastAssertionInfo (fold popScopedMessage ms rc) = m_lastAssertionInfo rc \<and>
   m_shouldReportUnexpected (fold popScopedMessage ms rc) = m_shouldReportUnexpected rc \<and>
   m_includeSuccessfulResults (fold popScopedMessage ms rc) = m_includeSuccessfulResults rc \<and>
   reports (fold popScopedMessage ms rc) = reports rc"
  by (induction ms arbitrary: rc) (simp_all add: popScopedMessage_def)

lemma clear_messageScopes_fields [simp]:
  "m_config (clear_messageScopes rc) = m_config rc"
  "m_totals (clear_messageScopes rc) = m_totals rc"
  "m_trackerContext (clear_messageScopes rc) = m_trackerContext rc"
  "m_activeTestCase (clear_messageScopes rc) = m_activeTestCase rc"
  "m_testCaseTracker (clear_messageScopes rc) = m_testCaseTracker rc"
  "m_activeSections (clear_messageScopes rc) = m_activeSections rc"
  "m_unfinishedSections (clear_messageScopes rc) = m_unfinishedSections rc"
  "m_lastAssertionInfo (clear_messageScopes rc) = m_lastAssertionInfo rc"
  "reports (clear_messageScopes rc) = reports rc"
  by (simp_all add: clear_messageScopes_def fold_pop_fields)

lemma assertionEnded_fields [simp]:
  "m_config (assertionEnded r rc) = m_config rc"
  "m_totals (assertionEnded r rc) = m_totals (count_result r rc)"
  "m_trackerContext (assertionEnded r rc) = m_trackerContext rc"
  "m_activeTestCase (assertionEnded r rc) = m_activeTestCase rc"
  "m_activeSections (assertionEnded r rc) = m_activeSections rc"
  "m_unfinishedSections (assertionEnded r rc) = m_unfinishedSections rc"
  "resultDisposition (m_lastAssertionInfo (assertionEnded r rc)) = resultDisposition (m_lastAssertionInfo rc)"
  by (simp_all add: assertionEnded_def resetAssertionInfo_def report_def count_result_def count_assertion_def Let_def)

lemma assertionPassed_fields [simp]:
  "m_config (assertionPassed rc) = m_config rc"
  "m_trackerContext (assertionPassed rc) = m_trackerContext rc"
  "m_activeTestCase (assertionPassed rc) = m_activeTestCase rc"
  "m_activeSections (assertionPassed rc) = m_activeSections rc"
  "m_unfinishedSections (assertionPassed rc) = m_unfinishedSections rc"
  "m_totals (assertionPassed rc) = (m_totals rc)\<lparr>assertions := inc_passed (assertions (m_totals rc))\<rparr>"
  "reports (assertionPassed rc) = reports rc"
  by (simp_all add: assertionPassed_def resetAssertionInfo_def count_assertion_def)

section \<open>Expressions\<close>

text \<open>
  An assertion on an expression moves one counter by one: \<open>passed\<close> when it holds, otherwise
  \<open>failed\<close>, or \<open>failedButOk\<close> in a test that may fail, or none when failures are suppressed. It
  ends the test case exactly when it does not hold and is a \<open>REQUIRE\<close> (disposition \<open>Normal\<close>) or
  the limit on failures is reached; sections and test cases are left alone.
\<close>

theorem assertion_effects:
  "let (ex, rc') = assert_macro info value text rc;
       flags = resultDisposition info;
       holds = (value \<noteq> isFalseTest flags);
       cs = assertions (m_totals rc)
   in assertions (m_totals rc') =
        (if holds then inc_passed cs
         else if shouldSuppressFailure flags then cs
         else if active_okToFail rc then inc_failedButOk cs
         else inc_failed cs) \<and>
      ex = (if holds then Returned
            else if flags AND Normal = 0 \<and> aborting rc' = False then Returned
            else TestFailure) \<and>
      testCases (m_totals rc') = testCases (m_totals rc) \<and>
      m_trackerContext rc' = m_trackerContext rc \<and> m_activeSections rc' = m_activeSections rc"
proof -
  let ?flags = "resultDisposition info"
  let ?rc = "report (Report_assertionStarting info) rc"
  show ?thesis
  proof (cases "value = isFalseTest ?flags")
    case False
    then show ?thesis
      by (auto simp: assert_macro_def handleExpr_def reportExpr_def make_result_def complete_def no_reaction_def
          count_result_def count_assertion_def report_def Let_def split: prod.splits)
  next
    case True
    let ?r = "make_result info ExpressionFailed text ''''"
    have "\<not> isOk ExpressionFailed" by (simp add: isOk_iff)
    then have "AssertionResult_isOk ?r \<longleftrightarrow> shouldSuppressFailure ?flags"
      by (simp add: AssertionResult_isOk_def make_result_def)
    with True show ?thesis
      by (auto simp: assert_macro_def handleExpr_def reportExpr_def complete_def populateReaction_def
          count_result_def count_assertion_def report_def Let_def active_okToFail_def
          make_result_def split: prod.splits)
  qed
qed

end
