(* ===== verification/Catch_Sections.thy ===== *)
theory Catch_Sections
  imports Catch_Tracker_Tree Catch_Assertions
begin

text \<open>
  What \<open>runTest\<close> does with a test case of nested sections whose assertions hold: every path to
  an innermost section is run once, in the order of the source.
\<close>

section \<open>Test cases with sections\<close>

datatype test_stmt =
    Assertion AssertionInfo bool string
  | Section SectionInfo "test_stmt list"
  | Throw string

fun run_stmts :: "('g \<Rightarrow> bool \<times> 'g) \<Rightarrow> test_stmt list \<Rightarrow> 'g test_body" where
  "run_stmts next_value [] rc = Some (Inr (Returned, rc))"
| "run_stmts next_value (Assertion a holds text # ss) rc =
     (let (ex, rc') = assert_macro a holds text rc in
      if ex = Returned then run_stmts next_value ss rc' else Some (Inr (ex, rc')))"
| "run_stmts next_value (Section i body # ss) rc =
     (case section_block next_value i (run_stmts next_value body) rc of
        None \<Rightarrow> None
      | Some (Inl e) \<Rightarrow> Some (Inl e)
      | Some (Inr (ex, rc')) \<Rightarrow>
          if ex = Returned then run_stmts next_value ss rc' else Some (Inr (ex, rc')))"
| "run_stmts next_value (Throw message # ss) rc = Some (Inr (Unexpected message, rc))"

fun sections_of :: "test_stmt list \<Rightarrow> SectionInfo list" where
  "sections_of [] = []"
| "sections_of (Assertion a v t # ss) = sections_of ss"
| "sections_of (Section i body # ss) = i # sections_of ss"
| "sections_of (Throw message # ss) = sections_of ss"

text \<open>The paths to the innermost sections, in the order of the source.\<close>

fun section_paths :: "test_stmt list \<Rightarrow> SectionInfo list list" where
  "section_paths [] = []"
| "section_paths (Assertion a v t # ss) = section_paths ss"
| "section_paths (Section i body # ss) =
     (if sections_of body = [] then [[i]] else map ((#) i) (section_paths body)) @ section_paths ss"
| "section_paths (Throw message # ss) = section_paths ss"

text \<open>
  The assertions hold, nothing is thrown, and the sections next to each other differ in name or
  location.
\<close>

fun orderly :: "test_stmt list \<Rightarrow> bool" where
  "orderly [] = True"
| "orderly (Assertion a v t # ss) = (v \<noteq> isFalseTest (resultDisposition a) \<and> orderly ss)"
| "orderly (Section i body # ss) = (i \<notin> set (sections_of ss) \<and> orderly body \<and> orderly ss)"
| "orderly (Throw message # ss) = False"

definition started :: "'g RunContext \<Rightarrow> SectionInfo list" where
  "started rc = concat (map (\<lambda>r. case r of Report_sectionStarting i \<Rightarrow> [i] | _ \<Rightarrow> []) (reports rc))"

section \<open>Progress through the tree\<close>

text \<open>The paths still to be run.\<close>

fun pending :: "(path \<Rightarrow> CycleState option) \<Rightarrow> path \<Rightarrow> test_stmt list \<Rightarrow> path list" where
  "pending st p [] = []"
| "pending st p (Assertion a v t # ss) = pending st p ss"
| "pending st p (Section i body # ss) =
     (if finished st (p @ [i]) then []
      else if sections_of body = [] then [[i]] else map ((#) i) (pending st (p @ [i]) body)) @ pending st p ss"
| "pending st p (Throw message # ss) = pending st p ss"

text \<open>
  The sections that are finished come first; one may be in progress, and has something left to do;
  those after it have not started.
\<close>

fun consistent :: "(path \<Rightarrow> CycleState option) \<Rightarrow> path \<Rightarrow> test_stmt list \<Rightarrow> bool" where
  "consistent st p [] = True"
| "consistent st p (Assertion a v t # ss) = consistent st p ss"
| "consistent st p (Section i body # ss) = (consistent st p ss \<and>
     (finished st (p @ [i]) \<or>
      kids_of st (p @ [i]) \<subseteq> set (sections_of body) \<and> consistent st (p @ [i]) body \<and>
      (sections_of body \<noteq> [] \<longrightarrow> pending st (p @ [i]) body \<noteq> []) \<and>
      (\<forall>j \<in> set (sections_of ss). untouched st (p @ [j]))))"
| "consistent st p (Throw message # ss) = consistent st p ss"

definition same_below :: "(path \<Rightarrow> CycleState option) \<Rightarrow> (path \<Rightarrow> CycleState option) \<Rightarrow> path \<Rightarrow> SectionInfo set \<Rightarrow> bool" where
  "same_below st st' p is \<longleftrightarrow> (\<forall>i \<in> is. \<forall>q. st' (p @ i # q) = st (p @ i # q))"

lemma same_below_child: "same_below st st' p is \<Longrightarrow> i \<in> is \<Longrightarrow> same_below st st' (p @ [i]) js"
  by (simp add: same_below_def)

lemma same_below_at: "same_below st st' p is \<Longrightarrow> i \<in> is \<Longrightarrow> st' (p @ [i]) = st (p @ [i])"
  unfolding same_below_def by blast

lemma pending_cong: "same_below st st' p (set (sections_of ss)) \<Longrightarrow> pending st' p ss = pending st p ss"
proof (induction st p ss rule: pending.induct)
  case (3 st p i body ss)
  have "finished st' (p @ [i]) = finished st (p @ [i])"
    using same_below_at [OF "3.prems", of i] by (simp add: finished_def)
  moreover have "pending st' (p @ [i]) body = pending st (p @ [i]) body"
    if "\<not> finished st (p @ [i])" "sections_of body \<noteq> []"
    using "3.IH"(1) [OF that] same_below_child [OF "3.prems", of i] by simp
  moreover have "pending st' p ss = pending st p ss"
    using "3.IH"(2) "3.prems" by (simp add: same_below_def)
  ultimately show ?case by simp
qed simp_all

lemma kids_of_cong: "same_below st st' p is \<Longrightarrow> i \<in> is \<Longrightarrow> kids_of st' (p @ [i]) = kids_of st (p @ [i])"
  unfolding same_below_def kids_of_def by (metis append.assoc append_Cons append_Nil)

lemma consistent_cong: "same_below st st' p (set (sections_of ss)) \<Longrightarrow> consistent st' p ss = consistent st p ss"
proof (induction st p ss rule: consistent.induct)
  case (3 st p i body ss)
  have i: "i \<in> set (sections_of (Section i body # ss))" by simp
  have "finished st' (p @ [i]) = finished st (p @ [i])"
    using same_below_at [OF "3.prems" i] by (simp add: finished_def)
  moreover have "pending st' (p @ [i]) body = pending st (p @ [i]) body"
    by (rule pending_cong [OF same_below_child [OF "3.prems" i]])
  moreover have "kids_of st' (p @ [i]) = kids_of st (p @ [i])" by (rule kids_of_cong [OF "3.prems" i])
  moreover have "untouched st' (p @ [j]) = untouched st (p @ [j])" if "j \<in> set (sections_of ss)" for j
    using same_below_at [OF "3.prems", of j] that by (simp add: untouched_def)
  moreover have "consistent st' p ss = consistent st p ss"
    using "3.IH"(1) "3.prems" by (simp add: same_below_def)
  moreover have "consistent st' (p @ [i]) body = consistent st (p @ [i]) body"
    if "\<not> finished st (p @ [i])" "kids_of st (p @ [i]) \<subseteq> set (sections_of body)"
    using "3.IH"(2) same_below_child [OF "3.prems" i] by simp
  ultimately show ?case by (simp cong: conj_cong disj_cong)
qed simp_all

lemma pending_all: "(\<And>q. q \<noteq> [] \<Longrightarrow> \<not> finished st (p @ q)) \<Longrightarrow> pending st p ss = section_paths ss"
  by (induction st p ss rule: pending.induct) auto

lemma section_paths_nonempty: "sections_of ss \<noteq> [] \<Longrightarrow> section_paths ss \<noteq> []"
  by (induction ss rule: section_paths.induct) auto

lemma consistent_all:
  "(\<And>q. q \<noteq> [] \<Longrightarrow> st (p @ q) = None) \<Longrightarrow> consistent st p ss"
proof (induction st p ss rule: consistent.induct)
  case (3 st p i body ss)
  have none: "st (p @ [i] @ q) = None" for q using "3.prems" [of "[i] @ q"] by simp
  then have "pending st (p @ [i]) body = section_paths body"
    by (intro pending_all) (simp add: finished_def)
  moreover have "kids_of st (p @ [i]) = {}" using none [of "[_]"] by (auto simp: kids_of_def)
  moreover have "consistent st (p @ [i]) body" if "\<not> finished st (p @ [i])" "kids_of st (p @ [i]) \<subseteq> set (sections_of body)"
    using "3.IH"(2) none by simp
  ultimately show ?case
    using "3.IH"(1) "3.prems" none [of "[]"] section_paths_nonempty [of body] by (auto simp: untouched_def finished_def)
qed simp_all

section \<open>One statement\<close>

text \<open>What no statement of an orderly test case changes.\<close>

definition steady :: "'g RunContext \<Rightarrow> 'g RunContext \<Rightarrow> bool" where
  "steady rc rc' \<longleftrightarrow> m_config rc' = m_config rc \<and>
     failed (assertions (m_totals rc')) = failed (assertions (m_totals rc)) \<and>
     m_activeSections rc' = m_activeSections rc \<and> m_unfinishedSections rc' = m_unfinishedSections rc"

lemma steady_refl: "steady rc rc" by (simp add: steady_def)
lemma steady_trans: "steady rc rc' \<Longrightarrow> steady rc' rc'' \<Longrightarrow> steady rc rc''" by (simp add: steady_def)

lemma report_fields [simp]:
  "m_config (report r rc) = m_config rc" "m_totals (report r rc) = m_totals rc"
  "m_trackerContext (report r rc) = m_trackerContext rc"
  "m_activeSections (report r rc) = m_activeSections rc"
  "m_unfinishedSections (report r rc) = m_unfinishedSections rc"
  "reports (report r rc) = reports rc @ [r]"
  by (simp_all add: report_def)

lemma started_report:
  "started (report r rc) = started rc @ (case r of Report_sectionStarting i \<Rightarrow> [i] | _ \<Rightarrow> [])"
  by (simp add: started_def)

lemma started_cong: "reports rc' = reports rc \<Longrightarrow> started rc' = started rc"
  by (simp add: started_def)

lemma assertion_holds:
  assumes "value \<noteq> isFalseTest (resultDisposition info)"
  obtains rc' where "assert_macro info value text rc = (Returned, rc')" and "steady rc rc'"
    and "m_trackerContext rc' = m_trackerContext rc" and "started rc' = started rc"
proof -
  let ?rc = "report (Report_assertionStarting info) rc"
  let ?rc' = "if \<not> m_includeSuccessfulResults ?rc then assertionPassed ?rc else reportExpr info Ok text ?rc"
  have run: "assert_macro info value text rc = (Returned, ?rc')"
    using assms by (simp add: assert_macro_def handleExpr_def complete_def no_reaction_def Let_def)
  have "reports (assertionEnded r rc0) = reports rc0 @ [Report_assertionEnded r (m_messages (count_result r rc0)) (m_totals (count_result r rc0))]"
    for r and rc0 :: "'a RunContext"
    by (simp add: assertionEnded_def resetAssertionInfo_def count_result_def count_assertion_def Let_def)
  then have "started (assertionEnded r rc0) = started rc0" for r and rc0 :: "'a RunContext"
    by (simp add: started_def)
  then have "started ?rc' = started rc"
    using started_report [of "Report_assertionStarting info" rc]
    by (auto simp: reportExpr_def started_def)
  moreover have "steady rc ?rc'" "m_trackerContext ?rc' = m_trackerContext rc"
    by (auto simp: steady_def reportExpr_def make_result_def count_result_def count_assertion_def inc_passed_def)
  ultimately show thesis using that run by blast
qed

lemma sectionStarted_tracks:
  assumes "tracks (m_trackerContext rc) A st" and "st p \<noteq> None"
    and "currentTracker (m_trackerContext rc) = Some (A p)"
    and "p = [] \<or> st (butlast p) = Some ExecutingChildren"
    and "contextState (m_trackerContext rc) = CompletedCycle \<Longrightarrow> finished st (p @ [i]) \<or> untouched st (p @ [i])"
  obtains tc A' where "\<And>q. st q \<noteq> None \<Longrightarrow> A' q = A q"
    and "contextState tc = contextState (m_trackerContext rc)"
    and "contextState (m_trackerContext rc) = CompletedCycle \<or> finished st (p @ [i]) \<Longrightarrow>
      sectionStarted i rc = Inr ((False, Counts_zero), rc\<lparr>m_trackerContext := tc\<rparr>) \<and>
      tracks tc A' (created (p @ [i]) st) \<and> currentTracker tc = Some (A' p)"
    and "\<not> (contextState (m_trackerContext rc) = CompletedCycle \<or> finished st (p @ [i])) \<Longrightarrow>
      tracks tc A' (opened p i st) \<and> currentTracker tc = Some (A' (p @ [i])) \<and>
      (\<exists>prev rc1. sectionStarted i rc = Inr ((True, prev), rc1) \<and> m_trackerContext rc1 = tc \<and>
         started rc1 = started rc @ [i] \<and> steady rc (rc1\<lparr>m_activeSections := m_activeSections rc\<rparr>) \<and>
         m_activeSections rc1 = m_activeSections rc @ [A' (p @ [i])])"
proof -
  let ?q = "p @ [i]"
  obtain tc A' where acq: "SectionTracker_acquire (nl_of i) (m_trackerContext rc) = Inr (A' ?q, tc)"
    and same: "\<And>q. st q \<noteq> None \<Longrightarrow> A' q = A q" and cyc: "contextState tc = contextState (m_trackerContext rc)"
    and t: "tracks tc A' (if contextState (m_trackerContext rc) = CompletedCycle \<or> finished st ?q
       then created ?q st else opened p i st)"
    and cur: "currentTracker tc = Some (A' (if contextState (m_trackerContext rc) = CompletedCycle \<or> finished st ?q
       then p else ?q))"
    by (rule tracks_acquire [OF assms(1-4), of i]) (rule that; assumption)
  show thesis
  proof (rule that [OF same cyc])
    assume skip: "contextState (m_trackerContext rc) = CompletedCycle \<or> finished st ?q"
    then have t': "tracks tc A' (created ?q st)" using t by simp
    have "created ?q st ?q \<noteq> None" "created ?q st ?q = Some NotStarted \<or> finished (created ?q st) ?q"
      using skip assms(5) by (auto simp: created_def finished_def untouched_def)
    then have "\<not> isOpen (tracker_at tc (A' ?q))" using tracks_complete(2) [OF t'] by blast
    then show "sectionStarted i rc = Inr ((False, Counts_zero), rc\<lparr>m_trackerContext := tc\<rparr>) \<and>
        tracks tc A' (created ?q st) \<and> currentTracker tc = Some (A' p)"
      using acq cur t' skip by (simp add: sectionStarted_def nl_of_def)
  next
    assume enter: "\<not> (contextState (m_trackerContext rc) = CompletedCycle \<or> finished st ?q)"
    then have t': "tracks tc A' (opened p i st)" using t by simp
    have "opened p i st ?q = Some Executing" by (simp add: opened_def)
    then have "isOpen (tracker_at tc (A' ?q))" using tracks_complete(2) [OF t'] by (simp add: finished_def)
    then show "tracks tc A' (opened p i st) \<and> currentTracker tc = Some (A' ?q) \<and>
      (\<exists>prev rc1. sectionStarted i rc = Inr ((True, prev), rc1) \<and> m_trackerContext rc1 = tc \<and>
         started rc1 = started rc @ [i] \<and> steady rc (rc1\<lparr>m_activeSections := m_activeSections rc\<rparr>) \<and>
         m_activeSections rc1 = m_activeSections rc @ [A' ?q])"
      using acq cur t' enter
      by (simp add: sectionStarted_def nl_of_def Let_def started_def steady_def)
  qed
qed

lemma sectionEnded_tracks:
  assumes "tracks (m_trackerContext rc) A st" and "currentTracker (m_trackerContext rc) = Some (A (p @ [i]))"
    and "st (p @ [i]) = Some Executing \<or> st (p @ [i]) = Some ExecutingChildren"
    and "m_activeSections rc = as @ [A (p @ [i])]" and "\<not> warnAboutMissingAssertions (m_config rc)"
  shows "\<exists>rc'. sectionEnded next_value endInfo rc = Inr rc' \<and>
    tracks (m_trackerContext rc') A (st(p @ [i] \<mapsto> closed st (p @ [i]))) \<and>
    currentTracker (m_trackerContext rc') = Some (A p) \<and> contextState (m_trackerContext rc') = CompletedCycle \<and>
    m_activeSections rc' = as \<and> steady (rc\<lparr>m_activeSections := as\<rparr>) rc' \<and> started rc' = started rc"
proof -
  obtain tc where tc: "close next_value (A (p @ [i])) (m_trackerContext rc) = Inr tc"
      "tracks tc A (st(p @ [i] \<mapsto> closed st (p @ [i])))"
      "currentTracker tc = Some (A p)" "contextState tc = CompletedCycle"
    using tracks_close [OF assms(1-3)] by blast
  show ?thesis
    using assms(4,5) tc
    by (simp add: sectionEnded_def testForMissingAssertions_def close_section_def steady_def started_def)
qed

section \<open>A body\<close>

text \<open>
  What running the statements \<open>ss\<close> at the path \<open>p\<close> does: nothing once the cycle is complete or
  everything is finished, else exactly the first pending path.
\<close>

definition body_result ::
  "'g RunContext \<Rightarrow> (path \<Rightarrow> nat) \<Rightarrow> (path \<Rightarrow> CycleState option) \<Rightarrow> path \<Rightarrow> test_stmt list \<Rightarrow>
   'g RunContext \<Rightarrow> (path \<Rightarrow> nat) \<Rightarrow> (path \<Rightarrow> CycleState option) \<Rightarrow> bool" where
  "body_result rc A st p ss rc' A' st' \<longleftrightarrow>
     steady rc rc' \<and> (\<forall>q. st q \<noteq> None \<longrightarrow> st' q \<noteq> None \<and> A' q = A q) \<and>
     tracks (m_trackerContext rc') A' st' \<and> currentTracker (m_trackerContext rc') = Some (A' p) \<and>
     (\<forall>q. q \<noteq> p \<and> (\<forall>i \<in> set (sections_of ss). \<forall>r. q \<noteq> p @ i # r) \<longrightarrow> st' q = st q) \<and>
     consistent st' p ss \<and> (\<forall>i \<in> set (sections_of ss). st' (p @ [i]) \<noteq> None) \<and>
     (contextState (m_trackerContext rc) = CompletedCycle \<longrightarrow> (\<forall>i \<in> set (sections_of ss). untouched st' (p @ [i]))) \<and>
     (if contextState (m_trackerContext rc) = CompletedCycle \<or> pending st p ss = []
      then contextState (m_trackerContext rc') = contextState (m_trackerContext rc) \<and> st' p = st p \<and>
        pending st' p ss = pending st p ss \<and> started rc' = started rc
      else contextState (m_trackerContext rc') = CompletedCycle \<and> st' p = Some ExecutingChildren \<and>
        pending st' p ss = tl (pending st p ss) \<and> started rc' = started rc @ hd (pending st p ss))"

lemma consistent_finished:
  "consistent st p [Section i body] \<Longrightarrow> pending st p [Section i body] = [] \<Longrightarrow> finished st (p @ [i])"
  by (auto split: if_splits)

lemma consistent_Cons:
  "consistent st p (Section i body # ss) \<longleftrightarrow> consistent st p [Section i body] \<and> consistent st p ss \<and>
     (finished st (p @ [i]) \<or> (\<forall>j \<in> set (sections_of ss). untouched st (p @ [j])))"
  by auto

lemma body_result_below:
  assumes "body_result rc A st p ss rc' A' st'" and "set (sections_of ss) \<inter> is = {}"
  shows "same_below st st' p is"
  using assms by (auto simp: body_result_def same_below_def)

lemma body_result_seq:
  assumes one: "body_result rc A st p [Section i body] rc1 A1 st1"
    and two: "body_result rc1 A1 st1 p ss rc2 A2 st2"
    and distinct: "i \<notin> set (sections_of ss)" and consistent: "consistent st p (Section i body # ss)"
  shows "body_result rc A st p (Section i body # ss) rc2 A2 st2"
proof -
  let ?s = "[Section i body]"
  have below1: "same_below st st1 p (set (sections_of ss))"
    by (rule body_result_below [OF one]) (use distinct in simp)
  have below2: "same_below st1 st2 p {i}" by (rule body_result_below [OF two]) (use distinct in simp)
  have pend1: "pending st1 p ss = pending st p ss" by (rule pending_cong [OF below1])
  have pend2: "pending st2 p ?s = pending st1 p ?s" by (rule pending_cong) (use below2 in simp)
  have i2: "st2 (p @ [i]) = st1 (p @ [i])" by (rule same_below_at [OF below2]) simp
  have cons1: "consistent st1 p ?s" using one by (simp add: body_result_def)
  have cons2: "consistent st2 p ?s" using cons1 consistent_cong [of st1 st2 p ?s] below2 by simp
  have fin: "finished st2 (p @ [i]) = finished st1 (p @ [i])" using i2 by (simp add: finished_def)
  have split: "pending st p (Section i body # ss) = pending st p ?s @ pending st p ss" for st by simp
  have last: "finished st2 (p @ [i]) \<or> (\<forall>j \<in> set (sections_of ss). untouched st2 (p @ [j]))"
  proof (cases "contextState (m_trackerContext rc1) = CompletedCycle")
    case True
    then show ?thesis using two by (simp add: body_result_def)
  next
    case False
    then have "pending st1 p ?s = []" using one by (auto simp: body_result_def split: if_splits)
    then show ?thesis using consistent_finished [OF cons1] fin by blast
  qed
  have frame: "st2 q = st q"
    if "q \<noteq> p" "\<forall>j \<in> set (sections_of (Section i body # ss)). \<forall>r. q \<noteq> p @ j # r" for q
  proof -
    have "st2 q = st1 q" using two that unfolding body_result_def by simp
    also have "\<dots> = st q" using one that unfolding body_result_def by simp
    finally show ?thesis .
  qed
  show ?thesis
    unfolding body_result_def split
  proof (intro conjI)
    show "steady rc rc2" using one two by (auto simp: body_result_def intro: steady_trans)
    show "\<forall>q. st q \<noteq> None \<longrightarrow> st2 q \<noteq> None \<and> A2 q = A q" using one two by (simp add: body_result_def)
    show "consistent st2 p (Section i body # ss)"
      using cons2 two last consistent_Cons [of st2 p i body ss] by (simp add: body_result_def)
    show "\<forall>j \<in> set (sections_of (Section i body # ss)). st2 (p @ [j]) \<noteq> None"
      using one two i2 by (simp add: body_result_def)
    show "\<forall>q. q \<noteq> p \<and> (\<forall>j \<in> set (sections_of (Section i body # ss)). \<forall>r. q \<noteq> p @ j # r) \<longrightarrow> st2 q = st q"
      using frame by blast
    show "contextState (m_trackerContext rc) = CompletedCycle \<longrightarrow>
        (\<forall>j \<in> set (sections_of (Section i body # ss)). untouched st2 (p @ [j]))"
      using one two i2 by (simp add: body_result_def untouched_def)
  qed (use one two pend1 pend2 in \<open>auto simp: body_result_def split: if_splits\<close>)
qed

text \<open>When the statements \<open>ss\<close> may be run at \<open>p\<close>.\<close>

definition ready :: "'g RunContext \<Rightarrow> (path \<Rightarrow> nat) \<Rightarrow> (path \<Rightarrow> CycleState option) \<Rightarrow> path \<Rightarrow> test_stmt list \<Rightarrow> bool" where
  "ready rc A st p ss \<longleftrightarrow> \<not> warnAboutMissingAssertions (m_config rc) \<and>
     tracks (m_trackerContext rc) A st \<and> currentTracker (m_trackerContext rc) = Some (A p) \<and> p \<noteq> [] \<and>
     (st p = Some Executing \<or> st p = Some ExecutingChildren) \<and> st (butlast p) = Some ExecutingChildren \<and>
     consistent st p ss \<and>
     (contextState (m_trackerContext rc) = CompletedCycle \<longrightarrow> (\<forall>i \<in> set (sections_of ss). untouched st (p @ [i])))"

lemma pending_finished:
  "consistent st p ss \<Longrightarrow> pending st p ss = [] \<longleftrightarrow> (\<forall>i \<in> set (sections_of ss). finished st (p @ [i]))"
  by (induction ss rule: sections_of.induct) auto

lemma section_skipped:
  assumes "ready rc A st p [Section i body]"
    and "contextState (m_trackerContext rc) = CompletedCycle \<or> finished st (p @ [i])"
  shows "\<exists>rc' A'. section_block next_value i run rc = Some (Inr (Returned, rc')) \<and>
    body_result rc A st p [Section i body] rc' A' (created (p @ [i]) st)"
proof -
  let ?q = "p @ [i]"
  let ?st = "created ?q st"
  have t: "tracks (m_trackerContext rc) A st" and cur: "currentTracker (m_trackerContext rc) = Some (A p)"
    and p: "st p \<noteq> None" "p = [] \<or> st (butlast p) = Some ExecutingChildren"
    and cyc: "contextState (m_trackerContext rc) = CompletedCycle \<Longrightarrow> finished st ?q \<or> untouched st ?q"
    using assms(1) by (auto simp: ready_def)
  obtain tc A' where same: "\<And>q. st q \<noteq> None \<Longrightarrow> A' q = A q" and keep: "contextState tc = contextState (m_trackerContext rc)"
    and run: "sectionStarted i rc = Inr ((False, Counts_zero), rc\<lparr>m_trackerContext := tc\<rparr>) \<and>
      tracks tc A' ?st \<and> currentTracker tc = Some (A' p)"
    using sectionStarted_tracks [OF t p(1) cur p(2) cyc] assms(2) by metis
  have below: "same_below st ?st ?q is" for "is" by (auto simp: same_below_def created_def)
  have fin: "finished ?st ?q = finished st ?q" by (auto simp: created_def finished_def)
  have pend: "pending ?st p [Section i body] = pending st p [Section i body]"
    using fin pending_cong [OF below, of body] by simp
  have kids: "kids_of ?st ?q = kids_of st ?q" by (auto simp: kids_of_def created_def)
  have consistent: "consistent ?st p [Section i body]"
    using assms(1) fin consistent_cong [OF below, of body] pending_cong [OF below, of body] kids by (auto simp: ready_def)
  have nil: "pending st p [Section i body] = [] \<or> contextState (m_trackerContext rc) = CompletedCycle"
    using assms(2) by auto
  have frame: "q \<noteq> p \<and> (\<forall>j \<in> set (sections_of [Section i body]). \<forall>r. q \<noteq> p @ j # r) \<longrightarrow> ?st q = st q" for q
    by (auto simp: created_def)
  have "contextState (m_trackerContext rc) = CompletedCycle \<longrightarrow> untouched ?st ?q" "?st ?q \<noteq> None" "?st p = st p"
    "\<forall>q. st q \<noteq> None \<longrightarrow> ?st q \<noteq> None"
    using assms(1) by (auto simp: created_def untouched_def ready_def)
  then have "body_result rc A st p [Section i body] (rc\<lparr>m_trackerContext := tc\<rparr>) A' ?st"
    using run same keep consistent pend nil frame
    by (auto simp: body_result_def steady_def started_def simp del: consistent.simps pending.simps)
  then show ?thesis using run by (auto simp: section_block_def)
qed

text \<open>The state of a section after its end.\<close>

lemma section_closed:
  assumes "body_result rc A st q body rc' A' st'" and "st q = Some Executing"
    and "kids_of st q \<subseteq> set (sections_of body)" and "contextState (m_trackerContext rc) \<noteq> CompletedCycle"
    and "sections_of body \<noteq> [] \<longrightarrow> pending st q body \<noteq> []" and "sections_of body = [] \<longrightarrow> pending st q body = []"
  shows "st' q = Some Executing \<or> st' q = Some ExecutingChildren"
    and "kids_of st' q \<subseteq> set (sections_of body)"
    and "closed st' q = (if sections_of body = [] \<or> pending st' q body = [] then CompletedSuccessfully else ExecutingChildren)"
proof -
  have frame: "st' r = st r" if "r \<noteq> q" "\<forall>j \<in> set (sections_of body). \<forall>s. r \<noteq> q @ j # s" for r
    using assms(1) that by (simp add: body_result_def)
  show kids: "kids_of st' q \<subseteq> set (sections_of body)"
    using assms(3) frame [of "q @ [_]"] by (force simp: kids_of_def)
  have state: "st' q = Some (if sections_of body = [] then Executing else ExecutingChildren)"
    using assms by (auto simp: body_result_def)
  then show "st' q = Some Executing \<or> st' q = Some ExecutingChildren" by simp
  have "kids_of st' q = set (sections_of body)"
    using kids assms(1) by (auto simp: kids_of_def body_result_def)
  then show "closed st' q = (if sections_of body = [] \<or> pending st' q body = [] then CompletedSuccessfully else ExecutingChildren)"
    using state pending_finished [of st' q body] assms(1) by (auto simp: closed_def body_result_def)
qed

lemma opened_simps [simp]:
  "opened p i st (p @ [i]) = Some Executing" "opened p i st p = Some ExecutingChildren"
  "r \<noteq> p \<Longrightarrow> r \<noteq> p @ [i] \<Longrightarrow> opened p i st r = st r"
  by (auto simp: opened_def created_def)

lemma opened_grows: "st r \<noteq> None \<Longrightarrow> opened p i st r \<noteq> None"
  by (auto simp: opened_def created_def)

lemma opened_below: "same_below st (opened p i st) (p @ [i]) is"
  by (auto simp: same_below_def)

text \<open>A section that is not finished, entered.\<close>

lemma inside_section:
  assumes "consistent st p [Section i body]" and "\<not> finished st (p @ [i])"
  shows "consistent (opened p i st) (p @ [i]) body"
    and "kids_of (opened p i st) (p @ [i]) \<subseteq> set (sections_of body)"
    and "sections_of body \<noteq> [] \<longrightarrow> pending (opened p i st) (p @ [i]) body \<noteq> []"
    and "sections_of body = [] \<longrightarrow> pending (opened p i st) (p @ [i]) body = []"
    and "pending st p [Section i body] =
      (if sections_of body = [] then [[i]] else map ((#) i) (pending (opened p i st) (p @ [i]) body))"
proof -
  have "pending st (p @ [i]) body = []" if "sections_of body = []"
    using that by (induction body rule: sections_of.induct) auto
  moreover have "kids_of (opened p i st) (p @ [i]) = kids_of st (p @ [i])" by (simp add: kids_of_def)
  ultimately show "consistent (opened p i st) (p @ [i]) body"
    and "kids_of (opened p i st) (p @ [i]) \<subseteq> set (sections_of body)"
    and "sections_of body \<noteq> [] \<longrightarrow> pending (opened p i st) (p @ [i]) body \<noteq> []"
    and "sections_of body = [] \<longrightarrow> pending (opened p i st) (p @ [i]) body = []"
    and "pending st p [Section i body] =
      (if sections_of body = [] then [[i]] else map ((#) i) (pending (opened p i st) (p @ [i]) body))"
    using assms consistent_cong [OF opened_below, where ss = body] pending_cong [OF opened_below, where ss = body] by auto
qed

text \<open>The first pending path is done once the section is closed.\<close>

lemma section_done:
  assumes two: "body_result rc A (opened p i st) (p @ [i]) body rc' A' st'"
    and todo: "consistent st p [Section i body]" "\<not> finished st (p @ [i])"
    and cyc: "contextState (m_trackerContext rc) \<noteq> CompletedCycle"
  defines "st3 \<equiv> st'(p @ [i] \<mapsto> closed st' (p @ [i]))"
  shows "st' (p @ [i]) = Some Executing \<or> st' (p @ [i]) = Some ExecutingChildren"
    and "consistent st3 p [Section i body]"
    and "pending st p [Section i body] \<noteq> []"
    and "pending st3 p [Section i body] = tl (pending st p [Section i body])"
    and "started rc @ hd (pending st p [Section i body]) = started rc @ i # tl (hd (pending st p [Section i body]))"
    and "started rc' = started rc @ tl (hd (pending st p [Section i body]))"
    and "st3 (p @ [i]) = Some (if tl (pending st p [Section i body]) = [] then CompletedSuccessfully else ExecutingChildren)"
proof -
  let ?q = "p @ [i]" and ?P = "pending (opened p i st) (p @ [i]) body"
  note inside = inside_section [OF todo]
  note ended = section_closed [OF two _ inside(2) cyc inside(3,4), simplified]
  show "st' ?q = Some Executing \<or> st' ?q = Some ExecutingChildren" by (rule ended(1))
  have below: "same_below st' st3 ?q is" for "is" by (simp add: same_below_def st3_def)
  have kids: "kids_of st3 ?q = kids_of st' ?q" by (simp add: kids_of_def st3_def)
  have pend: "pending st3 ?q body = pending st' ?q body" by (rule pending_cong [OF below])
  have fin: "finished st3 ?q \<longleftrightarrow> sections_of body = [] \<or> pending st' ?q body = []"
    using ended(3) by (simp add: finished_def st3_def)
  have "consistent st' ?q body" using two by (simp add: body_result_def)
  then show "consistent st3 p [Section i body]"
    using fin kids pend ended(2) consistent_cong [OF below, of body] by auto
  have run: "pending st' ?q body = tl ?P \<and> started rc' = started rc @ (if ?P = [] then [] else hd ?P)"
    using two cyc by (auto simp: body_result_def)
  show "pending st p [Section i body] \<noteq> []" using inside(3,5) by auto
  show "pending st3 p [Section i body] = tl (pending st p [Section i body])"
    using fin pend run inside(3) unfolding inside(5) by (cases ?P) auto
  show "started rc @ hd (pending st p [Section i body]) = started rc @ i # tl (hd (pending st p [Section i body]))"
    using inside(3) unfolding inside(5) by (cases ?P) auto
  show "started rc' = started rc @ tl (hd (pending st p [Section i body]))"
    using run inside(3,4) unfolding inside(5) by (cases ?P) auto
  show "st3 ?q = Some (if tl (pending st p [Section i body]) = [] then CompletedSuccessfully else ExecutingChildren)"
    using ended(3) run inside(3) unfolding inside(5) by (cases ?P) (auto simp: st3_def)
qed

lemma section_entered:
  assumes ready: "ready rc A st p [Section i body]"
    and enter: "\<not> (contextState (m_trackerContext rc) = CompletedCycle \<or> finished st (p @ [i]))"
    and IH: "\<And>rc A st. ready rc A st (p @ [i]) body \<Longrightarrow>
      \<exists>rc' A' st'. run rc = Some (Inr (Returned, rc')) \<and> body_result rc A st (p @ [i]) body rc' A' st'"
  shows "\<exists>rc' A' st'. section_block next_value i run rc = Some (Inr (Returned, rc')) \<and>
    body_result rc A st p [Section i body] rc' A' st'"
proof -
  let ?q = "p @ [i]"
  let ?st = "opened p i st"
  have t: "tracks (m_trackerContext rc) A st" and cur: "currentTracker (m_trackerContext rc) = Some (A p)"
    and p: "st p \<noteq> None" "p = [] \<or> st (butlast p) = Some ExecutingChildren"
    and todo: "consistent st p [Section i body]" "\<not> finished st ?q"
    and warn: "\<not> warnAboutMissingAssertions (m_config rc)"
    and cyc: "contextState (m_trackerContext rc) \<noteq> CompletedCycle"
    using ready enter by (auto simp: ready_def)
  obtain tc A1 where same: "\<And>q. st q \<noteq> None \<Longrightarrow> A1 q = A q" and keep: "contextState tc = contextState (m_trackerContext rc)"
    and t1: "tracks tc A1 ?st" "currentTracker tc = Some (A1 ?q)"
    and "\<exists>prev rc1. sectionStarted i rc = Inr ((True, prev), rc1) \<and> m_trackerContext rc1 = tc \<and>
         started rc1 = started rc @ [i] \<and> steady rc (rc1\<lparr>m_activeSections := m_activeSections rc\<rparr>) \<and>
         m_activeSections rc1 = m_activeSections rc @ [A1 ?q]"
    using sectionStarted_tracks [OF t p(1) cur p(2), of i] enter by metis
  then obtain prev rc1 where run1: "sectionStarted i rc = Inr ((True, prev), rc1)" and tc: "m_trackerContext rc1 = tc"
    and s1: "started rc1 = started rc @ [i]" and steady1: "steady rc (rc1\<lparr>m_activeSections := m_activeSections rc\<rparr>)"
    and active: "m_activeSections rc1 = m_activeSections rc @ [A1 ?q]" by blast
  have "ready rc1 A1 ?st ?q body"
    unfolding ready_def tc using warn steady1 t1 keep cyc inside_section(1) [OF todo]
    by (simp add: steady_def)
  then obtain rc2 A2 st2 where run2: "run rc1 = Some (Inr (Returned, rc2))"
    and two: "body_result rc1 A1 ?st ?q body rc2 A2 st2" using IH by blast
  have cyc1: "contextState (m_trackerContext rc1) \<noteq> CompletedCycle" using cyc keep tc by simp
  note fin = section_done [OF two todo cyc1]
  let ?st3 = "st2(?q \<mapsto> closed st2 ?q)"
  have two': "tracks (m_trackerContext rc2) A2 st2" "currentTracker (m_trackerContext rc2) = Some (A2 ?q)"
      "steady rc1 rc2" "A2 ?q = A1 ?q"
    using two by (simp_all add: body_result_def)
  then obtain rc3 where run3: "sectionEnded next_value \<lparr>sectionInfo = i, prevAssertions = prev\<rparr> rc2 = Inr rc3"
    and t3: "tracks (m_trackerContext rc3) A2 ?st3" "currentTracker (m_trackerContext rc3) = Some (A2 p)"
      "contextState (m_trackerContext rc3) = CompletedCycle" and s3: "started rc3 = started rc2"
    and steady3: "m_activeSections rc3 = m_activeSections rc" "steady (rc2\<lparr>m_activeSections := m_activeSections rc\<rparr>) rc3"
    using sectionEnded_tracks [OF two'(1,2) fin(1), of "m_activeSections rc" next_value "\<lparr>sectionInfo = i, prevAssertions = prev\<rparr>"]
      active warn steady1 by (auto simp: steady_def)
  have block: "section_block next_value i run rc = Some (Inr (Returned, rc3))"
    using run1 run2 run3 by (simp add: section_block_def)
  have frame: "?st3 r = st r" if "r \<noteq> p" "\<forall>s. r \<noteq> p @ i # s" for r
  proof -
    have r: "r \<noteq> ?q" "\<forall>j s. r \<noteq> ?q @ j # s" using that(2) by auto
    then have "st2 r = ?st r" using two by (simp add: body_result_def)
    then show ?thesis using r(1) that(1) by simp
  qed
  have "st2 p = ?st p" using two by (simp add: body_result_def)
  then have p3: "?st3 p = Some ExecutingChildren" by simp
  have "steady rc rc3" using steady1 two'(3) steady3 by (simp add: steady_def)
  moreover have "\<forall>r. st r \<noteq> None \<longrightarrow> ?st3 r \<noteq> None \<and> A2 r = A r"
  proof (intro allI impI)
    fix r assume r: "st r \<noteq> None"
    have "st2 r \<noteq> None \<and> A2 r = A1 r" using two opened_grows [of st r p i, OF r] by (simp add: body_result_def)
    then show "?st3 r \<noteq> None \<and> A2 r = A r" using same [OF r] by simp
  qed
  moreover have "started rc3 = started rc @ hd (pending st p [Section i body])"
    using s1 s3 fin(5,6) by simp
  ultimately have "body_result rc A st p [Section i body] rc3 A2 ?st3"
    using t3 frame fin(2,3,4) cyc p3
    by (simp add: body_result_def del: consistent.simps pending.simps)
  then show ?thesis using block by blast
qed

lemma run_stmts_result:
  "orderly ss \<Longrightarrow> ready rc A st p ss \<Longrightarrow>
    \<exists>rc' A' st'. run_stmts next_value ss rc = Some (Inr (Returned, rc')) \<and> body_result rc A st p ss rc' A' st'"
proof (induction ss arbitrary: rc A st p rule: orderly.induct)
  case 1
  then have "body_result rc A st p [] rc A st"
    by (simp add: ready_def body_result_def steady_refl)
  then show ?case by auto
next
  case (2 a v t ss)
  obtain rc1 where run: "assert_macro a v t rc = (Returned, rc1)" and same: "steady rc rc1"
    "m_trackerContext rc1 = m_trackerContext rc" "started rc1 = started rc"
    using assertion_holds [of v a t rc] "2.prems"(1) by auto
  have "ready rc1 A st p ss" using "2.prems"(2) same by (simp add: ready_def steady_def)
  then obtain rc' A' st' where "run_stmts next_value ss rc1 = Some (Inr (Returned, rc'))"
    and two: "body_result rc1 A st p ss rc' A' st'" using "2.IH" "2.prems"(1) by fastforce
  moreover have "body_result rc A st p (Assertion a v t # ss) rc' A' st'"
    using two same unfolding body_result_def by (simp add: steady_def)
  ultimately show ?case using run by auto
next
  case (3 i body ss)
  have one: "ready rc A st p [Section i body]" using "3.prems"(2) by (auto simp: ready_def)
  have "\<exists>rc1 A1 st1. section_block next_value i (run_stmts next_value body) rc = Some (Inr (Returned, rc1)) \<and>
      body_result rc A st p [Section i body] rc1 A1 st1"
  proof (cases "contextState (m_trackerContext rc) = CompletedCycle \<or> finished st (p @ [i])")
    case True
    then show ?thesis using section_skipped [OF one] by blast
  next
    case False
    then show ?thesis using section_entered [OF one False] "3.IH"(1) "3.prems"(1) by simp
  qed
  then obtain rc1 A1 st1 where run: "section_block next_value i (run_stmts next_value body) rc = Some (Inr (Returned, rc1))"
    and r1: "body_result rc A st p [Section i body] rc1 A1 st1" by blast
  have below: "same_below st st1 p (set (sections_of ss))"
    by (rule body_result_below [OF r1]) (use "3.prems"(1) in simp)
  have "untouched st1 (p @ [j])" if "contextState (m_trackerContext rc1) = CompletedCycle" "j \<in> set (sections_of ss)" for j
  proof -
    have "pending st p [Section i body] \<noteq> []" if "contextState (m_trackerContext rc) \<noteq> CompletedCycle"
      using r1 that \<open>contextState (m_trackerContext rc1) = CompletedCycle\<close> by (auto simp: body_result_def)
    then have "untouched st (p @ [j])"
      using "3.prems"(2) that(2) by (cases "contextState (m_trackerContext rc) = CompletedCycle")
        (auto simp: ready_def split: if_splits)
    then show ?thesis using same_below_at [OF below that(2)] by (simp add: untouched_def)
  qed
  moreover have "consistent st1 p ss" using "3.prems"(2) consistent_cong [OF below] by (simp add: ready_def)
  moreover have "st1 (butlast p) = st (butlast p)"
  proof -
    have "butlast p \<noteq> p" using "3.prems"(2) by (metis append_butlast_last_id not_Cons_self2 append_self_conv ready_def)
    moreover have "butlast p \<noteq> p @ i # r" for r by (rule notI, drule arg_cong [of _ _ length]) simp
    ultimately show ?thesis using r1 by (simp add: body_result_def)
  qed
  moreover have "st1 p = st p \<or> st1 p = Some ExecutingChildren"
    using r1 unfolding body_result_def by (auto split: if_splits)
  ultimately have "ready rc1 A1 st1 p ss"
    using "3.prems"(2) r1 by (auto simp: ready_def body_result_def steady_def)
  then obtain rc' A' st' where "run_stmts next_value ss rc1 = Some (Inr (Returned, rc'))"
    and two: "body_result rc1 A1 st1 p ss rc' A' st'" using "3.IH"(2) "3.prems"(1) by fastforce
  moreover have "body_result rc A st p (Section i body # ss) rc' A' st'"
    by (rule body_result_seq [OF r1 two]) (use "3.prems" in \<open>simp_all add: ready_def\<close>)
  ultimately show ?case using run by auto
qed simp

end
