(* ===== verification/Catch_Section_Cycles.thy ===== *)
theory Catch_Section_Cycles
  imports Catch_Sections
begin

text \<open>The cycles of \<open>runTest\<close>: one pending path each, until none is left.\<close>

definition top_section :: "TestCaseInfo \<Rightarrow> SectionInfo" where
  "top_section info = \<lparr>sec_name = tc_name info, sec_lineInfo = lineInfo info\<rparr>"

definition cycle_ready ::
  "TestCaseInfo \<Rightarrow> test_stmt list \<Rightarrow> 'g RunContext \<Rightarrow> (path \<Rightarrow> nat) \<Rightarrow> (path \<Rightarrow> CycleState option) \<Rightarrow> bool" where
  "cycle_ready info body rc A st \<longleftrightarrow> \<not> warnAboutMissingAssertions (m_config rc) \<and>
     tracks (m_trackerContext rc) A st \<and> m_activeSections rc = [] \<and> m_unfinishedSections rc = [] \<and>
     consistent st [] [Section (top_section info) body]"

lemma startCycle_tracks:
  assumes "tracks c A st"
  shows "tracks (startCycle c) A st" and "currentTracker (startCycle c) = Some (A [])"
    and "contextState (startCycle c) = Run_Executing"
  using assms tracks_root [OF assms] by (simp_all add: startCycle_def tracks_def)

lemma one_cycle:
  assumes "orderly body" and ready: "cycle_ready info body rc A st"
    and todo: "\<not> finished st [top_section info]"
  obtains t tc rc' A' st' where
    "SectionTracker_acquire \<lparr>nl_name = tc_name info, nl_location = lineInfo info\<rparr>
       (startCycle (m_trackerContext rc)) = Inr (t, tc)"
    and "runCurrentTest next_value (run_stmts next_value body) info t
       (rc\<lparr>m_trackerContext := tc, m_testCaseTracker := Some t\<rparr>) = Some (Inr rc')"
    and "cycle_ready info body rc' A' st'" and "t = A' [top_section info]" and "steady rc rc'"
    and "pending st' [] [Section (top_section info) body] = tl (pending st [] [Section (top_section info) body])"
    and "started rc' = started rc @ hd (pending st [] [Section (top_section info) body])"
    and "st' [top_section info] = Some (if tl (pending st [] [Section (top_section info) body]) = []
       then CompletedSuccessfully else ExecutingChildren)"
proof -
  let ?top = "top_section info" and ?q = "[top_section info]"
  let ?st = "opened [] ?top st"
  have t: "tracks (m_trackerContext rc) A st" and warn: "\<not> warnAboutMissingAssertions (m_config rc)"
    and cons: "consistent st [] [Section ?top body]" and nil: "\<not> finished st ([] @ ?q)"
    using ready todo by (auto simp: cycle_ready_def)
  note c = startCycle_tracks [OF t]
  have root: "st [] \<noteq> None" using tracks_root [OF t] by simp
  obtain tc A1 where acq: "SectionTracker_acquire (nl_of ?top) (startCycle (m_trackerContext rc)) = Inr (A1 ?q, tc)"
    and keep: "contextState tc = Run_Executing" and t1: "tracks tc A1 ?st" "currentTracker tc = Some (A1 ?q)"
  proof (rule tracks_acquire [OF c(1) root c(2), of ?top])
  qed (use c(3) todo in \<open>auto intro: that\<close>)
  define rc1 where "rc1 = (report (Report_sectionStarting ?top)
      (rc\<lparr>m_trackerContext := tc, m_testCaseTracker := Some (A1 ?q)\<rparr>))\<lparr>m_shouldReportUnexpected := True,
        m_lastAssertionInfo := \<lparr>macroName = ''TEST_CASE'', ai_lineInfo = lineInfo info,
          capturedExpression = '''', resultDisposition = Normal\<rparr>\<rparr>"
  have rc1: "m_trackerContext rc1 = tc" "steady rc rc1" "started rc1 = started rc @ [?top]"
    by (simp_all add: rc1_def steady_def started_def)
  have "ready rc1 A1 ?st ?q body"
    unfolding ready_def rc1(1) using t1 keep warn inside_section(1) [OF cons nil] rc1(2)
      opened_simps(1,2) [of "[]" ?top st] by (simp add: steady_def)
  then obtain rc2 A2 st2 where run: "run_stmts next_value body rc1 = Some (Inr (Returned, rc2))"
    and two: "body_result rc1 A1 ?st ?q body rc2 A2 st2" using run_stmts_result [OF assms(1)] by blast
  have cyc: "contextState (m_trackerContext rc1) \<noteq> CompletedCycle" using keep rc1(1) by simp
  note fin = section_done [where p = "[]" and i = ?top, unfolded append_Nil, OF two cons nil [unfolded append_Nil] cyc]
  let ?st3 = "st2(?q \<mapsto> closed st2 ?q)"
  have two': "tracks (m_trackerContext rc2) A2 st2" "currentTracker (m_trackerContext rc2) = Some (A2 ?q)"
      "steady rc1 rc2" "A2 ?q = A1 ?q"
    using two opened_simps(1) [of "[]" ?top st] by (simp_all add: body_result_def)
  obtain tc3 where tc3: "close next_value (A2 ?q) (m_trackerContext rc2) = Inr tc3" "tracks tc3 A2 ?st3"
    using tracks_close [where p = "[]" and i = ?top, unfolded append_Nil, OF two'(1,2) fin(1), of next_value] by auto
  let ?rc3 = "report (Report_sectionEnded ?top (Counts_minus (assertions (m_totals rc2)) (assertions (m_totals rc))) False)
      (clear_messageScopes (rc2\<lparr>m_trackerContext := tc3, m_unfinishedSections := [], m_messages := []\<rparr>))"
  have none: "m_unfinishedSections rc2 = []" "m_activeSections rc2 = []" "\<not> warnAboutMissingAssertions (m_config rc2)"
    using ready rc1(2) two'(3) by (simp_all add: cycle_ready_def steady_def)
  show thesis
  proof (rule that)
    show "SectionTracker_acquire \<lparr>nl_name = tc_name info, nl_location = lineInfo info\<rparr>
       (startCycle (m_trackerContext rc)) = Inr (A1 ?q, tc)"
      using acq by (simp add: nl_of_def top_section_def)
    show "runCurrentTest next_value (run_stmts next_value body) info (A1 ?q)
       (rc\<lparr>m_trackerContext := tc, m_testCaseTracker := Some (A1 ?q)\<rparr>) = Some (Inr ?rc3)"
      using run none tc3(1) two'(4)
      by (simp add: runCurrentTest_def Let_def rc1_def top_section_def testForMissingAssertions_def close_section_def
          handleUnfinishedSections_def)
    show "cycle_ready info body ?rc3 A2 ?st3"
      using tc3(2) none fin(2) by (simp add: cycle_ready_def del: consistent.simps)
    show "A1 ?q = A2 ?q" using two'(4) by simp
    show "steady rc ?rc3" using rc1(2) two'(3) ready by (simp add: steady_def cycle_ready_def)
    have "started ?rc3 = started rc2" by (simp add: started_def)
    then show "started ?rc3 = started rc @ hd (pending st [] [Section ?top body])"
      using fin(5,6) rc1(3) by (simp del: pending.simps)
  qed (use fin(4,7) in \<open>simp_all del: pending.simps\<close>)
qed

lemma aborting_steady: "steady rc rc' \<Longrightarrow> aborting rc' = aborting rc"
  by (simp add: steady_def aborting_def)

lemma cycles_all:
  assumes "orderly body" and "cycle_ready info body rc A st" and "\<not> finished st [top_section info]" and "\<not> aborting rc"
  shows "\<exists>rc'. cycles next_value (run_stmts next_value body) info rc = Some (Inr rc') \<and>
    started rc' = started rc @ concat (pending st [] [Section (top_section info) body])"
  using assms(2-4)
proof (induction "length (pending st [] [Section (top_section info) body])" arbitrary: rc A st rule: less_induct)
  case less
  let ?q = "[top_section info]" and ?P = "pending st [] [Section (top_section info) body]"
  obtain t tc rc1 A1 st1 where run: "SectionTracker_acquire \<lparr>nl_name = tc_name info, nl_location = lineInfo info\<rparr>
       (startCycle (m_trackerContext rc)) = Inr (t, tc)"
     "runCurrentTest next_value (run_stmts next_value body) info t
       (rc\<lparr>m_trackerContext := tc, m_testCaseTracker := Some t\<rparr>) = Some (Inr rc1)"
    and ready: "cycle_ready info body rc1 A1 st1" and t: "t = A1 ?q" and steady: "steady rc rc1"
    and rest: "pending st1 [] [Section (top_section info) body] = tl ?P" and s1: "started rc1 = started rc @ hd ?P"
    and state: "st1 ?q = Some (if tl ?P = [] then CompletedSuccessfully else ExecutingChildren)"
    by (rule one_cycle [OF assms(1) less.prems(1,2)]) (rule that; assumption)
  have nonempty: "?P \<noteq> []" using less.prems(1,2) by (auto simp: cycle_ready_def)
  have "tracks (m_trackerContext rc1) A1 st1" using ready by (simp add: cycle_ready_def)
  from tracks_complete(3) [OF this, of ?q]
  have complete: "isSuccessfullyCompleted (tracker_at (m_trackerContext rc1) t) \<longleftrightarrow> tl ?P = []"
    using state t by auto
  show ?case
  proof (cases "tl ?P = []")
    case True
    then have "concat ?P = hd ?P" using nonempty by (cases ?P) auto
    then show ?thesis using True run complete s1 by (subst cycles.simps) simp
  next
    case False
    have "\<not> finished st1 ?q" using state False by (simp add: finished_def)
    moreover have "length (pending st1 [] [Section (top_section info) body]) < length ?P"
      unfolding rest using nonempty by simp
    ultimately obtain rc' where "cycles next_value (run_stmts next_value body) info rc1 = Some (Inr rc')"
      "started rc' = started rc1 @ concat (tl ?P)"
      using less.hyps [OF _ ready] aborting_steady [OF steady] less.prems(3) rest by auto
    moreover have "concat ?P = hd ?P @ concat (tl ?P)" using nonempty by (cases ?P) auto
    ultimately show ?thesis
      using run complete False s1 aborting_steady [OF steady] less.prems(3) by (subst cycles.simps) simp
  qed
qed

text \<open>The tree of trackers at the start of a run.\<close>

lemma startRun_tracks:
  "startRun here c = (r, c') \<Longrightarrow> tracks (add_root_filters r [] c') (\<lambda>p. r) [[] \<mapsto> NotStarted]"
  by (intro tracksI)
    (auto simp: startRun_def new_tracker_def add_root_filters_def update_tracker_def addInitialFilters_def
      kids_of_def nth_append split: if_splits)

text \<open>
  C26. A test case whose assertions hold and whose sections are told apart by their names is run
  to the end: \<open>runTest\<close> returns, and the sections it has entered are, cycle by cycle, the test
  case itself and the sections on the way to one innermost section, each innermost section once and
  in the order of the source. The run is one without \<open>-c\<close>, which would enter the named sections
  only, and without \<open>-w NoAssertions\<close>, which makes a section without assertions a failure; it has
  not been told to abort, and no section is open before the test case.
\<close>

theorem sections_run_once:
  assumes "orderly body" and "sectionsToRun (cfg_data (m_config rc)) = []"
    and "\<not> warnAboutMissingAssertions (m_config rc)" and "\<not> aborting rc"
    and "m_activeSections rc = []" and "m_unfinishedSections rc = []"
  shows "\<exists>d rc'. runTest next_value (run_stmts next_value body) here info rc = Some (Inr (d, rc')) \<and>
    started rc' = started rc @ concat (section_paths [Section (top_section info) body])"
proof -
  let ?rc1 = "(report (Report_testCaseStarting info) rc)\<lparr>m_activeTestCase := Some info\<rparr>"
  obtain r c where start: "startRun here (m_trackerContext rc) = (r, c)" by fastforce
  let ?rc2 = "?rc1\<lparr>m_trackerContext := add_root_filters r [] c\<rparr>" and ?st = "[[] \<mapsto> NotStarted]"
  have t: "tracks (add_root_filters r [] c) (\<lambda>p. r) ?st" by (rule startRun_tracks [OF start])
  have cons: "consistent ?st [] [Section (top_section info) body]" by (rule consistent_all) simp
  have ready: "cycle_ready info body ?rc2 (\<lambda>p. r) ?st"
    using assms t cons by (simp add: cycle_ready_def del: consistent.simps)
  have pend: "pending ?st [] [Section (top_section info) body] = section_paths [Section (top_section info) body]"
    by (rule pending_all) (simp add: finished_def)
  have "\<not> finished ?st [top_section info]" "\<not> aborting ?rc2"
    using assms(4) by (simp_all add: finished_def aborting_def)
  from cycles_all [OF assms(1) ready this, of next_value] obtain rc' where
    "cycles next_value (run_stmts next_value body) info ?rc2 = Some (Inr rc')"
    "started rc' = started ?rc2 @ concat (section_paths [Section (top_section info) body])"
    unfolding pend by blast
  moreover have "started ?rc2 = started rc" by (simp add: started_def)
  moreover have "started (snd (test_ended info pt rc')) = started rc'" for pt
    by (simp add: test_ended_def Let_def started_def)
  moreover have "runTest next_value (run_stmts next_value body) here info rc =
      map_option (map_sum id (test_ended info (m_totals rc))) (cycles next_value (run_stmts next_value body) info ?rc2)"
    using start assms(2) by (simp add: runTest_def)
  ultimately have "runTest next_value (run_stmts next_value body) here info rc = Some (Inr (test_ended info (m_totals rc) rc'))"
    "started (snd (test_ended info (m_totals rc) rc')) = started rc @ concat (section_paths [Section (top_section info) body])"
    by simp_all
  then show ?thesis by (metis prod.collapse)
qed

definition example_section :: "nat \<Rightarrow> string \<Rightarrow> SectionInfo" where
  "example_section line nm = \<lparr>sec_name = nm, sec_lineInfo = \<lparr>src_file = ''test.cpp'', src_line = line\<rparr>\<rparr>"

definition example_body :: "test_stmt list" where
  "example_body =
     [Assertion initial_info True ''ready'',
      Section (example_section 2 ''read'') [Section (example_section 3 ''hit'') [], Section (example_section 4 ''miss'') []],
      Section (example_section 5 ''write'') [Assertion initial_info True ''stored'']]"

definition example_info :: TestCaseInfo where
  "example_info = \<lparr>tc_name = ''cache'', className = '''', description = '''', tags = [], lcaseTags = [],
     lineInfo = \<lparr>src_file = ''test.cpp'', src_line = 1\<rparr>, properties = 0\<rparr>"

definition example_context :: "nat RunContext" where
  "example_context = RunContext_new \<lparr>cfg_data = ConfigData_default,
     cfg_testSpec = \<lparr>filters = [], invalidArgs = []\<rparr>, cfg_hasTestFilters = False\<rparr> False"

theorem sections_run_once_witness:
  "\<exists>d rc'. runTest (\<lambda>n. (False, n)) (run_stmts (\<lambda>n. (False, n)) example_body) \<lparr>src_file = ''test.cpp'', src_line = 0\<rparr>
       example_info example_context = Some (Inr (d, rc')) \<and>
     started rc' = [top_section example_info, example_section 2 ''read'', example_section 3 ''hit'',
       top_section example_info, example_section 2 ''read'', example_section 4 ''miss'',
       top_section example_info, example_section 5 ''write'']"
proof -
  have "orderly example_body"
    by (simp add: example_body_def example_section_def initial_info_def isFalseTest_def disposition_defs)
  moreover have "sectionsToRun (cfg_data (m_config example_context)) = []"
    "\<not> warnAboutMissingAssertions (m_config example_context)" "\<not> aborting example_context"
    "m_activeSections example_context = []" "m_unfinishedSections example_context = []" "started example_context = []"
    by (simp_all add: example_context_def RunContext_new_def ConfigData_default_def warnAboutMissingAssertions_def
        WarnNothing_def aborting_def Totals_zero_def Counts_zero_def started_def)
  ultimately show ?thesis
    using sections_run_once [of example_body example_context] by (simp add: example_body_def)
qed

end
