(* ===== verification/Catch_Failing_Sections.thy ===== *)
theory Catch_Failing_Sections
  imports Catch_Section_Cycles "HOL-Library.Multiset"
begin

text \<open>
  Test cases that fail: assertions that do not hold, exceptions, and what they do to the sections
  around them. Whatever happens in a body, one more section is finished by the end of a cycle, so
  \<open>runTest\<close> comes to an end; and every section that was started has been ended by then.
\<close>

section \<open>Trackers\<close>

text \<open>The state of the current tracker after \<open>close\<close>, also when it has to be run once more.\<close>

definition close_result :: "(path \<Rightarrow> CycleState option) \<Rightarrow> path \<Rightarrow> CycleState" where
  "close_result st p = (if st p = Some NeedsAnotherRun then NeedsAnotherRun else closed st p)"

definition running :: "CycleState option \<Rightarrow> bool" where
  "running x \<longleftrightarrow> x = Some Executing \<or> x = Some ExecutingChildren \<or> x = Some NeedsAnotherRun"

lemma tracks_close_any:
  assumes "tracks c A st" and "currentTracker c = Some (A (p @ [i]))" and "running (st (p @ [i]))"
  shows "\<exists>c'. close next_value (A (p @ [i])) c = Inr c' \<and>
    tracks c' A (st(p @ [i] \<mapsto> close_result st (p @ [i]))) \<and>
    currentTracker c' = Some (A p) \<and> contextState c' = CompletedCycle"
proof (cases "st (p @ [i]) = Some NeedsAnotherRun")
  case False
  then show ?thesis using tracks_close [OF assms(1,2)] assms(3) by (auto simp: running_def close_result_def)
next
  case True
  let ?q = "p @ [i]"
  note node = tracks_node [OF assms(1) True]
  obtain nm where nm: "tracker_class (tracker_at c (A ?q)) = Section_Tracker [] nm" using node(3) ..
  let ?c = "set_state (A ?q) NeedsAnotherRun c"
  have t: "tracks ?c A (st(?q \<mapsto> NeedsAnotherRun))" by (rule tracks_set_state [OF assms(1)]) (simp add: True)
  have "parent (tracker_at ?c (A ?q)) = Some (A p)" using tracks_child(3) [OF t, of p i] by simp
  then have "base_close (A ?q) c = Inr (completeCycle (setCurrentTracker (Some (A p)) ?c))"
    using node(2) by (simp add: base_close_def closed_state_def moveToParent_def)
  then have "close next_value (A ?q) c = Inr (completeCycle (setCurrentTracker (Some (A p)) ?c))"
    using assms(2) nm by (simp add: close_def close_tracker.simps close_current_def)
  then show ?thesis
    using t True by (auto simp: setCurrentTracker_def completeCycle_def tracks_def close_result_def)
qed

lemma tracks_fail:
  assumes "tracks c A st" and "st (p @ [i]) \<noteq> None"
  shows "\<exists>c'. fail_tracker (A (p @ [i])) c = Inr c' \<and>
    tracks c' A (st(p @ [i] \<mapsto> Failed, p \<mapsto> NeedsAnotherRun)) \<and>
    currentTracker c' = Some (A p) \<and> contextState c' = CompletedCycle"
proof -
  let ?q = "p @ [i]" and ?c1 = "set_state (A (p @ [i])) Failed c"
  let ?c2 = "set_state (A p) NeedsAnotherRun ?c1"
  have t1: "tracks ?c1 A (st(?q \<mapsto> Failed))" by (rule tracks_set_state [OF assms])
  have "(st(?q \<mapsto> Failed)) p \<noteq> None" using tracks_child(1) [OF assms] by simp
  from tracks_set_state [OF t1 this]
  have t2: "tracks ?c2 A (st(?q \<mapsto> Failed, p \<mapsto> NeedsAnotherRun))" .
  have "(st(?q \<mapsto> Failed, p \<mapsto> NeedsAnotherRun)) ?q \<noteq> None" by simp
  note par = tracks_child(3) [OF t2 this] tracks_child(3) [OF assms]
  have "fail_tracker (A ?q) c = Inr (completeCycle (setCurrentTracker (Some (A p)) ?c2))"
    using par by (simp add: fail_tracker_def markAsNeedingAnotherRun_def moveToParent_def)
  then show ?thesis using t2 by (auto simp: setCurrentTracker_def completeCycle_def tracks_def)
qed

section \<open>What is left to do\<close>

text \<open>
  The sections next to each other differ in name or location; nothing is said of the assertions.
\<close>

fun distinct_sections :: "test_stmt list \<Rightarrow> bool" where
  "distinct_sections [] = True"
| "distinct_sections (Assertion a v t # ss) = distinct_sections ss"
| "distinct_sections (Section i body # ss) =
     (i \<notin> set (sections_of ss) \<and> distinct_sections body \<and> distinct_sections ss)"
| "distinct_sections (Throw message # ss) = distinct_sections ss"

text \<open>All sections, and those that are neither finished nor inside a finished one.\<close>

fun all_sections :: "test_stmt list \<Rightarrow> SectionInfo list" where
  "all_sections [] = []"
| "all_sections (Assertion a v t # ss) = all_sections ss"
| "all_sections (Section i body # ss) = i # all_sections body @ all_sections ss"
| "all_sections (Throw message # ss) = all_sections ss"

fun left_to_do :: "(path \<Rightarrow> CycleState option) \<Rightarrow> path \<Rightarrow> test_stmt list \<Rightarrow> nat" where
  "left_to_do st p [] = 0"
| "left_to_do st p (Assertion a v t # ss) = left_to_do st p ss"
| "left_to_do st p (Section i body # ss) =
     (if finished st (p @ [i]) then 0 else Suc (left_to_do st (p @ [i]) body)) + left_to_do st p ss"
| "left_to_do st p (Throw message # ss) = left_to_do st p ss"

lemma left_to_do_bound: "left_to_do st p ss \<le> length (all_sections ss)"
  by (induction st p ss rule: left_to_do.induct) auto

text \<open>
  At most one section next to others is in progress: those before it are finished, those after it
  have not started.
\<close>

fun in_turn :: "(path \<Rightarrow> CycleState option) \<Rightarrow> path \<Rightarrow> test_stmt list \<Rightarrow> bool" where
  "in_turn st p [] = True"
| "in_turn st p (Assertion a v t # ss) = in_turn st p ss"
| "in_turn st p (Section i body # ss) = (in_turn st p ss \<and>
     (finished st (p @ [i]) \<or>
      in_turn st (p @ [i]) body \<and> (\<forall>j \<in> set (sections_of ss). untouched st (p @ [j]))))"
| "in_turn st p (Throw message # ss) = in_turn st p ss"

lemma left_to_do_cong: "same_below st st' p (set (sections_of ss)) \<Longrightarrow> left_to_do st' p ss = left_to_do st p ss"
proof (induction st p ss rule: left_to_do.induct)
  case (3 st p i body ss)
  have "finished st' (p @ [i]) = finished st (p @ [i])"
    using same_below_at [OF "3.prems", of i] by (simp add: finished_def)
  moreover have "left_to_do st' (p @ [i]) body = left_to_do st (p @ [i]) body" if "\<not> finished st (p @ [i])"
    using "3.IH"(1) [OF that] same_below_child [OF "3.prems", of i] by simp
  moreover have "left_to_do st' p ss = left_to_do st p ss"
    using "3.IH"(2) "3.prems" by (simp add: same_below_def)
  ultimately show ?case by simp
qed simp_all

lemma in_turn_cong: "same_below st st' p (set (sections_of ss)) \<Longrightarrow> in_turn st' p ss = in_turn st p ss"
proof (induction st p ss rule: in_turn.induct)
  case (3 st p i body ss)
  have i: "i \<in> set (sections_of (Section i body # ss))" by simp
  have "finished st' (p @ [i]) = finished st (p @ [i])"
    using same_below_at [OF "3.prems" i] by (simp add: finished_def)
  moreover have "untouched st' (p @ [j]) = untouched st (p @ [j])" if "j \<in> set (sections_of ss)" for j
    using same_below_at [OF "3.prems", of j] that by (simp add: untouched_def)
  moreover have "in_turn st' p ss = in_turn st p ss"
    using "3.IH"(1) "3.prems" by (simp add: same_below_def)
  moreover have "in_turn st' (p @ [i]) body = in_turn st (p @ [i]) body" if "\<not> finished st (p @ [i])"
    using "3.IH"(2) same_below_child [OF "3.prems" i] that by simp
  ultimately show ?case by (simp cong: conj_cong disj_cong)
qed simp_all

lemma in_turn_all: "(\<And>q. q \<noteq> [] \<Longrightarrow> st (p @ q) = None) \<Longrightarrow> in_turn st p ss"
proof (induction st p ss rule: in_turn.induct)
  case (3 st p i body ss)
  have none: "st (p @ [i] @ q) = None" for q using "3.prems" [of "[i] @ q"] by simp
  then show ?case using "3.IH" "3.prems" by (auto simp: untouched_def)
qed simp_all

section \<open>Reports\<close>

definition ended :: "'g RunContext \<Rightarrow> SectionInfo list" where
  "ended rc = concat (map (\<lambda>r. case r of Report_sectionEnded i cs m \<Rightarrow> [i] | _ \<Rightarrow> []) (reports rc))"

text \<open>
  The balance of starts and ends: what was started and not ended is waiting in
  \<open>m_unfinishedSections\<close>. Only sections of \<open>is\<close> were started.
\<close>

definition balanced :: "SectionInfo list \<Rightarrow> 'g RunContext \<Rightarrow> 'g RunContext \<Rightarrow> bool" where
  "balanced is rc rc' \<longleftrightarrow> (\<exists>new. started rc' = started rc @ new \<and> set new \<subseteq> set is \<and>
     mset (started rc') + mset (ended rc) =
     mset (started rc) + mset (ended rc') + mset (map sectionInfo (m_unfinishedSections rc')))"

lemma assertion_frame:
  assumes "assert_macro a v t rc = (ex, rc')"
  shows "m_config rc' = m_config rc" and "m_trackerContext rc' = m_trackerContext rc"
    and "m_activeSections rc' = m_activeSections rc" and "m_unfinishedSections rc' = m_unfinishedSections rc"
    and "started rc' = started rc" and "ended rc' = ended rc"
proof -
  have rep: "reports (assertionEnded r rc0) = reports rc0 @ [Report_assertionEnded r (m_messages (count_result r rc0)) (m_totals (count_result r rc0))]"
    for r and rc0 :: "'a RunContext"
    by (simp add: assertionEnded_def resetAssertionInfo_def count_result_def count_assertion_def Let_def)
  from assms show "m_config rc' = m_config rc" and "m_trackerContext rc' = m_trackerContext rc"
    and "m_activeSections rc' = m_activeSections rc" and "m_unfinishedSections rc' = m_unfinishedSections rc"
    and "started rc' = started rc" and "ended rc' = ended rc"
    by (auto simp: assert_macro_def handleExpr_def reportExpr_def Let_def rep started_def ended_def split: if_splits)
qed

lemma balanced_refl: "m_unfinishedSections rc = [] \<Longrightarrow> balanced is rc rc"
  by (simp add: balanced_def)

lemma mset_balance:
  assumes "s1 + e0 = s0 + e1" and "s2 + e1 = s1 + e2 + u"
  shows "s2 + e0 = s0 + e2 + (u :: 'a multiset)"
proof (rule multiset_eqI)
  fix x
  from arg_cong [OF assms(1), of "\<lambda>m. count m x"] arg_cong [OF assms(2), of "\<lambda>m. count m x"]
  show "count (s2 + e0) x = count (s0 + e2 + u) x" by simp
qed

lemma balanced_trans:
  assumes "balanced is rc rc1" and "balanced js rc1 rc2" and "m_unfinishedSections rc1 = []"
  shows "balanced (is @ js) rc rc2"
proof -
  obtain x y where x: "started rc1 = started rc @ x" "set x \<subseteq> set is"
    and y: "started rc2 = started rc1 @ y" "set y \<subseteq> set js"
    using assms(1,2) by (auto simp: balanced_def)
  have "mset (started rc1) + mset (ended rc) = mset (started rc) + mset (ended rc1)"
    "mset (started rc2) + mset (ended rc1) =
     mset (started rc1) + mset (ended rc2) + mset (map sectionInfo (m_unfinishedSections rc2))"
    using assms by (auto simp: balanced_def)
  then have "mset (started rc2) + mset (ended rc) =
     mset (started rc) + mset (ended rc2) + mset (map sectionInfo (m_unfinishedSections rc2))"
    by (rule mset_balance)
  moreover have "started rc2 = started rc @ (x @ y)" "set (x @ y) \<subseteq> set (is @ js)" using x y by auto
  ultimately show ?thesis unfolding balanced_def by blast
qed

section \<open>A body\<close>

abbreviation cycle_over :: "'g RunContext \<Rightarrow> bool" where
  "cycle_over rc \<equiv> contextState (m_trackerContext rc) = CompletedCycle"

text \<open>
  What running the statements \<open>ss\<close> at the path \<open>p\<close> comes to, however they end: the parts that
  stay, the tree of trackers, and the progress. As long as the cycle is not over no section has
  been entered; once it is over nothing more happens; and the cycle in which it gets over leaves
  less to do than before.
\<close>

definition body_frame ::
  "'g RunContext \<Rightarrow> (path \<Rightarrow> nat) \<Rightarrow> (path \<Rightarrow> CycleState option) \<Rightarrow> path \<Rightarrow> test_stmt list \<Rightarrow>
   'g RunContext \<Rightarrow> (path \<Rightarrow> nat) \<Rightarrow> (path \<Rightarrow> CycleState option) \<Rightarrow> bool" where
  "body_frame rc A st p ss rc' A' st' \<longleftrightarrow>
     m_config rc' = m_config rc \<and> m_activeSections rc' = m_activeSections rc \<and>
     (\<forall>q. st q \<noteq> None \<longrightarrow> st' q \<noteq> None \<and> A' q = A q) \<and>
     tracks (m_trackerContext rc') A' st' \<and> currentTracker (m_trackerContext rc') = Some (A' p) \<and>
     (\<forall>q. q \<noteq> p \<and> (\<forall>i \<in> set (sections_of ss). \<forall>r. q \<noteq> p @ i # r) \<longrightarrow> st' q = st q) \<and>
     in_turn st' p ss \<and> balanced (all_sections ss) rc rc'"

definition body_progress ::
  "'g RunContext \<Rightarrow> (path \<Rightarrow> CycleState option) \<Rightarrow> path \<Rightarrow> test_stmt list \<Rightarrow> test_exit \<Rightarrow>
   'g RunContext \<Rightarrow> (path \<Rightarrow> CycleState option) \<Rightarrow> bool" where
  "body_progress rc st p ss ex rc' st' \<longleftrightarrow>
     (ex = Returned \<longrightarrow> m_unfinishedSections rc' = []) \<and>
     (if cycle_over rc then cycle_over rc' \<and> st' p = st p \<and> m_unfinishedSections rc' = [] \<and>
        left_to_do st' p ss = left_to_do st p ss \<and> (\<forall>i \<in> set (sections_of ss). untouched st' (p @ [i]))
      else if \<not> cycle_over rc' then st' p = st p \<and> m_unfinishedSections rc' = [] \<and>
        left_to_do st' p ss = left_to_do st p ss \<and>
        (ex = Returned \<longrightarrow> (\<forall>i \<in> set (sections_of ss). finished st' (p @ [i])))
      else left_to_do st' p ss < left_to_do st p ss \<and>
        (st' p = Some ExecutingChildren \<or> st' p = Some NeedsAnotherRun \<and> m_unfinishedSections rc' \<noteq> []))"

definition body_outcome ::
  "'g RunContext \<Rightarrow> (path \<Rightarrow> nat) \<Rightarrow> (path \<Rightarrow> CycleState option) \<Rightarrow> path \<Rightarrow> test_stmt list \<Rightarrow>
   (catch_error + (test_exit \<times> 'g RunContext)) option \<Rightarrow> bool" where
  "body_outcome rc A st p ss result \<longleftrightarrow>
     (\<exists>ex rc' A' st'. result = Some (Inr (ex, rc')) \<and> body_frame rc A st p ss rc' A' st' \<and>
        body_progress rc st p ss ex rc' st')"

text \<open>When the statements \<open>ss\<close> may be run at \<open>p\<close>.\<close>

definition can_run :: "'g RunContext \<Rightarrow> (path \<Rightarrow> nat) \<Rightarrow> (path \<Rightarrow> CycleState option) \<Rightarrow> path \<Rightarrow> test_stmt list \<Rightarrow> bool" where
  "can_run rc A st p ss \<longleftrightarrow> \<not> warnAboutMissingAssertions (m_config rc) \<and> m_unfinishedSections rc = [] \<and>
     tracks (m_trackerContext rc) A st \<and> currentTracker (m_trackerContext rc) = Some (A p) \<and> p \<noteq> [] \<and>
     (st p = Some Executing \<or> st p = Some ExecutingChildren) \<and> st (butlast p) = Some ExecutingChildren \<and>
     in_turn st p ss \<and>
     (cycle_over rc \<longrightarrow> (\<forall>i \<in> set (sections_of ss). untouched st (p @ [i])))"

lemma body_frame_below:
  assumes "body_frame rc A st p ss rc' A' st'" and "set (sections_of ss) \<inter> is = {}"
  shows "same_below st st' p is"
  using assms by (auto simp: body_frame_def same_below_def)

lemma in_turn_Cons:
  "in_turn st p (Section i body # ss) \<longleftrightarrow> in_turn st p [Section i body] \<and> in_turn st p ss \<and>
     (finished st (p @ [i]) \<or> (\<forall>j \<in> set (sections_of ss). untouched st (p @ [j])))"
  by auto

lemma left_to_do_Cons:
  "left_to_do st p (Section i body # ss) = left_to_do st p [Section i body] + left_to_do st p ss"
  by simp

text \<open>An ending before the first section, and an assertion that changes nothing here.\<close>

lemma body_outcome_stop:
  assumes "can_run rc A st p ss" and "ex \<noteq> Returned \<or> sections_of ss = []"
  shows "body_outcome rc A st p ss (Some (Inr (ex, rc)))"
proof -
  have "body_frame rc A st p ss rc A st" "body_progress rc st p ss ex rc st"
    using assms by (auto simp: can_run_def body_frame_def body_progress_def balanced_refl)
  then show ?thesis unfolding body_outcome_def by blast
qed

lemma can_run_cong:
  assumes "can_run rc A st p ss" and "m_config rc' = m_config rc" and "m_trackerContext rc' = m_trackerContext rc"
    and "m_unfinishedSections rc' = m_unfinishedSections rc"
  shows "can_run rc' A st p ss"
  using assms by (simp add: can_run_def)

lemma body_outcome_cong:
  assumes "body_outcome rc' A st p ss result" and "m_config rc' = m_config rc" and "m_trackerContext rc' = m_trackerContext rc"
    and "m_unfinishedSections rc' = m_unfinishedSections rc" and "m_activeSections rc' = m_activeSections rc"
    and "started rc' = started rc" and "ended rc' = ended rc"
    and "sections_of ss' = sections_of ss" and "all_sections ss' = all_sections ss"
    and "\<And>st. left_to_do st p ss' = left_to_do st p ss" and "\<And>st. in_turn st p ss' = in_turn st p ss"
  shows "body_outcome rc A st p ss' result"
proof -
  have "body_frame rc A st p ss' = body_frame rc' A st p ss" "body_progress rc st p ss' = body_progress rc' st p ss"
    by (intro ext, simp only: body_frame_def body_progress_def balanced_def assms)+
  then show ?thesis using assms(1) by (simp add: body_outcome_def)
qed

text \<open>A section, then the rest.\<close>

lemma body_frame_seq:
  assumes one: "body_frame rc A st p [Section i body] rc1 A1 st1" and two: "body_frame rc1 A1 st1 p ss rc2 A2 st2"
    and distinct: "i \<notin> set (sections_of ss)" and unf: "m_unfinishedSections rc1 = []"
    and last: "finished st2 (p @ [i]) \<or> (\<forall>j \<in> set (sections_of ss). untouched st2 (p @ [j]))"
  shows "body_frame rc A st p (Section i body # ss) rc2 A2 st2"
proof -
  have below2: "same_below st1 st2 p {i}" by (rule body_frame_below [OF two]) (use distinct in simp)
  have "in_turn st2 p [Section i body]"
    using one in_turn_cong [of st1 st2 p "[Section i body]"] below2 by (simp add: body_frame_def)
  then have turn: "in_turn st2 p (Section i body # ss)"
    using last two unfolding in_turn_Cons [of st2 p i body ss] by (simp add: body_frame_def)
  have "balanced (all_sections [Section i body] @ all_sections ss) rc rc2"
    by (rule balanced_trans [OF _ _ unf]) (use one two in \<open>simp_all add: body_frame_def\<close>)
  then have bal: "balanced (all_sections (Section i body # ss)) rc rc2" by simp
  have frame: "st2 q = st q"
    if "q \<noteq> p" "\<forall>j \<in> set (sections_of (Section i body # ss)). \<forall>r. q \<noteq> p @ j # r" for q
  proof -
    have "st2 q = st1 q" using two that unfolding body_frame_def by simp
    also have "\<dots> = st q" using one that unfolding body_frame_def by simp
    finally show ?thesis .
  qed
  show ?thesis using one two frame turn bal unfolding body_frame_def by (simp del: in_turn.simps)
qed

lemma body_outcome_seq:
  assumes one: "body_frame rc A st p [Section i body] rc1 A1 st1" "body_progress rc st p [Section i body] ex rc1 st1"
    and ret: "ex = Returned" and two: "body_outcome rc1 A1 st1 p ss result"
    and distinct: "i \<notin> set (sections_of ss)"
  shows "body_outcome rc A st p (Section i body # ss) result"
proof -
  obtain ex' rc2 A2 st2 where res: "result = Some (Inr (ex', rc2))" and fr: "body_frame rc1 A1 st1 p ss rc2 A2 st2"
    and pr: "body_progress rc1 st1 p ss ex' rc2 st2" using two by (auto simp: body_outcome_def)
  have unf: "m_unfinishedSections rc1 = []" using one(2) ret by (simp add: body_progress_def)
  have below1: "same_below st st1 p (set (sections_of ss))"
    by (rule body_frame_below [OF one(1)]) (use distinct in simp)
  have below2: "same_below st1 st2 p {i}" by (rule body_frame_below [OF fr]) (use distinct in simp)
  have left1: "left_to_do st1 p ss = left_to_do st p ss" by (rule left_to_do_cong [OF below1])
  have left2: "left_to_do st2 p [Section i body] = left_to_do st1 p [Section i body]"
    by (rule left_to_do_cong) (use below2 in simp)
  have i2: "st2 (p @ [i]) = st1 (p @ [i])" by (rule same_below_at [OF below2]) simp
  have fin: "finished st2 (p @ [i]) = finished st1 (p @ [i])" "untouched st2 (p @ [i]) = untouched st1 (p @ [i])"
    using i2 by (simp_all add: finished_def untouched_def)
  have last: "finished st2 (p @ [i]) \<or> (\<forall>j \<in> set (sections_of ss). untouched st2 (p @ [j]))"
    using one(2) pr ret fin by (cases "cycle_over rc1") (auto simp: body_progress_def split: if_splits)
  have "body_frame rc A st p (Section i body # ss) rc2 A2 st2"
    by (rule body_frame_seq [OF one(1) fr distinct unf last])
  moreover have "body_progress rc st p (Section i body # ss) ex' rc2 st2"
    using one(2) pr unf fin left1 left2 ret unfolding body_progress_def left_to_do_Cons [of _ p i body ss]
    by (auto simp del: left_to_do.simps split: if_splits)
  ultimately show ?thesis using res unfolding body_outcome_def by blast
qed

section \<open>One section\<close>

lemma section_skipped_any:
  assumes "can_run rc A st p [Section i body]" and "cycle_over rc \<or> finished st (p @ [i])"
  shows "body_outcome rc A st p [Section i body] (section_block next_value i run rc)"
proof -
  let ?q = "p @ [i]"
  let ?st = "created ?q st"
  have t: "tracks (m_trackerContext rc) A st" and cur: "currentTracker (m_trackerContext rc) = Some (A p)"
    and p: "st p \<noteq> None" "p = [] \<or> st (butlast p) = Some ExecutingChildren"
    and cyc: "contextState (m_trackerContext rc) = CompletedCycle \<Longrightarrow> finished st ?q \<or> untouched st ?q"
    using assms(1) by (auto simp: can_run_def)
  obtain tc A' where same: "\<And>q. st q \<noteq> None \<Longrightarrow> A' q = A q" and keep: "contextState tc = contextState (m_trackerContext rc)"
    and run: "sectionStarted i rc = Inr ((False, Counts_zero), rc\<lparr>m_trackerContext := tc\<rparr>) \<and>
      tracks tc A' ?st \<and> currentTracker tc = Some (A' p)"
    using sectionStarted_tracks [OF t p(1) cur p(2) cyc] assms(2) by metis
  have below: "same_below st ?st ?q is" for "is" by (auto simp: same_below_def created_def)
  have fin: "finished ?st ?q = finished st ?q" by (auto simp: created_def finished_def)
  have left: "left_to_do ?st p [Section i body] = left_to_do st p [Section i body]"
    using fin left_to_do_cong [OF below, of body] by simp
  have turn: "in_turn ?st p [Section i body]"
    using assms(1) fin in_turn_cong [OF below, of body] by (auto simp: can_run_def)
  have frame: "q \<noteq> p \<and> (\<forall>j \<in> set (sections_of [Section i body]). \<forall>r. q \<noteq> p @ j # r) \<longrightarrow> ?st q = st q" for q
    by (auto simp: created_def)
  let ?rc = "rc\<lparr>m_trackerContext := tc\<rparr>"
  have unt: "cycle_over rc \<longrightarrow> untouched ?st ?q" "?st p = st p" "\<forall>q. st q \<noteq> None \<longrightarrow> ?st q \<noteq> None"
    using assms(1) by (auto simp: created_def untouched_def can_run_def)
  have bal: "balanced js rc ?rc" for js
    using assms(1) by (simp add: balanced_def can_run_def started_def ended_def)
  have "body_frame rc A st p [Section i body] ?rc A' ?st"
    using run same unt(3) frame turn bal by (simp add: body_frame_def del: in_turn.simps)
  moreover have "body_progress rc st p [Section i body] Returned ?rc ?st"
    using assms keep left unt(1,2) fin by (auto simp: body_progress_def can_run_def simp del: left_to_do.simps)
  moreover have "section_block next_value i run rc = Some (Inr (Returned, ?rc))"
    using run by (simp add: section_block_def)
  ultimately show ?thesis unfolding body_outcome_def by blast
qed

lemma sectionStarted_ended: "sectionStarted i rc = Inr (x, rc1) \<Longrightarrow> ended rc1 = ended rc"
  by (auto simp: sectionStarted_def ended_def Let_def split: sum.splits prod.splits if_splits)

lemma sectionEnded_ended:
  assumes "sectionEnded next_value e rc = Inr rc'" and "\<not> warnAboutMissingAssertions (m_config rc)"
  shows "ended rc' = ended rc @ [sectionInfo e]"
  using assms by (auto simp: sectionEnded_def testForMissingAssertions_def close_section_def ended_def
      map_sum_def split: sum.splits if_splits)

text \<open>A section that an exception leaves: the innermost one fails, those around it are closed.\<close>

definition unwound ::
  "(path \<Rightarrow> CycleState option) \<Rightarrow> path \<Rightarrow> SectionInfo \<Rightarrow> bool \<Rightarrow> path \<Rightarrow> CycleState option" where
  "unwound st p i innermost =
     (if innermost then st(p @ [i] \<mapsto> Failed, p \<mapsto> NeedsAnotherRun)
      else st(p @ [i] \<mapsto> close_result st (p @ [i])))"

lemma sectionEndedEarly_tracks:
  assumes "tracks (m_trackerContext rc) A st" and "currentTracker (m_trackerContext rc) = Some (A (p @ [i]))"
    and "running (st (p @ [i]))" and "m_activeSections rc = as @ [A (p @ [i])]"
  shows "\<exists>rc'. sectionEndedEarly next_value e rc = Inr rc' \<and>
    tracks (m_trackerContext rc') A (unwound st p i (m_unfinishedSections rc = [])) \<and>
    currentTracker (m_trackerContext rc') = Some (A p) \<and> cycle_over rc' \<and> m_activeSections rc' = as \<and>
    m_unfinishedSections rc' = m_unfinishedSections rc @ [e] \<and> m_config rc' = m_config rc \<and>
    started rc' = started rc \<and> ended rc' = ended rc"
proof (cases "m_unfinishedSections rc = []")
  case True
  have "st (p @ [i]) \<noteq> None" using assms(3) by (auto simp: running_def)
  from tracks_fail [OF assms(1) this] show ?thesis
    using True assms(4) by (auto simp: sectionEndedEarly_def unwound_def started_def ended_def)
next
  case False
  from tracks_close_any [OF assms(1-3), of next_value] show ?thesis
    using False assms(4)
    by (auto simp: sectionEndedEarly_def unwound_def close_section_def started_def ended_def)
qed

text \<open>The tree after a section that was entered, and what it leaves to do.\<close>

lemma section_left:
  assumes two: "body_progress rc1 (opened p i st) (p @ [i]) body ex rc2 st2" and over: "\<not> cycle_over rc1"
    and todo: "\<not> finished st (p @ [i])"
    and st3: "st3 = (if ex = Returned then st2(p @ [i] \<mapsto> closed st2 (p @ [i])) else unwound st2 p i (m_unfinishedSections rc2 = []))"
  shows "left_to_do st3 p [Section i body] < left_to_do st p [Section i body]"
    and "running (st2 (p @ [i]))" and "ex = Returned \<Longrightarrow> st2 (p @ [i]) \<noteq> Some NeedsAnotherRun"
proof -
  let ?q = "p @ [i]"
  have below: "same_below st2 st3 ?q is" for "is"
    unfolding st3 by (auto simp: same_below_def unwound_def)
  have left3: "left_to_do st3 ?q body = left_to_do st2 ?q body" by (rule left_to_do_cong [OF below])
  have left1: "left_to_do (opened p i st) ?q body = left_to_do st ?q body" by (rule left_to_do_cong [OF opened_below])
  show run: "running (st2 ?q)" and need: "ex = Returned \<Longrightarrow> st2 ?q \<noteq> Some NeedsAnotherRun"
    using two over by (auto simp: body_progress_def running_def split: if_splits)
  have "finished st3 ?q \<or> left_to_do st2 ?q body < left_to_do st ?q body"
  proof (cases "cycle_over rc2")
    case True
    then show ?thesis using two over left1 by (auto simp: body_progress_def)
  next
    case False
    then have "st2 ?q = Some Executing" "m_unfinishedSections rc2 = []"
      using two over by (auto simp: body_progress_def split: if_splits)
    then have "finished st3 ?q" unfolding st3 by (auto simp: finished_def closed_def unwound_def)
    then show ?thesis ..
  qed
  then show "left_to_do st3 p [Section i body] < left_to_do st p [Section i body]"
    using left3 todo by auto
qed

text \<open>Around a body: the frame, from the frame of the body.\<close>

lemma section_frame:
  assumes "body_frame rc1 A1 (opened p i st) (p @ [i]) body rc2 A2 st2"
    and "\<And>q. st q \<noteq> None \<Longrightarrow> A1 q = A q"
    and st3: "st3 = (if ex = Returned then st2(p @ [i] \<mapsto> closed st2 (p @ [i])) else unwound st2 p i inner)"
  shows "\<forall>q. st q \<noteq> None \<longrightarrow> st3 q \<noteq> None \<and> A2 q = A q"
    and "\<forall>q. q \<noteq> p \<and> (\<forall>j \<in> set (sections_of [Section i body]). \<forall>r. q \<noteq> p @ j # r) \<longrightarrow> st3 q = st q"
    and "in_turn st3 p [Section i body]"
    and "st3 p = Some (if ex \<noteq> Returned \<and> inner then NeedsAnotherRun else ExecutingChildren)"
proof -
  let ?q = "p @ [i]"
  have fr: "st2 r = opened p i st r" if "r \<noteq> ?q" "\<forall>j s. r \<noteq> ?q @ j # s" for r
    using assms(1) that by (simp add: body_frame_def)
  have below: "same_below st2 st3 ?q is" for "is" unfolding st3 by (auto simp: same_below_def unwound_def)
  show "\<forall>q. st q \<noteq> None \<longrightarrow> st3 q \<noteq> None \<and> A2 q = A q"
  proof (intro allI impI)
    fix r assume r: "st r \<noteq> None"
    have "st2 r \<noteq> None \<and> A2 r = A1 r" using assms(1) opened_grows [of st r p i, OF r] by (simp add: body_frame_def)
    then show "st3 r \<noteq> None \<and> A2 r = A r" unfolding st3 using assms(2) [OF r] by (auto simp: unwound_def)
  qed
  show "\<forall>q. q \<noteq> p \<and> (\<forall>j \<in> set (sections_of [Section i body]). \<forall>r. q \<noteq> p @ j # r) \<longrightarrow> st3 q = st q"
  proof (intro allI impI, elim conjE)
    fix q assume q: "q \<noteq> p" "\<forall>j \<in> set (sections_of [Section i body]). \<forall>r. q \<noteq> p @ j # r"
    then have "q \<noteq> ?q" "\<forall>j s. q \<noteq> ?q @ j # s" by auto
    then show "st3 q = st q" using fr q(1) unfolding st3 by (auto simp: unwound_def)
  qed
  have "in_turn st3 ?q body" using assms(1) in_turn_cong [OF below, of body] by (simp add: body_frame_def)
  then show "in_turn st3 p [Section i body]" by simp
  have "st2 p = opened p i st p" by (rule fr) auto
  then show "st3 p = Some (if ex \<noteq> Returned \<and> inner then NeedsAnotherRun else ExecutingChildren)"
    unfolding st3 by (auto simp: unwound_def)
qed

lemma section_entered_any:
  assumes ready: "can_run rc A st p [Section i body]"
    and enter: "\<not> (cycle_over rc \<or> finished st (p @ [i]))"
    and IH: "\<And>rc A st. can_run rc A st (p @ [i]) body \<Longrightarrow> body_outcome rc A st (p @ [i]) body (run rc)"
  shows "body_outcome rc A st p [Section i body] (section_block next_value i run rc)"
proof -
  let ?q = "p @ [i]"
  let ?st = "opened p i st"
  have t: "tracks (m_trackerContext rc) A st" and cur: "currentTracker (m_trackerContext rc) = Some (A p)"
    and p: "st p \<noteq> None" "p = [] \<or> st (butlast p) = Some ExecutingChildren"
    and turn: "in_turn st p [Section i body]" and todo: "\<not> finished st ?q"
    and warn: "\<not> warnAboutMissingAssertions (m_config rc)" and unf: "m_unfinishedSections rc = []"
    and cyc: "\<not> cycle_over rc"
    using ready enter by (auto simp: can_run_def)
  obtain tc A1 where same: "\<And>q. st q \<noteq> None \<Longrightarrow> A1 q = A q" and keep: "contextState tc = contextState (m_trackerContext rc)"
    and t1: "tracks tc A1 ?st" "currentTracker tc = Some (A1 ?q)"
    and "\<exists>prev rc1. sectionStarted i rc = Inr ((True, prev), rc1) \<and> m_trackerContext rc1 = tc \<and>
         started rc1 = started rc @ [i] \<and> steady rc (rc1\<lparr>m_activeSections := m_activeSections rc\<rparr>) \<and>
         m_activeSections rc1 = m_activeSections rc @ [A1 ?q]"
    using sectionStarted_tracks [OF t p(1) cur p(2), of i] enter by metis
  then obtain prev rc1 where run1: "sectionStarted i rc = Inr ((True, prev), rc1)" and tc: "m_trackerContext rc1 = tc"
    and s1: "started rc1 = started rc @ [i]" and steady1: "steady rc (rc1\<lparr>m_activeSections := m_activeSections rc\<rparr>)"
    and active: "m_activeSections rc1 = m_activeSections rc @ [A1 ?q]" by blast
  have "in_turn ?st ?q body" using turn todo in_turn_cong [OF opened_below, where ss = body] by simp
  then have "can_run rc1 A1 ?st ?q body"
    unfolding can_run_def tc using warn steady1 t1 keep cyc unf by (simp add: steady_def)
  from IH [OF this] obtain ex rc2 A2 st2 where run2: "run rc1 = Some (Inr (ex, rc2))"
    and two: "body_frame rc1 A1 ?st ?q body rc2 A2 st2" "body_progress rc1 ?st ?q body ex rc2 st2"
    by (auto simp: body_outcome_def)
  let ?st3 = "if ex = Returned then st2(?q \<mapsto> closed st2 ?q) else unwound st2 p i (m_unfinishedSections rc2 = [])"
  have over1: "\<not> cycle_over rc1" using cyc keep tc by simp
  note left = section_left [OF two(2) over1 todo refl]
  note frame = section_frame [OF two(1) same refl, where ex = ex and inner = "m_unfinishedSections rc2 = []"]
  have two': "tracks (m_trackerContext rc2) A2 st2" "currentTracker (m_trackerContext rc2) = Some (A2 ?q)"
      "m_config rc2 = m_config rc" "m_activeSections rc2 = m_activeSections rc @ [A2 ?q]"
      "ex = Returned \<Longrightarrow> m_unfinishedSections rc2 = []"
    using two steady1 active by (simp_all add: body_frame_def body_progress_def steady_def)
  let ?e = "\<lparr>sectionInfo = i, prevAssertions = prev\<rparr>"
  obtain rc3 where run3: "(if ex = Returned then sectionEnded next_value ?e rc2 else sectionEndedEarly next_value ?e rc2) = Inr rc3"
    and t3: "tracks (m_trackerContext rc3) A2 ?st3" "currentTracker (m_trackerContext rc3) = Some (A2 p)" "cycle_over rc3"
    and r3: "m_activeSections rc3 = m_activeSections rc" "m_config rc3 = m_config rc" "started rc3 = started rc2"
      "ended rc3 = ended rc2 @ (if ex = Returned then [i] else [])"
      "m_unfinishedSections rc3 = (if ex = Returned then [] else m_unfinishedSections rc2 @ [?e])"
  proof (cases "ex = Returned")
    case True
    then have "st2 ?q = Some Executing \<or> st2 ?q = Some ExecutingChildren" using left(2,3) by (auto simp: running_def)
    from sectionEnded_tracks [OF two'(1,2) this two'(4), of next_value ?e] show thesis
      using that True two'(3,5) warn sectionEnded_ended [of next_value ?e rc2] by (auto simp: steady_def)
  next
    case False
    then show thesis using that sectionEndedEarly_tracks [OF two'(1,2) left(2) two'(4), of next_value ?e] two'(3) by auto
  qed
  have block: "section_block next_value i run rc = Some (Inr (ex, rc3))"
    using run1 run2 run3 by (simp add: section_block_def)
  have "balanced (all_sections [Section i body]) rc rc3"
  proof -
    obtain new where new: "started rc2 = started rc1 @ new" "set new \<subseteq> set (all_sections body)"
      and eq: "mset (started rc2) + mset (ended rc1) =
        mset (started rc1) + mset (ended rc2) + mset (map sectionInfo (m_unfinishedSections rc2))"
      using two(1) by (auto simp: body_frame_def balanced_def)
    have e1: "ended rc1 = ended rc" by (rule sectionStarted_ended [OF run1])
    have "mset (started rc3) + mset (ended rc) = mset (started rc) + mset (ended rc3) +
        mset (map sectionInfo (m_unfinishedSections rc3))"
      using eq r3(3-5) two'(5) unfolding e1 s1 by (cases "ex = Returned") simp_all
    moreover have "started rc3 = started rc @ (i # new)" "set (i # new) \<subseteq> set (all_sections [Section i body])"
      using new s1 r3(3) by auto
    ultimately show ?thesis unfolding balanced_def by blast
  qed
  then have "body_frame rc A st p [Section i body] rc3 A2 ?st3"
    using t3 r3 frame by (simp add: body_frame_def del: in_turn.simps)
  moreover have "body_progress rc st p [Section i body] ex rc3 ?st3"
    using cyc t3(3) r3(5) frame(4) left(1) by (auto simp: body_progress_def simp del: left_to_do.simps)
  ultimately show ?thesis using block unfolding body_outcome_def by blast
qed

text \<open>After a section: the rest may be run, or is left as it was.\<close>

lemma section_then:
  assumes fr: "body_frame rc A st p [Section i body] rc1 A1 st1"
    and pr: "body_progress rc st p [Section i body] ex rc1 st1"
    and distinct: "i \<notin> set (sections_of ss)" and ready: "can_run rc A st p (Section i body # ss)"
    and rest: "\<And>j. cycle_over rc \<or> \<not> finished st (p @ [i]) \<Longrightarrow> j \<in> set (sections_of ss) \<Longrightarrow> untouched st (p @ [j])"
  shows "ex = Returned \<Longrightarrow> can_run rc1 A1 st1 p ss"
    and "ex \<noteq> Returned \<Longrightarrow> body_outcome rc A st p (Section i body # ss) (Some (Inr (ex, rc1)))"
proof -
  have below: "same_below st st1 p (set (sections_of ss))"
    by (rule body_frame_below [OF fr]) (use distinct in simp)
  have unt: "untouched st1 (p @ [j]) = untouched st (p @ [j])" if "j \<in> set (sections_of ss)" for j
    using same_below_at [OF below that] by (simp add: untouched_def)
  have turn: "in_turn st1 p ss" using ready in_turn_cong [OF below] by (simp add: can_run_def)
  have left: "left_to_do st1 p ss = left_to_do st p ss" by (rule left_to_do_cong [OF below])
  have fin: "finished st1 (p @ [i])" if "\<not> cycle_over rc" "finished st (p @ [i])"
    using pr that by (auto simp: body_progress_def split: if_splits)
  show "can_run rc1 A1 st1 p ss" if "ex = Returned"
  proof -
    have "untouched st1 (p @ [j])" if "cycle_over rc1" "j \<in> set (sections_of ss)" for j
    proof -
      have "cycle_over rc \<or> \<not> finished st (p @ [i])" using pr that(1) by (auto simp: body_progress_def)
      from rest [OF this that(2)] show ?thesis using unt [OF that(2)] by simp
    qed
    moreover have "st1 (butlast p) = st (butlast p)"
    proof -
      have "butlast p \<noteq> p" using ready by (metis append_butlast_last_id not_Cons_self2 append_self_conv can_run_def)
      moreover have "butlast p \<noteq> p @ i # r" for r by (rule notI, drule arg_cong [of _ _ length]) simp
      ultimately show ?thesis using fr by (simp add: body_frame_def)
    qed
    moreover have "m_unfinishedSections rc1 = []" "st1 p = st p \<or> st1 p = Some ExecutingChildren"
      using pr that by (auto simp: body_progress_def split: if_splits)
    ultimately show ?thesis
      using ready fr turn by (auto simp: can_run_def body_frame_def)
  qed
  show "body_outcome rc A st p (Section i body # ss) (Some (Inr (ex, rc1)))" if ex: "ex \<noteq> Returned"
  proof -
    have last: "finished st1 (p @ [i]) \<or> (\<forall>j \<in> set (sections_of ss). untouched st1 (p @ [j]))"
      using fin rest unt by blast
    have "in_turn st1 p [Section i body]" using fr by (simp add: body_frame_def)
    then have "in_turn st1 p (Section i body # ss)" using last turn in_turn_Cons [of st1 p i body ss] by blast
    moreover have "balanced (all_sections (Section i body # ss)) rc rc1"
      using fr by (auto simp: body_frame_def balanced_def)
    ultimately have "body_frame rc A st p (Section i body # ss) rc1 A1 st1"
      using fr by (auto simp: body_frame_def simp del: in_turn.simps all_sections.simps)
    moreover have "body_progress rc st p (Section i body # ss) ex rc1 st1"
      using pr ex rest unt left unfolding body_progress_def left_to_do_Cons [of _ p i body ss]
      by (auto simp del: left_to_do.simps split: if_splits)
    ultimately show ?thesis unfolding body_outcome_def by blast
  qed
qed

lemma run_stmts_outcome:
  "distinct_sections ss \<Longrightarrow> can_run rc A st p ss \<Longrightarrow> body_outcome rc A st p ss (run_stmts next_value ss rc)"
proof (induction ss arbitrary: rc A st p rule: distinct_sections.induct)
  case 1
  then show ?case by (simp add: body_outcome_stop)
next
  case (2 a v t ss)
  obtain ex rc1 where run: "assert_macro a v t rc = (ex, rc1)" by fastforce
  note same = assertion_frame [OF run]
  have ready: "can_run rc1 A st p ss" using "2.prems"(2) same by (simp add: can_run_def)
  have "body_outcome rc1 A st p ss (if ex = Returned then run_stmts next_value ss rc1 else Some (Inr (ex, rc1)))"
    using "2.IH" [OF _ ready] "2.prems"(1) body_outcome_stop [OF ready] by simp
  from body_outcome_cong [OF this same(1,2,4,3,5,6), of "Assertion a v t # ss"] show ?case by (simp add: run)
next
  case (3 i body ss)
  have one: "can_run rc A st p [Section i body]" using "3.prems"(2) by (auto simp: can_run_def)
  have "body_outcome rc A st p [Section i body] (section_block next_value i (run_stmts next_value body) rc)"
  proof (cases "cycle_over rc \<or> finished st (p @ [i])")
    case True
    then show ?thesis by (rule section_skipped_any [OF one])
  next
    case False
    then show ?thesis using section_entered_any [OF one False] "3.IH"(1) "3.prems"(1) by simp
  qed
  then obtain ex rc1 A1 st1 where run: "section_block next_value i (run_stmts next_value body) rc = Some (Inr (ex, rc1))"
    and fr: "body_frame rc A st p [Section i body] rc1 A1 st1" and pr: "body_progress rc st p [Section i body] ex rc1 st1"
    by (auto simp: body_outcome_def)
  have "\<And>j. j \<in> set (sections_of ss) \<Longrightarrow> untouched st (p @ [j])" if "cycle_over rc \<or> \<not> finished st (p @ [i])"
    using "3.prems"(2) that by (auto simp: can_run_def)
  note rest = section_then [OF fr pr _ "3.prems"(2) this]
  show ?case
  proof (cases "ex = Returned")
    case True
    then show ?thesis
      using body_outcome_seq [OF fr pr True "3.IH"(2)] rest(1) "3.prems"(1) run by simp
  next
    case False
    then show ?thesis using rest(2) "3.prems"(1) run by simp
  qed
next
  case (4 message ss)
  have "can_run rc A st p ss" using "4.prems"(2) by (simp add: can_run_def)
  from body_outcome_cong [OF body_outcome_stop [OF this, of "Unexpected message"], of rc "Throw message # ss"]
  show ?case by simp
qed

section \<open>A cycle\<close>

text \<open>The sections that were left early are ended, the outermost first.\<close>

lemma end_sections_reports:
  assumes "m_activeSections rc = []" and "\<not> warnAboutMissingAssertions (m_config rc)"
  shows "\<exists>rc'. end_sections next_value es rc = Inr rc' \<and> m_config rc' = m_config rc \<and>
    m_trackerContext rc' = m_trackerContext rc \<and> m_activeSections rc' = [] \<and>
    m_unfinishedSections rc' = m_unfinishedSections rc \<and> started rc' = started rc \<and>
    ended rc' = ended rc @ map sectionInfo es"
  using assms
proof (induction es arbitrary: rc)
  case (Cons e es)
  obtain rc1 where "sectionEnded next_value e rc = Inr rc1" "m_config rc1 = m_config rc"
    "m_trackerContext rc1 = m_trackerContext rc" "m_activeSections rc1 = []"
    "m_unfinishedSections rc1 = m_unfinishedSections rc" "started rc1 = started rc"
    "ended rc1 = ended rc @ [sectionInfo e]"
    using Cons.prems by (simp add: sectionEnded_def testForMissingAssertions_def started_def ended_def)
  with Cons.IH [of rc1] Cons.prems show ?case by auto
qed simp

definition tests_ready ::
  "TestCaseInfo \<Rightarrow> test_stmt list \<Rightarrow> 'g RunContext \<Rightarrow> (path \<Rightarrow> nat) \<Rightarrow> (path \<Rightarrow> CycleState option) \<Rightarrow> bool" where
  "tests_ready info body rc A st \<longleftrightarrow> \<not> warnAboutMissingAssertions (m_config rc) \<and>
     tracks (m_trackerContext rc) A st \<and> m_activeSections rc = [] \<and> m_unfinishedSections rc = [] \<and>
     in_turn st [] [Section (top_section info) body]"

definition cycle_rest :: "TestCaseInfo \<Rightarrow> test_stmt list \<Rightarrow> (path \<Rightarrow> CycleState option) \<Rightarrow> nat" where
  "cycle_rest info body st = left_to_do st [] [Section (top_section info) body]"

text \<open>What happens between the body and the end of \<open>runCurrentTest\<close>.\<close>

lemma runCurrentTest_end:
  assumes "invoke rc1 = Some (Inr (ex, rc2))" and "m_config rc2 = m_config rc" and "m_activeSections rc2 = []"
    and "\<not> warnAboutMissingAssertions (m_config rc)"
    and "close next_value t (m_trackerContext rc2) = Inr tc"
    and rc1: "rc1 = (report (Report_sectionStarting (top_section info)) rc)\<lparr>m_shouldReportUnexpected := True,
        m_lastAssertionInfo := \<lparr>macroName = ''TEST_CASE'', ai_lineInfo = lineInfo info,
          capturedExpression = '''', resultDisposition = Normal\<rparr>\<rparr>"
  shows "\<exists>rc'. runCurrentTest next_value invoke info t rc = Some (Inr rc') \<and> m_config rc' = m_config rc \<and>
    m_trackerContext rc' = tc \<and> m_activeSections rc' = [] \<and> m_unfinishedSections rc' = [] \<and>
    started rc' = started rc2 \<and>
    ended rc' = ended rc2 @ map sectionInfo (rev (m_unfinishedSections rc2)) @ [top_section info]"
proof -
  define rc3 where "rc3 = (case ex of
      Unexpected message \<Rightarrow> if m_shouldReportUnexpected rc2
        then snd (handleUnexpectedInflightException (m_lastAssertionInfo rc2) message rc2) else rc2
    | _ \<Rightarrow> rc2)"
  have rep: "reports (assertionEnded r rc0) = reports rc0 @ [Report_assertionEnded r (m_messages (count_result r rc0)) (m_totals (count_result r rc0))]"
    for r and rc0 :: "'a RunContext"
    by (simp add: assertionEnded_def resetAssertionInfo_def count_result_def count_assertion_def Let_def)
  have rc3: "m_config rc3 = m_config rc2" "m_trackerContext rc3 = m_trackerContext rc2"
    "m_activeSections rc3 = m_activeSections rc2" "m_unfinishedSections rc3 = m_unfinishedSections rc2"
    "started rc3 = started rc2" "ended rc3 = ended rc2"
    by (auto simp: rc3_def handleUnexpectedInflightException_def Let_def rep started_def ended_def split: test_exit.splits)
  let ?rc4 = "rc3\<lparr>m_trackerContext := tc\<rparr>"
  obtain rc5 where end_all: "end_sections next_value (rev (m_unfinishedSections ?rc4)) ?rc4 = Inr rc5"
    and rc5: "m_config rc5 = m_config ?rc4" "m_trackerContext rc5 = m_trackerContext ?rc4" "m_activeSections rc5 = []"
      "started rc5 = started ?rc4" "ended rc5 = ended ?rc4 @ map sectionInfo (rev (m_unfinishedSections ?rc4))"
    using end_sections_reports [of ?rc4 next_value "rev (m_unfinishedSections ?rc4)"] rc3 assms(2-4) by auto
  have close: "close_section next_value t rc3 = Inr ?rc4"
    using assms(5) rc3(2) by (simp add: close_section_def)
  let ?rc6 = "rc5\<lparr>m_unfinishedSections := []\<rparr>"
  let ?rc7 = "\<lambda>cs. report (Report_sectionEnded (top_section info) cs False) (clear_messageScopes (?rc6\<lparr>m_messages := []\<rparr>))"
  let ?cs = "Counts_minus (assertions (m_totals rc3)) (assertions (m_totals rc))"
  have "runCurrentTest next_value invoke info t rc = Some (Inr (?rc7 ?cs))"
    using assms(1,2,4) close end_all rc3(1) unfolding rc1
    by (simp add: runCurrentTest_def Let_def top_section_def rc3_def [symmetric] testForMissingAssertions_def
        handleUnfinishedSections_def)
  moreover
  have "started ?rc4 = started rc2" "ended ?rc4 = ended rc2"
    using rc3(5,6) by (simp_all add: started_def ended_def)
  ultimately show ?thesis
    using rc5 rc3 assms(2) by (intro exI [of _ "?rc7 ?cs"]) (simp add: started_def ended_def)
qed

lemma one_cycle_any:
  assumes "distinct_sections body" and ready: "tests_ready info body rc A st"
    and todo: "\<not> finished st [top_section info]"
  obtains t tc rc' A' st' new where
    "SectionTracker_acquire \<lparr>nl_name = tc_name info, nl_location = lineInfo info\<rparr>
       (startCycle (m_trackerContext rc)) = Inr (t, tc)"
    and "runCurrentTest next_value (run_stmts next_value body) info t
       (rc\<lparr>m_trackerContext := tc, m_testCaseTracker := Some t\<rparr>) = Some (Inr rc')"
    and "tests_ready info body rc' A' st'" and "t = A' [top_section info]"
    and "cycle_rest info body st' < cycle_rest info body st" and "st' [top_section info] \<noteq> Some Failed"
    and "st' [top_section info] \<noteq> None"
    and "started rc' = started rc @ top_section info # new" and "set new \<subseteq> set (all_sections body)"
    and "mset (started rc') + mset (ended rc) = mset (started rc) + mset (ended rc')"
    and "m_config rc' = m_config rc"
proof -
  let ?top = "top_section info" and ?q = "[top_section info]"
  let ?st = "opened [] ?top st"
  have t: "tracks (m_trackerContext rc) A st" and warn: "\<not> warnAboutMissingAssertions (m_config rc)"
    and turn: "in_turn st [] [Section ?top body]" and nil: "\<not> finished st ([] @ ?q)"
    using ready todo by (auto simp: tests_ready_def)
  note c = startCycle_tracks [OF t]
  have root: "st [] \<noteq> None" using tracks_root [OF t] by simp
  obtain tc A1 where acq: "SectionTracker_acquire (nl_of ?top) (startCycle (m_trackerContext rc)) = Inr (A1 ?q, tc)"
    and keep: "contextState tc = Run_Executing" and t1: "tracks tc A1 ?st" "currentTracker tc = Some (A1 ?q)"
  proof (rule tracks_acquire [OF c(1) root c(2), of ?top])
  qed (use c(3) todo in \<open>auto intro: that\<close>)
  let ?rc = "rc\<lparr>m_trackerContext := tc, m_testCaseTracker := Some (A1 ?q)\<rparr>"
  define rc1 where "rc1 = (report (Report_sectionStarting ?top) ?rc)\<lparr>m_shouldReportUnexpected := True,
        m_lastAssertionInfo := \<lparr>macroName = ''TEST_CASE'', ai_lineInfo = lineInfo info,
          capturedExpression = '''', resultDisposition = Normal\<rparr>\<rparr>"
  have rc1: "m_trackerContext rc1 = tc" "m_config rc1 = m_config rc" "started rc1 = started rc @ [?top]" "ended rc1 = ended rc"
    "m_unfinishedSections rc1 = []" "m_activeSections rc1 = []"
    using ready by (simp_all add: rc1_def started_def ended_def tests_ready_def)
  have "in_turn ?st ?q body" using turn todo in_turn_cong [OF opened_below [where p = "[]" and i = ?top and st = st], of body] by simp
  then have "can_run rc1 A1 ?st ?q body"
    unfolding can_run_def rc1 using t1 keep warn opened_simps(1,2) [of "[]" ?top st] by simp
  from run_stmts_outcome [OF assms(1) this, of next_value] obtain ex rc2 A2 st2
    where run: "run_stmts next_value body rc1 = Some (Inr (ex, rc2))"
      and fr: "body_frame rc1 A1 ?st ?q body rc2 A2 st2" and pr: "body_progress rc1 ?st ?q body ex rc2 st2"
    by (auto simp: body_outcome_def)
  have over1: "\<not> cycle_over rc1" using keep rc1(1) by simp
  have run2: "running (st2 ?q)" using pr over1 opened_simps(1) [of "[]" ?top st]
    by (auto simp: body_progress_def running_def split: if_splits)
  have fr': "tracks (m_trackerContext rc2) A2 st2" "currentTracker (m_trackerContext rc2) = Some (A2 ?q)"
    "A2 ?q = A1 ?q" "m_config rc2 = m_config rc" "m_activeSections rc2 = []" "in_turn st2 ?q body"
    using fr rc1 opened_simps(1) [of "[]" ?top st] by (simp_all add: body_frame_def)
  let ?st3 = "st2(?q \<mapsto> close_result st2 ?q)"
  obtain tc3 where tc3: "close next_value (A1 ?q) (m_trackerContext rc2) = Inr tc3" "tracks tc3 A2 ?st3"
    using tracks_close_any [where p = "[]" and i = ?top, unfolded append_Nil, OF fr'(1,2) run2, of next_value] fr'(3) by auto
  have "m_config rc2 = m_config ?rc" "\<not> warnAboutMissingAssertions (m_config ?rc)" using fr'(4) warn by simp_all
  from runCurrentTest_end [where rc = ?rc and info = info and invoke = "run_stmts next_value body", OF run this(1) fr'(5) this(2) tc3(1)] obtain rc'
    where cyc: "runCurrentTest next_value (run_stmts next_value body) info (A1 ?q) ?rc = Some (Inr rc')"
      and rc': "m_config rc' = m_config rc" "m_trackerContext rc' = tc3" "m_activeSections rc' = []"
        "m_unfinishedSections rc' = []" "started rc' = started rc2"
        "ended rc' = ended rc2 @ map sectionInfo (rev (m_unfinishedSections rc2)) @ [?top]"
    unfolding rc1_def by auto
  obtain new where new: "started rc2 = started rc1 @ new" "set new \<subseteq> set (all_sections body)"
    and eq: "mset (started rc2) + mset (ended rc1) =
      mset (started rc1) + mset (ended rc2) + mset (map sectionInfo (m_unfinishedSections rc2))"
    using fr by (auto simp: body_frame_def balanced_def)
  have below: "same_below st2 ?st3 ?q is" for "is" by (simp add: same_below_def)
  show thesis
  proof (rule that)
    show "SectionTracker_acquire \<lparr>nl_name = tc_name info, nl_location = lineInfo info\<rparr>
       (startCycle (m_trackerContext rc)) = Inr (A1 ?q, tc)"
      using acq by (simp add: nl_of_def top_section_def)
    show "runCurrentTest next_value (run_stmts next_value body) info (A1 ?q) ?rc = Some (Inr rc')" by (rule cyc)
    show "tests_ready info body rc' A2 ?st3"
      using rc' tc3(2) warn fr'(6) in_turn_cong [OF below, of body] by (simp add: tests_ready_def)
    show "A1 ?q = A2 ?q" using fr'(3) by simp
    show "?st3 ?q \<noteq> Some Failed" "?st3 ?q \<noteq> None" by (auto simp: close_result_def closed_def)
    show "m_config rc' = m_config rc" by (rule rc'(1))
    show "started rc' = started rc @ ?top # new" "set new \<subseteq> set (all_sections body)"
      using rc'(5) rc1(3) new by simp_all
    show "mset (started rc') + mset (ended rc) = mset (started rc) + mset (ended rc')"
      using eq unfolding rc'(5,6) rc1(3,4) by simp
    have left: "left_to_do ?st3 ?q body = left_to_do st2 ?q body" by (rule left_to_do_cong [OF below])
    have left1: "left_to_do ?st ?q body = left_to_do st ?q body"
      using left_to_do_cong [OF opened_below [where p = "[]" and i = ?top and st = st], of body] by simp
    have "finished ?st3 ?q \<or> left_to_do st2 ?q body < left_to_do st ?q body"
    proof (cases "cycle_over rc2")
      case True
      then show ?thesis using pr over1 left1 by (auto simp: body_progress_def)
    next
      case False
      then have "st2 ?q = Some Executing"
        using pr over1 opened_simps(1) [of "[]" ?top st] by (auto simp: body_progress_def split: if_splits)
      then show ?thesis by (simp add: finished_def close_result_def closed_def)
    qed
    then show "cycle_rest info body ?st3 < cycle_rest info body st"
      using left todo by (auto simp: cycle_rest_def)
  qed
qed

section \<open>Until the test case is complete\<close>

lemma cycles_end:
  assumes "distinct_sections body" and "tests_ready info body rc A st" and "\<not> finished st [top_section info]"
    and "top_section info \<notin> set (all_sections body)"
  shows "\<exists>rc' new. cycles next_value (run_stmts next_value body) info rc = Some (Inr rc') \<and>
    m_config rc' = m_config rc \<and> m_activeSections rc' = [] \<and> m_unfinishedSections rc' = [] \<and>
    started rc' = started rc @ new \<and> count_list new (top_section info) \<le> cycle_rest info body st \<and>
    mset (started rc') + mset (ended rc) = mset (started rc) + mset (ended rc')"
  using assms(2,3)
proof (induction "cycle_rest info body st" arbitrary: rc A st rule: less_induct)
  case less
  let ?q = "[top_section info]"
  obtain t tc rc1 A1 st1 new where run: "SectionTracker_acquire \<lparr>nl_name = tc_name info, nl_location = lineInfo info\<rparr>
       (startCycle (m_trackerContext rc)) = Inr (t, tc)"
     "runCurrentTest next_value (run_stmts next_value body) info t
       (rc\<lparr>m_trackerContext := tc, m_testCaseTracker := Some t\<rparr>) = Some (Inr rc1)"
    and ready: "tests_ready info body rc1 A1 st1" and t: "t = A1 ?q"
    and fewer: "cycle_rest info body st1 < cycle_rest info body st"
    and state: "st1 ?q \<noteq> Some Failed" "st1 ?q \<noteq> None"
    and new: "started rc1 = started rc @ top_section info # new" "set new \<subseteq> set (all_sections body)"
    and bal: "mset (started rc1) + mset (ended rc) = mset (started rc) + mset (ended rc1)"
    and config: "m_config rc1 = m_config rc"
    by (rule one_cycle_any [OF assms(1) less.prems]) (rule that; assumption)
  have once: "count_list (top_section info # new) (top_section info) = 1"
    using assms(4) new(2) by (auto simp: count_list_0_iff)
  have "tracks (m_trackerContext rc1) A1 st1" using ready by (simp add: tests_ready_def)
  from tracks_complete(3) [OF this state(2)]
  have complete: "isSuccessfullyCompleted (tracker_at (m_trackerContext rc1) t) \<longleftrightarrow> finished st1 ?q"
    using state(1) t by (auto simp: finished_def)
  show ?case
  proof (cases "finished st1 ?q \<or> aborting rc1")
    case True
    then have "cycles next_value (run_stmts next_value body) info rc = Some (Inr rc1)"
      using run complete by (subst cycles.simps) auto
    moreover have "m_activeSections rc1 = []" "m_unfinishedSections rc1 = []" using ready by (simp_all add: tests_ready_def)
    ultimately show ?thesis using new(1) bal once fewer config by (intro exI [of _ rc1] exI) auto
  next
    case False
    with less.hyps [OF fewer ready] obtain rc' new' where
      end': "cycles next_value (run_stmts next_value body) info rc1 = Some (Inr rc')"
        "m_config rc' = m_config rc1" "m_activeSections rc' = []" "m_unfinishedSections rc' = []"
      and new': "started rc' = started rc1 @ new'" "count_list new' (top_section info) \<le> cycle_rest info body st1"
      and bal': "mset (started rc') + mset (ended rc1) = mset (started rc1) + mset (ended rc')"
      by auto
    have "cycles next_value (run_stmts next_value body) info rc = Some (Inr rc')"
      using run complete False end'(1) by (subst cycles.simps) auto
    moreover have "started rc' = started rc @ (top_section info # new @ new')" using new new' by simp
    moreover have "count_list (top_section info # new @ new') (top_section info) \<le> cycle_rest info body st"
      using once new'(2) fewer by simp
    moreover have "mset (started rc') + mset (ended rc) = mset (started rc) + mset (ended rc')"
      using mset_balance [OF bal, of "mset (started rc')" "mset (ended rc')" "{#}"] bal' by simp
    ultimately show ?thesis using end'(2-4) config by metis
  qed
qed

text \<open>\<open>runTest\<close> returns, with all sections ended.\<close>

lemma runTest_ends:
  assumes "distinct_sections body" and "top_section info \<notin> set (all_sections body)"
    and "sectionsToRun (cfg_data (m_config rc)) = []" and "\<not> warnAboutMissingAssertions (m_config rc)"
    and "m_activeSections rc = []" and "m_unfinishedSections rc = []"
  obtains d rc' new where "runTest next_value (run_stmts next_value body) here info rc = Some (Inr (d, rc'))"
    and "started rc' = started rc @ new" and "count_list new (top_section info) \<le> Suc (length (all_sections body))"
    and "mset (started rc') + mset (ended rc) = mset (started rc) + mset (ended rc')"
    and "m_config rc' = m_config rc" and "m_activeSections rc' = []" and "m_unfinishedSections rc' = []"
proof -
  let ?rc1 = "(report (Report_testCaseStarting info) rc)\<lparr>m_activeTestCase := Some info\<rparr>"
  obtain r c where start: "startRun here (m_trackerContext rc) = (r, c)" by fastforce
  let ?rc2 = "?rc1\<lparr>m_trackerContext := add_root_filters r [] c\<rparr>" and ?st = "[[] \<mapsto> NotStarted]"
  have t: "tracks (add_root_filters r [] c) (\<lambda>p. r) ?st" by (rule startRun_tracks [OF start])
  have "in_turn ?st [] [Section (top_section info) body]" by (rule in_turn_all) simp
  then have ready: "tests_ready info body ?rc2 (\<lambda>p. r) ?st"
    using assms t by (simp add: tests_ready_def del: in_turn.simps)
  have "\<not> finished ?st [top_section info]" by (simp add: finished_def)
  from cycles_end [OF assms(1) ready this assms(2), of next_value] obtain rc' new where
    run: "cycles next_value (run_stmts next_value body) info ?rc2 = Some (Inr rc')"
    and new: "started rc' = started ?rc2 @ new" "count_list new (top_section info) \<le> cycle_rest info body ?st"
    and bal: "mset (started rc') + mset (ended ?rc2) = mset (started ?rc2) + mset (ended rc')"
    and kept: "m_config rc' = m_config ?rc2" "m_activeSections rc' = []" "m_unfinishedSections rc' = []"
    by blast
  have bound: "cycle_rest info body ?st \<le> Suc (length (all_sections body))"
    using left_to_do_bound [of ?st "[]" "[Section (top_section info) body]"] by (simp add: cycle_rest_def)
  have same: "started ?rc2 = started rc" "ended ?rc2 = ended rc" by (simp_all add: started_def ended_def)
  have over: "started (snd (test_ended info pt rc')) = started rc'" "ended (snd (test_ended info pt rc')) = ended rc'" for pt
    by (simp_all add: test_ended_def Let_def started_def ended_def)
  have "runTest next_value (run_stmts next_value body) here info rc =
      map_option (map_sum id (test_ended info (m_totals rc))) (cycles next_value (run_stmts next_value body) info ?rc2)"
    using start assms(3) by (simp add: runTest_def)
  then have "runTest next_value (run_stmts next_value body) here info rc =
      Some (Inr (fst (test_ended info (m_totals rc) rc'), snd (test_ended info (m_totals rc) rc')))"
    using run by simp
  moreover have "m_config (snd (test_ended info pt rc')) = m_config rc" "m_activeSections (snd (test_ended info pt rc')) = []"
    "m_unfinishedSections (snd (test_ended info pt rc')) = []" for pt
    using kept by (simp_all add: test_ended_def Let_def)
  ultimately show thesis
    using new bal bound unfolding same
    by (intro that [of "fst (test_ended info (m_totals rc) rc')" "snd (test_ended info (m_totals rc) rc')" new])
      (simp_all add: over)
qed

section \<open>Properties\<close>

text \<open>
  C27. A test case ends whatever its assertions do: with assertions that fail, macros that end the
  test and exceptions anywhere in its sections, \<open>runTest\<close> returns, without an internal error of the
  tracking; it has entered the test case at most once more than there are sections, since each
  cycle finishes a section, successfully or not; and the reporter has been told the end of every
  section whose start it was told. Sections next to each other are told apart by name or location,
  and no section has those of the test case. The run is one without \<open>-c\<close>, which picks the sections to
  enter, and without \<open>-w NoAssertions\<close>, which makes a section without assertions a failure; no
  section is open before the test case.
\<close>

theorem failing_tests_end:
  assumes "distinct_sections body" and "top_section info \<notin> set (all_sections body)"
    and "sectionsToRun (cfg_data (m_config rc)) = []" and "\<not> warnAboutMissingAssertions (m_config rc)"
    and "m_activeSections rc = []" and "m_unfinishedSections rc = []"
  shows "\<exists>d rc' new. runTest next_value (run_stmts next_value body) here info rc = Some (Inr (d, rc')) \<and>
    started rc' = started rc @ new \<and> count_list new (top_section info) \<le> Suc (length (all_sections body)) \<and>
    mset (started rc') + mset (ended rc) = mset (started rc) + mset (ended rc')"
  by (rule runTest_ends [OF assms]) blast

definition failing_body :: "test_stmt list" where
  "failing_body =
     [Section (example_section 2 ''read'') [Assertion initial_info True ''ready'',
        Section (example_section 3 ''hit'') [Assertion initial_info False ''hits == 1''],
        Section (example_section 4 ''miss'') [Throw ''timeout'']],
      Assertion initial_info False ''idle'', Section (example_section 5 ''write'') []]"

theorem failing_tests_end_witness:
  "\<exists>d rc' new. runTest (\<lambda>n. (False, n)) (run_stmts (\<lambda>n. (False, n)) failing_body) \<lparr>src_file = ''test.cpp'', src_line = 0\<rparr>
       example_info example_context = Some (Inr (d, rc')) \<and>
     started rc' = new \<and> count_list new (top_section example_info) \<le> 5 \<and> mset (started rc') = mset (ended rc')"
proof -
  have "distinct_sections failing_body" "top_section example_info \<notin> set (all_sections failing_body)"
    "length (all_sections failing_body) = 4"
    by (simp_all add: failing_body_def example_section_def example_info_def top_section_def)
  moreover have "sectionsToRun (cfg_data (m_config example_context)) = []"
    "\<not> warnAboutMissingAssertions (m_config example_context)"
    "m_activeSections example_context = []" "m_unfinishedSections example_context = []"
    "started example_context = []" "ended example_context = []"
    by (simp_all add: example_context_def RunContext_new_def ConfigData_default_def warnAboutMissingAssertions_def
        WarnNothing_def started_def ended_def)
  ultimately show ?thesis
    using failing_tests_end [of failing_body example_info example_context "\<lambda>n. (False, n)"
        "\<lparr>src_file = ''test.cpp'', src_line = 0\<rparr>"] by simp
qed

text \<open>
  The sections an exception leaves reach the reporter's \<open>sectionEnded\<close> the wrong way round: their
  destructors run from the inside out and append to \<open>m_unfinishedSections\<close>, which
  \<open>handleUnfinishedSections\<close> goes through backwards, so the outermost section is ended first.
\<close>

theorem unfinished_sections_ended_outermost_first:
  assumes "sectionEndedEarly next_value inner rc = Inr rc1" and "sectionEndedEarly next_value outer rc1 = Inr rc2"
    and "m_unfinishedSections rc = []" and "m_activeSections rc2 = []" and "\<not> warnAboutMissingAssertions (m_config rc2)"
  shows "\<exists>rc'. handleUnfinishedSections next_value rc2 = Inr rc' \<and>
    ended rc' = ended rc @ [sectionInfo outer, sectionInfo inner]"
proof -
  have unf: "m_unfinishedSections rc2 = [inner, outer]" and "ended rc2 = ended rc"
    using assms(1-3) by (auto simp: sectionEndedEarly_def close_section_def Let_def ended_def map_sum_def
        split: if_splits sum.splits)
  with end_sections_reports [OF assms(4,5), of next_value "[outer, inner]"] show ?thesis
    by (auto simp: handleUnfinishedSections_def ended_def)
qed

end
