(* ===== verification/Catch_Reporter_Bases.thy ===== *)
theory Catch_Reporter_Bases
  imports Catch_Session
begin

text \<open>
  \<open>catch_reporter_bases.hpp\<close> and \<open>catch_reporter_bases.cpp\<close>: what the reporters keep of the
  calls they get. The stream a reporter writes to is part of the reporters built on this.
\<close>

record 'a LazyStat =
  stat :: "'a option"
  used :: bool

definition LazyStat_assign :: "'a \<Rightarrow> 'a LazyStat" where
  "LazyStat_assign v = \<lparr>stat = Some v, used = False\<rparr>"

definition LazyStat_reset :: "'a LazyStat" where
  "LazyStat_reset = \<lparr>stat = None, used = False\<rparr>"

record ReporterPreferences =
  shouldRedirectStdOut :: bool
  shouldReportAllAssertions :: bool

definition serializeFilters :: "string list \<Rightarrow> string" where
  "serializeFilters container =
     snd (fold (\<lambda>filt (first, oss). (False, (if first then oss else oss @ '' '') @ filt)) container (True, ''''))"

section \<open>What a reporter is told\<close>

text \<open>
  What a timer measures and what a test prints is not part of the calls the run context makes; a
  \<open>Captured\<close> gives the text of the duration, the captured output, the number the next message
  gets and the text of the time of day, for one call.
\<close>

record Captured =
  cap_duration :: string
  cap_stdOut :: string
  cap_stdErr :: string
  cap_sequence :: u32
  cap_timestamp :: string

record AssertionStats =
  assertionResult :: AssertionResult
  infoMessages :: "MessageInfo list"
  as_totals :: Totals

text \<open>The message of the result goes after the messages of the scopes.\<close>

definition AssertionStats_new :: "AssertionResult \<Rightarrow> MessageInfo list \<Rightarrow> Totals \<Rightarrow> Captured \<Rightarrow> AssertionStats" where
  "AssertionStats_new result ms totals cap =
     \<lparr>assertionResult = result,
      infoMessages = (if hasMessage result
        then ms @ [\<lparr>mi_macroName = macroName (m_info result), mi_message = res_message result,
          mi_lineInfo = ai_lineInfo (m_info result), mi_type = resultType result, mi_sequence = cap_sequence cap\<rparr>]
        else ms),
      as_totals = totals\<rparr>"

record SectionStats =
  ss_sectionInfo :: SectionInfo
  ss_assertions :: Counts
  durationInSeconds :: string
  missingAssertions :: bool

record TestCaseStats =
  testInfo :: TestCaseInfo
  tcs_totals :: Totals
  stdOut :: string
  stdErr :: string
  tcs_aborting :: bool

record TestGroupStats =
  groupInfo :: GroupInfo
  tgs_totals :: Totals
  tgs_aborting :: bool

record TestRunStats =
  runInfo :: string
  trs_totals :: Totals
  trs_aborting :: bool

section \<open>StreamingReporterBase\<close>

record StreamingReporterBase =
  reporter_config :: Config
  currentTestRunInfo :: "string LazyStat"
  currentGroupInfo :: "GroupInfo LazyStat"
  currentTestCaseInfo :: "TestCaseInfo LazyStat"
  m_sectionStack :: "SectionInfo list"
  m_reporterPrefs :: ReporterPreferences

text \<open>\<open>getSupportedVerbosities\<close> of the derived class: the normal one unless it says otherwise.\<close>

definition getSupportedVerbosities :: "Verbosity set" where
  "getSupportedVerbosities = {Normal_verbosity}"

definition StreamingReporterBase_new :: "Config \<Rightarrow> catch_error + StreamingReporterBase" where
  "StreamingReporterBase_new config =
     (if verbosity (cfg_data config) \<notin> getSupportedVerbosities
      then Inl (Internal_Error ''Verbosity level not supported by this reporter'')
      else Inr \<lparr>reporter_config = config, currentTestRunInfo = LazyStat_reset,
        currentGroupInfo = LazyStat_reset, currentTestCaseInfo = LazyStat_reset, m_sectionStack = [],
        m_reporterPrefs = \<lparr>shouldRedirectStdOut = False, shouldReportAllAssertions = False\<rparr>\<rparr>)"

definition base_testRunStarting :: "string \<Rightarrow> 'm StreamingReporterBase_scheme \<Rightarrow> 'm StreamingReporterBase_scheme" where
  "base_testRunStarting info x = x\<lparr>currentTestRunInfo := LazyStat_assign info\<rparr>"

definition base_testGroupStarting :: "GroupInfo \<Rightarrow> 'm StreamingReporterBase_scheme \<Rightarrow> 'm StreamingReporterBase_scheme" where
  "base_testGroupStarting info x = x\<lparr>currentGroupInfo := LazyStat_assign info\<rparr>"

definition base_testCaseStarting :: "TestCaseInfo \<Rightarrow> 'm StreamingReporterBase_scheme \<Rightarrow> 'm StreamingReporterBase_scheme" where
  "base_testCaseStarting info x = x\<lparr>currentTestCaseInfo := LazyStat_assign info\<rparr>"

definition base_sectionStarting :: "SectionInfo \<Rightarrow> 'm StreamingReporterBase_scheme \<Rightarrow> 'm StreamingReporterBase_scheme" where
  "base_sectionStarting info x = x\<lparr>m_sectionStack := m_sectionStack x @ [info]\<rparr>"

text \<open>\<open>pop_back\<close> of an empty vector is undefined, here an error.\<close>

definition base_sectionEnded :: "'m StreamingReporterBase_scheme \<Rightarrow> catch_error + 'm StreamingReporterBase_scheme" where
  "base_sectionEnded x =
     (if m_sectionStack x = [] then Inl Assert_Failed
      else Inr (x\<lparr>m_sectionStack := butlast (m_sectionStack x)\<rparr>))"

definition base_testCaseEnded :: "'m StreamingReporterBase_scheme \<Rightarrow> 'm StreamingReporterBase_scheme" where
  "base_testCaseEnded x = x\<lparr>currentTestCaseInfo := LazyStat_reset\<rparr>"

definition base_testGroupEnded :: "'m StreamingReporterBase_scheme \<Rightarrow> 'm StreamingReporterBase_scheme" where
  "base_testGroupEnded x = x\<lparr>currentGroupInfo := LazyStat_reset\<rparr>"

definition base_testRunEnded :: "'m StreamingReporterBase_scheme \<Rightarrow> 'm StreamingReporterBase_scheme" where
  "base_testRunEnded x = x\<lparr>currentTestCaseInfo := LazyStat_reset, currentGroupInfo := LazyStat_reset,
     currentTestRunInfo := LazyStat_reset\<rparr>"

section \<open>CumulativeReporterBase\<close>

text \<open>
  The nodes of sections are shared between the tree and the stack; a pointer is an index into the
  list of all nodes ever made.
\<close>

record SectionNode =
  node_stats :: SectionStats
  childSections :: "nat list"
  node_assertions :: "AssertionStats list"
  node_stdOut :: string
  node_stdErr :: string

record TestCaseNode =
  tcn_value :: TestCaseStats
  tcn_children :: "nat option list"

record TestGroupNode =
  tgn_value :: TestGroupStats
  tgn_children :: "TestCaseNode list"

record TestRunNode =
  trn_value :: TestRunStats
  trn_children :: "TestGroupNode list"

record CumulativeReporterBase =
  cum_config :: Config
  cum_nodes :: "SectionNode list"
  m_testCases :: "TestCaseNode list"
  m_testGroups :: "TestGroupNode list"
  m_testRuns :: "TestRunNode list"
  m_rootSection :: "nat option"
  m_deepestSection :: "nat option"
  cum_sectionStack :: "nat list"
  cum_reporterPrefs :: ReporterPreferences

definition CumulativeReporterBase_new :: "Config \<Rightarrow> catch_error + CumulativeReporterBase" where
  "CumulativeReporterBase_new config =
     (if verbosity (cfg_data config) \<notin> getSupportedVerbosities
      then Inl (Internal_Error ''Verbosity level not supported by this reporter'')
      else Inr \<lparr>cum_config = config, cum_nodes = [], m_testCases = [], m_testGroups = [], m_testRuns = [],
        m_rootSection = None, m_deepestSection = None, cum_sectionStack = [],
        cum_reporterPrefs = \<lparr>shouldRedirectStdOut = False, shouldReportAllAssertions = False\<rparr>\<rparr>)"

definition incomplete_node :: "SectionInfo \<Rightarrow> SectionNode" where
  "incomplete_node info = \<lparr>node_stats = \<lparr>ss_sectionInfo = info, ss_assertions = Counts_zero, durationInSeconds = ''0.0'',
     missingAssertions = False\<rparr>, childSections = [], node_assertions = [], node_stdOut = '''', node_stdErr = ''''\<rparr>"

text \<open>\<open>BySectionInfo\<close>\<close>

definition node_of :: "SectionNode list \<Rightarrow> SectionInfo \<Rightarrow> nat \<Rightarrow> bool" where
  "node_of ns info n \<longleftrightarrow> ss_sectionInfo (node_stats (ns ! n)) = info"

definition cum_sectionStarting ::
  "SectionInfo \<Rightarrow> 'm CumulativeReporterBase_scheme \<Rightarrow> 'm CumulativeReporterBase_scheme" where
  "cum_sectionStarting info x =
     (let ns = cum_nodes x; new = length ns;
          (node, x1) =
            (if cum_sectionStack x = []
             then (case m_rootSection x of
                 None \<Rightarrow> (new, x\<lparr>cum_nodes := ns @ [incomplete_node info], m_rootSection := Some new\<rparr>)
               | Some root \<Rightarrow> (root, x))
             else
               let parent = last (cum_sectionStack x) in
               case find (node_of ns info) (childSections (ns ! parent)) of
                 None \<Rightarrow> (new, x\<lparr>cum_nodes :=
                   ns[parent := (ns ! parent)\<lparr>childSections := childSections (ns ! parent) @ [new]\<rparr>] @ [incomplete_node info]\<rparr>)
               | Some child \<Rightarrow> (child, x)) in
      x1\<lparr>cum_sectionStack := cum_sectionStack x1 @ [node], m_deepestSection := Some node\<rparr>)"

definition update_node :: "nat \<Rightarrow> (SectionNode \<Rightarrow> SectionNode) \<Rightarrow> 'm CumulativeReporterBase_scheme \<Rightarrow> 'm CumulativeReporterBase_scheme" where
  "update_node n f x = x\<lparr>cum_nodes := (cum_nodes x)[n := f (cum_nodes x ! n)]\<rparr>"

definition cum_assertionEnded ::
  "AssertionStats \<Rightarrow> 'm CumulativeReporterBase_scheme \<Rightarrow> catch_error + 'm CumulativeReporterBase_scheme" where
  "cum_assertionEnded stats x =
     (if cum_sectionStack x = [] then Inl Assert_Failed
      else Inr (update_node (last (cum_sectionStack x))
        (\<lambda>node. node\<lparr>node_assertions := node_assertions node @ [stats]\<rparr>) x))"

definition cum_sectionEnded ::
  "SectionStats \<Rightarrow> 'm CumulativeReporterBase_scheme \<Rightarrow> catch_error + 'm CumulativeReporterBase_scheme" where
  "cum_sectionEnded stats x =
     (if cum_sectionStack x = [] then Inl Assert_Failed
      else Inr ((update_node (last (cum_sectionStack x)) (\<lambda>node. node\<lparr>node_stats := stats\<rparr>) x)
        \<lparr>cum_sectionStack := butlast (cum_sectionStack x)\<rparr>))"

definition cum_testCaseEnded ::
  "TestCaseStats \<Rightarrow> 'm CumulativeReporterBase_scheme \<Rightarrow> catch_error + 'm CumulativeReporterBase_scheme" where
  "cum_testCaseEnded stats x =
     (if cum_sectionStack x \<noteq> [] then Inl Assert_Failed
      else
        let x1 = x\<lparr>m_testCases := m_testCases x @ [\<lparr>tcn_value = stats, tcn_children = [m_rootSection x]\<rparr>],
              m_rootSection := None\<rparr> in
        (case m_deepestSection x1 of
           None \<Rightarrow> Inl Assert_Failed
         | Some n \<Rightarrow> Inr (update_node n (\<lambda>node. node\<lparr>node_stdOut := stdOut stats, node_stdErr := stdErr stats\<rparr>) x1)))"

definition cum_testGroupEnded ::
  "TestGroupStats \<Rightarrow> 'm CumulativeReporterBase_scheme \<Rightarrow> 'm CumulativeReporterBase_scheme" where
  "cum_testGroupEnded stats x =
     x\<lparr>m_testGroups := m_testGroups x @ [\<lparr>tgn_value = stats, tgn_children = m_testCases x\<rparr>], m_testCases := []\<rparr>"

definition cum_testRunEnded ::
  "TestRunStats \<Rightarrow> 'm CumulativeReporterBase_scheme \<Rightarrow> 'm CumulativeReporterBase_scheme" where
  "cum_testRunEnded stats x =
     x\<lparr>m_testRuns := m_testRuns x @ [\<lparr>trn_value = stats, trn_children = m_testGroups x\<rparr>], m_testGroups := []\<rparr>"

end
