(* ===== verification/Catch_Xml.thy ===== *)
theory Catch_Xml
  imports Catch_Strings
begin

text \<open>
  \<open>XmlEncode\<close> of \<open>catch_xmlwriter.cpp\<close>: text for XML reports, with control characters and
  malformed UTF-8 escaped byte by byte.
\<close>

datatype ForWhat = ForTextNodes | ForAttributes

definition byte_of :: "char \<Rightarrow> u32" where
  "byte_of ch = word_of_nat (of_char ch)"

definition trailingBytes :: "u32 \<Rightarrow> catch_error + nat" where
  "trailingBytes b =
     (if b AND 0xE0 = 0xC0 then Inr 2
      else if b AND 0xF0 = 0xE0 then Inr 3
      else if b AND 0xF8 = 0xF0 then Inr 4
      else Inl (Internal_Error ''Invalid multibyte utf-8 start byte encountered''))"

definition headerValue :: "u32 \<Rightarrow> catch_error + u32" where
  "headerValue b =
     (if b AND 0xE0 = 0xC0 then Inr (b AND 0x1F)
      else if b AND 0xF0 = 0xE0 then Inr (b AND 0x0F)
      else if b AND 0xF8 = 0xF0 then Inr (b AND 0x07)
      else Inl (Internal_Error ''Invalid multibyte utf-8 start byte encountered''))"

definition hex_digit :: "nat \<Rightarrow> char" where
  "hex_digit n = (if n < 10 then char_of (48 + n) else char_of (55 + n))"

definition hexEscapeChar :: "char \<Rightarrow> string" where
  "hexEscapeChar ch = (let n = of_char ch :: nat in [CHR 0x5C, CHR ''x'', hex_digit (n div 16), hex_digit (n mod 16)])"

text \<open>The following bytes of a sequence: whether they are continuation bytes, and the value.\<close>

fun decode_rest :: "string \<Rightarrow> u32 \<Rightarrow> bool \<times> u32" where
  "decode_rest [] val = (True, val)"
| "decode_rest (ch # cs) val =
     (let (valid, v) = decode_rest cs (push_bit 6 val OR (byte_of ch AND 0x3F)) in
      (byte_of ch AND 0xC0 = 0x80 \<and> valid, v))"

definition bad_encoding :: "bool \<Rightarrow> u32 \<Rightarrow> nat \<Rightarrow> bool" where
  "bad_encoding valid val encBytes \<longleftrightarrow> \<not> valid \<or> val < 0x80 \<or>
     (0x80 \<le> val \<and> val < 0x800 \<and> encBytes > 2) \<or>
     (0x800 < val \<and> val < 0x10000 \<and> encBytes > 3) \<or>
     val \<ge> 0x110000"

text \<open>
  What is written for the character at \<open>idx\<close>, and how many characters it accounts for.
\<close>

definition encode_at :: "ForWhat \<Rightarrow> string \<Rightarrow> nat \<Rightarrow> catch_error + (string \<times> nat)" where
  "encode_at forWhat s idx =
     (let ch = s ! idx; b = byte_of ch in
      if ch = CHR ''<'' then Inr (''&lt;'', 1)
      else if ch = CHR ''&'' then Inr (''&amp;'', 1)
      else if ch = CHR ''>'' then
        Inr (if idx > 2 \<and> s ! (idx - 1) = CHR '']'' \<and> s ! (idx - 2) = CHR '']'' then ''&gt;'' else [ch], 1)
      else if ch = CHR 0x22 then Inr (if forWhat = ForAttributes then ''&quot;'' else [ch], 1)
      else if b < 0x09 \<or> (b > 0x0D \<and> b < 0x20) \<or> b = 0x7F then Inr (hexEscapeChar ch, 1)
      else if b < 0x7F then Inr ([ch], 1)
      else if b < 0xC0 \<or> b \<ge> 0xF8 then Inr (hexEscapeChar ch, 1)
      else case trailingBytes b of
        Inl e \<Rightarrow> Inl e
      | Inr encBytes \<Rightarrow>
          if idx + encBytes - 1 \<ge> length s then Inr (hexEscapeChar ch, 1)
          else case headerValue b of
            Inl e \<Rightarrow> Inl e
          | Inr hdr \<Rightarrow>
              let (valid, val) = decode_rest (take (encBytes - 1) (drop (idx + 1) s)) hdr in
              if bad_encoding valid val encBytes then Inr (hexEscapeChar ch, 1)
              else Inr (take encBytes (drop idx s), encBytes))"

function encode_from :: "ForWhat \<Rightarrow> string \<Rightarrow> nat \<Rightarrow> catch_error + string" where
  "encode_from forWhat s idx =
     (if idx < length s
      then (case encode_at forWhat s idx of
              Inl e \<Rightarrow> Inl e
            | Inr (out, n) \<Rightarrow>
                (case encode_from forWhat s (idx + max 1 n) of
                   Inl e \<Rightarrow> Inl e
                 | Inr rest \<Rightarrow> Inr (out @ rest)))
      else Inr '''')"
  by auto
termination by (relation "measure (\<lambda>(f, s, idx). length s - idx)") auto

declare encode_from.simps [simp del]

definition encodeTo :: "ForWhat \<Rightarrow> string \<Rightarrow> catch_error + string" where
  "encodeTo forWhat s = encode_from forWhat s 0"

text \<open>A \<open>switch\<close> on the lead byte that passed the tests never throws.\<close>

lemma lead_byte:
  assumes "\<not> b < 0xC0" and "\<not> b \<ge> (0xF8 :: u32)"
  shows "(\<exists>n hdr. trailingBytes b = Inr n \<and> headerValue b = Inr hdr \<and> 2 \<le> n \<and> n \<le> 4)"
proof -
  have "unat b \<in> set [0xC0..<0xF8]"
    using assms by (simp only: set_upt atLeastLessThan_iff word_less_nat_alt word_le_nat_alt) simp
  moreover have "\<forall>k \<in> set [0xC0..<0xF8]. \<exists>n hdr.
      trailingBytes (word_of_nat k) = Inr n \<and> headerValue (word_of_nat k) = Inr hdr \<and> 2 \<le> n \<and> n \<le> 4"
    by (simp add: upt_rec trailingBytes_def headerValue_def)
  ultimately show ?thesis by fastforce
qed

end
