(* ===== verification/Catch_Xml_Writer.thy ===== *)
theory Catch_Xml_Writer
  imports Catch_Xml
begin

text \<open>
  \<open>XmlWriter\<close> of \<open>catch_xmlwriter.cpp\<close>: elements, attributes, text and comments as they are
  written to a stream (here the string \<open>m_os\<close>), with start tags closed as late as possible and line
  ends held back.
\<close>

section \<open>The writer\<close>

type_synonym XmlFormatting = u32

definition Indent :: XmlFormatting where "Indent = 0x01"
definition Newline :: XmlFormatting where "Newline = 0x02"

definition default_format :: XmlFormatting where "default_format = Newline OR Indent"

definition shouldNewline :: "XmlFormatting \<Rightarrow> bool" where
  "shouldNewline fmt \<longleftrightarrow> fmt AND Newline \<noteq> 0"

definition shouldIndent :: "XmlFormatting \<Rightarrow> bool" where
  "shouldIndent fmt \<longleftrightarrow> fmt AND Indent \<noteq> 0"

record XmlWriter =
  m_tagIsOpen :: bool
  m_needsNewline :: bool
  m_tags :: "string list"
  m_indent :: string
  m_os :: string

definition put :: "string \<Rightarrow> XmlWriter \<Rightarrow> XmlWriter" where
  "put s w = w\<lparr>m_os := m_os w @ s\<rparr>"

definition newlineIfNecessary :: "XmlWriter \<Rightarrow> XmlWriter" where
  "newlineIfNecessary w =
     (if m_needsNewline w then (put [CHR 0x0A] w)\<lparr>m_needsNewline := False\<rparr> else w)"

definition applyFormatting :: "XmlFormatting \<Rightarrow> XmlWriter \<Rightarrow> XmlWriter" where
  "applyFormatting fmt w = w\<lparr>m_needsNewline := shouldNewline fmt\<rparr>"

definition ensureTagClosed :: "XmlWriter \<Rightarrow> XmlWriter" where
  "ensureTagClosed w =
     (if m_tagIsOpen w then (newlineIfNecessary (put ''>'' w))\<lparr>m_tagIsOpen := False\<rparr> else w)"

definition writeDeclaration :: "XmlWriter \<Rightarrow> XmlWriter" where
  "writeDeclaration =
     put (''<?xml version='' @ [CHR 0x22] @ ''1.0'' @ [CHR 0x22] @ '' encoding='' @ [CHR 0x22] @ ''UTF-8'' @
       [CHR 0x22] @ ''?>'' @ [CHR 0x0A])"

definition XmlWriter_new :: XmlWriter where
  "XmlWriter_new = writeDeclaration
     \<lparr>m_tagIsOpen = False, m_needsNewline = False, m_tags = [], m_indent = '''', m_os = ''''\<rparr>"

definition startElement :: "string \<Rightarrow> XmlFormatting \<Rightarrow> XmlWriter \<Rightarrow> XmlWriter" where
  "startElement nm fmt w =
     (let w1 = newlineIfNecessary (ensureTagClosed w);
          w2 = (if shouldIndent fmt
                then (put (m_indent w1) w1)\<lparr>m_indent := m_indent w1 @ ''  ''\<rparr> else w1) in
      applyFormatting fmt ((put (''<'' @ nm) w2)\<lparr>m_tags := m_tags w2 @ [nm], m_tagIsOpen := True\<rparr>))"

text \<open>
  \<open>substr\<close> with the count \<open>size() - 2\<close>, which wraps when the indentation is shorter. With no
  element open \<open>back()\<close> and \<open>pop_back()\<close> are undefined, here an error.
\<close>

definition outdent :: "string \<Rightarrow> string" where
  "outdent s = (if length s < 2 then s else take (length s - 2) s)"

definition endElement :: "XmlFormatting \<Rightarrow> XmlWriter \<Rightarrow> catch_error + XmlWriter" where
  "endElement fmt w0 =
     (let w = w0\<lparr>m_indent := outdent (m_indent w0)\<rparr> in
      if m_tags w = [] then Inl Assert_Failed
      else
        let w1 = (if m_tagIsOpen w then (put ''/>'' w)\<lparr>m_tagIsOpen := False\<rparr>
                  else
                    let w2 = newlineIfNecessary w;
                        w3 = (if shouldIndent fmt then put (m_indent w2) w2 else w2) in
                    put (''</'' @ last (m_tags w3) @ ''>'') w3) in
        Inr ((applyFormatting fmt w1)\<lparr>m_tags := butlast (m_tags w1)\<rparr>))"

definition put_attribute :: "string \<Rightarrow> string \<Rightarrow> XmlWriter \<Rightarrow> XmlWriter" where
  "put_attribute nm text = put ('' '' @ nm @ ''='' @ [CHR 0x22] @ text @ [CHR 0x22])"

definition writeAttribute :: "string \<Rightarrow> string \<Rightarrow> XmlWriter \<Rightarrow> catch_error + XmlWriter" where
  "writeAttribute nm attribute w =
     (if nm \<noteq> '''' \<and> attribute \<noteq> ''''
      then (case encodeTo ForAttributes attribute of
              Inl e \<Rightarrow> Inl e
            | Inr text \<Rightarrow> Inr (put_attribute nm text w))
      else Inr w)"

definition writeAttribute_bool :: "string \<Rightarrow> bool \<Rightarrow> XmlWriter \<Rightarrow> XmlWriter" where
  "writeAttribute_bool nm attribute = put_attribute nm (if attribute then ''true'' else ''false'')"

definition writeText :: "string \<Rightarrow> XmlFormatting \<Rightarrow> XmlWriter \<Rightarrow> catch_error + XmlWriter" where
  "writeText text fmt w =
     (if text \<noteq> ''''
      then let w1 = ensureTagClosed w;
               w2 = (if m_tagIsOpen w \<and> shouldIndent fmt then put (m_indent w1) w1 else w1) in
        (case encodeTo ForTextNodes text of
           Inl e \<Rightarrow> Inl e
         | Inr t \<Rightarrow> Inr (applyFormatting fmt (put t w2)))
      else Inr w)"

definition writeComment :: "string \<Rightarrow> XmlFormatting \<Rightarrow> XmlWriter \<Rightarrow> XmlWriter" where
  "writeComment text fmt w =
     (let w1 = ensureTagClosed w;
          w2 = (if shouldIndent fmt then put (m_indent w1) w1 else w1) in
      applyFormatting fmt (put (''<!--'' @ text @ ''-->'') w2))"

definition writeStylesheetRef :: "string \<Rightarrow> XmlWriter \<Rightarrow> XmlWriter" where
  "writeStylesheetRef url =
     put (''<?xml-stylesheet type='' @ [CHR 0x22] @ ''text/xsl'' @ [CHR 0x22] @ '' href='' @ [CHR 0x22] @ url @
       [CHR 0x22] @ ''?>'' @ [CHR 0x0A])"

definition writeBlankLine :: "XmlWriter \<Rightarrow> XmlWriter" where
  "writeBlankLine w = put [CHR 0x0A] (ensureTagClosed w)"

text \<open>A \<open>ScopedElement\<close> around what is written while it lives: its destructor ends the element.\<close>

definition scopedElement ::
  "string \<Rightarrow> XmlFormatting \<Rightarrow> (XmlWriter \<Rightarrow> catch_error + XmlWriter) \<Rightarrow> XmlWriter \<Rightarrow> catch_error + XmlWriter" where
  "scopedElement nm fmt body w =
     (case body (startElement nm fmt w) of Inl e \<Rightarrow> Inl e | Inr w' \<Rightarrow> endElement fmt w')"

lemma endElement_tags: "endElement fmt w = Inr w' \<Longrightarrow> m_tags w' = butlast (m_tags w) \<and> m_tags w \<noteq> []"
  by (auto simp: endElement_def Let_def applyFormatting_def newlineIfNecessary_def put_def split: if_splits)

text \<open>The destructor ends every element that is still open.\<close>

function XmlWriter_delete :: "XmlWriter \<Rightarrow> catch_error + XmlWriter" where
  "XmlWriter_delete w =
     (if m_tags w \<noteq> []
      then (case endElement default_format w of Inl e \<Rightarrow> Inl e | Inr w' \<Rightarrow> XmlWriter_delete w')
      else Inr (newlineIfNecessary w))"
  by auto
termination
  by (relation "measure (\<lambda>w. length (m_tags w))") (auto dest!: endElement_tags)

declare XmlWriter_delete.simps [simp del]

end
