(* ===== verification/Catch_Xml_Reporter.thy ===== *)
theory Catch_Xml_Reporter
  imports Catch_Reporter_Bases Catch_Xml_Writer
begin

text \<open>
  \<open>catch_reporter_xml.cpp\<close>: the XML report, as the elements, attributes and texts each call of the
  reporter writes.
\<close>

section \<open>Actions of the writer\<close>

type_synonym xml_action = "XmlWriter \<Rightarrow> catch_error + XmlWriter"

fun xml_do :: "xml_action list \<Rightarrow> xml_action" where
  "xml_do [] w = Inr w"
| "xml_do (f # fs) w = (case f w of Inl e \<Rightarrow> Inl e | Inr w' \<Rightarrow> xml_do fs w')"

definition xml_start :: "string \<Rightarrow> xml_action" where
  "xml_start nm w = Inr (startElement nm default_format w)"

definition xml_close_tag :: xml_action where
  "xml_close_tag w = Inr (ensureTagClosed w)"

definition xml_flag :: "string \<Rightarrow> bool \<Rightarrow> xml_action" where
  "xml_flag nm attribute w = Inr (writeAttribute_bool nm attribute w)"

definition xml_number :: "string \<Rightarrow> nat \<Rightarrow> xml_action" where
  "xml_number nm attribute = writeAttribute nm (decimal attribute)"

definition xml_scoped :: "string \<Rightarrow> xml_action list \<Rightarrow> xml_action" where
  "xml_scoped nm fs = scopedElement nm default_format (xml_do fs)"

definition xml_text_element :: "string \<Rightarrow> string \<Rightarrow> XmlFormatting \<Rightarrow> xml_action" where
  "xml_text_element nm text fmt = xml_scoped nm [writeText text fmt]"

text \<open>An action that is only taken under a condition.\<close>

definition xml_when :: "bool \<Rightarrow> xml_action list \<Rightarrow> xml_action list" where
  "xml_when b fs = (if b then fs else [])"

section \<open>The reporter\<close>

record XmlReporter = StreamingReporterBase +
  m_xml :: XmlWriter
  m_sectionDepth :: int

definition XmlReporter_new :: "Config \<Rightarrow> catch_error + XmlReporter" where
  "XmlReporter_new config =
     map_sum id (\<lambda>base. StreamingReporterBase.extend
         (base\<lparr>m_reporterPrefs := \<lparr>shouldRedirectStdOut = True, shouldReportAllAssertions = True\<rparr>\<rparr>)
         (XmlReporter.fields XmlWriter_new 0))
       (StreamingReporterBase_new config)"

definition on_xml :: "xml_action list \<Rightarrow> XmlReporter \<Rightarrow> catch_error + XmlReporter" where
  "on_xml fs x = map_sum id (\<lambda>w. x\<lparr>m_xml := w\<rparr>) (xml_do fs (m_xml x))"

definition getStylesheetRef :: string where
  "getStylesheetRef = ''''"

definition writeSourceInfo :: "SourceLineInfo \<Rightarrow> xml_action list" where
  "writeSourceInfo loc = [writeAttribute ''filename'' (src_file loc), xml_number ''line'' (src_line loc)]"

definition counts_attributes :: "Counts \<Rightarrow> xml_action list" where
  "counts_attributes cs = [xml_number ''successes'' (unat (passed cs)), xml_number ''failures'' (unat (failed cs)),
     xml_number ''expectedFailures'' (unat (failedButOk cs))]"

definition alwaysShowDurations :: "Config \<Rightarrow> bool" where
  "alwaysShowDurations config \<longleftrightarrow> showDurations (cfg_data config) = Always"

definition xml_testRunStarting :: "string \<Rightarrow> XmlReporter \<Rightarrow> catch_error + XmlReporter" where
  "xml_testRunStarting info x =
     (let config = reporter_config x; seed = rngSeed (cfg_data config) in
      on_xml (
          xml_when (getStylesheetRef \<noteq> '''') [\<lambda>w. Inr (writeStylesheetRef getStylesheetRef w)] @
          [xml_start ''Catch''] @
          xml_when (config_name config \<noteq> '''') [writeAttribute ''name'' (config_name config)] @
          xml_when (hasFilters (cfg_testSpec config))
            [writeAttribute ''filters'' (serializeFilters (testsOrTags (cfg_data config)))] @
          xml_when (seed \<noteq> 0) [xml_scoped ''Randomness'' [xml_number ''seed'' (unat seed)]])
        (base_testRunStarting info x))"

definition xml_testGroupStarting :: "GroupInfo \<Rightarrow> XmlReporter \<Rightarrow> catch_error + XmlReporter" where
  "xml_testGroupStarting info x =
     on_xml [xml_start ''Group'', writeAttribute ''name'' (gi_name info)] (base_testGroupStarting info x)"

definition xml_testCaseStarting :: "TestCaseInfo \<Rightarrow> XmlReporter \<Rightarrow> catch_error + XmlReporter" where
  "xml_testCaseStarting info x =
     on_xml ([xml_start ''TestCase'', writeAttribute ''name'' (trim (tc_name info)),
         writeAttribute ''description'' (description info), writeAttribute ''tags'' (tagsAsString info)] @
         writeSourceInfo (lineInfo info) @ [xml_close_tag])
       (base_testCaseStarting info x)"

definition xml_sectionStarting :: "SectionInfo \<Rightarrow> XmlReporter \<Rightarrow> catch_error + XmlReporter" where
  "xml_sectionStarting info x0 =
     (let x = base_sectionStarting info x0; d = m_sectionDepth x in
      on_xml (xml_when (d > 0)
          ([xml_start ''Section'', writeAttribute ''name'' (trim (sec_name info))] @
           writeSourceInfo (sec_lineInfo info) @ [xml_close_tag]))
        (x\<lparr>m_sectionDepth := d + 1\<rparr>))"

definition xml_info :: "bool \<Rightarrow> MessageInfo \<Rightarrow> xml_action list" where
  "xml_info includeResults msg =
     (if mi_type msg = Info \<and> includeResults then [xml_text_element ''Info'' (mi_message msg) default_format]
      else if mi_type msg = Warning then [xml_text_element ''Warning'' (mi_message msg) default_format]
      else [])"

definition xml_result_element :: "string \<Rightarrow> AssertionResult \<Rightarrow> xml_action list" where
  "xml_result_element nm result = [xml_start nm] @ writeSourceInfo (ai_lineInfo (m_info result)) @
     [writeText (res_message result) default_format, endElement default_format]"

definition xml_result :: "AssertionResult \<Rightarrow> xml_action list" where
  "xml_result result =
     (case resultType result of
        ThrewException \<Rightarrow> xml_result_element ''Exception'' result
      | FatalErrorCondition \<Rightarrow> xml_result_element ''FatalErrorCondition'' result
      | Info \<Rightarrow> [xml_text_element ''Info'' (res_message result) default_format]
      | ExplicitFailure \<Rightarrow> xml_result_element ''Failure'' result
      | _ \<Rightarrow> [])"

definition xml_assertionEnded :: "AssertionStats \<Rightarrow> XmlReporter \<Rightarrow> catch_error + XmlReporter" where
  "xml_assertionEnded stats x =
     (let result = assertionResult stats;
          includeResults = (showSuccessfulTests (cfg_data (reporter_config x)) \<or> \<not> AssertionResult_isOk result);
          shown = (includeResults \<or> resultType result = Warning) in
      on_xml (
        xml_when shown (concat (map (xml_info includeResults) (infoMessages stats))) @
        xml_when shown (
          xml_when (hasExpression result)
            ([xml_start ''Expression'', xml_flag ''success'' (succeeded result),
              writeAttribute ''type'' (macroName (m_info result))] @
             writeSourceInfo (ai_lineInfo (m_info result)) @
             [xml_text_element ''Original'' (getExpression result) default_format,
              xml_text_element ''Expanded'' (getExpandedExpression result) default_format]) @
          xml_result result @
          xml_when (hasExpression result) [endElement default_format])) x)"

text \<open>
  The explicit \<open>endElement\<close> ends the element of the results, the destructor of the \<open>ScopedElement\<close>
  the section or test case around it.
\<close>

definition xml_sectionEnded :: "SectionStats \<Rightarrow> XmlReporter \<Rightarrow> catch_error + XmlReporter" where
  "xml_sectionEnded stats x0 =
     (case base_sectionEnded x0 of
        Inl e \<Rightarrow> Inl e
      | Inr x \<Rightarrow>
          let d = m_sectionDepth x - 1 in
          on_xml (xml_when (d > 0)
            [xml_scoped ''OverallResults'' (counts_attributes (ss_assertions stats) @
               xml_when (alwaysShowDurations (reporter_config x)) [writeAttribute ''durationInSeconds'' (durationInSeconds stats)] @
               [endElement default_format])])
            (x\<lparr>m_sectionDepth := d\<rparr>))"

definition xml_testCaseEnded :: "TestCaseStats \<Rightarrow> string \<Rightarrow> XmlReporter \<Rightarrow> catch_error + XmlReporter" where
  "xml_testCaseEnded stats elapsed x =
     on_xml [xml_scoped ''OverallResult'' (
         [xml_flag ''success'' (allOk (assertions (tcs_totals stats)))] @
         xml_when (alwaysShowDurations (reporter_config x)) [writeAttribute ''durationInSeconds'' elapsed] @
         xml_when (stdOut stats \<noteq> '''') [xml_text_element ''StdOut'' (trim (stdOut stats)) Newline] @
         xml_when (stdErr stats \<noteq> '''') [xml_text_element ''StdErr'' (trim (stdErr stats)) Newline] @
         [endElement default_format])]
       (base_testCaseEnded x)"

definition overall_results :: "Totals \<Rightarrow> xml_action list" where
  "overall_results totals =
     [xml_scoped ''OverallResults'' (counts_attributes (assertions totals)),
      xml_scoped ''OverallResultsCases'' (counts_attributes (testCases totals)),
      endElement default_format]"

definition xml_testGroupEnded :: "Totals \<Rightarrow> XmlReporter \<Rightarrow> catch_error + XmlReporter" where
  "xml_testGroupEnded totals x = on_xml (overall_results totals) (base_testGroupEnded x)"

definition xml_testRunEnded :: "Totals \<Rightarrow> XmlReporter \<Rightarrow> catch_error + XmlReporter" where
  "xml_testRunEnded totals x = on_xml (overall_results totals) (base_testRunEnded x)"

text \<open>One call of the reporter; the calls that are not overridden do nothing.\<close>

fun xml_report :: "Captured \<Rightarrow> report \<Rightarrow> XmlReporter \<Rightarrow> catch_error + XmlReporter" where
  "xml_report cap (Report_testRunStarting nm) x = xml_testRunStarting nm x"
| "xml_report cap (Report_testGroupStarting info) x = xml_testGroupStarting info x"
| "xml_report cap (Report_testCaseStarting info) x = xml_testCaseStarting info x"
| "xml_report cap (Report_sectionStarting info) x = xml_sectionStarting info x"
| "xml_report cap (Report_assertionEnded result ms totals) x = xml_assertionEnded (AssertionStats_new result ms totals cap) x"
| "xml_report cap (Report_sectionEnded info cs missing) x =
     xml_sectionEnded \<lparr>ss_sectionInfo = info, ss_assertions = cs, durationInSeconds = cap_duration cap, missingAssertions = missing\<rparr> x"
| "xml_report cap (Report_testCaseEnded info totals ab) x =
     xml_testCaseEnded \<lparr>testInfo = info, tcs_totals = totals, stdOut = cap_stdOut cap, stdErr = cap_stdErr cap, tcs_aborting = ab\<rparr>
       (cap_duration cap) x"
| "xml_report cap (Report_testGroupEnded info totals ab) x = xml_testGroupEnded totals x"
| "xml_report cap (Report_testRunEnded nm totals ab) x = xml_testRunEnded totals x"
| "xml_report cap _ x = Inr x"

fun xml_reports :: "(nat \<Rightarrow> Captured) \<Rightarrow> report list \<Rightarrow> XmlReporter \<Rightarrow> catch_error + XmlReporter" where
  "xml_reports cap [] x = Inr x"
| "xml_reports cap (r # rs) x =
     (case xml_report (cap 0) r x of Inl e \<Rightarrow> Inl e | Inr x' \<Rightarrow> xml_reports (cap \<circ> Suc) rs x')"

end
