(* ===== verification/Catch_Junit_Reporter.thy ===== *)
theory Catch_Junit_Reporter
  imports Catch_Xml_Reporter Catch_Text_Flow
begin

text \<open>
  \<open>catch_reporter_junit.cpp\<close>: the results are collected while the tests run, and written when
  the group has ended. The texts are computed first (laying one out might not end, or break an
  assertion), then the actions of the writer are carried out.
\<close>

section \<open>Computing the actions\<close>

type_synonym 'a computed = "(catch_error + 'a) option"

definition and_then :: "'a computed \<Rightarrow> ('a \<Rightarrow> 'b computed) \<Rightarrow> 'b computed" where
  "and_then m f =
     (case m of None \<Rightarrow> None | Some (Inl e) \<Rightarrow> Some (Inl e) | Some (Inr v) \<Rightarrow> f v)"

definition computed :: "'a \<Rightarrow> 'a computed" where
  "computed v = Some (Inr v)"

text \<open>The actions for all elements of a list, one after the other.\<close>

fun for_each :: "('a \<Rightarrow> xml_action list computed) \<Rightarrow> 'a list \<Rightarrow> xml_action list computed" where
  "for_each f [] = computed []"
| "for_each f (x # xs) = and_then (f x) (\<lambda>as. and_then (for_each f xs) (\<lambda>bs. computed (as @ bs)))"

section \<open>The reporter\<close>

record JunitReporter = CumulativeReporterBase +
  junit_xml :: XmlWriter
  stdOutForSuite :: string
  stdErrForSuite :: string
  unexpectedExceptions :: u32
  m_okToFail :: bool

definition JunitReporter_new :: "Config \<Rightarrow> catch_error + JunitReporter" where
  "JunitReporter_new config =
     map_sum id (\<lambda>base. CumulativeReporterBase.extend
         (base\<lparr>cum_reporterPrefs := \<lparr>shouldRedirectStdOut = True, shouldReportAllAssertions = True\<rparr>\<rparr>)
         (JunitReporter.fields XmlWriter_new '''' '''' 0 False))
       (CumulativeReporterBase_new config)"

definition fileNameTag :: "string list \<Rightarrow> string" where
  "fileNameTag ts =
     (case find (\<lambda>tag. tag \<noteq> '''' \<and> hd tag = CHR ''#'') ts of Some tag \<Rightarrow> tl tag | None \<Rightarrow> '''')"

definition result_element_name :: "ResultWas \<Rightarrow> string" where
  "result_element_name r =
     (if r \<in> {ThrewException, FatalErrorCondition} then ''error''
      else if r \<in> {ExplicitFailure, ExpressionFailed, DidntThrowException} then ''failure''
      else ''internalError'')"

text \<open>\<open>operator<<\<close> of \<open>SourceLineInfo\<close>, as \<open>__GNUG__\<close> has it.\<close>

definition show_location :: "SourceLineInfo \<Rightarrow> string" where
  "show_location loc = src_file loc @ '':'' @ decimal (src_line loc)"

definition expansion :: "AssertionResult \<Rightarrow> string computed" where
  "expansion r = Column_toString ((Column_new (getExpandedExpression r))\<lparr>m_indentation := 2\<rparr>)"

definition failure_text :: "AssertionStats \<Rightarrow> string computed" where
  "failure_text stats =
     (let r = assertionResult stats; nl = [newline];
          rest = (if res_message r \<noteq> '''' then res_message r @ nl else '''') @
            concat (map (\<lambda>m. mi_message m @ nl) (filter (\<lambda>m. mi_type m = Info) (infoMessages stats))) @
            ''at '' @ show_location (ai_lineInfo (m_info r)) in
      if Counts_total (assertions (as_totals stats)) > 0
      then
        let failed = ''FAILED:'' @ nl @ (if hasExpression r then ''  '' @ getExpressionInMacro r @ nl else '''') in
        (if hasExpandedExpression r
         then and_then (expansion r) (\<lambda>t. computed (failed @ ''with expansion:'' @ nl @ t @ nl @ rest))
         else computed (failed @ rest))
      else computed (nl @ rest))"

definition writeAssertion :: "AssertionStats \<Rightarrow> xml_action list computed" where
  "writeAssertion stats =
     (let r = assertionResult stats in
      if \<not> AssertionResult_isOk r
      then and_then (failure_text stats) (\<lambda>t. computed
        [xml_scoped (result_element_name (resultType r))
          [writeAttribute ''message'' (getExpression r), writeAttribute ''type'' (macroName (m_info r)),
           writeText t Newline]])
      else computed [])"

definition writeAssertions :: "SectionNode \<Rightarrow> xml_action list computed" where
  "writeAssertions node = for_each writeAssertion (node_assertions node)"

definition section_name :: "string \<Rightarrow> SectionNode \<Rightarrow> string" where
  "section_name rootName node =
     (let nm = trim (sec_name (ss_sectionInfo (node_stats node))) in
      if rootName \<noteq> '''' then rootName @ ''/'' @ nm else nm)"

text \<open>The element of a section that has assertions or output of its own.\<close>

definition testcase_element :: "string \<Rightarrow> string \<Rightarrow> SectionNode \<Rightarrow> xml_action list computed" where
  "testcase_element cls nm node =
     (if node_assertions node \<noteq> [] \<or> node_stdOut node \<noteq> '''' \<or> node_stdErr node \<noteq> ''''
      then and_then (writeAssertions node) (\<lambda>as. computed
        [xml_scoped ''testcase'' (
          (if cls = ''''
           then [writeAttribute ''classname'' nm, writeAttribute ''name'' ''root'']
           else [writeAttribute ''classname'' cls, writeAttribute ''name'' nm]) @
          [writeAttribute ''time'' (durationInSeconds (node_stats node)), writeAttribute ''status'' ''run''] @
          as @
          xml_when (node_stdOut node \<noteq> '''') [xml_text_element ''system-out'' (trim (node_stdOut node)) Newline] @
          xml_when (node_stdErr node \<noteq> '''') [xml_text_element ''system-err'' (trim (node_stdErr node)) Newline])])
      else computed [])"

text \<open>The recursion over the sections, \<open>fuel\<close> levels deep.\<close>

fun writeSection :: "nat \<Rightarrow> SectionNode list \<Rightarrow> string \<Rightarrow> string \<Rightarrow> nat \<Rightarrow> xml_action list computed" where
  "writeSection 0 ns cls rootName n = None"
| "writeSection (Suc fuel) ns cls rootName n =
     (let node = ns ! n; nm = section_name rootName node in
      and_then (testcase_element cls nm node) (\<lambda>as.
      and_then (for_each (\<lambda>child. if cls = '''' then writeSection fuel ns nm '''' child
                                  else writeSection fuel ns cls nm child)
                  (childSections node)) (\<lambda>bs.
      computed (as @ bs))))"

definition test_class :: "Config \<Rightarrow> TestCaseInfo \<Rightarrow> string" where
  "test_class config info =
     (let c1 = className info;
          c2 = (if c1 = '''' then fileNameTag (tags info) else c1);
          c3 = (if c2 = '''' then ''global'' else c2) in
      if config_name config \<noteq> '''' then config_name config @ ''.'' @ c3 else c3)"

text \<open>A test case has one section; a pointer that is null is an error.\<close>

definition writeTestCase :: "Config \<Rightarrow> SectionNode list \<Rightarrow> TestCaseNode \<Rightarrow> xml_action list computed" where
  "writeTestCase config ns tc =
     (case tcn_children tc of
        [Some root] \<Rightarrow> writeSection (length ns) ns (test_class config (testInfo (tcn_value tc))) '''' root
      | _ \<Rightarrow> Some (Inl Assert_Failed))"

definition junit_properties :: "Config \<Rightarrow> xml_action list" where
  "junit_properties config =
     (let seed = rngSeed (cfg_data config); filt = cfg_hasTestFilters config in
      xml_when (filt \<or> seed \<noteq> 0)
        [xml_scoped ''properties'' (
          xml_when filt [xml_scoped ''property'' [writeAttribute ''name'' ''filters'',
            writeAttribute ''value'' (serializeFilters (testsOrTags (cfg_data config)))]] @
          xml_when (seed \<noteq> 0) [xml_scoped ''property'' [writeAttribute ''name'' ''random-seed'',
            xml_number ''value'' (unat seed)]])])"

definition writeGroup :: "TestGroupNode \<Rightarrow> string \<Rightarrow> string \<Rightarrow> JunitReporter \<Rightarrow> xml_action list computed" where
  "writeGroup grp suiteTime timestamp x =
     (let stats = tgn_value grp; totals = tgs_totals stats; config = cum_config x in
      and_then (for_each (writeTestCase config (cum_nodes x)) (tgn_children grp)) (\<lambda>as. computed
      [xml_scoped ''testsuite'' (
        [writeAttribute ''name'' (gi_name (groupInfo stats)),
         xml_number ''errors'' (unat (unexpectedExceptions x)),
         xml_number ''failures'' (unat (failed (assertions totals) - ucast (unexpectedExceptions x) :: u64)),
         xml_number ''tests'' (unat (Counts_total (assertions totals))),
         writeAttribute ''hostname'' ''tbd'',
         writeAttribute ''time'' (if showDurations (cfg_data config) = Never_durations then '''' else suiteTime),
         writeAttribute ''timestamp'' timestamp] @
        junit_properties config @
        as @
        [xml_text_element ''system-out'' (trim (stdOutForSuite x)) Newline,
         xml_text_element ''system-err'' (trim (stdErrForSuite x)) Newline])]))"

section \<open>The calls\<close>

definition on_junit :: "xml_action list \<Rightarrow> JunitReporter \<Rightarrow> JunitReporter computed" where
  "on_junit fs x = Some (map_sum id (\<lambda>w. x\<lparr>junit_xml := w\<rparr>) (xml_do fs (junit_xml x)))"

definition junit_testRunStarting :: "JunitReporter \<Rightarrow> JunitReporter computed" where
  "junit_testRunStarting = on_junit [xml_start ''testsuites'']"

definition junit_testGroupStarting :: "JunitReporter \<Rightarrow> JunitReporter" where
  "junit_testGroupStarting x = x\<lparr>stdOutForSuite := '''', stdErrForSuite := '''', unexpectedExceptions := 0\<rparr>"

definition junit_testCaseStarting :: "TestCaseInfo \<Rightarrow> JunitReporter \<Rightarrow> JunitReporter" where
  "junit_testCaseStarting info x = x\<lparr>m_okToFail := okToFail info\<rparr>"

definition junit_assertionEnded :: "AssertionStats \<Rightarrow> JunitReporter \<Rightarrow> catch_error + JunitReporter" where
  "junit_assertionEnded stats x =
     cum_assertionEnded stats
       (if resultType (assertionResult stats) = ThrewException \<and> \<not> m_okToFail x
        then x\<lparr>unexpectedExceptions := unexpectedExceptions x + 1\<rparr> else x)"

definition junit_testCaseEnded :: "TestCaseStats \<Rightarrow> JunitReporter \<Rightarrow> catch_error + JunitReporter" where
  "junit_testCaseEnded stats x =
     cum_testCaseEnded stats (x\<lparr>stdOutForSuite := stdOutForSuite x @ stdOut stats,
       stdErrForSuite := stdErrForSuite x @ stdErr stats\<rparr>)"

definition junit_testGroupEnded :: "TestGroupStats \<Rightarrow> string \<Rightarrow> string \<Rightarrow> JunitReporter \<Rightarrow> JunitReporter computed" where
  "junit_testGroupEnded stats suiteTime timestamp x =
     (let x1 = cum_testGroupEnded stats x in
      and_then (writeGroup (last (m_testGroups x1)) suiteTime timestamp x1) (\<lambda>fs. on_junit fs x1))"

definition junit_testRunEnded :: "TestRunStats \<Rightarrow> JunitReporter \<Rightarrow> JunitReporter computed" where
  "junit_testRunEnded stats x = on_junit [endElement default_format] (cum_testRunEnded stats x)"

fun junit_report :: "Captured \<Rightarrow> report \<Rightarrow> JunitReporter \<Rightarrow> JunitReporter computed" where
  "junit_report cap (Report_testRunStarting nm) x = junit_testRunStarting x"
| "junit_report cap (Report_testGroupStarting info) x = computed (junit_testGroupStarting x)"
| "junit_report cap (Report_testCaseStarting info) x = computed (junit_testCaseStarting info x)"
| "junit_report cap (Report_sectionStarting info) x = computed (cum_sectionStarting info x)"
| "junit_report cap (Report_assertionEnded result ms totals) x =
     Some (junit_assertionEnded (AssertionStats_new result ms totals cap) x)"
| "junit_report cap (Report_sectionEnded info cs missing) x =
     Some (cum_sectionEnded \<lparr>ss_sectionInfo = info, ss_assertions = cs, durationInSeconds = cap_duration cap, missingAssertions = missing\<rparr> x)"
| "junit_report cap (Report_testCaseEnded info totals ab) x =
     Some (junit_testCaseEnded \<lparr>testInfo = info, tcs_totals = totals, stdOut = cap_stdOut cap, stdErr = cap_stdErr cap, tcs_aborting = ab\<rparr> x)"
| "junit_report cap (Report_testGroupEnded info totals ab) x =
     junit_testGroupEnded \<lparr>groupInfo = info, tgs_totals = totals, tgs_aborting = ab\<rparr> (cap_duration cap) (cap_timestamp cap) x"
| "junit_report cap (Report_testRunEnded nm totals ab) x =
     junit_testRunEnded \<lparr>runInfo = nm, trs_totals = totals, trs_aborting = ab\<rparr> x"
| "junit_report cap _ x = computed x"

fun junit_reports :: "(nat \<Rightarrow> Captured) \<Rightarrow> report list \<Rightarrow> JunitReporter \<Rightarrow> JunitReporter computed" where
  "junit_reports cap [] x = computed x"
| "junit_reports cap (r # rs) x = and_then (junit_report (cap 0) r x) (junit_reports (cap \<circ> Suc) rs)"

end
