(* ===== verification/Catch_Report_Protocol.thy ===== *)
theory Catch_Report_Protocol
  imports Catch_Failing_Sections Catch_Session
begin

text \<open>
  The order in which a run calls its reporter: the phases a reporter goes through
  (\<open>IStreamingReporter\<close>), and that every operation of the run context and of the session keeps to
  them. What a test body has to do for this is the locale \<open>reporting_body\<close>.
\<close>

lemma map_Inr_iff: "map_sum f g r = Inr y \<longleftrightarrow> (\<exists>x. r = Inr x \<and> g x = y)"
  by (cases r) auto

section \<open>Phases\<close>

text \<open>
  \<open>ts\<close>: the test cases that were run or skipped so far; \<open>Case_Opened ts\<close>: a test case has been
  announced; \<open>In_Case ts d\<close>: its section has been started, and \<open>d\<close> sections have not ended.
\<close>

datatype phase =
    Before_Run
  | In_Run
  | In_Group "TestCaseInfo list"
  | Case_Opened "TestCaseInfo list"
  | In_Case "TestCaseInfo list" nat
  | Group_Over "TestCaseInfo list"
  | Run_Over "TestCaseInfo list"

fun next_phase :: "phase \<Rightarrow> report \<Rightarrow> phase option" where
  "next_phase Before_Run r = (case r of Report_testRunStarting nm \<Rightarrow> Some In_Run | _ \<Rightarrow> None)"
| "next_phase In_Run r = (case r of Report_testGroupStarting g \<Rightarrow> Some (In_Group []) | _ \<Rightarrow> None)"
| "next_phase (In_Group ts) r =
     (case r of
        Report_testCaseStarting t \<Rightarrow> Some (Case_Opened (ts @ [t]))
      | Report_skipTest t \<Rightarrow> Some (In_Group (ts @ [t]))
      | Report_noMatchingTestCases s \<Rightarrow> Some (In_Group ts)
      | Report_invalidArguments s \<Rightarrow> Some (In_Group ts)
      | Report_testGroupEnded g tot ab \<Rightarrow> Some (Group_Over ts)
      | _ \<Rightarrow> None)"
| "next_phase (Case_Opened ts) r = (case r of Report_sectionStarting i \<Rightarrow> Some (In_Case ts 1) | _ \<Rightarrow> None)"
| "next_phase (In_Case ts d) r =
     (case r of
        Report_sectionStarting i \<Rightarrow> Some (In_Case ts (Suc d))
      | Report_sectionEnded i cs m \<Rightarrow> if d = 0 then None else Some (In_Case ts (d - 1))
      | Report_assertionStarting a \<Rightarrow> if d = 0 then None else Some (In_Case ts d)
      | Report_assertionEnded res ms tot \<Rightarrow> if d = 0 then None else Some (In_Case ts d)
      | Report_testCaseEnded t tot ab \<Rightarrow> if d = 0 then Some (In_Group ts) else None
      | _ \<Rightarrow> None)"
| "next_phase (Group_Over ts) r = (case r of Report_testRunEnded nm tot ab \<Rightarrow> Some (Run_Over ts) | _ \<Rightarrow> None)"
| "next_phase (Run_Over ts) r = None"

fun run_phases :: "phase \<Rightarrow> report list \<Rightarrow> phase option" where
  "run_phases p [] = Some p"
| "run_phases p (r # rs) = (case next_phase p r of None \<Rightarrow> None | Some q \<Rightarrow> run_phases q rs)"

lemma run_phases_snoc: "run_phases p (rs @ [r]) = (case run_phases p rs of None \<Rightarrow> None | Some q \<Rightarrow> next_phase q r)"
  by (induction rs arbitrary: p) (auto split: option.splits)

definition phase_of :: "'g RunContext \<Rightarrow> phase option" where
  "phase_of rc = run_phases Before_Run (reports rc)"

lemma phase_of_report [simp]:
  "phase_of (report r rc) = (case phase_of rc of None \<Rightarrow> None | Some p \<Rightarrow> next_phase p r)"
  by (simp add: phase_of_def report_def run_phases_snoc)

lemma phase_of_cong: "reports rc' = reports rc \<Longrightarrow> phase_of rc' = phase_of rc"
  by (simp add: phase_of_def)

text \<open>
  Between two statements of a test case: the section of the test case is open, so are \<open>d\<close> sections
  around the statements, and those an exception has left are not ended yet.
\<close>

definition in_sections :: "TestCaseInfo list \<Rightarrow> nat \<Rightarrow> 'g RunContext \<Rightarrow> bool" where
  "in_sections ts d rc \<longleftrightarrow> phase_of rc = Some (In_Case ts (Suc (d + length (m_unfinishedSections rc))))"

lemma in_sections_cong:
  "reports rc' = reports rc \<Longrightarrow> m_unfinishedSections rc' = m_unfinishedSections rc \<Longrightarrow>
    in_sections ts d rc' = in_sections ts d rc"
  by (simp add: in_sections_def phase_of_def)

section \<open>Assertions\<close>

lemma count_result_fields [simp]:
  "reports (count_result r rc) = reports rc" "m_unfinishedSections (count_result r rc) = m_unfinishedSections rc"
  by (simp_all add: count_result_def count_assertion_def)

lemma report_unfinished [simp]: "m_unfinishedSections (report r rc) = m_unfinishedSections rc"
  by (simp add: report_def)

lemma reports_assertionEnded: "reports (assertionEnded r rc) =
    reports rc @ [Report_assertionEnded r (m_messages (count_result r rc)) (m_totals (count_result r rc))]"
  by (simp add: assertionEnded_def resetAssertionInfo_def report_def Let_def)

lemma assertionEnded_phase:
  "in_sections ts d rc \<Longrightarrow> in_sections ts d (assertionEnded r rc)"
  by (simp add: in_sections_def phase_of_def reports_assertionEnded run_phases_snoc)

lemma assert_macro_phase:
  assumes "assert_macro a v t rc = (ex, rc')" and "in_sections ts d rc"
  shows "in_sections ts d rc'"
proof -
  let ?rc = "report (Report_assertionStarting a) rc"
  have start: "in_sections ts d ?rc" using assms(2) by (simp add: in_sections_def)
  have "in_sections ts d (reportExpr a ty t ?rc)" for ty
    unfolding reportExpr_def by (rule assertionEnded_phase) (use start in \<open>simp add: in_sections_def phase_of_def\<close>)
  moreover have "in_sections ts d (assertionPassed ?rc)"
    using start by (simp add: in_sections_def phase_of_def)
  ultimately show ?thesis
    using assms(1) by (auto simp: assert_macro_def handleExpr_def Let_def split: if_splits prod.splits)
qed

section \<open>Sections\<close>

lemma sectionStarted_phase:
  assumes "sectionStarted i rc = Inr ((included, cs), rc')" and "in_sections ts d rc"
  shows "in_sections ts (if included then Suc d else d) rc'"
  using assms by (auto simp: sectionStarted_def Let_def in_sections_def phase_of_def report_def run_phases_snoc
      split: sum.splits if_splits)

lemma testForMissingAssertions_fields:
  assumes "testForMissingAssertions cs rc = Inr (x, rc')"
  shows "reports rc' = reports rc \<and> m_unfinishedSections rc' = m_unfinishedSections rc \<and>
    m_activeSections rc' = m_activeSections rc"
  using assms by (auto simp: testForMissingAssertions_def count_assertion_def split: if_splits option.splits)

lemma close_section_fields:
  assumes "close_section next_value t rc = Inr rc'"
  shows "reports rc' = reports rc \<and> m_unfinishedSections rc' = m_unfinishedSections rc"
  using assms by (auto simp: close_section_def map_sum_def split: sum.splits)

lemma sectionEnded_reports:
  assumes "sectionEnded next_value e rc = Inr rc'"
  shows "\<exists>cs m. reports rc' = reports rc @ [Report_sectionEnded (sectionInfo e) cs m]"
    and "m_unfinishedSections rc' = m_unfinishedSections rc"
  using assms
  by (auto simp: sectionEnded_def report_def map_sum_def split: sum.splits if_splits
      dest!: testForMissingAssertions_fields close_section_fields)

lemma sectionEnded_phase:
  assumes "sectionEnded next_value e rc = Inr rc'" and "in_sections ts (Suc d) rc"
  shows "in_sections ts d rc'"
  using sectionEnded_reports [OF assms(1)] assms(2) by (auto simp: in_sections_def phase_of_def run_phases_snoc)

lemma sectionEndedEarly_phase:
  assumes "sectionEndedEarly next_value e rc = Inr rc'" and "in_sections ts (Suc d) rc"
  shows "in_sections ts d rc'"
proof -
  have "reports rc' = reports rc \<and> m_unfinishedSections rc' = m_unfinishedSections rc @ [e]"
    using assms(1) by (auto simp: sectionEndedEarly_def map_sum_def Let_def split: sum.splits if_splits
        dest!: close_section_fields)
  then show ?thesis using assms(2) by (simp add: in_sections_def phase_of_def)
qed

lemma end_sections_phase:
  "end_sections next_value es rc = Inr rc' \<Longrightarrow> phase_of rc = Some (In_Case ts (length es + n)) \<Longrightarrow>
    phase_of rc' = Some (In_Case ts n) \<and> m_unfinishedSections rc' = m_unfinishedSections rc"
proof (induction es arbitrary: rc)
  case (Cons e es)
  from Cons.prems(1) obtain rc1 where one: "sectionEnded next_value e rc = Inr rc1"
    and rest: "end_sections next_value es rc1 = Inr rc'" by (auto split: sum.splits)
  have "phase_of rc1 = Some (In_Case ts (length es + n))"
    using sectionEnded_reports(1) [OF one] Cons.prems(2) by (auto simp: phase_of_def run_phases_snoc)
  with Cons.IH [OF rest this] sectionEnded_reports(2) [OF one] show ?case by simp
qed simp

section \<open>Test bodies\<close>

text \<open>What the reporter needs of a test body: it ends the sections it starts, or leaves them unfinished.\<close>

locale reporting_body =
  fixes body :: "'g RunContext \<Rightarrow> (catch_error + (test_exit \<times> 'g RunContext)) option"
  assumes body_reports: "body rc = Some (Inr (ex, rc')) \<Longrightarrow> in_sections ts d rc \<Longrightarrow> in_sections ts d rc'"
begin

lemma section_reports:
  assumes "section_block next_value i body rc = Some (Inr (ex, rc'))" and "in_sections ts d rc"
  shows "in_sections ts d rc'"
proof -
  obtain inc prev rc1 where start: "sectionStarted i rc = Inr ((inc, prev), rc1)"
    using assms(1) by (auto simp: section_block_def split: sum.splits)
  note one = sectionStarted_phase [OF start assms(2)]
  show ?thesis
  proof (cases inc)
    case True
    then have in1: "in_sections ts (Suc d) rc1" using one by simp
    obtain rc2 where run: "body rc1 = Some (Inr (ex, rc2))"
      and fin: "(if ex = Returned then sectionEnded next_value \<lparr>sectionInfo = i, prevAssertions = prev\<rparr> rc2
        else sectionEndedEarly next_value \<lparr>sectionInfo = i, prevAssertions = prev\<rparr> rc2) = Inr rc'"
      using assms(1) start True
      by (auto simp: section_block_def map_sum_def Let_def split: option.splits sum.splits if_splits)
    from body_reports [OF run in1] fin show ?thesis
      using sectionEnded_phase sectionEndedEarly_phase by (auto split: if_splits)
  next
    case False
    then show ?thesis using one start assms(1) by (simp add: section_block_def)
  qed
qed

lemma cycle_reports:
  assumes "runCurrentTest next_value body info t rc = Some (Inr rc')"
    and "phase_of rc = Some (In_Case ts 0) \<or> phase_of rc = Some (Case_Opened ts)" and "m_unfinishedSections rc = []"
  shows "phase_of rc' = Some (In_Case ts 0) \<and> m_unfinishedSections rc' = []"
proof -
  define rc1 where "rc1 = (report (Report_sectionStarting \<lparr>sec_name = tc_name info, sec_lineInfo = lineInfo info\<rparr>) rc)
    \<lparr>m_shouldReportUnexpected := True, m_lastAssertionInfo := \<lparr>macroName = ''TEST_CASE'', ai_lineInfo = lineInfo info,
      capturedExpression = '''', resultDisposition = Normal\<rparr>\<rparr>"
  have start: "in_sections ts 0 rc1"
    using assms(2,3) by (auto simp: rc1_def in_sections_def phase_of_def report_def run_phases_snoc)
  obtain ex rc2 where run: "body rc1 = Some (Inr (ex, rc2))"
    using assms(1) by (auto simp: runCurrentTest_def Let_def rc1_def split: option.splits sum.splits)
  define rc3 where "rc3 = (case ex of
      Unexpected message \<Rightarrow> if m_shouldReportUnexpected rc2
        then snd (handleUnexpectedInflightException (m_lastAssertionInfo rc2) message rc2) else rc2
    | _ \<Rightarrow> rc2)"
  have in3: "in_sections ts 0 rc3"
    using body_reports [OF run start] assertionEnded_phase [OF body_reports [OF run start]]
    by (auto simp: rc3_def handleUnexpectedInflightException_def Let_def split: test_exit.splits)
  obtain x rc4 rc5 rc6 where miss: "testForMissingAssertions (Counts_minus (assertions (m_totals rc3)) (assertions (m_totals rc))) rc3 = Inr (x, rc4)"
    and cl: "close_section next_value t rc4 = Inr rc5"
    and fin: "handleUnfinishedSections next_value rc5 = Inr rc6"
    and rc': "rc' = report (Report_sectionEnded \<lparr>sec_name = tc_name info, sec_lineInfo = lineInfo info\<rparr> (snd x) (fst x))
                           (clear_messageScopes (rc6\<lparr>m_messages := []\<rparr>))"
    using assms(1) run unfolding rc1_def
    by (auto simp: runCurrentTest_def Let_def rc3_def [symmetric] report_def split: option.splits sum.splits)
  have in5: "in_sections ts 0 rc5"
    using in3 testForMissingAssertions_fields [OF miss] close_section_fields [OF cl]
    by (simp add: in_sections_def phase_of_def)
  obtain rc7 where ends: "end_sections next_value (rev (m_unfinishedSections rc5)) rc5 = Inr rc7"
    and rc6: "rc6 = rc7\<lparr>m_unfinishedSections := []\<rparr>"
    using fin by (auto simp: handleUnfinishedSections_def split: sum.splits)
  have "phase_of rc7 = Some (In_Case ts 1)"
    using end_sections_phase [OF ends, where n = 1] in5 by (simp add: in_sections_def)
  then show ?thesis using rc6 rc' by (simp add: phase_of_def report_def run_phases_snoc)
qed

end

text \<open>The bodies made of statements are such bodies.\<close>

lemma run_stmts_reports: "reporting_body (run_stmts next_value ss)"
proof (induction ss rule: all_sections.induct)
  case 1
  show ?case by unfold_locales simp
next
  case (2 a v t ss)
  show ?case
  proof
    fix rc rc' :: "'a RunContext" and ex ts d
    assume run: "run_stmts next_value (Assertion a v t # ss) rc = Some (Inr (ex, rc'))" and d: "in_sections ts d rc"
    obtain ex1 rc1 where one: "assert_macro a v t rc = (ex1, rc1)" by fastforce
    show "in_sections ts d rc'"
      using assert_macro_phase [OF one d] reporting_body.body_reports [OF 2, of rc1] run one by (auto split: if_splits)
  qed
next
  case (3 i body ss)
  show ?case
  proof
    fix rc rc' :: "'a RunContext" and ex ts d
    assume run: "run_stmts next_value (Section i body # ss) rc = Some (Inr (ex, rc'))" and d: "in_sections ts d rc"
    obtain ex1 rc1 where one: "section_block next_value i (run_stmts next_value body) rc = Some (Inr (ex1, rc1))"
      using run by (auto split: option.splits sum.splits)
    show "in_sections ts d rc'"
      using reporting_body.section_reports [OF "3.IH"(1) one d] reporting_body.body_reports [OF "3.IH"(2), of rc1] run one
      by (auto split: if_splits)
  qed
next
  case (4 message ss)
  show ?case by unfold_locales simp
qed

interpretation stmts: reporting_body "run_stmts next_value ss" for next_value and ss
  by (rule run_stmts_reports)

section \<open>Test cases and the whole run\<close>

text \<open>\<open>idle p rc\<close>: the reporter is in the phase \<open>p\<close>, and no section waits to be ended.\<close>

definition idle :: "phase \<Rightarrow> 'g RunContext \<Rightarrow> bool" where
  "idle p rc \<longleftrightarrow> phase_of rc = Some p \<and> m_unfinishedSections rc = []"

lemma idle_cong:
  "reports rc' = reports rc \<Longrightarrow> m_unfinishedSections rc' = m_unfinishedSections rc \<Longrightarrow> idle p rc' = idle p rc"
  by (simp add: idle_def phase_of_def)

lemma idle_report: "idle p rc \<Longrightarrow> next_phase p r = Some q \<Longrightarrow> idle q (report r rc)"
  by (simp add: idle_def)

context reporting_body
begin

lemma cycles_reports:
  assumes "cycles next_value body info rc = Some (Inr rc')" and "idle (In_Case ts 0) rc \<or> idle (Case_Opened ts) rc"
  shows "idle (In_Case ts 0) rc'"
proof -
  let ?P = "\<lambda>iv rc result. iv = body \<longrightarrow> idle (In_Case ts 0) rc \<or> idle (Case_Opened ts) rc \<longrightarrow> (\<forall>rc'. result = Inr rc' \<longrightarrow> idle (In_Case ts 0) rc')"
  have "?P body rc result" if "cycles next_value body info rc = Some result" for rc result
  proof (rule cycles.raw_induct [where P = "\<lambda>nv iv i rc result. ?P iv rc result", OF _ that])
    fix cyc and next_value :: "'g \<Rightarrow> bool \<times> 'g" and invoke info rc result
    assume IH: "\<And>nv iv i rc y. cyc nv iv i rc = Some y \<Longrightarrow> ?P iv rc y"
      and eq: "(case SectionTracker_acquire \<lparr>nl_name = tc_name info, nl_location = lineInfo info\<rparr>
             (startCycle (m_trackerContext rc)) of
        Inl e \<Rightarrow> Some (Inl e)
      | Inr (t, tc) \<Rightarrow>
          (case runCurrentTest next_value invoke info t
                  (rc\<lparr>m_trackerContext := tc, m_testCaseTracker := Some t\<rparr>) of
             None \<Rightarrow> None
           | Some (Inl e) \<Rightarrow> Some (Inl e)
           | Some (Inr rc1) \<Rightarrow>
               if \<not> isSuccessfullyCompleted (tracker_at (m_trackerContext rc1) t) \<and> \<not> aborting rc1
               then cyc next_value invoke info rc1
               else Some (Inr rc1))) = Some result"
    show "?P invoke rc result"
    proof (intro impI allI)
      fix rc' assume body: "invoke = body" and start: "idle (In_Case ts 0) rc \<or> idle (Case_Opened ts) rc" and res: "result = Inr rc'"
      obtain t tc rc1 where run: "runCurrentTest next_value body info t
          (rc\<lparr>m_trackerContext := tc, m_testCaseTracker := Some t\<rparr>) = Some (Inr rc1)"
        and rest: "(if \<not> isSuccessfullyCompleted (tracker_at (m_trackerContext rc1) t) \<and> \<not> aborting rc1
            then cyc next_value invoke info rc1 else Some (Inr rc1)) = Some (Inr rc')"
        using eq res body by (auto split: sum.splits option.splits)
      have "idle (In_Case ts 0) rc1"
        using cycle_reports [OF run] start by (auto simp: idle_def phase_of_def)
      then show "idle (In_Case ts 0) rc'" using rest IH body by (auto split: if_splits)
    qed
  qed
  then show ?thesis using assms by blast
qed

lemma runTest_reports:
  assumes "runTest next_value body here info rc = Some (Inr (d, rc'))" and "idle (In_Group ts) rc"
  shows "idle (In_Group (ts @ [info])) rc'"
proof -
  obtain root tc where start: "startRun here (m_trackerContext rc) = (root, tc)" by fastforce
  let ?rc1 = "((report (Report_testCaseStarting info) rc)\<lparr>m_activeTestCase := Some info\<rparr>)
    \<lparr>m_trackerContext := add_root_filters root (sectionsToRun (cfg_data (m_config rc))) tc\<rparr>"
  obtain rc1 where run: "cycles next_value body info ?rc1 = Some (Inr rc1)"
    and fin: "test_ended info (m_totals rc) rc1 = (d, rc')"
    using assms(1) start by (auto simp: runTest_def report_def Let_def map_Inr_iff)
  have "idle (Case_Opened (ts @ [info])) ?rc1"
    using idle_report [OF assms(2), of "Report_testCaseStarting info"] by (simp add: idle_def phase_of_def)
  from cycles_reports [OF run disjI2 [OF this]] have "idle (In_Case (ts @ [info]) 0) rc1" .
  then show ?thesis using fin by (auto simp: test_ended_def Let_def idle_def phase_of_def report_def run_phases_snoc)
qed

end

text \<open>The tests of a group, whose bodies all keep to the protocol.\<close>

lemma run_tests_reports:
  assumes "\<And>t. reporting_body (bodies t)"
    and "run_tests next_value bodies here ts totals rc = Some (Inr (totals', rc'))" and "idle (In_Group us) rc"
  shows "idle (In_Group (us @ map TestCaseInfo.truncate ts)) rc'"
  using assms(2,3)
proof (induction ts arbitrary: us totals rc)
  case (Cons t ts)
  let ?info = "TestCaseInfo.truncate t"
  show ?case
  proof (cases "aborting rc")
    case True
    have "idle (In_Group (us @ [?info])) (report (Report_skipTest ?info) rc)"
      by (rule idle_report [OF Cons.prems(2)]) simp
    from Cons.IH [OF _ this] Cons.prems(1) True show ?thesis by simp
  next
    case False
    then obtain d rc1 where one: "runTest next_value (bodies (tc_test t)) here ?info rc = Some (Inr (d, rc1))"
      and rest: "run_tests next_value bodies here ts (Totals_plus totals d) rc1 = Some (Inr (totals', rc'))"
      using Cons.prems(1) by (auto simp: Let_def split: option.splits sum.splits)
    from Cons.IH [OF rest reporting_body.runTest_reports [OF assms(1) one Cons.prems(2)]] show ?thesis by simp
  qed
qed simp

lemma fold_idle:
  assumes "\<And>x rc. x \<in> set xs \<Longrightarrow> idle p rc \<Longrightarrow> idle p (f x rc)" and "idle p rc"
  shows "idle p (fold f xs rc)"
  using assms by (induction xs arbitrary: rc) auto

lemma report_matches_idle:
  "idle (In_Group ts) rc \<Longrightarrow> idle (In_Group ts) (snd (report_matches matches totals rc))"
  unfolding report_matches_def
proof (induction matches arbitrary: totals rc)
  case (Cons m matches)
  then show ?case
    using idle_report [OF Cons.prems, of "Report_noMatchingTestCases (fst m)" "In_Group ts"] by simp
qed simp

lemma execute_reports:
  assumes "\<And>t. reporting_body (bodies t)"
    and "execute next_value bodies here matches tests rc = Some (Inr (totals, rc'))" and "idle In_Run rc"
  shows "idle (Group_Over (map TestCaseInfo.truncate tests)) rc'"
proof -
  let ?rc0 = "testGroupStarting (config_name (m_config rc)) 1 1 rc" and ?ts = "map TestCaseInfo.truncate tests"
  obtain totals1 rc1 where run: "run_tests next_value bodies here tests Totals_zero ?rc0 = Some (Inr (totals1, rc1))"
    using assms(2) by (auto simp: execute_def map_Inr_iff)
  obtain totals2 rc2 where noMatch: "report_matches matches totals1 rc1 = (totals2, rc2)" by fastforce
  let ?rc3 = "fold (\<lambda>a. report (Report_invalidArguments a)) (invalidArgs (cfg_testSpec (m_config rc2))) rc2"
  have "idle (In_Group []) ?rc0" using idle_report [OF assms(3)] by (simp add: testGroupStarting_def)
  from run_tests_reports [OF assms(1) run this] have "idle (In_Group ?ts) rc1" by simp
  then have "idle (In_Group ?ts) rc2" using report_matches_idle [of ?ts rc1 matches totals1] noMatch by simp
  then have "idle (In_Group ?ts) ?rc3"
    by (rule fold_idle [rotated]) (rule idle_report, assumption, simp)
  then have "idle (Group_Over ?ts) (testGroupEnded (config_name (m_config ?rc3)) totals2 1 1 ?rc3)"
    unfolding testGroupEnded_def by (rule idle_report) simp
  then show ?thesis using assms(2) run noMatch by (auto simp: execute_def Let_def)
qed

lemma run_group_reports:
  assumes "\<And>t. reporting_body (bodies t)"
    and "run_group next_value bodies here config reportAll all = Some (Inr (totals, rc))"
  shows "phase_of rc = Some (Run_Over (map TestCaseInfo.truncate (snd (group_tests all config))))"
proof -
  obtain matches tests where group: "group_tests all config = (matches, tests)" by fastforce
  then obtain rc1 where ex: "execute next_value bodies here matches tests (RunContext_new config reportAll) = Some (Inr (totals, rc1))"
    and rc: "rc = RunContext_delete rc1"
    using assms(2) by (auto simp: run_group_def map_Inr_iff)
  have "idle In_Run (RunContext_new config reportAll)"
    by (simp add: idle_def phase_of_def RunContext_new_def)
  from execute_reports [OF assms(1) ex this] show ?thesis
    by (simp add: rc RunContext_delete_def idle_def group)
qed

end
