(* ===== verification/Catch_Test_Run.thy ===== *)
theory Catch_Test_Run
  imports Catch_Report_Protocol
begin

text \<open>
  A whole run of the selected tests: that it ends whatever the assertions do, and what the reporter
  has seen by then.
\<close>

section \<open>The run ends\<close>

text \<open>
  Test cases with the statements \<open>script\<close>: sections next to each other differ in name or location,
  and none is named like the test case.
\<close>

definition runnable :: "('i \<Rightarrow> test_stmt list) \<Rightarrow> 'i TestCase \<Rightarrow> bool" where
  "runnable script t \<longleftrightarrow> distinct_sections (script (tc_test t)) \<and>
     top_section (TestCaseInfo.truncate t) \<notin> set (all_sections (script (tc_test t)))"

definition scripted :: "('g \<Rightarrow> bool \<times> 'g) \<Rightarrow> ('i \<Rightarrow> test_stmt list) \<Rightarrow> 'i \<Rightarrow> 'g test_body" where
  "scripted next_value script i = run_stmts next_value (script i)"

text \<open>All sections may be run, and a section without assertions is no failure.\<close>

definition whole_tests :: "Config \<Rightarrow> bool" where
  "whole_tests config \<longleftrightarrow> sectionsToRun (cfg_data config) = [] \<and> \<not> warnAboutMissingAssertions config"

text \<open>The sections that were started are those that were ended, each as often.\<close>

definition balanced :: "'g RunContext \<Rightarrow> bool" where
  "balanced rc \<longleftrightarrow> mset (started rc) = mset (ended rc)"

lemma balanced_report:
  assumes "case r of Report_sectionStarting i \<Rightarrow> False | Report_sectionEnded i cs m \<Rightarrow> False | _ \<Rightarrow> True"
  shows "balanced (report r rc) = balanced rc"
  using assms by (cases r) (simp_all add: balanced_def started_def ended_def report_def)

lemma balanced_cong: "reports rc' = reports rc \<Longrightarrow> balanced rc' = balanced rc"
  by (simp add: balanced_def started_def ended_def)

lemma run_tests_ends:
  assumes "list_all (runnable script) ts" and "whole_tests (m_config rc)"
    and "m_activeSections rc = []" and "m_unfinishedSections rc = []" and "balanced rc"
  shows "\<exists>totals' rc'. run_tests next_value (scripted next_value script) here ts totals rc = Some (Inr (totals', rc')) \<and>
    balanced rc'"
  using assms
proof (induction ts arbitrary: totals rc)
  case (Cons t ts)
  let ?info = "TestCaseInfo.truncate t"
  show ?case
  proof (cases "aborting rc")
    case True
    then show ?thesis using Cons.IH [of "report (Report_skipTest ?info) rc"] Cons.prems by (simp add: balanced_report)
  next
    case False
    have ok: "distinct_sections (script (tc_test t))" "top_section ?info \<notin> set (all_sections (script (tc_test t)))"
      "sectionsToRun (cfg_data (m_config rc)) = []" "\<not> warnAboutMissingAssertions (m_config rc)"
      using Cons.prems(1,2) by (simp_all add: runnable_def whole_tests_def)
    obtain d rc1 new where "runTest next_value (run_stmts next_value (script (tc_test t))) here ?info rc = Some (Inr (d, rc1))"
      and "mset (started rc1) + mset (ended rc) = mset (started rc) + mset (ended rc1)"
      and "m_config rc1 = m_config rc" "m_activeSections rc1 = []" "m_unfinishedSections rc1 = []"
      by (rule runTest_ends [OF ok Cons.prems(3,4)])
    with Cons.IH [of rc1 "Totals_plus totals d"] Cons.prems False show ?thesis by (simp add: scripted_def balanced_def)
  qed
qed simp

lemma balanced_matches: "balanced (snd (report_matches matches totals rc)) = balanced rc"
proof (induction matches arbitrary: totals rc)
  case (Cons m ms)
  then show ?case by (cases "snd m = []") (simp_all add: report_matches_def balanced_report)
qed (simp add: report_matches_def)

lemma balanced_invalid: "balanced (fold (\<lambda>a. report (Report_invalidArguments a)) as rc) = balanced rc"
  by (induction as arbitrary: rc) (simp_all add: balanced_report)

lemma group_tests_selected: "set (snd (group_tests all config)) \<subseteq> set all"
  by (auto simp: group_tests_def Let_def)

lemma run_group_ends:
  assumes "list_all (runnable script) all" and "whole_tests config"
  shows "\<exists>totals rc. run_group next_value (scripted next_value script) here config reportAll all = Some (Inr (totals, rc)) \<and>
    balanced rc"
proof -
  obtain matches tests where group: "group_tests all config = (matches, tests)" by fastforce
  let ?rc = "testGroupStarting (config_name config) 1 1 (RunContext_new config reportAll)"
  have new: "m_config (RunContext_new config reportAll) = config" by (simp add: RunContext_new_def)
  have "list_all (runnable script) tests"
    using assms(1) group_tests_selected [of all config] group by (auto simp: list_all_iff)
  then obtain totals rc where run: "run_tests next_value (scripted next_value script) here tests Totals_zero ?rc = Some (Inr (totals, rc))"
    and "balanced rc"
    using run_tests_ends [of script tests ?rc next_value here Totals_zero] assms(2)
    by (auto simp: testGroupStarting_def report_def RunContext_new_def balanced_def started_def ended_def)
  obtain totals2 rc2 where matched: "report_matches matches totals rc = (totals2, rc2)" by fastforce
  with balanced_matches [of matches totals rc] \<open>balanced rc\<close> have "balanced rc2" by simp
  then show ?thesis
    by (simp add: run_group_def execute_def group new run matched RunContext_delete_def testGroupEnded_def Let_def
        balanced_report balanced_invalid del: One_nat_def)
qed

lemma scripted_reports: "reporting_body (scripted next_value script i)"
  unfolding scripted_def by (rule run_stmts_reports)

section \<open>Properties\<close>

text \<open>
  C28. A run of the tests ends whatever their assertions do and whatever they throw, and the reporter
  is called in order: run and group start once and end once, each selected test case is announced
  or skipped exactly once in the order of the tests, assertions and sections come inside test
  cases, never more sections are ended than were started, none is left open at the end of its test
  case, and over the run the sections that are ended are those that were started, each as often.
  (In which order nested ones are ended is not stated: after an exception it is the outermost
  first.) The sections of a test case that stand next to each other are told apart by name or
  location, and none has those of the test case (\<open>runnable\<close>); the run is one without \<open>-c\<close>, which
  picks sections, and without \<open>-w NoAssertions\<close> (\<open>whole_tests\<close>).
\<close>

theorem test_run_reported:
  assumes "list_all (runnable script) all" and "whole_tests config"
  shows "\<exists>totals rc. run_group next_value (scripted next_value script) here config reportAll all = Some (Inr (totals, rc)) \<and>
    run_phases Before_Run (reports rc) = Some (Run_Over (map TestCaseInfo.truncate (snd (group_tests all config)))) \<and>
    mset (started rc) = mset (ended rc)"
proof -
  obtain totals rc where run: "run_group next_value (scripted next_value script) here config reportAll all = Some (Inr (totals, rc))"
    and "balanced rc"
    using run_group_ends [OF assms] by blast
  from run_group_reports [OF scripted_reports run(1)] show ?thesis
    using run \<open>balanced rc\<close> by (auto simp: phase_of_def balanced_def)
qed

definition example_config :: Config where
  "example_config = \<lparr>cfg_data = ConfigData_default, cfg_testSpec = \<lparr>filters = [], invalidArgs = []\<rparr>,
     cfg_hasTestFilters = False\<rparr>"

definition example_tests :: "nat TestCase list" where
  "example_tests =
     [TestCaseInfo.extend example_info (TestCase.fields 0),
      TestCaseInfo.extend (example_info\<lparr>tc_name := ''dram''\<rparr>) (TestCase.fields 1)]"

definition example_script :: "nat \<Rightarrow> test_stmt list" where
  "example_script i = (if i = 0 then failing_body else [Throw ''no DRAM''])"

lemma example_runnable: "list_all (runnable example_script) example_tests" "whole_tests example_config"
  by (simp_all add: example_tests_def example_script_def runnable_def failing_body_def example_section_def example_info_def
      top_section_def TestCaseInfo.defs TestCase.defs whole_tests_def example_config_def ConfigData_default_def
      warnAboutMissingAssertions_def WarnNothing_def)

theorem test_run_reported_witness:
  "\<exists>totals rc. run_group (\<lambda>n. (False, n)) (scripted (\<lambda>n. (False, n)) example_script) \<lparr>src_file = ''test.cpp'', src_line = 0\<rparr>
       example_config True example_tests = Some (Inr (totals, rc)) \<and>
     run_phases Before_Run (reports rc) = Some (Run_Over [example_info, example_info\<lparr>tc_name := ''dram''\<rparr>]) \<and>
     mset (started rc) = mset (ended rc)"
proof -
  have "map TestCaseInfo.truncate (snd (group_tests example_tests example_config)) =
      [example_info, example_info\<lparr>tc_name := ''dram''\<rparr>]"
    by (simp add: group_tests_def example_tests_def example_config_def matchesByFilter_def isHidden_def example_info_def
        TestCaseInfo.defs TestCase.defs)
  with test_run_reported [OF example_runnable, of "\<lambda>n. (False, n)" "\<lparr>src_file = ''test.cpp'', src_line = 0\<rparr>" True] show ?thesis
    by simp
qed

end
