(* ===== verification/Catch_Xml_Safety.thy ===== *)
theory Catch_Xml_Safety
  imports Catch_Xml
begin

text \<open>What the encoding of text promises to a reader of the XML file.\<close>

section \<open>One character\<close>

definition harmless :: "char \<Rightarrow> bool" where
  "harmless ch \<longleftrightarrow> ch \<noteq> CHR ''<'' \<and> \<not> of_char ch < (9 :: nat) \<and>
     \<not> ((13 :: nat) < of_char ch \<and> of_char ch < (32 :: nat)) \<and> of_char ch \<noteq> (127 :: nat)"

lemma byte_of_less: "byte_of ch < numeral k \<longleftrightarrow> of_char ch < unat (numeral k :: u32)"
  and byte_of_greater: "numeral k < byte_of ch \<longleftrightarrow> unat (numeral k :: u32) < of_char ch"
  and byte_of_eq: "byte_of ch = numeral k \<longleftrightarrow> of_char ch = unat (numeral k :: u32)"
  and byte_of_le: "numeral k \<le> byte_of ch \<longleftrightarrow> unat (numeral k :: u32) \<le> of_char ch"
proof -
  have "of_char ch < (4294967296 :: nat)" by (rule less_trans [OF nat_of_char_less_256]) simp
  then have unat: "unat (byte_of ch) = of_char ch"
    by (simp add: byte_of_def unat_of_nat)
  show "byte_of ch < numeral k \<longleftrightarrow> of_char ch < unat (numeral k :: u32)"
    unfolding word_less_nat_alt unat ..
  show "numeral k < byte_of ch \<longleftrightarrow> unat (numeral k :: u32) < of_char ch"
    unfolding word_less_nat_alt unat ..
  show "byte_of ch = numeral k \<longleftrightarrow> of_char ch = unat (numeral k :: u32)"
    unfolding word_unat_eq_iff unat ..
  show "numeral k \<le> byte_of ch \<longleftrightarrow> unat (numeral k :: u32) \<le> of_char ch"
    unfolding word_le_nat_alt unat ..
qed

lemmas byte_of_iffs = byte_of_less byte_of_greater byte_of_eq byte_of_le

lemma hex_digit_code: "n < 16 \<Longrightarrow> of_char (hex_digit n) = (if n < 10 then 48 + n else (55 + n :: nat))"
  by (simp add: hex_digit_def of_char_of)

lemma hexEscapeChar_chars:
  assumes "x \<in> set (hexEscapeChar ch)"
  shows "harmless x \<and> x \<noteq> CHR '']'' \<and> x \<noteq> CHR ''>''"
proof -
  let ?n = "of_char ch :: nat"
  have n: "?n < 256" by (rule nat_of_char_less_256)
  consider "x = CHR 0x5C" | "x = CHR ''x''" | m where "x = hex_digit m" "m < 16"
  proof -
    have "?n div 16 < 16" using n by (intro less_mult_imp_div_less) simp
    moreover have "?n mod 16 < 16" by simp
    ultimately have "?n div 16 < 16" "?n mod 16 < 16" .
    then show ?thesis using assms that unfolding hexEscapeChar_def Let_def by auto
  qed
  then show ?thesis
  proof cases
    case 3
    then have code: "of_char x = (if m < 10 then 48 + m else (55 + m :: nat))"
      by (simp add: hex_digit_code)
    have "x \<noteq> CHR ''<''" "x \<noteq> CHR '']''" "x \<noteq> CHR ''>''"
      using code 3(2) by (auto split: if_splits)
    then show ?thesis using code 3(2) by (auto simp: harmless_def split: if_splits)
  qed (simp_all add: harmless_def)
qed

text \<open>
  What is written for one character: the character itself, a longer text without brackets, or a
  sequence of bytes above ASCII.
\<close>

definition quiet_text :: "string \<Rightarrow> bool" where
  "quiet_text t \<longleftrightarrow> t \<noteq> [] \<and> (\<forall>x \<in> set t. harmless x \<and> x \<noteq> CHR '']'' \<and> x \<noteq> CHR ''>'')"

definition closes_cdata :: "string \<Rightarrow> nat \<Rightarrow> bool" where
  "closes_cdata s idx \<longleftrightarrow> 2 \<le> idx \<and> s ! (idx - 1) = CHR '']'' \<and> s ! (idx - 2) = CHR '']''"

lemma quiet_hex: "quiet_text (hexEscapeChar ch)"
  unfolding quiet_text_def using hexEscapeChar_chars by (simp add: hexEscapeChar_def Let_def)

lemma high_byte:
  assumes "0x80 \<le> byte_of x" and "byte_of x \<noteq> 0x7F"
  shows "harmless x \<and> x \<noteq> CHR '']'' \<and> x \<noteq> CHR ''>''"
proof -
  have "128 \<le> (of_char x :: nat)" using assms(1) by (simp add: byte_of_iffs)
  moreover have "x \<noteq> CHR ''<''" "x \<noteq> CHR '']''" "x \<noteq> CHR ''>''" using calculation by auto
  ultimately show ?thesis by (simp add: harmless_def)
qed

lemma continuation_byte: "b AND 0xC0 = (0x80 :: u32) \<Longrightarrow> 0x80 \<le> b"
  by (metis word_and_le2)

lemma decode_rest_high: "fst (decode_rest cs val) \<Longrightarrow> x \<in> set cs \<Longrightarrow> 0x80 \<le> byte_of x"
  by (induction cs val rule: decode_rest.induct)
    (auto simp: split_beta Let_def dest: continuation_byte)

lemma encode_at_lead:
  assumes "idx < length s" and "s ! idx \<notin> {CHR ''<'', CHR ''&'', CHR ''>'', CHR 0x22}"
    and "\<not> byte_of (s ! idx) < 0xC0" and "\<not> 0xF8 \<le> byte_of (s ! idx)"
  shows "encode_at w s idx = Inr (hexEscapeChar (s ! idx), 1) \<or>
    (\<exists>n. encode_at w s idx = Inr (take n (drop idx s), n) \<and> 2 \<le> n \<and> idx + n \<le> length s \<and>
       (\<forall>x \<in> set (take n (drop idx s)). 0x80 \<le> byte_of x))"
proof -
  let ?c = "s ! idx" and ?b = "byte_of (s ! idx)"
  have c: "\<not> (?b < 0x09 \<or> (?b > 0x0D \<and> ?b < 0x20) \<or> ?b = 0x7F)" "\<not> ?b < 0x7F" "0x80 \<le> ?b"
    using assms(3) by (auto simp: byte_of_iffs)
  obtain n hdr where sw: "trailingBytes ?b = Inr n" "headerValue ?b = Inr hdr" "2 \<le> n"
    using lead_byte [OF assms(3,4)] by blast
  let ?cs = "take (n - 1) (drop (idx + 1) s)"
  have eq: "encode_at w s idx =
      (if idx + n - 1 \<ge> length s \<or> bad_encoding (fst (decode_rest ?cs hdr)) (snd (decode_rest ?cs hdr)) n
       then Inr (hexEscapeChar ?c, 1) else Inr (take n (drop idx s), n))"
    using assms(2-4) c sw by (auto simp: encode_at_def Let_def split_beta)
  show ?thesis
  proof (cases "idx + n - 1 \<ge> length s \<or> bad_encoding (fst (decode_rest ?cs hdr)) (snd (decode_rest ?cs hdr)) n")
    case False
    then have valid: "fst (decode_rest ?cs hdr)" by (simp add: bad_encoding_def)
    have "take n (drop idx s) = ?c # ?cs"
      using sw(3) assms(1) by (cases n) (auto simp flip: Cons_nth_drop_Suc)
    then have "\<forall>x \<in> set (take n (drop idx s)). 0x80 \<le> byte_of x"
      using decode_rest_high [OF valid] c(3) by auto
    then show ?thesis using False eq sw(3) assms(1) by auto
  qed (use eq in simp)
qed

lemma encode_at_step:
  assumes "idx < length s"
  obtains out n where "encode_at ForTextNodes s idx = Inr (out, n)" and "1 \<le> n" and "idx + n \<le> length s" and
    "(out = [s ! idx] \<and> n = 1 \<and> harmless (s ! idx) \<and>
        (s ! idx = CHR ''>'' \<longrightarrow> \<not> (2 < idx \<and> closes_cdata s idx))) \<or>
     (quiet_text out \<and> s ! (idx + n - 1) \<noteq> CHR '']'' \<and> s ! idx \<noteq> CHR '']'' \<and> (s ! idx = CHR ''>'' \<longrightarrow> 2 < idx))"
proof -
  let ?c = "s ! idx" and ?b = "byte_of (s ! idx)"
  let ?ok = "\<lambda>out n. (out = [?c] \<and> n = 1 \<and> harmless ?c \<and> (?c = CHR ''>'' \<longrightarrow> \<not> (2 < idx \<and> closes_cdata s idx))) \<or>
     (quiet_text out \<and> s ! (idx + n - 1) \<noteq> CHR '']'' \<and> ?c \<noteq> CHR '']'' \<and> (?c = CHR ''>'' \<longrightarrow> 2 < idx))"
  consider (special) "?c \<in> {CHR ''<'', CHR ''&'', CHR ''>'', CHR 0x22}"
    | (ascii) "?c \<notin> {CHR ''<'', CHR ''&'', CHR ''>'', CHR 0x22}" "?b \<le> 0x7F"
    | (bad) "?c \<notin> {CHR ''<'', CHR ''&'', CHR ''>'', CHR 0x22}" "0x7F < ?b" "?b < 0xC0 \<or> 0xF8 \<le> ?b"
    | (lead) "?c \<notin> {CHR ''<'', CHR ''&'', CHR ''>'', CHR 0x22}" "\<not> ?b < 0xC0" "\<not> 0xF8 \<le> ?b"
    by (metis linorder_not_le)
  then have "\<exists>out n. encode_at ForTextNodes s idx = Inr (out, n) \<and> 1 \<le> n \<and> idx + n \<le> length s \<and> ?ok out n"
  proof cases
    case special
    then show ?thesis using assms
      by (auto simp: encode_at_def Let_def harmless_def quiet_text_def closes_cdata_def)
  next
    case ascii
    have "?c \<noteq> CHR '']''" if "?b < 0x09 \<or> (?b > 0x0D \<and> ?b < 0x20) \<or> ?b = 0x7F"
      using that by (auto simp: byte_of_iffs)
    moreover have "harmless ?c" if "\<not> (?b < 0x09 \<or> (?b > 0x0D \<and> ?b < 0x20) \<or> ?b = 0x7F)"
      using that ascii(1) by (auto simp: byte_of_iffs harmless_def)
    ultimately show ?thesis using assms ascii quiet_hex [of ?c]
      by (auto simp: encode_at_def Let_def)
  next
    case bad
    then have c: "?c \<noteq> CHR '']''" "\<not> (?b < 0x09 \<or> (?b > 0x0D \<and> ?b < 0x20) \<or> ?b = 0x7F)" "\<not> ?b < 0x7F"
      by (auto simp: byte_of_iffs)
    then show ?thesis using assms bad quiet_hex [of ?c]
      by (simp add: encode_at_def Let_def)
  next
    case lead
    then have c: "?c \<noteq> CHR '']''" by (auto simp: byte_of_iffs)
    show ?thesis
    proof (cases "encode_at ForTextNodes s idx = Inr (hexEscapeChar ?c, 1)")
      case True
      then show ?thesis using assms lead(1) c quiet_hex [of ?c] by simp
    next
      case False
      then obtain n where n: "encode_at ForTextNodes s idx = Inr (take n (drop idx s), n)" "2 \<le> n"
          "idx + n \<le> length s" and high: "\<forall>x \<in> set (take n (drop idx s)). 0x80 \<le> byte_of x"
        using encode_at_lead [OF assms lead] by blast
      have quiet: "\<forall>x \<in> set (take n (drop idx s)). harmless x \<and> x \<noteq> CHR '']'' \<and> x \<noteq> CHR ''>''"
        using high high_byte by (fastforce simp: byte_of_iffs)
      moreover have "n - 1 < length (take n (drop idx s))" using n(2,3) by simp
      then have "take n (drop idx s) ! (n - 1) \<in> set (take n (drop idx s))" by (rule nth_mem)
      then have "s ! (idx + n - 1) \<in> set (take n (drop idx s))"
        using n(2) assms by (simp add: Nat.add_diff_assoc)
      ultimately have "quiet_text (take n (drop idx s))" "s ! (idx + n - 1) \<noteq> CHR '']''"
        using assms n(2) by (auto simp: quiet_text_def)
      then have "?ok (take n (drop idx s)) n" using c lead(1) by simp
      then show ?thesis using n by (intro exI [of _ "take n (drop idx s)"] exI [of _ n]) simp
    qed
  qed
  then show thesis using that by blast
qed

section \<open>The whole text\<close>

text \<open>\<open>cdata k t\<close>: some \<open>]]>\<close> ends in \<open>t\<close>, after a text that ends in \<open>k\<close> closing brackets.\<close>

fun cdata :: "nat \<Rightarrow> string \<Rightarrow> bool" where
  "cdata k [] = False"
| "cdata k (ch # cs) =
     (if ch = CHR ''>'' then 2 \<le> k \<or> cdata 0 cs
      else if ch = CHR '']'' then cdata (k + 1) cs else cdata 0 cs)"

lemma startsWith_simps [simp]:
  "startsWith s []" "\<not> startsWith [] (y # ys)" "startsWith (x # xs) (y # ys) \<longleftrightarrow> x = y \<and> startsWith xs ys"
  by (auto simp: startsWith_iff)

lemma contains_Cons: "contains (x # xs) t \<longleftrightarrow> startsWith (x # xs) t \<or> contains xs t"
  unfolding contains_iff startsWith_iff by (metis append_Cons append_Nil list.exhaust list.inject)

lemma cdata_iff: "cdata k t \<longleftrightarrow>
    (2 \<le> k \<and> startsWith t ''>'') \<or> (1 \<le> k \<and> startsWith t '']>'') \<or> contains t '']]>''"
proof (induction k t rule: cdata.induct)
  case (1 k)
  show ?case by (simp add: contains_iff)
next
  case (2 k ch cs)
  then show ?case by (cases "ch = CHR ''>''"; cases "ch = CHR '']''") (auto simp: contains_Cons)
qed

lemma cdata_quiet: "\<forall>x \<in> set t. x \<noteq> CHR '']'' \<and> x \<noteq> CHR ''>'' \<Longrightarrow> t \<noteq> [] \<Longrightarrow> cdata k (t @ r) = cdata 0 r"
  by (induction t arbitrary: k) (metis append_Cons append_Nil cdata.simps(2) list.set_intros neq_Nil_conv | simp)+

lemma starts_close: "startsWith s '']]>'' \<longleftrightarrow> closes_cdata s 2 \<and> 2 < length s \<and> s ! 2 = CHR ''>''"
  by (cases s; cases "tl s"; cases "tl (tl s)") (auto simp: startsWith_iff closes_cdata_def)

text \<open>From the third character on, each \<open>]]>\<close> is broken up; only one that starts the text is not.\<close>

lemma encode_from_safe:
  assumes "(2 \<le> k) = closes_cdata s idx" and "(1 \<le> k) = (1 \<le> idx \<and> s ! (idx - 1) = CHR '']'')"
    and "idx \<le> length s"
  shows "\<exists>out. encode_from ForTextNodes s idx = Inr out \<and> (\<forall>x \<in> set out. harmless x) \<and>
    cdata k out = (idx \<le> 2 \<and> startsWith s '']]>'')"
  using assms
proof (induction "length s - idx" arbitrary: idx k rule: less_induct)
  case less
  show ?case
  proof (cases "idx < length s")
    case False
    then show ?thesis
      by (auto simp: encode_from.simps [of _ s idx] starts_close)
  next
    case True
    obtain out n where at: "encode_at ForTextNodes s idx = Inr (out, n)" "1 \<le> n" "idx + n \<le> length s" and
      kinds: "(out = [s ! idx] \<and> n = 1 \<and> harmless (s ! idx) \<and>
          (s ! idx = CHR ''>'' \<longrightarrow> \<not> (2 < idx \<and> closes_cdata s idx))) \<or>
        (quiet_text out \<and> s ! (idx + n - 1) \<noteq> CHR '']'' \<and> s ! idx \<noteq> CHR '']'' \<and> (s ! idx = CHR ''>'' \<longrightarrow> 2 < idx))"
      using encode_at_step [OF True] by metis
    define k' where "k' = (if s ! (idx + n - 1) = CHR '']'' then k + 1 else 0)"
    have "\<exists>rest. encode_from ForTextNodes s (idx + n) = Inr rest \<and> (\<forall>x \<in> set rest. harmless x) \<and>
        cdata k' rest = (idx + n \<le> 2 \<and> startsWith s '']]>'')"
    proof (rule less.hyps)
      show "length s - (idx + n) < length s - idx" using True at(2) by simp
      show "(1 \<le> k') = (1 \<le> idx + n \<and> s ! (idx + n - 1) = CHR '']'')" using at(2) by (simp add: k'_def)
      show "idx + n \<le> length s" by (rule at(3))
      show "(2 \<le> k') = closes_cdata s (idx + n)"
        using kinds less.prems(2) at(2) by (auto simp: k'_def closes_cdata_def)
    qed
    then obtain rest where rest: "encode_from ForTextNodes s (idx + n) = Inr rest" "\<forall>x \<in> set rest. harmless x"
      "cdata k' rest = (idx + n \<le> 2 \<and> startsWith s '']]>'')" by blast
    have enc: "encode_from ForTextNodes s idx = Inr (out @ rest)"
      using True at rest(1) by (simp add: encode_from.simps [of _ s idx] max_def)
    have "cdata k (out @ rest) = (idx \<le> 2 \<and> startsWith s '']]>'')"
    proof (cases "quiet_text out \<and> s ! (idx + n - 1) \<noteq> CHR '']'' \<and> s ! idx \<noteq> CHR '']'' \<and> (s ! idx = CHR ''>'' \<longrightarrow> 2 < idx)")
      case True
      then have "cdata k (out @ rest) = cdata 0 rest" by (intro cdata_quiet) (auto simp: quiet_text_def)
      moreover have "\<not> (idx \<le> 2 \<and> startsWith s '']]>'')"
        using True by (cases "idx = 0"; cases "idx = 1"; cases "idx = 2") (auto simp: starts_close closes_cdata_def)
      ultimately show ?thesis using True rest(3) at(2) by (auto simp: k'_def)
    next
      case False
      then have one: "out = [s ! idx]" "n = 1" "s ! idx = CHR ''>'' \<longrightarrow> \<not> (2 < idx \<and> closes_cdata s idx)"
        using kinds by auto
      have "idx + 1 \<le> 2 \<and> startsWith s '']]>'' \<longleftrightarrow> idx \<le> 2 \<and> startsWith s '']]>'' \<and> \<not> (s ! idx = CHR ''>'' \<and> closes_cdata s idx)"
        by (cases "idx = 0"; cases "idx = 1"; cases "idx = 2") (auto simp: starts_close closes_cdata_def)
      moreover have "s ! idx = CHR ''>'' \<and> closes_cdata s idx \<Longrightarrow> idx = 2 \<and> startsWith s '']]>''"
        using one(3) True by (auto simp: starts_close closes_cdata_def)
      ultimately show ?thesis using one rest(3) less.prems(1) by (auto simp: k'_def)
    qed
    moreover have "\<forall>x \<in> set (out @ rest). harmless x"
      using kinds rest(2) by (auto simp: quiet_text_def)
    ultimately show ?thesis using enc by simp
  qed
qed

text \<open>
  The encoder accepts every text, malformed UTF-8 included: it never throws, and what it writes
  into a text node holds no \<open><\<close> and no control character other than white space. It also holds
  no \<open>]]>\<close>, which XML forbids there, with one exception: when the text itself begins with
  \<open>]]>\<close>, whose \<open>>\<close> at index 2 the test \<open>idx > 2\<close> does not cover.
\<close>

theorem text_node_is_safe:
  "\<exists>out. encodeTo ForTextNodes s = Inr out \<and> list_all harmless out \<and>
    contains out '']]>'' = startsWith s '']]>''"
  using encode_from_safe [of 0 s 0]
  by (auto simp: encodeTo_def closes_cdata_def cdata_iff list_all_iff)

end
