(* ===== verification/Catch_Xml_Layout.thy ===== *)
theory Catch_Xml_Layout
  imports Catch_Xml_Writer Catch_Xml_Safety
begin

text \<open>
  The file an \<open>XmlWriter\<close> produces for a document, against a layout by recursion on the
  document.
\<close>

section \<open>Documents\<close>

datatype xml =
    Element string "(string \<times> string) list" "xml list"
  | Text string

fun write_attributes :: "(string \<times> string) list \<Rightarrow> XmlWriter \<Rightarrow> catch_error + XmlWriter" where
  "write_attributes [] w = Inr w"
| "write_attributes ((nm, v) # as) w =
     (case writeAttribute nm v w of Inl e \<Rightarrow> Inl e | Inr w' \<Rightarrow> write_attributes as w')"

fun write_nodes :: "xml list \<Rightarrow> XmlWriter \<Rightarrow> catch_error + XmlWriter" where
  "write_nodes [] w = Inr w"
| "write_nodes (Text t # xs) w =
     (case writeText t default_format w of Inl e \<Rightarrow> Inl e | Inr w' \<Rightarrow> write_nodes xs w')"
| "write_nodes (Element nm as ks # xs) w =
     (case scopedElement nm default_format
             (\<lambda>w. case write_attributes as w of Inl e \<Rightarrow> Inl e | Inr w' \<Rightarrow> write_nodes ks w') w of
        Inl e \<Rightarrow> Inl e
      | Inr w' \<Rightarrow> write_nodes xs w')"

definition write_document :: "xml \<Rightarrow> catch_error + XmlWriter" where
  "write_document x =
     (case write_nodes [x] XmlWriter_new of Inl e \<Rightarrow> Inl e | Inr w \<Rightarrow> XmlWriter_delete w)"

section \<open>The layout\<close>

definition encoded :: "ForWhat \<Rightarrow> string \<Rightarrow> string" where
  "encoded f s = (case encodeTo f s of Inl e \<Rightarrow> '''' | Inr t \<Rightarrow> t)"

definition attributes_text :: "(string \<times> string) list \<Rightarrow> string" where
  "attributes_text as = concat (map (\<lambda>(nm, v). if nm = '''' \<or> v = '''' then ''''
     else '' '' @ nm @ ''='' @ [CHR 0x22] @ encoded ForAttributes v @ [CHR 0x22]) as)"

definition spaces :: "nat \<Rightarrow> string" where
  "spaces d = replicate (2 * d) CHR '' ''"

fun silent :: "xml list \<Rightarrow> bool" where
  "silent [] = True"
| "silent (Text t # xs) = (t = '''' \<and> silent xs)"
| "silent (Element nm as ks # xs) = False"

text \<open>The content of an element \<open>d\<close> levels down; \<open>first\<close>: directly after its start tag.\<close>

fun layout :: "nat \<Rightarrow> bool \<Rightarrow> xml list \<Rightarrow> string" where
  "layout d first [] = ''''"
| "layout d first (Text t # xs) =
     (if t = '''' then layout d first xs
      else (if first then [CHR 0x0A] @ spaces d else '''') @ encoded ForTextNodes t @ layout d False xs)"
| "layout d first (Element nm as ks # xs) =
     [CHR 0x0A] @ spaces d @ ''<'' @ nm @ attributes_text as @
     (if silent ks then ''/>''
      else ''>'' @ layout (d + 1) True ks @ [CHR 0x0A] @ spaces d @ ''</'' @ nm @ ''>'') @
     layout d False xs"

section \<open>Writing\<close>

lemma encode_at_ok: "idx < length s \<Longrightarrow> \<exists>out n. encode_at f s idx = Inr (out, n)"
proof (cases "s ! idx \<in> {CHR ''<'', CHR ''&'', CHR ''>'', CHR 0x22} \<or>
    byte_of (s ! idx) < 0xC0 \<or> 0xF8 \<le> byte_of (s ! idx)")
  case True
  then show ?thesis by (auto simp: encode_at_def Let_def)
next
  case False
  assume "idx < length s"
  from encode_at_lead [OF this, of f] False show ?thesis by blast
qed

lemma encode_ok: "encodeTo f s = Inr (encoded f s)"
proof -
  have "\<exists>out. encode_from f s idx = Inr out" for idx
  proof (induction "length s - idx" arbitrary: idx rule: less_induct)
    case less
    show ?case
    proof (cases "idx < length s")
      case True
      then obtain out n where at: "encode_at f s idx = Inr (out, n)" using encode_at_ok by blast
      have "1 \<le> max 1 n" by simp
      then have "length s - (idx + max 1 n) < length s - idx" using True by linarith
      then obtain rest where "encode_from f s (idx + max 1 n) = Inr rest" using less by blast
      then show ?thesis using True at by (simp add: encode_from.simps [of f s idx])
    qed (simp add: encode_from.simps [of f s idx])
  qed
  then obtain out where "encodeTo f s = Inr out" unfolding encodeTo_def by blast
  then show ?thesis by (simp add: encoded_def)
qed

lemma default_format [simp]: "shouldNewline default_format" "shouldIndent default_format"
  by (simp_all add: shouldNewline_def shouldIndent_def default_format_def Newline_def Indent_def)

lemma spaces_Suc [simp]: "spaces (Suc d) = spaces d @ ''  ''"
  using replicate_add [of "2 * d" 2 "CHR '' ''"] by (simp add: spaces_def numeral_2_eq_2)

lemma outdent_spaces [simp]: "outdent (spaces d @ ''  '') = spaces d"
  by (simp add: outdent_def)

text \<open>A writer between two calls, \<open>d\<close> levels down, with default formatting.\<close>

definition between :: "nat \<Rightarrow> bool \<Rightarrow> string list \<Rightarrow> string \<Rightarrow> XmlWriter \<Rightarrow> bool" where
  "between d open tags out w \<longleftrightarrow> m_tagIsOpen w = open \<and> m_needsNewline w \<and> m_tags w = tags \<and>
     m_indent w = spaces d \<and> m_os w = out"

lemma write_attributes_out:
  "between d True tags out w \<Longrightarrow>
    \<exists>w'. write_attributes as w = Inr w' \<and> between d True tags (out @ attributes_text as) w'"
proof (induction as arbitrary: w out)
  case (Cons a as)
  obtain nm v where a: "a = (nm, v)" by fastforce
  let ?t = "if nm = '''' \<or> v = '''' then '''' else '' '' @ nm @ ''='' @ [CHR 0x22] @ encoded ForAttributes v @ [CHR 0x22]"
  have "\<exists>w1. writeAttribute nm v w = Inr w1 \<and> between d True tags (out @ ?t) w1"
    using Cons.prems by (auto simp: writeAttribute_def encode_ok put_attribute_def put_def between_def)
  then obtain w1 where "writeAttribute nm v w = Inr w1" "between d True tags (out @ ?t) w1" by blast
  with Cons.IH [of "out @ ?t" w1] show ?case by (auto simp: a attributes_text_def)
qed (auto simp: attributes_text_def)

lemma startElement_out:
  "between d open tags out w \<Longrightarrow>
    between (d + 1) True (tags @ [nm]) (out @ (if open then ''>'' else '''') @ [CHR 0x0A] @ spaces d @ ''<'' @ nm)
      (startElement nm default_format w)"
  by (simp add: between_def startElement_def ensureTagClosed_def newlineIfNecessary_def put_def
      applyFormatting_def Let_def)

lemma endElement_out:
  assumes "between (d + 1) open (tags @ [nm]) out w"
  shows "\<exists>w'. endElement default_format w = Inr w' \<and>
    between d False tags (out @ (if open then ''/>'' else [CHR 0x0A] @ spaces d @ ''</'' @ nm @ ''>'')) w'"
  using assms
  by (simp add: between_def endElement_def newlineIfNecessary_def put_def applyFormatting_def Let_def)

lemma writeText_out:
  assumes "between d open tags out w"
  shows "\<exists>w'. writeText t default_format w = Inr w' \<and>
    between d (open \<and> t = '''') tags (out @ (if t = '''' then '''' else
      (if open then ''>'' @ [CHR 0x0A] @ spaces d else '''') @ encoded ForTextNodes t)) w'"
  using assms
  by (simp add: between_def writeText_def ensureTagClosed_def newlineIfNecessary_def put_def
      applyFormatting_def Let_def encode_ok)

lemma write_nodes_out:
  "between d open tags out w \<Longrightarrow> \<exists>w'. write_nodes xs w = Inr w' \<and>
    between d (open \<and> silent xs) tags (out @ (if open \<and> \<not> silent xs then ''>'' else '''') @ layout d open xs) w'"
proof (induction xs w arbitrary: d "open" tags out rule: write_nodes.induct)
  case (2 t xs w)
  obtain w1 where "writeText t default_format w = Inr w1"
    and "between d (open \<and> t = '''') tags (out @ (if t = '''' then '''' else
      (if open then ''>'' @ [CHR 0x0A] @ spaces d else '''') @ encoded ForTextNodes t)) w1"
    using writeText_out [OF "2.prems"] by blast
  with "2.IH" [OF this] show ?case by (cases "t = ''''") auto
next
  case (3 nm as ks xs w)
  let ?start = "out @ (if open then ''>'' else '''') @ [CHR 0x0A] @ spaces d @ ''<'' @ nm @ attributes_text as"
  obtain w1 where attrs: "write_attributes as (startElement nm default_format w) = Inr w1"
    and 1: "between (d + 1) True (tags @ [nm]) ?start w1"
    using write_attributes_out [OF startElement_out [OF "3.prems", of nm], of as] by auto
  obtain w2 where kids: "write_nodes ks w1 = Inr w2"
    and 2: "between (d + 1) (silent ks) (tags @ [nm])
      (?start @ (if \<not> silent ks then ''>'' else '''') @ layout (d + 1) True ks) w2"
    using "3.IH"(1) [OF attrs 1] by auto
  obtain w3 where "endElement default_format w2 = Inr w3"
    and 3: "between d False tags ((?start @ (if \<not> silent ks then ''>'' else '''') @ layout (d + 1) True ks) @
      (if silent ks then ''/>'' else [CHR 0x0A] @ spaces d @ ''</'' @ nm @ ''>'')) w3"
    using endElement_out [OF 2] by blast
  then have scoped: "scopedElement nm default_format
      (\<lambda>w. case write_attributes as w of Inl e \<Rightarrow> Inl e | Inr w' \<Rightarrow> write_nodes ks w') w = Inr w3"
    using attrs kids by (simp add: scopedElement_def)
  then have "write_nodes (Element nm as ks # xs) w = write_nodes xs w3" by simp
  moreover have "layout (d + 1) True ks = ''''" if "silent ks" using that by (induction ks rule: silent.induct) auto
  ultimately show ?case using "3.IH"(2) [OF scoped 3] by (cases "silent ks") auto
qed auto

definition xml_declaration :: string where
  "xml_declaration = ''<?xml version='' @ [CHR 0x22] @ ''1.0'' @ [CHR 0x22] @ '' encoding='' @ [CHR 0x22] @ ''UTF-8'' @
     [CHR 0x22] @ ''?>''"

text \<open>
  C40. The file an \<open>XmlWriter\<close> leaves for a document is its declaration, the document laid
  out by recursion (each element on a line of its own, indented by its depth, its end tag with its
  own name on the line after its content, or \<open>/>\<close> when it has none), and a final line end: the
  start tags that are closed late and the line ends that are held back come out in the right
  places, and no call fails.
\<close>

theorem writer_lays_out:
  "map_sum id m_os (write_document (Element nm as ks)) =
    Inr (xml_declaration @ layout 0 False [Element nm as ks] @ [CHR 0x0A])"
proof -
  let ?w = "XmlWriter_new\<lparr>m_needsNewline := True, m_os := xml_declaration\<rparr>"
  have "startElement nm default_format XmlWriter_new = startElement nm default_format ?w"
    by (simp add: startElement_def ensureTagClosed_def newlineIfNecessary_def put_def Let_def
        XmlWriter_new_def writeDeclaration_def xml_declaration_def)
  then have "write_nodes [Element nm as ks] XmlWriter_new = write_nodes [Element nm as ks] ?w"
    by (simp add: scopedElement_def)
  moreover have "between 0 False [] xml_declaration ?w"
    by (simp add: between_def XmlWriter_new_def writeDeclaration_def put_def spaces_def)
  from write_nodes_out [OF this, of "[Element nm as ks]"] obtain w' where
    "write_nodes [Element nm as ks] ?w = Inr w'" "between 0 False [] (xml_declaration @ layout 0 False [Element nm as ks]) w'"
    by auto
  ultimately show ?thesis
    by (simp add: write_document_def XmlWriter_delete.simps between_def newlineIfNecessary_def put_def
        del: layout.simps)
qed

end
