(* ===== verification/Catch_Xml_Report.thy ===== *)
theory Catch_Xml_Report
  imports Catch_Xml_Reporter Catch_Test_Run Catch_Xml_Layout
begin

text \<open>
  The elements of the XML report against the phases of a run: in each phase the same elements are
  open, and once the run is over none is.
\<close>

section \<open>Open elements\<close>

text \<open>\<open>leads fs ts ts'\<close>: with the elements \<open>ts\<close> open the actions succeed and leave \<open>ts'\<close> open.\<close>

definition leads :: "xml_action list \<Rightarrow> string list \<Rightarrow> string list \<Rightarrow> bool" where
  "leads fs ts ts' \<longleftrightarrow> (\<forall>w. m_tags w = ts \<longrightarrow> (\<exists>w'. xml_do fs w = Inr w' \<and> m_tags w' = ts'))"

named_theorems xml_tags

lemma leads_Nil [xml_tags]: "leads [] ts ts"
  by (simp add: leads_def)

lemma xml_do_append: "xml_do (fs @ gs) w = (case xml_do fs w of Inl e \<Rightarrow> Inl e | Inr w' \<Rightarrow> xml_do gs w')"
  by (induction fs arbitrary: w) (auto split: sum.splits)

lemma leads_append:
  assumes "leads fs ts ts1" and "leads gs ts1 ts2"
  shows "leads (fs @ gs) ts ts2"
  unfolding leads_def
proof (intro allI impI)
  fix w :: XmlWriter assume "m_tags w = ts"
  then obtain w1 where one: "xml_do fs w = Inr w1" "m_tags w1 = ts1" using assms(1) unfolding leads_def by blast
  then obtain w2 where "xml_do gs w1 = Inr w2" "m_tags w2 = ts2" using assms(2) unfolding leads_def by blast
  then show "\<exists>w'. xml_do (fs @ gs) w = Inr w' \<and> m_tags w' = ts2" using one by (simp add: xml_do_append)
qed

lemma leads_Cons: "leads [f] ts ts1 \<Longrightarrow> leads fs ts1 ts2 \<Longrightarrow> leads (f # fs) ts ts2"
  using leads_append [of "[f]"] by simp

lemma put_tags [simp]: "m_tags (put s w) = m_tags w"
  by (simp add: put_def)

lemma ensureTagClosed_tags [simp]: "m_tags (ensureTagClosed w) = m_tags w"
  by (simp add: ensureTagClosed_def newlineIfNecessary_def)

lemma leads_attribute [xml_tags]: "leads [writeAttribute nm v] ts ts"
  by (simp add: leads_def writeAttribute_def encode_ok put_attribute_def)

lemma leads_number [xml_tags]: "leads [xml_number nm n] ts ts"
  unfolding xml_number_def by (rule leads_attribute)

lemma leads_flag [xml_tags]: "leads [xml_flag nm b] ts ts"
  by (simp add: leads_def xml_flag_def writeAttribute_bool_def put_attribute_def)

lemma leads_close_tag [xml_tags]: "leads [xml_close_tag] ts ts"
  by (simp add: leads_def xml_close_tag_def)

lemma leads_text [xml_tags]: "leads [writeText t fmt] ts ts"
  by (simp add: leads_def writeText_def encode_ok applyFormatting_def Let_def)

lemma leads_stylesheet [xml_tags]: "leads [\<lambda>w. Inr (writeStylesheetRef url w)] ts ts"
  by (simp add: leads_def writeStylesheetRef_def)

lemma leads_start [xml_tags]: "leads [xml_start nm] ts (ts @ [nm])"
  by (simp add: leads_def xml_start_def startElement_def applyFormatting_def newlineIfNecessary_def Let_def)

lemma leads_end [xml_tags]: "leads [endElement fmt] (ts @ [nm]) ts"
  by (simp add: leads_def endElement_def applyFormatting_def newlineIfNecessary_def Let_def)

lemma xml_scoped_do: "xml_do [xml_scoped nm fs] = xml_do (xml_start nm # fs @ [endElement default_format])"
proof
  show "xml_do [xml_scoped nm fs] w = xml_do (xml_start nm # fs @ [endElement default_format]) w" for w
    by (cases "xml_do fs (startElement nm default_format w)")
      (simp_all add: xml_scoped_def scopedElement_def xml_start_def xml_do_append)
qed

lemma leads_scoped:
  assumes "leads fs (ts @ [nm]) (ts' @ [nm'])"
  shows "leads [xml_scoped nm fs] ts ts'"
proof -
  have "leads (xml_start nm # fs @ [endElement default_format]) ts ts'"
    by (intro leads_Cons [OF leads_start] leads_append [OF assms leads_end])
  then show ?thesis by (simp only: leads_def xml_scoped_do)
qed

lemma leads_when: "(b \<Longrightarrow> leads fs ts ts') \<Longrightarrow> (\<not> b \<Longrightarrow> ts = ts') \<Longrightarrow> leads (xml_when b fs) ts ts'"
  by (simp add: xml_when_def leads_Nil)

lemma leads_when_same: "leads fs ts ts \<Longrightarrow> leads (xml_when b fs) ts ts"
  by (rule leads_when) simp_all

text \<open>Actions that leave the elements alone.\<close>

definition neutral :: "xml_action list \<Rightarrow> bool" where
  "neutral fs \<longleftrightarrow> (\<forall>ts. leads fs ts ts)"

lemma neutral_leads: "neutral fs \<Longrightarrow> leads fs ts ts"
  by (simp add: neutral_def)

lemma neutral_simps [simp]:
  "neutral []" "neutral [writeAttribute nm v]" "neutral [xml_number nm n]" "neutral [xml_flag nm b]"
  "neutral [xml_close_tag]" "neutral [writeText t fmt]" "neutral [\<lambda>w. Inr (writeStylesheetRef url w)]"
  by (simp_all add: neutral_def xml_tags)

lemma neutral_append: "neutral fs \<Longrightarrow> neutral gs \<Longrightarrow> neutral (fs @ gs)"
  unfolding neutral_def using leads_append by blast

lemma neutral_Cons: "neutral [f] \<Longrightarrow> neutral fs \<Longrightarrow> neutral (f # fs)"
  unfolding neutral_def using leads_Cons by blast

lemma neutral_Cons2 [simp]: "neutral [f] \<Longrightarrow> neutral (g # fs) \<Longrightarrow> neutral (f # g # fs)"
  by (rule neutral_Cons)

lemma neutral_concat: "(\<And>fs. fs \<in> set fss \<Longrightarrow> neutral fs) \<Longrightarrow> neutral (concat fss)"
  by (induction fss) (auto intro: neutral_append)

lemma neutral_when: "neutral fs \<Longrightarrow> neutral (xml_when b fs)"
  by (simp add: xml_when_def)

lemma neutral_scoped: "neutral fs \<Longrightarrow> neutral [xml_scoped nm fs]"
  unfolding neutral_def using leads_scoped by blast

lemma neutral_element: "neutral fs \<Longrightarrow> neutral (xml_start nm # fs @ [endElement fmt])"
  unfolding neutral_def by (blast intro: leads_Cons leads_append leads_start leads_end)

lemmas neutral_intros = neutral_append neutral_when neutral_scoped

lemma neutral_source [simp]: "neutral (writeSourceInfo loc)" and neutral_counts [simp]: "neutral (counts_attributes cs)"
  by (simp_all add: writeSourceInfo_def counts_attributes_def neutral_Cons)

lemma neutral_text [simp]: "neutral [xml_text_element nm t fmt]"
  by (simp add: xml_text_element_def neutral_scoped)

lemma neutral_info [simp]: "neutral (xml_info b msg)"
  by (simp add: xml_info_def)

lemma neutral_result_element: "neutral (xml_result_element nm result)"
  using neutral_element [OF neutral_append [OF neutral_source neutral_simps(6)]] by (simp add: xml_result_element_def)

lemma neutral_result [simp]: "neutral (xml_result result)"
  by (simp add: xml_result_def neutral_result_element split: ResultWas.split)

section \<open>The phases\<close>

text \<open>The elements that are open in a phase, and how many sections.\<close>

fun sections_in :: "phase \<Rightarrow> nat" where
  "sections_in (In_Case ts d) = d"
| "sections_in _ = 0"

fun open_elements :: "phase \<Rightarrow> string list" where
  "open_elements Before_Run = []"
| "open_elements In_Run = [''Catch'']"
| "open_elements (In_Group ts) = [''Catch'', ''Group'']"
| "open_elements (Case_Opened ts) = [''Catch'', ''Group'', ''TestCase'']"
| "open_elements (In_Case ts d) = [''Catch'', ''Group'', ''TestCase''] @ replicate (d - 1) ''Section''"
| "open_elements (Group_Over ts) = [''Catch'']"
| "open_elements (Run_Over ts) = []"

definition tells :: "phase \<Rightarrow> XmlReporter \<Rightarrow> bool" where
  "tells p x \<longleftrightarrow> m_tags (m_xml x) = open_elements p \<and> m_sectionDepth x = int (sections_in p) \<and>
     length (m_sectionStack x) = sections_in p"

lemma on_xml_tells:
  assumes "leads fs (m_tags (m_xml x)) (open_elements q)"
    and "m_sectionDepth x = int (sections_in q)" and "length (m_sectionStack x) = sections_in q"
  shows "\<exists>x'. on_xml fs x = Inr x' \<and> tells q x'"
proof -
  obtain w' where "xml_do fs (m_xml x) = Inr w'" "m_tags w' = open_elements q"
    using assms(1) by (auto simp: leads_def)
  then show ?thesis using assms(2,3) by (simp add: on_xml_def tells_def)
qed

lemma leads_overall_results: "leads (overall_results totals) (ts @ [nm]) ts"
proof -
  have "leads ([xml_scoped ''OverallResults'' (counts_attributes (assertions totals))] @
      [xml_scoped ''OverallResultsCases'' (counts_attributes (testCases totals))] @ [endElement default_format]) (ts @ [nm]) ts"
    by (intro leads_append [where ?ts1.0 = "ts @ [nm]"] neutral_leads neutral_scoped leads_end) simp_all
  then show ?thesis by (simp add: overall_results_def)
qed

lemma leads_opened: "neutral fs \<Longrightarrow> leads (xml_start nm # fs) ts (ts @ [nm])"
  by (rule leads_Cons [OF leads_start]) (rule neutral_leads)

lemma leads_opened_append: "neutral fs \<Longrightarrow> neutral gs \<Longrightarrow> leads ((xml_start nm # fs) @ gs) ts (ts @ [nm])"
  by (rule leads_append [OF leads_opened neutral_leads])

text \<open>The results of a section or test case: its own element, the second last one, is ended.\<close>

lemma leads_results: "neutral fs \<Longrightarrow> leads [xml_scoped nm (fs @ [endElement fmt])] (ts @ [nm']) ts"
  by (intro leads_scoped [where nm' = nm'] leads_append [OF neutral_leads leads_end]) simp

section \<open>Each call in turn\<close>

lemma tells_testRunStarting: "tells Before_Run x \<Longrightarrow> \<exists>x'. xml_testRunStarting nm x = Inr x' \<and> tells In_Run x'"
  unfolding xml_testRunStarting_def Let_def getStylesheetRef_def
  by (rule on_xml_tells)
    (auto simp: tells_def base_testRunStarting_def xml_when_def [where b = False]
      intro!: leads_opened [where ts = "[]", simplified] neutral_intros)

lemma tells_testGroupStarting: "tells In_Run x \<Longrightarrow> \<exists>x'. xml_testGroupStarting g x = Inr x' \<and> tells (In_Group ts) x'"
  unfolding xml_testGroupStarting_def
  by (rule on_xml_tells)
    (auto simp: tells_def base_testGroupStarting_def intro!: leads_opened [where ts = "[_]", simplified])

lemma tells_testCaseStarting:
  assumes "tells (In_Group ts) x"
  shows "\<exists>x'. xml_testCaseStarting t x = Inr x' \<and> tells (Case_Opened us) x'"
proof -
  have "leads ([xml_start ''TestCase'', writeAttribute ''name'' (trim (tc_name t)),
         writeAttribute ''description'' (description t), writeAttribute ''tags'' (tagsAsString t)] @
         writeSourceInfo (lineInfo t) @ [xml_close_tag]) vs (vs @ [''TestCase''])" for vs
    by (intro leads_opened_append neutral_append) simp_all
  from this [of "[''Catch'', ''Group'']"] show ?thesis
    unfolding xml_testCaseStarting_def
    by (intro on_xml_tells) (use assms in \<open>auto simp: tells_def base_testCaseStarting_def\<close>)
qed

lemma tells_testGroupEnded:
  "tells (In_Group ts) x \<Longrightarrow> \<exists>x'. xml_testGroupEnded tot x = Inr x' \<and> tells (Group_Over ts) x'"
  unfolding xml_testGroupEnded_def
  by (rule on_xml_tells)
    (auto simp: tells_def base_testGroupEnded_def intro!: leads_overall_results [where ts = "[_]", simplified])

lemma tells_testRunEnded:
  "tells (Group_Over ts) x \<Longrightarrow> \<exists>x'. xml_testRunEnded tot x = Inr x' \<and> tells (Run_Over ts) x'"
  unfolding xml_testRunEnded_def
  by (rule on_xml_tells)
    (auto simp: tells_def base_testRunEnded_def intro!: leads_overall_results [where ts = "[]", simplified])

lemma tells_sectionStarting:
  assumes "tells (In_Case ts d) x"
  shows "\<exists>x'. xml_sectionStarting i x = Inr x' \<and> tells (In_Case ts (Suc d)) x'"
  unfolding xml_sectionStarting_def Let_def
proof (rule on_xml_tells)
  let ?fs = "[xml_start ''Section'', writeAttribute ''name'' (trim (sec_name i))] @ writeSourceInfo (sec_lineInfo i) @ [xml_close_tag]"
  have fs: "leads ?fs us (us @ [''Section''])" for us
    by (intro leads_opened_append neutral_append) simp_all
  have depth: "m_sectionDepth x = int d" and tags: "m_tags (m_xml x) = open_elements (In_Case ts d)"
    using assms by (simp_all add: tells_def)
  show "leads (xml_when (m_sectionDepth (base_sectionStarting i x) > 0) ?fs)
      (m_tags (m_xml ((base_sectionStarting i x)\<lparr>m_sectionDepth := m_sectionDepth (base_sectionStarting i x) + 1\<rparr>)))
      (open_elements (In_Case ts (Suc d)))"
    using fs [of "open_elements (In_Case ts d)"] depth tags
    by (cases d) (auto simp: base_sectionStarting_def xml_when_def leads_Nil replicate_append_same)
qed (use assms in \<open>auto simp: tells_def base_sectionStarting_def\<close>)

lemma tells_sectionEnded:
  assumes "tells (In_Case ts (Suc d)) x"
  shows "\<exists>x'. xml_sectionEnded stats x = Inr x' \<and> tells (In_Case ts d) x'"
proof -
  have st: "m_sectionStack x \<noteq> []" "length (m_sectionStack x) = Suc d" "m_sectionDepth x = int (Suc d)"
    and tags: "m_tags (m_xml x) = open_elements (In_Case ts (Suc d))"
    using assms by (auto simp: tells_def)
  let ?x = "x\<lparr>m_sectionStack := butlast (m_sectionStack x)\<rparr>"
  let ?fs = "xml_when (m_sectionDepth ?x - 1 > 0)
      [xml_scoped ''OverallResults'' (counts_attributes (ss_assertions stats) @
         xml_when (alwaysShowDurations (reporter_config ?x)) [writeAttribute ''durationInSeconds'' (durationInSeconds stats)] @
         [endElement default_format])]"
  have results: "leads [xml_scoped ''OverallResults'' ((counts_attributes (ss_assertions stats) @
         xml_when b [writeAttribute ''durationInSeconds'' (durationInSeconds stats)]) @
         [endElement default_format])] (us @ [nm]) us" for b us nm
    by (intro leads_results neutral_intros) simp_all
  have "leads ?fs (m_tags (m_xml (?x\<lparr>m_sectionDepth := m_sectionDepth ?x - 1\<rparr>))) (open_elements (In_Case ts d))"
  proof (cases d)
    case (Suc k)
    have "open_elements (In_Case ts (Suc d)) = open_elements (In_Case ts d) @ [''Section'']"
      by (simp add: Suc replicate_append_same)
    then show ?thesis using results [of _ "open_elements (In_Case ts d)" "''Section''"] tags st(3)
      by (simp add: xml_when_def Suc del: open_elements.simps)
  qed (use tags st(3) in \<open>simp add: xml_when_def leads_Nil\<close>)
  then have "\<exists>x'. on_xml ?fs (?x\<lparr>m_sectionDepth := m_sectionDepth ?x - 1\<rparr>) = Inr x' \<and> tells (In_Case ts d) x'"
    by (rule on_xml_tells) (use st in simp_all)
  then show ?thesis using st(1) by (simp add: xml_sectionEnded_def base_sectionEnded_def Let_def)
qed

lemma tells_assertionEnded:
  assumes "tells p x"
  shows "\<exists>x'. xml_assertionEnded stats x = Inr x' \<and> tells p x'"
proof -
  let ?r = "assertionResult stats"
  let ?expr = "[xml_start ''Expression'', xml_flag ''success'' (succeeded ?r),
      writeAttribute ''type'' (macroName (m_info ?r))] @ writeSourceInfo (ai_lineInfo (m_info ?r)) @
      [xml_text_element ''Original'' (getExpression ?r) default_format,
       xml_text_element ''Expanded'' (getExpandedExpression ?r) default_format]"
  have start: "leads ?expr us (us @ [''Expression''])" for us
    by (intro leads_opened_append neutral_append) simp_all
  have expr: "neutral (xml_when b ?expr @ xml_result ?r @ xml_when b [endElement default_format])" for b
  proof (cases b)
    case True
    have "leads (?expr @ xml_result ?r @ [endElement default_format]) us us" for us
      by (rule leads_append [OF start leads_append [OF neutral_leads [OF neutral_result] leads_end]])
    then show ?thesis by (simp add: True neutral_def xml_when_def)
  qed (simp add: xml_when_def)
  have infos: "neutral (concat (map (xml_info b) (infoMessages stats)))" for b by (rule neutral_concat) auto
  show ?thesis
    unfolding xml_assertionEnded_def Let_def
    by (rule on_xml_tells)
      (use assms neutral_leads [OF neutral_append [OF neutral_when [OF infos] neutral_when [OF expr]]] in \<open>simp_all add: tells_def\<close>)
qed

lemma testCaseEnded_leads:
  "leads [xml_scoped ''OverallResult'' (
      [xml_flag ''success'' (allOk (assertions (tcs_totals stats)))] @
      xml_when b [writeAttribute ''durationInSeconds'' elapsed] @
      xml_when (stdOut stats \<noteq> '''') [xml_text_element ''StdOut'' (trim (stdOut stats)) Newline] @
      xml_when (stdErr stats \<noteq> '''') [xml_text_element ''StdErr'' (trim (stdErr stats)) Newline] @
      [endElement default_format])] (us @ [nm]) us"
proof -
  have "leads [xml_scoped ''OverallResult'' (
         ([xml_flag ''success'' (allOk (assertions (tcs_totals stats)))] @
         xml_when b [writeAttribute ''durationInSeconds'' elapsed] @
         xml_when (stdOut stats \<noteq> '''') [xml_text_element ''StdOut'' (trim (stdOut stats)) Newline] @
         xml_when (stdErr stats \<noteq> '''') [xml_text_element ''StdErr'' (trim (stdErr stats)) Newline]) @
         [endElement default_format])] (us @ [nm]) us"
    by (intro leads_results neutral_intros) simp_all
  then show ?thesis by simp
qed

lemma tells_testCaseEnded:
  "tells (In_Case ts 0) x \<Longrightarrow> \<exists>x'. xml_testCaseEnded stats elapsed x = Inr x' \<and> tells (In_Group ts) x'"
  using testCaseEnded_leads [of _ _ _ "[''Catch'', ''Group'']" "''TestCase''"]
  unfolding xml_testCaseEnded_def
  by (intro on_xml_tells) (auto simp: tells_def base_testCaseEnded_def)

lemma tells_same: "tells p x \<Longrightarrow> open_elements q = open_elements p \<Longrightarrow> sections_in q = sections_in p \<Longrightarrow> tells q x"
  by (simp add: tells_def)

lemma xml_report_tells:
  assumes "tells p x" and "next_phase p r = Some q"
  shows "\<exists>x'. xml_report cap r x = Inr x' \<and> tells q x'"
proof (cases p)
  case (Case_Opened ts)
  then have "tells (In_Case ts 0) x" using assms(1) by (simp add: tells_def)
  from tells_sectionStarting [OF this] show ?thesis using Case_Opened assms(2) by (cases r) auto
next
  case (In_Case ts d)
  then show ?thesis
    using assms tells_sectionStarting [of ts d x] tells_sectionEnded [of ts "d - 1" x] tells_assertionEnded [of p x]
      tells_testCaseEnded [of ts x] by (cases r) (auto split: if_splits)
qed (use assms in \<open>cases r; auto intro: tells_testRunStarting tells_testGroupStarting tells_testCaseStarting
  tells_testGroupEnded tells_testRunEnded elim: tells_same\<close>)+

lemma xml_reports_tells:
  assumes "tells p x" and "run_phases p rs = Some q"
  shows "\<exists>x'. xml_reports cap rs x = Inr x' \<and> tells q x'"
  using assms
proof (induction rs arbitrary: p x cap)
  case (Cons r rs)
  then obtain p1 where next1: "next_phase p r = Some p1" and rest: "run_phases p1 rs = Some q"
    by (auto split: option.splits)
  from xml_report_tells [OF Cons.prems(1) next1] obtain x1 where "xml_report (cap 0) r x = Inr x1" "tells p1 x1" by blast
  with Cons.IH [OF _ rest] show ?case by simp
qed auto

lemma XmlReporter_new_tells:
  assumes "verbosity (cfg_data config) = Normal_verbosity"
  obtains x where "XmlReporter_new config = Inr x" and "tells Before_Run x" and "reporter_config x = config"
  using assms that
  by (simp add: XmlReporter_new_def StreamingReporterBase_new_def getSupportedVerbosities_def tells_def
      StreamingReporterBase.defs XmlReporter.defs XmlWriter_new_def writeDeclaration_def put_def)

section \<open>Properties\<close>

text \<open>
  C29. The XML report of a run of the tests is complete, whatever the assertions do, throw, print and
  take in time: the run returns, the XML reporter takes all its calls without an error, it never
  ends an element that is not open, and in the end every element has been ended, so that
  the destructor of the writer adds at most a line end. The sections of a test case that stand next
  to each other are told apart by name or location, and none has those of the test case
  (\<open>runnable\<close>); the run is one without \<open>-c\<close> and without \<open>-w NoAssertions\<close> (\<open>whole_tests\<close>), at
  normal verbosity, the only one at which this reporter can be built.
\<close>

theorem xml_report_complete:
  assumes "list_all (runnable script) all" and "whole_tests config"
    and "verbosity (cfg_data config) = Normal_verbosity"
  shows "\<exists>totals rc x x'. run_group next_value (scripted next_value script) here config True all = Some (Inr (totals, rc)) \<and>
    XmlReporter_new config = Inr x \<and> xml_reports cap (reports rc) x = Inr x' \<and>
    m_tags (m_xml x') = [] \<and> m_sectionStack x' = [] \<and> XmlWriter_delete (m_xml x') = Inr (newlineIfNecessary (m_xml x'))"
proof -
  obtain totals rc where run: "run_group next_value (scripted next_value script) here config True all = Some (Inr (totals, rc))"
    using run_group_ends [OF assms(1,2)] by blast
  have over: "run_phases Before_Run (reports rc) = Some (Run_Over (map TestCaseInfo.truncate (snd (group_tests all config))))"
    using run_group_reports [OF scripted_reports run] by (simp add: phase_of_def)
  obtain x where new: "XmlReporter_new config = Inr x" "tells Before_Run x"
    by (rule XmlReporter_new_tells [OF assms(3)])
  obtain x' where "xml_reports cap (reports rc) x = Inr x'" "tells (Run_Over (map TestCaseInfo.truncate (snd (group_tests all config)))) x'"
    using xml_reports_tells [OF new(2) over] by blast
  then show ?thesis using run new(1)
    by (intro exI [of _ totals] exI [of _ rc] exI [of _ x] exI [of _ x'])
      (simp add: tells_def XmlWriter_delete.simps)
qed

definition example_captured :: "nat \<Rightarrow> Captured" where
  "example_captured n = \<lparr>cap_duration = ''0.1'', cap_stdOut = ''stalled'', cap_stdErr = ''<>'', cap_sequence = of_nat n,
     cap_timestamp = ''2020-01-01T00:00:00Z''\<rparr>"

theorem xml_report_complete_witness:
  "\<exists>totals rc x x'. run_group (\<lambda>n. (False, n)) (scripted (\<lambda>n. (False, n)) example_script) \<lparr>src_file = ''test.cpp'', src_line = 0\<rparr>
       example_config True example_tests = Some (Inr (totals, rc)) \<and>
    XmlReporter_new example_config = Inr x \<and>
    xml_reports example_captured (reports rc) x = Inr x' \<and>
    m_tags (m_xml x') = [] \<and> m_sectionStack x' = [] \<and> XmlWriter_delete (m_xml x') = Inr (newlineIfNecessary (m_xml x'))"
  by (rule xml_report_complete [OF example_runnable])
    (simp_all add: example_config_def ConfigData_default_def)

text \<open>
  A fatal error is different: the handler of the signal ends one section, the test case, the group
  and the run, whatever number of sections is open. In a section inside a section the XML report
  then stays open, and the last elements that are ended are not those that are meant.
\<close>

definition xml_butlast :: "XmlReporter \<Rightarrow> XmlReporter \<Rightarrow> bool" where
  "xml_butlast x x' \<longleftrightarrow> m_tags (m_xml x') = butlast (m_tags (m_xml x))"

lemma on_xml_butlast:
  assumes "leads fs (m_tags (m_xml x)) (butlast (m_tags (m_xml x)))"
  shows "\<exists>x'. on_xml fs x = Inr x' \<and> xml_butlast x x'"
  using assms by (fastforce simp: leads_def on_xml_def xml_butlast_def)

lemma ends_butlast:
  assumes "m_tags (m_xml x) \<noteq> []"
  shows "\<exists>x'. xml_testCaseEnded stats elapsed x = Inr x' \<and> xml_butlast x x'"
    and "\<exists>x'. xml_testGroupEnded tot x = Inr x' \<and> xml_butlast x x'"
    and "\<exists>x'. xml_testRunEnded tot x = Inr x' \<and> xml_butlast x x'"
proof -
  obtain us nm where us: "m_tags (m_xml x) = us @ [nm]" using assms by (metis append_butlast_last_id)
  have "\<exists>x'. on_xml fs y = Inr x' \<and> xml_butlast x x'" if "leads fs (us @ [nm]) us" "m_xml y = m_xml x" for fs y
    using on_xml_butlast [of fs y] that us by (simp add: xml_butlast_def)
  note one = this [OF testCaseEnded_leads] this [OF leads_overall_results]
  show "\<exists>x'. xml_testCaseEnded stats elapsed x = Inr x' \<and> xml_butlast x x'"
    unfolding xml_testCaseEnded_def by (rule one(1)) (simp add: base_testCaseEnded_def)
  show "\<exists>x'. xml_testGroupEnded tot x = Inr x' \<and> xml_butlast x x'"
    unfolding xml_testGroupEnded_def by (rule one(2)) (simp add: base_testGroupEnded_def)
  show "\<exists>x'. xml_testRunEnded tot x = Inr x' \<and> xml_butlast x x'"
    unfolding xml_testRunEnded_def by (rule one(2)) (simp add: base_testRunEnded_def)
qed

theorem fatal_error_leaves_elements_open:
  assumes fatal: "handleFatalErrorCondition next_value message rc = Inr rc'"
    and unf: "m_unfinishedSections rc = []"
    and x: "tells (In_Case ts (Suc d)) x" and "2 \<le> d"
  shows "\<exists>new x'. reports rc' = reports rc @ new \<and> xml_reports cap new x = Inr x' \<and> length (m_tags (m_xml x')) = d - 1"
proof -
  obtain info where info: "m_activeTestCase rc = Some info"
    using fatal by (auto simp: handleFatalErrorCondition_def split: option.splits)
  let ?one = "inc_failed Counts_zero"
  have "\<exists>res ms tot i tot1 nm tot2 ab. reports rc' = reports rc @ [Report_fatalErrorEncountered message,
      Report_assertionEnded res ms tot, Report_sectionEnded i ?one False,
      Report_testCaseEnded info (Totals_zero\<lparr>assertions := ?one, testCases := ?one\<rparr>) False,
      Report_testGroupEnded \<lparr>gi_name = '''', groupIndex = 1, groupsCounts = 1\<rparr> tot1 ab, Report_testRunEnded nm tot2 False]"
    using fatal info unf
    by (auto simp: handleFatalErrorCondition_def Let_def handleUnfinishedSections_def reports_assertionEnded report_def
        testGroupEnded_def)
  then obtain res ms tot i tot1 nm tot2 ab where reps: "reports rc' = reports rc @ [Report_fatalErrorEncountered message,
      Report_assertionEnded res ms tot, Report_sectionEnded i ?one False,
      Report_testCaseEnded info (Totals_zero\<lparr>assertions := ?one, testCases := ?one\<rparr>) False,
      Report_testGroupEnded \<lparr>gi_name = '''', groupIndex = 1, groupsCounts = 1\<rparr> tot1 ab, Report_testRunEnded nm tot2 False]"
    by blast
  obtain x1 where x1: "xml_assertionEnded (AssertionStats_new res ms tot (cap 1)) x = Inr x1" "tells (In_Case ts (Suc d)) x1"
    using tells_assertionEnded [OF x] by blast
  obtain x2 where x2: "xml_sectionEnded \<lparr>ss_sectionInfo = i, ss_assertions = ?one, durationInSeconds = cap_duration (cap 2),
      missingAssertions = False\<rparr> x1 = Inr x2" "tells (In_Case ts d) x2"
    using tells_sectionEnded [OF x1(2)] by blast
  have tags2: "length (m_tags (m_xml x2)) = d + 2" using x2(2) \<open>2 \<le> d\<close> by (simp add: tells_def)
  then have "m_tags (m_xml x2) \<noteq> []" by auto
  then obtain x3 where x3: "xml_testCaseEnded \<lparr>testInfo = info, tcs_totals = Totals_zero\<lparr>assertions := ?one, testCases := ?one\<rparr>,
      stdOut = cap_stdOut (cap 3), stdErr = cap_stdErr (cap 3), tcs_aborting = False\<rparr> (cap_duration (cap 3)) x2 = Inr x3"
    "xml_butlast x2 x3" using ends_butlast(1) by blast
  have tags3: "length (m_tags (m_xml x3)) = d + 1" using x3(2) tags2 by (simp add: xml_butlast_def)
  then have "m_tags (m_xml x3) \<noteq> []" by auto
  then obtain x4 where x4: "xml_testGroupEnded tot1 x3 = Inr x4" "xml_butlast x3 x4" using ends_butlast(2) by blast
  have tags4: "length (m_tags (m_xml x4)) = d" using x4(2) tags3 by (simp add: xml_butlast_def)
  then have "m_tags (m_xml x4) \<noteq> []" using \<open>2 \<le> d\<close> by auto
  then obtain x5 where x5: "xml_testRunEnded tot2 x4 = Inr x5" "xml_butlast x4 x5" using ends_butlast(3) by blast
  have "length (m_tags (m_xml x5)) = d - 1" using x5(2) tags4 by (simp add: xml_butlast_def)
  then show ?thesis
    using reps x1(1) x2(1) x3(1) x4(1) x5(1) by (auto simp: numeral_2_eq_2 numeral_3_eq_3)
qed

end
