(* ===== verification/Catch_Junit_Contents.thy ===== *)
theory Catch_Junit_Contents
  imports Catch_Junit_Reporter Catch_Xml_Report Catch_Text_Wrap
begin

text \<open>
  What the JUnit reporter writes for the tree of sections it has collected: the elements of the
  assertions that failed, in the order in which the recursion of \<open>writeSection\<close> comes to them, and
  that it comes to every section of a forest exactly once.
\<close>

section \<open>Blocks of text\<close>

text \<open>The blocks stand in the text one after the other, with anything before, between and after.\<close>

fun contains_blocks :: "string list \<Rightarrow> string \<Rightarrow> bool" where
  "contains_blocks [] s = True"
| "contains_blocks (b # bs) s = (\<exists>u v. s = u @ b @ v \<and> contains_blocks bs v)"

lemma contains_blocks_before: "contains_blocks bs s \<Longrightarrow> contains_blocks bs (u @ s)"
  by (cases bs) (simp, metis append.assoc contains_blocks.simps(2))

lemma contains_blocks_append: "contains_blocks bs s \<Longrightarrow> contains_blocks cs t \<Longrightarrow> contains_blocks (bs @ cs) (s @ t)"
proof (induction bs arbitrary: s)
  case Nil
  then show ?case by (simp add: contains_blocks_before)
next
  case (Cons b bs)
  then obtain u v where s: "s = u @ b @ v" and "contains_blocks bs v" by auto
  then have "contains_blocks (bs @ cs) (v @ t)" using Cons.IH Cons.prems(2) by blast
  then show ?case by (simp add: s) (intro exI [of _ u] exI [of _ "v @ t"], simp)
qed

lemma contains_blocks_after: "contains_blocks bs s \<Longrightarrow> contains_blocks bs (s @ t)"
  using contains_blocks_append [of bs s "[]" t] by simp

text \<open>
  The element of an assertion that is not ok, from its name to the line of its end tag: the
  attributes, then the failure text, in lines of their own.
\<close>

definition attribute_text :: "string \<Rightarrow> string \<Rightarrow> string" where
  "attribute_text nm v =
     (if v = '''' then '''' else '' '' @ nm @ ''='' @ [CHR 0x22] @ encoded ForAttributes v @ [CHR 0x22])"

definition junit_block :: "AssertionStats \<Rightarrow> string" where
  "junit_block stats =
     (let r = assertionResult stats in
      ''<'' @ result_element_name (resultType r) @ attribute_text ''message'' (getExpression r) @
      attribute_text ''type'' (macroName (m_info r)) @ ''>'' @ [newline] @
      (case failure_text stats of Some (Inr t) \<Rightarrow> encoded ForTextNodes t | _ \<Rightarrow> '''') @ [newline])"

definition failures :: "AssertionStats list \<Rightarrow> AssertionStats list" where
  "failures as = filter (\<lambda>stats. \<not> AssertionResult_isOk (assertionResult stats)) as"

lemma failures_simps [simp]: "failures [] = []" "failures (as @ bs) = failures as @ failures bs"
  by (simp_all add: failures_def)

section \<open>Actions that write blocks\<close>

definition emits :: "string list \<Rightarrow> xml_action list \<Rightarrow> bool" where
  "emits bs fs \<longleftrightarrow> neutral fs \<and>
     (\<forall>w w'. xml_do fs w = Inr w' \<longrightarrow> (\<exists>s. m_os w' = m_os w @ s \<and> contains_blocks bs s))"

lemma emits_neutral: "emits bs fs \<Longrightarrow> neutral fs"
  by (simp add: emits_def)

lemma emits_append:
  assumes "emits bs fs" and "emits cs gs"
  shows "emits (bs @ cs) (fs @ gs)"
  unfolding emits_def
proof (intro conjI allI impI)
  show "neutral (fs @ gs)" using assms by (simp add: emits_def neutral_append)
  fix w w' assume "xml_do (fs @ gs) w = Inr w'"
  then obtain w1 where "xml_do fs w = Inr w1" "xml_do gs w1 = Inr w'" by (auto simp: xml_do_append split: sum.splits)
  with assms obtain s t where "m_os w1 = m_os w @ s" "contains_blocks bs s" "m_os w' = m_os w1 @ t" "contains_blocks cs t"
    unfolding emits_def by blast
  then show "\<exists>s. m_os w' = m_os w @ s \<and> contains_blocks (bs @ cs) s"
    by (intro exI [of _ "s @ t"]) (simp add: contains_blocks_append)
qed

text \<open>Nothing is taken back.\<close>

definition extends :: "XmlWriter \<Rightarrow> XmlWriter \<Rightarrow> bool" where
  "extends w w' \<longleftrightarrow> (\<exists>s. m_os w' = m_os w @ s)"

lemma extends_trans: "extends w w' \<Longrightarrow> extends w' w'' \<Longrightarrow> extends w w''"
  by (auto simp: extends_def)

lemma extends_blocks: "extends w w' \<Longrightarrow> contains_blocks bs (m_os w) \<Longrightarrow> contains_blocks bs (m_os w')"
  by (auto simp: extends_def contains_blocks_after)

lemma extends_steps [simp]:
  "extends w (put s w)" "extends w (newlineIfNecessary w)" "extends w (ensureTagClosed w)"
  "extends w (startElement nm fmt w)"
  by (simp_all add: extends_def put_def newlineIfNecessary_def ensureTagClosed_def startElement_def applyFormatting_def Let_def)

lemma extends_attribute: "writeAttribute nm v w = Inr w' \<Longrightarrow> extends w w'"
  by (auto simp: writeAttribute_def put_attribute_def put_def extends_def split: if_splits sum.splits)

lemma extends_text: "writeText t fmt w = Inr w' \<Longrightarrow> extends w w'"
  by (auto simp: writeText_def applyFormatting_def put_def extends_def ensureTagClosed_def newlineIfNecessary_def Let_def
      split: if_splits sum.splits)

lemma extends_end: "endElement fmt w = Inr w' \<Longrightarrow> extends w w'"
  by (auto simp: endElement_def applyFormatting_def put_def extends_def newlineIfNecessary_def Let_def split: if_splits)

lemma emits_attribute: "emits [] [writeAttribute nm v]"
  by (auto simp: emits_def extends_attribute [unfolded extends_def] split: sum.splits)

lemma emits_text: "emits [] [writeText t fmt]"
  by (auto simp: emits_def extends_text [unfolded extends_def] split: sum.splits)

lemma emits_number: "emits [] [xml_number nm n]"
  unfolding xml_number_def by (rule emits_attribute)

lemma emits_Nil: "emits [] []"
  by (simp add: emits_def)

lemma emits_Cons: "emits [] [f] \<Longrightarrow> emits bs fs \<Longrightarrow> emits bs (f # fs)"
  using emits_append [of "[]" "[f]"] by simp

lemma emits_when: "emits [] fs \<Longrightarrow> emits [] (xml_when b fs)"
  by (simp add: xml_when_def emits_Nil)

lemma emits_scoped:
  assumes "emits bs fs"
  shows "emits bs [xml_scoped nm fs]"
  unfolding emits_def
proof (intro conjI allI impI)
  show "neutral [xml_scoped nm fs]" using assms by (simp add: emits_def neutral_scoped)
  fix w w' assume "xml_do [xml_scoped nm fs] w = Inr w'"
  then obtain w2 where "xml_do fs (startElement nm default_format w) = Inr w2" and e: "endElement default_format w2 = Inr w'"
    by (auto simp: xml_scoped_def scopedElement_def split: sum.splits)
  with assms obtain s where "m_os w2 = m_os (startElement nm default_format w) @ s" "contains_blocks bs s"
    unfolding emits_def by blast
  moreover obtain u where "m_os (startElement nm default_format w) = m_os w @ u"
    using extends_steps(4) unfolding extends_def by blast
  moreover obtain v where "m_os w' = m_os w2 @ v" using extends_end [OF e] unfolding extends_def by blast
  ultimately show "\<exists>s. m_os w' = m_os w @ s \<and> contains_blocks bs s"
    by (intro exI [of _ "u @ s @ v"]) (simp add: contains_blocks_before contains_blocks_after)
qed

lemma emits_text_element: "emits [] [xml_text_element nm t fmt]"
  unfolding xml_text_element_def by (rule emits_scoped [OF emits_text])

lemma emits_each: "list_all (\<lambda>f. emits [] [f]) fs \<Longrightarrow> emits [] fs"
  by (induction fs) (auto intro: emits_Nil emits_Cons)

lemmas emits_single = emits_attribute emits_number emits_text_element

section \<open>The element of an assertion\<close>

lemma expansion_ok: "\<exists>t. expansion r = Some (Inr t)"
proof -
  have "roomy ((Column_new (getExpandedExpression r))\<lparr>m_indentation := 2\<rparr>) (getExpandedExpression r)"
    by (simp add: roomy_def Column_new_def CONSOLE_WIDTH_def)
  from column_wraps [OF this] show ?thesis by (auto simp: expansion_def Column_toString_def)
qed

lemma failure_text_ok: "\<exists>t. failure_text stats = Some (Inr t) \<and> t \<noteq> ''''"
  using expansion_ok [of "assertionResult stats"]
  by (auto simp: failure_text_def Let_def computed_def and_then_def)

lemma newline_formats [simp]: "shouldNewline Newline" "\<not> shouldIndent Newline" "shouldNewline default_format"
  by (simp_all add: shouldNewline_def shouldIndent_def default_format_def Newline_def Indent_def)

lemma writeAttribute_text: "nm \<noteq> '''' \<Longrightarrow> writeAttribute nm v w = Inr (put (attribute_text nm v) w)"
  by (simp add: writeAttribute_def attribute_text_def encode_ok put_attribute_def put_def)

lemma startElement_open:
  "m_tagIsOpen (startElement nm default_format w)" "m_needsNewline (startElement nm default_format w)"
  "\<exists>u. m_os (startElement nm default_format w) = m_os w @ u @ ''<'' @ nm"
  by (auto simp: startElement_def applyFormatting_def put_def newlineIfNecessary_def ensureTagClosed_def Let_def)

lemma writeText_after_tag:
  assumes "m_tagIsOpen w" and "m_needsNewline w" and "t \<noteq> ''''"
  obtains w' where "writeText t Newline w = Inr w'" and "m_os w' = m_os w @ ''>'' @ [newline] @ encoded ForTextNodes t"
    and "m_needsNewline w'" and "\<not> m_tagIsOpen w'"
proof -
  have "\<exists>w'. writeText t Newline w = Inr w' \<and> m_os w' = m_os w @ ''>'' @ [newline] @ encoded ForTextNodes t \<and>
      m_needsNewline w' \<and> \<not> m_tagIsOpen w'"
    using assms by (simp add: writeText_def encode_ok applyFormatting_def put_def ensureTagClosed_def newlineIfNecessary_def newline_def Let_def)
  then show thesis using that by blast
qed

lemma endElement_line:
  assumes "endElement fmt w = Inr w'" and "m_needsNewline w" and "\<not> m_tagIsOpen w"
  shows "\<exists>v. m_os w' = m_os w @ [newline] @ v"
  using assms
  by (auto simp: endElement_def applyFormatting_def put_def newlineIfNecessary_def newline_def Let_def split: if_splits)

lemma emits_failure:
  assumes "failure_text stats = Some (Inr t)" and "t \<noteq> ''''"
  shows "emits [junit_block stats] [xml_scoped (result_element_name (resultType (assertionResult stats)))
    [writeAttribute ''message'' (getExpression (assertionResult stats)),
     writeAttribute ''type'' (macroName (m_info (assertionResult stats))), writeText t Newline]]"
    (is "emits _ [xml_scoped ?nm ?fs]")
  unfolding emits_def
proof (intro conjI allI impI)
  show "neutral [xml_scoped ?nm ?fs]" by (simp add: neutral_scoped)
  fix w w' assume run: "xml_do [xml_scoped ?nm ?fs] w = Inr w'"
  let ?attrs = "attribute_text ''message'' (getExpression (assertionResult stats)) @
    attribute_text ''type'' (macroName (m_info (assertionResult stats)))"
  let ?w = "put ?attrs (startElement ?nm default_format w)"
  have "m_tagIsOpen ?w" "m_needsNewline ?w" by (simp_all add: put_def startElement_open)
  then obtain w2 where written: "writeText t Newline ?w = Inr w2" "m_needsNewline w2" "\<not> m_tagIsOpen w2"
    and os2: "m_os w2 = m_os ?w @ ''>'' @ [newline] @ encoded ForTextNodes t"
    using assms(2) by (rule writeText_after_tag)
  have put: "put b (put a x) = put (a @ b) x" for a b x by (simp add: put_def)
  have "xml_do ?fs (startElement ?nm default_format w) = Inr w2"
    using written(1) by (simp add: writeAttribute_text put)
  then have "endElement default_format w2 = Inr w'" using run by (simp add: xml_scoped_def scopedElement_def split: sum.splits)
  from endElement_line [OF this written(2,3)] obtain v where v: "m_os w' = m_os w2 @ [newline] @ v" by blast
  obtain u where u: "m_os (startElement ?nm default_format w) = m_os w @ u @ ''<'' @ ?nm"
    using startElement_open(3) by blast
  have "m_os w' = m_os w @ u @ junit_block stats @ v"
    by (simp add: v os2 put_def u junit_block_def assms(1) Let_def)
  then show "\<exists>s. m_os w' = m_os w @ s \<and> contains_blocks [junit_block stats] s"
    by (intro exI [of _ "u @ junit_block stats @ v"]) auto
qed

section \<open>Computed actions that write blocks\<close>

definition writes :: "string list \<Rightarrow> xml_action list computed \<Rightarrow> bool" where
  "writes bs m \<longleftrightarrow> (\<exists>fs. m = Some (Inr fs) \<and> emits bs fs)"

lemma writes_computed: "emits bs fs \<Longrightarrow> writes bs (computed fs)"
  by (simp add: writes_def computed_def)

lemma writes_and_then: "writes bs m \<Longrightarrow> (\<And>fs. emits bs fs \<Longrightarrow> writes cs (f fs)) \<Longrightarrow> writes cs (and_then m f)"
  by (auto simp: writes_def and_then_def)

lemma writes_for_each: "(\<And>x. x \<in> set xs \<Longrightarrow> writes (bs x) (f x)) \<Longrightarrow> writes (concat (map bs xs)) (for_each f xs)"
proof (induction xs)
  case (Cons x xs)
  have "writes (bs x @ concat (map bs xs)) (and_then (for_each f xs) (\<lambda>fs. computed (as @ fs)))"
    if "emits (bs x) as" for as
    by (rule writes_and_then [OF Cons.IH]) (use Cons.prems that in \<open>auto intro: writes_computed emits_append\<close>)
  then have "writes (bs x @ concat (map bs xs)) (and_then (f x) (\<lambda>as. and_then (for_each f xs) (\<lambda>fs. computed (as @ fs))))"
    by (rule writes_and_then [rotated]) (use Cons.prems in auto)
  then show ?case by simp
qed (simp add: writes_computed emits_Nil)

abbreviation failure_blocks :: "AssertionStats list \<Rightarrow> string list" where
  "failure_blocks as \<equiv> map junit_block (failures as)"

lemma writes_assertion: "writes (failure_blocks [stats]) (writeAssertion stats)"
proof -
  obtain t where "failure_text stats = Some (Inr t)" "t \<noteq> ''''" using failure_text_ok by blast
  with emits_failure show ?thesis
    by (auto simp: writeAssertion_def Let_def and_then_def failures_def emits_Nil intro: writes_computed)
qed

lemma writes_assertions: "writes (failure_blocks (node_assertions node)) (writeAssertions node)"
proof -
  have "concat (map (\<lambda>stats. failure_blocks [stats]) as) = failure_blocks as" for as
    by (induction as) (simp_all add: failures_def)
  then show ?thesis
    unfolding writeAssertions_def
    using writes_for_each [of "node_assertions node" "\<lambda>stats. failure_blocks [stats]" writeAssertion] writes_assertion
    by simp
qed

section \<open>The walk over the tree\<close>

text \<open>The assertions of a section and of those below it, in the order of the walk.\<close>

fun tree_assertions :: "nat \<Rightarrow> SectionNode list \<Rightarrow> nat \<Rightarrow> AssertionStats list" where
  "tree_assertions 0 ns n = []"
| "tree_assertions (Suc fuel) ns n =
     node_assertions (ns ! n) @ concat (map (tree_assertions fuel ns) (childSections (ns ! n)))"

text \<open>The children of a node were made after it.\<close>

definition tree_ok :: "SectionNode list \<Rightarrow> bool" where
  "tree_ok ns \<longleftrightarrow> (\<forall>n < length ns. \<forall>child \<in> set (childSections (ns ! n)). n < child \<and> child < length ns)"

lemma tree_ok_child_bound: "tree_ok ns \<Longrightarrow> n < length ns \<Longrightarrow> child \<in> set (childSections (ns ! n)) \<Longrightarrow> n < child \<and> child < length ns"
  unfolding tree_ok_def by blast

lemma tree_ok_fuel:
  "tree_ok ns \<Longrightarrow> n < length ns \<Longrightarrow> length ns - n \<le> Suc fuel \<Longrightarrow> child \<in> set (childSections (ns ! n)) \<Longrightarrow>
    child < length ns \<and> length ns - child \<le> fuel"
  using tree_ok_child_bound [of ns n child] by auto

lemma failure_blocks_concat: "failure_blocks (concat (map f xs)) = concat (map (\<lambda>x. failure_blocks (f x)) xs)"
  by (induction xs) simp_all

lemma writes_testcase: "writes (failure_blocks (node_assertions node)) (testcase_element cls nm node)"
proof (cases "node_assertions node \<noteq> [] \<or> node_stdOut node \<noteq> '''' \<or> node_stdErr node \<noteq> ''''")
  case False
  then show ?thesis by (simp add: testcase_element_def writes_computed emits_Nil)
next
  case True
  let ?first = "(if cls = '''' then [writeAttribute ''classname'' nm, writeAttribute ''name'' ''root'']
      else [writeAttribute ''classname'' cls, writeAttribute ''name'' nm]) @
    [writeAttribute ''time'' (durationInSeconds (node_stats node)), writeAttribute ''status'' ''run'']"
  let ?last = "xml_when (node_stdOut node \<noteq> '''') [xml_text_element ''system-out'' (trim (node_stdOut node)) Newline] @
    xml_when (node_stdErr node \<noteq> '''') [xml_text_element ''system-err'' (trim (node_stdErr node)) Newline]"
  have first: "emits [] ?first" by (rule emits_each) (simp add: emits_single)
  have "emits ([] @ []) ?last" by (intro emits_append emits_when emits_text_element)
  then have last: "emits [] ?last" by simp
  have "emits bs [xml_scoped ''testcase'' (?first @ as @ ?last)]" if "emits bs as" for bs as
    using emits_scoped [OF emits_append [OF first emits_append [OF that last]]] by simp
  then have "emits bs [xml_scoped ''testcase'' ((if cls = '''' then [writeAttribute ''classname'' nm, writeAttribute ''name'' ''root'']
      else [writeAttribute ''classname'' cls, writeAttribute ''name'' nm]) @
    [writeAttribute ''time'' (durationInSeconds (node_stats node)), writeAttribute ''status'' ''run''] @ as @ ?last)]"
    if "emits bs as" for bs as
    using that by simp
  with True writes_assertions [of node] show ?thesis
    unfolding testcase_element_def by (simp only: if_True) (blast intro: writes_and_then writes_computed)
qed

lemma writes_section:
  assumes "tree_ok ns"
  shows "n < length ns \<Longrightarrow> length ns - n \<le> fuel \<Longrightarrow>
    writes (failure_blocks (tree_assertions fuel ns n)) (writeSection fuel ns cls rootName n)"
proof (induction fuel arbitrary: cls rootName n)
  case (Suc fuel)
  let ?node = "ns ! n"
  let ?below = "for_each (\<lambda>child. if cls = '''' then writeSection fuel ns (section_name rootName ?node) '''' child
      else writeSection fuel ns cls (section_name rootName ?node) child) (childSections ?node)"
  have "writes (failure_blocks (tree_assertions fuel ns child))
      (if cls = '''' then writeSection fuel ns (section_name rootName ?node) '''' child
       else writeSection fuel ns cls (section_name rootName ?node) child)"
    if "child \<in> set (childSections ?node)" for child
    using Suc.IH tree_ok_fuel [OF assms Suc.prems that] by simp
  then have below: "writes (failure_blocks (concat (map (tree_assertions fuel ns) (childSections ?node)))) ?below"
    unfolding failure_blocks_concat by (rule writes_for_each)
  have "writes (failure_blocks (tree_assertions (Suc fuel) ns n))
      (and_then ?below (\<lambda>bs. computed (as @ bs)))" if "emits (failure_blocks (node_assertions ?node)) as" for as
    by (rule writes_and_then [OF below]) (use that in \<open>auto intro: writes_computed emits_append\<close>)
  then show ?case
    unfolding writeSection.simps Let_def by (rule writes_and_then [OF writes_testcase])
qed simp

definition test_case_root :: "TestCaseNode \<Rightarrow> nat list" where
  "test_case_root tc = (case tcn_children tc of [Some root] \<Rightarrow> [root] | _ \<Rightarrow> [])"

definition test_case_ok :: "SectionNode list \<Rightarrow> TestCaseNode \<Rightarrow> bool" where
  "test_case_ok ns tc \<longleftrightarrow> (\<exists>root < length ns. tcn_children tc = [Some root])"

definition walked :: "SectionNode list \<Rightarrow> nat list \<Rightarrow> AssertionStats list" where
  "walked ns roots = concat (map (tree_assertions (length ns) ns) roots)"

lemma walked_simps [simp]:
  "walked ns [] = []" "walked ns (r # roots) = tree_assertions (length ns) ns r @ walked ns roots"
  "walked ns (rs @ roots) = walked ns rs @ walked ns roots"
  by (simp_all add: walked_def)

lemma writes_test_case:
  assumes "tree_ok ns" and "test_case_ok ns tc"
  shows "writes (failure_blocks (walked ns (test_case_root tc))) (writeTestCase config ns tc)"
proof -
  obtain root where "root < length ns" "tcn_children tc = [Some root]" using assms(2) by (auto simp: test_case_ok_def)
  then show ?thesis
    using writes_section [OF assms(1)] by (simp add: test_case_root_def writeTestCase_def)
qed

lemma emits_properties: "emits [] (junit_properties config)"
proof -
  have "emits ([] @ []) (xml_when f [xml_scoped ''property'' [writeAttribute ''name'' ''filters'', writeAttribute ''value'' v]] @
      xml_when g [xml_scoped ''property'' [writeAttribute ''name'' ''random-seed'', xml_number ''value'' n]])" for f g v n
    by (intro emits_append emits_when emits_scoped; rule emits_each; simp add: emits_single)
  then show ?thesis unfolding junit_properties_def Let_def by (intro emits_when emits_scoped) simp
qed

lemma writes_group:
  assumes "tree_ok (cum_nodes x)" and "list_all (test_case_ok (cum_nodes x)) (tgn_children grp)"
  shows "writes (failure_blocks (walked (cum_nodes x) (concat (map test_case_root (tgn_children grp)))))
    (writeGroup grp suiteTime timestamp x)"
proof -
  let ?ns = "cum_nodes x"
  have "walked ?ns (concat (map test_case_root tcs)) = concat (map (\<lambda>tc. walked ?ns (test_case_root tc)) tcs)" for tcs
    by (induction tcs) simp_all
  moreover have "writes (concat (map (\<lambda>tc. failure_blocks (walked ?ns (test_case_root tc))) (tgn_children grp)))
      (for_each (writeTestCase (cum_config x) ?ns) (tgn_children grp))"
    by (rule writes_for_each) (use assms in \<open>auto simp: list_all_iff intro: writes_test_case\<close>)
  ultimately have cases: "writes (failure_blocks (walked ?ns (concat (map test_case_root (tgn_children grp)))))
      (for_each (writeTestCase (cum_config x) ?ns) (tgn_children grp))"
    by (simp add: failure_blocks_concat)
  have around: "emits bs (fs @ junit_properties config @ as @ gs)" if "emits [] fs" "emits bs as" "emits [] gs" for bs fs config as gs
    using emits_append [OF that(1) emits_append [OF emits_properties emits_append [OF that(2,3)]]] by simp
  show ?thesis
    unfolding writeGroup_def Let_def
    by (intro writes_and_then [OF cases] writes_computed emits_scoped around; (rule emits_each)?) (simp_all add: emits_single)
qed

section \<open>The walk comes to every section once\<close>

text \<open>Every node is a root or the child of one node.\<close>

definition forest :: "SectionNode list \<Rightarrow> nat list \<Rightarrow> bool" where
  "forest ns roots \<longleftrightarrow> mset (roots @ concat (map childSections ns)) = mset [0..<length ns]"

definition collected :: "SectionNode list \<Rightarrow> AssertionStats multiset" where
  "collected ns = (\<Sum>node \<leftarrow> ns. mset (node_assertions node))"

lemma tree_assertions_fuel:
  "tree_ok ns \<Longrightarrow> n < length ns \<Longrightarrow> length ns - n \<le> f \<Longrightarrow> length ns - n \<le> g \<Longrightarrow>
    tree_assertions f ns n = tree_assertions g ns n"
proof (induction f arbitrary: n g)
  case (Suc f)
  then obtain g' where g: "g = Suc g'" by (cases g) simp_all
  have "tree_assertions f ns child = tree_assertions g' ns child" if "child \<in> set (childSections (ns ! n))" for child
    using Suc.IH [of child g'] tree_ok_fuel [OF Suc.prems(1,2) _ that] Suc.prems g by simp
  then have "map (tree_assertions f ns) (childSections (ns ! n)) = map (tree_assertions g' ns) (childSections (ns ! n))"
    by simp
  then show ?case unfolding g tree_assertions.simps by (rule arg_cong)
qed simp

lemma sum_list_mset_cong:
  fixes T :: "'a \<Rightarrow> 'b multiset"
  assumes "mset xs = mset ys"
  shows "sum_list (map T xs) = sum_list (map T ys)"
proof -
  have "sum_mset (image_mset T (mset xs)) = sum_mset (image_mset T (mset ys))" by (simp only: assms)
  then show ?thesis by (simp only: sum_mset_sum_list mset_map [symmetric])
qed

lemma mset_concat_map: "mset (concat (map f xs)) = sum_list (map (\<lambda>x. mset (f x)) xs)"
  by (induction xs) simp_all

lemma sum_list_concat_map: "sum_list (map T (concat xss)) = sum_list (map (\<lambda>xs. sum_list (map T xs)) xss)"
  for T :: "'a \<Rightarrow> 'b multiset"
  by (induction xss) simp_all

lemma walked_all:
  assumes "tree_ok ns" and "forest ns roots"
  shows "mset (walked ns roots) = collected ns"
proof -
  let ?T = "\<lambda>n. mset (tree_assertions (length ns) ns n)"
  let ?below = "\<lambda>node. sum_list (map ?T (childSections node))"
  have step: "?T n = mset (node_assertions (ns ! n)) + ?below (ns ! n)" if n: "n < length ns" for n
  proof -
    obtain k where k: "length ns = Suc k" using n by (cases "length ns") simp_all
    have "tree_assertions k ns child = tree_assertions (length ns) ns child" if "child \<in> set (childSections (ns ! n))" for child
      using tree_ok_child_bound [OF assms(1) n that] k by (intro tree_assertions_fuel [OF assms(1)]) auto
    then have "map (tree_assertions k ns) (childSections (ns ! n)) = map (tree_assertions (length ns) ns) (childSections (ns ! n))"
      by simp
    moreover have "tree_assertions (length ns) ns n =
        node_assertions (ns ! n) @ concat (map (tree_assertions k ns) (childSections (ns ! n)))" by (simp add: k)
    ultimately have "tree_assertions (length ns) ns n =
        node_assertions (ns ! n) @ concat (map (tree_assertions (length ns) ns) (childSections (ns ! n)))" by (simp only:)
    then show ?thesis by (metis mset_append mset_concat_map)
  qed
  have "map ?T [0..<length ns] = map ((\<lambda>node. mset (node_assertions node) + ?below node) \<circ> (!) ns) [0..<length ns]"
    using step by simp
  then have "map ?T [0..<length ns] = map (\<lambda>node. mset (node_assertions node) + ?below node) ns"
    by (simp only: map_map [symmetric] map_nth)
  then have "sum_list (map ?T [0..<length ns]) = collected ns + sum_list (map ?T (concat (map childSections ns)))"
    by (simp only: collected_def sum_list_addf sum_list_concat_map map_map comp_def)
  moreover have "sum_list (map ?T [0..<length ns]) =
      sum_list (map ?T roots) + sum_list (map ?T (concat (map childSections ns)))"
    using sum_list_mset_cong [OF assms(2) [unfolded forest_def], of ?T] by simp
  ultimately show ?thesis by (simp add: walked_def mset_concat_map)
qed

end
