(* ===== verification/Catch_Junit_Report.thy ===== *)
theory Catch_Junit_Report
  imports Catch_Junit_Contents
begin

text \<open>
  The JUnit report of a run: that it is written to the end, and that it holds every assertion that
  failed.
\<close>

section \<open>What is collected\<close>

text \<open>The assertions that were reported, and those the nodes hold.\<close>

fun reported_assertions :: "(nat \<Rightarrow> Captured) \<Rightarrow> report list \<Rightarrow> AssertionStats list" where
  "reported_assertions cap [] = []"
| "reported_assertions cap (r # rs) =
     (case r of Report_assertionEnded result ms totals \<Rightarrow> [AssertionStats_new result ms totals (cap 0)] | _ \<Rightarrow> []) @
     reported_assertions (cap \<circ> Suc) rs"

lemma collected_append [simp]: "collected (ns @ ms) = collected ns + collected ms"
  by (simp add: collected_def)

lemma collected_update:
  "n < length ns \<Longrightarrow> node_assertions node = node_assertions (ns ! n) @ as \<Longrightarrow>
    collected (ns[n := node]) = collected ns + mset as"
proof (induction ns arbitrary: n)
  case (Cons a ns)
  then show ?case by (cases n) (simp_all add: collected_def ac_simps)
qed simp

fun junit_elements :: "phase \<Rightarrow> string list" where
  "junit_elements Before_Run = []"
| "junit_elements (Run_Over ts) = []"
| "junit_elements _ = [''testsuites'']"

text \<open>In a test case there is a root node, and a node for the output.\<close>

definition roots_ok :: "phase \<Rightarrow> 'm CumulativeReporterBase_scheme \<Rightarrow> bool" where
  "roots_ok p x \<longleftrightarrow>
     (case p of
        In_Case ts d \<Rightarrow> (\<exists>root < length (cum_nodes x). m_rootSection x = Some root) \<and>
          (\<exists>n < length (cum_nodes x). m_deepestSection x = Some n)
      | _ \<Rightarrow> m_rootSection x = None)"

text \<open>
  Until the group ends the assertions are in the nodes, which are the trees of the test cases; then
  those that failed are in the text.
\<close>

definition failures_shown :: "AssertionStats multiset \<Rightarrow> string \<Rightarrow> bool" where
  "failures_shown as s \<longleftrightarrow> (\<exists>bs. contains_blocks bs s \<and>
     mset bs = image_mset junit_block (filter_mset (\<lambda>stats. \<not> AssertionResult_isOk (assertionResult stats)) as))"

definition roots :: "'m CumulativeReporterBase_scheme \<Rightarrow> nat list" where
  "roots x = concat (map test_case_root (m_testCases x)) @ (case m_rootSection x of None \<Rightarrow> [] | Some r \<Rightarrow> [r])"

fun collecting :: "phase \<Rightarrow> bool" where
  "collecting (Group_Over ts) = False"
| "collecting (Run_Over ts) = False"
| "collecting _ = True"

definition gathered :: "phase \<Rightarrow> AssertionStats multiset \<Rightarrow> JunitReporter \<Rightarrow> bool" where
  "gathered p as x \<longleftrightarrow>
     (if collecting p then collected (cum_nodes x) = as \<and> forest (cum_nodes x) (roots x)
      else failures_shown as (m_os (junit_xml x)))"

definition collects :: "phase \<Rightarrow> AssertionStats multiset \<Rightarrow> JunitReporter \<Rightarrow> bool" where
  "collects p as x \<longleftrightarrow> m_tags (junit_xml x) = junit_elements p \<and> length (cum_sectionStack x) = sections_in p \<and>
     list_all (\<lambda>n. n < length (cum_nodes x)) (cum_sectionStack x) \<and> tree_ok (cum_nodes x) \<and>
     list_all (test_case_ok (cum_nodes x)) (m_testCases x) \<and> roots_ok p x \<and> gathered p as x"

lemma tree_ok_same:
  assumes "tree_ok ns" and "n < length ns" and "childSections node = childSections (ns ! n)"
  shows "tree_ok (ns[n := node])"
  unfolding tree_ok_def
proof (intro allI impI ballI)
  fix m child assume "m < length (ns[n := node])" "child \<in> set (childSections (ns[n := node] ! m))"
  then show "m < child \<and> child < length (ns[n := node])"
    using tree_ok_child_bound [OF assms(1), of m child] assms(3) by (cases "m = n") simp_all
qed

lemma tree_ok_append:
  assumes "tree_ok ns" and "childSections node = []"
  shows "tree_ok (ns @ [node])"
  unfolding tree_ok_def
proof (intro allI impI ballI)
  fix m child assume "m < length (ns @ [node])" "child \<in> set (childSections ((ns @ [node]) ! m))"
  then show "m < child \<and> child < length (ns @ [node])"
    using tree_ok_child_bound [OF assms(1), of m child] assms(2) by (cases "m < length ns") (simp_all add: nth_append)
qed

lemma tree_ok_child:
  assumes "tree_ok ns" and "n < length ns" and "childSections node = []"
  shows "tree_ok (ns[n := (ns ! n)\<lparr>childSections := childSections (ns ! n) @ [length ns]\<rparr>] @ [node])"
  (is "tree_ok (?ns @ [node])")
  unfolding tree_ok_def
proof (intro allI impI ballI)
  fix m child assume m: "m < length (?ns @ [node])" and child: "child \<in> set (childSections ((?ns @ [node]) ! m))"
  consider "m = length ns" | "m = n" "m < length ns" | "m \<noteq> n" "m < length ns" using m by fastforce
  then show "m < child \<and> child < length (?ns @ [node])"
    using child assms tree_ok_child_bound [OF assms(1), of m child] by cases (auto simp: nth_append)
qed

lemma forest_same:
  assumes "n < length ns" and "childSections node = childSections (ns ! n)"
  shows "forest (ns[n := node]) rs = forest ns rs"
proof -
  have "map childSections (ns[n := node]) = (map childSections ns)[n := map childSections ns ! n]"
    using assms by (simp add: map_update)
  then show ?thesis by (simp add: forest_def)
qed

lemma forest_root: "forest ns rs \<Longrightarrow> childSections node = [] \<Longrightarrow> forest (ns @ [node]) (rs @ [length ns])"
  by (simp add: forest_def)

lemma mset_concat_longer:
  "n < length xss \<Longrightarrow> mset (concat (xss[n := xss ! n @ ys])) = mset (concat xss) + mset ys"
proof (induction xss arbitrary: n)
  case (Cons xs xss)
  then show ?case by (cases n) (simp_all add: ac_simps)
qed simp

lemma forest_child:
  assumes "forest ns rs" and "n < length ns" and "childSections node = []"
  shows "forest (ns[n := (ns ! n)\<lparr>childSections := childSections (ns ! n) @ [length ns]\<rparr>] @ [node]) rs"
proof -
  have "map childSections (ns[n := (ns ! n)\<lparr>childSections := childSections (ns ! n) @ [length ns]\<rparr>]) =
      (map childSections ns)[n := map childSections ns ! n @ [length ns]]"
    using assms(2) by (simp add: map_update)
  with assms mset_concat_longer [of n "map childSections ns" "[length ns]"] show ?thesis
    by (simp add: forest_def)
qed

lemma test_case_ok_more: "test_case_ok ns tc \<Longrightarrow> length ns \<le> length ms \<Longrightarrow> test_case_ok ms tc"
  by (auto simp: test_case_ok_def)

section \<open>Each call in turn\<close>

lemma update_node_fields [simp]:
  "cum_nodes (update_node n f x) = (cum_nodes x)[n := f (cum_nodes x ! n)]"
  "m_rootSection (update_node n f x) = m_rootSection x" "m_deepestSection (update_node n f x) = m_deepestSection x"
  "cum_sectionStack (update_node n f x) = cum_sectionStack x" "m_testCases (update_node n f x) = m_testCases x"
  "m_testGroups (update_node n f x) = m_testGroups x"
  "junit_xml (update_node n g y) = junit_xml y"
  by (simp_all add: update_node_def)

lemma test_cases_more: "list_all (test_case_ok ns) tcs \<Longrightarrow> length ns \<le> length ms \<Longrightarrow> list_all (test_case_ok ms) tcs"
  by (auto simp: list_all_iff intro: test_case_ok_more)

lemma last_pointer: "list_all P xs \<Longrightarrow> xs \<noteq> [] \<Longrightarrow> P (last xs)"
  by (simp add: list_all_iff)

lemma pointers_more: "list_all (\<lambda>n. n < (k :: nat)) xs \<Longrightarrow> k \<le> l \<Longrightarrow> list_all (\<lambda>n. n < l) xs"
  by (auto simp: list_all_iff intro: less_le_trans)

lemma collects_sectionStarting:
  assumes "collects p as x" and "p = In_Case ts d \<or> p = Case_Opened ts \<and> d = 0"
  shows "collects (In_Case ts (Suc d)) as (cum_sectionStarting info x)"
proof -
  let ?ns = "cum_nodes x" and ?new = "incomplete_node info"
  note parts = assms(1) [unfolded collects_def]
  have new: "childSections ?new = []" "node_assertions ?new = []" by (simp_all add: incomplete_node_def)
  have len: "length (cum_sectionStack x) = d" and tags: "m_tags (junit_xml x) = [''testsuites'']"
    using assms by (auto simp: collects_def)
  have more: "list_all (\<lambda>n. n < Suc (length ?ns)) (cum_sectionStack x)"
    "list_all (test_case_ok (ns @ [node])) (m_testCases x)" if "length ns = length ?ns" for ns node
    using parts that by (auto intro: pointers_more test_cases_more)
  have gath: "collected ?ns = as" "forest ?ns (roots x)" "\<And>d. collecting (In_Case ts d)"
    using assms by (auto simp: collects_def gathered_def)
  show ?thesis
  proof (cases "cum_sectionStack x = []")
    case True
    then have d: "d = 0" using len by simp
    show ?thesis
    proof (cases "m_rootSection x")
      case None
      have "collects (In_Case ts (Suc d)) as (x\<lparr>cum_nodes := ?ns @ [?new], m_rootSection := Some (length ?ns),
          cum_sectionStack := [length ?ns], m_deepestSection := Some (length ?ns)\<rparr>)"
        using parts tags more(2) [OF refl] new d
        using forest_root [of ?ns "roots x" ?new] gath None
        by (simp add: collects_def roots_ok_def tree_ok_append gathered_def roots_def collected_def)
      then show ?thesis using True None by (simp add: cum_sectionStarting_def Let_def)
    next
      case (Some root)
      then have "root < length ?ns" using assms parts by (auto simp: roots_ok_def)
      then have "collects (In_Case ts (Suc d)) as (x\<lparr>cum_sectionStack := [root], m_deepestSection := Some root\<rparr>)"
        using parts tags Some d gath by (simp add: collects_def roots_ok_def gathered_def roots_def)
      then show ?thesis using True Some by (simp add: cum_sectionStarting_def Let_def)
    qed
  next
    case False
    let ?p = "last (cum_sectionStack x)"
    have p: "?p < length ?ns" using parts False by (auto intro: last_pointer)
    have root: "\<exists>root < length ?ns. m_rootSection x = Some root"
    proof -
      have "p = In_Case ts d" using assms(2) len False by auto
      then show ?thesis using parts by (simp add: roots_ok_def)
    qed
    show ?thesis
    proof (cases "find (node_of ?ns info) (childSections (?ns ! ?p))")
      case None
      let ?ns' = "?ns[?p := (?ns ! ?p)\<lparr>childSections := childSections (?ns ! ?p) @ [length ?ns]\<rparr>]"
      have "collected ?ns' = collected ?ns" using collected_update [OF p, of _ "[]"] by simp
      then have "collects (In_Case ts (Suc d)) as (x\<lparr>cum_nodes := ?ns' @ [?new],
          cum_sectionStack := cum_sectionStack x @ [length ?ns], m_deepestSection := Some (length ?ns)\<rparr>)"
        using parts tags more [of ?ns'] new len root tree_ok_child [OF _ p new(1)] gath forest_child [OF gath(2) p new(1)]
        by (auto simp: collects_def roots_ok_def gathered_def roots_def collected_def)
      then show ?thesis using False None by (simp add: cum_sectionStarting_def Let_def)
    next
      case (Some child)
      then have "child \<in> set (childSections (?ns ! ?p))" by (auto simp: find_Some_iff)
      then have "child < length ?ns" using parts p tree_ok_child_bound by blast
      then have "collects (In_Case ts (Suc d)) as (x\<lparr>cum_sectionStack := cum_sectionStack x @ [child], m_deepestSection := Some child\<rparr>)"
        using parts tags len root gath by (auto simp: collects_def roots_ok_def gathered_def roots_def)
      then show ?thesis using False Some by (simp add: cum_sectionStarting_def Let_def)
    qed
  qed
qed

lemma collects_assertionEnded:
  assumes "collects (In_Case ts (Suc d)) as x"
  shows "\<exists>x'. junit_assertionEnded stats x = Inr x' \<and> collects (In_Case ts (Suc d)) (as + {#stats#}) x'"
proof -
  let ?p = "last (cum_sectionStack x)"
  have st: "cum_sectionStack x \<noteq> []" using assms by (auto simp: collects_def)
  then have p: "?p < length (cum_nodes x)" using assms by (auto simp: collects_def intro: last_pointer)
  let ?node = "(cum_nodes x ! ?p)\<lparr>node_assertions := node_assertions (cum_nodes x ! ?p) @ [stats]\<rparr>"
  have "collected ((cum_nodes x)[?p := ?node]) = collected (cum_nodes x) + {#stats#}"
    using collected_update [OF p, of ?node "[stats]"] by simp
  moreover have "tree_ok ((cum_nodes x)[?p := ?node])" using assms p by (simp add: collects_def tree_ok_same)
  moreover have "forest ((cum_nodes x)[?p := ?node]) rs = forest (cum_nodes x) rs" for rs
    by (rule forest_same [OF p]) simp
  ultimately show ?thesis
    using assms st by (auto simp: junit_assertionEnded_def cum_assertionEnded_def collects_def roots_ok_def gathered_def
        roots_def elim: test_cases_more)
qed

lemma collects_sectionEnded:
  assumes "collects (In_Case ts (Suc d)) as x"
  shows "\<exists>x'. cum_sectionEnded stats x = Inr x' \<and> collects (In_Case ts d) as x'"
proof -
  let ?p = "last (cum_sectionStack x)"
  have st: "cum_sectionStack x \<noteq> []" using assms by (auto simp: collects_def)
  then have p: "?p < length (cum_nodes x)" using assms by (auto simp: collects_def intro: last_pointer)
  let ?node = "(cum_nodes x ! ?p)\<lparr>node_stats := stats\<rparr>"
  have "collected ((cum_nodes x)[?p := ?node]) = collected (cum_nodes x)"
    using collected_update [OF p, of ?node "[]"] by simp
  moreover have "tree_ok ((cum_nodes x)[?p := ?node])" using assms p by (simp add: collects_def tree_ok_same)
  moreover have "list_all (\<lambda>n. n < length (cum_nodes x)) (butlast (cum_sectionStack x))"
    using assms by (auto simp: collects_def list_all_iff dest: in_set_butlastD)
  moreover have "forest ((cum_nodes x)[?p := ?node]) rs = forest (cum_nodes x) rs" for rs
    by (rule forest_same [OF p]) simp
  ultimately show ?thesis
    using assms st by (auto simp: cum_sectionEnded_def collects_def roots_ok_def gathered_def roots_def elim: test_cases_more)
qed

lemma collects_testCaseEnded:
  assumes "collects (In_Case ts 0) as x"
  shows "\<exists>x'. junit_testCaseEnded stats x = Inr x' \<and> collects (In_Group ts) as x'"
proof -
  obtain root n where r: "m_rootSection x = Some root" "root < length (cum_nodes x)"
    and n: "m_deepestSection x = Some n" "n < length (cum_nodes x)"
    using assms by (auto simp: collects_def roots_ok_def)
  have st: "cum_sectionStack x = []" using assms by (simp add: collects_def)
  let ?node = "(cum_nodes x ! n)\<lparr>node_stdOut := stdOut stats, node_stdErr := stdErr stats\<rparr>"
  have "collected ((cum_nodes x)[n := ?node]) = collected (cum_nodes x)"
    using collected_update [OF n(2), of ?node "[]"] by simp
  moreover have "tree_ok ((cum_nodes x)[n := ?node])" using assms n by (simp add: collects_def tree_ok_same)
  moreover have "test_case_ok ((cum_nodes x)[n := ?node]) \<lparr>tcn_value = stats, tcn_children = [Some root]\<rparr>"
    using r by (simp add: test_case_ok_def)
  moreover have "forest ((cum_nodes x)[n := ?node]) rs = forest (cum_nodes x) rs" for rs
    by (rule forest_same [OF n(2)]) simp
  ultimately show ?thesis
    using assms st r n
    by (auto simp: junit_testCaseEnded_def cum_testCaseEnded_def collects_def roots_ok_def gathered_def roots_def
        test_case_root_def Let_def elim: test_cases_more)
qed

text \<open>The calls that write.\<close>

lemma on_junit_collects:
  assumes "leads fs (m_tags (junit_xml x)) ts'"
  obtains w where "on_junit fs x = Some (Inr (x\<lparr>junit_xml := w\<rparr>))" and "m_tags w = ts'" and "xml_do fs (junit_xml x) = Inr w"
  using assms by (fastforce simp: leads_def on_junit_def)

lemma collects_xml:
  assumes "collects p as x" and "m_tags w = junit_elements q" and "sections_in q = sections_in p" and "roots_ok q x"
    and "gathered q as (x\<lparr>junit_xml := w\<rparr>)"
  shows "collects q as (x\<lparr>junit_xml := w\<rparr>)"
  using assms by (cases q) (simp_all add: collects_def roots_ok_def)

lemma collects_testRunStarting:
  assumes "collects Before_Run as x"
  shows "\<exists>x'. junit_testRunStarting x = Some (Inr x') \<and> collects In_Run as x'"
proof -
  have "leads [xml_start ''testsuites''] (m_tags (junit_xml x)) [''testsuites'']"
    using leads_start [of "''testsuites''" "[]"] assms by (simp add: collects_def)
  then obtain w where "on_junit [xml_start ''testsuites''] x = Some (Inr (x\<lparr>junit_xml := w\<rparr>))" "m_tags w = [''testsuites'']"
    by (rule on_junit_collects)
  then show ?thesis using assms collects_xml [of Before_Run as x w In_Run]
    by (auto simp: junit_testRunStarting_def collects_def roots_ok_def gathered_def roots_def)
qed

text \<open>The group's element holds the failures of all trees.\<close>

lemma failures_of_forest:
  assumes "tree_ok ns" and "forest ns rs" and "contains_blocks (failure_blocks (walked ns rs)) s"
  shows "failures_shown (collected ns) s"
proof -
  have "mset (failure_blocks (walked ns rs)) =
      image_mset junit_block (filter_mset (\<lambda>stats. \<not> AssertionResult_isOk (assertionResult stats)) (collected ns))"
    by (simp add: failures_def walked_all [OF assms(1,2), symmetric])
  with assms(3) show ?thesis by (auto simp: failures_shown_def)
qed

lemma collects_testGroupEnded:
  assumes "collects (In_Group ts) as x"
  shows "\<exists>x'. junit_testGroupEnded stats suiteTime timestamp x = Some (Inr x') \<and> collects (Group_Over ts) as x'"
proof -
  let ?x = "cum_testGroupEnded stats x" and ?rs = "concat (map test_case_root (m_testCases x))"
  have cases: "m_tags (junit_xml x) = [''testsuites'']" "cum_sectionStack x = []" "m_rootSection x = None"
    "tree_ok (cum_nodes x)" "list_all (test_case_ok (cum_nodes x)) (m_testCases x)"
    "collected (cum_nodes x) = as" "forest (cum_nodes x) ?rs"
    using assms by (auto simp: collects_def roots_ok_def gathered_def roots_def)
  have "writes (failure_blocks (walked (cum_nodes ?x) (concat (map test_case_root (tgn_children (last (m_testGroups ?x)))))))
      (writeGroup (last (m_testGroups ?x)) suiteTime timestamp ?x)"
    by (rule writes_group) (use cases in \<open>simp_all add: cum_testGroupEnded_def\<close>)
  then obtain fs where fs: "writeGroup (last (m_testGroups ?x)) suiteTime timestamp ?x = Some (Inr fs)"
    "emits (failure_blocks (walked (cum_nodes x) ?rs)) fs"
    by (auto simp: writes_def cum_testGroupEnded_def)
  from neutral_leads [OF emits_neutral [OF fs(2)]] obtain w where w: "on_junit fs ?x = Some (Inr (?x\<lparr>junit_xml := w\<rparr>))"
    "m_tags w = m_tags (junit_xml ?x)" "xml_do fs (junit_xml ?x) = Inr w" by (rule on_junit_collects)
  obtain s where s: "m_os w = m_os (junit_xml ?x) @ s" "contains_blocks (failure_blocks (walked (cum_nodes x) ?rs)) s"
    using fs(2) w(3) unfolding emits_def by blast
  then have "failures_shown as (m_os w)"
    using failures_of_forest [OF cases(4,7), of "m_os w"] by (simp add: contains_blocks_before cases(6))
  then have "collects (Group_Over ts) as (?x\<lparr>junit_xml := w\<rparr>)"
    using cases w(2) by (simp add: collects_def roots_ok_def gathered_def cum_testGroupEnded_def)
  with w(1) show ?thesis by (simp add: junit_testGroupEnded_def Let_def and_then_def fs(1))
qed

lemma collects_testRunEnded:
  assumes "collects (Group_Over ts) as x"
  shows "\<exists>x'. junit_testRunEnded stats x = Some (Inr x') \<and> collects (Run_Over ts) as x'"
proof -
  let ?x = "cum_testRunEnded stats x"
  have x: "collects (Group_Over ts) as ?x"
    using assms by (simp add: collects_def roots_ok_def gathered_def cum_testRunEnded_def)
  have "leads [endElement default_format] (m_tags (junit_xml ?x)) []"
    using leads_end [of default_format "[]" "''testsuites''"] x by (simp add: collects_def)
  then obtain w where w: "on_junit [endElement default_format] ?x = Some (Inr (?x\<lparr>junit_xml := w\<rparr>))" "m_tags w = []"
    "xml_do [endElement default_format] (junit_xml ?x) = Inr w"
    by (rule on_junit_collects)
  then have "extends (junit_xml ?x) w" by (auto intro: extends_end split: sum.splits)
  then have "failures_shown as (m_os w)"
    using x extends_blocks unfolding collects_def gathered_def failures_shown_def by fastforce
  then show ?thesis using collects_xml [OF x, of w "Run_Over ts"] x w
    by (simp add: junit_testRunEnded_def collects_def roots_ok_def gathered_def)
qed

lemma collects_same:
  "collects p as x \<Longrightarrow> junit_elements q = junit_elements p \<Longrightarrow> sections_in q = sections_in p \<Longrightarrow> roots_ok q x \<Longrightarrow>
    collecting q = collecting p \<Longrightarrow> collects q as x"
  by (simp add: collects_def gathered_def)

text \<open>All calls of a run.\<close>

lemma junit_report_collects:
  assumes "collects p as x" and "next_phase p r = Some q"
  shows "\<exists>x'. junit_report cap r x = Some (Inr x') \<and>
    collects q (as + mset (reported_assertions (\<lambda>n. cap) [r])) x'"
proof (cases p)
  case Before_Run
  then show ?thesis using assms collects_testRunStarting by (cases r) auto
next
  case In_Run
  then show ?thesis using assms
    by (cases r) (auto simp: computed_def junit_testGroupStarting_def collects_def roots_ok_def gathered_def roots_def)
next
  case (In_Group ts)
  then show ?thesis using assms collects_testGroupEnded
    by (cases r) (auto simp: computed_def junit_testCaseStarting_def collects_def roots_ok_def gathered_def roots_def)
next
  case (Case_Opened ts)
  then show ?thesis using assms collects_sectionStarting [of p as x ts 0] by (cases r) (auto simp: computed_def)
next
  case (In_Case ts d)
  then show ?thesis
    using assms collects_sectionStarting [of p as x ts d] collects_sectionEnded [of ts "d - 1" as x]
      collects_assertionEnded [of ts "d - 1" as x] collects_testCaseEnded [of ts as x]
    by (cases r) (auto simp: computed_def split: if_splits)
next
  case (Group_Over ts)
  then show ?thesis using assms collects_testRunEnded by (cases r) auto
qed (use assms in auto)

lemma junit_reports_collects:
  assumes "collects p as x" and "run_phases p rs = Some q"
  shows "\<exists>x'. junit_reports cap rs x = Some (Inr x') \<and> collects q (as + mset (reported_assertions cap rs)) x'"
  using assms
proof (induction rs arbitrary: p as x cap)
  case (Cons r rs)
  then obtain p1 where next1: "next_phase p r = Some p1" and rest: "run_phases p1 rs = Some q"
    by (auto split: option.splits)
  let ?here = "mset (reported_assertions (\<lambda>n. cap 0) [r])"
  from junit_report_collects [OF Cons.prems(1) next1] obtain x1
    where one: "junit_report (cap 0) r x = Some (Inr x1)" "collects p1 (as + ?here) x1" by blast
  from Cons.IH [OF one(2) rest] obtain x2 where "junit_reports (cap \<circ> Suc) rs x1 = Some (Inr x2)"
    "collects q (as + ?here + mset (reported_assertions (cap \<circ> Suc) rs)) x2" by blast
  moreover have "?here + mset (reported_assertions (cap \<circ> Suc) rs) = mset (reported_assertions cap (r # rs))"
    by (cases r) simp_all
  ultimately show ?case using one(1) by (auto simp: and_then_def ac_simps)
qed (auto simp: computed_def)

lemma JunitReporter_new_collects:
  assumes "verbosity (cfg_data config) = Normal_verbosity"
  obtains x where "JunitReporter_new config = Inr x" and "collects Before_Run {#} x"
proof -
  have "\<exists>x. JunitReporter_new config = Inr x \<and> collects Before_Run {#} x"
    using assms
    by (simp add: JunitReporter_new_def CumulativeReporterBase_new_def getSupportedVerbosities_def collects_def roots_ok_def
        CumulativeReporterBase.defs JunitReporter.defs XmlWriter_new_def writeDeclaration_def put_def tree_ok_def
        gathered_def roots_def forest_def collected_def)
  then show thesis using that by blast
qed

section \<open>Properties\<close>

text \<open>
  C30. The JUnit report of a run of the tests is written to the end and keeps no failure back,
  whatever the assertions do: no assertion of the reporter fails, no null pointer is followed, laying
  out the expressions ends, every element is ended, and in what has been written there is, for
  every reported assertion that is not ok, an element of its own with its expression, its macro and
  its failure text (\<open>junit_block\<close>), as often as it was reported. These elements are written by the
  walk of \<open>writeSection\<close> over the trees of sections that \<open>sectionStarting\<close> has built, and follow
  one another without overlap. The sections of a test case that stand next to each other are
  told apart by name or location, and none has those of the test case (\<open>runnable\<close>); the run is one
  without \<open>-c\<close> and without \<open>-w NoAssertions\<close> (\<open>whole_tests\<close>), at normal verbosity, the only one
  at which this reporter can be built.
\<close>

theorem junit_report_complete:
  assumes "list_all (runnable script) all" and "whole_tests config"
    and "verbosity (cfg_data config) = Normal_verbosity"
  shows "\<exists>totals rc x x' bs. run_group next_value (scripted next_value script) here config True all = Some (Inr (totals, rc)) \<and>
    JunitReporter_new config = Inr x \<and> junit_reports cap (reports rc) x = Some (Inr x') \<and> m_tags (junit_xml x') = [] \<and>
    contains_blocks bs (m_os (junit_xml x')) \<and>
    mset bs = mset (map junit_block (failures (reported_assertions cap (reports rc))))"
proof -
  obtain totals rc where run: "run_group next_value (scripted next_value script) here config True all = Some (Inr (totals, rc))"
    using run_group_ends [OF assms(1,2)] by blast
  have over: "run_phases Before_Run (reports rc) = Some (Run_Over (map TestCaseInfo.truncate (snd (group_tests all config))))"
    using run_group_reports [OF scripted_reports run] by (simp add: phase_of_def)
  obtain x where new: "JunitReporter_new config = Inr x" "collects Before_Run {#} x"
    by (rule JunitReporter_new_collects [OF assms(3)])
  from junit_reports_collects [OF new(2) over, of cap] obtain x' where "junit_reports cap (reports rc) x = Some (Inr x')"
    "collects (Run_Over (map TestCaseInfo.truncate (snd (group_tests all config)))) (mset (reported_assertions cap (reports rc))) x'"
    by auto
  moreover from this(2) obtain bs where "m_tags (junit_xml x') = []" "contains_blocks bs (m_os (junit_xml x'))"
    "mset bs = mset (map junit_block (failures (reported_assertions cap (reports rc))))"
    by (auto simp: collects_def gathered_def failures_shown_def failures_def)
  ultimately show ?thesis using run new(1) by blast
qed

theorem junit_report_complete_witness:
  "\<exists>totals rc x x' bs. run_group (\<lambda>n. (False, n)) (scripted (\<lambda>n. (False, n)) example_script) \<lparr>src_file = ''test.cpp'', src_line = 0\<rparr>
       example_config True example_tests = Some (Inr (totals, rc)) \<and>
    JunitReporter_new example_config = Inr x \<and> junit_reports example_captured (reports rc) x = Some (Inr x') \<and>
    m_tags (junit_xml x') = [] \<and> contains_blocks bs (m_os (junit_xml x')) \<and>
    mset bs = mset (map junit_block (failures (reported_assertions example_captured (reports rc))))"
  by (rule junit_report_complete [OF example_runnable])
    (simp add: example_config_def ConfigData_default_def)

text \<open>
  The order in which sections are ended after an exception (the outermost first) does not suit this
  reporter: it gives what it is told to the section that was started last, so that the results of
  two sections change places, their names included.
\<close>

theorem unfinished_sections_swap_names:
  assumes "cum_sectionStack x = st @ [outer, inner]" and "outer \<noteq> inner"
    and "outer < length (cum_nodes x)" and "inner < length (cum_nodes x)"
  shows "\<exists>x1 x2. cum_sectionEnded outer_stats x = Inr x1 \<and> cum_sectionEnded inner_stats x1 = Inr x2 \<and>
    node_stats (cum_nodes x2 ! inner) = outer_stats \<and> node_stats (cum_nodes x2 ! outer) = inner_stats"
  using assms by (simp add: cum_sectionEnded_def butlast_append)

end
