(* ===== verification/Catch_Console_Reporter.thy ===== *)
theory Catch_Console_Reporter
  imports Catch_Junit_Reporter
begin

text \<open>
  \<open>catch_reporter_console.cpp\<close>: the report on the terminal, as pieces of text with the colour they
  are written in. The table of benchmarks is left out: without them it is never opened.
\<close>

section \<open>Text and colours\<close>

datatype Colour =
    No_Colour | White | Red | Green | Blue | Cyan | Yellow | Grey
  | BrightRed | BrightGreen | LightGrey | BrightWhite | BrightYellow

definition Colour_FileName :: Colour where "Colour_FileName = LightGrey"
definition Colour_Warning :: Colour where "Colour_Warning = BrightYellow"
definition Colour_ResultError :: Colour where "Colour_ResultError = BrightRed"
definition Colour_ResultSuccess :: Colour where "Colour_ResultSuccess = BrightGreen"
definition Colour_ResultExpectedFailure :: Colour where "Colour_ResultExpectedFailure = Colour_Warning"
definition Colour_Error :: Colour where "Colour_Error = BrightRed"
definition Colour_Success :: Colour where "Colour_Success = Green"
definition Colour_OriginalExpression :: Colour where "Colour_OriginalExpression = Cyan"
definition Colour_ReconstructedExpression :: Colour where "Colour_ReconstructedExpression = BrightYellow"
definition Colour_SecondaryText :: Colour where "Colour_SecondaryText = LightGrey"
definition Colour_Headers :: Colour where "Colour_Headers = White"

type_synonym piece = "Colour \<times> string"

definition plain :: "string \<Rightarrow> piece" where
  "plain s = (No_Colour, s)"

definition getLineOfChars :: "char \<Rightarrow> string" where
  "getLineOfChars ch = replicate (CONSOLE_WIDTH - 1) ch"

definition pluralise :: "u64 \<Rightarrow> string \<Rightarrow> string" where
  "pluralise count label = decimal (unat count) @ '' '' @ label @ (if count \<noteq> 1 then ''s'' else '''')"

definition column_piece :: "Colour \<Rightarrow> Column \<Rightarrow> piece list computed" where
  "column_piece c col = and_then (Column_toString col) (\<lambda>t. computed [(c, t), (c, [newline])])"

fun concat_pieces :: "('a \<Rightarrow> piece list computed) \<Rightarrow> 'a list \<Rightarrow> piece list computed" where
  "concat_pieces f [] = computed []"
| "concat_pieces f (x # xs) = and_then (f x) (\<lambda>ps. and_then (concat_pieces f xs) (\<lambda>qs. computed (ps @ qs)))"

section \<open>ConsoleAssertionPrinter\<close>

definition with_messages :: "string \<Rightarrow> MessageInfo list \<Rightarrow> string" where
  "with_messages label ms = (if ms = [] then '''' else label @ (if length ms = 1 then ''message'' else ''messages''))"

definition passOrFail :: "AssertionResult \<Rightarrow> Colour \<times> string" where
  "passOrFail result =
     (case resultType result of
        Ok \<Rightarrow> (Colour_Success, ''PASSED'')
      | ExpressionFailed \<Rightarrow>
          if AssertionResult_isOk result then (Colour_Success, ''FAILED - but was ok'') else (Colour_Error, ''FAILED'')
      | Info \<Rightarrow> (No_Colour, '''')
      | Warning \<Rightarrow> (No_Colour, '''')
      | Unknown \<Rightarrow> (Colour_Error, ''** internal error **'')
      | _ \<Rightarrow> (Colour_Error, ''FAILED''))"

definition messageLabel :: "AssertionStats \<Rightarrow> string" where
  "messageLabel stats =
     (let ms = infoMessages stats in
      case resultType (assertionResult stats) of
        Ok \<Rightarrow> with_messages ''with '' ms
      | ExpressionFailed \<Rightarrow> with_messages ''with '' ms
      | ThrewException \<Rightarrow> ''due to unexpected exception with '' @ with_messages '''' ms
      | FatalErrorCondition \<Rightarrow> ''due to a fatal error condition''
      | DidntThrowException \<Rightarrow> ''because no exception was thrown where one was expected''
      | Info \<Rightarrow> ''info''
      | Warning \<Rightarrow> ''warning''
      | ExplicitFailure \<Rightarrow> with_messages ''explicitly with '' ms
      | Unknown \<Rightarrow> '''')"

definition printResultType :: "AssertionResult \<Rightarrow> piece list" where
  "printResultType result =
     (if snd (passOrFail result) \<noteq> '''' then [(fst (passOrFail result), snd (passOrFail result) @ '':'' @ [newline])] else [])"

definition printOriginalExpression :: "AssertionResult \<Rightarrow> piece list" where
  "printOriginalExpression result =
     (if hasExpression result
      then [(Colour_OriginalExpression, ''  '' @ getExpressionInMacro result @ [newline])] else [])"

definition printReconstructedExpression :: "AssertionResult \<Rightarrow> piece list computed" where
  "printReconstructedExpression result =
     (if hasExpandedExpression result
      then and_then (column_piece Colour_ReconstructedExpression
             ((Column_new (getExpandedExpression result))\<lparr>m_indentation := 2\<rparr>))
           (\<lambda>ps. computed (plain (''with expansion:'' @ [newline]) # ps))
      else computed [])"

definition printMessage :: "bool \<Rightarrow> AssertionStats \<Rightarrow> piece list computed" where
  "printMessage printInfoMessages stats =
     and_then (concat_pieces (\<lambda>msg.
         if printInfoMessages \<or> mi_type msg \<noteq> Info
         then column_piece No_Colour ((Column_new (mi_message msg))\<lparr>m_indentation := 2\<rparr>) else computed [])
       (infoMessages stats))
     (\<lambda>ps. computed ((if messageLabel stats \<noteq> '''' then [plain (messageLabel stats @ '':'' @ [newline])] else []) @ ps))"

definition source_piece :: "AssertionResult \<Rightarrow> piece" where
  "source_piece result = (Colour_FileName, show_location (ai_lineInfo (m_info result)) @ '': '')"

definition print_assertion :: "bool \<Rightarrow> AssertionStats \<Rightarrow> piece list computed" where
  "print_assertion printInfoMessages stats =
     (let result = assertionResult stats in
      and_then
        (if Counts_total (assertions (as_totals stats)) > 0
         then and_then (printReconstructedExpression result)
                (\<lambda>ps. computed (printResultType result @ printOriginalExpression result @ ps))
         else computed [plain [newline]])
        (\<lambda>ps. and_then (printMessage printInfoMessages stats) (\<lambda>qs. computed (source_piece result # ps @ qs))))"

section \<open>Totals\<close>

definition makeRatio :: "u64 \<Rightarrow> u64 \<Rightarrow> u64" where
  "makeRatio number all_cases =
     (let ratio = (if all_cases > 0 then of_nat CONSOLE_WIDTH * number div all_cases else 0) in
      if ratio = 0 \<and> number > 0 then 1 else ratio)"

text \<open>\<open>findMax\<close> gives a reference; here with what is done to it.\<close>

definition findMax :: "(u64 \<Rightarrow> u64) \<Rightarrow> u64 \<Rightarrow> u64 \<Rightarrow> u64 \<Rightarrow> u64 \<times> u64 \<times> u64" where
  "findMax f i j k =
     (if i > j \<and> i > k then (f i, j, k) else if j > k then (i, f j, k) else (i, j, f k))"

partial_function (option) widen :: "u64 \<times> u64 \<times> u64 \<Rightarrow> (u64 \<times> u64 \<times> u64) option" where
  "widen r =
     (case r of (i, j, k) \<Rightarrow>
        if i + j + k < of_nat (CONSOLE_WIDTH - 1) then widen (findMax (\<lambda>n. n + 1) i j k) else Some (i, j, k))"

partial_function (option) narrow_ratios :: "u64 \<times> u64 \<times> u64 \<Rightarrow> (u64 \<times> u64 \<times> u64) option" where
  "narrow_ratios r =
     (case r of (i, j, k) \<Rightarrow>
        if i + j + k > of_nat (CONSOLE_WIDTH - 1) then narrow_ratios (findMax (\<lambda>n. n - 1) i j k) else Some (i, j, k))"

definition bar :: "u64 \<Rightarrow> string" where
  "bar n = replicate (unat n) CHR ''=''"

definition printTotalsDivider :: "Totals \<Rightarrow> piece list computed" where
  "printTotalsDivider totals =
     (let tcs = testCases totals; all_cases = Counts_total tcs in
      if all_cases > 0
      then (case Option.bind (widen (makeRatio (failed tcs) all_cases, makeRatio (failedButOk tcs) all_cases, makeRatio (passed tcs) all_cases))
                narrow_ratios of
          None \<Rightarrow> None
        | Some (failedRatio, failedButOkRatio, passedRatio) \<Rightarrow>
            computed [(Colour_Error, bar failedRatio), (Colour_ResultExpectedFailure, bar failedButOkRatio),
              (if allPassed tcs then Colour_ResultSuccess else Colour_Success, bar passedRatio), plain [newline]])
      else computed [(Colour_Warning, replicate (CONSOLE_WIDTH - 1) CHR ''=''), plain [newline]])"

record SummaryColumn =
  sc_label :: string
  sc_colour :: Colour
  sc_rows :: "string list"

fun pad_rows :: "string list \<Rightarrow> string \<Rightarrow> string list \<times> string" where
  "pad_rows [] row = ([], row)"
| "pad_rows (oldRow # olds) row =
     (let oldRow' = replicate (length row - length oldRow) CHR '' '' @ oldRow;
          row' = replicate (length oldRow - length row) CHR '' '' @ row;
          (olds', row'') = pad_rows olds row' in
      (oldRow' # olds', row''))"

definition addRow :: "u64 \<Rightarrow> SummaryColumn \<Rightarrow> SummaryColumn" where
  "addRow count col =
     (let (olds, row) = pad_rows (sc_rows col) (decimal (unat count)) in col\<lparr>sc_rows := olds @ [row]\<rparr>)"

definition summary_column :: "string \<Rightarrow> Colour \<Rightarrow> u64 \<Rightarrow> u64 \<Rightarrow> SummaryColumn" where
  "summary_column label c n1 n2 = addRow n2 (addRow n1 \<lparr>sc_label = label, sc_colour = c, sc_rows = []\<rparr>)"

definition summary_cell :: "string \<Rightarrow> nat \<Rightarrow> SummaryColumn \<Rightarrow> piece list" where
  "summary_cell label row col =
     (let v = sc_rows col ! row in
      if sc_label col = ''''
      then [plain (label @ '': ''), if v \<noteq> ''0'' then plain v else (Colour_Warning, ''- none -'')]
      else if v \<noteq> ''0'' then [(LightGrey, '' | ''), (sc_colour col, v @ '' '' @ sc_label col)]
      else [])"

definition printSummaryRow :: "string \<Rightarrow> SummaryColumn list \<Rightarrow> nat \<Rightarrow> piece list" where
  "printSummaryRow label cols row = concat (map (summary_cell label row) cols) @ [plain [newline]]"

definition summary_columns :: "Totals \<Rightarrow> SummaryColumn list" where
  "summary_columns totals =
     (let tcs = testCases totals; asserted = assertions totals in
      [summary_column '''' No_Colour (Counts_total tcs) (Counts_total asserted),
       summary_column ''passed'' Colour_Success (passed tcs) (passed asserted),
       summary_column ''failed'' Colour_ResultError (failed tcs) (failed asserted),
       summary_column ''failed as expected'' Colour_ResultExpectedFailure (failedButOk tcs) (failedButOk asserted)])"

definition printTotals :: "Totals \<Rightarrow> piece list" where
  "printTotals totals =
     (if Counts_total (testCases totals) = 0 then [(Colour_Warning, ''No tests ran'' @ [newline])]
      else if Counts_total (assertions totals) > 0 \<and> allPassed (testCases totals)
      then [(Colour_ResultSuccess, ''All tests passed''),
        plain ('' ('' @ pluralise (passed (assertions totals)) ''assertion'' @ '' in '' @
          pluralise (passed (testCases totals)) ''test case'' @ '')'' @ [newline])]
      else printSummaryRow ''test cases'' (summary_columns totals) 0 @
        printSummaryRow ''assertions'' (summary_columns totals) 1)"

section \<open>The reporter\<close>

record ConsoleReporter = StreamingReporterBase +
  con_out :: "piece list"
  m_headerPrinted :: bool

definition ConsoleReporter_new :: "Config \<Rightarrow> catch_error + ConsoleReporter" where
  "ConsoleReporter_new config =
     map_sum id (\<lambda>base. StreamingReporterBase.extend base (ConsoleReporter.fields [] False)) (StreamingReporterBase_new config)"

definition prints :: "piece list \<Rightarrow> ConsoleReporter \<Rightarrow> ConsoleReporter" where
  "prints ps x = x\<lparr>con_out := con_out x @ ps\<rparr>"

definition prints_computed :: "piece list computed \<Rightarrow> ConsoleReporter \<Rightarrow> ConsoleReporter computed" where
  "prints_computed c x = and_then c (\<lambda>ps. computed (prints ps x))"

definition console_noMatchingTestCases :: "string \<Rightarrow> ConsoleReporter \<Rightarrow> ConsoleReporter" where
  "console_noMatchingTestCases spec =
     prints [plain (''No test cases matched '' @ [CHR 0x27] @ spec @ [CHR 0x27, newline])]"

definition console_reportInvalidArguments :: "string \<Rightarrow> ConsoleReporter \<Rightarrow> ConsoleReporter" where
  "console_reportInvalidArguments arg = prints [plain (''Invalid Filter: '' @ arg @ [newline])]"

text \<open>The first \<open>": "\<close> of a header decides the indentation of the lines after the first one.\<close>

definition find_colon :: "string \<Rightarrow> nat option" where
  "find_colon s = find (\<lambda>i. take 2 (drop i s) = '': '') [0..<length s]"

definition header_column :: "string \<Rightarrow> nat \<Rightarrow> Column" where
  "header_column s ind =
     (let i = (case find_colon s of Some j \<Rightarrow> j + 2 | None \<Rightarrow> 0) in
      (Column_new s)\<lparr>m_indentation := ind + i, m_initialIndent := Some ind\<rparr>)"

definition printHeaderString :: "string \<Rightarrow> nat \<Rightarrow> piece list computed" where
  "printHeaderString s ind = column_piece Colour_Headers (header_column s ind)"

definition printOpenHeader :: "string \<Rightarrow> piece list computed" where
  "printOpenHeader nm =
     and_then (printHeaderString nm 0) (\<lambda>ps. computed (plain (getLineOfChars CHR ''-'' @ [newline]) # ps))"

definition printClosedHeader :: "string \<Rightarrow> piece list computed" where
  "printClosedHeader nm =
     and_then (printOpenHeader nm) (\<lambda>ps. computed (ps @ [plain (getLineOfChars CHR ''.'' @ [newline])]))"

definition printTestCaseAndSectionHeader :: "ConsoleReporter \<Rightarrow> piece list computed" where
  "printTestCaseAndSectionHeader x =
     (if m_sectionStack x = [] then Some (Inl Assert_Failed)
      else case stat (currentTestCaseInfo x) of
          None \<Rightarrow> Some (Inl Assert_Failed)
        | Some info \<Rightarrow>
            and_then (printOpenHeader (tc_name info)) (\<lambda>ps.
            and_then (if length (m_sectionStack x) > 1
                then concat_pieces (\<lambda>i. printHeaderString (sec_name i) 2) (tl (m_sectionStack x)) else computed []) (\<lambda>qs.
            computed (ps @ qs @ [plain (getLineOfChars CHR ''-'' @ [newline]),
              (Colour_FileName, show_location (sec_lineInfo (last (m_sectionStack x))) @ [newline] @
                 getLineOfChars CHR ''.'' @ [newline, newline])]))))"

definition lazyPrintRunInfo :: "ConsoleReporter \<Rightarrow> ConsoleReporter computed" where
  "lazyPrintRunInfo x =
     (case stat (currentTestRunInfo x) of
        None \<Rightarrow> Some (Inl Assert_Failed)
      | Some nm \<Rightarrow>
          let seed = rngSeed (cfg_data (reporter_config x)) in
          computed ((prints ([plain ([newline] @ getLineOfChars CHR ''~'' @ [newline]),
              (Colour_SecondaryText, nm @ '' is a Catch v2.13.6 host application.'' @ [newline] @
                 ''Run with -? for options'' @ [newline, newline])] @
              (if seed \<noteq> 0 then [(Colour_SecondaryText, ''Randomness seeded to: '' @ decimal (unat seed) @ [newline, newline])]
               else [])) x)\<lparr>currentTestRunInfo := \<lparr>stat = Some nm, used = True\<rparr>\<rparr>))"

definition lazyPrintGroupInfo :: "ConsoleReporter \<Rightarrow> ConsoleReporter computed" where
  "lazyPrintGroupInfo x =
     (case stat (currentGroupInfo x) of
        None \<Rightarrow> Some (Inl Assert_Failed)
      | Some g \<Rightarrow>
          if gi_name g \<noteq> '''' \<and> groupsCounts g > 1
          then and_then (prints_computed (printClosedHeader (''Group: '' @ gi_name g)) x)
                 (\<lambda>x'. computed (x'\<lparr>currentGroupInfo := \<lparr>stat = Some g, used = True\<rparr>\<rparr>))
          else computed x)"

definition lazyPrint :: "ConsoleReporter \<Rightarrow> ConsoleReporter computed" where
  "lazyPrint x =
     and_then (if \<not> used (currentTestRunInfo x) then lazyPrintRunInfo x else computed x) (\<lambda>x1.
     and_then (if \<not> used (currentGroupInfo x1) then lazyPrintGroupInfo x1 else computed x1) (\<lambda>x2.
     if \<not> m_headerPrinted x2
     then and_then (prints_computed (printTestCaseAndSectionHeader x2) x2) (\<lambda>x3. computed (x3\<lparr>m_headerPrinted := True\<rparr>))
     else computed x2))"

definition includeSuccessfulResults :: "ConsoleReporter \<Rightarrow> bool" where
  "includeSuccessfulResults x \<longleftrightarrow> showSuccessfulTests (cfg_data (reporter_config x))"

definition console_assertionEnded :: "AssertionStats \<Rightarrow> ConsoleReporter \<Rightarrow> ConsoleReporter computed" where
  "console_assertionEnded stats x =
     (let result = assertionResult stats;
          includeResults = (includeSuccessfulResults x \<or> \<not> AssertionResult_isOk result) in
      if \<not> includeResults \<and> resultType result \<noteq> Warning then computed x
      else and_then (lazyPrint x) (\<lambda>x'.
        prints_computed (and_then (print_assertion includeResults stats) (\<lambda>ps. computed (ps @ [plain [newline]]))) x'))"

definition console_sectionStarting :: "SectionInfo \<Rightarrow> ConsoleReporter \<Rightarrow> ConsoleReporter" where
  "console_sectionStarting info x = base_sectionStarting info (x\<lparr>m_headerPrinted := False\<rparr>)"

text \<open>\<open>exceeds\<close>: a duration is at least \<open>minDuration\<close>, which is not negative.\<close>

definition shouldShowDuration :: "(string \<Rightarrow> bool) \<Rightarrow> Config \<Rightarrow> string \<Rightarrow> bool" where
  "shouldShowDuration exceeds config duration =
     (case showDurations (cfg_data config) of
        Always \<Rightarrow> True | Never_durations \<Rightarrow> False | DefaultForReporter \<Rightarrow> exceeds duration)"

definition missing_pieces :: "SectionStats \<Rightarrow> ConsoleReporter \<Rightarrow> piece list" where
  "missing_pieces stats x =
     [(Colour_ResultError, [newline] @ ''No assertions in '' @
        (if length (m_sectionStack x) > 1 then ''section'' else ''test case'') @ '' '' @ [CHR 0x27] @
        sec_name (ss_sectionInfo stats) @ [CHR 0x27, newline, newline])]"

definition console_sectionEnded ::
  "(string \<Rightarrow> bool) \<Rightarrow> SectionStats \<Rightarrow> ConsoleReporter \<Rightarrow> ConsoleReporter computed" where
  "console_sectionEnded exceeds stats x =
     and_then (if missingAssertions stats
         then and_then (lazyPrint x) (\<lambda>x'. computed (prints (missing_pieces stats x') x')) else computed x) (\<lambda>x1.
     let dur = durationInSeconds stats;
         x2 = (if shouldShowDuration exceeds (reporter_config x1) dur
               then prints [plain (dur @ '' s: '' @ sec_name (ss_sectionInfo stats) @ [newline])] x1 else x1) in
     Some (base_sectionEnded (x2\<lparr>m_headerPrinted := False\<rparr>)))"

definition console_testCaseEnded :: "ConsoleReporter \<Rightarrow> ConsoleReporter" where
  "console_testCaseEnded x = (base_testCaseEnded x)\<lparr>m_headerPrinted := False\<rparr>"

definition console_testGroupEnded :: "TestGroupStats \<Rightarrow> ConsoleReporter \<Rightarrow> ConsoleReporter" where
  "console_testGroupEnded stats x =
     base_testGroupEnded (if used (currentGroupInfo x)
       then prints ([plain (getLineOfChars CHR ''-'' @ [newline]),
           plain (''Summary for group '' @ [CHR 0x27] @ gi_name (groupInfo stats) @ [CHR 0x27] @ '':'' @ [newline])] @
         printTotals (tgs_totals stats) @ [plain [newline, newline]]) x
       else x)"

definition console_testRunStarting :: "string \<Rightarrow> ConsoleReporter \<Rightarrow> ConsoleReporter" where
  "console_testRunStarting info x =
     prints (if hasFilters (cfg_testSpec (reporter_config x))
         then [(BrightYellow, ''Filters: '' @ serializeFilters (testsOrTags (cfg_data (reporter_config x))) @ [newline])] else [])
       (base_testRunStarting info x)"

definition console_testRunEnded :: "Totals \<Rightarrow> ConsoleReporter \<Rightarrow> ConsoleReporter computed" where
  "console_testRunEnded totals x =
     and_then (prints_computed (printTotalsDivider totals) x) (\<lambda>x'.
     computed (base_testRunEnded (prints (printTotals totals @ [plain [newline]]) x')))"

text \<open>One call of the reporter; the calls that are not overridden do nothing.\<close>

fun console_report :: "(string \<Rightarrow> bool) \<Rightarrow> Captured \<Rightarrow> report \<Rightarrow> ConsoleReporter \<Rightarrow> ConsoleReporter computed" where
  "console_report exceeds cap (Report_testRunStarting nm) x = computed (console_testRunStarting nm x)"
| "console_report exceeds cap (Report_testGroupStarting info) x = computed (base_testGroupStarting info x)"
| "console_report exceeds cap (Report_testCaseStarting info) x = computed (base_testCaseStarting info x)"
| "console_report exceeds cap (Report_sectionStarting info) x = computed (console_sectionStarting info x)"
| "console_report exceeds cap (Report_assertionEnded result ms totals) x =
     console_assertionEnded (AssertionStats_new result ms totals cap) x"
| "console_report exceeds cap (Report_sectionEnded info cs missing) x =
     console_sectionEnded exceeds
       \<lparr>ss_sectionInfo = info, ss_assertions = cs, durationInSeconds = cap_duration cap, missingAssertions = missing\<rparr> x"
| "console_report exceeds cap (Report_testCaseEnded info totals ab) x = computed (console_testCaseEnded x)"
| "console_report exceeds cap (Report_testGroupEnded info totals ab) x =
     computed (console_testGroupEnded \<lparr>groupInfo = info, tgs_totals = totals, tgs_aborting = ab\<rparr> x)"
| "console_report exceeds cap (Report_testRunEnded nm totals ab) x = console_testRunEnded totals x"
| "console_report exceeds cap (Report_noMatchingTestCases spec) x = computed (console_noMatchingTestCases spec x)"
| "console_report exceeds cap (Report_invalidArguments arg) x = computed (console_reportInvalidArguments arg x)"
| "console_report exceeds cap _ x = computed x"

fun console_reports ::
  "(string \<Rightarrow> bool) \<Rightarrow> (nat \<Rightarrow> Captured) \<Rightarrow> report list \<Rightarrow> ConsoleReporter \<Rightarrow> ConsoleReporter computed" where
  "console_reports exceeds cap [] x = computed x"
| "console_reports exceeds cap (r # rs) x =
     and_then (console_report exceeds (cap 0) r x) (console_reports exceeds (cap \<circ> Suc) rs)"

end
