(* ===== verification/Catch_Console_Report.thy ===== *)
theory Catch_Console_Report
  imports Catch_Console_Reporter Catch_Xml_Report Catch_Text_Wrap "HOL-Library.Sublist"
begin

text \<open>
  The console report: the bar at its end has the width of the console and shows every failure; the
  reporter takes all calls of a run and prints what has to be printed, unless a header cannot be
  broken into lines.
\<close>

section \<open>The bar of the totals\<close>

text \<open>A part of the bar is there exactly when there are such test cases.\<close>

definition shares :: "u64 \<Rightarrow> u64 \<Rightarrow> u64 \<Rightarrow> u64 \<times> u64 \<times> u64 \<Rightarrow> bool" where
  "shares f b p r = (case r of (i, j, k) \<Rightarrow> (i = 0 \<longleftrightarrow> f = 0) \<and> (j = 0 \<longleftrightarrow> b = 0) \<and> (k = 0 \<longleftrightarrow> p = 0))"

definition bar_sum :: "u64 \<times> u64 \<times> u64 \<Rightarrow> nat" where
  "bar_sum r = (case r of (i, j, k) \<Rightarrow> unat i + unat j + unat k)"

lemma unat_sum3:
  fixes i j k :: u64
  assumes "unat i + unat j + unat k < 2 ^ 64"
  shows "unat (i + j + k) = unat i + unat j + unat k"
  using assms by (simp add: unat_word_ariths)

lemma makeRatio_le:
  assumes "unat number \<le> unat all_cases"
  shows "unat (makeRatio number all_cases) \<le> 80"
proof -
  let ?m = "of_nat CONSOLE_WIDTH * number :: u64"
  have "unat ?m \<le> 80 * unat number"
    by (simp add: unat_word_ariths CONSOLE_WIDTH_def)
  then have "unat (?m div all_cases) \<le> 80 * unat number div unat all_cases"
    by (simp add: unat_div div_le_mono)
  also have "\<dots> \<le> 80 * unat all_cases div unat all_cases"
    using assms by (intro div_le_mono mult_le_mono2)
  also have "\<dots> \<le> 80" by simp
  finally show ?thesis by (simp add: makeRatio_def Let_def)
qed

lemma makeRatio_zero:
  assumes "unat number \<le> unat all_cases"
  shows "makeRatio number all_cases = 0 \<longleftrightarrow> number = 0"
proof (cases "number = 0")
  case False
  then show ?thesis by (auto simp: makeRatio_def Let_def word_gt_0)
qed (simp add: makeRatio_def CONSOLE_WIDTH_def)

lemma findMax_cases:
  obtains "findMax f i j k = (f i, j, k)" "j \<le> i" "k \<le> i"
  | "findMax f i j k = (i, f j, k)" "i \<le> j" "k \<le> j"
  | "findMax f i j k = (i, j, f k)" "i \<le> k" "j \<le> k"
  by (cases "i > j \<and> i > k"; cases "j > k") (auto simp: findMax_def not_less)

lemma one_more:
  fixes i :: u64
  assumes "0 < unat i" and "unat i < 200"
  shows "unat (i + 1) = Suc (unat i)" and "i \<noteq> 0" and "i + 1 \<noteq> 0"
proof -
  show eq: "unat (i + 1) = Suc (unat i)" using assms(2) by (simp add: unat_word_ariths)
  show "i \<noteq> 0" using assms(1) by auto
  show "i + 1 \<noteq> 0" using eq by auto
qed

lemma one_less:
  fixes i :: u64
  assumes "1 < unat i"
  shows "Suc (unat (i - 1)) = unat i" and "i \<noteq> 0" and "i - 1 \<noteq> 0"
proof -
  have "(1 :: u64) \<le> i" using assms by (simp add: word_le_nat_alt)
  then show eq: "Suc (unat (i - 1)) = unat i" using assms by (simp add: unat_sub)
  show "i \<noteq> 0" using assms by auto
  show "i - 1 \<noteq> 0" using eq assms by (auto simp del: eq_iff_diff_eq_0)
qed

lemma findMax_more:
  assumes "0 < bar_sum (i, j, k)" and "bar_sum (i, j, k) < 200"
  shows "bar_sum (findMax (\<lambda>n. n + 1) i j k) = Suc (bar_sum (i, j, k)) \<and>
    (shares f b p (findMax (\<lambda>n. n + 1) i j k) \<longleftrightarrow> shares f b p (i, j, k))"
proof (rule findMax_cases [where f = "\<lambda>n. n + 1" and i = i and j = j and k = k])
  assume c1: "findMax (\<lambda>n. n + 1) i j k = (i + 1, j, k)" "j \<le> i" "k \<le> i"
  have "0 < unat i" "unat i < 200" using assms c1(2,3) by (auto simp: bar_sum_def word_le_nat_alt)
  from one_more [OF this] show ?thesis by (simp add: c1(1) bar_sum_def shares_def)
next
  assume c2: "findMax (\<lambda>n. n + 1) i j k = (i, j + 1, k)" "i \<le> j" "k \<le> j"
  have "0 < unat j" "unat j < 200" using assms c2(2,3) by (auto simp: bar_sum_def word_le_nat_alt)
  from one_more [OF this] show ?thesis by (simp add: c2(1) bar_sum_def shares_def)
next
  assume c3: "findMax (\<lambda>n. n + 1) i j k = (i, j, k + 1)" "i \<le> k" "j \<le> k"
  have "0 < unat k" "unat k < 200" using assms c3(2,3) by (auto simp: bar_sum_def word_le_nat_alt)
  from one_more [OF this] show ?thesis by (simp add: c3(1) bar_sum_def shares_def)
qed

lemma findMax_less:
  assumes "3 < bar_sum (i, j, k)"
  shows "Suc (bar_sum (findMax (\<lambda>n. n - 1) i j k)) = bar_sum (i, j, k) \<and>
    (shares f b p (findMax (\<lambda>n. n - 1) i j k) \<longleftrightarrow> shares f b p (i, j, k))"
proof (rule findMax_cases [where f = "\<lambda>n. n - 1" and i = i and j = j and k = k])
  assume c1: "findMax (\<lambda>n. n - 1) i j k = (i - 1, j, k)" "j \<le> i" "k \<le> i"
  have "1 < unat i" using assms c1(2,3) by (simp add: bar_sum_def word_le_nat_alt)
  from one_less [OF this] show ?thesis by (simp add: c1(1) bar_sum_def shares_def)
next
  assume c2: "findMax (\<lambda>n. n - 1) i j k = (i, j - 1, k)" "i \<le> j" "k \<le> j"
  have "1 < unat j" using assms c2(2,3) by (simp add: bar_sum_def word_le_nat_alt)
  from one_less [OF this] show ?thesis by (simp add: c2(1) bar_sum_def shares_def)
next
  assume c3: "findMax (\<lambda>n. n - 1) i j k = (i, j, k - 1)" "i \<le> k" "j \<le> k"
  have "1 < unat k" using assms c3(2,3) by (simp add: bar_sum_def word_le_nat_alt)
  from one_less [OF this] show ?thesis by (simp add: c3(1) bar_sum_def shares_def)
qed

lemma less_79: "bar_sum (i, j, k) < 300 \<Longrightarrow> (i + j + k < of_nat (CONSOLE_WIDTH - 1)) = (bar_sum (i, j, k) < 79)"
  and more_79: "bar_sum (i, j, k) < 300 \<Longrightarrow> (i + j + k > of_nat (CONSOLE_WIDTH - 1)) = (bar_sum (i, j, k) > 79)"
  by (simp_all add: bar_sum_def word_less_nat_alt unat_sum3 CONSOLE_WIDTH_def)

lemma widen_ends:
  assumes "0 < bar_sum r" and "bar_sum r < 300"
  shows "\<exists>r'. widen r = Some r' \<and> bar_sum r' = max 79 (bar_sum r) \<and> (shares f b p r' \<longleftrightarrow> shares f b p r)"
  using assms
proof (induction "79 - bar_sum r" arbitrary: r rule: less_induct)
  case less
  obtain i j k where r: "r = (i, j, k)" by (rule prod_cases3)
  show ?case
  proof (cases "bar_sum r < 79")
    case True
    let ?r = "findMax (\<lambda>n. n + 1) i j k"
    have step: "bar_sum ?r = Suc (bar_sum r)" "shares f b p ?r = shares f b p r"
      using findMax_more [of i j k f b p] less.prems r True by simp_all
    have "widen r = widen ?r" using True less_79 [of i j k] r by (subst widen.simps) simp
    moreover have "\<exists>r'. widen ?r = Some r' \<and> bar_sum r' = max 79 (bar_sum ?r) \<and> (shares f b p r' \<longleftrightarrow> shares f b p ?r)"
      using step(1) True by (intro less.hyps) simp_all
    ultimately show ?thesis using step True by auto
  next
    case False
    then have "widen r = Some r" using less_79 [of i j k] less.prems r by (subst widen.simps) simp
    then show ?thesis using False by (simp add: max_def)
  qed
qed

lemma narrow_ends:
  assumes "79 \<le> bar_sum r" and "bar_sum r < 300"
  shows "\<exists>r'. narrow_ratios r = Some r' \<and> bar_sum r' = 79 \<and> (shares f b p r' \<longleftrightarrow> shares f b p r)"
  using assms
proof (induction "bar_sum r" arbitrary: r rule: less_induct)
  case less
  obtain i j k where r: "r = (i, j, k)" by (rule prod_cases3)
  show ?case
  proof (cases "79 < bar_sum r")
    case True
    let ?r = "findMax (\<lambda>n. n - 1) i j k"
    have step: "Suc (bar_sum ?r) = bar_sum r" "shares f b p ?r = shares f b p r"
      using findMax_less [of i j k f b p] True r by simp_all
    have "narrow_ratios r = narrow_ratios ?r"
      using True more_79 [of i j k] less.prems r by (subst narrow_ratios.simps) simp
    moreover have "\<exists>r'. narrow_ratios ?r = Some r' \<and> bar_sum r' = 79 \<and> (shares f b p r' \<longleftrightarrow> shares f b p ?r)"
      using step(1) True less.prems by (intro less.hyps) simp_all
    ultimately show ?thesis using step by auto
  next
    case False
    then have "narrow_ratios r = Some r" using more_79 [of i j k] less.prems r by (subst narrow_ratios.simps) simp
    then show ?thesis using False less.prems by simp
  qed
qed

lemma divider_bar:
  assumes "unat (passed tcs) + unat (failed tcs) + unat (failedButOk tcs) < 2 ^ 64" and "tcs = testCases totals"
    and "Counts_total tcs \<noteq> 0"
  shows "\<exists>i j k c. printTotalsDivider totals = Some (Inr [(Colour_Error, replicate i CHR ''=''),
      (Colour_ResultExpectedFailure, replicate j CHR ''=''), (c, replicate k CHR ''=''), plain [newline]]) \<and>
    i + j + k = CONSOLE_WIDTH - 1 \<and> (0 < i \<longleftrightarrow> failed tcs \<noteq> 0) \<and> (0 < j \<longleftrightarrow> failedButOk tcs \<noteq> 0) \<and>
    (0 < k \<longleftrightarrow> passed tcs \<noteq> 0) \<and> (c = Colour_ResultSuccess \<longleftrightarrow> failed tcs = 0 \<and> failedButOk tcs = 0)"
proof -
  let ?all = "Counts_total tcs"
  let ?r = "(makeRatio (failed tcs) ?all, makeRatio (failedButOk tcs) ?all, makeRatio (passed tcs) ?all)"
  have all: "unat ?all = unat (passed tcs) + unat (failed tcs) + unat (failedButOk tcs)"
    using assms(1) by (simp add: Counts_total_def unat_sum3)
  then have le: "unat (failed tcs) \<le> unat ?all" "unat (failedButOk tcs) \<le> unat ?all" "unat (passed tcs) \<le> unat ?all"
    by simp_all
  have shares: "shares (failed tcs) (failedButOk tcs) (passed tcs) ?r"
    by (simp add: shares_def makeRatio_zero le)
  have "bar_sum ?r \<le> 240"
    using makeRatio_le [OF le(1)] makeRatio_le [OF le(2)] makeRatio_le [OF le(3)] by (simp add: bar_sum_def)
  moreover have "0 < bar_sum ?r"
  proof -
    have "0 < unat ?all" using assms(3) by (simp add: unat_gt_0)
    then have "passed tcs \<noteq> 0 \<or> failed tcs \<noteq> 0 \<or> failedButOk tcs \<noteq> 0" using all by auto
    then show ?thesis using shares by (auto simp: shares_def bar_sum_def unat_gt_0)
  qed
  ultimately obtain r1 where r1: "widen ?r = Some r1" "bar_sum r1 = max 79 (bar_sum ?r)"
      "shares (failed tcs) (failedButOk tcs) (passed tcs) r1"
    using widen_ends [of ?r "failed tcs" "failedButOk tcs" "passed tcs"] shares by force
  obtain i j k where ijk: "narrow_ratios r1 = Some (i, j, k)" "bar_sum (i, j, k) = 79"
      "shares (failed tcs) (failedButOk tcs) (passed tcs) (i, j, k)"
    using narrow_ends [of r1 "failed tcs" "failedButOk tcs" "passed tcs"] r1 \<open>bar_sum ?r \<le> 240\<close> by force
  have "Counts_total tcs > 0" using assms(3) by (simp add: word_gt_0)
  then have "printTotalsDivider totals = Some (Inr [(Colour_Error, bar i), (Colour_ResultExpectedFailure, bar j),
      (if allPassed tcs then Colour_ResultSuccess else Colour_Success, bar k), plain [newline]])"
    using r1(1) ijk(1) assms(2) by (simp add: printTotalsDivider_def computed_def Let_def)
  then show ?thesis
    using ijk(2,3)
    by (intro exI [of _ "unat i"] exI [of _ "unat j"] exI [of _ "unat k"]
        exI [of _ "if allPassed tcs then Colour_ResultSuccess else Colour_Success"])
      (simp add: bar_def bar_sum_def shares_def CONSOLE_WIDTH_def allPassed_def Colour_ResultSuccess_def Colour_Success_def
        unat_gt_0)
qed

text \<open>
  C32. The bar at the end of the report is as wide as the console, for any counts whose sum does not
  wrap around, and shows every kind of result: its first part is there exactly when a test case
  has failed, the second one when one has failed as expected, the third one when one has passed.
\<close>

theorem divider_shows_failures:
  assumes "unat (passed tcs) + unat (failed tcs) + unat (failedButOk tcs) < 2 ^ 64" and "tcs = testCases totals"
    and "Counts_total tcs \<noteq> 0"
  shows "\<exists>i j k c. printTotalsDivider totals = Some (Inr [(Colour_Error, replicate i CHR ''=''),
      (Colour_ResultExpectedFailure, replicate j CHR ''=''), (c, replicate k CHR ''=''), plain [newline]]) \<and>
    i + j + k = CONSOLE_WIDTH - 1 \<and> (0 < i \<longleftrightarrow> failed tcs \<noteq> 0) \<and> (0 < j \<longleftrightarrow> failedButOk tcs \<noteq> 0) \<and>
    (0 < k \<longleftrightarrow> passed tcs \<noteq> 0) \<and> (c = Colour_ResultSuccess \<longleftrightarrow> failed tcs = 0 \<and> failedButOk tcs = 0)"
  by (rule divider_bar [OF assms])

theorem divider_shows_failures_witness:
  "\<exists>i j k c. printTotalsDivider (Totals_zero\<lparr>testCases := \<lparr>passed = 997, failed = 1, failedButOk = 0\<rparr>\<rparr>) =
      Some (Inr [(Colour_Error, replicate i CHR ''=''), (Colour_ResultExpectedFailure, replicate j CHR ''=''),
        (c, replicate k CHR ''=''), plain [newline]]) \<and>
    i + j + k = CONSOLE_WIDTH - 1 \<and> 0 < i \<and> j = 0 \<and> 0 < k \<and> c \<noteq> Colour_ResultSuccess"
  using divider_shows_failures [of "\<lparr>passed = 997, failed = 1, failedButOk = 0\<rparr>"
      "Totals_zero\<lparr>testCases := \<lparr>passed = 997, failed = 1, failedButOk = 0\<rparr>\<rparr>"]
  by (simp add: Counts_total_def)

text \<open>
  A zero that is padded to the width of its column is not taken for a zero: after one failed test
  case with ten passed assertions the summary says \<open>0 passed\<close>.
\<close>

theorem padded_zero_is_shown:
  assumes "passed (testCases totals) = 0" and "passed (assertions totals) = 10"
  shows "summary_cell label 0 (summary_columns totals ! 1) = [(LightGrey, '' | ''), (Colour_Success, '' 0 passed'')]"
proof -
  have "decimal 0 = ''0''" "decimal 10 = ''10''" by code_simp+
  then show ?thesis
    using assms by (simp add: summary_columns_def summary_column_def addRow_def summary_cell_def Let_def)
qed

section \<open>Headers and texts that can be printed\<close>

lemma computed_simps [simp]:
  "and_then (computed v) f = f v" "and_then (Some (Inr v)) f = f v" "computed v = computed w \<longleftrightarrow> v = w"
  by (simp_all add: and_then_def computed_def)

lemma column_piece_ok:
  assumes "roomy col text"
  shows "\<exists>ps. column_piece c col = computed ps"
  using column_wraps [OF assms] by (auto simp: column_piece_def Column_toString_def)

lemma indented_text_ok: "\<exists>ps. column_piece c ((Column_new text)\<lparr>m_indentation := 2\<rparr>) = computed ps"
  by (rule column_piece_ok [of _ "text"]) (simp add: roomy_def Column_new_def CONSOLE_WIDTH_def)

lemma concat_pieces_ok: "(\<And>x. x \<in> set xs \<Longrightarrow> \<exists>ps. f x = computed ps) \<Longrightarrow> \<exists>ps. concat_pieces f xs = computed ps"
proof (induction xs)
  case (Cons x xs)
  then obtain ps qs where "f x = computed ps" "concat_pieces f xs = computed qs" by fastforce
  then show ?case by auto
qed simp

text \<open>A name whose first \<open>": "\<close>, if any, leaves two columns for the lines after the first.\<close>

definition header_fits :: "string \<Rightarrow> nat \<Rightarrow> bool" where
  "header_fits s ind \<longleftrightarrow> ind \<le> 77 \<and> (case find_colon s of None \<Rightarrow> True | Some j \<Rightarrow> ind + j \<le> 75)"

lemma printHeaderString_ok: "header_fits s ind \<Longrightarrow> \<exists>ps. printHeaderString s ind = computed ps"
  unfolding printHeaderString_def
  by (rule column_piece_ok [of _ s])
    (auto simp: roomy_def header_column_def header_fits_def Column_new_def CONSOLE_WIDTH_def Let_def split: option.splits)

lemma printOpenHeader_ok: "header_fits s 0 \<Longrightarrow> \<exists>ps. printOpenHeader s = computed ps"
  using printHeaderString_ok [of s 0] by (auto simp: printOpenHeader_def)

lemma group_header_fits: "header_fits (''Group: '' @ nm) 0"
proof -
  have "[0..<length (''Group: '' @ nm)] = [0, 1, 2, 3, 4, 5] @ [6..<length (''Group: '' @ nm)]"
    by (simp add: upt_rec numeral_eq_Suc)
  then have "find_colon (''Group: '' @ nm) = Some 5"
    unfolding find_colon_def by (simp add: numeral_eq_Suc)
  then show ?thesis by (simp add: header_fits_def)
qed

lemma printClosedHeader_ok: "\<exists>ps. printClosedHeader (''Group: '' @ nm) = computed ps"
  using printOpenHeader_ok [OF group_header_fits, of nm] by (auto simp: printClosedHeader_def)

lemma print_assertion_ok: "\<exists>ps. print_assertion b stats = computed (source_piece (assertionResult stats) # ps)"
proof -
  let ?r = "assertionResult stats"
  have "\<exists>ps. printReconstructedExpression ?r = computed ps"
    using indented_text_ok [of Colour_ReconstructedExpression "getExpandedExpression ?r"]
    by (auto simp: printReconstructedExpression_def)
  then obtain ps where ps: "printReconstructedExpression ?r = computed ps" by blast
  have "\<exists>qs. concat_pieces (\<lambda>msg.
         if b \<or> mi_type msg \<noteq> Info
         then column_piece No_Colour ((Column_new (mi_message msg))\<lparr>m_indentation := 2\<rparr>) else computed [])
       (infoMessages stats) = computed qs"
    using indented_text_ok by (intro concat_pieces_ok) simp
  then obtain qs where "printMessage b stats = computed qs" by (auto simp: printMessage_def)
  with ps show ?thesis by (simp add: print_assertion_def Let_def)
qed

section \<open>The calls of a run\<close>

text \<open>What the reporter has to know in a phase.\<close>

definition con_ok :: "Config \<Rightarrow> phase \<Rightarrow> ConsoleReporter \<Rightarrow> bool" where
  "con_ok config p x \<longleftrightarrow> reporter_config x = config \<and> length (m_sectionStack x) = sections_in p \<and>
     (\<forall>i \<in> set (m_sectionStack x). header_fits (sec_name i) 2) \<and>
     (case p of
        Before_Run \<Rightarrow> True
      | In_Run \<Rightarrow> stat (currentTestRunInfo x) \<noteq> None
      | In_Group ts \<Rightarrow> stat (currentTestRunInfo x) \<noteq> None \<and> stat (currentGroupInfo x) \<noteq> None
      | Case_Opened ts \<Rightarrow> stat (currentTestRunInfo x) \<noteq> None \<and> stat (currentGroupInfo x) \<noteq> None \<and>
          (\<exists>t. stat (currentTestCaseInfo x) = Some t \<and> header_fits (tc_name t) 0)
      | In_Case ts d \<Rightarrow> stat (currentTestRunInfo x) \<noteq> None \<and> stat (currentGroupInfo x) \<noteq> None \<and>
          (\<exists>t. stat (currentTestCaseInfo x) = Some t \<and> header_fits (tc_name t) 0)
      | _ \<Rightarrow> True)"

definition adds :: "ConsoleReporter \<Rightarrow> piece list \<Rightarrow> ConsoleReporter \<Rightarrow> bool" where
  "adds x ps x' \<longleftrightarrow> (\<exists>qs. con_out x' = con_out x @ qs \<and> subseq ps qs)"

lemma prints_ok: "con_ok config p x \<Longrightarrow> con_ok config p (prints ps x)"
  by (simp add: prints_def con_ok_def split: phase.splits)

lemma header_ok:
  assumes "con_ok config (In_Case ts (Suc d)) x"
  shows "\<exists>ps. printTestCaseAndSectionHeader x = computed ps"
proof -
  obtain t where t: "stat (currentTestCaseInfo x) = Some t" "header_fits (tc_name t) 0"
    using assms by (auto simp: con_ok_def)
  have st: "m_sectionStack x \<noteq> []" using assms by (auto simp: con_ok_def)
  obtain ps where ps: "printOpenHeader (tc_name t) = computed ps" using printOpenHeader_ok [OF t(2)] by blast
  have "\<exists>qs. concat_pieces (\<lambda>i. printHeaderString (sec_name i) 2) (tl (m_sectionStack x)) = computed qs"
    using assms by (intro concat_pieces_ok printHeaderString_ok) (use st in \<open>cases "m_sectionStack x"; auto simp: con_ok_def\<close>)
  then show ?thesis using t(1) st ps by (auto simp: printTestCaseAndSectionHeader_def)
qed

lemma lazyPrint_ok:
  assumes "con_ok config (In_Case ts (Suc d)) x"
  shows "\<exists>x'. lazyPrint x = computed x' \<and> con_ok config (In_Case ts (Suc d)) x' \<and> adds x [] x' \<and>
    m_sectionStack x' = m_sectionStack x"
proof -
  let ?ok = "con_ok config (In_Case ts (Suc d))"
  define good where "good = (\<lambda>y. ?ok y \<and> adds x [] y \<and> m_sectionStack y = m_sectionStack x)"
  have good: "good (prints ps y)" if "good y" for ps y
    using that prints_ok [of config "In_Case ts (Suc d)" y ps] by (auto simp: good_def adds_def prints_def)
  have x: "good x" using assms by (simp add: good_def adds_def)
  have run: "\<exists>y'. (if \<not> used (currentTestRunInfo y) then lazyPrintRunInfo y else computed y) = computed y' \<and> good y'"
    if y: "good y" for y
  proof -
    obtain nm where nm: "stat (currentTestRunInfo y) = Some nm" using y by (auto simp: good_def con_ok_def)
    have "good ((prints ps y)\<lparr>currentTestRunInfo := \<lparr>stat = Some nm, used = True\<rparr>\<rparr>)" for ps
      using good [OF y, of ps] by (auto simp: good_def con_ok_def adds_def)
    then show ?thesis using y nm by (auto simp: lazyPrintRunInfo_def Let_def)
  qed
  have group: "\<exists>y'. (if \<not> used (currentGroupInfo y) then lazyPrintGroupInfo y else computed y) = computed y' \<and> good y'"
    if y: "good y" for y
  proof -
    obtain g where g: "stat (currentGroupInfo y) = Some g" using y by (auto simp: good_def con_ok_def)
    have "good ((prints ps y)\<lparr>currentGroupInfo := \<lparr>stat = Some g, used = True\<rparr>\<rparr>)" for ps
      using good [OF y, of ps] by (auto simp: good_def con_ok_def adds_def)
    then show ?thesis
      using y g printClosedHeader_ok [of "gi_name g"] by (auto simp: lazyPrintGroupInfo_def prints_computed_def)
  qed
  have head: "\<exists>y'. (if \<not> m_headerPrinted y
      then and_then (prints_computed (printTestCaseAndSectionHeader y) y) (\<lambda>z. computed (z\<lparr>m_headerPrinted := True\<rparr>))
      else computed y) = computed y' \<and> good y'" if y: "good y" for y
  proof -
    have "good ((prints ps y)\<lparr>m_headerPrinted := True\<rparr>)" for ps
      using good [OF y, of ps] by (auto simp: good_def con_ok_def adds_def)
    then show ?thesis
      using y header_ok [of config ts d y] by (auto simp: prints_computed_def good_def)
  qed
  obtain y1 where y1: "(if \<not> used (currentTestRunInfo x) then lazyPrintRunInfo x else computed x) = computed y1" "good y1"
    using run [OF x] by blast
  obtain y2 where y2: "(if \<not> used (currentGroupInfo y1) then lazyPrintGroupInfo y1 else computed y1) = computed y2" "good y2"
    using group [OF y1(2)] by blast
  obtain y3 where y3: "(if \<not> m_headerPrinted y2
      then and_then (prints_computed (printTestCaseAndSectionHeader y2) y2) (\<lambda>z. computed (z\<lparr>m_headerPrinted := True\<rparr>))
      else computed y2) = computed y3" "good y3"
    using head [OF y2(2)] by blast
  have "lazyPrint x = computed y3" unfolding lazyPrint_def y1(1) computed_simps y2(1) by (rule y3(1))
  then show ?thesis using y3(2) by (auto simp: good_def)
qed

text \<open>What can be printed, and what has to be.\<close>

fun printable :: "report \<Rightarrow> bool" where
  "printable (Report_testCaseStarting info) \<longleftrightarrow> header_fits (tc_name info) 0"
| "printable (Report_sectionStarting info) \<longleftrightarrow> header_fits (sec_name info) 2"
| "printable (Report_testRunEnded nm totals ab) \<longleftrightarrow> unat (passed (testCases totals)) +
     unat (failed (testCases totals)) + unat (failedButOk (testCases totals)) < 2 ^ 64"
| "printable _ \<longleftrightarrow> True"

fun must_show :: "Config \<Rightarrow> report \<Rightarrow> piece list" where
  "must_show config (Report_assertionEnded result ms totals) =
     (if \<not> AssertionResult_isOk result \<or> resultType result = Warning \<or> showSuccessfulTests (cfg_data config)
      then [source_piece result] else [])"
| "must_show config (Report_testRunEnded nm totals ab) = printTotals totals"
| "must_show config (Report_noMatchingTestCases spec) =
     [plain (''No test cases matched '' @ [CHR 0x27] @ spec @ [CHR 0x27, newline])]"
| "must_show config (Report_invalidArguments arg) = [plain (''Invalid Filter: '' @ arg @ [newline])]"
| "must_show config _ = []"

lemma adds_refl [simp]: "adds x [] x"
  by (simp add: adds_def)

lemma adds_trans: "adds x ps y \<Longrightarrow> adds y qs z \<Longrightarrow> adds x (ps @ qs) z"
  by (auto simp: adds_def intro: list_emb_append_mono)

lemma adds_out: "con_out x' = con_out x @ qs \<Longrightarrow> subseq ps qs \<Longrightarrow> adds x ps x'"
  by (auto simp: adds_def)

lemma assertionEnded_ok:
  assumes "con_ok config (In_Case ts (Suc d)) x"
  shows "\<exists>x'. console_assertionEnded (AssertionStats_new result ms totals cap) x = computed x' \<and>
    con_ok config (In_Case ts (Suc d)) x' \<and> adds x (must_show config (Report_assertionEnded result ms totals)) x'"
proof -
  let ?s = "AssertionStats_new result ms totals cap"
  have r: "assertionResult ?s = result" by (simp add: AssertionStats_new_def)
  have config: "reporter_config x = config" using assms by (simp add: con_ok_def)
  let ?incl = "includeSuccessfulResults x \<or> \<not> AssertionResult_isOk result"
  show ?thesis
  proof (cases "\<not> ?incl \<and> resultType result \<noteq> Warning")
    case True
    then show ?thesis
      using assms config by (simp add: console_assertionEnded_def r Let_def includeSuccessfulResults_def)
  next
    case False
    obtain x1 where x1: "lazyPrint x = computed x1" "con_ok config (In_Case ts (Suc d)) x1" "adds x [] x1"
      using lazyPrint_ok [OF assms] by blast
    obtain ps where ps: "print_assertion ?incl ?s = computed (source_piece result # ps)"
      using print_assertion_ok [of ?incl ?s] r by auto
    have "console_assertionEnded ?s x = computed (prints (source_piece result # ps @ [plain [newline]]) x1)"
      using False by (simp only: console_assertionEnded_def r Let_def x1(1) computed_simps ps prints_computed_def if_False) simp
    moreover have "adds x1 (must_show config (Report_assertionEnded result ms totals))
        (prints (source_piece result # ps @ [plain [newline]]) x1)"
      by (rule adds_out [where qs = "source_piece result # ps @ [plain [newline]]"]) (simp_all add: prints_def)
    ultimately show ?thesis
      using prints_ok [OF x1(2)] adds_trans [OF x1(3)] by fastforce
  qed
qed

lemma sectionEnded_ok:
  assumes "con_ok config (In_Case ts (Suc d)) x"
  shows "\<exists>x'. console_sectionEnded exceeds stats x = computed x' \<and> con_ok config (In_Case ts d) x' \<and> adds x [] x'"
proof -
  define good where "good = (\<lambda>y. con_ok config (In_Case ts (Suc d)) y \<and> adds x [] y)"
  have good: "good (prints ps y)" if "good y" for ps y
    using that prints_ok [of config "In_Case ts (Suc d)" y ps] by (auto simp: good_def adds_def prints_def)
  have "\<exists>x1. (if missingAssertions stats
         then and_then (lazyPrint x) (\<lambda>x'. computed (prints (missing_pieces stats x') x')) else computed x) = computed x1 \<and> good x1"
  proof (cases "missingAssertions stats")
    case True
    obtain x1 where x1: "lazyPrint x = computed x1" "con_ok config (In_Case ts (Suc d)) x1" "adds x [] x1"
      using lazyPrint_ok [OF assms] by blast
    then have "good x1" by (simp add: good_def)
    from good [OF this] x1(1) True show ?thesis by auto
  next
    case False
    then show ?thesis using assms by (simp add: good_def)
  qed
  then obtain x1 where x1: "(if missingAssertions stats
         then and_then (lazyPrint x) (\<lambda>x'. computed (prints (missing_pieces stats x') x')) else computed x) = computed x1"
    "good x1" by blast
  let ?x2 = "if shouldShowDuration exceeds (reporter_config x1) (durationInSeconds stats)
    then prints [plain (durationInSeconds stats @ '' s: '' @ sec_name (ss_sectionInfo stats) @ [newline])] x1 else x1"
  have x2: "good ?x2" using good x1(2) by simp
  then have st: "m_sectionStack ?x2 \<noteq> []" by (auto simp: good_def con_ok_def)
  have set: "set (butlast (m_sectionStack ?x2)) \<subseteq> set (m_sectionStack ?x2)" by (auto dest: in_set_butlastD)
  let ?x' = "?x2\<lparr>m_headerPrinted := False, m_sectionStack := butlast (m_sectionStack ?x2)\<rparr>"
  have "con_ok config (In_Case ts d) ?x' \<and> adds x [] ?x'"
    using x2 set by (auto simp: good_def con_ok_def adds_def)
  moreover have "console_sectionEnded exceeds stats x = computed ?x'"
    unfolding console_sectionEnded_def x1(1) computed_simps Let_def
    using st by (simp add: base_sectionEnded_def computed_def del: if_split)
  ultimately show ?thesis by blast
qed

lemma testRunEnded_ok:
  assumes "con_ok config (Group_Over ts) x" and "printable (Report_testRunEnded nm totals ab)"
  shows "\<exists>x'. console_testRunEnded totals x = computed x' \<and> con_ok config (Run_Over ts) x' \<and> adds x (printTotals totals) x'"
proof -
  have "\<exists>ps. printTotalsDivider totals = computed ps"
  proof (cases "Counts_total (testCases totals) = 0")
    case True
    then show ?thesis by (simp add: printTotalsDivider_def)
  next
    case False
    then show ?thesis using divider_bar [OF _ refl False] assms(2) by (auto simp: computed_def)
  qed
  then obtain ps where ps: "printTotalsDivider totals = computed ps" by blast
  then have "console_testRunEnded totals x =
      computed (base_testRunEnded (prints (printTotals totals @ [plain [newline]]) (prints ps x)))"
    by (simp add: console_testRunEnded_def prints_computed_def)
  moreover have "adds x (printTotals totals) (base_testRunEnded (prints (printTotals totals @ [plain [newline]]) (prints ps x)))"
    by (rule adds_out [where qs = "ps @ printTotals totals @ [plain [newline]]"])
      (simp_all add: base_testRunEnded_def prints_def subseq_drop_many subseq_rev_drop_many)
  ultimately show ?thesis
    using assms(1) by (auto simp: con_ok_def base_testRunEnded_def prints_def)
qed

lemma console_report_ok:
  assumes "con_ok config p x" and "next_phase p r = Some q" and "printable r"
  shows "\<exists>x'. console_report exceeds cap r x = computed x' \<and> con_ok config q x' \<and> adds x (must_show config r) x'"
proof -
  have start: "con_ok config (In_Case ts (Suc d)) (console_sectionStarting i x)" "adds x [] (console_sectionStarting i x)"
    if "con_ok config (In_Case ts d) x" "header_fits (sec_name i) 2" for ts d i
    using that by (auto simp: con_ok_def console_sectionStarting_def base_sectionStarting_def adds_def)
  show ?thesis
  proof (cases p)
    case (Case_Opened ts)
    have "con_ok config (In_Case ts 0) x" using assms(1) Case_Opened by (simp add: con_ok_def)
    then show ?thesis using start [of ts 0] assms(2,3) Case_Opened by (cases r) auto
  next
    case (In_Case ts d)
    then show ?thesis
    proof (cases r)
      case (Report_sectionStarting i)
      then show ?thesis using start [of ts d] assms In_Case by auto
    next
      case (Report_sectionEnded i cs m)
      then obtain d' where "d = Suc d'" using assms(2) In_Case by (cases d) auto
      then show ?thesis using sectionEnded_ok [of config ts d' x] assms In_Case Report_sectionEnded by auto
    next
      case (Report_assertionEnded result ms totals)
      then obtain d' where "d = Suc d'" using assms(2) In_Case by (cases d) auto
      then show ?thesis using assertionEnded_ok [of config ts d' x] assms In_Case Report_assertionEnded by auto
    next
      case (Report_testCaseEnded t tot ab)
      then show ?thesis
        using assms In_Case by (auto simp: con_ok_def console_testCaseEnded_def base_testCaseEnded_def adds_def split: if_splits)
    qed (use assms In_Case in \<open>auto split: if_splits\<close>)
  next
    case (In_Group ts)
    then show ?thesis
      using assms by (cases r) (auto simp: con_ok_def base_testCaseStarting_def LazyStat_assign_def adds_def prints_def
          console_noMatchingTestCases_def console_reportInvalidArguments_def console_testGroupEnded_def
          base_testGroupEnded_def LazyStat_reset_def)
  next
    case (Group_Over ts)
    then show ?thesis using assms testRunEnded_ok by (cases r) auto
  next
    case Before_Run
    then show ?thesis
      using assms by (cases r) (auto simp: con_ok_def console_testRunStarting_def base_testRunStarting_def LazyStat_assign_def
          adds_def prints_def)
  next
    case In_Run
    then show ?thesis
      using assms by (cases r) (auto simp: con_ok_def base_testGroupStarting_def LazyStat_assign_def adds_def)
  qed (use assms in simp)
qed

lemma console_reports_ok:
  assumes "con_ok config p x" and "run_phases p rs = Some q" and "list_all printable rs"
  shows "\<exists>x'. console_reports exceeds cap rs x = computed x' \<and> con_ok config q x' \<and>
    adds x (concat (map (must_show config) rs)) x'"
  using assms
proof (induction rs arbitrary: p x cap)
  case (Cons r rs)
  then obtain p1 where next1: "next_phase p r = Some p1" and rest: "run_phases p1 rs = Some q"
    by (auto split: option.splits)
  obtain x1 where x1: "console_report exceeds (cap 0) r x = computed x1" "con_ok config p1 x1" "adds x (must_show config r) x1"
    using console_report_ok [OF Cons.prems(1) next1] Cons.prems(3) by auto
  obtain x' where "console_reports exceeds (cap \<circ> Suc) rs x1 = computed x'" "con_ok config q x'"
    "adds x1 (concat (map (must_show config) rs)) x'"
    using Cons.IH [OF x1(2) rest] Cons.prems(3) by auto
  then show ?case using x1(1) adds_trans [OF x1(3)] by auto
qed simp

lemma ConsoleReporter_new_ok:
  assumes "verbosity (cfg_data config) = Normal_verbosity"
  obtains x where "ConsoleReporter_new config = Inr x" and "con_ok config Before_Run x" and "con_out x = []"
  using assms that
  by (simp add: ConsoleReporter_new_def StreamingReporterBase_new_def getSupportedVerbosities_def con_ok_def
      StreamingReporterBase.defs ConsoleReporter.defs)

text \<open>
  C31. The console reporter takes all calls of a run, in whatever phases the run context makes them,
  without an error or an endless loop, provided no header has its first \<open>": "\<close> too far to the
  right. It shows, in the order of the run, the place of every assertion that failed (of every
  assertion with \<open>-s\<close>, and of every warning), every specification that selects no test, every
  filter that is not valid, and in the end the totals.
\<close>

theorem console_shows_failures:
  assumes "run_phases Before_Run rs = Some (Run_Over ts)" and "list_all printable rs"
    and "verbosity (cfg_data config) = Normal_verbosity"
  shows "\<exists>x x'. ConsoleReporter_new config = Inr x \<and> console_reports exceeds cap rs x = Some (Inr x') \<and>
    subseq (concat (map (must_show config) rs)) (con_out x') \<and> m_sectionStack x' = []"
proof -
  obtain x where x: "ConsoleReporter_new config = Inr x" "con_ok config Before_Run x" "con_out x = []"
    by (rule ConsoleReporter_new_ok [OF assms(3)])
  obtain x' where "console_reports exceeds cap rs x = computed x'" "con_ok config (Run_Over ts) x'"
    "adds x (concat (map (must_show config) rs)) x'"
    using console_reports_ok [OF x(2) assms(1,2)] by blast
  with x show ?thesis by (auto simp: computed_def adds_def con_ok_def)
qed

definition example_failure :: AssertionResult where
  "example_failure = make_result \<lparr>macroName = ''REQUIRE'', ai_lineInfo = \<lparr>src_file = ''main.cpp'', src_line = 30\<rparr>,
     capturedExpression = ''page == sent'', resultDisposition = Normal\<rparr> ExpressionFailed ''1 == 2'' ''''"

definition example_reports :: "report list" where
  "example_reports =
     [Report_testRunStarting ''kraken'', Report_testGroupStarting \<lparr>gi_name = ''kraken'', groupIndex = 1, groupsCounts = 1\<rparr>,
      Report_testCaseStarting example_info, Report_sectionStarting (top_section example_info),
      Report_assertionStarting (m_info example_failure),
      Report_assertionEnded example_failure [] (Totals_zero\<lparr>assertions := Counts_zero\<lparr>failed := 1\<rparr>\<rparr>),
      Report_sectionEnded (top_section example_info) (Counts_zero\<lparr>failed := 1\<rparr>) False,
      Report_testCaseEnded example_info Totals_zero False,
      Report_testGroupEnded \<lparr>gi_name = ''kraken'', groupIndex = 1, groupsCounts = 1\<rparr> Totals_zero False,
      Report_testRunEnded ''kraken'' (Totals_zero\<lparr>assertions := Counts_zero\<lparr>failed := 1\<rparr>,
        testCases := Counts_zero\<lparr>failed := 1\<rparr>\<rparr>) False]"

theorem console_shows_failures_witness:
  "\<exists>x x'. ConsoleReporter_new example_config = Inr x \<and>
    console_reports (\<lambda>d. False) example_captured example_reports x = Some (Inr x') \<and>
    subseq (concat (map (must_show example_config) example_reports)) (con_out x') \<and> m_sectionStack x' = []"
proof (rule console_shows_failures)
  show "run_phases Before_Run example_reports = Some (Run_Over [example_info])"
    by (simp add: example_reports_def)
  have "find_colon (tc_name example_info) = None"
    by (simp add: find_colon_def example_info_def find_None_iff nth_Cons')
  then have "header_fits (tc_name example_info) n \<longleftrightarrow> n \<le> 77" for n by (simp add: header_fits_def)
  then show "list_all printable example_reports"
    by (simp add: example_reports_def top_section_def Totals_zero_def Counts_zero_def)
qed (simp add: example_config_def ConfigData_default_def)

text \<open>
  A name with its first \<open>": "\<close> at position 77 or later ends the program: the indentation is not less
  than the width, which an assertion checks.
\<close>

theorem late_colon_aborts:
  assumes "find_colon nm = Some j" and "77 \<le> j"
  shows "printOpenHeader nm = Some (Inl Assert_Failed)"
  using assms
  by (simp add: printOpenHeader_def printHeaderString_def column_piece_def Column_toString_def Column_lines_def Column_begin_def
      header_column_def Column_new_def CONSOLE_WIDTH_def and_then_def Let_def)

end
