(* ===== verification/Axil_Slave.thy ===== *)
theory Axil_Slave
  imports Simulator
begin

text \<open>
  A design whose \<open>S_AXIL\<close> port is a slave of the AXI-Lite protocol in front of registers,
  as a predicate on the Verilated model's \<open>eval\<close>, and what \<open>AXILRoutine\<close>
  (\<open>server/subroutine.cc\<close>) does with such a design from one \<open>TICK\<close> to the next. The slave
  may let every handshake wait for any finite number of cycles.
\<close>

section \<open>The design's side of the protocol\<close>

text \<open>
  The five handshakes of the two transactions, with what has been transferred so far. A phase
  says how far the port is: nothing going on, a handshake that will be accepted by the design
  after so many more cycles, a handshake that was accepted at the last clock edge.
\<close>

datatype handshake = H_Aw u32 | H_W u32 u32 | H_B | H_Ar u32 | H_R u32

datatype axil_phase = Quiet | Waiting handshake nat | Accepted handshake | Elsewhere

text \<open>\<open>tick\<close>, as the design sees it.\<close>

definition dut_tick :: "('i VARMFlexTop \<Rightarrow> 'i VARMFlexTop) \<Rightarrow> 'i VARMFlexTop \<Rightarrow> 'i VARMFlexTop" where
  "dut_tick ev d = ev ((ev ((ev d)\<lparr>clock := True\<rparr>))\<lparr>clock := False\<rparr>)"

lemma td_dut_tick_edge: "td_dut (tick_edge ev t) = dut_tick ev (td_dut t)"
  by (simp add: tick_edge_def dut_tick_def dump_def set_ports_def Let_def)

text \<open>The port the routine polls during a handshake.\<close>

fun handshake_port :: "handshake \<Rightarrow> 'i VARMFlexTop \<Rightarrow> bool" where
  "handshake_port (H_Aw a) d = S_AXIL_aw_awready d"
| "handshake_port (H_W a v) d = S_AXIL_w_wready d"
| "handshake_port H_B d = S_AXIL_b_bvalid d"
| "handshake_port (H_Ar a) d = S_AXIL_ar_arready d"
| "handshake_port (H_R a) d = S_AXIL_r_rvalid d"

text \<open>A clock edge during a phase; the data handshake of a write changes the register.\<close>

fun phase_tick :: "axil_phase \<Rightarrow> axil_phase" where
  "phase_tick (Waiting h (Suc n)) = Waiting h n"
| "phase_tick (Waiting h 0) = Accepted h"
| "phase_tick p = p"

fun regs_tick :: "axil_phase \<Rightarrow> (u32 \<Rightarrow> u32) \<Rightarrow> u32 \<Rightarrow> u32" where
  "regs_tick (Waiting (H_W a v) 0) f = f(a := v)"
| "regs_tick p f = f"

text \<open>What the routine drives between two clock edges, from one phase to the next.\<close>

definition drive_aw :: "('i VARMFlexTop \<Rightarrow> 'i VARMFlexTop) \<Rightarrow> u32 \<Rightarrow> 'i VARMFlexTop \<Rightarrow> 'i VARMFlexTop" where
  "drive_aw ev a d = ev (d\<lparr>S_AXIL_aw_awaddr := a, S_AXIL_aw_awprot := 0, S_AXIL_aw_awvalid := True\<rparr>)"

definition drive_w :: "('i VARMFlexTop \<Rightarrow> 'i VARMFlexTop) \<Rightarrow> u32 \<Rightarrow> 'i VARMFlexTop \<Rightarrow> 'i VARMFlexTop" where
  "drive_w ev v d = ev ((ev (d\<lparr>S_AXIL_aw_awvalid := False\<rparr>))\<lparr>S_AXIL_w_wdata := v,
     S_AXIL_w_wstrb := 0xF, S_AXIL_w_wvalid := True\<rparr>)"

definition drive_b :: "('i VARMFlexTop \<Rightarrow> 'i VARMFlexTop) \<Rightarrow> 'i VARMFlexTop \<Rightarrow> 'i VARMFlexTop" where
  "drive_b ev d = ev (d\<lparr>S_AXIL_w_wvalid := False, S_AXIL_b_bready := True\<rparr>)"

definition drive_ar :: "('i VARMFlexTop \<Rightarrow> 'i VARMFlexTop) \<Rightarrow> u32 \<Rightarrow> 'i VARMFlexTop \<Rightarrow> 'i VARMFlexTop" where
  "drive_ar ev a d = ev (d\<lparr>S_AXIL_ar_araddr := a, S_AXIL_ar_arprot := 0, S_AXIL_ar_arvalid := True\<rparr>)"

definition drive_r :: "('i VARMFlexTop \<Rightarrow> 'i VARMFlexTop) \<Rightarrow> 'i VARMFlexTop \<Rightarrow> 'i VARMFlexTop" where
  "drive_r ev d = ev (d\<lparr>S_AXIL_ar_arvalid := False, S_AXIL_r_rready := True\<rparr>)"

definition end_b :: "('i VARMFlexTop \<Rightarrow> 'i VARMFlexTop) \<Rightarrow> 'i VARMFlexTop \<Rightarrow> 'i VARMFlexTop" where
  "end_b ev d = ev (d\<lparr>S_AXIL_b_bready := False\<rparr>)"

definition end_r :: "('i VARMFlexTop \<Rightarrow> 'i VARMFlexTop) \<Rightarrow> 'i VARMFlexTop \<Rightarrow> 'i VARMFlexTop" where
  "end_r ev d = ev (d\<lparr>S_AXIL_r_rready := False\<rparr>)"

text \<open>The step to \<open>d'\<close> starts a wait for the handshake \<open>h\<close> and leaves the registers alone.\<close>

definition begins ::
  "('i VARMFlexTop \<Rightarrow> axil_phase) \<Rightarrow> ('i VARMFlexTop \<Rightarrow> u32 \<Rightarrow> u32) \<Rightarrow> handshake \<Rightarrow>
   'i VARMFlexTop \<Rightarrow> 'i VARMFlexTop \<Rightarrow> bool" where
  "begins phase regs h d d' \<longleftrightarrow> (\<exists>n. phase d' = Waiting h n) \<and> regs d' = regs d"

definition slave_clocked ::
  "('i VARMFlexTop \<Rightarrow> 'i VARMFlexTop) \<Rightarrow> ('i VARMFlexTop \<Rightarrow> axil_phase) \<Rightarrow>
   ('i VARMFlexTop \<Rightarrow> u32 \<Rightarrow> u32) \<Rightarrow> bool" where
  "slave_clocked ev phase regs \<longleftrightarrow>
     (\<forall>d. phase d = Quiet \<longrightarrow> phase (dut_tick ev d) = Quiet \<and> regs (dut_tick ev d) = regs d) \<and>
     (\<forall>d h n. phase d = Waiting h n \<longrightarrow>
        handshake_port h d = (n = 0) \<and> phase (dut_tick ev d) = phase_tick (phase d) \<and>
        regs (dut_tick ev d) = regs_tick (phase d) (regs d)) \<and>
     (\<forall>d a. phase d = Waiting (H_R a) 0 \<longrightarrow> S_AXIL_r_rdata d = regs d a)"

definition slave_driven ::
  "('i VARMFlexTop \<Rightarrow> 'i VARMFlexTop) \<Rightarrow> ('i VARMFlexTop \<Rightarrow> axil_phase) \<Rightarrow>
   ('i VARMFlexTop \<Rightarrow> u32 \<Rightarrow> u32) \<Rightarrow> u32 set \<Rightarrow> bool" where
  "slave_driven ev phase regs W \<longleftrightarrow>
     (\<forall>d a. a \<in> W \<longrightarrow> phase d = Quiet \<longrightarrow>
        begins phase regs (H_Aw a) d (drive_aw ev a d) \<and> begins phase regs (H_Ar a) d (drive_ar ev a d)) \<and>
     (\<forall>d a v. phase d = Accepted (H_Aw a) \<longrightarrow> begins phase regs (H_W a v) d (drive_w ev v d)) \<and>
     (\<forall>d a v. phase d = Accepted (H_W a v) \<longrightarrow> begins phase regs H_B d (drive_b ev d)) \<and>
     (\<forall>d a. phase d = Accepted (H_Ar a) \<longrightarrow> begins phase regs (H_R a) d (drive_r ev d)) \<and>
     (\<forall>d. phase d = Accepted H_B \<longrightarrow> phase (end_b ev d) = Quiet \<and> regs (end_b ev d) = regs d) \<and>
     (\<forall>d a. phase d = Accepted (H_R a) \<longrightarrow> phase (end_r ev d) = Quiet \<and> regs (end_r ev d) = regs d)"

text \<open>
  \<open>axil_slave ev phase regs W\<close>: the design answers every access to the addresses of \<open>W\<close>;
  \<open>regs\<close> is the content of its registers.
\<close>

definition axil_slave ::
  "('i VARMFlexTop \<Rightarrow> 'i VARMFlexTop) \<Rightarrow> ('i VARMFlexTop \<Rightarrow> axil_phase) \<Rightarrow>
   ('i VARMFlexTop \<Rightarrow> u32 \<Rightarrow> u32) \<Rightarrow> u32 set \<Rightarrow> bool" where
  "axil_slave ev phase regs W \<longleftrightarrow> slave_clocked ev phase regs \<and> slave_driven ev phase regs W"

section \<open>The routine's labels during a handshake\<close>

fun wait_label :: "handshake \<Rightarrow> mem \<Rightarrow> axil_label" where
  "wait_label (H_Aw a) m = A_AwWait m"
| "wait_label (H_W a v) m = A_WWait m"
| "wait_label H_B m = A_BWait m"
| "wait_label (H_Ar a) m = A_ArWait m"
| "wait_label (H_R a) m = A_RWait m"

fun tick_label :: "handshake \<Rightarrow> mem \<Rightarrow> u32 \<Rightarrow> axil_label" where
  "tick_label (H_Aw a) m r = A_AwTick m"
| "tick_label (H_W a v) m r = A_WTick m"
| "tick_label H_B m r = A_BTick m"
| "tick_label (H_Ar a) m r = A_ArTick m"
| "tick_label (H_R a) m r = A_RTick m r"

text \<open>The five waits are one.\<close>

definition axil_wait :: "handshake \<Rightarrow> mem \<Rightarrow> ('i, 'w) server \<Rightarrow> axil_label \<times> ('i, 'w) server" where
  "axil_wait h m s =
     (if \<not> handshake_port h (ports s) then (wait_label h m, s)
      else (tick_label h m (S_AXIL_r_rdata (ports s)), s))"

lemma axil_waits:
  "axil_aw_wait m s = axil_wait (H_Aw a) m s" "axil_w_wait m s = axil_wait (H_W a v) m s"
  "axil_b_wait m s = axil_wait H_B m s" "axil_ar_wait m s = axil_wait (H_Ar a) m s"
  "axil_r_wait m s = axil_wait (H_R a) m s"
  by (simp_all add: axil_wait_def axil_aw_wait_def axil_w_wait_def axil_b_wait_def
      axil_ar_wait_def axil_r_wait_def)

lemma resume_wait_label: "axil_resume ev k (wait_label h m) s = Some (axil_wait h m s)"
  by (cases h) (simp_all add: axil_waits)

definition label_at :: "handshake \<Rightarrow> mem \<Rightarrow> nat \<Rightarrow> u32 \<Rightarrow> axil_label" where
  "label_at h m n r = (if n = 0 then tick_label h m r else wait_label h m)"

section \<open>The runs of the routine\<close>

text \<open>What the local \<open>result\<close> structure holds during a transaction.\<close>

definition holds_request :: "mem \<Rightarrow> u32 \<Rightarrow> u32 \<Rightarrow> u32 \<Rightarrow> bool" where
  "holds_request m op a v \<longleftrightarrow> srv_MemoryRequestAXIL_of m =
     \<lparr>srv_axil_addr = ucast a, srv_axil_byte_size = 4, srv_axil_is_write = op, srv_axil_w_data = v\<rparr>"

lemma holds_request_of:
  "\<exists>m'. mem_write m 0 (MemoryRequestAXIL_bytes (AXIL_request op a v)) = m' \<and> holds_request m' op a v"
  by (simp add: holds_request_def wire_AXIL_agrees AXIL_request_def)

text \<open>The routine is at the handshake \<open>h\<close>, its label fitting the ports.\<close>

definition at_handshake ::
  "('i VARMFlexTop \<Rightarrow> axil_phase) \<Rightarrow> handshake \<Rightarrow> nat \<Rightarrow> mem \<Rightarrow> axil_label \<Rightarrow> 'i VARMFlexTop \<Rightarrow> bool" where
  "at_handshake phase h n m l d \<longleftrightarrow> phase d = Waiting h n \<and> l = label_at h m n (S_AXIL_r_rdata d)"

text \<open>From \<open>s\<close> to \<open>s'\<close> only the ports have changed.\<close>

definition ports_only :: "('i, 'w) server \<Rightarrow> ('i, 'w) server \<Rightarrow> bool" where
  "ports_only s s' \<longleftrightarrow> axil_ipc s' = axil_ipc s \<and> axi_ipc s' = axi_ipc s \<and> os s' = os s \<and>
     error_occurred (top s') = error_occurred (top s)"

lemma ports_only_drive [simp]: "ports_only s (drive ev f s)" "ports_only s s"
  "ports_only s (drive ev g (drive ev f s))"
  by (simp_all add: ports_only_def)

lemma axil_wait_at:
  assumes "slave_clocked ev phase regs" and "phase (ports s) = Waiting h n"
  shows "axil_wait h m s = (label_at h m n (S_AXIL_r_rdata (ports s)), s)"
proof -
  from assms have "handshake_port h (ports s) = (n = 0)" by (auto simp: slave_clocked_def)
  then show ?thesis by (simp add: axil_wait_def label_at_def)
qed

lemma resume_waiting:
  assumes "slave_clocked ev phase regs" and "phase (ports s) = Waiting h n"
  shows "axil_resume ev' k (wait_label h m) s = Some (label_at h m n (S_AXIL_r_rdata (ports s)), s)"
  by (simp add: resume_wait_label axil_wait_at [OF assms])

text \<open>The beginning of a handshake: what the wait that starts it returns.\<close>

lemma wait_begins:
  assumes "slave_clocked ev phase regs" and "begins phase regs h (ports s) (ports s')"
  shows "\<exists>n l. axil_wait h m s' = (l, s') \<and> at_handshake phase h n m l (ports s') \<and>
    regs (ports s') = regs (ports s)"
proof -
  from assms(2) obtain n where n: "phase (ports s') = Waiting h n" "regs (ports s') = regs (ports s)"
    by (auto simp: begins_def)
  with axil_wait_at [OF assms(1) n(1)] show ?thesis by (auto simp: at_handshake_def)
qed

text \<open>A run that goes to the beginning of \<open>h\<close>.\<close>

definition proceeds_to ::
  "('i VARMFlexTop \<Rightarrow> axil_phase) \<Rightarrow> ('i VARMFlexTop \<Rightarrow> u32 \<Rightarrow> u32) \<Rightarrow> handshake \<Rightarrow> mem \<Rightarrow>
   ('i, 'w) server \<Rightarrow> (axil_label \<times> ('i, 'w) server) option \<Rightarrow> bool" where
  "proceeds_to phase regs h m s r \<longleftrightarrow>
     (\<exists>n l s'. r = Some (l, s') \<and> at_handshake phase h n m l (ports s') \<and>
        regs (ports s') = regs (ports s) \<and> ports_only s s')"

lemma proceeds:
  assumes "slave_clocked ev phase regs" and "begins phase regs h (ports s) (ports s')"
    and "ports_only s s'"
  shows "proceeds_to phase regs h m s (Some (axil_wait h m s'))"
  using wait_begins [OF assms(1,2), of m] assms(3) by (auto simp: proceeds_to_def)

lemma run_aw_tick:
  assumes "axil_slave ev phase regs W" and "phase (ports s) = Accepted (H_Aw a)" and "holds_request m op a v"
  shows "proceeds_to phase regs (H_W a v) m s (axil_resume ev k (tick_label (H_Aw a) m r) s)"
proof -
  from assms(1,2) have "begins phase regs (H_W a v) (ports s) (drive_w ev v (ports s))"
    and c: "slave_clocked ev phase regs"
    by (auto simp: axil_slave_def slave_driven_def)
  then have "proceeds_to phase regs (H_W a v) m s (Some (axil_wait (H_W a v) m
      (drive ev (\<lambda>d. d\<lparr>S_AXIL_w_wdata := v, S_AXIL_w_wstrb := 0xF, S_AXIL_w_wvalid := True\<rparr>)
         (drive ev (\<lambda>d. d\<lparr>S_AXIL_aw_awvalid := False\<rparr>) s))))"
    by (intro proceeds [OF c]) (simp_all add: drive_w_def)
  then show ?thesis using assms(3) by (simp add: holds_request_def axil_waits(2) [where a = a and v = v])
qed

lemma run_w_tick:
  assumes "axil_slave ev phase regs W" and "phase (ports s) = Accepted (H_W a v)"
  shows "proceeds_to phase regs H_B m s (axil_resume ev k (tick_label (H_W a v) m r) s)"
proof -
  from assms have "begins phase regs H_B (ports s) (drive_b ev (ports s))"
    and c: "slave_clocked ev phase regs"
    by (auto simp: axil_slave_def slave_driven_def)
  then have "proceeds_to phase regs H_B m s (Some (axil_wait H_B m
      (drive ev (\<lambda>d. d\<lparr>S_AXIL_w_wvalid := False, S_AXIL_b_bready := True\<rparr>) s)))"
    by (intro proceeds [OF c]) (simp_all add: drive_b_def)
  then show ?thesis by (simp add: axil_waits)
qed

lemma run_ar_tick:
  assumes "axil_slave ev phase regs W" and "phase (ports s) = Accepted (H_Ar a)"
  shows "proceeds_to phase regs (H_R a) m s (axil_resume ev k (tick_label (H_Ar a) m r) s)"
proof -
  from assms have "begins phase regs (H_R a) (ports s) (drive_r ev (ports s))"
    and c: "slave_clocked ev phase regs"
    by (auto simp: axil_slave_def slave_driven_def)
  then have "proceeds_to phase regs (H_R a) m s (Some (axil_wait (H_R a) m
      (drive ev (\<lambda>d. d\<lparr>S_AXIL_ar_arvalid := False, S_AXIL_r_rready := True\<rparr>) s)))"
    by (intro proceeds [OF c]) (simp_all add: drive_r_def)
  then show ?thesis by (simp add: axil_waits(5) [where a = a])
qed

text \<open>The request: a write or a read.\<close>

lemma run_transaction:
  assumes "axil_slave ev phase regs W" and "phase (ports s) = Quiet" and "a \<in> W"
    and "holds_request m op a v"
  shows "proceeds_to phase regs (if op \<noteq> 0 then H_Aw a else H_Ar a) m s (Some (axil_transaction ev m s))"
proof -
  from assms(1) have c: "slave_clocked ev phase regs" by (simp add: axil_slave_def)
  have "begins phase regs (H_Aw a) (ports s) (drive_aw ev a (ports s))"
    "begins phase regs (H_Ar a) (ports s) (drive_ar ev a (ports s))"
    using assms(1-3) by (auto simp: axil_slave_def slave_driven_def)
  then have "proceeds_to phase regs (H_Aw a) m s (Some (axil_wait (H_Aw a) m
      (drive ev (\<lambda>d. d\<lparr>S_AXIL_aw_awaddr := a, S_AXIL_aw_awprot := 0, S_AXIL_aw_awvalid := True\<rparr>) s)))"
    "proceeds_to phase regs (H_Ar a) m s (Some (axil_wait (H_Ar a) m
      (drive ev (\<lambda>d. d\<lparr>S_AXIL_ar_araddr := a, S_AXIL_ar_arprot := 0, S_AXIL_ar_arvalid := True\<rparr>) s)))"
    by (intro proceeds [OF c]; simp add: drive_aw_def drive_ar_def)+
  moreover have "ucast (ucast a :: u64) = a" by (simp add: unsigned_ucast_eq take_bit_word_eq_self)
  ultimately show ?thesis
    using assms(4)
    by (simp add: axil_transaction_def holds_request_def axil_start_write_def axil_start_read_def
        axil_waits(1) [where a = a] axil_waits(4) [where a = a])
qed

section \<open>Requests and replies over the in-memory kernel\<close>

text \<open>Taking a request from the socket, and putting a word there when the transaction ends.\<close>

lemma run_poll_request:
  assumes "axil_slave ev phase regs W" and "phase (ports s) = Quiet" and "a \<in> W"
    and "\<not> ipc_error (axil_ipc s)" and "op \<noteq> 0xDEED"
    and "inbox (os s) (client_fd (axil_ipc s)) = MemoryRequestAXIL_bytes (AXIL_request op a v)"
  shows "\<exists>m'. holds_request m' op a v \<and>
    proceeds_to phase regs (if op \<noteq> 0 then H_Aw a else H_Ar a) m'
      (s\<lparr>os := (os s)\<lparr>inbox := (inbox (os s))(client_fd (axil_ipc s) := [])\<rparr>\<rparr>)
      (axil_resume ev (pipe_kernel 0) (A_Poll m) s)"
proof -
  let ?r = "AXIL_request op a v" and ?fd = "client_fd (axil_ipc s)"
  let ?w = "(os s)\<lparr>inbox := (inbox (os s))(?fd := [])\<rparr>"
  let ?s = "s\<lparr>os := ?w\<rparr>"
  have "length (MemoryRequestAXIL_bytes ?r) = sizeof_MemoryRequestAXIL"
    by (rule length_MemoryRequestAXIL_bytes)
  then have "k_recv (pipe_kernel 0) ?fd sizeof_MemoryRequestAXIL (os s) =
      (Received (MemoryRequestAXIL_bytes ?r), ?w)"
    using assms(6) by (auto simp: pipe_recv_def pipe_limit_def sizeof_MemoryRequestAXIL_def)
  from getRequestAXIL_one_piece [OF assms(4) this, of m] obtain m1
    where get: "getRequestAXIL (pipe_kernel 0) (axil_ipc s) m (os s) = (True, axil_ipc s, m1, ?w)"
      and req: "srv_MemoryRequestAXIL_of m1 = \<lparr>srv_axil_addr = ucast a, srv_axil_byte_size = 4,
        srv_axil_is_write = op, srv_axil_w_data = v\<rparr>"
    by (auto simp: AXIL_request_def)
  then have holds: "holds_request m1 op a v" by (simp add: holds_request_def)
  have "axil_resume ev (pipe_kernel 0) (A_Poll m) s = Some (axil_transaction ev m1 ?s)"
    using assms(5) by (simp, subst axil_poll.simps) (simp add: get req)
  moreover have "phase (ports ?s) = Quiet" using assms(2) by (simp add: ports_def)
  ultimately show ?thesis using holds run_transaction [OF assms(1) _ assms(3) holds, of ?s] by auto
qed

definition replied :: "u32 \<Rightarrow> ('i, pipes) server \<Rightarrow> ('i, pipes) server" where
  "replied v s = s\<lparr>os := (os s)\<lparr>outbox := (outbox (os s))(client_fd (axil_ipc s) :=
     outbox (os s) (client_fd (axil_ipc s)) @ bytes_le 4 v)\<rparr>\<rparr>"

lemma replied_sel [simp]:
  "top (replied v s) = top s" "axil_ipc (replied v s) = axil_ipc s"
  "axi_ipc (replied v s) = axi_ipc s" "inbox (os (replied v s)) = inbox (os s)"
  "ports (replied v s) = ports s"
  "outbox (os (replied v s)) = (outbox (os s))(client_fd (axil_ipc s) :=
     outbox (os s) (client_fd (axil_ipc s)) @ bytes_le 4 v)"
  by (simp_all add: replied_def ports_def)

lemma axil_finish_replies:
  assumes "\<not> ipc_error (axil_ipc s)" and "inbox (os s) (client_fd (axil_ipc s)) = []"
  shows "axil_finish ev (pipe_kernel 0) m v s = Some (A_Poll m, replied v s)"
proof -
  have "axil_reply (pipe_kernel 0) v s = Some (True, replied v s)"
    using assms(1) reply_whole [OF assms(1), of 1 "[v]" "os s"]
    by (simp add: axil_reply_def replied_def)
  moreover have "axil_poll ev (pipe_kernel 0) m (replied v s) = Some (A_Poll m, replied v s)"
    by (rule axil_poll_empty) (use assms in simp_all)
  ultimately show ?thesis by (simp add: axil_finish_def)
qed

lemma run_b_tick:
  assumes "axil_slave ev phase regs W" and "phase (ports s) = Accepted H_B"
    and "\<not> ipc_error (axil_ipc s)" and "inbox (os s) (client_fd (axil_ipc s)) = []"
  shows "\<exists>s'. axil_resume ev (pipe_kernel 0) (A_BTick m) s = Some (A_Poll m, replied 0 s') \<and>
    ports_only s s' \<and> phase (ports s') = Quiet \<and> regs (ports s') = regs (ports s)"
proof -
  let ?s = "drive ev (\<lambda>d. d\<lparr>S_AXIL_b_bready := False\<rparr>) s"
  have "axil_resume ev (pipe_kernel 0) (A_BTick m) s = Some (A_Poll m, replied 0 ?s)"
    using assms(3,4) by (simp add: axil_finish_replies)
  moreover have "phase (end_b ev (ports s)) = Quiet" "regs (end_b ev (ports s)) = regs (ports s)"
    using assms(1,2) by (auto simp: axil_slave_def slave_driven_def)
  ultimately show ?thesis by (intro exI [of _ ?s]) (simp add: end_b_def)
qed

lemma run_r_tick:
  assumes "axil_slave ev phase regs W" and "phase (ports s) = Accepted (H_R a)"
    and "\<not> ipc_error (axil_ipc s)" and "inbox (os s) (client_fd (axil_ipc s)) = []"
  shows "\<exists>s'. axil_resume ev (pipe_kernel 0) (A_RTick m v) s = Some (A_Poll m, replied v s') \<and>
    ports_only s s' \<and> phase (ports s') = Quiet \<and> regs (ports s') = regs (ports s)"
proof -
  let ?s = "drive ev (\<lambda>d. d\<lparr>S_AXIL_r_rready := False\<rparr>) s"
  have "axil_resume ev (pipe_kernel 0) (A_RTick m v) s = Some (A_Poll m, replied v ?s)"
    using assms(3,4) by (simp add: axil_finish_replies)
  moreover have "phase (end_r ev (ports s)) = Quiet" "regs (end_r ev (ports s)) = regs (ports s)"
    using assms(1,2) by (auto simp: axil_slave_def slave_driven_def)
  ultimately show ?thesis by (intro exI [of _ ?s]) (simp add: end_r_def)
qed

end
