(* ===== verification/Register_Block.thy ===== *)
theory Register_Block
  imports Axil_Slave
begin

text \<open>
  A small register block behind the \<open>S_AXIL\<close> port, as a concrete \<open>eval\<close>: addresses and
  data are taken at once, the answer to a write comes after two cycles. It is a slave in the
  sense of \<open>Axil_Slave\<close>, so what is proved for all such designs holds for it.
\<close>

section \<open>The design\<close>

datatype block_state = B_Idle u32 | B_Data u32 | B_Resp u32 u32 nat | B_Read u32

record reg_block =
  last_clock :: bool
  bank :: "u32 \<Rightarrow> u32"
  block_at :: block_state

definition block_edge :: "reg_block VARMFlexTop \<Rightarrow> reg_block \<Rightarrow> reg_block" where
  "block_edge d b =
     (case block_at b of
        B_Idle l \<Rightarrow> if S_AXIL_aw_awvalid d then b\<lparr>block_at := B_Data (S_AXIL_aw_awaddr d)\<rparr>
                  else if S_AXIL_ar_arvalid d then b\<lparr>block_at := B_Read (S_AXIL_ar_araddr d)\<rparr> else b
      | B_Data a \<Rightarrow> if S_AXIL_w_wvalid d
                    then b\<lparr>block_at := B_Resp a (S_AXIL_w_wdata d) 2, bank := (bank b)(a := S_AXIL_w_wdata d)\<rparr>
                    else b
      | B_Resp a v n \<Rightarrow> if S_AXIL_b_bready d
                    then b\<lparr>block_at := (if n = 0 then B_Idle 0 else B_Resp a v (n - 1))\<rparr> else b
      | B_Read a \<Rightarrow> if S_AXIL_r_rready d then b\<lparr>block_at := B_Idle a\<rparr> else b)"

definition block_next :: "reg_block VARMFlexTop \<Rightarrow> reg_block" where
  "block_next d =
     (if clock d \<and> \<not> last_clock (rtl d) then (block_edge d (rtl d))\<lparr>last_clock := True\<rparr>
      else (rtl d)\<lparr>last_clock := clock d\<rparr>)"

definition block_settle :: "reg_block \<Rightarrow> reg_block VARMFlexTop \<Rightarrow> reg_block VARMFlexTop" where
  "block_settle b d =
     d\<lparr>S_AXIL_aw_awready := (case block_at b of B_Idle l \<Rightarrow> True | _ \<Rightarrow> False),
       S_AXIL_w_wready := (case block_at b of B_Data a \<Rightarrow> True | _ \<Rightarrow> False),
       S_AXIL_b_bvalid := (case block_at b of B_Resp a v n \<Rightarrow> n = 0 | _ \<Rightarrow> False),
       S_AXIL_ar_arready := (case block_at b of B_Idle l \<Rightarrow> True | _ \<Rightarrow> False),
       S_AXIL_r_rvalid := (case block_at b of B_Read a \<Rightarrow> True | _ \<Rightarrow> False),
       S_AXIL_r_rdata := (case block_at b of B_Read a \<Rightarrow> bank b a | _ \<Rightarrow> 0),
       M_AXI_ar_arvalid := False, M_AXI_aw_awvalid := False, rtl := b\<rparr>"

definition block_eval :: "reg_block VARMFlexTop \<Rightarrow> reg_block VARMFlexTop" where
  "block_eval d = block_settle (block_next d) d"

definition settled :: "reg_block VARMFlexTop \<Rightarrow> bool" where
  "settled d \<longleftrightarrow> block_eval d = d \<and> \<not> clock d"

text \<open>The phase of the port: its state, and the one control signal that is high.\<close>

definition controls :: "reg_block VARMFlexTop \<Rightarrow> bool list" where
  "controls d = [S_AXIL_aw_awvalid d, S_AXIL_w_wvalid d, S_AXIL_b_bready d, S_AXIL_ar_arvalid d,
     S_AXIL_r_rready d]"

definition high :: "nat \<Rightarrow> bool list" where
  "high i = map (\<lambda>j. j = i) [0, 1, 2, 3, 4]"

definition block_phase :: "reg_block VARMFlexTop \<Rightarrow> axil_phase" where
  "block_phase d =
     (if \<not> settled d then Elsewhere
      else case block_at (rtl d) of
        B_Idle l \<Rightarrow>
          if controls d = high 5 then Quiet
          else if controls d = high 0 then Waiting (H_Aw (S_AXIL_aw_awaddr d)) 0
          else if controls d = high 3 then Waiting (H_Ar (S_AXIL_ar_araddr d)) 0
          else if controls d = high 2 then Accepted H_B
          else if controls d = high 4 then Accepted (H_R l)
          else Elsewhere
      | B_Data a \<Rightarrow>
          if controls d = high 0 then Accepted (H_Aw a)
          else if controls d = high 1 then Waiting (H_W a (S_AXIL_w_wdata d)) 0
          else Elsewhere
      | B_Resp a v n \<Rightarrow>
          if controls d = high 1 then Accepted (H_W a v)
          else if controls d = high 2 then Waiting H_B n
          else Elsewhere
      | B_Read a \<Rightarrow>
          if controls d = high 3 then Accepted (H_Ar a)
          else if controls d = high 4 then Waiting (H_R a) 0
          else Elsewhere)"

definition block_regs :: "reg_block VARMFlexTop \<Rightarrow> u32 \<Rightarrow> u32" where
  "block_regs d = bank (rtl d)"

section \<open>Evaluation\<close>

lemma block_settle_settle [simp]: "block_settle b (block_settle b' d) = block_settle b d"
  by (simp add: block_settle_def)

lemma block_settle_clock: "(block_settle b d)\<lparr>clock := c\<rparr> = block_settle b (d\<lparr>clock := c\<rparr>)"
  by (simp add: block_settle_def)

lemma block_settle_sel [simp]:
  "rtl (block_settle b d) = b" "clock (block_settle b d) = clock d"
  "S_AXIL_aw_awvalid (block_settle b d) = S_AXIL_aw_awvalid d"
  "S_AXIL_aw_awaddr (block_settle b d) = S_AXIL_aw_awaddr d"
  "S_AXIL_ar_araddr (block_settle b d) = S_AXIL_ar_araddr d"
  "S_AXIL_w_wvalid (block_settle b d) = S_AXIL_w_wvalid d"
  "S_AXIL_w_wdata (block_settle b d) = S_AXIL_w_wdata d"
  "S_AXIL_b_bready (block_settle b d) = S_AXIL_b_bready d"
  "S_AXIL_ar_arvalid (block_settle b d) = S_AXIL_ar_arvalid d"
  "S_AXIL_r_rready (block_settle b d) = S_AXIL_r_rready d"
  by (simp_all add: block_settle_def)

lemma block_low:
  assumes "\<not> clock d"
  shows "block_eval d = block_settle ((rtl d)\<lparr>last_clock := False\<rparr>) d" and "settled (block_eval d)"
proof -
  show "block_eval d = block_settle ((rtl d)\<lparr>last_clock := False\<rparr>) d"
    using assms by (simp add: block_eval_def block_next_def)
  then show "settled (block_eval d)"
    using assms by (simp add: settled_def block_eval_def block_next_def)
qed

lemma settled_low: "settled d \<Longrightarrow> \<not> clock d \<and> \<not> last_clock (rtl d)"
proof -
  assume "settled d"
  then have "\<not> clock d" and "block_eval d = d" by (simp_all add: settled_def)
  then have "rtl d = (rtl d)\<lparr>last_clock := False\<rparr>"
    using block_low(1) [of d] block_settle_sel(1) [of "(rtl d)\<lparr>last_clock := False\<rparr>" d] by simp
  then have "last_clock (rtl d) = last_clock ((rtl d)\<lparr>last_clock := False\<rparr>)" by (rule arg_cong)
  with \<open>\<not> clock d\<close> show ?thesis by simp
qed

lemma block_edge_cong:
  "block_edge (block_settle b d) c = block_edge d c" "block_edge (d\<lparr>clock := x\<rparr>) c = block_edge d c"
  by (simp_all add: block_edge_def cong: block_state.case_cong if_cong)

lemma block_tick:
  assumes "settled d"
  shows "dut_tick block_eval d = block_settle ((block_edge d (rtl d))\<lparr>last_clock := False\<rparr>) d"
    and "settled (dut_tick block_eval d)"
proof -
  have low: "\<not> clock d" "\<not> last_clock (rtl d)" "block_eval d = d"
    using assms settled_low by (auto simp: settled_def)
  have "block_eval (d\<lparr>clock := True\<rparr>) =
      block_settle ((block_edge d (rtl d))\<lparr>last_clock := True\<rparr>) (d\<lparr>clock := True\<rparr>)"
    using low by (simp add: block_eval_def block_next_def block_edge_cong)
  then have "dut_tick block_eval d =
      block_eval (block_settle ((block_edge d (rtl d))\<lparr>last_clock := True\<rparr>) (d\<lparr>clock := False\<rparr>))"
    by (simp add: dut_tick_def low(3) block_settle_clock)
  also have "\<dots> = block_settle ((block_edge d (rtl d))\<lparr>last_clock := False\<rparr>) (d\<lparr>clock := False\<rparr>)"
    by (simp add: block_low(1))
  also have "d\<lparr>clock := False\<rparr> = d" using low(1) by (cases d) simp
  finally show eq: "dut_tick block_eval d = block_settle ((block_edge d (rtl d))\<lparr>last_clock := False\<rparr>) d" .
  show "settled (dut_tick block_eval d)"
    unfolding dut_tick_def by (rule block_low(2)) simp
qed

lemma settled_settle: "settled d \<Longrightarrow> block_settle (rtl d) d = d"
proof -
  assume d: "settled d"
  then have "(rtl d)\<lparr>last_clock := False\<rparr> = rtl d"
    using settled_low [OF d] by (cases "rtl d") simp
  with d show ?thesis using block_low(1) [of d] by (simp add: settled_def)
qed

lemma block_settle_out:
  "S_AXIL_aw_awready (block_settle b d) = (case block_at b of B_Idle l \<Rightarrow> True | _ \<Rightarrow> False)"
  "S_AXIL_w_wready (block_settle b d) = (case block_at b of B_Data a \<Rightarrow> True | _ \<Rightarrow> False)"
  "S_AXIL_b_bvalid (block_settle b d) = (case block_at b of B_Resp a v n \<Rightarrow> n = 0 | _ \<Rightarrow> False)"
  "S_AXIL_ar_arready (block_settle b d) = (case block_at b of B_Idle l \<Rightarrow> True | _ \<Rightarrow> False)"
  "S_AXIL_r_rvalid (block_settle b d) = (case block_at b of B_Read a \<Rightarrow> True | _ \<Rightarrow> False)"
  "S_AXIL_r_rdata (block_settle b d) = (case block_at b of B_Read a \<Rightarrow> bank b a | _ \<Rightarrow> 0)"
  by (simp_all add: block_settle_def)

lemmas settled_out = block_settle_out [of "rtl d" d for d]

lemma controls_high [simp]:
  "controls d = high 0 \<longleftrightarrow> S_AXIL_aw_awvalid d \<and> \<not> S_AXIL_w_wvalid d \<and> \<not> S_AXIL_b_bready d \<and>
     \<not> S_AXIL_ar_arvalid d \<and> \<not> S_AXIL_r_rready d"
  "controls d = high (Suc 0) \<longleftrightarrow> \<not> S_AXIL_aw_awvalid d \<and> S_AXIL_w_wvalid d \<and> \<not> S_AXIL_b_bready d \<and>
     \<not> S_AXIL_ar_arvalid d \<and> \<not> S_AXIL_r_rready d"
  "controls d = high 2 \<longleftrightarrow> \<not> S_AXIL_aw_awvalid d \<and> \<not> S_AXIL_w_wvalid d \<and> S_AXIL_b_bready d \<and>
     \<not> S_AXIL_ar_arvalid d \<and> \<not> S_AXIL_r_rready d"
  "controls d = high 3 \<longleftrightarrow> \<not> S_AXIL_aw_awvalid d \<and> \<not> S_AXIL_w_wvalid d \<and> \<not> S_AXIL_b_bready d \<and>
     S_AXIL_ar_arvalid d \<and> \<not> S_AXIL_r_rready d"
  "controls d = high 4 \<longleftrightarrow> \<not> S_AXIL_aw_awvalid d \<and> \<not> S_AXIL_w_wvalid d \<and> \<not> S_AXIL_b_bready d \<and>
     \<not> S_AXIL_ar_arvalid d \<and> S_AXIL_r_rready d"
  "controls d = high 5 \<longleftrightarrow> \<not> S_AXIL_aw_awvalid d \<and> \<not> S_AXIL_w_wvalid d \<and> \<not> S_AXIL_b_bready d \<and>
     \<not> S_AXIL_ar_arvalid d \<and> \<not> S_AXIL_r_rready d"
  by (auto simp: controls_def high_def)

lemma block_drive:
  assumes "settled d" and "clock (f d) = clock d" and "rtl (f d) = rtl d"
  shows "block_eval (f d) = block_settle (rtl d) (f d)" and "settled (block_eval (f d))"
proof -
  have low: "\<not> clock (f d)" using assms(1,2) settled_low by simp
  have "(rtl d)\<lparr>last_clock := False\<rparr> = rtl d"
    using settled_low [OF assms(1)] by (cases "rtl d") simp
  then show "block_eval (f d) = block_settle (rtl d) (f d)"
    using block_low(1) [OF low] assms(3) by simp
  show "settled (block_eval (f d))" by (rule block_low(2) [OF low])
qed


section \<open>The design is a slave\<close>

lemma block_phase_Waiting:
  assumes "block_phase d = Waiting h n"
  shows "settled d \<and> (case h of
     H_Aw a \<Rightarrow> n = 0 \<and> (\<exists>l. block_at (rtl d) = B_Idle l) \<and> controls d = high 0 \<and> a = S_AXIL_aw_awaddr d
   | H_W a v \<Rightarrow> n = 0 \<and> block_at (rtl d) = B_Data a \<and> controls d = high 1 \<and> v = S_AXIL_w_wdata d
   | H_B \<Rightarrow> (\<exists>a v. block_at (rtl d) = B_Resp a v n) \<and> controls d = high 2
   | H_Ar a \<Rightarrow> n = 0 \<and> (\<exists>l. block_at (rtl d) = B_Idle l) \<and> controls d = high 3 \<and> a = S_AXIL_ar_araddr d
   | H_R a \<Rightarrow> n = 0 \<and> block_at (rtl d) = B_Read a \<and> controls d = high 4)"
  using assms by (auto simp: block_phase_def simp del: controls_high split: if_splits block_state.splits)

lemma block_phase_Accepted:
  assumes "block_phase d = Accepted h"
  shows "settled d \<and> (case h of
     H_Aw a \<Rightarrow> block_at (rtl d) = B_Data a \<and> controls d = high 0
   | H_W a v \<Rightarrow> (\<exists>n. block_at (rtl d) = B_Resp a v n) \<and> controls d = high 1
   | H_B \<Rightarrow> (\<exists>l. block_at (rtl d) = B_Idle l) \<and> controls d = high 2
   | H_Ar a \<Rightarrow> block_at (rtl d) = B_Read a \<and> controls d = high 3
   | H_R a \<Rightarrow> block_at (rtl d) = B_Idle a \<and> controls d = high 4)"
  using assms by (auto simp: block_phase_def simp del: controls_high split: if_splits block_state.splits)

lemma block_phase_Quiet:
  assumes "block_phase d = Quiet"
  shows "settled d \<and> (\<exists>l. block_at (rtl d) = B_Idle l) \<and> controls d = high 5"
  using assms by (auto simp: block_phase_def simp del: controls_high split: if_splits block_state.splits)

lemma block_clocked: "slave_clocked block_eval block_phase block_regs"
  unfolding slave_clocked_def
proof (intro conjI allI impI)
  fix d assume q: "block_phase d = Quiet"
  note d = block_phase_Quiet [OF q]
  then have t: "dut_tick block_eval d = block_settle ((block_edge d (rtl d))\<lparr>last_clock := False\<rparr>) d"
    "settled (dut_tick block_eval d)" using block_tick by auto
  show "block_phase (dut_tick block_eval d) = Quiet"
    using d t(2) by (auto simp: block_phase_def t(1) block_edge_def)
  show "block_regs (dut_tick block_eval d) = block_regs d"
    using d by (auto simp: block_regs_def t(1) block_edge_def)
next
  fix d h n assume q: "block_phase d = Waiting h n"
  note d = block_phase_Waiting [OF q]
  then have t: "dut_tick block_eval d = block_settle ((block_edge d (rtl d))\<lparr>last_clock := False\<rparr>) d"
    "settled (dut_tick block_eval d)" and out: "block_settle (rtl d) d = d"
    using block_tick settled_settle by auto
  show "handshake_port h d = (n = 0)"
    using d settled_out [of d] by (cases h) (auto simp: out)
  show "block_phase (dut_tick block_eval d) = phase_tick (block_phase d)"
    using d t(2) unfolding q
    by (cases h; cases n) (auto simp: block_phase_def t(1) block_edge_def)
  show "block_regs (dut_tick block_eval d) = regs_tick (block_phase d) (block_regs d)"
    using d unfolding q by (cases h; cases n) (auto simp: block_regs_def t(1) block_edge_def)
next
  fix d a assume q: "block_phase d = Waiting (H_R a) 0"
  note d = block_phase_Waiting [OF q]
  then have "block_settle (rtl d) d = d" using settled_settle by auto
  with d settled_out(6) [of d] show "S_AXIL_r_rdata d = block_regs d a"
    by (auto simp: block_regs_def)
qed


lemma block_driven: "slave_driven block_eval block_phase block_regs UNIV"
  unfolding slave_driven_def
proof (intro conjI allI impI)
  fix d a assume q: "block_phase d = Quiet"
  note d = block_phase_Quiet [OF q]
  show "begins block_phase block_regs (H_Aw a) d (drive_aw block_eval a d)"
    using d block_drive [of d "\<lambda>d. d\<lparr>S_AXIL_aw_awaddr := a, S_AXIL_aw_awprot := 0, S_AXIL_aw_awvalid := True\<rparr>"]
    by (auto simp: begins_def drive_aw_def block_phase_def block_regs_def)
  show "begins block_phase block_regs (H_Ar a) d (drive_ar block_eval a d)"
    using d block_drive [of d "\<lambda>d. d\<lparr>S_AXIL_ar_araddr := a, S_AXIL_ar_arprot := 0, S_AXIL_ar_arvalid := True\<rparr>"]
    by (auto simp: begins_def drive_ar_def block_phase_def block_regs_def)
next
  fix d a v assume q: "block_phase d = Accepted (H_Aw a)"
  note d = block_phase_Accepted [OF q]
  let ?d = "block_eval (d\<lparr>S_AXIL_aw_awvalid := False\<rparr>)"
  have 1: "?d = block_settle (rtl d) (d\<lparr>S_AXIL_aw_awvalid := False\<rparr>)" "settled ?d"
    using d block_drive [of d "\<lambda>d. d\<lparr>S_AXIL_aw_awvalid := False\<rparr>"] by auto
  show "begins block_phase block_regs (H_W a v) d (drive_w block_eval v d)"
    using d 1 block_drive [of ?d "\<lambda>d. d\<lparr>S_AXIL_w_wdata := v, S_AXIL_w_wstrb := 0xF, S_AXIL_w_wvalid := True\<rparr>"]
    by (auto simp: begins_def drive_w_def block_phase_def block_regs_def)
next
  fix d a v assume q: "block_phase d = Accepted (H_W a v)"
  note d = block_phase_Accepted [OF q]
  show "begins block_phase block_regs H_B d (drive_b block_eval d)"
    using d block_drive [of d "\<lambda>d. d\<lparr>S_AXIL_w_wvalid := False, S_AXIL_b_bready := True\<rparr>"]
    by (auto simp: begins_def drive_b_def block_phase_def block_regs_def)
next
  fix d a assume q: "block_phase d = Accepted (H_Ar a)"
  note d = block_phase_Accepted [OF q]
  show "begins block_phase block_regs (H_R a) d (drive_r block_eval d)"
    using d block_drive [of d "\<lambda>d. d\<lparr>S_AXIL_ar_arvalid := False, S_AXIL_r_rready := True\<rparr>"]
    by (auto simp: begins_def drive_r_def block_phase_def block_regs_def)
next
  fix d assume q: "block_phase d = Accepted H_B"
  note d = block_phase_Accepted [OF q]
  show "block_phase (end_b block_eval d) = Quiet" "block_regs (end_b block_eval d) = block_regs d"
    using d block_drive [of d "\<lambda>d. d\<lparr>S_AXIL_b_bready := False\<rparr>"]
    by (auto simp: end_b_def block_phase_def block_regs_def)
next
  fix d a assume q: "block_phase d = Accepted (H_R a)"
  note d = block_phase_Accepted [OF q]
  show "block_phase (end_r block_eval d) = Quiet" "block_regs (end_r block_eval d) = block_regs d"
    using d block_drive [of d "\<lambda>d. d\<lparr>S_AXIL_r_rready := False\<rparr>"]
    by (auto simp: end_r_def block_phase_def block_regs_def)
qed

lemma block_axil_slave: "axil_slave block_eval block_phase block_regs UNIV"
  by (simp add: axil_slave_def block_clocked block_driven)

lemma block_no_mastering: "no_mastering block_eval"
  by (simp add: no_mastering_def block_eval_def block_settle_def)

text \<open>The design after reset.\<close>

definition block_start :: "reg_block VARMFlexTop" where
  "block_start = block_eval (idle_dut \<lparr>last_clock = False, bank = (\<lambda>a. 0), block_at = B_Idle 0\<rparr>)"

lemma block_start_Quiet: "block_phase block_start = Quiet"
proof -
  have "settled block_start" unfolding block_start_def by (rule block_low(2)) (simp add: idle_dut_def)
  then show ?thesis
    by (simp add: block_phase_def) (simp add: block_start_def block_low(1) idle_dut_def)
qed

end
