(* ===== verification/Simulated_Registers.thy ===== *)
theory Simulated_Registers
  imports Register_Block Transplant
begin

text \<open>
  Register accesses over the whole simulation: \<open>readAXIL\<close> and \<open>writeAXIL\<close> of
  \<open>client/fpga_rtl.c\<close> against the simulator of \<open>server/\<close> with a design whose \<open>S_AXIL\<close>
  port is a slave (\<open>Axil_Slave\<close>). While the client polls its socket the simulator goes
  through as many iterations of its main loop as the design lets the handshakes wait; the
  accessors are a register file, so the transplant functions work through them.
\<close>

section \<open>One iteration of the main loop\<close>

abbreviation dut_of :: "('i, 'w) sim \<Rightarrow> 'i VARMFlexTop" where
  "dut_of \<sigma> \<equiv> td_dut (top (srv \<sigma>))"

definition axil_end :: "('i, 'w) sim \<Rightarrow> int" where
  "axil_end \<sigma> = client_fd (axil_ipc (srv \<sigma>))"

text \<open>
  The simulator with the AXI-Lite subroutine at \<open>l\<close>, and these bytes under way on its
  socket; the other two are idle.
\<close>

definition sim_axil :: "axil_label \<Rightarrow> u8 list \<Rightarrow> u8 list \<Rightarrow> ('i, pipes) sim \<Rightarrow> bool" where
  "sim_axil l reqs replies \<sigma> \<longleftrightarrow>
     (\<exists>m2. threads \<sigma> = [Blocked (L_Dram D_Top), Blocked (L_Axil l), Blocked (L_Axi (X_Poll m2))]) \<and>
     main_at \<sigma> = M_Loop \<and> \<not> terminating (top (srv \<sigma>)) \<and> \<not> error_occurred (top (srv \<sigma>)) \<and>
     \<not> ipc_error (axil_ipc (srv \<sigma>)) \<and> \<not> ipc_error (axi_ipc (srv \<sigma>)) \<and>
     client_fd (axil_ipc (srv \<sigma>)) \<noteq> client_fd (axi_ipc (srv \<sigma>)) \<and>
     inbox (os (srv \<sigma>)) (client_fd (axi_ipc (srv \<sigma>))) = [] \<and>
     inbox (os (srv \<sigma>)) (client_fd (axil_ipc (srv \<sigma>))) = reqs \<and>
     outbox (os (srv \<sigma>)) (client_fd (axil_ipc (srv \<sigma>))) = replies"

text \<open>What an iteration needs of the run of the subroutine, from the ports after the edge on.\<close>

definition axil_run ::
  "('i VARMFlexTop \<Rightarrow> 'i VARMFlexTop) \<Rightarrow> axil_label \<Rightarrow> ('i, pipes) server \<Rightarrow>
   (axil_label \<Rightarrow> u8 list \<Rightarrow> u8 list \<Rightarrow> 'i VARMFlexTop \<Rightarrow> bool) \<Rightarrow> bool" where
  "axil_run ev l s Q \<longleftrightarrow>
     (\<exists>l' s'. axil_resume ev (pipe_kernel 0) l s = Some (l', s') \<and>
        axil_ipc s' = axil_ipc s \<and> axi_ipc s' = axi_ipc s \<and>
        error_occurred (top s') = error_occurred (top s) \<and>
        inbox (os s') (client_fd (axi_ipc s)) = inbox (os s) (client_fd (axi_ipc s)) \<and>
        Q l' (inbox (os s') (client_fd (axil_ipc s))) (outbox (os s') (client_fd (axil_ipc s))) (ports s'))"

lemma main_iteration_axil:
  assumes "no_mastering ev" and "sim_axil l reqs replies \<sigma>"
    and run: "\<And>s. ports s = dut_tick ev (dut_of \<sigma>) \<Longrightarrow> axil_ipc s = axil_ipc (srv \<sigma>) \<Longrightarrow>
      axi_ipc s = axi_ipc (srv \<sigma>) \<Longrightarrow> os s = os (srv \<sigma>) \<Longrightarrow> axil_run ev l s Q"
  shows "\<exists>\<sigma>' l' reqs' replies'. main_iteration ev (pipe_kernel 0) False \<sigma> = Some \<sigma>' \<and>
    sim_axil l' reqs' replies' \<sigma>' \<and> axil_end \<sigma>' = axil_end \<sigma> \<and> Q l' reqs' replies' (dut_of \<sigma>')"
proof -
  from assms(2) obtain m2 where ths: "threads \<sigma> =
      [Blocked (L_Dram D_Top), Blocked (L_Axil l), Blocked (L_Axi (X_Poll m2))]"
    and rest: "main_at \<sigma> = M_Loop" "\<not> terminating (top (srv \<sigma>))" "\<not> error_occurred (top (srv \<sigma>))"
      "\<not> ipc_error (axil_ipc (srv \<sigma>))" "\<not> ipc_error (axi_ipc (srv \<sigma>))"
      "client_fd (axil_ipc (srv \<sigma>)) \<noteq> client_fd (axi_ipc (srv \<sigma>))"
      "inbox (os (srv \<sigma>)) (client_fd (axi_ipc (srv \<sigma>))) = []"
    unfolding sim_axil_def by blast
  let ?k = "pipe_kernel 0"
  define s0 where "s0 = on_top (tick_edge ev) (srv \<sigma>)"
  define s1 where "s1 = count_ready s0"
  have t0: "run_thread ev ?k (L_Dram D_Top) s0 = Some (Blocked (L_Dram D_Top), s1)"
    unfolding s1_def
    by (subst run_thread_eq [of ev ?k "L_Dram D_Top" s0 "L_Dram D_Top" s0])
      (simp_all add: s0_def dram_step_def tick_edge_idle [OF assms(1)] on_top_def rest(2))
  have "axil_run ev l s1 Q"
    by (rule run) (simp_all add: s1_def s0_def ports_def td_dut_tick_edge)
  then obtain l' s2 where res: "axil_resume ev ?k l s1 = Some (l', s2)"
    and s2: "axil_ipc s2 = axil_ipc s1" "axi_ipc s2 = axi_ipc s1"
      "error_occurred (top s2) = error_occurred (top s1)"
      "inbox (os s2) (client_fd (axi_ipc s1)) = inbox (os s1) (client_fd (axi_ipc s1))"
    and q: "Q l' (inbox (os s2) (client_fd (axil_ipc s1))) (outbox (os s2) (client_fd (axil_ipc s1))) (ports s2)"
    unfolding axil_run_def by blast
  have fr: "\<not> terminating (top s2)" "\<not> error_occurred (top s2)"
    using axil.resume_frame [OF res] s2(3) rest(2,3) by (simp_all add: dut_frame_def s1_def s0_def)
  define s3 where "s3 = count_ready s2"
  have t1: "run_thread ev ?k (L_Axil l) s1 = Some (Blocked (L_Axil l'), s3)"
    unfolding s3_def
    by (subst run_thread_eq [of ev ?k "L_Axil l" s1 "L_Axil l'" s2]) (simp_all add: res fr)
  have s3: "\<not> terminating (top s3)" "\<not> error_occurred (top s3)" using fr by (simp_all add: s3_def)
  have "axi_poll ev ?k m2 s3 = Some (X_Poll m2, s3)"
    by (rule axi_poll_empty) (use rest s2 in \<open>simp_all add: s0_def s1_def s3_def\<close>)
  then have t2: "run_thread ev ?k (L_Axi (X_Poll m2)) s3 = Some (Blocked (L_Axi (X_Poll m2)), count_ready s3)"
    by (subst run_thread_eq [of ev ?k "L_Axi (X_Poll m2)" s3 "L_Axi (X_Poll m2)" s3])
      (simp_all add: s3)
  let ?\<sigma>' = "\<sigma>\<lparr>threads := [Blocked (L_Dram D_Top), Blocked (L_Axil l'),
      Blocked (L_Axi (X_Poll m2))], srv := count_ready s3, main_at := M_Loop\<rparr>"
  have "main_iteration ev ?k False \<sigma> = Some ?\<sigma>'"
    using s3(2)
    by (simp add: main_iteration_def ths tick_begin_def s0_def [symmetric] t0 t1 t2 upt_rec)
  moreover have "sim_axil l' (inbox (os s2) (client_fd (axil_ipc s1)))
      (outbox (os s2) (client_fd (axil_ipc s1))) ?\<sigma>'"
    using rest s2 fr by (simp add: sim_axil_def s3_def s0_def s1_def)
  moreover have "axil_end ?\<sigma>' = axil_end \<sigma>"
    using s2(1) by (simp add: axil_end_def s3_def s1_def s0_def)
  moreover have "dut_of ?\<sigma>' = ports s2" by (simp add: s3_def ports_def)
  ultimately show ?thesis using q by metis
qed

section \<open>Waiting for a reply\<close>

text \<open>Iterations that pass while the client's socket has nothing for it.\<close>

inductive sim_waits :: "('i VARMFlexTop \<Rightarrow> 'i VARMFlexTop) \<Rightarrow> int \<Rightarrow> ('i, pipes) sim \<Rightarrow> ('i, pipes) sim \<Rightarrow> bool"
  for ev :: "'i VARMFlexTop \<Rightarrow> 'i VARMFlexTop" and fd :: int where
  waits_refl: "sim_waits ev fd \<sigma> \<sigma>"
| waits_step: "outbox (os (srv \<sigma>)) fd = [] \<Longrightarrow> main_at \<sigma> = M_Loop \<Longrightarrow>
    main_iteration ev (pipe_kernel 0) False \<sigma> = Some \<sigma>1 \<Longrightarrow> sim_waits ev fd \<sigma>1 \<sigma>2 \<Longrightarrow> sim_waits ev fd \<sigma> \<sigma>2"

lemma sim_waits_trans:
  "sim_waits ev fd \<sigma> \<sigma>1 \<Longrightarrow> sim_waits ev fd \<sigma>1 \<sigma>2 \<Longrightarrow> sim_waits ev fd \<sigma> \<sigma>2"
  by (induction rule: sim_waits.induct) (auto intro: sim_waits.intros)

lemma recvIPC_loop_waits:
  assumes "sim_waits ev fd \<sigma> \<sigma>'" and "0 < missing"
  shows "recvIPC_loop (client_kernel ev) buf fd missing c \<sigma> =
    recvIPC_loop (client_kernel ev) buf fd missing c \<sigma>'"
  using assms(1)
proof (induction rule: sim_waits.induct)
  case (waits_step \<sigma> \<sigma>1 \<sigma>2)
  then have "cl_recv ev fd (nat missing) \<sigma> = (RecvError EAGAIN, \<sigma>1)" by (simp add: cl_recv_def)
  then have "recvIPC_loop (client_kernel ev) buf fd missing c \<sigma> =
      recvIPC_loop (client_kernel ev) buf fd missing c \<sigma>1"
    using assms(2) by (subst recvIPC_loop.simps) simp
  with waits_step.IH show ?case by simp
qed simp

lemma sim_waits_one:
  assumes "sim_axil l reqs [] \<sigma>" and "main_iteration ev (pipe_kernel 0) False \<sigma> = Some \<sigma>'"
  shows "sim_waits ev (axil_end \<sigma>) \<sigma> \<sigma>'"
  using assms by (auto simp: sim_axil_def axil_end_def intro: waits_step waits_refl)

text \<open>The reply, when it is there.\<close>

lemma recvIPC_reply:
  assumes "sim_waits ev (axil_end \<sigma>) \<sigma> \<sigma>'" and "axil_end \<sigma>' = axil_end \<sigma>"
    and "sim_axil l [] (bytes_le 4 v) \<sigma>'"
  shows "\<exists>\<sigma>''. recvIPC (client_kernel ev) (bytes_le 4 (x :: u32)) (axil_end \<sigma>) 4 \<sigma> =
      Some (0, bytes_le 4 (v :: u32), \<sigma>'') \<and> sim_axil l [] [] \<sigma>'' \<and> axil_end \<sigma>'' = axil_end \<sigma> \<and>
    dut_of \<sigma>'' = dut_of \<sigma>'"
proof -
  let ?\<sigma> = "snd (cl_recv ev (axil_end \<sigma>) 4 \<sigma>')"
  have "bytes_le 4 v \<noteq> []" by (simp add: numeral_eq_Suc)
  then have "cl_recv ev (axil_end \<sigma>) 4 \<sigma>' = (Received (bytes_le 4 v), ?\<sigma>)"
    and "sim_axil l [] [] ?\<sigma>" "axil_end ?\<sigma> = axil_end \<sigma>" "dut_of ?\<sigma> = dut_of \<sigma>'"
    using assms(2,3) by (auto simp: cl_recv_def sim_axil_def axil_end_def)
  then obtain \<sigma>'' where got: "cl_recv ev (axil_end \<sigma>) 4 \<sigma>' = (Received (bytes_le 4 v), \<sigma>'')"
    and rest: "sim_axil l [] [] \<sigma>''" "axil_end \<sigma>'' = axil_end \<sigma>" "dut_of \<sigma>'' = dut_of \<sigma>'"
    by blast
  have "recvIPC_loop (client_kernel ev) (bytes_le 4 x) (axil_end \<sigma>) 4 0 \<sigma> =
      recvIPC_loop (client_kernel ev) (bytes_le 4 x) (axil_end \<sigma>) 4 0 \<sigma>'"
    by (rule recvIPC_loop_waits [OF assms(1)]) simp
  also have "\<dots> = recvIPC_loop (client_kernel ev) (overwrite (bytes_le 4 x) 0 (bytes_le 4 v)) (axil_end \<sigma>) 0 4 \<sigma>''"
    using got by (subst recvIPC_loop.simps) simp
  also have "\<dots> = Some (overwrite (bytes_le 4 x) 0 (bytes_le 4 v), \<sigma>'')"
    by (subst recvIPC_loop.simps) simp
  also have "overwrite (bytes_le 4 x) 0 (bytes_le 4 v) = bytes_le 4 v" by simp
  finally show ?thesis using rest by (simp add: recvIPC_def)
qed

section \<open>Through the handshakes\<close>

text \<open>The subroutine waits for the handshake \<open>h\<close>, the registers holding \<open>f\<close>.\<close>

definition sim_at ::
  "('i VARMFlexTop \<Rightarrow> axil_phase) \<Rightarrow> ('i VARMFlexTop \<Rightarrow> u32 \<Rightarrow> u32) \<Rightarrow> int \<Rightarrow> handshake \<Rightarrow> nat \<Rightarrow> mem \<Rightarrow>
   (u32 \<Rightarrow> u32) \<Rightarrow> ('i, pipes) sim \<Rightarrow> bool" where
  "sim_at phase regs fd h n m f \<sigma> \<longleftrightarrow>
     (\<exists>l. sim_axil l [] [] \<sigma> \<and> at_handshake phase h n m l (dut_of \<sigma>)) \<and> regs (dut_of \<sigma>) = f \<and>
     axil_end \<sigma> = fd"

lemma axil_run_ports_only:
  assumes "axil_resume ev (pipe_kernel 0) l s = Some (l', s')" and "ports_only s s'"
    and "Q l' (inbox (os s) (client_fd (axil_ipc s))) (outbox (os s) (client_fd (axil_ipc s))) (ports s')"
  shows "axil_run ev l s Q"
  using assms by (auto simp: axil_run_def ports_only_def)

lemma sim_at_waits:
  assumes "no_mastering ev" and "slave_clocked ev phase regs" and "sim_at phase regs fd h n m f \<sigma>"
  shows "\<exists>\<sigma>'. sim_waits ev fd \<sigma> \<sigma>' \<and> sim_at phase regs fd h 0 m f \<sigma>'"
  using assms(3)
proof (induction n arbitrary: \<sigma>)
  case 0
  then show ?case using waits_refl by blast
next
  case (Suc n)
  from Suc.prems have at: "sim_axil (wait_label h m) [] [] \<sigma>" "phase (dut_of \<sigma>) = Waiting h (Suc n)"
    "regs (dut_of \<sigma>) = f" "axil_end \<sigma> = fd"
    by (auto simp: sim_at_def at_handshake_def label_at_def)
  let ?Q = "\<lambda>l' rq rp d. rq = [] \<and> rp = [] \<and> at_handshake phase h n m l' d \<and> regs d = f"
  have "axil_run ev (wait_label h m) s ?Q"
    if s: "ports s = dut_tick ev (dut_of \<sigma>)" "axil_ipc s = axil_ipc (srv \<sigma>)" "os s = os (srv \<sigma>)" for s
  proof -
    have ph: "phase (ports s) = Waiting h n" "regs (ports s) = f"
      using assms(2) at(2,3) s(1) by (auto simp: slave_clocked_def)
    show ?thesis
      by (rule axil_run_ports_only [OF resume_waiting [OF assms(2) ph(1)]])
        (use at(1) ph s(2,3) in \<open>simp_all add: at_handshake_def sim_axil_def\<close>)
  qed
  then obtain \<sigma>1 l' rq rp where it: "main_iteration ev (pipe_kernel 0) False \<sigma> = Some \<sigma>1"
    and s1: "sim_axil l' rq rp \<sigma>1" "axil_end \<sigma>1 = axil_end \<sigma>" "?Q l' rq rp (dut_of \<sigma>1)"
    using main_iteration_axil [OF assms(1) at(1), of ?Q] by blast
  then have "sim_at phase regs fd h n m f \<sigma>1" using at(4) by (auto simp: sim_at_def)
  with Suc.IH obtain \<sigma>' where "sim_waits ev fd \<sigma>1 \<sigma>'" "sim_at phase regs fd h 0 m f \<sigma>'" by blast
  with sim_waits_one [OF at(1) it] at(4) show ?case using sim_waits_trans by blast
qed

text \<open>The iteration in which the handshake \<open>h\<close> is over, to whatever the run makes of it.\<close>

lemma sim_at_accepted:
  assumes "no_mastering ev" and "slave_clocked ev phase regs" and "sim_at phase regs fd h 0 m f \<sigma>"
    and run: "\<And>s r. phase (ports s) = Accepted h \<Longrightarrow> regs (ports s) = regs_tick (Waiting h 0) f \<Longrightarrow>
      \<not> ipc_error (axil_ipc s) \<Longrightarrow> client_fd (axil_ipc s) \<noteq> client_fd (axi_ipc s) \<Longrightarrow>
      inbox (os s) (client_fd (axil_ipc s)) = [] \<Longrightarrow> outbox (os s) (client_fd (axil_ipc s)) = [] \<Longrightarrow>
      (\<forall>a. h = H_R a \<longrightarrow> r = f a) \<Longrightarrow> axil_run ev (tick_label h m r) s Q"
  shows "\<exists>\<sigma>' l' rq rp. sim_waits ev fd \<sigma> \<sigma>' \<and> sim_axil l' rq rp \<sigma>' \<and> axil_end \<sigma>' = fd \<and>
    Q l' rq rp (dut_of \<sigma>')"
proof -
  let ?r = "S_AXIL_r_rdata (dut_of \<sigma>)"
  from assms(3) have at: "sim_axil (tick_label h m ?r) [] [] \<sigma>" "phase (dut_of \<sigma>) = Waiting h 0"
    "regs (dut_of \<sigma>) = f" "axil_end \<sigma> = fd"
    by (auto simp: sim_at_def at_handshake_def label_at_def)
  have r: "\<forall>a. h = H_R a \<longrightarrow> ?r = f a" using assms(2) at(2,3) by (auto simp: slave_clocked_def)
  have "axil_run ev (tick_label h m ?r) s Q"
    if s: "ports s = dut_tick ev (dut_of \<sigma>)" "axil_ipc s = axil_ipc (srv \<sigma>)"
      "axi_ipc s = axi_ipc (srv \<sigma>)" "os s = os (srv \<sigma>)" for s
  proof (rule run)
    show "phase (ports s) = Accepted h" "regs (ports s) = regs_tick (Waiting h 0) f"
      using assms(2) at(2,3) s(1) by (simp_all add: slave_clocked_def)
  qed (use at(1) s r in \<open>simp_all add: sim_axil_def\<close>)
  then obtain \<sigma>1 l' rq rp where it: "main_iteration ev (pipe_kernel 0) False \<sigma> = Some \<sigma>1"
    and s1: "sim_axil l' rq rp \<sigma>1" "axil_end \<sigma>1 = axil_end \<sigma>" "Q l' rq rp (dut_of \<sigma>1)"
    using main_iteration_axil [OF assms(1) at(1), of Q] by blast
  with sim_waits_one [OF at(1) it] at(4) show ?thesis by auto
qed

lemma sim_at_next:
  assumes "no_mastering ev" and "slave_clocked ev phase regs" and "sim_at phase regs fd h n m f \<sigma>"
    and run: "\<And>s r. phase (ports s) = Accepted h \<Longrightarrow>
      proceeds_to phase regs h' m s (axil_resume ev (pipe_kernel 0) (tick_label h m r) s)"
  shows "\<exists>\<sigma>' n'. sim_waits ev fd \<sigma> \<sigma>' \<and> sim_at phase regs fd h' n' m (regs_tick (Waiting h 0) f) \<sigma>'"
proof -
  obtain \<sigma>0 where \<sigma>0: "sim_waits ev fd \<sigma> \<sigma>0" "sim_at phase regs fd h 0 m f \<sigma>0"
    using sim_at_waits [OF assms(1-3)] by blast
  let ?f = "regs_tick (Waiting h 0) f"
  let ?Q = "\<lambda>l rq rp d. rq = [] \<and> rp = [] \<and> (\<exists>n'. at_handshake phase h' n' m l d) \<and> regs d = ?f"
  have "axil_run ev (tick_label h m r) s ?Q"
    if s: "phase (ports s) = Accepted h" "regs (ports s) = ?f"
      "inbox (os s) (client_fd (axil_ipc s)) = []" "outbox (os s) (client_fd (axil_ipc s)) = []" for s r
  proof -
    from run [OF s(1), of r] obtain n' l s' where
      res: "axil_resume ev (pipe_kernel 0) (tick_label h m r) s = Some (l, s')"
      and "at_handshake phase h' n' m l (ports s')" "regs (ports s') = regs (ports s)" "ports_only s s'"
      by (auto simp: proceeds_to_def)
    then show ?thesis
      by (intro axil_run_ports_only [OF res]) (use s in auto)
  qed
  then obtain \<sigma>' l rq rp where "sim_waits ev fd \<sigma>0 \<sigma>'" "sim_axil l rq rp \<sigma>'" "axil_end \<sigma>' = fd"
    "?Q l rq rp (dut_of \<sigma>')"
    using sim_at_accepted [OF assms(1,2) \<sigma>0(2), of ?Q] by blast
  then have "sim_waits ev fd \<sigma> \<sigma>'" "\<exists>n'. sim_at phase regs fd h' n' m ?f \<sigma>'"
    using sim_waits_trans [OF \<sigma>0(1)] by (auto simp: sim_at_def)
  then show ?thesis by blast
qed

text \<open>The end of a transaction: the reply is on the socket, the subroutine polls again.\<close>

definition sim_replies ::
  "('i VARMFlexTop \<Rightarrow> axil_phase) \<Rightarrow> ('i VARMFlexTop \<Rightarrow> u32 \<Rightarrow> u32) \<Rightarrow> int \<Rightarrow> mem \<Rightarrow> u32 \<Rightarrow>
   (u32 \<Rightarrow> u32) \<Rightarrow> ('i, pipes) sim \<Rightarrow> bool" where
  "sim_replies phase regs fd m v f \<sigma> \<longleftrightarrow> sim_axil (A_Poll m) [] (bytes_le 4 v) \<sigma> \<and>
     phase (dut_of \<sigma>) = Quiet \<and> regs (dut_of \<sigma>) = f \<and> axil_end \<sigma> = fd"

lemma sim_at_last:
  assumes "no_mastering ev" and "axil_slave ev phase regs W" and "sim_at phase regs fd h n m f \<sigma>"
    and "h = H_B \<and> v = 0 \<or> h = H_R a \<and> v = f a"
  shows "\<exists>\<sigma>'. sim_waits ev fd \<sigma> \<sigma>' \<and> sim_replies phase regs fd m v f \<sigma>'"
proof -
  have c: "slave_clocked ev phase regs" using assms(2) by (simp add: axil_slave_def)
  obtain \<sigma>0 where \<sigma>0: "sim_waits ev fd \<sigma> \<sigma>0" "sim_at phase regs fd h 0 m f \<sigma>0"
    using sim_at_waits [OF assms(1) c assms(3)] by blast
  let ?Q = "\<lambda>l rq rp d. l = A_Poll m \<and> rq = [] \<and> rp = bytes_le 4 v \<and> phase d = Quiet \<and> regs d = f"
  have "axil_run ev (tick_label h m r) s ?Q"
    if s: "phase (ports s) = Accepted h" "regs (ports s) = regs_tick (Waiting h 0) f"
      "\<not> ipc_error (axil_ipc s)" "client_fd (axil_ipc s) \<noteq> client_fd (axi_ipc s)"
      "inbox (os s) (client_fd (axil_ipc s)) = []" "outbox (os s) (client_fd (axil_ipc s)) = []"
      "\<forall>a. h = H_R a \<longrightarrow> r = f a" for s r
  proof -
    have "regs (ports s) = f" using s(2) assms(4) by auto
    moreover have "\<exists>s'. axil_resume ev (pipe_kernel 0) (tick_label h m r) s = Some (A_Poll m, replied v s') \<and>
        ports_only s s' \<and> phase (ports s') = Quiet \<and> regs (ports s') = regs (ports s)"
      using assms(4) run_b_tick [OF assms(2) _ s(3,5)] run_r_tick [OF assms(2) _ s(3,5)] s(1,7) by auto
    ultimately show ?thesis using s by (auto simp: axil_run_def ports_only_def)
  qed
  then obtain \<sigma>' where "sim_waits ev fd \<sigma>0 \<sigma>'" "sim_replies phase regs fd m v f \<sigma>'"
    using sim_at_accepted [OF assms(1) c \<sigma>0(2), of ?Q] by (auto simp: sim_replies_def)
  then show ?thesis using sim_waits_trans [OF \<sigma>0(1)] by blast
qed

text \<open>The beginning: the request is on the socket.\<close>

lemma sim_at_first:
  assumes "no_mastering ev" and "axil_slave ev phase regs W" and "a \<in> W" and "op \<noteq> 0xDEED"
    and "sim_axil (A_Poll m) (MemoryRequestAXIL_bytes (AXIL_request op a v)) [] \<sigma>"
    and "phase (dut_of \<sigma>) = Quiet" and "regs (dut_of \<sigma>) = f" and "axil_end \<sigma> = fd"
  shows "\<exists>\<sigma>' n m'. sim_waits ev fd \<sigma> \<sigma>' \<and> holds_request m' op a v \<and>
    sim_at phase regs fd (if op \<noteq> 0 then H_Aw a else H_Ar a) n m' f \<sigma>'"
proof -
  let ?h = "if op \<noteq> 0 then H_Aw a else H_Ar a"
  let ?Q = "\<lambda>l rq rp d. rq = [] \<and> rp = [] \<and> (\<exists>m' n. holds_request m' op a v \<and> at_handshake phase ?h n m' l d) \<and>
    regs d = f"
  have "axil_run ev (A_Poll m) s ?Q"
    if s: "ports s = dut_tick ev (dut_of \<sigma>)" "axil_ipc s = axil_ipc (srv \<sigma>)"
      "axi_ipc s = axi_ipc (srv \<sigma>)" "os s = os (srv \<sigma>)" for s
  proof -
    have ph: "phase (ports s) = Quiet" "regs (ports s) = f"
      using assms(2,6,7) s(1) by (auto simp: axil_slave_def slave_clocked_def)
    have ipc: "\<not> ipc_error (axil_ipc s)" "client_fd (axil_ipc s) \<noteq> client_fd (axi_ipc s)"
      "inbox (os s) (client_fd (axil_ipc s)) = MemoryRequestAXIL_bytes (AXIL_request op a v)"
      "outbox (os s) (client_fd (axil_ipc s)) = []"
      using assms(5) s by (simp_all add: sim_axil_def)
    from run_poll_request [OF assms(2) ph(1) assms(3) ipc(1) assms(4) ipc(3), of m]
    obtain m' n l s' where "axil_resume ev (pipe_kernel 0) (A_Poll m) s = Some (l, s')"
      and "holds_request m' op a v" "at_handshake phase ?h n m' l (ports s')"
      and "regs (ports s') = regs (ports (s\<lparr>os := (os s)\<lparr>inbox := (inbox (os s))(client_fd (axil_ipc s) := [])\<rparr>\<rparr>))"
      and "ports_only (s\<lparr>os := (os s)\<lparr>inbox := (inbox (os s))(client_fd (axil_ipc s) := [])\<rparr>\<rparr>) s'"
      by (auto simp: proceeds_to_def)
    then show ?thesis using ipc ph(2)
      by (auto simp: axil_run_def ports_only_def ports_def simp del: axil_resume.simps) blast+
  qed
  then obtain \<sigma>1 l' rq rp where it: "main_iteration ev (pipe_kernel 0) False \<sigma> = Some \<sigma>1"
    and s1: "sim_axil l' rq rp \<sigma>1" "axil_end \<sigma>1 = axil_end \<sigma>" "?Q l' rq rp (dut_of \<sigma>1)"
    using main_iteration_axil [OF assms(1,5), of ?Q] by blast
  then obtain m' n where "holds_request m' op a v" "sim_at phase regs fd ?h n m' f \<sigma>1"
    using assms(8) by (auto simp: sim_at_def)
  with sim_waits_one [OF assms(5) it] assms(8) show ?thesis by blast
qed

section \<open>A write and a read, from request to reply\<close>

lemma sim_write_waits:
  assumes "no_mastering ev" and "axil_slave ev phase regs W" and "a \<in> W"
    and "sim_axil (A_Poll m) (MemoryRequestAXIL_bytes (AXIL_request 1 a v)) [] \<sigma>"
    and "phase (dut_of \<sigma>) = Quiet"
  shows "\<exists>\<sigma>' m'. sim_waits ev (axil_end \<sigma>) \<sigma> \<sigma>' \<and>
    sim_replies phase regs (axil_end \<sigma>) m' 0 ((regs (dut_of \<sigma>))(a := v)) \<sigma>'"
proof -
  have c: "slave_clocked ev phase regs" using assms(2) by (simp add: axil_slave_def)
  let ?fd = "axil_end \<sigma>" and ?f = "regs (dut_of \<sigma>)"
  obtain \<sigma>1 n1 m' where 1: "sim_waits ev ?fd \<sigma> \<sigma>1" "holds_request m' 1 a v"
    "sim_at phase regs ?fd (H_Aw a) n1 m' ?f \<sigma>1"
    using sim_at_first [OF assms(1-3) _ assms(4,5) refl refl] by auto
  obtain \<sigma>2 n2 where 2: "sim_waits ev ?fd \<sigma>1 \<sigma>2" "sim_at phase regs ?fd (H_W a v) n2 m' ?f \<sigma>2"
    using sim_at_next [OF assms(1) c 1(3) run_aw_tick [OF assms(2) _ 1(2)]] by auto
  obtain \<sigma>3 n3 where 3: "sim_waits ev ?fd \<sigma>2 \<sigma>3" "sim_at phase regs ?fd H_B n3 m' (?f(a := v)) \<sigma>3"
    using sim_at_next [OF assms(1) c 2(2) run_w_tick [OF assms(2)]] by auto
  obtain \<sigma>4 where "sim_waits ev ?fd \<sigma>3 \<sigma>4" "sim_replies phase regs ?fd m' 0 (?f(a := v)) \<sigma>4"
    using sim_at_last [OF assms(1,2) 3(2), of 0] by blast
  with 1(1) 2(1) 3(1) show ?thesis using sim_waits_trans by blast
qed

lemma sim_read_waits:
  assumes "no_mastering ev" and "axil_slave ev phase regs W" and "a \<in> W"
    and "sim_axil (A_Poll m) (MemoryRequestAXIL_bytes (AXIL_request 0 a v)) [] \<sigma>"
    and "phase (dut_of \<sigma>) = Quiet"
  shows "\<exists>\<sigma>' m'. sim_waits ev (axil_end \<sigma>) \<sigma> \<sigma>' \<and>
    sim_replies phase regs (axil_end \<sigma>) m' (regs (dut_of \<sigma>) a) (regs (dut_of \<sigma>)) \<sigma>'"
proof -
  have c: "slave_clocked ev phase regs" using assms(2) by (simp add: axil_slave_def)
  let ?fd = "axil_end \<sigma>" and ?f = "regs (dut_of \<sigma>)"
  obtain \<sigma>1 n1 m' where 1: "sim_waits ev ?fd \<sigma> \<sigma>1" "sim_at phase regs ?fd (H_Ar a) n1 m' ?f \<sigma>1"
    using sim_at_first [OF assms(1-3) _ assms(4,5) refl refl] by auto
  obtain \<sigma>2 n2 where 2: "sim_waits ev ?fd \<sigma>1 \<sigma>2" "sim_at phase regs ?fd (H_R a) n2 m' ?f \<sigma>2"
    using sim_at_next [OF assms(1) c 1(2) run_ar_tick [OF assms(2)]] by auto
  obtain \<sigma>3 where "sim_waits ev ?fd \<sigma>2 \<sigma>3" "sim_replies phase regs ?fd m' (?f a) ?f \<sigma>3"
    using sim_at_last [OF assms(1,2) 2(2), of "?f a" a] by blast
  with 1(1) 2(1) show ?thesis using sim_waits_trans by blast
qed

section \<open>The client's accessors\<close>

text \<open>The simulator between two requests, all of whose sockets work.\<close>

definition regs_usable ::
  "('i VARMFlexTop \<Rightarrow> 'i VARMFlexTop) \<Rightarrow> ('i VARMFlexTop \<Rightarrow> axil_phase) \<Rightarrow>
   ('i VARMFlexTop \<Rightarrow> u32 \<Rightarrow> u32) \<Rightarrow> u32 set \<Rightarrow> FPGAContext_rtl \<Rightarrow> ('i, pipes) sim \<Rightarrow> bool" where
  "regs_usable ev phase regs W c \<sigma> \<longleftrightarrow> no_mastering ev \<and> axil_slave ev phase regs W \<and>
     (\<exists>m. sim_axil (A_Poll m) [] [] \<sigma>) \<and> phase (dut_of \<sigma>) = Quiet \<and>
     axil_fd c = axil_end \<sigma> \<and> 0 \<le> axil_fd c"

lemma cl_send_axil:
  assumes "sim_axil l [] [] \<sigma>" and "length bs = sizeof_MemoryRequestAXIL"
  shows "\<exists>\<sigma>1. sendIPC (client_kernel ev) bs (axil_end \<sigma>) sizeof_MemoryRequestAXIL \<sigma> = Some (0, \<sigma>1) \<and>
    sim_axil l bs [] \<sigma>1 \<and> axil_end \<sigma>1 = axil_end \<sigma> \<and> dut_of \<sigma>1 = dut_of \<sigma>"
  using assms(1) cl_sendIPC [OF _ assms(2), of ev "axil_end \<sigma>" \<sigma>]
  by (intro exI [of _ "snd (cl_send (axil_end \<sigma>) bs \<sigma>)"])
    (simp add: sim_axil_def cl_send_def axil_end_def sizeof_MemoryRequestAXIL_def)

lemma sim_writeAXIL:
  assumes "regs_usable ev phase regs W c \<sigma>" and "a \<in> W"
  shows "\<exists>\<sigma>'. writeAXIL_rtl (client_kernel ev) c a v \<sigma> = Some (0, \<sigma>') \<and>
    regs_usable ev phase regs W c \<sigma>' \<and> regs (dut_of \<sigma>') = (regs (dut_of \<sigma>))(a := v)"
proof -
  from assms(1) obtain m where u: "no_mastering ev" "axil_slave ev phase regs W"
    "sim_axil (A_Poll m) [] [] \<sigma>" "phase (dut_of \<sigma>) = Quiet" "axil_fd c = axil_end \<sigma>" "0 \<le> axil_fd c"
    by (auto simp: regs_usable_def)
  let ?bs = "MemoryRequestAXIL_bytes (AXIL_request 1 a v)"
  obtain \<sigma>1 where send: "sendIPC (client_kernel ev) ?bs (axil_end \<sigma>) sizeof_MemoryRequestAXIL \<sigma> = Some (0, \<sigma>1)"
    and s1: "sim_axil (A_Poll m) ?bs [] \<sigma>1" "axil_end \<sigma>1 = axil_end \<sigma>" "dut_of \<sigma>1 = dut_of \<sigma>"
    using cl_send_axil [OF u(3) length_MemoryRequestAXIL_bytes] by blast
  obtain \<sigma>2 m' where w: "sim_waits ev (axil_end \<sigma>1) \<sigma>1 \<sigma>2"
    "sim_replies phase regs (axil_end \<sigma>1) m' 0 ((regs (dut_of \<sigma>1))(a := v)) \<sigma>2"
    using sim_write_waits [OF u(1,2) assms(2) s1(1)] u(4) s1(3) by auto
  from recvIPC_reply [OF w(1), where l = "A_Poll m'" and v = 0 and x = "0xCCCCCCCC"] w(2) obtain \<sigma>3
    where recv: "recvIPC (client_kernel ev) (bytes_le 4 (0xCCCCCCCC :: u32)) (axil_end \<sigma>) 4 \<sigma>1 =
        Some (0, bytes_le 4 (0 :: u32), \<sigma>3)"
      and s3: "sim_axil (A_Poll m') [] [] \<sigma>3" "axil_end \<sigma>3 = axil_end \<sigma>" "dut_of \<sigma>3 = dut_of \<sigma>2"
    unfolding sim_replies_def s1(2) by metis
  have "writeAXIL_rtl (client_kernel ev) c a v \<sigma> = Some (0, \<sigma>3)"
    using send recv u(5,6) by (simp add: writeAXIL_rtl_def writeAXIL_request_def AXIL_request_def Let_def)
  moreover have "regs_usable ev phase regs W c \<sigma>3" "regs (dut_of \<sigma>3) = (regs (dut_of \<sigma>))(a := v)"
    using u s3 w(2) s1(3) by (auto simp: regs_usable_def sim_replies_def)
  ultimately show ?thesis by blast
qed

lemma sim_readAXIL:
  assumes "regs_usable ev phase regs W c \<sigma>" and "a \<in> W"
  shows "\<exists>\<sigma>'. readAXIL_rtl (client_kernel ev) c a x \<sigma> = Some (0, regs (dut_of \<sigma>) a, \<sigma>') \<and>
    regs_usable ev phase regs W c \<sigma>' \<and> regs (dut_of \<sigma>') = regs (dut_of \<sigma>)"
proof -
  from assms(1) obtain m where u: "no_mastering ev" "axil_slave ev phase regs W"
    "sim_axil (A_Poll m) [] [] \<sigma>" "phase (dut_of \<sigma>) = Quiet" "axil_fd c = axil_end \<sigma>" "0 \<le> axil_fd c"
    by (auto simp: regs_usable_def)
  let ?bs = "MemoryRequestAXIL_bytes (AXIL_request 0 a 0xCCCCCCCC)"
  obtain \<sigma>1 where send: "sendIPC (client_kernel ev) ?bs (axil_end \<sigma>) sizeof_MemoryRequestAXIL \<sigma> = Some (0, \<sigma>1)"
    and s1: "sim_axil (A_Poll m) ?bs [] \<sigma>1" "axil_end \<sigma>1 = axil_end \<sigma>" "dut_of \<sigma>1 = dut_of \<sigma>"
    using cl_send_axil [OF u(3) length_MemoryRequestAXIL_bytes] by blast
  obtain \<sigma>2 m' where w: "sim_waits ev (axil_end \<sigma>1) \<sigma>1 \<sigma>2"
    "sim_replies phase regs (axil_end \<sigma>1) m' (regs (dut_of \<sigma>) a) (regs (dut_of \<sigma>)) \<sigma>2"
    using sim_read_waits [OF u(1,2) assms(2) s1(1)] u(4) s1(3) by auto
  from recvIPC_reply [OF w(1), where l = "A_Poll m'" and v = "regs (dut_of \<sigma>) a" and x = x] w(2) obtain \<sigma>3
    where recv: "recvIPC (client_kernel ev) (bytes_le 4 x) (axil_end \<sigma>) 4 \<sigma>1 =
        Some (0, bytes_le 4 (regs (dut_of \<sigma>) a), \<sigma>3)"
      and s3: "sim_axil (A_Poll m') [] [] \<sigma>3" "axil_end \<sigma>3 = axil_end \<sigma>" "dut_of \<sigma>3 = dut_of \<sigma>2"
    unfolding sim_replies_def s1(2) by metis
  have "readAXIL_rtl (client_kernel ev) c a x \<sigma> = Some (0, regs (dut_of \<sigma>) a, \<sigma>3)"
    using send recv u(5,6) by (simp add: readAXIL_rtl_def AXIL_request_def Let_def)
  moreover have "regs_usable ev phase regs W c \<sigma>3" "regs (dut_of \<sigma>3) = regs (dut_of \<sigma>)"
    using u s3 w(2) by (auto simp: regs_usable_def sim_replies_def)
  ultimately show ?thesis by blast
qed

section \<open>The simulation is a register file for the client\<close>

interpretation sim_regs: axil_registers "rtl_backend (client_kernel ev)" c
  "regs_usable ev phase regs W c" "\<lambda>\<sigma>. regs (dut_of \<sigma>)" W
  for ev :: "'i VARMFlexTop \<Rightarrow> 'i VARMFlexTop" and phase regs W and c :: FPGAContext_rtl
proof unfold_locales
  fix \<sigma> :: "('i, pipes) sim" and a v x :: u32
  assume u: "regs_usable ev phase regs W c \<sigma>" "a \<in> W"
  show "\<exists>\<sigma>'. writeAXIL (rtl_backend (client_kernel ev)) c a v \<sigma> = Some (0, \<sigma>') \<and>
      regs_usable ev phase regs W c \<sigma>' \<and> regs (dut_of \<sigma>') = (regs (dut_of \<sigma>))(a := v)"
    using sim_writeAXIL [OF u, of v] by (simp add: rtl_backend_def)
  show "\<exists>\<sigma>'. readAXIL (rtl_backend (client_kernel ev)) c a x \<sigma> = Some (0, regs (dut_of \<sigma>) a, \<sigma>') \<and>
      regs_usable ev phase regs W c \<sigma>' \<and> regs (dut_of \<sigma>') = regs (dut_of \<sigma>)"
    using sim_readAXIL [OF u, of x] by (simp add: rtl_backend_def)
qed

section \<open>Properties\<close>

text \<open>
  C3. The whole path of a thread's state, client and simulator: pushed with
  \<open>registerAndPushState\<close> over the AXI-Lite socket and fetched with \<open>transplantBack\<close>, it comes
  back as it was, every call returns 0, and the thread's entry of the table is cleared. Each of
  the 142 register accesses goes through \<open>AXILRoutine\<close>, one port handshake after the other,
  while the client polls its socket; the design may let every handshake wait for any finite number
  of cycles. About the design, which is not part of the program, it is assumed that its AXI-Lite port
  is an AXI-Lite slave before registers that read back what was last written to them, on a set \<open>W\<close>
  of addresses with the thread's window and its entry of the table (\<open>axil_slave\<close>), and that it does
  not start transfers of its own (\<open>no_mastering\<close>). The port and the sockets are idle at the start,
  the memory map is the standard one, the thread's number is below 64, and nobody interrupts the
  simulator.
\<close>

theorem simulated_transplant:
  fixes \<sigma> :: "('i, pipes) sim"
  assumes "no_mastering ev" and "axil_slave ev phase regs W" and "sim_axil (A_Poll m) [] [] \<sigma>"
    and "phase (dut_of \<sigma>) = Quiet" and "axil_fd c = axil_end \<sigma>" and "0 \<le> axil_fd c"
    and "base_address c = standard_base d b" and "unat th < 64"
    and "insert (tt_addr c th) (thread_window (unat th)) \<subseteq> W" and "wf_arch st" and "wf_arch st0"
  shows "let be = rtl_backend (client_kernel ev) in
    \<exists>\<sigma>1 \<sigma>2. registerAndPushState be c th pid st \<sigma> = Some (0, \<sigma>1) \<and>
      transplantBack be c junk th st0 \<sigma>1 = Some (0, st, \<sigma>2) \<and> regs (dut_of \<sigma>2) (tt_addr c th) = 0"
  using sim_regs.transplant_roundtrip [of ev phase regs W c \<sigma> d b th st st0 pid junk] assms
  by (auto simp: regs_usable_def Let_def)

definition block_sim :: "(reg_block, pipes) sim" where
  "block_sim = \<lparr>srv = \<lparr>top = (TopDUT_new block_start (\<lambda>_. 0) 0x1000000)\<lparr>n_subroutines := 3\<rparr>,
       axil_ipc = \<lparr>ipc_name = ''/dev/shm/axi_lite'', socket_fd = 3, client_fd = 5, ipc_error = False\<rparr>,
       axi_ipc = \<lparr>ipc_name = ''/dev/shm/axi'', socket_fd = 4, client_fd = 6, ipc_error = False\<rparr>,
       os = \<lparr>fd_count = 4, fds = {3, 4, 5, 6}, outbox = (\<lambda>_. []), inbox = (\<lambda>_. [])\<rparr>\<rparr>,
     threads = [Blocked (L_Dram D_Top), Blocked (L_Axil (A_Poll (\<lambda>_. 0))), Blocked (L_Axi (X_Poll (\<lambda>_. 0)))],
     main_at = M_Loop\<rparr>"

theorem simulated_transplant_witness:
  "let be = rtl_backend (client_kernel block_eval) in
    \<exists>\<sigma>1 \<sigma>2. registerAndPushState be example_client 3 64
        \<lparr>xregs = replicate 32 7, pc = 0x40000000, sp = 0, nzcv = 0\<rparr> block_sim = Some (0, \<sigma>1) \<and>
      transplantBack be example_client 0 3 \<lparr>xregs = replicate 32 0, pc = 0, sp = 0, nzcv = 0\<rparr> \<sigma>1 =
        Some (0, \<lparr>xregs = replicate 32 7, pc = 0x40000000, sp = 0, nzcv = 0\<rparr>, \<sigma>2) \<and>
      block_regs (dut_of \<sigma>2) (tt_addr example_client 3) = 0"
  by (rule simulated_transplant [where phase = block_phase and W = UNIV and m = "\<lambda>_. 0" and
        d = "0x1000000" and b = unset_base])
    (simp_all add: block_no_mastering block_axil_slave block_start_Quiet block_sim_def sim_axil_def
      axil_end_def example_client_def wf_arch_def)

end
