(* ===== verification/Catch_List.thy ===== *)
theory Catch_List
  imports Catch_Console_Reporter Catch_Session
begin

text \<open>
  \<open>catch_list.cpp\<close>: what is written instead of running when tests, tags or reporters are to be
  listed, and how much was listed. The tests are those of \<open>getAllTestCasesSorted\<close>; setting the
  configuration of the context is left out.
\<close>

section \<open>Tests\<close>

definition list_heading :: "Config \<Rightarrow> string \<Rightarrow> string \<Rightarrow> piece" where
  "list_heading config matching available =
     plain ((if cfg_hasTestFilters config then matching else available) @ '':'' @ [newline])"

definition matched_tests :: "Config \<Rightarrow> 'i TestCase list \<Rightarrow> 'i TestCase list" where
  "matched_tests config tests = filterTests tests (cfg_testSpec config) config"

text \<open>A name, at high verbosity the place and the description, and the tags.\<close>

definition listed_test :: "Config \<Rightarrow> 'i TestCase \<Rightarrow> piece list computed" where
  "listed_test config t =
     (let colour = (if isHidden t then Colour_SecondaryText else No_Colour);
          details = (verbosity (cfg_data config) = High);
          descr = (if description t = '''' then ''(NO DESCRIPTION)'' else description t) in
      and_then (column_piece colour ((Column_new (tc_name t))\<lparr>m_initialIndent := Some 2, m_indentation := 4\<rparr>)) (\<lambda>ps.
      and_then (if details
          then and_then (column_piece colour ((Column_new (show_location (lineInfo t)))\<lparr>m_indentation := 4\<rparr>)) (\<lambda>as.
            and_then (column_piece colour ((Column_new descr)\<lparr>m_indentation := 4\<rparr>)) (\<lambda>bs. computed (as @ bs)))
          else computed []) (\<lambda>qs.
      and_then (if tags t \<noteq> []
          then column_piece colour ((Column_new (tagsAsString t))\<lparr>m_indentation := 6\<rparr>) else computed []) (\<lambda>rs.
      computed (ps @ qs @ rs)))))"

definition write_tests :: "Config \<Rightarrow> 'i TestCase list \<Rightarrow> (piece list \<times> nat) computed" where
  "write_tests config tests =
     (let matched = matched_tests config tests;
          label = (if \<not> cfg_hasTestFilters config then ''test case'' else ''matching test case'') in
      and_then (concat_pieces (listed_test config) matched) (\<lambda>ps.
      computed (list_heading config ''Matching test cases'' ''All available test cases'' # ps @
        [plain (pluralise (of_nat (length matched)) label @ [newline, newline])], length matched)))"

text \<open>The names only, in the form in which \<open>--input-file\<close> takes them; a \<open>#\<close> would begin a comment.\<close>

definition name_line :: "Config \<Rightarrow> 'i TestCase \<Rightarrow> string" where
  "name_line config t =
     (if startsWith_char (tc_name t) CHR ''#'' then [CHR 0x22] @ tc_name t @ [CHR 0x22] else tc_name t) @
     (if verbosity (cfg_data config) = High then [CHR 0x09] @ ''@'' @ show_location (lineInfo t) else '''')"

definition write_names :: "Config \<Rightarrow> 'i TestCase list \<Rightarrow> string \<times> nat" where
  "write_names config tests =
     (let matched = matched_tests config tests in
      (concat (map (\<lambda>t. name_line config t @ [newline]) matched), length matched))"

section \<open>Tags\<close>

definition right_aligned :: "nat \<Rightarrow> string \<Rightarrow> string" where
  "right_aligned n s = replicate (n - length s) CHR '' '' @ s"

definition listed_tag :: "string \<times> TagInfo \<Rightarrow> piece list computed" where
  "listed_tag tagCount =
     (let str = ''  '' @ right_aligned 2 (decimal (tag_count (snd tagCount))) @ ''  '' in
      and_then (Column_toString ((Column_new (TagInfo_all (snd tagCount)))\<lparr>m_initialIndent := Some 0,
          m_indentation := length str, m_width := CONSOLE_WIDTH - 10\<rparr>))
        (\<lambda>wrapper. computed [plain str, plain wrapper, plain [newline]]))"

definition write_tags :: "Config \<Rightarrow> 'i TestCase list \<Rightarrow> (piece list \<times> nat) computed" where
  "write_tags config tests =
     (let tagCounts = count_tags (matched_tests config tests) in
      and_then (concat_pieces listed_tag tagCounts) (\<lambda>ps.
      computed (list_heading config ''Tags for matching test cases'' ''All available tags'' # ps @
        [plain (pluralise (of_nat (length tagCounts)) ''tag'' @ [newline, newline])], length tagCounts)))"

section \<open>Reporters\<close>

text \<open>
  The factories are a map: the reporters' names with their descriptions, in the order of the
  names. The width of the second column is unsigned.
\<close>

definition listed_reporter :: "nat \<Rightarrow> string \<times> string \<Rightarrow> piece list computed" where
  "listed_reporter maxNameLen factory =
     and_then (Columns_toString
        [(Column_new (fst factory @ '':''))\<lparr>m_indentation := 2, m_width := 5 + maxNameLen\<rparr>,
         (Column_new (snd factory))\<lparr>m_initialIndent := Some 0, m_indentation := 2,
            m_width := unat (of_nat CONSOLE_WIDTH - of_nat maxNameLen - 8 :: u64)\<rparr>])
       (\<lambda>row. computed [plain row, plain [newline]])"

definition write_reporters :: "(string \<times> string) list \<Rightarrow> (piece list \<times> nat) computed" where
  "write_reporters factories =
     (let maxNameLen = foldr (\<lambda>f n. max (length (fst f)) n) factories 0 in
      and_then (concat_pieces (listed_reporter maxNameLen) factories) (\<lambda>ps.
      computed (plain (''Available reporters:'' @ [newline]) # ps @ [plain [newline]], length factories)))"

section \<open>list\<close>

definition also_listed ::
  "bool \<Rightarrow> (piece list \<times> nat) computed \<Rightarrow> piece list \<times> nat option \<Rightarrow> (piece list \<times> nat option) computed" where
  "also_listed wanted written so_far =
     (if wanted
      then and_then written (\<lambda>(ps, n). computed (fst so_far @ ps,
        Some ((case snd so_far of None \<Rightarrow> 0 | Some k \<Rightarrow> k) + n)))
      else computed so_far)"

definition write_list ::
  "(string \<times> string) list \<Rightarrow> Config \<Rightarrow> 'i TestCase list \<Rightarrow> (piece list \<times> nat option) computed" where
  "write_list factories config tests =
     (let d = cfg_data config in
      and_then (also_listed (listTests d) (write_tests config tests) ([], None)) (\<lambda>r1.
      and_then (also_listed (listTestNamesOnly d)
          (computed ([plain (fst (write_names config tests))], snd (write_names config tests))) r1) (\<lambda>r2.
      and_then (also_listed (listTags d) (write_tags config tests) r2)
        (also_listed (listReporters d) (write_reporters factories)))))"

end
