(* ===== verification/Catch_List_Names.thy ===== *)
theory Catch_List_Names
  imports Catch_List Catch_Console_Report Catch_Spec_Syntax
begin

text \<open>
  The listing of names is a list of tests that can be given back: what it selects, and where it
  does not come back as it was.
\<close>

section \<open>The counts\<close>

lemma also_listed_count:
  assumes "also_listed b written r = computed r'" and "\<And>v. written = computed v \<Longrightarrow> snd v = n"
  shows "snd r' = (if b then Some ((case snd r of None \<Rightarrow> 0 | Some k \<Rightarrow> k) + n) else snd r)"
  using assms by (auto simp: also_listed_def and_then_def computed_def split: if_splits option.splits sum.splits)

lemma and_then_computed: "and_then c f = computed r \<longleftrightarrow> (\<exists>v. c = computed v \<and> f v = computed r)"
  by (auto simp: and_then_def computed_def split: option.splits sum.splits)

text \<open>What \<open>list\<close> gives back is what the session takes for the number of listed things.\<close>

theorem list_counts:
  assumes "write_list factories config tests = computed (ps, n)"
  shows "n = list_count (length factories) config tests"
proof -
  have tests: "snd v = length (matched_tests config tests)" if "write_tests config tests = computed v" for v
    using that by (auto simp: write_tests_def Let_def and_then_computed)
  have tags: "snd v = length (count_tags (matched_tests config tests))" if "write_tags config tests = computed v" for v
    using that by (auto simp: write_tags_def Let_def and_then_computed)
  have reporters: "snd v = length factories" if "write_reporters factories = computed v" for v
    using that by (auto simp: write_reporters_def Let_def and_then_computed)
  have names: "snd v = length (matched_tests config tests)"
    if "computed ([plain (fst (write_names config tests))], snd (write_names config tests)) = computed v" for v
    using that by (auto simp: write_names_def Let_def)
  obtain r1 r2 r3 where r: "also_listed (listTests (cfg_data config)) (write_tests config tests) ([], None) = computed r1"
    "also_listed (listTestNamesOnly (cfg_data config))
      (computed ([plain (fst (write_names config tests))], snd (write_names config tests))) r1 = computed r2"
    "also_listed (listTags (cfg_data config)) (write_tags config tests) r2 = computed r3"
    "also_listed (listReporters (cfg_data config)) (write_reporters factories) r3 = computed (ps, n)"
    using assms by (auto simp: write_list_def Let_def and_then_computed)
  show ?thesis
    using also_listed_count [OF r(1) tests] also_listed_count [OF r(2) names]
      also_listed_count [OF r(3) tags] also_listed_count [OF r(4) reporters]
    by (simp add: list_count_def Let_def matched_tests_def)
qed

theorem list_counts_witness:
  "\<exists>ps. write_list [] \<lparr>cfg_data = ConfigData_default\<lparr>listTestNamesOnly := True\<rparr>,
      cfg_testSpec = \<lparr>filters = [], invalidArgs = []\<rparr>, cfg_hasTestFilters = False\<rparr> [example_test ''a''] = computed (ps, Some 1) \<and>
    list_count 0 \<lparr>cfg_data = ConfigData_default\<lparr>listTestNamesOnly := True\<rparr>,
      cfg_testSpec = \<lparr>filters = [], invalidArgs = []\<rparr>, cfg_hasTestFilters = False\<rparr> [example_test ''a''] = Some 1"
proof -
  let ?c = "\<lparr>cfg_data = ConfigData_default\<lparr>listTestNamesOnly := True\<rparr>,
      cfg_testSpec = \<lparr>filters = [], invalidArgs = []\<rparr>, cfg_hasTestFilters = False\<rparr>"
  have "\<not> isHidden (example_test ''a'')" by code_simp
  then have w: "write_list [] ?c [example_test ''a''] =
      computed ([plain (fst (write_names ?c [example_test ''a'']))], Some 1)"
    by (simp add: write_list_def also_listed_def ConfigData_default_def write_names_def matched_tests_def
        filterTests_def hasFilters_def Let_def)
  show ?thesis using list_counts [OF w] w by simp
qed

section \<open>A quoted name\<close>

definition in_quotes :: "string \<Rightarrow> string" where
  "in_quotes n = CHR 0x22 # n @ [CHR 0x22]"

definition quotable :: "string \<Rightarrow> bool" where
  "quotable n \<longleftrightarrow> n \<noteq> [] \<and> (\<forall>ch \<in> set n. ch \<notin> {CHR 0x22, CHR '','', CHR 0x5C}) \<and> \<not> startsWith n ''exclude:''"

lemma trim_in_quotes [simp]: "trim (in_quotes n) = in_quotes n"
  by (simp add: trim_strip strip_def in_quotes_def is_ws_def)

lemma visit_quoted_text:
  "m_mode p = QuotedName \<Longrightarrow> \<forall>ch \<in> set t. ch \<notin> {CHR 0x22, CHR '','', CHR 0x5C} \<Longrightarrow>
    visit_all arg (t @ cs) p = visit_all arg cs (reading t p)"
proof (induction t arbitrary: p)
  case (Cons ch t)
  then have "visitChar ch p = Inr (True, reading [ch] p)"
    by (simp add: visitChar_def processOtherChar_def isControlChar_def add_visited_def reading_def Let_def)
  with Cons show ?case by (simp add: reading_Cons)
qed simp

lemma visit_quote:
  "clean p \<Longrightarrow> visitChar CHR 0x22 p = Inr (True, p\<lparr>m_mode := QuotedName, m_substring := [CHR 0x22]\<rparr>)"
  by (cases p) (simp add: clean_def visitChar_def processNoneChar_def isControlChar_def add_visited_def
      startNewMode_def Let_def)

text \<open>The state \<open>parse\<close> begins an argument in, between two arguments.\<close>

definition begun :: "string \<Rightarrow> TestSpecParser \<Rightarrow> TestSpecParser" where
  "begun arg p = p\<lparr>m_arg := arg\<rparr>"

lemma parse_clean:
  assumes "clean p" and "m_tagAliases p = []"
  shows "parse arg p = (case visit_all arg arg (begun arg p) of Inl err \<Rightarrow> Inl err | Inr p' \<Rightarrow> endMode p')"
proof -
  have "p\<lparr>m_mode := ModeNone, m_exclusion := False, m_arg := expandAliases (m_tagAliases p) arg,
      m_escapeChars := [], m_realPatternPos := 0\<rparr> = begun arg p"
    using assms by (cases p) (simp add: clean_def begun_def expandAliases_def)
  moreover have "m_arg (begun arg p) = arg" by (simp add: begun_def)
  ultimately show ?thesis unfolding parse_def Let_def by (simp only:)
qed

lemma begun_simps [simp]:
  "clean (begun arg p) = clean p" "m_tagAliases (begun arg p) = m_tagAliases p"
  "m_currentFilter (begun arg p) = m_currentFilter p" "m_testSpec (begun arg p) = m_testSpec p"
  by (simp_all add: clean_def begun_def)

lemma parse_quoted:
  assumes "clean p" and "m_tagAliases p = []" and "quotable n"
  shows "parse (in_quotes n) p = Inr ((begun (in_quotes n) p)\<lparr>m_currentFilter :=
    m_currentFilter p @ [NamePattern_new n (in_quotes n)]\<rparr>)"
proof -
  let ?b = "begun (in_quotes n) p"
  let ?o = "?b\<lparr>m_mode := QuotedName, m_substring := [CHR 0x22]\<rparr>"
  let ?q = "?b\<lparr>m_currentFilter := m_currentFilter p @ [NamePattern_new n (in_quotes n)]\<rparr>"
  have "visit_all (in_quotes n) (in_quotes n) ?b = visit_all (in_quotes n) (n @ [CHR 0x22]) ?o"
    using visit_quote [of ?b] assms(1) by (simp add: in_quotes_def)
  also have "\<dots> = visit_all (in_quotes n) [CHR 0x22] (reading n ?o)"
    using assms(3) visit_quoted_text [of ?o n "in_quotes n" "[CHR 0x22]"] by (simp add: quotable_def)
  also have "\<dots> = Inr ?q"
    using assms(1,3)
    by (cases p) (auto simp: clean_def visitChar_def processOtherChar_def isControlChar_def endMode_def begun_def
        addNamePattern_def preprocessPattern_def end_pattern_def excluded_def reading_def quotable_def in_quotes_def Let_def)
  finally show ?thesis using assms(1,2) by (simp add: parse_clean endMode_clean)
qed

lemma parse_comma:
  assumes "clean p" and "m_tagAliases p = []"
  shows "parse '','' p = Inr (addFilter (begun '','' p))"
proof -
  have "clean (addFilter (begun '','' p))" using assms(1) by (simp add: addFilter_def clean_def begun_def)
  moreover have "m_mode (begun '','' p) \<in> {ModeNone, Name}" using assms(1) by (simp add: clean_def begun_def)
  ultimately show ?thesis
    using assms visit_comma [of "begun '','' p" "begun '','' p" "'',''" "[]"]
    by (simp add: parse_clean endMode_clean del: visit_all.simps(2))
qed

lemma parse_args_append:
  "parse_args (as @ bs) p = (case parse_args as p of Inl err \<Rightarrow> Inl err | Inr q \<Rightarrow> parse_args bs q)"
  by (induction as arbitrary: p) (auto split: sum.split)

text \<open>Names with a comma after each, and the same without the last comma.\<close>

definition quoted_list :: "string list \<Rightarrow> string list" where
  "quoted_list ns = concat (map (\<lambda>n. [in_quotes n, '','']) ns)"

definition name_filter :: "string \<Rightarrow> Filter" where
  "name_filter n = [NamePattern_new n (in_quotes n)]"

lemma quoted_list_simps [simp]:
  "quoted_list [] = []" "quoted_list (n # ns) = in_quotes n # '','' # quoted_list ns"
  "quoted_list (ns @ ms) = quoted_list ns @ quoted_list ms"
  by (simp_all add: quoted_list_def)

definition between :: "TestSpecParser \<Rightarrow> bool" where
  "between p \<longleftrightarrow> clean p \<and> m_tagAliases p = [] \<and> m_currentFilter p = []"

lemma parse_quoted_list:
  "between p \<Longrightarrow> \<forall>n \<in> set ns. quotable n \<Longrightarrow>
    \<exists>q. parse_args (quoted_list ns) p = Inr q \<and> between q \<and>
      m_testSpec q = (m_testSpec p)\<lparr>filters := filters (m_testSpec p) @ map name_filter ns\<rparr>"
proof (induction ns arbitrary: p)
  case (Cons n ns)
  let ?p1 = "(begun (in_quotes n) p)\<lparr>m_currentFilter := name_filter n\<rparr>"
  let ?p2 = "addFilter (begun '','' ?p1)"
  have p1: "parse (in_quotes n) p = Inr ?p1" "clean ?p1" "m_tagAliases ?p1 = []"
    using Cons.prems parse_quoted [of p n] by (simp_all add: between_def name_filter_def)
  have p2: "parse '','' ?p1 = Inr ?p2" using p1(2,3) by (rule parse_comma)
  have "between ?p2" "m_testSpec ?p2 = (m_testSpec p)\<lparr>filters := filters (m_testSpec p) @ [name_filter n]\<rparr>"
    using Cons.prems by (simp_all add: between_def addFilter_def begun_def clean_def name_filter_def)
  then show ?case
    using Cons.IH [of ?p2] Cons.prems(2) p1(1) p2 by auto
qed simp

lemma parse_quoted_names:
  assumes "ns \<noteq> []" and "\<forall>n \<in> set ns. quotable n"
  shows "\<exists>q. parse_args (butlast (quoted_list ns)) (TestSpecParser_new []) = Inr q \<and>
    testSpec q = \<lparr>filters = map name_filter ns, invalidArgs = []\<rparr>"
proof -
  obtain ms m where ns: "ns = ms @ [m]" using assms(1) by (cases ns rule: rev_cases) simp_all
  have b: "between (TestSpecParser_new [])" by (simp add: between_def clean_def TestSpecParser_new_def)
  obtain q where q: "parse_args (quoted_list ms) (TestSpecParser_new []) = Inr q" "between q"
      "m_testSpec q = \<lparr>filters = map name_filter ms, invalidArgs = []\<rparr>"
    using parse_quoted_list [OF b, of ms] assms(2) ns by (auto simp: TestSpecParser_new_def)
  let ?q = "(begun (in_quotes m) q)\<lparr>m_currentFilter := name_filter m\<rparr>"
  have "parse (in_quotes m) q = Inr ?q"
    using parse_quoted [of q m] q(2) assms(2) ns by (simp add: between_def name_filter_def)
  moreover have "butlast (quoted_list ns) = quoted_list ms @ [in_quotes m]"
    by (simp add: ns butlast_append)
  moreover have "testSpec ?q = \<lparr>filters = map name_filter ns, invalidArgs = []\<rparr>"
    using q(3) by (simp add: testSpec_def addFilter_def begun_def name_filter_def ns)
  ultimately show ?thesis using q(1) by (auto simp: parse_args_append)
qed

section \<open>The lines of the file\<close>

text \<open>\<open>std::getline\<close>: the lines of a file, the last one with or without its end.\<close>

function file_lines :: "string \<Rightarrow> string list" where
  "file_lines s =
     (if s = [] then [] else takeWhile (\<lambda>ch. ch \<noteq> newline) s # file_lines (drop 1 (dropWhile (\<lambda>ch. ch \<noteq> newline) s)))"
  by auto
termination
proof (relation "measure length")
  show "(drop 1 (dropWhile (\<lambda>ch. ch \<noteq> newline) s), s) \<in> measure length" if "s \<noteq> []" for s
    using that length_dropWhile_le [of "\<lambda>ch. ch \<noteq> newline" s] by (cases s) auto
qed simp

declare file_lines.simps [simp del]

lemma file_lines_line: "newline \<notin> set l \<Longrightarrow> file_lines (l @ newline # r) = l # file_lines r"
  by (subst file_lines.simps) (auto simp: takeWhile_append dropWhile_append)

lemma file_lines_concat:
  "\<forall>l \<in> set ls. newline \<notin> set l \<Longrightarrow> file_lines (concat (map (\<lambda>l. l @ [newline]) ls)) = ls"
  by (induction ls) (simp_all add: file_lines_line, simp add: file_lines.simps)

text \<open>Names that come back: no character with a meaning, no star at an end, no white space around them.\<close>

definition listable :: "string \<Rightarrow> bool" where
  "listable n \<longleftrightarrow> quotable n \<and> trim n = n \<and> newline \<notin> set n \<and> hd n \<noteq> CHR ''*'' \<and> last n \<noteq> CHR ''*''"

lemma load_listed:
  assumes "listable (tc_name t)" and "verbosity (cfg_data config) \<noteq> High"
  shows "load_line (name_line config t) ts = ts @ [in_quotes (tc_name t), '','']"
proof -
  obtain ch r where n: "tc_name t = ch # r" using assms(1) by (cases "tc_name t") (simp_all add: listable_def quotable_def)
  have ch: "ch \<noteq> CHR 0x22" using assms(1) by (simp add: listable_def quotable_def n)
  have quoted: "load_line (CHR 0x22 # tc_name t @ [CHR 0x22]) ts = ts @ [in_quotes (tc_name t), '','']"
    using trim_in_quotes [of "tc_name t"] by (simp add: load_line_def in_quotes_def startsWith_char_def)
  have plain: "load_line (tc_name t) ts = ts @ [in_quotes (tc_name t), '','']" if "ch \<noteq> CHR ''#''"
    using assms(1) that ch by (simp add: load_line_def in_quotes_def startsWith_char_def listable_def n)
  have "startsWith_char (tc_name t) CHR ''#'' \<longleftrightarrow> ch = CHR ''#''" by (simp add: startsWith_char_def n)
  then show ?thesis using assms(2) quoted plain by (simp add: name_line_def)
qed

lemma load_names:
  "\<forall>t \<in> set ts. listable (tc_name t) \<Longrightarrow> verbosity (cfg_data config) \<noteq> High \<Longrightarrow>
    fold load_line (map (name_line config) ts) as = as @ quoted_list (map tc_name ts)"
  by (induction ts arbitrary: as) (simp_all add: load_listed)

lemma names_text:
  assumes "\<forall>t \<in> set (matched_tests config tests). listable (tc_name t)" and "verbosity (cfg_data config) \<noteq> High"
  shows "file_lines (fst (write_names config tests)) = map (name_line config) (matched_tests config tests)"
proof -
  have "\<forall>l \<in> set (map (name_line config) (matched_tests config tests)). newline \<notin> set l"
    using assms by (auto simp: name_line_def listable_def newline_def)
  from file_lines_concat [OF this] show ?thesis by (simp add: write_names_def Let_def comp_def)
qed

section \<open>Selecting by a name\<close>

lemma toLowerCh_big: "toLowerCh ch = ch \<or> (of_char (toLowerCh ch) :: nat) \<ge> 97"
  by (simp add: toLowerCh_def Let_def)

lemma toLowerCh_keeps:
  assumes "(of_char x :: nat) < 65"
  shows "toLowerCh ch = x \<longleftrightarrow> ch = x"
proof -
  have "toLowerCh x = x" using assms by (simp add: toLowerCh_def Let_def)
  moreover have "toLowerCh ch = x \<Longrightarrow> ch = x" using toLowerCh_big [of ch] assms by auto
  ultimately show ?thesis by blast
qed

lemma toLowerCh_ws [simp]: "is_ws (toLowerCh ch) = is_ws ch"
  by (simp add: is_ws_def toLowerCh_keeps)

lemma toLowerCh_twice [simp]: "toLowerCh (toLowerCh ch) = toLowerCh ch"
  by (simp add: toLowerCh_def Let_def)

lemma toLower_twice [simp]: "toLower (toLower s) = toLower s"
  by (simp add: toLower_def)

lemma trim_toLower: "trim (toLower s) = toLower (trim s)"
  by (simp add: trim_strip strip_def toLower_def dropWhile_map comp_def rev_map)

lemma name_matches:
  assumes "listable n"
  shows "Filter_matches (name_filter n) t \<longleftrightarrow> normaliseString False n = normaliseString False (tc_name t)"
proof -
  have n: "n \<noteq> []" "trim n = n" "hd n \<noteq> CHR ''*''" "last n \<noteq> CHR ''*''"
    using assms by (simp_all add: listable_def quotable_def)
  have norm: "normaliseString False (toLower n) = toLower n" "normaliseString False n = toLower n"
    using n(2) by (simp_all add: normaliseString_def trim_toLower)
  have "\<not> startsWith_char (toLower n) CHR ''*''" "\<not> endsWith_char (toLower n) CHR ''*''"
    using n by (simp_all add: toLower_def startsWith_char_def endsWith_char_def toLowerCh_keeps hd_conv_nth last_conv_nth)
  then have "WildcardPattern_new (toLower n) False = \<lparr>caseSensitive = False, wildcard = NoWildcard, wc_pattern = toLower n\<rparr>"
    by (simp add: WildcardPattern_new_def norm Let_def)
  then show ?thesis
    by (simp add: Filter_matches_def name_filter_def NamePattern_new_def WildcardPattern_matches_def norm)
qed

text \<open>
  C38. Listing the names of the selected tests into a file and giving the file back selects these tests
  again, no more and no fewer, in the same order: when the names were listed at quiet or normal verbosity (at
  high verbosity the lines carry the file and line as well), at least one test was listed, no two
  tests have the same name up to case, the listed names need no escapes (\<open>listable\<close>: no quotes,
  commas, backslashes or line ends, no white space or \<open>*\<close> at the ends, not beginning with \<open>exclude:\<close>), and
  the second run has no \<open>-e\<close> and no specification besides the file. What had selected the tests
  the first time does not matter.
\<close>

theorem listed_names_select:
  assumes "verbosity (cfg_data config) \<noteq> High" and "matched_tests config tests \<noteq> []"
    and "\<forall>t \<in> set (matched_tests config tests). listable (tc_name t)"
    and "inj_on (\<lambda>t. normaliseString False (tc_name t)) (set tests)"
    and "testsOrTags data = []" and "\<not> noThrow data"
  shows "\<exists>data' config'.
    loadTestNamesFromFile (Some (file_lines (fst (write_names config tests)))) file data = Inr data' \<and>
    Config_new [] data' = Inr config' \<and> invalidArgs (cfg_testSpec config') = [] \<and>
    matched_tests config' tests = matched_tests config tests"
proof -
  let ?ms = "matched_tests config tests"
  let ?ns = "map tc_name ?ms"
  let ?data = "data\<lparr>testsOrTags := butlast (quoted_list ?ns)\<rparr>"
  have "quoted_list ?ns \<noteq> []" using assms(2) by (cases ?ms) simp_all
  then have load: "loadTestNamesFromFile (Some (file_lines (fst (write_names config tests)))) file data = Inr ?data"
    using load_names [OF assms(3,1), of "[]"] assms(5) by (simp add: loadTestNamesFromFile_def names_text [OF assms(3,1)])
  have "set (quoted_list ?ns) \<subseteq> in_quotes ` set ?ns \<union> {'',''}" by (auto simp: quoted_list_def)
  then have "map trim (butlast (quoted_list ?ns)) = butlast (quoted_list ?ns)"
    by (intro map_idI) (auto dest!: in_set_butlastD simp: trim_strip [of "'',''"] strip_def is_ws_def)
  moreover obtain q where "parse_args (butlast (quoted_list ?ns)) (TestSpecParser_new []) = Inr q"
      "testSpec q = \<lparr>filters = map name_filter ?ns, invalidArgs = []\<rparr>"
    using parse_quoted_names [of ?ns] assms(2,3) by (auto simp: listable_def)
  ultimately obtain config' where c: "Config_new [] ?data = Inr config'"
      "cfg_testSpec config' = \<lparr>filters = map name_filter ?ns, invalidArgs = []\<rparr>" "noThrow (cfg_data config') = noThrow data"
    by (simp add: Config_new_def Let_def)
  have "list_ex (\<lambda>f. Filter_matches f t) (map name_filter ?ns) \<longleftrightarrow> t \<in> set ?ms" if "t \<in> set tests" for t
  proof -
    have "list_ex (\<lambda>f. Filter_matches f t) (map name_filter ?ns) \<longleftrightarrow>
        (\<exists>m \<in> set ?ms. normaliseString False (tc_name m) = normaliseString False (tc_name t))"
      using assms(3) by (auto simp: list_ex_iff name_matches)
    also have "\<dots> \<longleftrightarrow> t \<in> set ?ms"
      using assms(4) that by (auto simp: inj_on_def matched_tests_def filterTests_def)
    finally show ?thesis .
  qed
  then have "matched_tests config' tests = filter (\<lambda>t. t \<in> set ?ms) tests"
    using assms(2,6) c(2,3) by (auto simp: matched_tests_def [of config'] filterTests_def hasFilters_def matchTest_def
        TestSpec_matches_def isThrowSafe_def allowThrows_def intro!: filter_cong)
  also have "\<dots> = ?ms" by (auto simp: matched_tests_def filterTests_def intro!: filter_cong)
  finally show ?thesis using load c(1,2) by auto
qed

theorem listed_names_select_witness:
  "\<exists>data' config'.
    loadTestNamesFromFile (Some (file_lines (fst (write_names
      \<lparr>cfg_data = ConfigData_default, cfg_testSpec = \<lparr>filters = [], invalidArgs = []\<rparr>, cfg_hasTestFilters = False\<rparr>
      [example_test ''#1 in'', example_test ''Push page'']))))
      ''tests.txt'' ConfigData_default = Inr data' \<and>
    Config_new [] data' = Inr config' \<and> invalidArgs (cfg_testSpec config') = [] \<and>
    matched_tests config' [example_test ''#1 in'', example_test ''Push page''] =
      [example_test ''#1 in'', example_test ''Push page'']"
proof -
  let ?c = "\<lparr>cfg_data = ConfigData_default, cfg_testSpec = \<lparr>filters = [], invalidArgs = []\<rparr>, cfg_hasTestFilters = False\<rparr>"
  let ?ts = "[example_test ''#1 in'', example_test ''Push page'']"
  have m: "matched_tests ?c ?ts = ?ts"
    by (simp add: matched_tests_def filterTests_def hasFilters_def isHidden_def example_test_def TestCase_new_def
        setTags_def property_defs)
  have names: "map tc_name ?ts = [''#1 in'', ''Push page'']"
    by (simp add: example_test_def TestCase_new_def setTags_def)
  have "listable ''#1 in''" "listable ''Push page''" by code_simp+
  then have l: "\<forall>t \<in> set ?ts. listable (tc_name t)" using names by simp
  have "normaliseString False ''#1 in'' \<noteq> normaliseString False ''Push page''" by code_simp
  then have i: "inj_on (\<lambda>t. normaliseString False (tc_name t)) (set ?ts)" using names by (auto simp: inj_on_def)
  show ?thesis
    using listed_names_select [of ?c ?ts ConfigData_default "''tests.txt''"] i l unfolding m
    by (simp add: ConfigData_default_def)
qed

section \<open>What does not come back\<close>

text \<open>A name with a comma: in quotes as well, the comma makes the argument invalid, and nothing is selected.\<close>

theorem comma_in_name_invalid:
  assumes "\<forall>ch \<in> set a. ch \<notin> {CHR 0x22, CHR '','', CHR 0x5C}" and "testsOrTags data = [in_quotes (a @ '','' @ b)]"
  shows "\<exists>config. Config_new [] data = Inr config \<and>
    cfg_testSpec config = \<lparr>filters = [], invalidArgs = [in_quotes (a @ '','' @ b)]\<rparr>"
proof -
  let ?arg = "in_quotes (a @ '','' @ b)" and ?p = "TestSpecParser_new []"
  let ?o = "(begun ?arg ?p)\<lparr>m_mode := QuotedName, m_substring := [CHR 0x22]\<rparr>"
  let ?q = "(begun ?arg ?p)\<lparr>m_testSpec := \<lparr>filters = [], invalidArgs = [?arg]\<rparr>\<rparr>"
  have clean: "clean ?p" "m_tagAliases ?p = []" by (simp_all add: clean_def TestSpecParser_new_def)
  have "visit_all ?arg ?arg (begun ?arg ?p) = visit_all ?arg (a @ '','' @ b @ [CHR 0x22]) ?o"
    using visit_quote [of "begun ?arg ?p"] clean(1) by (simp add: in_quotes_def)
  also have "\<dots> = visit_all ?arg ('','' @ b @ [CHR 0x22]) (reading a ?o)"
    using visit_quoted_text [of ?o a ?arg "'','' @ b @ [CHR 0x22]"] assms(1) by simp
  also have "\<dots> = Inr ?q"
    by (simp add: visitChar_def separate_def TestSpecParser_new_def reading_def begun_def)
  finally have visited: "visit_all ?arg ?arg (begun ?arg ?p) = Inr ?q" .
  have "endMode ?q = Inr ?q" by (simp add: endMode_def TestSpecParser_new_def begun_def startNewMode_def)
  then have "parse ?arg ?p = Inr ?q" using visited by (simp only: parse_clean [OF clean] sum.case)
  then show ?thesis
    using assms(2) by (simp add: Config_new_def Let_def testSpec_def addFilter_def TestSpecParser_new_def begun_def)
qed

theorem comma_in_name_invalid_witness:
  "\<exists>config. Config_new [] (ConfigData_default\<lparr>testsOrTags := [in_quotes ''push, read back'']\<rparr>) = Inr config \<and>
    cfg_testSpec config = \<lparr>filters = [], invalidArgs = [in_quotes ''push, read back'']\<rparr>"
  using comma_in_name_invalid [of "''push''" "ConfigData_default\<lparr>testsOrTags := [in_quotes ''push, read back'']\<rparr>" "'' read back''"]
  by simp

text \<open>A file without names takes away the last argument given before it.\<close>

theorem empty_list_drops_argument:
  "loadTestNamesFromFile (Some (replicate n '''')) file (data\<lparr>testsOrTags := as @ [a]\<rparr>) = Inr (data\<lparr>testsOrTags := as\<rparr>)"
proof -
  have "fold load_line (replicate n '''') ts = ts" for ts
    by (induction n) (simp_all add: load_line_def trim_strip strip_def)
  then show ?thesis by (simp add: loadTestNamesFromFile_def)
qed

end
