(* ===== verification/Catch_Compact_Reporter.thy ===== *)
theory Catch_Compact_Reporter
  imports Catch_Console_Reporter
begin

text \<open>
  \<open>catch_reporter_compact.cpp\<close>: the reporter that writes an assertion on a line. \<open>itMessage\<close> is
  the list of the messages that are left.
\<close>

section \<open>The totals\<close>

definition bothOrAll :: "u64 \<Rightarrow> string" where
  "bothOrAll count = (if count = 1 then '''' else if count = 2 then ''both '' else ''all '')"

definition compact_printTotals :: "Totals \<Rightarrow> piece list" where
  "compact_printTotals totals =
     (let tcs = testCases totals; asserted = assertions totals in
      if Counts_total tcs = 0 then [plain ''No tests ran.'']
      else if failed tcs = Counts_total tcs
      then [(Colour_ResultError, ''Failed '' @ bothOrAll (failed tcs) @ pluralise (failed tcs) ''test case'' @ '', failed '' @
          (if failed asserted = Counts_total asserted then bothOrAll (failed asserted) else '''') @
          pluralise (failed asserted) ''assertion'' @ ''.'')]
      else if Counts_total asserted = 0
      then [plain (''Passed '' @ bothOrAll (Counts_total tcs) @ pluralise (Counts_total tcs) ''test case'' @ '' (no assertions).'')]
      else if failed asserted \<noteq> 0
      then [(Colour_ResultError, ''Failed '' @ pluralise (failed tcs) ''test case'' @ '', failed '' @
          pluralise (failed asserted) ''assertion'' @ ''.'')]
      else [(Colour_ResultSuccess, ''Passed '' @ bothOrAll (passed tcs) @ pluralise (passed tcs) ''test case'' @
          '' with '' @ pluralise (passed asserted) ''assertion'' @ ''.'')])"

section \<open>AssertionPrinter\<close>

definition dimColour :: Colour where "dimColour = Colour_FileName"

definition failedString :: string where "failedString = ''failed''"
definition passedString :: string where "passedString = ''passed''"

definition compact_source :: "AssertionResult \<Rightarrow> piece" where
  "compact_source result = (Colour_FileName, show_location (ai_lineInfo (m_info result)) @ '':'')"

definition compact_resultType :: "Colour \<Rightarrow> string \<Rightarrow> piece list" where
  "compact_resultType colour word =
     (if word \<noteq> '''' then [(colour, CHR '' '' # word), plain '':''] else [])"

definition printIssue :: "string \<Rightarrow> piece list" where
  "printIssue issue = [plain (CHR '' '' # issue)]"

definition compact_originalExpression :: "AssertionResult \<Rightarrow> piece list" where
  "compact_originalExpression result = (if hasExpression result then [plain (CHR '' '' # getExpression result)] else [])"

definition printExpressionWas :: "AssertionResult \<Rightarrow> piece list" where
  "printExpressionWas result =
     (if hasExpression result
      then [plain '';'', (dimColour, '' expression was:'')] @ compact_originalExpression result else [])"

definition compact_reconstructedExpression :: "AssertionResult \<Rightarrow> piece list" where
  "compact_reconstructedExpression result =
     (if hasExpandedExpression result then [(dimColour, '' for: ''), plain (getExpandedExpression result)] else [])"

definition compact_message :: "MessageInfo list \<Rightarrow> piece list \<times> MessageInfo list" where
  "compact_message ms =
     (case ms of
        [] \<Rightarrow> ([], [])
      | m # rest \<Rightarrow> ([plain ([CHR '' '', CHR 0x27] @ mi_message m @ [CHR 0x27])], rest))"

fun message_loop :: "bool \<Rightarrow> MessageInfo list \<Rightarrow> piece list" where
  "message_loop printInfoMessages [] = []"
| "message_loop printInfoMessages (m # rest) =
     (if printInfoMessages \<or> mi_type m \<noteq> Info
      then fst (compact_message (m # rest)) @ (if rest \<noteq> [] then [(dimColour, '' and'')] else []) @
        message_loop printInfoMessages rest
      else message_loop printInfoMessages rest)"

definition printRemainingMessages :: "bool \<Rightarrow> Colour \<Rightarrow> MessageInfo list \<Rightarrow> piece list" where
  "printRemainingMessages printInfoMessages colour ms =
     (if ms = [] then []
      else (colour, '' with '' @ pluralise (of_nat (length ms)) ''message'' @ '':'') # message_loop printInfoMessages ms)"

text \<open>A message, what the expression was, and the other messages.\<close>

definition first_message :: "bool \<Rightarrow> AssertionResult \<Rightarrow> MessageInfo list \<Rightarrow> piece list" where
  "first_message printInfoMessages result ms =
     fst (compact_message ms) @ printExpressionWas result @
     printRemainingMessages printInfoMessages dimColour (snd (compact_message ms))"

definition compact_print :: "bool \<Rightarrow> AssertionStats \<Rightarrow> piece list" where
  "compact_print printInfoMessages stats =
     (let result = assertionResult stats; ms = infoMessages stats;
          expressions = compact_originalExpression result @ compact_reconstructedExpression result;
          remaining = printRemainingMessages printInfoMessages in
      compact_source result #
      (case resultType result of
         Ok \<Rightarrow> compact_resultType Colour_ResultSuccess passedString @ expressions @
           remaining (if \<not> hasExpression result then No_Colour else dimColour) ms
       | ExpressionFailed \<Rightarrow>
           (if AssertionResult_isOk result then compact_resultType Colour_ResultSuccess (failedString @ '' - but was ok'')
            else compact_resultType Colour_Error failedString) @ expressions @ remaining dimColour ms
       | ThrewException \<Rightarrow> compact_resultType Colour_Error failedString @
           printIssue ''unexpected exception with message:'' @ first_message printInfoMessages result ms
       | FatalErrorCondition \<Rightarrow> compact_resultType Colour_Error failedString @
           printIssue ''fatal error condition with message:'' @ first_message printInfoMessages result ms
       | DidntThrowException \<Rightarrow> compact_resultType Colour_Error failedString @
           printIssue ''expected exception, got none'' @ printExpressionWas result @ remaining dimColour ms
       | Info \<Rightarrow> compact_resultType No_Colour ''info'' @ fst (compact_message ms) @
           remaining dimColour (snd (compact_message ms))
       | Warning \<Rightarrow> compact_resultType No_Colour ''warning'' @ fst (compact_message ms) @
           remaining dimColour (snd (compact_message ms))
       | ExplicitFailure \<Rightarrow> compact_resultType Colour_Error failedString @ printIssue ''explicitly'' @ remaining No_Colour ms
       | Unknown \<Rightarrow> compact_resultType Colour_Error ''** internal error **''))"

section \<open>CompactReporter\<close>

record CompactReporter = StreamingReporterBase +
  compact_out :: "piece list"

definition CompactReporter_new :: "Config \<Rightarrow> catch_error + CompactReporter" where
  "CompactReporter_new config =
     map_sum id (\<lambda>base. StreamingReporterBase.extend base (CompactReporter.fields [])) (StreamingReporterBase_new config)"

definition compact_prints :: "piece list \<Rightarrow> CompactReporter \<Rightarrow> CompactReporter" where
  "compact_prints ps x = x\<lparr>compact_out := compact_out x @ ps\<rparr>"

definition compact_noMatchingTestCases :: "string \<Rightarrow> CompactReporter \<Rightarrow> CompactReporter" where
  "compact_noMatchingTestCases spec =
     compact_prints [plain (''No test cases matched '' @ [CHR 0x27] @ spec @ [CHR 0x27, newline])]"

definition compact_assertionEnded :: "AssertionStats \<Rightarrow> CompactReporter \<Rightarrow> CompactReporter" where
  "compact_assertionEnded stats x =
     (let result = assertionResult stats;
          unwanted = (\<not> showSuccessfulTests (cfg_data (reporter_config x)) \<and> AssertionResult_isOk result) in
      if unwanted \<and> resultType result \<noteq> Warning then x
      else compact_prints (compact_print (\<not> unwanted) stats @ [plain [newline]]) x)"

text \<open>The base class is not called: the section stays on the stack.\<close>

definition compact_sectionEnded :: "(string \<Rightarrow> bool) \<Rightarrow> SectionStats \<Rightarrow> CompactReporter \<Rightarrow> CompactReporter" where
  "compact_sectionEnded exceeds stats x =
     (if shouldShowDuration exceeds (reporter_config x) (durationInSeconds stats)
      then compact_prints [plain (durationInSeconds stats @ '' s: '' @ sec_name (ss_sectionInfo stats) @ [newline])] x
      else x)"

definition compact_testRunEnded :: "Totals \<Rightarrow> CompactReporter \<Rightarrow> CompactReporter" where
  "compact_testRunEnded totals x =
     base_testRunEnded (compact_prints (compact_printTotals totals @ [plain [newline, newline]]) x)"

fun compact_report :: "(string \<Rightarrow> bool) \<Rightarrow> Captured \<Rightarrow> report \<Rightarrow> CompactReporter \<Rightarrow> CompactReporter" where
  "compact_report exceeds cap (Report_testRunStarting nm) x = base_testRunStarting nm x"
| "compact_report exceeds cap (Report_testGroupStarting info) x = base_testGroupStarting info x"
| "compact_report exceeds cap (Report_testCaseStarting info) x = base_testCaseStarting info x"
| "compact_report exceeds cap (Report_sectionStarting info) x = base_sectionStarting info x"
| "compact_report exceeds cap (Report_assertionEnded result ms totals) x =
     compact_assertionEnded (AssertionStats_new result ms totals cap) x"
| "compact_report exceeds cap (Report_sectionEnded info cs missing) x =
     compact_sectionEnded exceeds
       \<lparr>ss_sectionInfo = info, ss_assertions = cs, durationInSeconds = cap_duration cap, missingAssertions = missing\<rparr> x"
| "compact_report exceeds cap (Report_testCaseEnded info totals ab) x = base_testCaseEnded x"
| "compact_report exceeds cap (Report_testGroupEnded info totals ab) x = base_testGroupEnded x"
| "compact_report exceeds cap (Report_testRunEnded nm totals ab) x = compact_testRunEnded totals x"
| "compact_report exceeds cap (Report_noMatchingTestCases spec) x = compact_noMatchingTestCases spec x"
| "compact_report exceeds cap _ x = x"

fun compact_reports :: "(string \<Rightarrow> bool) \<Rightarrow> (nat \<Rightarrow> Captured) \<Rightarrow> report list \<Rightarrow> CompactReporter \<Rightarrow> CompactReporter" where
  "compact_reports exceeds cap [] x = x"
| "compact_reports exceeds cap (r # rs) x = compact_reports exceeds (cap \<circ> Suc) rs (compact_report exceeds (cap 0) r x)"

end
