(* ===== verification/Catch_Compact_Report.thy ===== *)
theory Catch_Compact_Report
  imports Catch_Compact_Reporter Catch_Test_Run
begin

text \<open>
  The compact report: an assertion is a line, and where the line and the totals say something else
  than what happened.
\<close>

section \<open>One line\<close>

definition text_of :: "piece list \<Rightarrow> string" where
  "text_of ps = concat (map snd ps)"

lemma text_of_simps [simp]:
  "text_of [] = ''''" "text_of (p # ps) = snd p @ text_of ps" "text_of (ps @ qs) = text_of ps @ text_of qs"
  by (simp_all add: text_of_def)

text \<open>No line end in the texts that were taken from the source or given by the test.\<close>

definition flat :: "string \<Rightarrow> bool" where
  "flat s \<longleftrightarrow> newline \<notin> set s"

definition flat_stats :: "AssertionStats \<Rightarrow> bool" where
  "flat_stats stats \<longleftrightarrow>
     (let result = assertionResult stats in
      flat (src_file (ai_lineInfo (m_info result))) \<and> flat (capturedExpression (m_info result)) \<and>
      flat (reconstructedExpression result) \<and> (\<forall>m \<in> set (infoMessages stats). flat (mi_message m)))"

lemma flat_append [simp]: "flat (s @ t) \<longleftrightarrow> flat s \<and> flat t"
  and flat_Cons [simp]: "flat (ch # s) \<longleftrightarrow> ch \<noteq> newline \<and> flat s"
  and flat_Nil [simp]: "flat []"
  by (auto simp: flat_def)

lemma digit_flat: "n < 10 \<Longrightarrow> (char_of (48 + n :: nat) :: char) \<noteq> newline"
proof
  assume "n < 10" "(char_of (48 + n :: nat) :: char) = newline"
  then have "of_char (char_of (48 + n :: nat) :: char) = (of_char newline :: nat)" by simp
  with \<open>n < 10\<close> show False by (simp add: newline_def)
qed

lemma flat_decimal [simp]: "flat (decimal n)"
  by (induction n rule: decimal.induct) (subst decimal.simps, simp add: digit_flat)

lemma flat_message_loop:
  "\<forall>m \<in> set ms. flat (mi_message m) \<Longrightarrow> flat (text_of (message_loop b ms))"
  by (induction ms) (auto simp: compact_message_def plain_def newline_def dimColour_def)

lemma flat_remaining:
  "\<forall>m \<in> set ms. flat (mi_message m) \<Longrightarrow> flat (text_of (printRemainingMessages b c ms))"
  by (simp add: printRemainingMessages_def flat_message_loop pluralise_def newline_def)

lemma flat_message:
  "\<forall>m \<in> set ms. flat (mi_message m) \<Longrightarrow>
    flat (text_of (fst (compact_message ms))) \<and> (\<forall>m \<in> set (snd (compact_message ms)). flat (mi_message m))"
  by (cases ms) (simp_all add: compact_message_def plain_def newline_def)

lemma flat_expression:
  "flat (capturedExpression (m_info r)) \<Longrightarrow> flat (getExpression r)"
  by (simp add: getExpression_def newline_def Let_def)

lemma flat_expanded:
  "flat (capturedExpression (m_info r)) \<Longrightarrow> flat (reconstructedExpression r) \<Longrightarrow> flat (getExpandedExpression r)"
  by (simp add: getExpandedExpression_def flat_expression)

lemmas compact_parts = compact_resultType_def printIssue_def compact_originalExpression_def printExpressionWas_def
  compact_reconstructedExpression_def plain_def newline_def passedString_def failedString_def

lemma flat_print:
  assumes "flat_stats stats"
  shows "flat (text_of (compact_print b stats))"
proof -
  let ?r = "assertionResult stats" and ?ms = "infoMessages stats"
  have ms: "\<forall>m \<in> set ?ms. flat (mi_message m)" and e: "flat (getExpression ?r)" "flat (getExpandedExpression ?r)"
    and loc: "flat (show_location (ai_lineInfo (m_info ?r)))"
    using assms by (simp_all add: flat_stats_def Let_def flat_expression flat_expanded show_location_def newline_def)
  note parts = flat_message [OF ms] flat_remaining [OF ms] flat_remaining [OF conjunct2 [OF flat_message [OF ms]]]
  have "flat (text_of (first_message b ?r ?ms))"
    using parts e by (simp add: first_message_def printExpressionWas_def compact_originalExpression_def plain_def newline_def)
  then show ?thesis
    using parts e loc by (cases "resultType ?r")
      (simp_all add: compact_print_def Let_def compact_source_def compact_parts)
qed

text \<open>
  An assertion of the compact report is one line, whatever kind of result it is and however many
  messages it has: it begins with the place of the assertion, and the line end is its last character.
\<close>

theorem compact_one_line:
  assumes "flat_stats stats"
  shows "\<exists>ps line. compact_out (compact_assertionEnded stats x) = compact_out x @ ps \<and>
    (ps = [] \<longleftrightarrow> \<not> showSuccessfulTests (cfg_data (reporter_config x)) \<and>
      AssertionResult_isOk (assertionResult stats) \<and> resultType (assertionResult stats) \<noteq> Warning) \<and>
    (ps = [] \<or> text_of ps = show_location (ai_lineInfo (m_info (assertionResult stats))) @ '':'' @ line @ [newline] \<and>
      newline \<notin> set line)"
proof (cases "\<not> showSuccessfulTests (cfg_data (reporter_config x)) \<and>
      AssertionResult_isOk (assertionResult stats) \<and> resultType (assertionResult stats) \<noteq> Warning")
  case True
  then show ?thesis by (intro exI [of _ "[]"]) (simp add: compact_assertionEnded_def Let_def)
next
  case False
  let ?b = "showSuccessfulTests (cfg_data (reporter_config x)) \<or> \<not> AssertionResult_isOk (assertionResult stats)"
  obtain qs where qs: "compact_print ?b stats = compact_source (assertionResult stats) # qs"
    by (simp add: compact_print_def Let_def)
  have "flat (text_of qs)" using flat_print [OF assms, of ?b] qs by simp
  moreover have "compact_out (compact_assertionEnded stats x) = compact_out x @ (compact_source (assertionResult stats) # qs @ [plain [newline]])"
    using False qs by (auto simp: compact_assertionEnded_def compact_prints_def Let_def)
  ultimately show ?thesis using False
    by (intro exI [of _ "compact_source (assertionResult stats) # qs @ [plain [newline]]"] exI [of _ "text_of qs"])
      (simp add: compact_source_def plain_def flat_def)
qed

section \<open>A warning and its messages\<close>

text \<open>
  For a warning the first message is written whatever it is, though messages of \<open>INFO\<close> are to be
  left out; the number of messages counts those that are left out as well.
\<close>

theorem warning_shows_info:
  assumes "resultType (assertionResult stats) = Warning" and "infoMessages stats = i # is @ [w]"
    and "\<forall>m \<in> set (i # is). mi_type m = Info" and "mi_type w = Warning"
  shows "text_of (compact_print False stats) =
    show_location (ai_lineInfo (m_info (assertionResult stats))) @ '': warning: '' @
    [CHR 0x27] @ mi_message i @ [CHR 0x27] @ '' with '' @ pluralise (of_nat (Suc (length is))) ''message'' @ '': '' @
    [CHR 0x27] @ mi_message w @ [CHR 0x27]"
proof -
  have loop: "message_loop False (is @ [w]) = [plain ([CHR '' '', CHR 0x27] @ mi_message w @ [CHR 0x27])]"
    using assms(3,4) by (induction "is") (simp_all add: compact_message_def)
  show ?thesis
    by (simp add: compact_print_def assms(1,2) compact_source_def compact_resultType_def compact_message_def
        printRemainingMessages_def loop plain_def Let_def)
qed

definition example_message :: "ResultWas \<Rightarrow> string \<Rightarrow> MessageInfo" where
  "example_message r msg = \<lparr>mi_macroName = ''INFO'', mi_message = msg, mi_lineInfo = \<lparr>src_file = ''main.cpp'', src_line = 7\<rparr>,
     mi_type = r, mi_sequence = 1\<rparr>"

definition example_warning :: AssertionStats where
  "example_warning = \<lparr>assertionResult = \<lparr>m_info = \<lparr>macroName = ''WARN'',
       ai_lineInfo = \<lparr>src_file = ''main.cpp'', src_line = 7\<rparr>, capturedExpression = '''', resultDisposition = Normal\<rparr>,
       res_message = ''slow'', reconstructedExpression = '''', resultType = Warning\<rparr>,
     infoMessages = [example_message Info ''page 1'', example_message Info ''page 2'', example_message Warning ''slow''],
     as_totals = Totals_zero\<rparr>"

theorem warning_shows_info_witness:
  "text_of (compact_print False example_warning) =
   ''main.cpp:7: warning: '' @ [CHR 0x27] @ ''page 1'' @ [CHR 0x27] @ '' with 2 messages: '' @ [CHR 0x27] @ ''slow'' @ [CHR 0x27]"
proof -
  have "decimal 7 = ''7''" "pluralise (of_nat (Suc (Suc 0))) ''message'' = ''2 messages''" by code_simp+
  then show ?thesis
    using warning_shows_info [of example_warning "example_message Info ''page 1''" "[example_message Info ''page 2'']" "example_message Warning ''slow''"]
    by (simp add: example_warning_def example_message_def show_location_def del: of_nat_Suc)
qed

section \<open>A failure that is called passed\<close>

text \<open>
  A test that must fail and passes is counted as a failed test case, and its delta has a failed
  assertion, which reaches the exit code; but the totals of the run count no failed assertion, and
  then the compact report says in green that the others passed.
\<close>

theorem unexpected_pass_called_passed:
  assumes "expectedToFail info" and "passed (testCases (Totals_delta (m_totals rc) prev)) > 0"
    and "test_ended info prev rc = (d, rc')"
    and "failed (assertions (m_totals rc)) = 0" and "Counts_total (assertions (m_totals rc)) \<noteq> 0"
    and "Counts_total (testCases (m_totals rc')) \<noteq> 0" and "failed (testCases (m_totals rc')) \<noteq> Counts_total (testCases (m_totals rc'))"
  shows "failed (testCases d) = failed (testCases (Totals_delta (m_totals rc) prev)) + 1 \<and>
    failed (assertions d) = failed (assertions (Totals_delta (m_totals rc) prev)) + 1 \<and>
    (\<exists>rest. compact_printTotals (m_totals rc') = [(Colour_ResultSuccess, ''Passed '' @ rest)])"
proof -
  have d: "d = expected_failure info (Totals_delta (m_totals rc) prev)" and a: "assertions (m_totals rc') = assertions (m_totals rc)"
    using assms(3) by (auto simp: test_ended_def report_def Let_def)
  show ?thesis
    using assms by (simp add: d expected_failure_def inc_failed_def compact_printTotals_def Let_def a)
qed

definition example_shouldfail :: TestCaseInfo where
  "example_shouldfail = setTags example_info [''!shouldfail'']"

definition example_totals :: Totals where
  "example_totals = \<lparr>error = 0, assertions = \<lparr>passed = 2, failed = 0, failedButOk = 0\<rparr>,
     testCases = \<lparr>passed = 1, failed = 0, failedButOk = 0\<rparr>\<rparr>"

theorem unexpected_pass_called_passed_witness:
  "\<exists>d rc'. test_ended example_shouldfail (example_totals\<lparr>assertions := \<lparr>passed = 1, failed = 0, failedButOk = 0\<rparr>\<rparr>)
      ((RunContext_new example_config False :: nat RunContext)\<lparr>m_totals := example_totals\<rparr>) = (d, rc') \<and>
    failed (assertions d) = 1 \<and> failed (testCases (m_totals rc')) = 1 \<and>
    (\<exists>rest. compact_printTotals (m_totals rc') = [(Colour_ResultSuccess, ''Passed '' @ rest)])"
proof -
  let ?prev = "example_totals\<lparr>assertions := \<lparr>passed = 1, failed = 0, failedButOk = 0\<rparr>\<rparr>"
  let ?rc = "(RunContext_new example_config False :: nat RunContext)\<lparr>m_totals := example_totals\<rparr>"
  obtain d rc' where e: "test_ended example_shouldfail ?prev ?rc = (d, rc')" by fastforce
  have x: "expectedToFail example_shouldfail" by code_simp
  have delta: "Totals_delta (m_totals ?rc) ?prev = \<lparr>error = 0, assertions = \<lparr>passed = 1, failed = 0, failedButOk = 0\<rparr>,
      testCases = \<lparr>passed = 1, failed = 0, failedButOk = 0\<rparr>\<rparr>"
    by (simp add: example_totals_def Totals_delta_def Totals_minus_def Counts_minus_def Let_def)
  have rc': "m_totals rc' = example_totals\<lparr>testCases := \<lparr>passed = 1, failed = 1, failedButOk = 0\<rparr>\<rparr>"
    using e x delta by (auto simp: test_ended_def expected_failure_def inc_failed_def Counts_plus_def example_totals_def report_def Let_def)
  have "passed (testCases (Totals_delta (m_totals ?rc) ?prev)) > 0" unfolding delta by simp
  moreover have "failed (assertions (m_totals ?rc)) = 0" "Counts_total (assertions (m_totals ?rc)) \<noteq> 0"
    by (simp_all add: example_totals_def Counts_total_def)
  moreover have "Counts_total (testCases (m_totals rc')) \<noteq> 0" "failed (testCases (m_totals rc')) \<noteq> Counts_total (testCases (m_totals rc'))"
    by (simp_all add: rc' Counts_total_def)
  ultimately show ?thesis
    using unexpected_pass_called_passed [OF x _ e] e rc' unfolding delta by simp
qed

end
