(* ===== verification/Catch_Listening_Reporter.thy ===== *)
theory Catch_Listening_Reporter
  imports Catch_Junit_Reporter
begin

text \<open>
  \<open>catch_reporter_listening.cpp\<close>: the reporter that hands every call to the listeners, in the order
  they were added, and then to the one real reporter; and the choice of the reporter of a session.
\<close>

section \<open>ListeningReporter\<close>

text \<open>
  A reporter is what a call makes of its state, which may not end or break an assertion. Without a
  reporter a call would go through a null pointer, here an error.
\<close>

type_synonym 's on_call = "report \<Rightarrow> 's \<Rightarrow> 's computed"

record 's ListeningReporter =
  m_listeners :: "'s list"
  m_reporter :: "'s option"
  m_preferences :: ReporterPreferences

definition ListeningReporter_new :: "'s ListeningReporter" where
  "ListeningReporter_new = \<lparr>m_listeners = [], m_reporter = None,
     m_preferences = \<lparr>shouldRedirectStdOut = False, shouldReportAllAssertions = True\<rparr>\<rparr>"

definition addListener :: "'s \<Rightarrow> 's ListeningReporter \<Rightarrow> 's ListeningReporter" where
  "addListener l x = x\<lparr>m_listeners := m_listeners x @ [l]\<rparr>"

definition addReporter ::
  "('s \<Rightarrow> ReporterPreferences) \<Rightarrow> 's \<Rightarrow> 's ListeningReporter \<Rightarrow> catch_error + 's ListeningReporter" where
  "addReporter getPreferences rep x =
     (if m_reporter x \<noteq> None then Inl Assert_Failed
      else Inr (x\<lparr>m_reporter := Some rep,
        m_preferences := (m_preferences x)\<lparr>shouldRedirectStdOut := shouldRedirectStdOut (getPreferences rep)\<rparr>\<rparr>))"

fun call_listeners :: "'s on_call \<Rightarrow> report \<Rightarrow> 's list \<Rightarrow> 's list computed" where
  "call_listeners on_call r [] = computed []"
| "call_listeners on_call r (l # ls) =
     and_then (on_call r l) (\<lambda>l'. and_then (call_listeners on_call r ls) (\<lambda>ls'. computed (l' # ls')))"

text \<open>
  All calls that are overridden have the same body. \<open>fatalErrorEncountered\<close> is not: it keeps the
  empty body of the interface.
\<close>

definition overridden :: "report \<Rightarrow> bool" where
  "overridden r \<longleftrightarrow> (case r of Report_fatalErrorEncountered message \<Rightarrow> False | _ \<Rightarrow> True)"

definition listening_report :: "'s on_call \<Rightarrow> report \<Rightarrow> 's ListeningReporter \<Rightarrow> 's ListeningReporter computed" where
  "listening_report on_call r x =
     (if overridden r
      then and_then (call_listeners on_call r (m_listeners x)) (\<lambda>ls.
        case m_reporter x of
          None \<Rightarrow> Some (Inl Assert_Failed)
        | Some rep \<Rightarrow> and_then (on_call r rep) (\<lambda>rep'. computed (x\<lparr>m_listeners := ls, m_reporter := Some rep'\<rparr>)))
      else computed x)"

fun all_reports :: "(report \<Rightarrow> 'x \<Rightarrow> 'x computed) \<Rightarrow> report list \<Rightarrow> 'x \<Rightarrow> 'x computed" where
  "all_reports on_call [] x = computed x"
| "all_reports on_call (r # rs) x = and_then (on_call r x) (all_reports on_call rs)"

section \<open>The reporter of a session\<close>

text \<open>The registry: the factories of the reporters by name, and those of the listeners.\<close>

type_synonym 's factory = "Config \<Rightarrow> catch_error + 's"

datatype 's session_reporter = Single 's | Multi "'s ListeningReporter"

definition createReporter :: "(string \<times> 's factory) list \<Rightarrow> string \<Rightarrow> 's factory" where
  "createReporter factories nm config =
     (case map_of factories nm of
        None \<Rightarrow> Inl (Internal_Error (''No reporter registered with name: '' @ [CHR 0x27] @ nm @ [CHR 0x27]))
      | Some create \<Rightarrow> create config)"

fun create_listeners :: "'s factory list \<Rightarrow> Config \<Rightarrow> 's ListeningReporter \<Rightarrow> catch_error + 's ListeningReporter" where
  "create_listeners [] config x = Inr x"
| "create_listeners (f # fs) config x =
     (case f config of Inl e \<Rightarrow> Inl e | Inr l \<Rightarrow> create_listeners fs config (addListener l x))"

definition makeReporter ::
  "('s \<Rightarrow> ReporterPreferences) \<Rightarrow> (string \<times> 's factory) list \<Rightarrow> 's factory list \<Rightarrow> Config \<Rightarrow>
   catch_error + 's session_reporter" where
  "makeReporter getPreferences factories listeners config =
     (let create = createReporter factories (reporterName (cfg_data config)) config in
      if listeners = [] then map_sum id Single create
      else case create_listeners listeners config ListeningReporter_new of
          Inl e \<Rightarrow> Inl e
        | Inr multi \<Rightarrow>
            (case create of
               Inl e \<Rightarrow> Inl e
             | Inr rep \<Rightarrow> map_sum id Multi (addReporter getPreferences rep multi)))"

fun session_report :: "'s on_call \<Rightarrow> 's session_reporter on_call" where
  "session_report on_call r (Single s) = and_then (on_call r s) (\<lambda>s'. computed (Single s'))"
| "session_report on_call r (Multi x) = and_then (listening_report on_call r x) (\<lambda>x'. computed (Multi x'))"

section \<open>Listeners do not change the report\<close>

lemma computed_step:
  "and_then (computed v) f = f v" "and_then c f = computed w \<longleftrightarrow> (\<exists>v. c = computed v \<and> f v = computed w)"
  by (auto simp: and_then_def computed_def split: option.splits sum.splits)

lemma call_listeners_ok:
  "list_all2 (\<lambda>l l'. on_call r l = computed l') ls ls' \<Longrightarrow> call_listeners on_call r ls = computed ls'"
  by (induction ls ls' rule: list_all2_induct) (simp_all add: computed_step(1))

lemma all_reports_Cons:
  assumes "list_all2 (\<lambda>l l'. all_reports on_call (r # rs) l = computed l') ls ls'"
  obtains ms where "list_all2 (\<lambda>l m. on_call r l = computed m) ls ms"
    and "list_all2 (\<lambda>m l'. all_reports on_call rs m = computed l') ms ls'"
proof -
  have "list_all2 (\<lambda>l l'. \<exists>m. on_call r l = computed m \<and> all_reports on_call rs m = computed l') ls ls'"
    using assms by (simp add: computed_step(2))
  then have "\<exists>ms. list_all2 (\<lambda>l m. on_call r l = computed m) ls ms \<and>
      list_all2 (\<lambda>m l'. all_reports on_call rs m = computed l') ms ls'"
  proof (induction ls ls' rule: list_all2_induct)
    case (Cons l ls l' ls')
    then obtain m ms where "on_call r l = computed m \<and> all_reports on_call rs m = computed l'"
      "list_all2 (\<lambda>l m. on_call r l = computed m) ls ms" "list_all2 (\<lambda>m l'. all_reports on_call rs m = computed l') ms ls'"
      by blast
    then show ?case by (intro exI [of _ "m # ms"]) simp
  qed simp
  then show thesis using that by blast
qed

text \<open>
  Through the \<open>ListeningReporter\<close> every listener and the reporter come to the state they would come
  to alone, given all calls of a run except the fatal errors.
\<close>

theorem listeners_independent:
  assumes "list_all2 (\<lambda>l l'. all_reports on_call (filter overridden rs) l = computed l') (m_listeners x) ls'"
    and "m_reporter x = Some rep" and "all_reports on_call (filter overridden rs) rep = computed rep'"
  shows "all_reports (listening_report on_call) rs x = computed (x\<lparr>m_listeners := ls', m_reporter := Some rep'\<rparr>)"
  using assms
proof (induction rs arbitrary: x rep)
  case Nil
  then have "ls' = m_listeners x" "rep' = rep" by (auto simp: computed_def list_all2_eq [symmetric] list.rel_eq)
  then show ?case using Nil(2) by (cases x) simp
next
  case (Cons r rs)
  show ?case
  proof (cases "overridden r")
    case True
    then have "list_all2 (\<lambda>l l'. all_reports on_call (r # filter overridden rs) l = computed l') (m_listeners x) ls'"
      using Cons.prems(1) by (simp only: filter.simps if_True)
    then obtain ms where ms: "list_all2 (\<lambda>l m. on_call r l = computed m) (m_listeners x) ms"
      "list_all2 (\<lambda>m l'. all_reports on_call (filter overridden rs) m = computed l') ms ls'"
      by (rule all_reports_Cons)
    obtain mid where mid: "on_call r rep = computed mid" "all_reports on_call (filter overridden rs) mid = computed rep'"
      using Cons.prems(3) True by (auto simp: computed_step(2))
    let ?x = "x\<lparr>m_listeners := ms, m_reporter := Some mid\<rparr>"
    have "listening_report on_call r x = computed ?x"
      using True Cons.prems(2) mid(1) call_listeners_ok [where on_call = on_call and r = r, OF ms(1)] by (simp add: listening_report_def computed_step(1))
    then show ?thesis using Cons.IH [of ?x mid] ms(2) mid(2) by (simp add: computed_step(1))
  next
    case False
    then show ?thesis using Cons by (simp add: listening_report_def computed_step(1))
  qed
qed

theorem listeners_independent_witness:
  "all_reports (listening_report (\<lambda>r n. computed (Suc n))) [Report_noMatchingTestCases ''a'', Report_fatalErrorEncountered ''b'']
     \<lparr>m_listeners = [5, 7], m_reporter = Some 1,
      m_preferences = \<lparr>shouldRedirectStdOut = False, shouldReportAllAssertions = True\<rparr>\<rparr> =
   computed \<lparr>m_listeners = [6, 8], m_reporter = Some (2 :: nat),
      m_preferences = \<lparr>shouldRedirectStdOut = False, shouldReportAllAssertions = True\<rparr>\<rparr>"
proof -
  let ?x = "\<lparr>m_listeners = [5, 7], m_reporter = Some (1 :: nat),
      m_preferences = \<lparr>shouldRedirectStdOut = False, shouldReportAllAssertions = True\<rparr>\<rparr>"
  let ?rs = "[Report_noMatchingTestCases ''a'', Report_fatalErrorEncountered ''b'']"
  have heard: "filter overridden ?rs = [Report_noMatchingTestCases ''a'']" by (simp add: overridden_def)
  have "list_all2 (\<lambda>l l'. all_reports (\<lambda>r n. computed (Suc n)) (filter overridden ?rs) l = computed l') (m_listeners ?x) [6, 8]"
    unfolding heard by (simp add: computed_step(1))
  moreover have "m_reporter ?x = Some 1" by simp
  moreover have "all_reports (\<lambda>r n. computed (Suc n)) (filter overridden ?rs) 1 = computed 2"
    unfolding heard by (simp add: computed_step(1) numeral_2_eq_2)
  ultimately have "all_reports (listening_report (\<lambda>r n. computed (Suc n))) ?rs ?x =
      computed (?x\<lparr>m_listeners := [6, 8], m_reporter := Some 2\<rparr>)"
    by (rule listeners_independent)
  then show ?thesis by (simp only: ListeningReporter.update_convs)
qed

text \<open>A fatal error reaches the one reporter of a session, but no reporter behind listeners.\<close>

theorem fatal_error_not_forwarded:
  "session_report on_call (Report_fatalErrorEncountered message) (Multi x) = computed (Multi x)"
  by (simp add: listening_report_def overridden_def computed_step(1))

end
