(* ===== verification/Spec2Isabelle.thy ===== *)
theory Spec2Isabelle
  imports Aws_Setup Transplant Messages Host_Protocol Dram_Bursts Server_Main Test_Properties Examples Catch_Help_Screen Catch_Failing_Sections Catch_Junit_Report Catch_Console_Report Simulated_Registers Catch_List_Names Catch_Compact_Report Catch_Listening_Reporter
begin

text \<open>
  Verification of the simulation and host software of KnockoutKraken (\<open>src/regression/src\<close>).

  \<^bold>\<open>The program.\<close> Two C/C++ programs talk over two Unix sockets. The client (\<open>client/\<close>) is the
  host side of the ARMFlex FPGA: it starts, stops and transplants threads, answers page faults
  and moves pages, through four accessors (\<open>readAXIL\<close>, \<open>writeAXIL\<close>, \<open>readAXI\<close>,
  \<open>writeAXI\<close>) with two implementations chosen at link time, the AWS F1 SDK (\<open>fpga_aws.c\<close>)
  and the sockets (\<open>fpga_rtl.c\<close>). The server (\<open>server/\<close>) simulates the design: \<open>TopDUT\<close>
  holds the Verilated RTL and a DRAM array, three threads (\<open>subroutine.cc\<close>) serve the
  design's AXI master port, the AXI-Lite socket and the AXI socket, and a clock barrier
  (\<open>dut.cc\<close>) lets every thread run once per cycle of the main loop (\<open>main.cc\<close>).

  \<^bold>\<open>The theories.\<close>
  \<^item> \<open>Prelude\<close>: machine words as little-endian bytes, memory ranges, the collections of hints.
  \<^item> \<open>Wire\<close>: the request structures of \<open>client/ipc.h\<close> and \<open>server/ipc.hh\<close> and their layout.
  \<^item> \<open>Kernel\<close>: the socket calls as a record of functions over an arbitrary world, the laws of
    byte streams as locales. \<open>Client_IPC\<close> (\<open>client/ipc.c\<close>) and \<open>Server_IPC\<close>
    (\<open>server/ipc.cc\<close>) are the transfer loops over them.
  \<^item> \<open>Messages\<close> (\<open>fpga_interface.h\<close>), \<open>Fpga\<close> (\<open>fpga.h\<close>), \<open>Fpga_Rtl\<close> (\<open>fpga_rtl.c\<close>),
    \<open>Fpga_Aws\<close> (\<open>fpga_aws.c\<close>), \<open>Fpga_Interface\<close> (\<open>fpga_interface.c\<close>): the client.
  \<^item> \<open>Dut\<close> (\<open>dut.hh\<close>, \<open>dut.cc\<close>), \<open>Simulation_State\<close>, \<open>Dram_Routine\<close>, \<open>Axil_Routine\<close>,
    \<open>Axi_Routine\<close> (\<open>subroutine.cc\<close>), \<open>Clock\<close> (the barrier and \<open>main.cc\<close>), \<open>Server_Main\<close>
    (the set-up): the server.
  \<^item> \<open>Transplant\<close>, \<open>Message_Queue\<close>, \<open>Paging\<close>, \<open>Aws_Setup\<close>, \<open>Sockets\<close>, \<open>Transport\<close>: what the
    client's parts promise, the sockets' laws on an in-memory kernel.
  \<^item> \<open>Dram_Bursts\<close>, \<open>Host_Protocol\<close>, \<open>Barrier\<close>, \<open>Simulator\<close>: what the server's parts promise,
    and both programs together. \<open>Axil_Slave\<close>, \<open>Register_Block\<close>, \<open>Simulated_Registers\<close>: designs
    with registers behind their AXI-Lite port, a small one, and the client's register accesses
    through the whole simulation.

  \<^bold>\<open>The tests.\<close> The client is run by its test cases, so they are programs of the repository too.
  \<^item> \<open>Test_Harness\<close> (\<open>test-helpers.cc\<close>, \<open>asm_helpers.c\<close>), \<open>Test_Cases\<close> (\<open>main.cpp\<close>),
    \<open>Load_Store_Tests\<close> (\<open>load-store.cc\<close>, \<open>host-control.cc\<close>), \<open>Stress_Test\<close>
    (\<open>back-pressure.cc\<close>): a test is a statement over a frame (context, variables of the test,
    outcome), built with sequencing, \<open>REQUIRE\<close> and loops; \<open>Test_Properties\<close> shows what some of
    them check, and what they do not.
  \<^item> \<open>Examples\<close>: the echo programs and the sketch of the barrier in \<open>example/\<close>.
  \<^item> \<open>Catch_Strings\<close>, \<open>Catch_Test_Case\<close>, \<open>Catch_Test_Spec\<close>, \<open>Catch_Config\<close>,
    \<open>Catch_Registry\<close>, \<open>Catch_Totals\<close>, \<open>Catch_Tracking\<close>, \<open>Catch_Run_Context\<close>,
    \<open>Catch_Session\<close>, \<open>Catch_Xml\<close>, \<open>Catch_Xml_Writer\<close>: the parts of the test framework in \<open>catch.hpp\<close> that decide
    which tests run, how often, with which sections, and what is counted and reported.
  \<^item> \<open>Catch_Selection\<close>, \<open>Catch_Spec_Syntax\<close>: wildcard patterns against a reference matcher,
    tags, the order of tests, the syntax of test specifications parsed back. \<open>Catch_Assertions\<close>:
    counters and control flow of an assertion. \<open>Catch_Tracker_Tree\<close>, \<open>Catch_Sections\<close>,
    \<open>Catch_Section_Cycles\<close>: the store of section trackers refined to a tree addressed by paths, and
    with it that \<open>runTest\<close> returns after every innermost section has run once;
    \<open>Catch_Failing_Sections\<close>: that it returns whatever the assertions do.
    \<open>Catch_Xml_Safety\<close>: what the XML encoder never writes; \<open>Catch_Xml_Layout\<close>: the file the
    XML writer produces, against a layout by recursion on the document.
  \<^item> \<open>Catch_Reporter_Bases\<close>, \<open>Catch_Xml_Reporter\<close>, \<open>Catch_Junit_Reporter\<close>, \<open>Catch_Text_Flow\<close>: the
    reporters that write files, and the layout of text into columns. \<open>Catch_Report_Protocol\<close>: the
    phases of a run as its reporter sees them, kept by every operation of the run context;
    \<open>Catch_Test_Run\<close>: a whole run ends and goes through these phases; \<open>Catch_Xml_Report\<close>,
    \<open>Catch_Junit_Report\<close>: the reports are complete, by a simulation of the phases, the second on
    \<open>Catch_Junit_Contents\<close>: the walk over the tree of sections writes every failure;
    \<open>Catch_Text_Wrap\<close>: wrapped text keeps the width and its characters.
  \<^item> \<open>Catch_Clara\<close>, \<open>Catch_Command_Line\<close>: the option parser, the options of the test program and
    the session that applies them. \<open>Catch_Command_Tokens\<close>: the lazy token stream refined to a list,
    and the parser to a reading of it that ends; \<open>Catch_Command_Settings\<close>: settings written as
    arguments and parsed back; \<open>Catch_Command_Run\<close>: what this gives for the test program, from the
    arguments to the tests that are selected and the exit code; \<open>Catch_Help_Screen\<close>: columns side
    by side as rows of lines, and the help screen.
  \<^item> \<open>Catch_Console_Reporter\<close>: the reporter on the terminal, as coloured pieces of text;
    \<open>Catch_Console_Report\<close>: it takes every run and shows every failure, and its bar shows them too.
  \<^item> \<open>Catch_List\<close>: the listings of tests, names, tags and reporters; \<open>Catch_List_Names\<close>: the names
    listed into a file and given back select the same tests. \<open>Catch_Compact_Reporter\<close>: the reporter
    of one line for each assertion; \<open>Catch_Compact_Report\<close>: that it is one line, and where the line or
    the totals mislead. \<open>Catch_Listening_Reporter\<close>: listeners before a reporter, each as if alone.

  \<^bold>\<open>How the code is modelled.\<close> Structures are records, enumerations datatypes, integers words of
  their width. A function that can fail returns the code the C function returns; a call that
  may never return is a value of an option type, with \<open>None\<close> for divergence
  (\<open>partial_function\<close>), so that returning is something to prove. Only the recursion of the JUnit
  reporter over its tree of sections has fuel, the number of nodes, which is enough as children
  are made after their parents. Code that is
  not in the repository is a parameter: the operating system (\<open>kernel\<close>), the AWS SDK
  (\<open>aws_sdk\<close>), files, the clock and floating point conversion as the options see them
  (\<open>Outside\<close>), the Verilated design (its ports are a record, its \<open>eval\<close> an argument
  \<open>ev\<close>). A thread of the server runs with the lock from one \<open>TICK\<close> to the next, so each
  subroutine is a function from the \<open>TICK\<close> it waits in (a label with the live locals) to
  the next one, and the threads are a step relation over these pieces. The relation has a flag for
  spurious wakeups, returns of a condition variable's \<open>wait\<close> that nobody has caused: what the
  barrier promises holds without them only, and \<open>Barrier\<close> shows that one of them breaks it. The
  handler of \<open>SIGINT\<close> may set \<open>closeprogram\<close> at any time; what the main loop finds in it is an
  argument of \<open>main_iteration\<close>, and either value in the step relation.

  \<^bold>\<open>Scope.\<close> The properties of the routines assume that \<open>eval\<close> and the other threads do not write the
  inputs of the port the routine drives, those about the contents of bursts that nobody else
  writes the DRAM array meanwhile; those about registers seen through the design assume a design
  with a register file behind its AXI-Lite port. Whole runs of the tests are runs without \<open>-c\<close> and
  without \<open>-w NoAssertions\<close>, with sections that can be told apart. Each property says which of these
  it needs.

  \<^bold>\<open>Interfaces.\<close> \<open>byte_sink\<close>, \<open>live_sink\<close>, \<open>byte_source\<close>, \<open>live_source\<close>, \<open>socket_table\<close> and
  \<open>duplex\<close> are the laws of sockets, interpreted on the in-memory kernel of \<open>Sockets\<close>;
  \<open>axil_registers\<close> is a register file behind AXI-Lite, interpreted on the AWS backend
  and on the simulator as its client sees it;
  \<open>reporting_body\<close> is what the reporter needs of a test body, interpreted on the bodies made of
  statements; \<open>subroutine\<close> is the contract of the three threads, interpreted on each; \<open>axi_memory\<close> is
  memory behind AXI, interpreted on the simulator as its client sees it.

  \<^bold>\<open>Not modelled.\<close> The rest of \<open>catch.hpp\<close>, third-party code the client uses only through macros:
  expression templates and their printing, matchers, generators,
  the colours of the terminal, benchmarks and signal handlers (the calls of the reporter are
  a list, which the models of the reporters consume; the \<open>next()\<close> of generators is a parameter). The Chisel sources (Scala); printing and waveform tracing, which write output
  only; the storage of deleted objects. Accesses outside an array are recorded in a ghost field
  (\<open>dram_oob\<close>) and otherwise go to the word of that index.
\<close>


end
